(* ===== verification/Prelude.thy ===== *)
theory Prelude
  imports Main "HOL-Library.Word"
begin

text \<open>
  Shared vocabulary of the development: the machine types of the Go code, the little- and
  big-endian conversions of the standard package encoding/binary, the byte-slice helpers of
  src/pkg/util/slice/array.go, and the generic lemmas on lists and options that the component
  theories use.
\<close>

unbundle bit_operations_syntax

section \<open>Types\<close>

type_synonym byte = "8 word"
type_synonym bytes = "byte list"
type_synonym u16 = "16 word"
type_synonym u32 = "32 word"
type_synonym u64 = "64 word"
type_synonym u256 = "256 word"

text \<open>Go's \<open>int32\<close> and \<open>int\<close> are the same words, read through \<^const>\<open>sint\<close>.\<close>

type_synonym i32 = "32 word"

text \<open>A \<open>common.Hash\<close> (32 bytes) and a \<open>common.Address\<close> (20 bytes).\<close>

type_synonym hash = bytes
type_synonym address = bytes

named_theorems codec_simps \<open>round-trip equations of the binary codecs\<close>
named_theorems io_simps \<open>unfolding of reader and writer primitives\<close>

section \<open>Errors as results\<close>

definition bind_res :: "'e + 'a \<Rightarrow> ('a \<Rightarrow> 'e + 'b) \<Rightarrow> 'e + 'b" where
  "bind_res m f = (case m of Inl e \<Rightarrow> Inl e | Inr x \<Rightarrow> f x)"

lemma bind_res_simps [simp]:
  "bind_res (Inl e) f = Inl e"
  "bind_res (Inr x) f = f x"
  by (simp_all add: bind_res_def)

lemma bind_res_Inr [simp]:
  "bind_res m f = Inr y \<longleftrightarrow> (\<exists>x. m = Inr x \<and> f x = Inr y)"
  by (cases m) auto

section \<open>encoding/binary\<close>

text \<open>
  \<open>PutUint16/32/64\<close> and \<open>Uint16/32/64\<close> of \<open>binary.LittleEndian\<close>: the byte of
  weight \<open>256 ^ i\<close> is at offset \<open>i\<close>.
\<close>

primrec put_le :: "nat \<Rightarrow> 'a::len word \<Rightarrow> bytes" where
  "put_le 0 w = []"
| "put_le (Suc n) w = ucast w # put_le n (drop_bit 8 w)"

fun get_le :: "bytes \<Rightarrow> 'a::len word" where
  "get_le [] = 0"
| "get_le (b # bs) = ucast b OR push_bit 8 (get_le bs)"

definition put_be :: "nat \<Rightarrow> 'a::len word \<Rightarrow> bytes" where
  "put_be n w = rev (put_le n w)"

definition get_be :: "bytes \<Rightarrow> 'a::len word" where
  "get_be bs = get_le (rev bs)"

lemma length_put_le [simp]: "length (put_le n w) = n"
  by (induction n arbitrary: w) auto

lemma length_put_be [simp]: "length (put_be n w) = n"
  by (simp add: put_be_def)

lemma get_put_le_take: "get_le (put_le n w) = take_bit (8 * n) (w :: 'a::len word)"
proof (induction n arbitrary: w)
  case 0
  show ?case by simp
next
  case (Suc n)
  have "ucast (ucast w :: byte) OR push_bit 8 (take_bit (8 * n) (drop_bit 8 w))
      = take_bit (8 * Suc n) w"
    by (rule bit_word_eqI) (auto simp: bit_simps)
  with Suc show ?case by simp
qed

lemma get_put_le [codec_simps]:
  "LENGTH('a) \<le> 8 * n \<Longrightarrow> get_le (put_le n w) = (w :: 'a::len word)"
  by (simp add: get_put_le_take take_bit_word_eq_self)

lemma get_put_be [codec_simps]:
  "LENGTH('a) \<le> 8 * n \<Longrightarrow> get_be (put_be n w) = (w :: 'a::len word)"
  by (simp add: get_be_def put_be_def get_put_le)

lemma put_get_le:
  "8 * length bs \<le> LENGTH('a) \<Longrightarrow> put_le (length bs) (get_le bs :: 'a::len word) = bs"
proof (induction bs)
  case Nil
  show ?case by simp
next
  case (Cons b bs)
  then have len: "8 * length bs + 8 \<le> LENGTH('a)" by simp
  have "ucast (ucast b OR push_bit 8 (get_le bs) :: 'a word) = b"
    by (rule bit_word_eqI) (use len in \<open>auto simp: bit_simps\<close>)
  moreover have hi: "get_le bs = take_bit (8 * length bs) (get_le bs :: 'a word)"
    using get_put_le_take [of "length bs" "get_le bs :: 'a word"] Cons.IH len by simp
  have "drop_bit 8 (ucast b OR push_bit 8 (get_le bs) :: 'a word) = get_le bs"
    by (subst (1 2) hi, rule bit_word_eqI)
      (use len in \<open>auto simp: bit_simps dest: bit_imp_le_length\<close>)
  ultimately show ?case using Cons.IH len by simp
qed

section \<open>Byte slices\<close>

text \<open>\<open>slice.Copy\<close> and \<open>slice.CopyReverse\<close>; a copied value is the same value.\<close>

definition Copy :: "bytes \<Rightarrow> bytes" where
  "Copy b = b"

definition CopyReverse :: "bytes \<Rightarrow> bytes" where
  "CopyReverse b = rev b"

text \<open>\<open>copy(dst[off:], src)\<close>: as many bytes as fit are overwritten.\<close>

definition copy_at :: "nat \<Rightarrow> 'a list \<Rightarrow> 'a list \<Rightarrow> 'a list" where
  "copy_at off src dst =
     take off dst @ take (length dst - off) src @ drop (off + length src) dst"

lemma length_copy_at [simp]: "off \<le> length dst \<Longrightarrow> length (copy_at off src dst) = length dst"
  by (auto simp: copy_at_def)

text \<open>\<open>bytes.HasPrefix(s, prefix)\<close> and the remainder \<open>s[len(prefix):]\<close>.\<close>

fun HasPrefix :: "'a list \<Rightarrow> 'a list \<Rightarrow> bool" where
  "HasPrefix s [] = True"
| "HasPrefix [] (p # ps) = False"
| "HasPrefix (x # xs) (p # ps) = (x = p \<and> HasPrefix xs ps)"

lemma HasPrefix_iff: "HasPrefix s p \<longleftrightarrow> (\<exists>r. s = p @ r)"
  by (induction s p rule: HasPrefix.induct) auto

lemma HasPrefix_append [simp]: "HasPrefix (p @ r) p"
  by (auto simp: HasPrefix_iff)

lemma HasPrefix_drop: "HasPrefix s p \<Longrightarrow> s = p @ drop (length p) s"
  by (auto simp: HasPrefix_iff)

section \<open>Lists and options\<close>

lemma list_update_same_map_of [simp]: "i < length xs \<Longrightarrow> xs[i := xs ! i] = xs"
  by simp

lemma nth_list_update_if:
  "i < length xs \<Longrightarrow> xs[i := x] ! j = (if i = j then x else xs ! j)"
  by auto

end
