(* ===== verification/BinIO.thy ===== *)
theory BinIO
  imports Prelude
begin

text \<open>
  The binary readers and writers of src/pkg/io: \<open>BinReader\<close> over a byte buffer,
  \<open>BinWriter\<close> over the two in-memory writers of the package (the buffer of
  \<open>BufBinWriter\<close> and the \<open>counterWriter\<close>), variable-length integers, byte slices
  and arrays, and the size functions. The scratch arrays \<open>uv\<close> of both structs are not
  observable and are not modelled; a reader is the unread part of its buffer together with the
  sticky error.
\<close>

section \<open>Errors, readers and writers\<close>

text \<open>\<open>Errorf f n\<close> is the error \<open>fmt.Errorf(f, n)\<close>.\<close>

datatype io_error = EOF | ErrUnexpectedEOF | ErrDrained | Errorf string u64

record bin_reader =
  Reader :: bytes
  Err :: "io_error option"

datatype sink = Buffer bytes | Counter nat

record bin_writer =
  Writer :: sink
  WErr :: "io_error option"

definition MaxArraySize :: nat where
  "MaxArraySize = 0x1000000"

section \<open>BinReader\<close>

definition NewBinReaderFromBuf :: "bytes \<Rightarrow> bin_reader" where
  "NewBinReaderFromBuf b = \<lparr>Reader = b, Err = None\<rparr>"

text \<open>
  \<open>ReadBytes(buf)\<close> fills \<open>buf\<close> through \<open>io.ReadFull\<close>. The first argument is the
  previous contents of the slice, which is what it keeps where nothing was read.
\<close>

definition ReadBytes :: "bytes \<Rightarrow> bin_reader \<Rightarrow> bytes \<times> bin_reader" where
  "ReadBytes buf r =
     (if Err r \<noteq> None then (buf, r)
      else let n = length buf; got = take n (Reader r) in
        if length got = n then (got, r\<lparr>Reader := drop n (Reader r)\<rparr>)
        else (got @ drop (length got) buf,
              \<lparr>Reader = [], Err = Some (if got = [] then EOF else ErrUnexpectedEOF)\<rparr>))"

definition ReadU64LE :: "bin_reader \<Rightarrow> u64 \<times> bin_reader" where
  "ReadU64LE r = (let (b, r') = ReadBytes (replicate 8 0) r in
     (if Err r' \<noteq> None then 0 else get_le b, r'))"

definition ReadU32LE :: "bin_reader \<Rightarrow> u32 \<times> bin_reader" where
  "ReadU32LE r = (let (b, r') = ReadBytes (replicate 4 0) r in
     (if Err r' \<noteq> None then 0 else get_le b, r'))"

definition ReadU16LE :: "bin_reader \<Rightarrow> u16 \<times> bin_reader" where
  "ReadU16LE r = (let (b, r') = ReadBytes (replicate 2 0) r in
     (if Err r' \<noteq> None then 0 else get_le b, r'))"

definition ReadU16BE :: "bin_reader \<Rightarrow> u16 \<times> bin_reader" where
  "ReadU16BE r = (let (b, r') = ReadBytes (replicate 2 0) r in
     (if Err r' \<noteq> None then 0 else get_be b, r'))"

definition ReadB :: "bin_reader \<Rightarrow> byte \<times> bin_reader" where
  "ReadB r = (let (b, r') = ReadBytes (replicate 1 0) r in
     (if Err r' \<noteq> None then 0 else hd b, r'))"

definition ReadBool :: "bin_reader \<Rightarrow> bool \<times> bin_reader" where
  "ReadBool r = (let (b, r') = ReadB r in (b \<noteq> 0, r'))"

definition ReadVarUint :: "bin_reader \<Rightarrow> u64 \<times> bin_reader" where
  "ReadVarUint r =
     (if Err r \<noteq> None then (0, r)
      else let (b, r1) = ReadB r in
        if b = 0xfd then (let (v, r2) = ReadU16LE r1 in (ucast v, r2))
        else if b = 0xfe then (let (v, r2) = ReadU32LE r1 in (ucast v, r2))
        else if b = 0xff then ReadU64LE r1
        else (ucast b, r1))"

text \<open>\<open>None\<close> is the \<open>nil\<close> slice returned with an error.\<close>

definition ReadVarBytes :: "nat \<Rightarrow> bin_reader \<Rightarrow> bytes option \<times> bin_reader" where
  "ReadVarBytes ms r =
     (let (n, r1) = ReadVarUint r in
        if n > of_nat ms then (None, r1\<lparr>Err := Some (Errorf ''byte-slice is too big (%d)'' n)\<rparr>)
        else (let (b, r2) = ReadBytes (replicate (unat n) 0) r1 in (Some b, r2)))"

definition ReadString :: "nat \<Rightarrow> bin_reader \<Rightarrow> bytes \<times> bin_reader" where
  "ReadString ms r = (let (b, r') = ReadVarBytes ms r in
     (case b of None \<Rightarrow> [] | Some s \<Rightarrow> s, r'))"

primrec ReadElems :: "(bin_reader \<Rightarrow> 'e \<times> bin_reader) \<Rightarrow> nat \<Rightarrow> bin_reader \<Rightarrow> 'e list \<times> bin_reader" where
  "ReadElems dec 0 r = ([], r)"
| "ReadElems dec (Suc n) r =
     (let (x, r1) = dec r; (xs, r2) = ReadElems dec n r1 in (x # xs, r2))"

text \<open>
  \<open>ReadArray(t, maxSize)\<close>: \<open>None\<close> means that the target slice is left untouched. The
  element decoder stands for the \<open>DecodeBinary\<close> method found by reflection.
\<close>

definition ReadArray ::
    "(bin_reader \<Rightarrow> 'e \<times> bin_reader) \<Rightarrow> nat \<Rightarrow> bin_reader \<Rightarrow> 'e list option \<times> bin_reader" where
  "ReadArray dec ms r =
     (if Err r \<noteq> None then (None, r)
      else let (lu, r1) = ReadVarUint r in
        if lu > of_nat ms then (None, r1\<lparr>Err := Some (Errorf ''array is too big (%d)'' lu)\<rparr>)
        else (let (xs, r2) = ReadElems dec (unat lu) r1 in (Some xs, r2)))"

section \<open>BinWriter\<close>

fun Write :: "sink \<Rightarrow> bytes \<Rightarrow> sink" where
  "Write (Buffer bs) p = Buffer (bs @ p)"
| "Write (Counter n) p = Counter (n + length p)"

definition NewBufBinWriter :: bin_writer where
  "NewBufBinWriter = \<lparr>Writer = Buffer [], WErr = None\<rparr>"

definition NewCounterWriter :: bin_writer where
  "NewCounterWriter = \<lparr>Writer = Counter 0, WErr = None\<rparr>"

definition WriteBytes :: "bytes \<Rightarrow> bin_writer \<Rightarrow> bin_writer" where
  "WriteBytes b w = (if WErr w \<noteq> None then w else w\<lparr>Writer := Write (Writer w) b\<rparr>)"

definition WriteU64LE :: "u64 \<Rightarrow> bin_writer \<Rightarrow> bin_writer" where
  "WriteU64LE v w = WriteBytes (put_le 8 v) w"

definition WriteU32LE :: "u32 \<Rightarrow> bin_writer \<Rightarrow> bin_writer" where
  "WriteU32LE v w = WriteBytes (put_le 4 v) w"

definition WriteU16LE :: "u16 \<Rightarrow> bin_writer \<Rightarrow> bin_writer" where
  "WriteU16LE v w = WriteBytes (put_le 2 v) w"

definition WriteU16BE :: "u16 \<Rightarrow> bin_writer \<Rightarrow> bin_writer" where
  "WriteU16BE v w = WriteBytes (put_be 2 v) w"

definition WriteB :: "byte \<Rightarrow> bin_writer \<Rightarrow> bin_writer" where
  "WriteB v w = WriteBytes [v] w"

definition WriteBool :: "bool \<Rightarrow> bin_writer \<Rightarrow> bin_writer" where
  "WriteBool b w = WriteB (if b then 1 else 0) w"

text \<open>
  \<open>PutVarUint(data, val)\<close> overwrites a prefix of \<open>data\<close> and returns its length; the
  access \<open>data[8]\<close> panics (\<open>None\<close>) on a shorter slice.
\<close>

definition PutVarUint :: "bytes \<Rightarrow> u64 \<Rightarrow> (bytes \<times> nat) option" where
  "PutVarUint data val =
     (if length data < 9 then None
      else if val < 0xfd then Some (copy_at 0 [ucast val] data, 1)
      else if val < 0xFFFF then Some (copy_at 0 (0xfd # put_le 2 (ucast val :: u16)) data, 3)
      else if val < 0xFFFFFFFF then Some (copy_at 0 (0xfe # put_le 4 (ucast val :: u32)) data, 5)
      else Some (copy_at 0 (0xff # put_le 8 val) data, 9))"

definition WriteVarUint :: "u64 \<Rightarrow> bin_writer \<Rightarrow> bin_writer" where
  "WriteVarUint val w =
     (if WErr w \<noteq> None then w
      else case PutVarUint (replicate 9 0) val of
        None \<Rightarrow> w
      | Some (uv, n) \<Rightarrow> WriteBytes (take n uv) w)"

definition WriteVarBytes :: "bytes \<Rightarrow> bin_writer \<Rightarrow> bin_writer" where
  "WriteVarBytes b w = WriteBytes b (WriteVarUint (of_nat (length b)) w)"

definition WriteString :: "bytes \<Rightarrow> bin_writer \<Rightarrow> bin_writer" where
  "WriteString s w = (let w1 = WriteVarUint (of_nat (length s)) w in
     if WErr w1 \<noteq> None then w1 else w1\<lparr>Writer := Write (Writer w1) s\<rparr>)"

definition WriteArray :: "('e \<Rightarrow> bin_writer \<Rightarrow> bin_writer) \<Rightarrow> 'e list \<Rightarrow> bin_writer \<Rightarrow> bin_writer" where
  "WriteArray enc xs w =
     (if WErr w \<noteq> None then w else fold enc xs (WriteVarUint (of_nat (length xs)) w))"

text \<open>\<open>BufBinWriter\<close>: \<open>Bytes\<close> drains the buffer, \<open>Reset\<close> makes it usable again.\<close>

definition BufLen :: "bin_writer \<Rightarrow> nat" where
  "BufLen w = (case Writer w of Buffer b \<Rightarrow> length b | Counter n \<Rightarrow> n)"

definition Bytes :: "bin_writer \<Rightarrow> bytes option \<times> bin_writer" where
  "Bytes w = (if WErr w \<noteq> None then (None, w)
     else (case Writer w of Buffer b \<Rightarrow> Some b | Counter _ \<Rightarrow> None, w\<lparr>WErr := Some ErrDrained\<rparr>))"

definition Reset :: "bin_writer \<Rightarrow> bin_writer" where
  "Reset w = \<lparr>Writer = Buffer [], WErr = None\<rparr>"

definition ToByteArray :: "(bin_writer \<Rightarrow> bin_writer) \<Rightarrow> io_error + bytes option" where
  "ToByteArray enc = (let br = enc NewBufBinWriter in
     case WErr br of Some e \<Rightarrow> Inl e | None \<Rightarrow> Inr (fst (Bytes br)))"

definition FromByteArray :: "(bin_reader \<Rightarrow> 'e \<times> bin_reader) \<Rightarrow> bytes \<Rightarrow> 'e \<times> io_error option" where
  "FromByteArray dec data = (let (x, br) = dec (NewBinReaderFromBuf data) in (x, Err br))"

section \<open>Sizes\<close>

definition getVarIntSize :: "int \<Rightarrow> nat" where
  "getVarIntSize v = (if v < 0xFD then 1 else if v \<le> 0xFFFF then 3 else 5)"

text \<open>
  The dynamic values \<open>GetVarSize\<close> distinguishes by reflection: strings, signed and
  unsigned integers, pointers to serializable objects (given by their encoder), slices of
  serializable elements, slices of \<open>n\<close> integers of \<open>sz\<close> bytes, and anything else.
\<close>

datatype gvalue =
    GString bytes
  | GInt "64 word"
  | GUint u64
  | GPtr "bin_writer \<Rightarrow> bin_writer"
  | GSlice "gvalue list"
  | GNums nat nat
  | GOther

text \<open>\<open>None\<close> is a panic.\<close>

fun GetVarSize :: "gvalue \<Rightarrow> nat option"
  and GetVarSizes :: "gvalue list \<Rightarrow> nat option" where
  "GetVarSize (GString s) = Some (getVarIntSize (int (length s)) + length s)"
| "GetVarSize (GInt v) = Some (getVarIntSize (sint v))"
| "GetVarSize (GUint v) = Some (getVarIntSize (sint v))"
| "GetVarSize (GPtr enc) = (let w = enc NewCounterWriter in
     if WErr w \<noteq> None then None else Some (BufLen w))"
| "GetVarSize (GSlice xs) =
     map_option (\<lambda>sz. getVarIntSize (int (length xs)) + sz) (GetVarSizes xs)"
| "GetVarSize (GNums n sz) = Some (getVarIntSize (int n) + n * sz)"
| "GetVarSize GOther = None"
| "GetVarSizes [] = Some 0"
| "GetVarSizes (x # xs) = (case GetVarSize x of None \<Rightarrow> None
     | Some a \<Rightarrow> map_option (\<lambda>b. a + b) (GetVarSizes xs))"


section \<open>Primitive laws\<close>

abbreviation rd :: "bytes \<Rightarrow> bin_reader" where
  "rd bs \<equiv> \<lparr>Reader = bs, Err = None\<rparr>"

lemma ReadBytes_exact [codec_simps]:
  "length bs = length buf \<Longrightarrow> ReadBytes buf (rd (bs @ rest)) = (bs, rd rest)"
  by (simp add: ReadBytes_def Let_def)

lemma ReadBytes_sticky [simp]: "Err r = Some e \<Longrightarrow> ReadBytes buf r = (buf, r)"
  by (simp add: ReadBytes_def)

lemma ReadBytes_length: "ReadBytes buf r = (b, r') \<Longrightarrow> length b = length buf"
  by (auto simp: ReadBytes_def Let_def split: if_splits)

lemma WriteBytes_append [simp]: "WriteBytes b (WriteBytes a w) = WriteBytes (a @ b) w"
  by (cases "Writer w") (auto simp: WriteBytes_def)

lemma WriteBytes_Nil [simp]: "WriteBytes [] w = w"
  by (cases "Writer w") (auto simp: WriteBytes_def)

lemma WErr_WriteBytes [simp]: "WErr (WriteBytes b w) = WErr w"
  by (simp add: WriteBytes_def)

lemma WriteBytes_err: "WErr w = Some e \<Longrightarrow> WriteBytes b w = w"
  by (simp add: WriteBytes_def)

lemma BufLen_WriteBytes:
  "WErr w = None \<Longrightarrow> BufLen (WriteBytes b w) = BufLen w + length b"
  by (cases "Writer w") (auto simp: WriteBytes_def BufLen_def)

lemma Bytes_WriteBytes_new: "fst (Bytes (WriteBytes b NewBufBinWriter)) = Some b"
  by (simp add: Bytes_def WriteBytes_def NewBufBinWriter_def)

section \<open>Variable-length integers\<close>

definition var_uint :: "u64 \<Rightarrow> bytes" where
  "var_uint val =
     (if val < 0xfd then [ucast val]
      else if val < 0xFFFF then 0xfd # put_le 2 (ucast val :: u16)
      else if val < 0xFFFFFFFF then 0xfe # put_le 4 (ucast val :: u32)
      else 0xff # put_le 8 val)"

lemma length_var_uint:
  "length (var_uint val) =
     (if val < 0xfd then 1 else if val < 0xFFFF then 3 else if val < 0xFFFFFFFF then 5 else 9)"
  by (simp add: var_uint_def)

lemma WriteVarUint_eq: "WriteVarUint val w = WriteBytes (var_uint val) w"
  by (auto simp: WriteVarUint_def PutVarUint_def var_uint_def copy_at_def WriteBytes_err)

lemma ucast_ucast_unat:
  assumes "unat v < 2 ^ LENGTH('b)" and "LENGTH('b) \<le> LENGTH('a)"
  shows "ucast (ucast v :: 'b::len word) = (v :: 'a::len word)"
proof (rule word_unat_eq_iff [THEN iffD2])
  have "unat v < 2 ^ LENGTH('a)" by (rule unsigned_less)
  with assms show "unat (ucast (ucast v :: 'b word) :: 'a word) = unat v"
    by (simp add: unsigned_ucast_eq unsigned_take_bit_eq take_bit_nat_eq_self)
qed

lemma ReadVarUint_var_uint [codec_simps]:
  "ReadVarUint (rd (var_uint v @ rest)) = (v, rd rest)"
proof -
  have readB: "ReadB (rd (b # bs)) = (b, rd bs)" for b bs
    using ReadBytes_exact [of "[b]" "[0]" bs] by (simp add: ReadB_def)
  have r2: "ReadU16LE (rd (put_le 2 x @ rest)) = (x, rd rest)" for x
    using ReadBytes_exact [of "put_le 2 x" "replicate 2 0" rest]
    by (simp add: ReadU16LE_def get_put_le)
  have r4: "ReadU32LE (rd (put_le 4 x @ rest)) = (x, rd rest)" for x
    using ReadBytes_exact [of "put_le 4 x" "replicate 4 0" rest]
    by (simp add: ReadU32LE_def get_put_le)
  have r8: "ReadU64LE (rd (put_le 8 x @ rest)) = (x, rd rest)" for x
    using ReadBytes_exact [of "put_le 8 x" "replicate 8 0" rest]
    by (simp add: ReadU64LE_def get_put_le)
  consider (a) "unat v < 0xfd" | (b) "\<not> unat v < 0xfd" "unat v < 0xFFFF"
    | (c) "\<not> unat v < 0xFFFF" "unat v < 0xFFFFFFFF" | (d) "\<not> unat v < 0xFFFFFFFF"
    by linarith
  then show ?thesis
  proof cases
    case a
    then have b: "ucast (ucast v :: byte) = v" by (intro ucast_ucast_unat) simp_all
    have "unat (ucast v :: byte) = unat v"
      using a by (simp add: unsigned_ucast_eq unsigned_take_bit_eq take_bit_nat_eq_self)
    with a have "unat (ucast v :: byte) < 0xfd" by simp
    then have "(ucast v :: byte) \<noteq> 0xfd" "(ucast v :: byte) \<noteq> 0xfe" "(ucast v :: byte) \<noteq> 0xff"
      by auto
    with a b show ?thesis
      by (simp add: var_uint_def ReadVarUint_def readB word_less_nat_alt)
  next
    case b
    then have "ucast (ucast v :: u16) = v" by (intro ucast_ucast_unat) simp_all
    with b show ?thesis
      by (simp add: var_uint_def ReadVarUint_def readB r2 word_less_nat_alt)
  next
    case c
    then have "ucast (ucast v :: u32) = v" by (intro ucast_ucast_unat) simp_all
    with c show ?thesis
      by (simp add: var_uint_def ReadVarUint_def readB r4 word_less_nat_alt)
  next
    case d
    then show ?thesis
      by (simp add: var_uint_def ReadVarUint_def readB r8 word_less_nat_alt)
  qed
qed

section \<open>The codec interface\<close>

text \<open>
  What a type that can be written and read back provides: the writer appends the fixed bytes
  of the value, and the reader, given a buffer that starts with the bytes of an admissible
  value, returns the value and leaves the rest. Arrays of such values are then read back too.
\<close>

locale codec =
  fixes enc :: "'a \<Rightarrow> bin_writer \<Rightarrow> bin_writer"
    and dec :: "bin_reader \<Rightarrow> 'a \<times> bin_reader"
    and bytes_of :: "'a \<Rightarrow> bytes"
    and ok :: "'a \<Rightarrow> bool"
  assumes enc_bytes: "enc x w = WriteBytes (bytes_of x) w"
    and dec_bytes: "ok x \<Longrightarrow> dec (rd (bytes_of x @ rest)) = (x, rd rest)"
begin

lemma fold_enc: "fold enc xs w = WriteBytes (concat (map bytes_of xs)) w"
  by (induction xs arbitrary: w) (simp_all add: enc_bytes)

lemma WriteArray_bytes:
  "WriteArray enc xs w =
     WriteBytes (var_uint (of_nat (length xs)) @ concat (map bytes_of xs)) w"
  by (cases "WErr w") (simp_all add: WriteArray_def WriteVarUint_eq fold_enc WriteBytes_err)

lemma ReadElems_bytes:
  "list_all ok xs \<Longrightarrow>
     ReadElems dec (length xs) (rd (concat (map bytes_of xs) @ rest)) = (xs, rd rest)"
  by (induction xs arbitrary: rest) (simp_all add: dec_bytes)

lemma ReadArray_bytes:
  assumes "list_all ok xs" and "length xs \<le> ms" and "ms < 2 ^ 64"
  shows "ReadArray dec ms
      (rd (var_uint (of_nat (length xs)) @ concat (map bytes_of xs) @ rest)) = (Some xs, rd rest)"
proof -
  have "unat (of_nat (length xs) :: u64) = length xs"
    using assms by (simp add: unat_of_nat take_bit_nat_eq_self)
  moreover have "\<not> (of_nat (length xs) :: u64) > of_nat ms"
    using assms by (simp add: word_less_nat_alt unat_of_nat take_bit_nat_eq_self)
  ultimately show ?thesis
    using ReadElems_bytes [OF assms(1)]
    by (simp add: ReadArray_def ReadVarUint_var_uint)
qed

lemma to_from_byte_array:
  assumes "ok x"
  shows "ToByteArray (enc x) = Inr (Some (bytes_of x))"
    and "FromByteArray dec (bytes_of x) = (x, None)"
  using dec_bytes [OF assms, of "[]"]
  by (simp_all add: ToByteArray_def enc_bytes FromByteArray_def NewBinReaderFromBuf_def
      Bytes_def WriteBytes_def NewBufBinWriter_def)

lemma GetVarSize_ptr: "GetVarSize (GPtr (enc x)) = Some (length (bytes_of x))"
  using BufLen_WriteBytes [of NewCounterWriter "bytes_of x"]
  by (simp add: enc_bytes NewCounterWriter_def BufLen_def)

end

lemma rd_fixed [codec_simps]:
  "ReadB (rd (b # rest)) = (b, rd rest)"
  "ReadU16LE (rd (put_le 2 x2 @ rest)) = (x2, rd rest)"
  "ReadU32LE (rd (put_le 4 x4 @ rest)) = (x4, rd rest)"
  "ReadU64LE (rd (put_le 8 x8 @ rest)) = (x8, rd rest)"
  "ReadU16BE (rd (put_be 2 x2 @ rest)) = (x2, rd rest)"
  using ReadBytes_exact [of "[b]" "[0]" rest] ReadBytes_exact [of "put_le 2 x2" "replicate 2 0" rest]
    ReadBytes_exact [of "put_le 4 x4" "replicate 4 0" rest]
    ReadBytes_exact [of "put_le 8 x8" "replicate 8 0" rest]
    ReadBytes_exact [of "put_be 2 x2" "replicate 2 0" rest]
  by (simp_all add: ReadB_def ReadU16LE_def ReadU32LE_def ReadU64LE_def ReadU16BE_def
      get_put_le get_put_be)

interpretation u8_codec: codec WriteB ReadB "\<lambda>b. [b]" "\<lambda>_. True"
  by unfold_locales (simp_all add: WriteB_def codec_simps)

interpretation u16_codec: codec WriteU16LE ReadU16LE "put_le 2" "\<lambda>_. True"
  by unfold_locales (simp_all add: WriteU16LE_def codec_simps)

interpretation u16be_codec: codec WriteU16BE ReadU16BE "put_be 2" "\<lambda>_. True"
  by unfold_locales (simp_all add: WriteU16BE_def codec_simps)

interpretation u32_codec: codec WriteU32LE ReadU32LE "put_le 4" "\<lambda>_. True"
  by unfold_locales (simp_all add: WriteU32LE_def codec_simps)

interpretation u64_codec: codec WriteU64LE ReadU64LE "put_le 8" "\<lambda>_. True"
  by unfold_locales (simp_all add: WriteU64LE_def codec_simps)

interpretation bool_codec: codec WriteBool ReadBool "\<lambda>b. [if b then 1 else 0]" "\<lambda>_. True"
  by unfold_locales (simp_all add: WriteBool_def WriteB_def ReadBool_def codec_simps)

interpretation var_uint_codec: codec WriteVarUint ReadVarUint var_uint "\<lambda>_. True"
  by unfold_locales (simp_all add: WriteVarUint_eq codec_simps)

text \<open>Byte slices with a length prefix, read with a limit.\<close>

definition var_bytes :: "bytes \<Rightarrow> bytes" where
  "var_bytes b = var_uint (of_nat (length b)) @ b"

lemma WriteVarBytes_eq: "WriteVarBytes b w = WriteBytes (var_bytes b) w"
  by (simp add: WriteVarBytes_def WriteVarUint_eq var_bytes_def)

lemma WriteString_eq: "WriteString b w = WriteBytes (var_bytes b) w"
  by (cases "Writer w")
    (auto simp: WriteString_def WriteVarUint_eq var_bytes_def WriteBytes_def Let_def)

lemma ReadVarBytes_exact [codec_simps]:
  assumes "length b \<le> ms" and "ms < 2 ^ 64"
  shows "ReadVarBytes ms (rd (var_bytes b @ rest)) = (Some b, rd rest)"
proof -
  have "unat (of_nat (length b) :: u64) = length b"
    using assms by (simp add: unat_of_nat take_bit_nat_eq_self)
  moreover have "\<not> (of_nat (length b) :: u64) > of_nat ms"
    using assms by (simp add: word_less_nat_alt unat_of_nat take_bit_nat_eq_self)
  ultimately show ?thesis
    by (simp add: ReadVarBytes_def var_bytes_def ReadVarUint_var_uint ReadBytes_exact)
qed

lemma ReadVarBytes_too_big:
  assumes "ms < length b" and "length b < 2 ^ 64"
  shows "ReadVarBytes ms (rd (var_bytes b @ rest)) =
     (None, \<lparr>Reader = b @ rest,
        Err = Some (Errorf ''byte-slice is too big (%d)'' (of_nat (length b)))\<rparr>)"
proof -
  have "(of_nat (length b) :: u64) > of_nat ms"
    using assms by (simp add: word_less_nat_alt unat_of_nat take_bit_nat_eq_self)
  then show ?thesis by (simp add: ReadVarBytes_def var_bytes_def ReadVarUint_var_uint)
qed

interpretation var_bytes_codec: codec
  "\<lambda>b. WriteVarBytes (case b of None \<Rightarrow> [] | Some s \<Rightarrow> s)" "ReadVarBytes MaxArraySize"
  "\<lambda>b. var_bytes (case b of None \<Rightarrow> [] | Some s \<Rightarrow> s)"
  "\<lambda>b. \<exists>s. b = Some s \<and> length s \<le> MaxArraySize"
  by unfold_locales (auto simp: WriteVarBytes_eq MaxArraySize_def codec_simps)

section \<open>Sticky errors\<close>

text \<open>Once \<open>Err\<close> is set, no reader primitive consumes input or changes the error.\<close>

lemma read_sticky [simp]:
  assumes "Err r = Some e"
  shows "ReadB r = (0, r)" and "ReadBool r = (False, r)" and "ReadU16LE r = (0, r)"
    and "ReadU32LE r = (0, r)" and "ReadU64LE r = (0, r)" and "ReadU16BE r = (0, r)"
    and "ReadVarUint r = (0, r)" and "ReadArray dec ms r = (None, r)"
  using assms
  by (simp_all add: ReadB_def ReadBool_def ReadU16LE_def ReadU32LE_def ReadU64LE_def
      ReadU16BE_def ReadVarUint_def ReadArray_def)

lemma ReadVarBytes_sticky:
  "Err r = Some e \<Longrightarrow> snd (ReadVarBytes ms r) = r"
  by (simp add: ReadVarBytes_def)

section \<open>Readers never grow\<close>

lemma ReadBytes_shrinks: "length (Reader (snd (ReadBytes buf r))) \<le> length (Reader r)"
  by (auto simp: ReadBytes_def Let_def)

lemma ReadB_shrinks:
  "ReadB r = (b, r1) \<Longrightarrow> length (Reader r1) \<le> length (Reader r)"
  "ReadB r = (b, r1) \<Longrightarrow> Err r1 = None \<Longrightarrow> length (Reader r1) < length (Reader r)"
  using ReadBytes_shrinks [of "[0]" r]
  by (auto simp: ReadB_def ReadBytes_def Let_def split: prod.splits if_splits)

lemma read_fixed_shrinks:
  "length (Reader (snd (ReadU16LE r))) \<le> length (Reader r)"
  "length (Reader (snd (ReadU32LE r))) \<le> length (Reader r)"
  "length (Reader (snd (ReadU64LE r))) \<le> length (Reader r)"
  unfolding ReadU16LE_def ReadU32LE_def ReadU64LE_def split_def Let_def
  by (simp_all only: snd_conv ReadBytes_shrinks)

lemma ReadVarUint_shrinks: "length (Reader (snd (ReadVarUint r))) \<le> length (Reader r)"
proof -
  obtain b r1 where b: "ReadB r = (b, r1)" by fastforce
  have "length (Reader r1) \<le> length (Reader r)" using ReadB_shrinks(1) [OF b] .
  with read_fixed_shrinks [of r1] show ?thesis
    by (simp add: ReadVarUint_def b split_def Let_def)
qed

lemma ReadElems_shrinks:
  assumes "\<And>r. length (Reader (snd (dec r))) \<le> length (Reader r)"
  shows "length (Reader (snd (ReadElems dec n r))) \<le> length (Reader r)"
proof (induction n arbitrary: r)
  case (Suc n)
  show ?case
    using assms [of r] Suc [of "snd (dec r)"] by (simp add: split_def Let_def)
qed simp

lemma ReadVarBytes_shrinks: "length (Reader (snd (ReadVarBytes ms r))) \<le> length (Reader r)"
  using ReadVarUint_shrinks [of r]
    ReadBytes_shrinks [of "replicate (unat (fst (ReadVarUint r))) 0" "snd (ReadVarUint r)"]
  by (simp add: ReadVarBytes_def split_def Let_def)

lemma ReadArray_shrinks:
  assumes "\<And>r. length (Reader (snd (dec r))) \<le> length (Reader r)"
  shows "length (Reader (snd (ReadArray dec ms r))) \<le> length (Reader r)"
  using ReadVarUint_shrinks [of r]
    ReadElems_shrinks [of dec "unat (fst (ReadVarUint r))" "snd (ReadVarUint r)", OF assms]
  by (simp add: ReadArray_def split_def Let_def)

section \<open>Predicted sizes\<close>

lemma getVarIntSize_var_uint:
  assumes "n < 0xFFFFFFFF" and "n \<noteq> 0xFFFF"
  shows "getVarIntSize (int n) = length (var_uint (of_nat n))"
proof -
  have "unat (of_nat n :: u64) = n"
    using assms by (simp add: unat_of_nat take_bit_nat_eq_self)
  with assms show ?thesis
    by (auto simp: getVarIntSize_def length_var_uint word_less_nat_alt)
qed

lemma getVarIntSize_boundary:
  "getVarIntSize 0xFFFF = 3" and "length (var_uint 0xFFFF) = 5"
  by (simp_all add: getVarIntSize_def length_var_uint)

section \<open>Properties\<close>

text \<open>
  Every variable-length integer that \<open>WriteVarUint\<close> puts into a fresh buffer is read
  back by \<open>ReadVarUint\<close>, which leaves exactly the bytes that follow it.
\<close>

theorem var_uint_roundtrip:
  "\<exists>b. fst (Bytes (WriteVarUint v NewBufBinWriter)) = Some b \<and>
     ReadVarUint (NewBinReaderFromBuf (b @ rest)) = (v, NewBinReaderFromBuf rest)"
  by (simp add: WriteVarUint_eq Bytes_WriteBytes_new NewBinReaderFromBuf_def codec_simps)

text \<open>
  An array of byte slices written with \<open>WriteArray\<close> is read back by \<open>ReadArray\<close>
  whenever the element count and every element stay within the reader's limits.
\<close>

theorem byte_slice_array_roundtrip:
  assumes "\<forall>s \<in> set xs. length s \<le> MaxArraySize" and "length xs \<le> ms" and "ms < 2 ^ 64"
  shows "\<exists>b. fst (Bytes (WriteArray WriteVarBytes xs NewBufBinWriter)) = Some b \<and>
     ReadArray (ReadVarBytes MaxArraySize) ms (NewBinReaderFromBuf (b @ rest)) =
       (Some (map Some xs), NewBinReaderFromBuf rest)"
proof -
  let ?b = "var_uint (of_nat (length xs)) @ concat (map var_bytes xs)"
  have "fold WriteVarBytes ys w = WriteBytes (concat (map var_bytes ys)) w" for ys w
    by (induction ys arbitrary: w) (simp_all add: WriteVarBytes_eq)
  then have "fst (Bytes (WriteArray WriteVarBytes xs NewBufBinWriter)) = Some ?b"
    using Bytes_WriteBytes_new [of ?b]
    by (simp add: WriteArray_def WriteVarUint_eq NewBufBinWriter_def)
  moreover have "ReadArray (ReadVarBytes MaxArraySize) ms (rd (?b @ rest)) = (Some (map Some xs), rd rest)"
    using var_bytes_codec.ReadArray_bytes [of "map Some xs" ms rest] assms
    by (simp add: list_all_iff comp_def)
  ultimately show ?thesis by (auto simp: NewBinReaderFromBuf_def)
qed

theorem byte_slice_array_roundtrip_witness:
  "\<exists>b. fst (Bytes (WriteArray WriteVarBytes [[1, 2], []] NewBufBinWriter)) = Some b \<and>
     ReadArray (ReadVarBytes MaxArraySize) 4 (NewBinReaderFromBuf (b @ [7])) =
       (Some [Some [1, 2], Some []], NewBinReaderFromBuf [7])"
  using byte_slice_array_roundtrip [of "[[1, 2], []]" 4 "[7]"] by (simp add: MaxArraySize_def)

text \<open>
  \<open>GetVarSize\<close> of an unsigned integer is the number of bytes \<open>WriteVarUint\<close> emits for
  it except at 0xFFFF and from 0xFFFFFFFF on, where the prediction is too small.
\<close>

theorem var_size_exact_iff:
  "GetVarSize (GUint v) = Some (BufLen (WriteVarUint v NewCounterWriter)) \<longleftrightarrow>
     v < 0xFFFFFFFF \<and> v \<noteq> 0xFFFF"
proof -
  have "BufLen (WriteVarUint v NewCounterWriter) = length (var_uint v)"
    using BufLen_WriteBytes [of NewCounterWriter "var_uint v"]
    by (simp add: WriteVarUint_eq NewCounterWriter_def BufLen_def)
  moreover have "getVarIntSize (sint v) = length (var_uint v) \<longleftrightarrow> v < 0xFFFFFFFF \<and> v \<noteq> 0xFFFF"
  proof (cases "v < 0xFFFFFFFF")
    case True
    then have u: "unat v < 0xFFFFFFFF" by (simp add: word_less_nat_alt)
    have "uint v < 0xFFFFFFFF" using True by (simp add: word_less_def)
    then have "sint v = int (unat v)"
      by (simp add: sint_uint signed_take_bit_int_eq_self_iff order_trans [OF _ uint_ge_0])
    with u True show ?thesis
      using getVarIntSize_var_uint [of "unat v"]
      by (cases "unat v = 0xFFFF")
        (auto simp: word_unat_eq_iff getVarIntSize_def length_var_uint word_less_nat_alt)
  next
    case False
    then have "length (var_uint v) = 9" by (auto simp: length_var_uint word_less_nat_alt)
    with False show ?thesis by (simp add: getVarIntSize_def)
  qed
  ultimately show ?thesis by simp
qed

end
