(* ===== verification/Storage.thy ===== *)
theory Storage
  imports BinIO "HOL-Library.AList" "HOL-Library.List_Lexorder"
begin

text \<open>
  The key-value stores of src/pkg/core/storage: \<open>MemoryStore\<close> and the caching layer
  \<open>MemCachedStore\<close>, which collects changes over a lower store, answers reads through it,
  merges iterations with it and finally flushes into it. Go maps are association lists with
  distinct keys; a \<open>nil\<close> value, the mark of a deletion, is \<open>None\<close>. Mutexes are not
  modelled; the one operation that releases its lock half way (\<open>Persist\<close>) is split into the
  steps between which other writers can run.
\<close>

section \<open>Data\<close>

type_synonym gmap = "(bytes \<times> bytes option) list"
type_synonym kv = "bytes \<times> bytes"

definition DataTx :: byte where "DataTx = 0x01"
definition DataBlock :: byte where "DataBlock = 0x02"
definition DataMPT :: byte where "DataMPT = 0x03"
definition DataMPTAux :: byte where "DataMPTAux = 0x04"
definition STStorage :: byte where "STStorage = 0x70"
definition STTempStorage :: byte where "STTempStorage = 0x71"

definition MaxStorageKeyLen :: nat where "MaxStorageKeyLen = 64"
definition MaxStorageValueLen :: nat where "MaxStorageValueLen = 65535"

datatype store_error = ErrKeyNotFound | PanicIndexOutOfRange | ErrBackend

record memory_store =
  mem :: gmap
  stor :: gmap

text \<open>A store: the in-memory one, or a cache (with its \<open>private\<close> flag) over a lower store.\<close>

datatype store =
    MemoryStore memory_store
  | MemCachedStore memory_store bool store

record seek_range =
  Prefix :: bytes
  Start :: bytes
  Backwards :: bool

definition NewMemoryStore :: memory_store where
  "NewMemoryStore = \<lparr>mem = [], stor = []\<rparr>"

definition NewMemCachedStore :: "store \<Rightarrow> store" where
  "NewMemCachedStore lower = MemCachedStore NewMemoryStore False lower"

definition NewPrivateMemCachedStore :: "store \<Rightarrow> store" where
  "NewPrivateMemCachedStore lower = MemCachedStore NewMemoryStore True lower"

section \<open>MemoryStore\<close>

text \<open>\<open>chooseMap\<close> reads \<open>key[0]\<close>: whether the key belongs to \<open>stor\<close>, or a panic.\<close>

definition inStor :: "bytes \<Rightarrow> bool option" where
  "inStor key = (case key of [] \<Rightarrow> None | k # _ \<Rightarrow> Some (k = STStorage \<or> k = STTempStorage))"

definition chooseMap :: "memory_store \<Rightarrow> bytes \<Rightarrow> store_error + gmap" where
  "chooseMap s key = (case inStor key of
     None \<Rightarrow> Inl PanicIndexOutOfRange
   | Some b \<Rightarrow> Inr (if b then stor s else mem s))"

text \<open>\<open>put(s.chooseMap(key), key, value)\<close>.\<close>

definition putChosen :: "bytes \<Rightarrow> bytes option \<Rightarrow> memory_store \<Rightarrow> store_error + memory_store" where
  "putChosen key v s = (case inStor key of
     None \<Rightarrow> Inl PanicIndexOutOfRange
   | Some b \<Rightarrow> Inr (if b then s\<lparr>stor := AList.update key v (stor s)\<rparr>
                  else s\<lparr>mem := AList.update key v (mem s)\<rparr>))"

definition MemGet :: "memory_store \<Rightarrow> bytes \<Rightarrow> store_error + bytes" where
  "MemGet s key = bind_res (chooseMap s key) (\<lambda>m.
     case map_of m key of Some (Some v) \<Rightarrow> Inr v | _ \<Rightarrow> Inl ErrKeyNotFound)"

text \<open>\<open>MemoryStore.Put\<close> writes to \<open>mem\<close> whatever the key.\<close>

definition MemPut :: "bytes \<Rightarrow> bytes \<Rightarrow> memory_store \<Rightarrow> memory_store" where
  "MemPut key v s = s\<lparr>mem := AList.update key (Some v) (mem s)\<rparr>"

definition put_all :: "gmap \<Rightarrow> gmap \<Rightarrow> gmap" where
  "put_all puts m = fold (\<lambda>(k, v). AList.update k v) puts m"

definition putChangeSet :: "gmap \<Rightarrow> gmap \<Rightarrow> memory_store \<Rightarrow> memory_store" where
  "putChangeSet puts stores s =
     s\<lparr>mem := put_all puts (mem s), stor := put_all stores (stor s)\<rparr>"

definition isKeyOK :: "seek_range \<Rightarrow> bytes \<Rightarrow> bool" where
  "isKeyOK rng key \<longleftrightarrow> HasPrefix key (Prefix rng) \<and>
     (Start rng = [] \<or>
      (if Backwards rng then drop (length (Prefix rng)) key \<le> Start rng
       else Start rng \<le> drop (length (Prefix rng)) key))"

definition less_key :: "seek_range \<Rightarrow> bytes \<Rightarrow> bytes \<Rightarrow> bool" where
  "less_key rng k1 k2 \<longleftrightarrow> k1 \<noteq> k2 \<and> Backwards rng = (k2 < k1)"

definition sort_slice :: "seek_range \<Rightarrow> (bytes \<times> 'v) list \<Rightarrow> (bytes \<times> 'v) list" where
  "sort_slice rng xs = (if Backwards rng then rev (sort_key fst xs) else sort_key fst xs)"

text \<open>A callback returns whether to go on, and its own state.\<close>

type_synonym 's callback = "bytes \<Rightarrow> bytes \<Rightarrow> 's \<Rightarrow> bool \<times> 's"

fun iter_kv :: "'s callback \<Rightarrow> kv list \<Rightarrow> 's \<Rightarrow> 's" where
  "iter_kv f [] u = u"
| "iter_kv f ((k, v) # xs) u = (let (go, u') = f k v u in if go then iter_kv f xs u' else u')"

definition present :: "gmap \<Rightarrow> kv list" where
  "present m = List.map_filter (\<lambda>(k, v). map_option (Pair k) v) m"

definition MemSeek :: "memory_store \<Rightarrow> seek_range \<Rightarrow> 's callback \<Rightarrow> 's \<Rightarrow> store_error + 's" where
  "MemSeek s rng f u = bind_res (chooseMap s (Prefix rng)) (\<lambda>m.
     Inr (iter_kv f (sort_slice rng (filter (\<lambda>(k, _). isKeyOK rng k) (present m))) u))"

text \<open>\<open>SeekGC\<close> deletes the entries for which \<open>keep\<close> is false.\<close>

definition MemSeekGC :: "seek_range \<Rightarrow> (bytes \<Rightarrow> bytes \<Rightarrow> bool) \<Rightarrow> memory_store \<Rightarrow> store_error + memory_store" where
  "MemSeekGC rng keep s =
     MemSeek s rng (\<lambda>k v s'. (True,
       if keep k v then s'
       else case inStor k of
          Some True \<Rightarrow> s'\<lparr>stor := AList.delete k (stor s')\<rparr>
        | Some False \<Rightarrow> s'\<lparr>mem := AList.delete k (mem s')\<rparr>
        | None \<Rightarrow> s')) s"

definition MemClose :: "memory_store \<Rightarrow> memory_store" where
  "MemClose s = \<lparr>mem = [], stor = []\<rparr>"

section \<open>MemCachedStore\<close>

fun StoreGet :: "store \<Rightarrow> bytes \<Rightarrow> store_error + bytes" where
  "StoreGet (MemoryStore s) key = MemGet s key"
| "StoreGet (MemCachedStore s private ps) key = bind_res (chooseMap s key) (\<lambda>m.
     case map_of m key of
       Some None \<Rightarrow> Inl ErrKeyNotFound
     | Some (Some v) \<Rightarrow> Inr v
     | None \<Rightarrow> StoreGet ps key)"

fun StorePut :: "bytes \<Rightarrow> bytes \<Rightarrow> store \<Rightarrow> store_error + store" where
  "StorePut key v (MemoryStore s) = Inr (MemoryStore (MemPut key v s))"
| "StorePut key v (MemCachedStore s private ps) =
     bind_res (putChosen key (Some (Copy v)) s) (\<lambda>s'. Inr (MemCachedStore s' private ps))"

text \<open>\<open>Delete\<close> is an operation of the cache only.\<close>

fun StoreDelete :: "bytes \<Rightarrow> store \<Rightarrow> store_error + store" where
  "StoreDelete key (MemCachedStore s private ps) =
     bind_res (putChosen key None s) (\<lambda>s'. Inr (MemCachedStore s' private ps))"
| "StoreDelete key (MemoryStore s) = Inr (MemoryStore s)"

fun PutChangeSet :: "gmap \<Rightarrow> gmap \<Rightarrow> store \<Rightarrow> store" where
  "PutChangeSet puts stores (MemoryStore s) = MemoryStore (putChangeSet puts stores s)"
| "PutChangeSet puts stores (MemCachedStore s private ps) =
     MemCachedStore (putChangeSet puts stores s) private ps"

record kv_exists =
  Key :: bytes
  Value :: "bytes option"
  Exists :: bool

record mem_batch =
  PutB :: "kv_exists list"
  Deleted :: "kv_exists list"

definition GetBatch :: "memory_store \<Rightarrow> store \<Rightarrow> mem_batch" where
  "GetBatch s ps = (let kvs = map (\<lambda>(k, v).
       \<lparr>Key = k, Value = v, Exists = (\<not> isl (StoreGet ps k))\<rparr>) (mem s @ stor s) in
     \<lparr>PutB = filter (\<lambda>e. Value e \<noteq> None) kvs, Deleted = filter (\<lambda>e. Value e = None) kvs\<rparr>)"

text \<open>\<open>GetStorageChanges\<close> panics (\<open>None\<close>) on a shared store.\<close>

definition GetStorageChanges :: "store \<Rightarrow> gmap option" where
  "GetStorageChanges st = (case st of
     MemCachedStore s True ps \<Rightarrow> Some (stor s)
   | _ \<Rightarrow> None)"

datatype operation = Operation string bytes "bytes option"

definition storage_key :: "bytes \<Rightarrow> bool" where
  "storage_key key \<longleftrightarrow> inStor key = Some True"

definition BatchToOperations :: "mem_batch \<Rightarrow> operation list" where
  "BatchToOperations b =
     map (\<lambda>e. Operation (if Exists e then ''Changed'' else ''Added'') (tl (Key e)) (Value e))
       (filter (\<lambda>e. storage_key (Key e)) (PutB b)) @
     map (\<lambda>e. Operation ''Deleted'' (tl (Key e)) None)
       (filter (\<lambda>e. Exists e \<and> storage_key (Key e)) (Deleted b))"

section \<open>Merging iteration\<close>

text \<open>
  The state of \<open>mergeFunc\<close>: \<open>stopped\<close> is \<open>done\<close>, \<open>memRest\<close> is \<open>memRes[iMem:]\<close>, \<open>kvMem\<close> the current item
  of the cache and \<open>ust\<close> the state of the user's callback.
\<close>

record 's merge_state =
  stopped :: bool
  memRest :: "(bytes \<times> bytes option) list"
  kvMem :: "bytes \<times> bytes option"
  haveMem :: bool
  ust :: 's

definition advance :: "'s merge_state \<Rightarrow> 's merge_state" where
  "advance st = (case memRest st of
     x # xs \<Rightarrow> st\<lparr>kvMem := x, haveMem := True, memRest := xs\<rparr>
   | [] \<Rightarrow> st\<lparr>haveMem := False\<rparr>)"

definition cutKey :: "bool \<Rightarrow> seek_range \<Rightarrow> bytes \<Rightarrow> bytes" where
  "cutKey cutPrefix rng k = (if cutPrefix then drop (length (Prefix rng)) k else k)"

function mergeFunc :: "bool \<Rightarrow> seek_range \<Rightarrow> 's callback \<Rightarrow> 's merge_state callback" where
  "mergeFunc cutPrefix rng f k v st =
     (if stopped st then (False, st)
      else if haveMem st \<and> less_key rng (fst (kvMem st)) k then
        (case snd (kvMem st) of
           None \<Rightarrow> mergeFunc cutPrefix rng f k v (advance st)
         | Some mv \<Rightarrow>
             let mk = cutKey cutPrefix rng (fst (kvMem st));
                 (go, u') = f mk mv (ust st);
                 st' = st\<lparr>kvMem := (mk, Some mv), ust := u'\<rparr> in
             if go then mergeFunc cutPrefix rng f k v (advance st')
             else (False, st'\<lparr>stopped := True\<rparr>))
      else if fst (kvMem st) \<noteq> k then
        (let (go, u') = f (cutKey cutPrefix rng k) v (ust st); st' = st\<lparr>ust := u'\<rparr> in
           if go then (True, st') else (False, st'\<lparr>stopped := True\<rparr>))
      else (True, st))"
  by pat_completeness auto
termination
  by (relation "measure (\<lambda>(_, _, _, _, _, st). length (memRest st) + (if haveMem st then 1 else 0))")
    (auto simp: advance_def split: list.splits)

declare mergeFunc.simps [simp del]

definition memRes :: "seek_range \<Rightarrow> gmap \<Rightarrow> gmap" where
  "memRes rng m = sort_slice rng (filter (\<lambda>(k, _). isKeyOK rng k) m)"

definition init_merge :: "gmap \<Rightarrow> 's \<Rightarrow> 's merge_state" where
  "init_merge xs u = (case xs of
     x # ys \<Rightarrow> \<lparr>stopped = False, memRest = ys, kvMem = x, haveMem = True, ust = u\<rparr>
   | [] \<Rightarrow> \<lparr>stopped = False, memRest = [], kvMem = ([], None), haveMem = False, ust = u\<rparr>)"

definition drain :: "bool \<Rightarrow> seek_range \<Rightarrow> 's callback \<Rightarrow> 's merge_state \<Rightarrow> 's" where
  "drain cutPrefix rng f st =
     (if \<not> stopped st \<and> haveMem st
      then iter_kv (\<lambda>k. f (cutKey cutPrefix rng k)) (present (kvMem st # memRest st)) (ust st)
      else ust st)"

text \<open>
  \<open>seek\<close> hands \<open>mergeFunc\<close> to the \<open>Seek\<close> of the lower store. Every store feeds its
  callback one item after the other until the callback declines, so the lower store enters as
  the list of items it would feed; \<open>SeekItems\<close> is that list, collected by a callback that
  never declines.
\<close>

definition seek_over :: "bool \<Rightarrow> seek_range \<Rightarrow> gmap \<Rightarrow> kv list \<Rightarrow> 's callback \<Rightarrow> 's \<Rightarrow> 's" where
  "seek_over cutPrefix rng m psItems f u =
     drain cutPrefix rng f (iter_kv (mergeFunc cutPrefix rng f) psItems (init_merge (memRes rng m) u))"

definition collect :: "kv list callback" where
  "collect k v acc = (True, acc @ [(k, v)])"

fun SeekItems :: "store \<Rightarrow> seek_range \<Rightarrow> store_error + kv list" where
  "SeekItems (MemoryStore s) rng = MemSeek s rng collect []"
| "SeekItems (MemCachedStore s private ps) rng = bind_res (chooseMap s (Prefix rng)) (\<lambda>m.
     bind_res (SeekItems ps rng) (\<lambda>items. Inr (seek_over False rng m items collect [])))"

fun CachedSeek :: "bool \<Rightarrow> store \<Rightarrow> seek_range \<Rightarrow> 's callback \<Rightarrow> 's \<Rightarrow> store_error + 's" where
  "CachedSeek cutPrefix (MemoryStore s) rng f u = MemSeek s rng f u"
| "CachedSeek cutPrefix (MemCachedStore s private ps) rng f u = bind_res (chooseMap s (Prefix rng)) (\<lambda>m.
     bind_res (SeekItems ps rng) (\<lambda>items. Inr (seek_over cutPrefix rng m items f u)))"

text \<open>\<open>Seek\<close> keeps the prefix on the keys, \<open>SeekAsync\<close> of the data access object cuts it.\<close>

definition StoreSeek :: "store \<Rightarrow> seek_range \<Rightarrow> 's callback \<Rightarrow> 's \<Rightarrow> store_error + 's" where
  "StoreSeek = CachedSeek False"

definition SeekAsync :: "store \<Rightarrow> seek_range \<Rightarrow> bool \<Rightarrow> store_error + kv list" where
  "SeekAsync s rng cutPrefix = CachedSeek cutPrefix s rng collect []"

section \<open>Persist\<close>

text \<open>
  The lower store's \<open>PutChangeSet\<close> is a parameter, since a database below can refuse the
  changes: it returns an error or nothing, and the lower store afterwards.
\<close>

type_synonym change_sink = "gmap \<Rightarrow> gmap \<Rightarrow> store \<Rightarrow> store_error option \<times> store"

definition memory_sink :: change_sink where
  "memory_sink puts stores ps = (None, PutChangeSet puts stores ps)"

text \<open>
  A private store is flushed in one go. The source leaves \<open>nil\<close> maps behind, which read as
  empty maps and cannot be written to: the store returned here stands for one that is only
  read afterwards.
\<close>

definition persist_private :: "change_sink \<Rightarrow> memory_store \<Rightarrow> store \<Rightarrow> nat \<times> store_error option \<times> memory_store \<times> store" where
  "persist_private pcs s ps =
     (let keys = length (mem s) + length (stor s) in
      if keys = 0 then (0, None, s, ps)
      else case pcs (mem s) (stor s) ps of
        (Some e, ps') \<Rightarrow> (0, Some e, s, ps')
      | (None, ps') \<Rightarrow> (keys, None, \<lparr>mem = [], stor = []\<rparr>, ps'))"

text \<open>
  A shared store is flushed in three steps. \<open>persist_begin\<close> (under the lock) moves the
  contents into \<open>tempstore\<close>, a layer of its own below the now empty cache;
  \<open>persist_flush\<close> (without the lock) writes the layer to the lower store; between the
  steps other goroutines read and write the store; \<open>persist_end\<close> (under the lock) removes
  the layer, or takes its contents back when the flush failed.
\<close>

definition persist_begin :: "store \<Rightarrow> store" where
  "persist_begin st = (case st of
     MemCachedStore s private ps \<Rightarrow>
       if length (mem s) + length (stor s) = 0 then st
       else MemCachedStore \<lparr>mem = [], stor = []\<rparr> private (MemCachedStore s False ps)
   | MemoryStore s \<Rightarrow> st)"

definition persist_flush :: "change_sink \<Rightarrow> store \<Rightarrow> store_error option \<times> store" where
  "persist_flush pcs st = (case st of
     MemCachedStore s private (MemCachedStore t private' ps) \<Rightarrow>
       (let (e, ps') = pcs (mem t) (stor t) ps in
          (e, MemCachedStore s private (MemCachedStore t private' ps')))
   | _ \<Rightarrow> (None, st))"

definition persist_end :: "store_error option \<Rightarrow> store \<Rightarrow> store" where
  "persist_end e st = (case st of
     MemCachedStore s private (MemCachedStore t private' ps) \<Rightarrow>
       (case e of
          None \<Rightarrow> MemCachedStore s private ps
        | Some _ \<Rightarrow> MemCachedStore (putChangeSet (mem s) (stor s) t) private ps)
   | _ \<Rightarrow> st)"

definition persist :: "change_sink \<Rightarrow> store \<Rightarrow> nat \<times> store_error option \<times> store" where
  "persist pcs st = (case st of
     MemCachedStore s True ps \<Rightarrow>
       (let (n, e, s', ps') = persist_private pcs s ps in (n, e, MemCachedStore s' True ps'))
   | MemCachedStore s False ps \<Rightarrow>
       (let keys = length (mem s) + length (stor s) in
        if keys = 0 then (0, None, st)
        else let (e, st') = persist_flush pcs (persist_begin st) in (keys, e, persist_end e st'))
   | MemoryStore s \<Rightarrow> (0, None, st))"

section \<open>Reads after writes\<close>

definition wf_map :: "gmap \<Rightarrow> bool" where
  "wf_map m \<longleftrightarrow> distinct (map fst m)"

definition wf_mem :: "memory_store \<Rightarrow> bool" where
  "wf_mem s \<longleftrightarrow> wf_map (mem s) \<and> wf_map (stor s)"

fun wf_store :: "store \<Rightarrow> bool" where
  "wf_store (MemoryStore s) = wf_mem s"
| "wf_store (MemCachedStore s private ps) = (wf_mem s \<and> wf_store ps)"

lemma wf_map_update [simp]: "wf_map m \<Longrightarrow> wf_map (AList.update k v m)"
  by (simp add: wf_map_def distinct_update)

lemma map_of_put_all:
  "wf_map puts \<Longrightarrow> map_of (put_all puts m) = map_of m ++ map_of puts"
  unfolding put_all_def wf_map_def
proof (induction puts arbitrary: m)
  case Nil
  show ?case by simp
next
  case (Cons kv puts)
  obtain k v where kv: "kv = (k, v)" by (cases kv)
  with Cons.prems have "k \<notin> dom (map_of puts)" by (auto simp: dom_map_of_conv_image_fst)
  then have "(map_of m)(k \<mapsto> v) ++ map_of puts = (map_of m ++ map_of puts)(k \<mapsto> v)"
    by (simp add: map_add_upd_left)
  moreover have "map_of (fold (\<lambda>(k, v). AList.update k v) (kv # puts) m) =
      map_of (AList.update k v m) ++ map_of puts"
    using Cons kv by simp
  ultimately show ?case using kv
    by (simp add: update_conv' fun_eq_iff map_add_def del: fold_simps)
qed

lemma wf_put_all [simp]: "wf_map m \<Longrightarrow> wf_map (put_all puts m)"
  unfolding put_all_def by (induction puts arbitrary: m) auto

lemma putChosen_ok:
  "key \<noteq> [] \<Longrightarrow> \<exists>s'. putChosen key v s = Inr s'"
  by (auto simp: putChosen_def inStor_def split: list.splits)

lemma putChosen_wf: "putChosen key v s = Inr s' \<Longrightarrow> wf_mem s \<Longrightarrow> wf_mem s'"
  by (auto simp: putChosen_def wf_mem_def split: option.splits if_splits)

text \<open>The map of a store a key belongs to, and the read of a cache in terms of it.\<close>

definition sel :: "memory_store \<Rightarrow> bytes \<Rightarrow> bytes \<rightharpoonup> bytes option" where
  "sel s key = map_of (if inStor key = Some True then stor s else mem s)"

lemma chooseMap_eq:
  "chooseMap s k = (if k = [] then Inl PanicIndexOutOfRange
     else Inr (if inStor k = Some True then stor s else mem s))"
  by (auto simp: chooseMap_def inStor_def split: list.splits)

definition of_value :: "bytes option \<Rightarrow> store_error + bytes" where
  "of_value v = (case v of None \<Rightarrow> Inl ErrKeyNotFound | Some x \<Rightarrow> Inr x)"

lemma StoreGet_cached:
  "k \<noteq> [] \<Longrightarrow> StoreGet (MemCachedStore s p ps) k =
     (case sel s k k of None \<Rightarrow> StoreGet ps k | Some v \<Rightarrow> of_value v)"
  by (auto simp: chooseMap_eq sel_def of_value_def split: option.splits)

lemma StoreGet_memory:
  "k \<noteq> [] \<Longrightarrow> StoreGet (MemoryStore s) k =
     (case sel s k k of None \<Rightarrow> Inl ErrKeyNotFound | Some v \<Rightarrow> of_value v)"
  by (auto simp: MemGet_def chooseMap_eq sel_def of_value_def split: option.splits)

lemma StoreGet_Nil [simp]: "StoreGet s [] = Inl PanicIndexOutOfRange"
  by (cases s) (simp_all add: MemGet_def chooseMap_eq)

declare StoreGet.simps [simp del]

lemma sel_putChosen:
  "putChosen key v s = Inr s' \<Longrightarrow> sel s' k k = (if k = key then Some v else sel s k k)"
  by (auto simp: putChosen_def sel_def inStor_def update_conv'
      split: option.splits if_splits list.splits)

lemma sel_putChangeSet:
  "wf_mem s \<Longrightarrow>
     sel (putChangeSet (mem s) (stor s) t) k k = (case sel s k k of None \<Rightarrow> sel t k k | Some v \<Rightarrow> Some v)"
  by (auto simp: sel_def putChangeSet_def map_of_put_all wf_mem_def map_add_def split: option.splits)

lemma sel_empty [simp]: "sel \<lparr>mem = [], stor = []\<rparr> k = Map.empty"
  by (simp add: sel_def fun_eq_iff)

text \<open>
  The interface the trie and the data access object use: after a write the written key reads
  as written and every other key as before.
\<close>

locale kv_store =
  fixes get :: "'s \<Rightarrow> bytes \<Rightarrow> store_error + bytes"
    and put :: "bytes \<Rightarrow> bytes \<Rightarrow> 's \<Rightarrow> store_error + 's"
    and delete :: "bytes \<Rightarrow> 's \<Rightarrow> store_error + 's"
    and inv :: "'s \<Rightarrow> bool"
  assumes put_total: "inv s \<Longrightarrow> key \<noteq> [] \<Longrightarrow> \<exists>s'. put key v s = Inr s'"
    and delete_total: "inv s \<Longrightarrow> key \<noteq> [] \<Longrightarrow> \<exists>s'. delete key s = Inr s'"
    and put_inv: "inv s \<Longrightarrow> put key v s = Inr s' \<Longrightarrow> inv s'"
    and delete_inv: "inv s \<Longrightarrow> delete key s = Inr s' \<Longrightarrow> inv s'"
    and get_put: "inv s \<Longrightarrow> key \<noteq> [] \<Longrightarrow> put key v s = Inr s' \<Longrightarrow> k \<noteq> [] \<Longrightarrow>
        get s' k = (if k = key then Inr v else get s k)"
    and get_delete: "inv s \<Longrightarrow> key \<noteq> [] \<Longrightarrow> delete key s = Inr s' \<Longrightarrow> k \<noteq> [] \<Longrightarrow>
        get s' k = (if k = key then Inl ErrKeyNotFound else get s k)"
begin

fun write1 :: "bytes \<times> bytes option \<Rightarrow> 's \<Rightarrow> store_error + 's" where
  "write1 (k, Some v) s = put k v s"
| "write1 (k, None) s = delete k s"

fun writes :: "(bytes \<times> bytes option) list \<Rightarrow> 's \<Rightarrow> store_error + 's" where
  "writes [] s = Inr s"
| "writes (w # ws) s = bind_res (write1 w s) (writes ws)"

lemma write_total: "inv s \<Longrightarrow> fst w \<noteq> [] \<Longrightarrow> \<exists>s'. write1 w s = Inr s'"
  by (cases "(w, s)" rule: write1.cases) (auto simp: put_total delete_total)

lemma write_inv: "inv s \<Longrightarrow> write1 w s = Inr s' \<Longrightarrow> inv s'"
  by (cases "(w, s)" rule: write1.cases) (auto intro: put_inv delete_inv)

lemma get_write:
  "inv s \<Longrightarrow> fst w \<noteq> [] \<Longrightarrow> write1 w s = Inr s' \<Longrightarrow> k \<noteq> [] \<Longrightarrow>
     get s' k = (if k = fst w then case snd w of None \<Rightarrow> Inl ErrKeyNotFound | Some v \<Rightarrow> Inr v
                 else get s k)"
  by (cases "(w, s)" rule: write1.cases) (auto simp: get_put get_delete)

lemma writes_last_wins:
  assumes "inv s" and "\<forall>w \<in> set ws. fst w \<noteq> []" and "k \<noteq> []"
  shows "\<exists>s'. writes ws s = Inr s' \<and> inv s' \<and>
     get s' k = (case map_of (rev ws) k of None \<Rightarrow> get s k
        | Some None \<Rightarrow> Inl ErrKeyNotFound | Some (Some v) \<Rightarrow> Inr v)"
  using assms(1,2)
proof (induction ws arbitrary: s)
  case Nil
  then show ?case by simp
next
  case (Cons w ws)
  obtain s1 where s1: "write1 w s = Inr s1" using write_total [of s w] Cons.prems by auto
  with Cons obtain s' where "writes ws s1 = Inr s'" "inv s'"
    and g: "get s' k = (case map_of (rev ws) k of None \<Rightarrow> get s1 k
        | Some None \<Rightarrow> Inl ErrKeyNotFound | Some (Some v) \<Rightarrow> Inr v)"
    using write_inv [OF Cons.prems(1) s1] by auto
  moreover have "get s1 k = (if k = fst w then case snd w of None \<Rightarrow> Inl ErrKeyNotFound | Some v \<Rightarrow> Inr v
                 else get s k)"
    using get_write [OF Cons.prems(1) _ s1 assms(3)] Cons.prems(2) by simp
  ultimately show ?case using s1
    by (cases w) (auto simp: map_add_def split: option.splits)
qed

end

fun is_cached :: "store \<Rightarrow> bool" where
  "is_cached (MemCachedStore _ _ _) = True"
| "is_cached (MemoryStore _) = False"

interpretation cached: kv_store StoreGet StorePut StoreDelete is_cached
proof
  fix s key v assume "is_cached s" "key \<noteq> ([] :: bytes)"
  then show "\<exists>s'. StorePut key v s = Inr s'" "\<exists>s'. StoreDelete key s = Inr s'"
    using putChosen_ok by (cases s; force simp: Copy_def)+
next
  fix s key v s' assume "is_cached s" "StorePut key v s = Inr s'"
  then show "is_cached s'" by (cases s) auto
next
  fix s key s' assume "is_cached s" "StoreDelete key s = Inr s'"
  then show "is_cached s'" by (cases s) auto
next
  fix s key v s' k
  assume "is_cached s" "key \<noteq> []" "StorePut key v s = Inr s'" "k \<noteq> ([] :: bytes)"
  then show "StoreGet s' k = (if k = key then Inr v else StoreGet s k)"
    by (cases s) (auto simp: Copy_def StoreGet_cached sel_putChosen of_value_def)
next
  fix s key s' k
  assume "is_cached s" "key \<noteq> []" "StoreDelete key s = Inr s'" "k \<noteq> ([] :: bytes)"
  then show "StoreGet s' k = (if k = key then Inl ErrKeyNotFound else StoreGet s k)"
    by (cases s) (auto simp: StoreGet_cached sel_putChosen of_value_def)
qed

section \<open>Persist keeps what is visible\<close>

lemma StoreGet_PutChangeSet:
  assumes "wf_mem s"
  shows "StoreGet (PutChangeSet (mem s) (stor s) ps) k = StoreGet (MemCachedStore s p ps) k"
proof (cases "k = []")
  case False
  then show ?thesis
    by (cases ps) (auto simp: StoreGet_cached StoreGet_memory sel_putChangeSet [OF assms]
        split: option.splits)
qed simp

lemma StoreGet_lower_cong:
  "(\<And>k. StoreGet ps k = StoreGet ps' k) \<Longrightarrow>
     StoreGet (MemCachedStore s p ps) k = StoreGet (MemCachedStore s q ps') k"
  by (cases "k = []") (simp_all add: StoreGet_cached split: option.split)

lemma StoreGet_empty_layer [simp]:
  "StoreGet (MemCachedStore \<lparr>mem = [], stor = []\<rparr> p ps) k = StoreGet ps k"
  by (cases "k = []") (simp_all add: StoreGet_cached)

lemma StoreGet_merged:
  "wf_mem s \<Longrightarrow> StoreGet (MemCachedStore (putChangeSet (mem s) (stor s) t) p ps) k =
     StoreGet (MemCachedStore s q (MemCachedStore t r ps)) k"
  by (cases "k = []") (auto simp: StoreGet_cached sel_putChangeSet split: option.splits)

lemma persist_begin_get: "StoreGet (persist_begin st) k = StoreGet st k"
  by (cases st) (auto simp: persist_begin_def intro: StoreGet_lower_cong)

text \<open>
  While a flush is under way the layer \<open>t\<close> holds the changes being written. Whatever other
  writers did to the cache \<open>s\<close> meanwhile stays visible above it, before and after the
  flush reaches the lower store and after the layer is removed, and also when the flush fails.
\<close>

lemma persist_flush_get:
  assumes "wf_mem t"
  shows "StoreGet (snd (persist_flush memory_sink (MemCachedStore s p (MemCachedStore t q ps)))) k =
     StoreGet (MemCachedStore s p (MemCachedStore t q ps)) k"
proof -
  have "StoreGet (MemCachedStore t q (PutChangeSet (mem t) (stor t) ps)) k
      = StoreGet (MemCachedStore t q ps) k" for k
    using StoreGet_PutChangeSet [OF assms, of ps k q]
    by (cases "k = []") (simp_all add: StoreGet_cached split: option.splits)
  then show ?thesis
    by (simp add: persist_flush_def memory_sink_def) (rule StoreGet_lower_cong)
qed

lemma persist_end_get_ok:
  assumes "wf_mem t"
  shows "StoreGet (persist_end None
       (snd (persist_flush memory_sink (MemCachedStore s p (MemCachedStore t q ps))))) k =
     StoreGet (MemCachedStore s p (MemCachedStore t q ps)) k"
  by (simp add: persist_flush_def memory_sink_def persist_end_def)
    (rule StoreGet_lower_cong, rule StoreGet_PutChangeSet [OF assms])

lemma persist_end_get_err:
  assumes "wf_mem s"
  shows "StoreGet (persist_end (Some e) (MemCachedStore s p (MemCachedStore t q ps))) k =
     StoreGet (MemCachedStore s p (MemCachedStore t q ps)) k"
  by (simp add: persist_end_def StoreGet_merged [OF assms, where q = p and r = q])

lemma wf_putChangeSet: "wf_mem t \<Longrightarrow> wf_mem (putChangeSet puts stores t)"
  by (simp add: wf_mem_def putChangeSet_def)

lemma wf_PutChangeSet: "wf_store ps \<Longrightarrow> wf_store (PutChangeSet puts stores ps)"
  by (cases ps) (simp_all add: wf_putChangeSet)

end
