(* ===== verification/StorageSeek.thy ===== *)
theory StorageSeek
  imports Storage
begin

text \<open>
  Correctness of the merging iteration of \<open>MemCachedStore.seek\<close>: the items fed to the
  callback are exactly the visible entries of the range, each key once, in the order of the
  range, and the callback can stop the iteration after any of them.
\<close>

section \<open>The order of a range\<close>

lemma less_key_irrefl [simp]: "\<not> less_key rng k k"
  by (simp add: less_key_def)

lemma less_key_trans: "less_key rng a b \<Longrightarrow> less_key rng b c \<Longrightarrow> less_key rng a c"
  by (cases "Backwards rng") (auto simp: less_key_def)

lemma less_key_linear: "a \<noteq> b \<Longrightarrow> less_key rng a b \<or> less_key rng b a"
  by (cases "Backwards rng") (auto simp: less_key_def)

lemma less_key_asym: "less_key rng a b \<Longrightarrow> \<not> less_key rng b a"
  using less_key_trans less_key_irrefl by blast

definition sorted_kv :: "seek_range \<Rightarrow> (bytes \<times> 'v) list \<Rightarrow> bool" where
  "sorted_kv rng xs \<longleftrightarrow> sorted_wrt (less_key rng) (map fst xs)"

lemma sorted_kv_Cons [simp]:
  "sorted_kv rng (x # xs) \<longleftrightarrow> (\<forall>y \<in> set xs. less_key rng (fst x) (fst y)) \<and> sorted_kv rng xs"
  by (auto simp: sorted_kv_def)

lemma sorted_kv_Nil [simp]: "sorted_kv rng []"
  by (simp add: sorted_kv_def)

lemma set_sort_slice [simp]: "set (sort_slice rng xs) = set xs"
  by (simp add: sort_slice_def)

lemma sorted_kv_sort_slice:
  assumes "distinct (map fst xs)"
  shows "sorted_kv rng (sort_slice rng xs)"
proof -
  have s: "sorted (map fst (sort_key fst xs))" by simp
  have "distinct (map fst (sort_key fst xs))"
    using assms by (simp add: distinct_map)
  with s have "sorted_wrt (<) (map fst (sort_key fst xs))"
    by (simp add: strict_sorted_iff)
  then show ?thesis
    by (auto simp: sorted_kv_def sort_slice_def less_key_def rev_map [symmetric] sorted_wrt_rev
        elim!: sorted_wrt_mono_rel [rotated])
qed

lemma map_of_sorted_kv: "sorted_kv rng xs \<Longrightarrow> distinct (map fst xs)"
  by (induction xs) auto

section \<open>Iteration with early stop\<close>

fun iterb :: "'s callback \<Rightarrow> kv list \<Rightarrow> 's \<Rightarrow> bool \<times> 's" where
  "iterb f [] u = (True, u)"
| "iterb f ((k, v) # xs) u = (let (go, u') = f k v u in if go then iterb f xs u' else (False, u'))"

lemma iter_kv_iterb: "iter_kv f xs u = snd (iterb f xs u)"
  by (induction f xs u rule: iterb.induct) (auto simp: Let_def split: prod.splits)

lemma iter_kv_append:
  "iter_kv f (xs @ ys) u = (let (go, u') = iterb f xs u in if go then iter_kv f ys u' else u')"
  by (induction f xs u rule: iterb.induct) (auto simp: Let_def split: prod.splits)

lemma iter_collect: "iter_kv collect xs acc = acc @ xs"
  by (induction xs arbitrary: acc) (auto simp: collect_def)

lemma present_Cons [simp]:
  "present ((k, None) # xs) = present xs"
  "present ((k, Some v) # xs) = (k, v) # present xs"
  "present [] = []"
  by (simp_all add: present_def map_filter_simps)

lemma set_present: "set (present m) = {(k, v). (k, Some v) \<in> set m}"
  by (induction m) (auto simp: present_def map_filter_simps split: option.splits)

section \<open>The merge as a list\<close>

fun mergeKV :: "seek_range \<Rightarrow> gmap \<Rightarrow> kv list \<Rightarrow> kv list" where
  "mergeKV rng [] ps = ps"
| "mergeKV rng ms [] = present ms"
| "mergeKV rng ((mk, mv) # ms) ((k, v) # ps) =
     (if less_key rng mk k
      then (case mv of None \<Rightarrow> mergeKV rng ms ((k, v) # ps)
            | Some x \<Rightarrow> (mk, x) # mergeKV rng ms ((k, v) # ps))
      else if mk = k then mergeKV rng ((mk, mv) # ms) ps
      else (k, v) # mergeKV rng ((mk, mv) # ms) ps)"

lemma set_mergeKV:
  "sorted_kv rng ms \<Longrightarrow> sorted_kv rng ps \<Longrightarrow>
   set (mergeKV rng ms ps) =
     {(k, v). (k, Some v) \<in> set ms \<or> (k \<notin> fst ` set ms \<and> (k, v) \<in> set ps)}"
proof (induction rng ms ps rule: mergeKV.induct)
  case (2 rng m ms)
  then show ?case by (auto simp: set_present)
next
  case (3 rng mk mv ms k v ps)
  consider (lt) "less_key rng mk k" | (eq) "mk = k" | (gt) "less_key rng k mk" "mk \<noteq> k" "\<not> less_key rng mk k"
    using less_key_linear [of mk k rng] less_key_asym by auto
  then show ?case
  proof cases
    case lt
    have "mk \<noteq> k" and "(mk, x) \<notin> set ps" for x
      using 3(5,6) lt less_key_trans [of rng mk k mk] by auto
    with 3 lt show ?thesis by (cases mv) auto
  next
    case eq
    with 3 show ?thesis by auto
  next
    case gt
    have "k \<notin> fst ` set ((mk, mv) # ms)"
      using 3(5) gt by (auto dest: less_key_trans less_key_asym)
    with 3 gt show ?thesis by auto
  qed
qed auto

lemma sorted_mergeKV:
  "sorted_kv rng ms \<Longrightarrow> sorted_kv rng ps \<Longrightarrow> sorted_kv rng (mergeKV rng ms ps)"
proof (induction rng ms ps rule: mergeKV.induct)
  case (2 rng m ms)
  have "sorted_kv rng xs \<Longrightarrow> sorted_kv rng (present xs)" for xs :: gmap
  proof (induction xs)
    case (Cons x xs)
    then show ?case by (cases x; cases "snd x") (auto simp: set_present)
  qed simp
  with 2 show ?case by simp
next
  case (3 rng mk mv ms k v ps)
  consider (lt) "less_key rng mk k" | (eq) "mk = k" | (gt) "less_key rng k mk" "mk \<noteq> k" "\<not> less_key rng mk k"
    using less_key_linear [of mk k rng] less_key_asym by auto
  then show ?case
  proof cases
    case lt
    have "\<forall>y \<in> set (mergeKV rng ms ((k, v) # ps)). less_key rng mk (fst y)"
      using 3(5,6) lt by (subst set_mergeKV) (auto dest: less_key_trans)
    with 3 lt show ?thesis by (cases mv) auto
  next
    case eq
    with 3 show ?thesis by auto
  next
    case gt
    have "\<forall>y \<in> set (mergeKV rng ((mk, mv) # ms) ps). less_key rng k (fst y)"
      using 3(5,6) gt by (subst set_mergeKV) (auto dest: less_key_trans)
    with 3 gt show ?thesis by auto
  qed
qed auto

section \<open>mergeFunc computes the merge\<close>

definition mem_items :: "'s merge_state \<Rightarrow> gmap" where
  "mem_items st = (if haveMem st then kvMem st # memRest st else [])"

definition merge_inv :: "'s merge_state \<Rightarrow> kv list \<Rightarrow> bool" where
  "merge_inv st ps \<longleftrightarrow> \<not> stopped st \<and> (\<not> haveMem st \<longrightarrow> memRest st = [] \<and> fst (kvMem st) \<notin> fst ` set ps)"

lemma mem_items_advance:
  "haveMem st \<Longrightarrow> mem_items (advance st) = memRest st"
  by (auto simp: mem_items_def advance_def split: list.splits)

lemma advance_simps [simp]:
  "ust (advance st) = ust st" "stopped (advance st) = stopped st"
  by (simp_all add: advance_def split: list.splits)

lemma merge_inv_advance:
  "haveMem st \<Longrightarrow> \<not> stopped st \<Longrightarrow> fst (kvMem st) \<notin> fst ` set ps \<Longrightarrow> merge_inv (advance st) ps"
  by (auto simp: merge_inv_def advance_def split: list.splits)

lemma mergeFunc_step:
  assumes "merge_inv st ((k, v) # ps)" and "sorted_kv rng (mem_items st)" and "sorted_kv rng ((k, v) # ps)"
    and "mergeFunc False rng f k v st = (go, st')"
  shows "if go then merge_inv st' ps \<and> sorted_kv rng (mem_items st') \<and>
           iter_kv f (mergeKV rng (mem_items st) ((k, v) # ps)) (ust st) =
             iter_kv f (mergeKV rng (mem_items st') ps) (ust st')
         else stopped st' \<and>
           iter_kv f (mergeKV rng (mem_items st) ((k, v) # ps)) (ust st) = ust st'"
  using assms
proof (induction "length (mem_items st)" arbitrary: st rule: less_induct)
  case less
  note inv = less.prems(1) and srt = less.prems(2) and ps = less.prems(3)
    and step = less.prems(4) [unfolded mergeFunc.simps [of False rng f k v st]]
  have run: "\<not> stopped st" using inv by (simp add: merge_inv_def)
  obtain mk mv where kvm: "kvMem st = (mk, mv)" by (cases "kvMem st")
  show ?case
  proof (cases "haveMem st \<and> less_key rng mk k")
    case True
    then have items: "mem_items st = (mk, mv) # memRest st" by (simp add: mem_items_def kvm)
    have mk: "mk \<notin> fst ` set ((k, v) # ps)" using True ps by (auto dest: less_key_trans)
    have shorter: "length (memRest st) < length (mem_items st)" using items by simp
    have memRest: "sorted_kv rng (memRest st)" using srt items by simp
    show ?thesis
    proof (cases mv)
      case None
      have adv: "mem_items (advance st) = memRest st" using True by (simp add: mem_items_advance)
      have "mergeFunc False rng f k v (advance st) = (go, st')"
        using step run True kvm None by simp
      from less.hyps [OF _ _ _ ps this] shorter adv memRest
        merge_inv_advance [of st "(k, v) # ps"] True run mk kvm
      show ?thesis using True items None by (cases go) auto
    next
      case (Some x)
      obtain go1 u1 where f: "f mk x (ust st) = (go1, u1)" by (cases "f mk x (ust st)")
      let ?st = "st\<lparr>kvMem := (mk, Some x), ust := u1\<rparr>"
      have adv: "mem_items (advance ?st) = memRest st" using True by (simp add: mem_items_advance)
      show ?thesis
      proof (cases go1)
        case True1: True
        have "mergeFunc False rng f k v (advance ?st) = (go, st')"
          using step run True kvm Some f True1 by (simp add: cutKey_def)
        from less.hyps [OF _ _ _ ps this] shorter adv memRest
          merge_inv_advance [of ?st "(k, v) # ps"] True run mk
        show ?thesis using True items Some f True1 by (cases go) auto
      next
        case False
        then show ?thesis
          using step run True kvm Some f items by (auto simp: cutKey_def)
      qed
    qed
  next
    case False
    show ?thesis
    proof (cases "mk = k")
      case True
      then have hm: "haveMem st" using inv kvm by (auto simp: merge_inv_def)
      then have "mem_items st = (mk, mv) # memRest st" by (simp add: mem_items_def kvm)
      moreover have "go" "st' = st" using step run False True kvm by auto
      ultimately show ?thesis
        using inv srt True hm by (auto simp: merge_inv_def)
    next
      case ne: False
      obtain go1 u1 where f: "f k v (ust st) = (go1, u1)" by (cases "f k v (ust st)")
      have st': "go = go1" "st' = (if go1 then st\<lparr>ust := u1\<rparr> else st\<lparr>ust := u1, stopped := True\<rparr>)"
        using step run False ne kvm f by (auto simp: cutKey_def Let_def split: if_splits)
      have "mergeKV rng (mem_items st) ((k, v) # ps) = (k, v) # mergeKV rng (mem_items st) ps"
        using False ne kvm by (auto simp: mem_items_def)
      moreover have "mem_items (st\<lparr>ust := u1\<rparr>) = mem_items st" by (simp add: mem_items_def)
      ultimately show ?thesis using st' inv srt f by (simp add: merge_inv_def)
    qed
  qed
qed

lemma merge_iteration:
  assumes "merge_inv st ps" and "sorted_kv rng (mem_items st)" and "sorted_kv rng ps"
  shows "drain False rng f (iter_kv (mergeFunc False rng f) ps st) =
     iter_kv f (mergeKV rng (mem_items st) ps) (ust st)"
  using assms
proof (induction ps arbitrary: st)
  case Nil
  show ?case
  proof (cases "haveMem st")
    case True
    with Nil show ?thesis
      by (simp add: drain_def mem_items_def merge_inv_def cutKey_def)
  next
    case False
    then show ?thesis by (simp add: drain_def mem_items_def)
  qed
next
  case (Cons kv ps)
  obtain k v where kv: "kv = (k, v)" by (cases kv)
  obtain go st' where step: "mergeFunc False rng f k v st = (go, st')"
    by (cases "mergeFunc False rng f k v st")
  note m = mergeFunc_step [OF Cons.prems [unfolded kv] step]
  show ?case
  proof (cases go)
    case True
    with m Cons.IH [of st'] Cons.prems(3) kv step show ?thesis by simp
  next
    case False
    with m kv step show ?thesis by (simp add: drain_def)
  qed
qed

section \<open>Seek\<close>

lemma isKeyOK_not_Nil: "isKeyOK rng k \<Longrightarrow> Prefix rng \<noteq> [] \<Longrightarrow> k \<noteq> []"
  by (auto simp: isKeyOK_def HasPrefix_iff)

lemma isKeyOK_inStor: "isKeyOK rng k \<Longrightarrow> Prefix rng \<noteq> [] \<Longrightarrow> inStor k = inStor (Prefix rng)"
  by (auto simp: isKeyOK_def HasPrefix_iff inStor_def split: list.splits)

lemma seek_over_merge:
  assumes "wf_map m" and "sorted_kv rng ps" and "\<forall>kv \<in> set ps. isKeyOK rng (fst kv)"
    and "Prefix rng \<noteq> []"
  shows "seek_over False rng m ps f u = iter_kv f (mergeKV rng (memRes rng m) ps) u"
proof -
  have srt: "sorted_kv rng (memRes rng m)"
    using assms(1) by (auto simp: memRes_def wf_map_def intro!: sorted_kv_sort_slice distinct_map_filter)
  have "[] \<notin> fst ` set ps" using assms(3,4) isKeyOK_not_Nil by fastforce
  then have "merge_inv (init_merge (memRes rng m) u) ps"
    by (auto simp: merge_inv_def init_merge_def split: list.splits)
  moreover have "mem_items (init_merge (memRes rng m) u) = memRes rng m"
    and "ust (init_merge (memRes rng m) u) = u"
    by (auto simp: mem_items_def init_merge_def split: list.splits)
  ultimately show ?thesis
    using merge_iteration [of "init_merge (memRes rng m) u" ps rng f] srt assms(2)
    by (simp add: seek_over_def)
qed

lemma MemSeek_items:
  "MemSeek s rng f u = bind_res (MemSeek s rng collect []) (\<lambda>xs. Inr (iter_kv f xs u))"
  by (cases "chooseMap s (Prefix rng)") (simp_all add: MemSeek_def iter_collect)

definition visible :: "store \<Rightarrow> seek_range \<Rightarrow> kv set" where
  "visible s rng = {(k, v). isKeyOK rng k \<and> StoreGet s k = Inr v}"

lemma distinct_present: "distinct (map fst m) \<Longrightarrow> distinct (map fst (present m))"
proof (induction m)
  case (Cons x m)
  then show ?case by (cases x; cases "snd x") (auto simp: set_present image_iff)
qed simp

lemma map_of_wf: "wf_map m \<Longrightarrow> (k, v) \<in> set m \<longleftrightarrow> map_of m k = Some v"
  by (simp add: wf_map_def)

lemma SeekItems_memory:
  assumes "wf_mem s" and "Prefix rng \<noteq> []"
  shows "\<exists>xs. SeekItems (MemoryStore s) rng = Inr xs \<and> sorted_kv rng xs \<and> set xs = visible (MemoryStore s) rng"
proof -
  let ?m = "if inStor (Prefix rng) = Some True then stor s else mem s"
  let ?xs = "sort_slice rng (filter (\<lambda>(k, _). isKeyOK rng k) (present ?m))"
  have wf: "wf_map ?m" using assms(1) by (simp add: wf_mem_def)
  then have "distinct (map fst (filter (\<lambda>(k, _). isKeyOK rng k) (present ?m)))"
    by (intro distinct_map_filter distinct_present) (simp only: wf_map_def)
  then have "sorted_kv rng ?xs" by (rule sorted_kv_sort_slice)
  moreover have "sel s k = map_of ?m" if "isKeyOK rng k" for k
    using isKeyOK_inStor [OF that assms(2)] by (simp add: sel_def)
  then have "set ?xs = visible (MemoryStore s) rng"
    using isKeyOK_not_Nil [OF _ assms(2)] map_of_wf [OF wf]
    by (auto simp: visible_def set_present StoreGet_memory of_value_def split: option.splits)
  ultimately show ?thesis using assms(2)
    by (simp add: MemSeek_def chooseMap_eq iter_collect)
qed

definition merged :: "memory_store \<Rightarrow> seek_range \<Rightarrow> kv list \<Rightarrow> kv list" where
  "merged s rng xs =
     mergeKV rng (memRes rng (if inStor (Prefix rng) = Some True then stor s else mem s)) xs"

lemma CachedSeek_merged:
  assumes "wf_mem s" and "Prefix rng \<noteq> []" and "SeekItems ps rng = Inr xs"
    and "sorted_kv rng xs" and "set xs = visible ps rng"
  shows "CachedSeek False (MemCachedStore s p ps) rng f u = Inr (iter_kv f (merged s rng xs) u)"
proof -
  have wf: "wf_map (if inStor (Prefix rng) = Some True then stor s else mem s)"
    using assms(1) by (simp add: wf_mem_def)
  have "\<forall>kv \<in> set xs. isKeyOK rng (fst kv)" using assms(5) by (auto simp: visible_def)
  from seek_over_merge [OF wf assms(4) this assms(2), of f u] show ?thesis
    using assms(2,3) by (simp add: chooseMap_eq merged_def split: if_splits)
qed

lemma merged_visible:
  assumes "wf_mem s" and "Prefix rng \<noteq> []" and "sorted_kv rng xs" and "set xs = visible ps rng"
  shows "sorted_kv rng (merged s rng xs)" and "set (merged s rng xs) = visible (MemCachedStore s p ps) rng"
proof -
  let ?m = "if inStor (Prefix rng) = Some True then stor s else mem s"
  let ?r = "memRes rng ?m"
  have wf: "wf_map ?m" using assms(1) by (simp add: wf_mem_def)
  then have srt: "sorted_kv rng ?r"
    unfolding memRes_def wf_map_def by (intro sorted_kv_sort_slice distinct_map_filter)
  have r: "(k, v) \<in> set ?r \<longleftrightarrow> isKeyOK rng k \<and> map_of ?m k = Some v" for k v
    using map_of_wf [OF wf] by (auto simp: memRes_def)
  have "sel s k = map_of ?m" if "isKeyOK rng k" for k
    using isKeyOK_inStor [OF that assms(2)] by (simp add: sel_def)
  moreover have "k \<in> fst ` set ?r \<longleftrightarrow> isKeyOK rng k \<and> map_of ?m k \<noteq> None" for k
    using r by (force simp: image_iff)
  ultimately show "set (merged s rng xs) = visible (MemCachedStore s p ps) rng"
    using isKeyOK_not_Nil [OF _ assms(2)]
    unfolding merged_def set_mergeKV [OF srt assms(3)] assms(4) r
    by (auto simp: visible_def StoreGet_cached of_value_def split: option.splits)
  show "sorted_kv rng (merged s rng xs)"
    unfolding merged_def using srt assms(3) by (rule sorted_mergeKV)
qed

lemma SeekItems_visible:
  assumes "wf_store s" and "Prefix rng \<noteq> []"
  shows "\<exists>xs. SeekItems s rng = Inr xs \<and> sorted_kv rng xs \<and> set xs = visible s rng"
  using assms(1)
proof (induction s)
  case (MemoryStore s)
  with SeekItems_memory [OF _ assms(2)] show ?case by simp
next
  case (MemCachedStore s p ps)
  then obtain xs where xs: "SeekItems ps rng = Inr xs" "sorted_kv rng xs" "set xs = visible ps rng"
    by auto
  have "SeekItems (MemCachedStore s p ps) rng = CachedSeek False (MemCachedStore s p ps) rng collect []"
    by simp
  also have "\<dots> = Inr (merged s rng xs)"
    using MemCachedStore.prems
    by (subst CachedSeek_merged [OF _ assms(2) xs]) (simp_all add: iter_collect)
  finally show ?case
    using merged_visible [OF _ assms(2) xs(2,3), of s] MemCachedStore.prems by auto
qed

lemma StoreSeek_items:
  assumes "wf_store s" and "Prefix rng \<noteq> []" and "SeekItems s rng = Inr xs"
  shows "StoreSeek s rng f u = Inr (iter_kv f xs u)"
proof (cases s)
  case (MemoryStore m)
  with assms(3) show ?thesis by (simp add: StoreSeek_def MemSeek_items [of m rng f u])
next
  case (MemCachedStore m p ps)
  with assms obtain ys where ys: "SeekItems ps rng = Inr ys" "sorted_kv rng ys" "set ys = visible ps rng"
    using SeekItems_visible [of ps rng] by auto
  have m: "wf_mem m" using assms(1) MemCachedStore by simp
  have "Inr xs = CachedSeek False s rng collect []"
    using MemCachedStore assms(3) by auto
  also have "\<dots> = Inr (merged m rng ys)"
    unfolding MemCachedStore CachedSeek_merged [OF m assms(2) ys] by (simp add: iter_collect)
  finally have "xs = merged m rng ys" by simp
  with CachedSeek_merged [OF m assms(2) ys, of p f u] MemCachedStore show ?thesis
    by (simp add: StoreSeek_def)
qed

section \<open>Persist with concurrent writers\<close>

lemma writes_shape:
  "cached.writes ws (MemCachedStore s p ps) = Inr st' \<Longrightarrow> wf_mem s \<Longrightarrow>
     \<exists>s'. st' = MemCachedStore s' p ps \<and> wf_mem s'"
proof (induction ws arbitrary: s)
  case Nil
  then show ?case by auto
next
  case (Cons w ws)
  then obtain s1 where "cached.write1 w (MemCachedStore s p ps) = Inr (MemCachedStore s1 p ps)"
      "wf_mem s1" "cached.writes ws (MemCachedStore s1 p ps) = Inr st'"
    by (cases w; cases "snd w") (auto simp: putChosen_wf)
  then show ?case using Cons.IH by blast
qed

lemma writes_get_cong:
  assumes "cached.writes ws a = Inr a'" and "cached.writes ws b = Inr b'"
    and "is_cached a" and "is_cached b" and "\<forall>w \<in> set ws. fst w \<noteq> []"
    and "\<And>k. StoreGet a k = StoreGet b k"
  shows "StoreGet a' k = StoreGet b' k"
proof (cases "k = []")
  case False
  from cached.writes_last_wins [OF assms(3,5) False] cached.writes_last_wins [OF assms(4,5) False]
    assms(1,2,6) show ?thesis by (simp split: option.split)
qed simp

lemma writes_append:
  "cached.writes (xs @ ys) s = bind_res (cached.writes xs s) (cached.writes ys)"
proof (induction xs arbitrary: s)
  case (Cons x xs)
  then show ?case by (cases "cached.write1 x s") simp_all
qed simp

text \<open>A sink that behaves: it applies the changes, or it fails and leaves the store alone.\<close>

definition sound_sink :: "change_sink \<Rightarrow> bool" where
  "sound_sink pcs \<longleftrightarrow> (\<forall>puts stores ps.
     (\<exists>e. pcs puts stores ps = (Some e, ps)) \<or> pcs puts stores ps = (None, PutChangeSet puts stores ps))"

lemma persist_flush_sound:
  assumes "sound_sink pcs" and "wf_mem t"
    and "persist_flush pcs (MemCachedStore s p (MemCachedStore t q ps)) = (e, st)"
  shows "\<exists>ps'. st = MemCachedStore s p (MemCachedStore t q ps') \<and>
     (case e of None \<Rightarrow> ps' = PutChangeSet (mem t) (stor t) ps | Some _ \<Rightarrow> ps' = ps)"
proof -
  consider (err) x where "pcs (mem t) (stor t) ps = (Some x, ps)"
    | (ok) "pcs (mem t) (stor t) ps = (None, PutChangeSet (mem t) (stor t) ps)"
    using assms(1) unfolding sound_sink_def by blast
  then show ?thesis using assms(3) by cases (auto simp: persist_flush_def)
qed

lemma persist_layers_get:
  assumes "wf_mem t" and "wf_mem s"
    and "case e of None \<Rightarrow> ps' = PutChangeSet (mem t) (stor t) ps | Some _ \<Rightarrow> ps' = ps"
  shows "StoreGet (persist_end e (MemCachedStore s p (MemCachedStore t q ps'))) k =
     StoreGet (MemCachedStore s p (MemCachedStore t q ps)) k"
proof (cases e)
  case None
  then have "persist_end e (MemCachedStore s p (MemCachedStore t q ps')) =
      MemCachedStore s p (PutChangeSet (mem t) (stor t) ps)"
    using assms(3) by (simp add: persist_end_def)
  then show ?thesis
    using StoreGet_lower_cong [OF StoreGet_PutChangeSet [OF assms(1), where p = q]] by simp
next
  case (Some x)
  then show ?thesis
    using assms(3) persist_end_get_err [OF assms(2), of x p t q ps k] by simp
qed

lemma persist_interleaved:
  assumes wf: "wf_mem s" and nonempty: "length (mem s) + length (stor s) \<noteq> 0"
    and keys: "\<forall>w \<in> set (ws1 @ ws2). fst w \<noteq> []" and sound: "sound_sink pcs"
    and w1: "cached.writes ws1 (persist_begin (MemCachedStore s p ps)) = Inr st1"
    and fl: "persist_flush pcs st1 = (e, st2)"
    and w2: "cached.writes ws2 st2 = Inr st3"
    and w: "cached.writes (ws1 @ ws2) (MemCachedStore s p ps) = Inr st"
  shows "(\<exists>m. cached.writes ws1 (MemCachedStore s p ps) = Inr m \<and> StoreGet st1 k = StoreGet m k \<and> StoreGet st2 k = StoreGet m k) \<and>
    StoreGet st3 k = StoreGet st k \<and> StoreGet (persist_end e st3) k = StoreGet st k"
proof -
  have bgn: "persist_begin (MemCachedStore s p ps) =
      MemCachedStore \<lparr>mem = [], stor = []\<rparr> p (MemCachedStore s False ps)"
    using nonempty by (simp add: persist_begin_def)
  have wf0: "wf_mem \<lparr>mem = [], stor = []\<rparr>" by (simp add: wf_mem_def wf_map_def)
  obtain s1 where s1: "st1 = MemCachedStore s1 p (MemCachedStore s False ps)" "wf_mem s1"
    using writes_shape [OF w1 [unfolded bgn] wf0] by blast
  obtain ps' where ps': "st2 = MemCachedStore s1 p (MemCachedStore s False ps')"
    "case e of None \<Rightarrow> ps' = PutChangeSet (mem s) (stor s) ps | Some _ \<Rightarrow> ps' = ps"
    using persist_flush_sound [OF sound wf fl [unfolded s1(1)]] by blast
  obtain s3 where s3: "st3 = MemCachedStore s3 p (MemCachedStore s False ps')" "wf_mem s3"
    using writes_shape [OF w2 [unfolded ps'(1)] s1(2)] by blast
  obtain m where m: "cached.writes ws1 (MemCachedStore s p ps) = Inr m" "cached.writes ws2 m = Inr st"
    using w by (auto simp: writes_append)
  have eq1: "StoreGet st1 k = StoreGet m k" for k
    using keys by (intro writes_get_cong [OF w1 m(1) _ _ _ persist_begin_get]) (simp_all add: bgn)
  have same: "StoreGet (MemCachedStore x p (MemCachedStore s False ps')) k =
      StoreGet (MemCachedStore x p (MemCachedStore s False ps)) k" for x k
  proof (rule StoreGet_lower_cong)
    show "StoreGet (MemCachedStore s False ps') k = StoreGet (MemCachedStore s False ps) k" for k
      using ps'(2) StoreGet_PutChangeSet [OF wf, of ps k False]
      by (cases e; cases "k = []") (simp_all add: StoreGet_cached split: option.splits)
  qed
  have "is_cached m" using writes_shape [OF m(1) wf] by auto
  then have st3: "StoreGet st3 k = StoreGet st k"
    using writes_get_cong [OF w2 m(2), of k] eq1 same keys by (simp add: ps'(1) s1(1))
  have "StoreGet st2 k = StoreGet m k" using eq1 [of k] same [of s1 k] by (simp add: ps'(1) s1(1))
  moreover have "StoreGet (persist_end e st3) k = StoreGet st k"
    using persist_layers_get [OF wf s3(2) ps'(2), of p False k] same st3 by (simp add: s3(1))
  ultimately show ?thesis using m(1) eq1 st3 by blast
qed

section \<open>Properties\<close>

text \<open>
  C39. \<open>Seek\<close> over any stack of caches feeds the callback exactly the visible entries in
  the range (those \<open>Get\<close> returns), each once and in the order of the range, until the
  callback declines.
\<close>

theorem seek_visible_in_order:
  assumes "wf_store s" and "Prefix rng \<noteq> []"
  shows "\<exists>xs. (\<forall>f (u :: 's). StoreSeek s rng f u = Inr (iter_kv f xs u)) \<and>
     sorted_wrt (less_key rng) (map fst xs) \<and>
     set xs = {(k, v). isKeyOK rng k \<and> StoreGet s k = Inr v}"
proof -
  from SeekItems_visible [OF assms] obtain xs where xs: "SeekItems s rng = Inr xs"
    and "sorted_kv rng xs" "set xs = visible s rng" by blast
  with StoreSeek_items [OF assms xs] show ?thesis
    by (auto simp: sorted_kv_def visible_def)
qed

definition sample_store :: store where
  "sample_store = MemCachedStore \<lparr>mem = [([1, 1, 2], Some [9]), ([1, 0], None)], stor = []\<rparr> False
     (MemoryStore \<lparr>mem = [([1, 0], Some [5]), ([1, 2], Some [8])], stor = []\<rparr>)"

theorem seek_visible_in_order_witness:
  "\<exists>xs. (\<forall>f (u :: nat). StoreSeek sample_store \<lparr>Prefix = [1], Start = [], Backwards = False\<rparr> f u
       = Inr (iter_kv f xs u)) \<and>
     set xs = {(k, v). isKeyOK \<lparr>Prefix = [1], Start = [], Backwards = False\<rparr> k \<and>
       StoreGet sample_store k = Inr v}"
  using seek_visible_in_order [of sample_store "\<lparr>Prefix = [1], Start = [], Backwards = False\<rparr>"]
  by (auto simp: sample_store_def wf_mem_def wf_map_def)

text \<open>
  \<open>SeekAsync\<close> with \<open>cutPrefix\<close> drops visible entries: once the last cached item has
  been emitted, its key stays in \<open>kvMem\<close> with the prefix cut off, and an entry of the
  lower store whose full key equals that remainder is skipped.
\<close>

theorem seek_cut_prefix_skips_entry:
  "SeekAsync sample_store \<lparr>Prefix = [1], Start = [], Backwards = False\<rparr> False
     = Inr [([1, 1, 2], [9]), ([1, 2], [8])] \<and>
   SeekAsync sample_store \<lparr>Prefix = [1], Start = [], Backwards = False\<rparr> True
     = Inr [([1, 2], [9])]"
  by code_simp

text \<open>
  C40. \<open>Persist\<close> of a shared store is invisible to readers and loses no write. Other goroutines
  make the writes \<open>ws1\<close> after the store has been moved aside and the writes \<open>ws2\<close> after the lower
  store has taken all of the changes or has refused them and stayed as it was. A read after \<open>ws1\<close>,
  before or after the lower store acts, answers as if only \<open>ws1\<close> had been written without \<open>Persist\<close>;
  a read after \<open>ws2\<close>, before or after \<open>Persist\<close> ends, as if \<open>ws1\<close> and \<open>ws2\<close> had been.
\<close>

theorem persist_invisible_to_writers:
  assumes "wf_store (MemCachedStore s False ps)" and "length (mem s) + length (stor s) \<noteq> 0"
    and "\<forall>w \<in> set (ws1 @ ws2). fst w \<noteq> []" and "sound_sink pcs"
    and "cached.writes ws1 (persist_begin (MemCachedStore s False ps)) = Inr st1"
    and "persist_flush pcs st1 = (e, st2)"
    and "cached.writes ws2 st2 = Inr st3"
    and "cached.writes (ws1 @ ws2) (MemCachedStore s False ps) = Inr st"
  shows "(\<exists>m. cached.writes ws1 (MemCachedStore s False ps) = Inr m \<and>
      StoreGet st1 k = StoreGet m k \<and> StoreGet st2 k = StoreGet m k) \<and>
    StoreGet st3 k = StoreGet st k \<and> StoreGet (persist_end e st3) k = StoreGet st k"
  by (rule persist_interleaved [OF _ _ _ assms(4-8)]) (use assms(1-3) in auto)

theorem persist_invisible_to_writers_witness:
  "let st0 = MemCachedStore \<lparr>mem = [([2], Some [5])], stor = []\<rparr> False (MemoryStore \<lparr>mem = [], stor = []\<rparr>);
       st1 = MemCachedStore \<lparr>mem = [([2], Some [6])], stor = []\<rparr> False st0;
       st2 = snd (persist_flush memory_sink st1);
       st = MemCachedStore \<lparr>mem = [([2], Some [6])], stor = []\<rparr> False (MemoryStore \<lparr>mem = [], stor = []\<rparr>) in
   StoreGet st1 [2] = StoreGet st [2] \<and> StoreGet st2 [2] = StoreGet st [2] \<and>
   StoreGet (persist_end None st2) [2] = StoreGet st [2]"
proof -
  let ?ps = "MemoryStore \<lparr>mem = [], stor = []\<rparr>" and ?s = "\<lparr>mem = [([2], Some [5])], stor = []\<rparr> :: memory_store"
  let ?t = "\<lparr>mem = [([2], Some [6])], stor = []\<rparr> :: memory_store"
  let ?st1 = "MemCachedStore ?t False (MemCachedStore ?s False ?ps)"
  have "(\<exists>m. cached.writes [([2], Some [6])] (MemCachedStore ?s False ?ps) = Inr m \<and>
      StoreGet ?st1 [2] = StoreGet m [2] \<and> StoreGet (snd (persist_flush memory_sink ?st1)) [2] = StoreGet m [2]) \<and>
    StoreGet (snd (persist_flush memory_sink ?st1)) [2] = StoreGet (MemCachedStore ?t False ?ps) [2] \<and>
    StoreGet (persist_end None (snd (persist_flush memory_sink ?st1))) [2] = StoreGet (MemCachedStore ?t False ?ps) [2]"
  proof (rule persist_invisible_to_writers [where ?ws1.0 = "[([2], Some [6])]" and ?ws2.0 = "[]" and pcs = memory_sink])
    show "sound_sink memory_sink" by (simp add: sound_sink_def memory_sink_def)
  qed (simp_all add: wf_mem_def wf_map_def persist_begin_def putChosen_def inStor_def STStorage_def
      STTempStorage_def Copy_def persist_flush_def memory_sink_def putChangeSet_def put_all_def)
  then show ?thesis by (auto simp: Let_def putChosen_def inStor_def STStorage_def STTempStorage_def Copy_def)
qed

text \<open>
  A successful \<open>Persist\<close> writes everything down: afterwards the lower store alone answers
  every read the way the cache over it did, and the number returned is the number of changes.
\<close>

theorem persist_reaches_lower_store:
  assumes "wf_store (MemCachedStore s p ps)"
    and "persist memory_sink (MemCachedStore s p ps) = (n, e, st')"
  shows "e = None \<and> n = length (mem s) + length (stor s) \<and>
     (\<exists>s' ps'. st' = MemCachedStore s' p ps' \<and> mem s' = [] \<and> stor s' = [] \<and>
        (\<forall>k. StoreGet ps' k = StoreGet (MemCachedStore s p ps) k))"
proof -
  have wf: "wf_mem s" using assms(1) by simp
  show ?thesis
  proof (cases "length (mem s) + length (stor s) = 0")
    case True
    then have "s = \<lparr>mem = [], stor = []\<rparr>" by (cases s) simp
    with assms(2) show ?thesis
      by (cases p) (auto simp: persist_def persist_private_def)
  next
    case False
    with assms(2) have "st' = MemCachedStore \<lparr>mem = [], stor = []\<rparr> p (PutChangeSet (mem s) (stor s) ps)"
      "e = None" "n = length (mem s) + length (stor s)"
      by (cases p; auto simp: persist_def persist_private_def memory_sink_def persist_begin_def
          persist_flush_def persist_end_def split: if_splits)+
    with StoreGet_PutChangeSet [OF wf, where p = p] show ?thesis by auto
  qed
qed

theorem persist_reaches_lower_store_witness:
  "\<exists>s' ps'. persist memory_sink sample_store = (2, None, MemCachedStore s' False ps') \<and>
     (\<forall>k. StoreGet ps' k = StoreGet sample_store k)"
proof -
  obtain n e st' where r: "persist memory_sink sample_store = (n, e, st')"
    by (cases "persist memory_sink sample_store") auto
  have wf: "wf_store sample_store" by (simp add: sample_store_def wf_mem_def wf_map_def)
  from persist_reaches_lower_store [OF wf [unfolded sample_store_def] r [unfolded sample_store_def]]
    r [unfolded sample_store_def]
  show ?thesis by (auto simp: sample_store_def)
qed

text \<open>
  \<open>MemoryStore.Put\<close> ignores the map its \<open>Get\<close> reads: a value put under a contract
  storage key is not found again.
\<close>

theorem memory_put_loses_storage_keys:
  "StorePut (STStorage # key) v (MemoryStore NewMemoryStore) = Inr (MemoryStore s) \<Longrightarrow>
     StoreGet (MemoryStore s) (STStorage # key) = Inl ErrKeyNotFound"
  by (auto simp: StoreGet_memory sel_def MemPut_def NewMemoryStore_def inStor_def STStorage_def)

theorem memory_put_loses_storage_keys_witness:
  "StoreGet (MemoryStore \<lparr>mem = [([0x70, 1], Some [2])], stor = []\<rparr>) [0x70, 1] = Inl ErrKeyNotFound"
  using memory_put_loses_storage_keys [of "[1]" "[2]" "\<lparr>mem = [([0x70, 1], Some [2])], stor = []\<rparr>"]
  by (simp add: STStorage_def MemPut_def NewMemoryStore_def)

end
