(* ===== verification/MptNode.thy ===== *)
theory MptNode
  imports Storage
begin

text \<open>
  Nodes of the Merkle-Patricia trie (src/pkg/core/mpt: base.go, node.go, branch.go,
  extension.go, leaf.go, hash.go, empty.go, helpers.go): the node types, their binary form,
  their hashes and the path helpers. \<open>H\<close> is \<open>hash.DoubleSha256\<close>, a parameter because the
  SHA-256 it iterates is library code. The memoised hash and bytes of \<open>BaseNode\<close> are not
  state of the model: \<open>NodeHash\<close> and \<open>NodeBytes\<close> are the values the caches hold whenever
  they are valid. The fields of a \<open>HashNode\<close> are its hash and its \<open>Collapsed\<close> flag.
\<close>

section \<open>Node types\<close>

definition childrenCount :: nat where "childrenCount = 17"
definition lastChild :: nat where "lastChild = childrenCount - 1"
definition MaxValueLength :: nat where "MaxValueLength = 3 + MaxStorageValueLen + 1"
definition maxPathLength :: nat where "maxPathLength = (MaxStorageKeyLen + 4) * 2"
definition MaxKeyLength :: nat where "MaxKeyLength = maxPathLength div 2"

lemmas mpt_consts = childrenCount_def lastChild_def MaxValueLength_def maxPathLength_def
  MaxKeyLength_def MaxStorageKeyLen_def MaxStorageValueLen_def

definition BranchT :: byte where "BranchT = 0x00"
definition ExtensionT :: byte where "ExtensionT = 0x01"
definition LeafT :: byte where "LeafT = 0x02"
definition HashT :: byte where "HashT = 0x03"
definition EmptyT :: byte where "EmptyT = 0x04"

lemmas node_type_defs = BranchT_def ExtensionT_def LeafT_def HashT_def EmptyT_def

datatype node =
    Branch (Children: "node list")
  | Extension (key: bytes) (next_node: node)
  | Leaf (leaf_value: bytes)
  | HashNode (node_hash: hash) (Collapsed: bool)
  | Empty

fun NodeTypeOf :: "node \<Rightarrow> byte" where
  "NodeTypeOf (Branch _) = BranchT"
| "NodeTypeOf (Extension _ _) = ExtensionT"
| "NodeTypeOf (Leaf _) = LeafT"
| "NodeTypeOf (HashNode _ _) = HashT"
| "NodeTypeOf Empty = EmptyT"

fun isEmpty :: "node \<Rightarrow> bool" where
  "isEmpty Empty = True"
| "isEmpty _ = False"

lemma isEmpty_iff [simp]: "isEmpty n \<longleftrightarrow> n = Empty"
  by (cases n) auto

definition NewBranchNode :: node where
  "NewBranchNode = Branch (replicate childrenCount Empty)"

definition NewExtensionNode :: "bytes \<Rightarrow> node \<Rightarrow> node" where
  "NewExtensionNode k n = Extension k n"

definition NewLeafNode :: "bytes \<Rightarrow> node" where
  "NewLeafNode v = Leaf v"

definition NewHashNode :: "hash \<Rightarrow> node" where
  "NewHashNode h = HashNode h False"

fun Clone :: "node \<Rightarrow> node" where
  "Clone (HashNode h c) = HashNode h False"
| "Clone n = n"

section \<open>Binary form and hash\<close>

definition DoubleSha256 :: "(bytes \<Rightarrow> hash) \<Rightarrow> bytes \<Rightarrow> hash" where
  "DoubleSha256 sha256 data = sha256 (sha256 data)"

text \<open>
  A node is hashed over its own encoding, in which its children appear as their hashes. The
  hash of an \<open>EmptyNode\<close>, which panics, is left as the empty string: every caller excludes
  it (\<open>encodeBinaryAsChild\<close> writes a type byte instead).
\<close>

function (sequential) EncodeBinary :: "(bytes \<Rightarrow> hash) \<Rightarrow> node \<Rightarrow> bin_writer \<Rightarrow> bin_writer"
  and encodeBinaryAsChild :: "(bytes \<Rightarrow> hash) \<Rightarrow> node \<Rightarrow> bin_writer \<Rightarrow> bin_writer"
  and NodeHash :: "(bytes \<Rightarrow> hash) \<Rightarrow> node \<Rightarrow> hash"
  and NodeBytes :: "(bytes \<Rightarrow> hash) \<Rightarrow> node \<Rightarrow> bytes" where
  "EncodeBinary H (Branch cs) w = fold (encodeBinaryAsChild H) cs w"
| "EncodeBinary H (Extension k n) w = encodeBinaryAsChild H n (WriteVarBytes k w)"
| "EncodeBinary H (Leaf v) w = WriteVarBytes v w"
| "EncodeBinary H (HashNode h c) w = WriteBytes h w"
| "EncodeBinary H Empty w = w"
| "encodeBinaryAsChild H n w =
     (if isEmpty n then WriteB EmptyT w else WriteBytes (NodeHash H n) (WriteB HashT w))"
| "NodeHash H (HashNode h c) = h"
| "NodeHash H Empty = []"
| "NodeHash H n = H (NodeBytes H n)"
| "NodeBytes H Empty = []"
| "NodeBytes H n =
     (case fst (Bytes (EncodeBinary H n (WriteB (NodeTypeOf n) NewBufBinWriter))) of
        Some b \<Rightarrow> b | None \<Rightarrow> [])"
  by pat_completeness auto
termination
proof (relation "measure (\<lambda>x. case x of
      Inl (Inl (H, n, w)) \<Rightarrow> 4 * size n
    | Inl (Inr (H, n, w)) \<Rightarrow> 4 * size n + 3
    | Inr (Inl (H, n)) \<Rightarrow> 4 * size n + 2
    | Inr (Inr (H, n)) \<Rightarrow> 4 * size n + 1)", goal_cases)
  case (2 H cs w x)
  then have "size x < Suc (size_list size cs)" by (simp add: size_list_estimation' less_Suc_eq_le)
  then show ?case by simp
qed simp_all

definition encodeNodeWithType :: "(bytes \<Rightarrow> hash) \<Rightarrow> node \<Rightarrow> bin_writer \<Rightarrow> bin_writer" where
  "encodeNodeWithType H n w = EncodeBinary H n (WriteB (NodeTypeOf n) w)"

text \<open>The predicted size of the encoding without its type byte.\<close>

fun NodeSize :: "node \<Rightarrow> nat" where
  "NodeSize (Branch cs) = childrenCount + 32 * length (filter (\<lambda>c. \<not> isEmpty c) cs)"
| "NodeSize (Extension k n) = getVarIntSize (int (length k)) + length k + 1 + 32"
| "NodeSize (Leaf v) = getVarIntSize (int (length v)) + length v"
| "NodeSize (HashNode h c) = 32"
| "NodeSize Empty = 0"

section \<open>Decoding\<close>

text \<open>
  Nested nodes are decoded recursively; every level reads a type byte, so the number of bytes
  left bounds the depth and serves as the fuel. With an error in the reader the node, which
  no caller uses then, is \<open>None\<close>.
\<close>

definition fail_with :: "string \<Rightarrow> u64 \<Rightarrow> bin_reader \<Rightarrow> bin_reader" where
  "fail_with msg x r = r\<lparr>Err := Some (Errorf msg x)\<rparr>"

definition finish :: "node option \<Rightarrow> bin_reader \<Rightarrow> node option \<times> bin_reader" where
  "finish n r = (if Err r = None then n else None, r)"

primrec decodeNode :: "nat \<Rightarrow> bin_reader \<Rightarrow> node option \<times> bin_reader" where
  "decodeNode 0 r = (None, if Err r = None then fail_with ''out of fuel'' 0 r else r)"
| "decodeNode (Suc fuel) r =
     (if Err r \<noteq> None then (None, r)
      else let (typ, r1) = ReadB r in
        if typ = BranchT then
          (let (cs, r2) = ReadElems (decodeNode fuel) childrenCount r1 in
             finish (map_option Branch (those cs)) r2)
        else if typ = ExtensionT then
          (let (sz, r2) = ReadVarUint r1 in
             if sz > of_nat maxPathLength then
               finish None (fail_with ''extension node key is too big: %d'' sz r2)
             else let (k, r3) = ReadBytes (replicate (unat sz) 0) r2;
                      (n, r4) = decodeNode fuel r3 in
               finish (map_option (Extension k) n) r4)
        else if typ = HashT then
          (let (h, r2) = ReadBytes (replicate 32 0) r1 in finish (Some (HashNode h False)) r2)
        else if typ = LeafT then
          (let (sz, r2) = ReadVarUint r1 in
             if sz > of_nat MaxValueLength then
               finish None (fail_with ''leaf node value is too big: %d'' sz r2)
             else let (v, r3) = ReadBytes (replicate (unat sz) 0) r2 in finish (Some (Leaf v)) r3)
        else if typ = EmptyT then finish (Some Empty) r1
        else (None, fail_with ''invalid node type: %x'' (ucast typ) r1))"

definition DecodeNodeWithType :: "bin_reader \<Rightarrow> node option \<times> bin_reader" where
  "DecodeNodeWithType r = decodeNode (Suc (length (Reader r))) r"

section \<open>Paths\<close>

fun splitPath :: "bytes \<Rightarrow> nat \<times> bytes" where
  "splitPath (x # xs) = (unat x, xs)"
| "splitPath [] = (lastChild, [])"

text \<open>\<open>lcp\<close> compares up to the length of the shorter argument.\<close>

fun lcp_loop :: "bytes \<Rightarrow> bytes \<Rightarrow> nat" where
  "lcp_loop (x # xs) (y # ys) = (if x \<noteq> y then 0 else Suc (lcp_loop xs ys))"
| "lcp_loop _ _ = 0"

definition lcp :: "bytes \<Rightarrow> bytes \<Rightarrow> bytes" where
  "lcp a b = (if length a < length b then take (lcp_loop b a) b else take (lcp_loop a b) a)"

text \<open>An item of a batch: \<open>None\<close> is the \<open>nil\<close> value of a deletion.\<close>

type_synonym key_value = "bytes \<times> bytes option"

definition lcpMany :: "key_value list \<Rightarrow> bytes" where
  "lcpMany kv = (case kv of
     [] \<Rightarrow> []
   | [x] \<Rightarrow> fst x
   | x # y # zs \<Rightarrow> (let p = lcp (fst x) (fst y) in
       if length p = 0 then p else foldl (\<lambda>p z. lcp p (fst z)) p zs))"

primrec toNibbles :: "bytes \<Rightarrow> bytes" where
  "toNibbles [] = []"
| "toNibbles (x # xs) = drop_bit 4 x # (x AND 0x0F) # toNibbles xs"

definition strToNibbles :: "bytes \<Rightarrow> bytes" where
  "strToNibbles path = toNibbles (tl path)"

fun fromNibbles :: "bytes \<Rightarrow> bytes" where
  "fromNibbles (x # y # xs) = (push_bit 4 x + y) # fromNibbles xs"
| "fromNibbles _ = []"

text \<open>\<open>GetChildrenPaths\<close>: a map from hashes to paths, kept as a list in the order of insertion.\<close>

definition add_path :: "hash \<Rightarrow> bytes \<Rightarrow> (hash \<times> bytes list) list \<Rightarrow> (hash \<times> bytes list) list" where
  "add_path h p m = AList.update h ((case map_of m h of None \<Rightarrow> [] | Some ps \<Rightarrow> ps) @ [p]) m"

fun GetChildrenPaths :: "bytes \<Rightarrow> node \<Rightarrow> (hash \<times> bytes list) list" where
  "GetChildrenPaths path (Branch cs) = fold (\<lambda>(i, c) m. case c of
      HashNode h _ \<Rightarrow> add_path h (if i \<noteq> lastChild then path @ [of_nat i] else path) m
    | _ \<Rightarrow> m) (enumerate 0 cs) []"
| "GetChildrenPaths path (Extension k n) = (case n of
      HashNode h _ \<Rightarrow> [(h, [path @ k])] | _ \<Rightarrow> [])"
| "GetChildrenPaths path _ = []"

section \<open>What the encoder writes\<close>

definition child_bytes :: "(bytes \<Rightarrow> hash) \<Rightarrow> node \<Rightarrow> bytes" where
  "child_bytes H n = (if n = Empty then [EmptyT] else HashT # NodeHash H n)"

fun body_bytes :: "(bytes \<Rightarrow> hash) \<Rightarrow> node \<Rightarrow> bytes" where
  "body_bytes H (Branch cs) = concat (map (child_bytes H) cs)"
| "body_bytes H (Extension k n) = var_bytes k @ child_bytes H n"
| "body_bytes H (Leaf v) = var_bytes v"
| "body_bytes H (HashNode h c) = h"
| "body_bytes H Empty = []"

declare encodeBinaryAsChild.simps [simp del]

lemma encodeBinaryAsChild_eq: "encodeBinaryAsChild H n w = WriteBytes (child_bytes H n) w"
  by (simp add: encodeBinaryAsChild.simps child_bytes_def WriteB_def)

lemma fold_WriteBytes: "fold (\<lambda>x. WriteBytes (f x)) xs w = WriteBytes (concat (map f xs)) w"
  by (induction xs arbitrary: w) auto

lemma EncodeBinary_eq: "EncodeBinary H n w = WriteBytes (body_bytes H n) w"
  by (cases n) (simp_all add: encodeBinaryAsChild_eq [abs_def] fold_WriteBytes WriteVarBytes_eq)

lemma NodeBytes_eq:
  "NodeBytes H n = (if n = Empty then [] else NodeTypeOf n # body_bytes H n)"
  using Bytes_WriteBytes_new
  by (cases n) (simp_all add: EncodeBinary_eq WriteB_def del: EncodeBinary.simps)

lemma NodeHash_eq:
  "NodeHash H n = (case n of HashNode h c \<Rightarrow> h | Empty \<Rightarrow> [] | _ \<Rightarrow> H (NodeBytes H n))"
  by (cases n) simp_all

section \<open>Decoding what was encoded\<close>

text \<open>
  The encoding of a node determines the node up to the contents of its children, which come
  back as hash nodes.
\<close>

definition child_ref :: "(bytes \<Rightarrow> hash) \<Rightarrow> node \<Rightarrow> node" where
  "child_ref H n = (if n = Empty then Empty else HashNode (NodeHash H n) False)"

fun shallow :: "(bytes \<Rightarrow> hash) \<Rightarrow> node \<Rightarrow> node" where
  "shallow H (Branch cs) = Branch (map (child_ref H) cs)"
| "shallow H (Extension k n) = Extension k (child_ref H n)"
| "shallow H n = n"

definition hash32 :: "(bytes \<Rightarrow> hash) \<Rightarrow> bool" where
  "hash32 H \<longleftrightarrow> (\<forall>b. length (H b) = 32)"

text \<open>A function with 32-byte values to evaluate examples with, in place of the real hash.\<close>

definition pad32 :: "bytes \<Rightarrow> hash" where
  "pad32 b = take 32 (b @ replicate 32 0)"

lemma hash32_pad32 [simp]: "hash32 pad32"
  by (auto simp: hash32_def pad32_def min_def)

text \<open>The size limits the decoder enforces, and the array length and hash length of the types.\<close>

fun node_ok :: "node \<Rightarrow> bool" where
  "node_ok (Branch cs) \<longleftrightarrow> length cs = childrenCount \<and> list_all node_ok cs"
| "node_ok (Extension k n) \<longleftrightarrow> length k \<le> maxPathLength \<and> node_ok n"
| "node_ok (Leaf v) \<longleftrightarrow> length v \<le> MaxValueLength"
| "node_ok (HashNode h c) \<longleftrightarrow> length h = 32"
| "node_ok Empty \<longleftrightarrow> True"

lemma length_NodeHash:
  "hash32 H \<Longrightarrow> node_ok n \<Longrightarrow> n \<noteq> Empty \<Longrightarrow> length (NodeHash H n) = 32"
  by (cases n) (auto simp: NodeHash_eq hash32_def)

lemma decode_child:
  assumes "hash32 H" and "node_ok n"
  shows "decodeNode (Suc f) (rd (child_bytes H n @ rest)) = (Some (child_ref H n), rd rest)"
proof (cases "n = Empty")
  case True
  then show ?thesis
    by (simp add: child_bytes_def child_ref_def codec_simps node_type_defs finish_def)
next
  case False
  then have "length (NodeHash H n) = 32" using assms length_NodeHash by blast
  with False show ?thesis
    by (simp add: child_bytes_def child_ref_def codec_simps node_type_defs finish_def ReadBytes_exact)
qed

lemma decode_children:
  assumes "hash32 H" and "list_all node_ok cs"
  shows "ReadElems (decodeNode (Suc f)) (length cs) (rd (concat (map (child_bytes H) cs) @ rest)) =
     (map (Some \<circ> child_ref H) cs, rd rest)"
  using assms(2)
  by (induction cs arbitrary: rest) (simp_all add: decode_child [OF assms(1)] del: decodeNode.simps)

lemma those_map_Some [simp]: "those (map (\<lambda>x. Some (f x)) xs) = Some (map f xs)"
  by (induction xs) simp_all

lemma read_sized:
  assumes "length v \<le> m" and "m < 2 ^ 32"
  shows "ReadVarUint (rd (var_bytes v @ rest)) = (of_nat (length v), rd (v @ rest))"
    and "\<not> (of_nat (length v) :: u64) > of_nat m"
    and "ReadBytes (replicate (unat (of_nat (length v) :: u64)) 0) (rd (v @ rest)) = (v, rd rest)"
proof -
  have "unat (of_nat (length v) :: u64) = length v"
    using assms by (simp add: unat_of_nat take_bit_nat_eq_self)
  then show "ReadBytes (replicate (unat (of_nat (length v) :: u64)) 0) (rd (v @ rest)) = (v, rd rest)"
    by (simp add: ReadBytes_exact)
  show "ReadVarUint (rd (var_bytes v @ rest)) = (of_nat (length v), rd (v @ rest))"
    by (simp add: var_bytes_def ReadVarUint_var_uint)
  show "\<not> (of_nat (length v) :: u64) > of_nat m"
    using assms by (simp add: word_less_nat_alt unat_of_nat take_bit_nat_eq_self)
qed

lemma decode_encode:
  assumes "hash32 H" and "node_ok n" and "n \<noteq> Empty" and "\<not> Collapsed n \<or> \<not> is_HashNode n"
  shows "decodeNode (Suc (Suc f)) (rd (NodeBytes H n @ rest)) = (Some (shallow H n), rd rest)"
proof (cases n)
  case (Branch cs)
  then have "ReadElems (decodeNode (Suc f)) childrenCount (rd (concat (map (child_bytes H) cs) @ rest)) =
     (map (Some \<circ> child_ref H) cs, rd rest)"
    using decode_children [OF assms(1), of cs f rest] assms(2) by simp
  then show ?thesis using Branch
    by (subst decodeNode.simps)
      (simp add: NodeBytes_eq codec_simps node_type_defs finish_def comp_def del: decodeNode.simps)
next
  case (Extension k m)
  then have "length k \<le> maxPathLength" "node_ok m" using assms(2) by simp_all
  with read_sized [where v = k and m = maxPathLength] decode_child [OF assms(1), of m f rest]
  show ?thesis using Extension
    by (subst decodeNode.simps)
      (simp add: NodeBytes_eq codec_simps node_type_defs finish_def mpt_consts del: decodeNode.simps)
next
  case (Leaf v)
  then have "length v \<le> MaxValueLength" using assms(2) by simp
  with read_sized [where v = v and m = MaxValueLength] show ?thesis using Leaf
    by (subst decodeNode.simps)
      (simp add: NodeBytes_eq codec_simps node_type_defs finish_def mpt_consts del: decodeNode.simps)
next
  case (HashNode h c)
  with assms show ?thesis
    by (simp add: NodeBytes_eq codec_simps node_type_defs finish_def ReadBytes_exact)
qed (use assms in simp)

section \<open>Paths and nibbles\<close>

definition nibbles :: "bytes \<Rightarrow> bool" where
  "nibbles p \<longleftrightarrow> (\<forall>x \<in> set p. x < 16)"

lemma nibbles_simps [simp]:
  "nibbles []" "nibbles (x # xs) \<longleftrightarrow> x < 16 \<and> nibbles xs" "nibbles (p @ q) \<longleftrightarrow> nibbles p \<and> nibbles q"
  by (auto simp: nibbles_def)

lemma nibbles_take_drop [simp]: "nibbles p \<Longrightarrow> nibbles (drop k p)" "nibbles p \<Longrightarrow> nibbles (take k p)"
  by (auto simp: nibbles_def dest: in_set_dropD in_set_takeD)

lemma nibble_index [simp]: "(x :: byte) < 16 \<Longrightarrow> unat x < 16"
  by (simp add: word_less_nat_alt)

lemma nibbles_toNibbles [simp]: "nibbles (toNibbles p)"
proof (induction p)
  case (Cons x p)
  have "unat x < 2 ^ LENGTH(8)" by (rule unsigned_less)
  then have "drop_bit 4 x < (16 :: byte)"
    by (simp add: word_less_nat_alt unat_drop_bit_eq) (simp add: drop_bit_eq_div)
  moreover have "x AND 15 \<le> (15 :: byte)" by (rule word_and_le1)
  then have "x AND 15 < (16 :: byte)" by (simp add: word_le_nat_alt word_less_nat_alt)
  ultimately show ?case using Cons by simp
qed simp

lemma length_toNibbles [simp]: "length (toNibbles p) = 2 * length p"
  by (induction p) simp_all

lemma fromNibbles_toNibbles [simp]: "fromNibbles (toNibbles p) = p"
proof (induction p)
  case (Cons x p)
  have "x AND 15 = take_bit 4 x" by (simp add: take_bit_eq_mask mask_eq_exp_minus_1)
  then have "push_bit 4 (drop_bit 4 x) + (x AND 15) = x" by (simp add: bits_ident)
  with Cons show ?case by simp
qed simp

lemma toNibbles_inject [simp]: "toNibbles p = toNibbles q \<longleftrightarrow> p = q"
  by (metis fromNibbles_toNibbles)

lemma toNibbles_append: "toNibbles (p @ q) = toNibbles p @ toNibbles q"
  by (induction p) simp_all

lemma lcp_loop_commute: "lcp_loop a b = lcp_loop b a"
  by (induction a b rule: lcp_loop.induct) auto

lemma lcp_eq: "lcp a b = take (lcp_loop a b) a"
  and lcp_loop_take: "take (lcp_loop a b) a = take (lcp_loop a b) b"
proof -
  show eq: "take (lcp_loop a b) a = take (lcp_loop a b) b"
    by (induction a b rule: lcp_loop.induct) auto
  then show "lcp a b = take (lcp_loop a b) a"
    by (simp add: lcp_def lcp_loop_commute [of b a])
qed

lemma lcp_loop_le: "lcp_loop a b \<le> length a" "lcp_loop a b \<le> length b"
  by (induction a b rule: lcp_loop.induct) auto

lemma lcp_split:
  obtains a' b' where "a = lcp a b @ a'" "b = lcp a b @ b'"
    "a' = [] \<or> b' = [] \<or> hd a' \<noteq> hd b'"
proof
  show "a = lcp a b @ drop (lcp_loop a b) a" by (simp add: lcp_eq)
  show "b = lcp a b @ drop (lcp_loop a b) b"
    by (simp add: lcp_eq lcp_loop_take [of a b])
  show "drop (lcp_loop a b) a = [] \<or> drop (lcp_loop a b) b = [] \<or>
      hd (drop (lcp_loop a b) a) \<noteq> hd (drop (lcp_loop a b) b)"
    by (induction a b rule: lcp_loop.induct) auto
qed

section \<open>The fuel of the decoder\<close>

lemma Reader_finish [simp]: "Reader (snd (finish n r)) = Reader r"
  by (simp add: finish_def)

lemma Reader_fail_with [simp]: "Reader (fail_with msg x r) = Reader r"
  by (simp add: fail_with_def)

lemma decodeNode_shrinks: "length (Reader (snd (decodeNode f r))) \<le> length (Reader r)"
proof (induction f arbitrary: r)
  case 0
  show ?case by (simp add: fail_with_def)
next
  case (Suc f)
  obtain b r1 where b: "ReadB r = (b, r1)" by fastforce
  have r1: "length (Reader r1) \<le> length (Reader r)" using b ReadB_shrinks by blast
  obtain sz r2 where sz: "ReadVarUint r1 = (sz, r2)" by fastforce
  have r2: "length (Reader r2) \<le> length (Reader r1)" using ReadVarUint_shrinks [of r1] sz by simp
  obtain k r3 where k: "ReadBytes (replicate (unat sz) 0) r2 = (k, r3)" by fastforce
  have r3: "length (Reader r3) \<le> length (Reader r2)"
    using ReadBytes_shrinks [of "replicate (unat sz) 0" r2] k by simp
  have "length (Reader (snd (decodeNode f r3))) \<le> length (Reader r)"
    using r1 r2 r3 Suc [of r3] by linarith
  moreover have "length (Reader (snd (ReadElems (decodeNode f) childrenCount r1))) \<le> length (Reader r)"
    using r1 ReadElems_shrinks [of "decodeNode f" childrenCount r1, OF Suc] by linarith
  moreover have "length (Reader (snd (ReadBytes (replicate 32 0) r1))) \<le> length (Reader r)"
    using r1 ReadBytes_shrinks [of "replicate 32 0" r1] by linarith
  ultimately show ?case
    using r1 r2 r3 by (simp add: b sz k split_def Let_def)
qed

lemma ReadElems_cong_shrinking:
  assumes "\<And>r. length (Reader r) \<le> m \<Longrightarrow> dec r = dec' r"
    and "\<And>r. length (Reader (snd (dec r))) \<le> length (Reader r)"
    and "length (Reader r) \<le> m"
  shows "ReadElems dec n r = ReadElems dec' n r"
  using assms(3)
proof (induction n arbitrary: r)
  case (Suc n)
  have "length (Reader (snd (dec r))) \<le> m" using assms(2) [of r] Suc.prems by linarith
  then show ?case using Suc.IH [of "snd (dec r)"] assms(1) [OF Suc.prems] by (simp add: split_def Let_def)
qed simp

text \<open>More fuel than there are bytes changes nothing.\<close>

lemma decodeNode_enough:
  "length (Reader r) < f \<Longrightarrow> decodeNode (Suc f) r = decodeNode f r"
proof (induction f arbitrary: r)
  case (Suc f)
  obtain b r1 where b: "ReadB r = (b, r1)" by fastforce
  obtain sz r2 where sz: "ReadVarUint r1 = (sz, r2)" by fastforce
  obtain k r3 where k: "ReadBytes (replicate (unat sz) 0) r2 = (k, r3)" by fastforce
  show ?case
  proof (cases "Err r1 = None")
    case True
    have r1: "length (Reader r1) < f" using ReadB_shrinks(2) [OF b True] Suc.prems by linarith
    have r3: "length (Reader r3) < f"
      using r1 ReadVarUint_shrinks [of r1] sz ReadBytes_shrinks [of "replicate (unat sz) 0" r2] k by simp
    have "ReadElems (decodeNode (Suc f)) childrenCount r1 = ReadElems (decodeNode f) childrenCount r1"
      using r1 by (intro ReadElems_cong_shrinking [of "length (Reader r1)"])
        (auto intro!: Suc.IH decodeNode_shrinks simp del: decodeNode.simps)
    with Suc.IH [OF r3] show ?thesis
      by (subst (1 2) decodeNode.simps) (simp add: b sz k del: decodeNode.simps)
  next
    case False
    then obtain e where e: "Err r1 = Some e" by auto
    have dec: "decodeNode g r1 = (None, r1)" for g using e by (cases g) simp_all
    then have "ReadElems (decodeNode (Suc f)) m r1 = ReadElems (decodeNode f) m r1" for m
      by (induction m) (simp_all del: decodeNode.simps)
    then show ?thesis
      using dec e sz k by (subst (1 2) decodeNode.simps) (simp add: b read_sticky Let_def del: decodeNode.simps)
  qed
qed simp

lemma node_codec_roundtrip':
  assumes "hash32 H" and "node_ok n" and "n \<noteq> Empty" and "\<not> is_HashNode n"
  shows "DecodeNodeWithType (NewBinReaderFromBuf (NodeBytes H n @ bs)) =
     (Some (shallow H n), NewBinReaderFromBuf bs)"
proof -
  have "length (NodeBytes H n) > 0" using assms by (simp add: NodeBytes_eq)
  then obtain f where "length (NodeBytes H n @ bs) = Suc f" by (cases "NodeBytes H n") auto
  with decode_encode [of H n f bs] assms show ?thesis
    by (simp add: DecodeNodeWithType_def NewBinReaderFromBuf_def del: decodeNode.simps)
qed

section \<open>Properties\<close>

text \<open>
  The stored form of a node is faithful: decoding the bytes of any node within the size
  limits returns that node with each child replaced by a reference to the child's hash, and
  consumes exactly those bytes.
\<close>

theorem node_codec_roundtrip:
  assumes "hash32 H" and "node_ok n" and "n \<noteq> Empty" and "\<not> is_HashNode n"
  shows "DecodeNodeWithType (NewBinReaderFromBuf (NodeBytes H n @ bs)) =
     (Some (shallow H n), NewBinReaderFromBuf bs)"
  using assms by (rule node_codec_roundtrip')

theorem node_codec_roundtrip_witness:
  "DecodeNodeWithType (NewBinReaderFromBuf (NodeBytes pad32 (Extension [1, 2] (Leaf [7])) @ [9])) =
     (Some (Extension [1, 2] (HashNode (pad32 [2, 1, 7]) False)), NewBinReaderFromBuf [9])"
  using node_codec_roundtrip [of pad32 "Extension [1, 2] (Leaf [7])" "[9]"]
  by (simp add: mpt_consts child_ref_def NodeBytes_eq node_type_defs var_bytes_def var_uint_def)

end
