(* ===== verification/MptTrie.thy ===== *)
theory MptTrie
  imports MptNode
begin

text \<open>
  The trie over a store: src/pkg/core/mpt/trie.go. A \<open>trie\<close> has the fields of the Go
  struct; hash nodes are resolved through the store when an operation reaches them, and
  \<open>addRef\<close>/\<open>removeRef\<close> collect the changes of reference counts that \<open>Flush\<close> applies.
  Every operation returns an error or a result together with the trie it leaves behind. Nodes
  are values here: where the source updates a node in place, the model returns the updated
  node, and an in-memory node that was already updated when a later store access fails is not
  tracked (the root is then the one before the operation). Slices are values too: \<open>lcp\<close> returns a part
  of one of its arguments without copying it, so that after \<open>PutBatch\<close> the keys of two extension nodes
  can share an array, and the \<open>append\<close> with which \<open>getWithPath\<close> builds the path it returns can then
  write into the other key. The model describes tries whose keys do not share an array, as \<open>Put\<close>,
  \<open>Delete\<close> and loading from the store build them. The recursion through hash nodes
  is bounded by a fuel argument: a store can hold a cycle, on which the source does not
  return.
\<close>

section \<open>Data\<close>

datatype mpt_error =
    ErrNotFound
  | ErrStore store_error
  | ErrInactive
  | ErrDecode io_error
  | ErrArg string
  | Panic string
  | OutOfFuel

record cached_node =
  cbytes :: "bytes option"
  initial :: i32
  refs :: i32

record trie =
  Store :: store
  root :: node
  mode :: byte
  refcount :: "(hash \<times> cached_node) list"

type_synonym 'a result = "(mpt_error + 'a) \<times> trie"

definition bind_st :: "('e + 'a) \<times> 's \<Rightarrow> ('a \<Rightarrow> 's \<Rightarrow> ('e + 'b) \<times> 's) \<Rightarrow> ('e + 'b) \<times> 's" where
  "bind_st m f = (case m of (Inl e, s) \<Rightarrow> (Inl e, s) | (Inr x, s) \<Rightarrow> f x s)"

lemma bind_st_simps [simp]:
  "bind_st (Inl e, s) f = (Inl e, s)"
  "bind_st (Inr x, s) f = f x s"
  by (simp_all add: bind_st_def)

definition ModeAll :: byte where "ModeAll = 0"
definition ModeLatest :: byte where "ModeLatest = 0x01"
definition ModeGCFlag :: byte where "ModeGCFlag = 0x02"
definition ModeGC :: byte where "ModeGC = 0x03"

definition RC :: "byte \<Rightarrow> bool" where "RC m \<longleftrightarrow> m AND ModeLatest \<noteq> 0"
definition GC :: "byte \<Rightarrow> bool" where "GC m \<longleftrightarrow> m AND ModeGCFlag \<noteq> 0"

definition NewTrie :: "node option \<Rightarrow> byte \<Rightarrow> store \<Rightarrow> trie" where
  "NewTrie r m st = \<lparr>Store = st, root = (case r of None \<Rightarrow> Empty | Some n \<Rightarrow> n), mode = m, refcount = []\<rparr>"

section \<open>Reference counts\<close>

definition change_ref :: "i32 \<Rightarrow> hash \<Rightarrow> bytes \<Rightarrow> trie \<Rightarrow> trie" where
  "change_ref d h bs t =
     t\<lparr>refcount := AList.update h
        (case map_of (refcount t) h of
           None \<Rightarrow> \<lparr>cbytes = Some bs, initial = 0, refs = d\<rparr>
         | Some c \<Rightarrow> c\<lparr>refs := refs c + d,
             cbytes := (case cbytes c of None \<Rightarrow> Some bs | Some b \<Rightarrow> Some b)\<rparr>)
        (refcount t)\<rparr>"

definition addRef :: "hash \<Rightarrow> bytes \<Rightarrow> trie \<Rightarrow> trie" where
  "addRef = change_ref 1"

definition removeRef :: "hash \<Rightarrow> bytes \<Rightarrow> trie \<Rightarrow> trie" where
  "removeRef = change_ref (- 1)"

abbreviation addNode :: "(bytes \<Rightarrow> hash) \<Rightarrow> node \<Rightarrow> trie \<Rightarrow> trie" where
  "addNode H n \<equiv> addRef (NodeHash H n) (NodeBytes H n)"

abbreviation removeNode :: "(bytes \<Rightarrow> hash) \<Rightarrow> node \<Rightarrow> trie \<Rightarrow> trie" where
  "removeNode H n \<equiv> removeRef (NodeHash H n) (NodeBytes H n)"

section \<open>Access to the store\<close>

definition makeStorageKey :: "hash \<Rightarrow> bytes" where
  "makeStorageKey h = DataMPT # h"

definition IsActiveValue :: "bytes \<Rightarrow> bool" where
  "IsActiveValue v \<longleftrightarrow> length v > 4 \<and> v ! (length v - 5) = 1"

definition getData :: "bytes \<Rightarrow> byte \<Rightarrow> store \<Rightarrow> mpt_error + bytes" where
  "getData k m st = (case StoreGet st k of
     Inl e \<Rightarrow> Inl (ErrStore e)
   | Inr data \<Rightarrow> if GC m \<and> \<not> IsActiveValue data then Inl ErrInactive else Inr data)"

text \<open>
  A decoded hash node gets the requested hash (\<open>setCache\<close>), and an empty node fails the
  type assertion.
\<close>

fun with_cache :: "node option \<Rightarrow> hash \<Rightarrow> mpt_error + node" where
  "with_cache (Some (HashNode _ c)) h = Inr (HashNode h c)"
| "with_cache (Some Empty) h = Inl (Panic ''interface conversion'')"
| "with_cache (Some n) h = Inr n"
| "with_cache None h = Inl (Panic ''nil node'')"

definition getFromStore :: "hash \<Rightarrow> trie \<Rightarrow> node result" where
  "getFromStore h t = (case getData (makeStorageKey h) (mode t) (Store t) of
     Inl e \<Rightarrow> (Inl e, t)
   | Inr data \<Rightarrow>
       (let (n, r) = DecodeNodeWithType (NewBinReaderFromBuf data) in
        case Err r of
          Some e \<Rightarrow> (Inl (ErrDecode e), t)
        | None \<Rightarrow>
            if RC (mode t) then
              if length data < 5 then (Inl (Panic ''slice bounds out of range''), t)
              else (with_cache n h,
                case map_of (refcount t) h of
                  None \<Rightarrow> t
                | Some c \<Rightarrow> t\<lparr>refcount := AList.update h
                    (c\<lparr>cbytes := Some (take (length data - 5) data),
                       initial := fst (ReadU32LE (snd (ReadB r)))\<rparr>) (refcount t)\<rparr>)
            else (with_cache n h, t)))"

section \<open>Reading\<close>

fun is_panic :: "mpt_error \<Rightarrow> bool" where
  "is_panic (Panic _) = True"
| "is_panic _ = False"

text \<open>
  The result is the node with the hash nodes along the path resolved, the node found, and the
  full path to it.
\<close>

primrec getWithPath :: "nat \<Rightarrow> node \<Rightarrow> bytes \<Rightarrow> bool \<Rightarrow> trie \<Rightarrow> (node \<times> node \<times> bytes) result" where
  "getWithPath 0 cur path strict t = (Inl OutOfFuel, t)"
| "getWithPath (Suc fuel) cur path strict t = (case cur of
     Leaf v \<Rightarrow> if path = [] then (Inr (cur, cur, []), t) else (Inl ErrNotFound, t)
   | Branch cs \<Rightarrow>
       (let (i, q) = splitPath path in
        if i = lastChild \<and> \<not> strict then (Inr (cur, cur, []), t)
        else if i \<ge> length cs then (Inl (Panic ''index out of range''), t)
        else bind_st (getWithPath fuel (cs ! i) q strict t) (\<lambda>(r, res, prefix) t.
          (Inr (Branch (cs[i := r]), res, of_nat i # prefix), t)))
   | Empty \<Rightarrow> (Inl ErrNotFound, t)
   | HashNode h c \<Rightarrow>
       (case getFromStore h t of
          (Inr r, t) \<Rightarrow> getWithPath fuel r path strict t
        | (Inl e, t) \<Rightarrow> (Inl (if is_panic e then e else ErrNotFound), t))
   | Extension k n \<Rightarrow>
       if path = [] \<and> \<not> strict then (Inr (cur, n, k), t)
       else if HasPrefix path k then
         bind_st (getWithPath fuel n (drop (length k) path) strict t) (\<lambda>(r, res, prefix) t.
           (Inr (Extension k r, res, k @ prefix), t))
       else if \<not> strict \<and> HasPrefix k path then (Inr (cur, n, k), t)
       else (Inl ErrNotFound, t))"

definition TrieGet :: "nat \<Rightarrow> bytes \<Rightarrow> trie \<Rightarrow> bytes result" where
  "TrieGet fuel ky t =
     (if length ky > MaxKeyLength then (Inl (ErrArg ''key is too big''), t)
      else bind_st (getWithPath fuel (root t) (toNibbles ky) True t) (\<lambda>(r, leaf, _) t.
        case leaf of
          Leaf v \<Rightarrow> (Inr (Copy v), t\<lparr>root := r\<rparr>)
        | _ \<Rightarrow> (Inl (Panic ''interface conversion''), t\<lparr>root := r\<rparr>)))"

section \<open>Putting\<close>

definition newSubTrie :: "(bytes \<Rightarrow> hash) \<Rightarrow> bytes \<Rightarrow> node \<Rightarrow> bool \<Rightarrow> trie \<Rightarrow> node \<times> trie" where
  "newSubTrie H path val newVal t =
     (let t1 = (if newVal then addNode H val t else t) in
      if path = [] then (val, t1)
      else let e = NewExtensionNode path val in (e, addNode H e t1))"

definition set_child :: "node \<Rightarrow> nat \<Rightarrow> node \<Rightarrow> node" where
  "set_child b i n = (case b of Branch cs \<Rightarrow> Branch (cs[i := n]) | _ \<Rightarrow> b)"

definition putIntoLeaf :: "(bytes \<Rightarrow> hash) \<Rightarrow> bytes \<Rightarrow> bytes \<Rightarrow> node \<Rightarrow> trie \<Rightarrow> node result" where
  "putIntoLeaf H u path val t = (case path of
     [] \<Rightarrow> (Inr val, addNode H val (removeNode H (Leaf u) t))
   | x # q \<Rightarrow>
       if unat x \<ge> childrenCount then (Inl (Panic ''index out of range''), t)
       else let (s, t1) = newSubTrie H q val True t;
                b = set_child (set_child NewBranchNode (unat x) s) lastChild (Leaf u) in
         (Inr b, addNode H b t1))"

definition putIntoBranch ::
    "(bytes \<Rightarrow> hash) \<Rightarrow> (node \<Rightarrow> bytes \<Rightarrow> node \<Rightarrow> trie \<Rightarrow> node result) \<Rightarrow> node list \<Rightarrow> bytes \<Rightarrow> node \<Rightarrow> trie \<Rightarrow> node result" where
  "putIntoBranch H putInto cs path val t =
     (let (i, q) = splitPath path; t1 = removeNode H (Branch cs) t in
      if i \<ge> length cs then (Inl (Panic ''index out of range''), t1)
      else bind_st (putInto (cs ! i) q val t1) (\<lambda>r t2.
        let b = Branch (cs[i := r]) in (Inr b, addNode H b t2)))"

definition putIntoExtension ::
    "(bytes \<Rightarrow> hash) \<Rightarrow> (node \<Rightarrow> bytes \<Rightarrow> node \<Rightarrow> trie \<Rightarrow> node result) \<Rightarrow> bytes \<Rightarrow> node \<Rightarrow> bytes \<Rightarrow> node \<Rightarrow> trie \<Rightarrow> node result" where
  "putIntoExtension H putInto k n path val t =
     (let t1 = removeNode H (Extension k n) t in
      if HasPrefix path k then
        bind_st (putInto n (drop (length k) path) val t1) (\<lambda>r t2.
          let e = Extension k r in (Inr e, addNode H e t2))
      else
        let pref = lcp k path; lp = length pref;
            keyTail = drop lp k; pathTail = drop lp path in
        if unat (hd keyTail) \<ge> childrenCount then (Inl (Panic ''index out of range''), t1)
        else let (s1, t2) = newSubTrie H (tl keyTail) n False t1;
                 b1 = set_child NewBranchNode (unat (hd keyTail)) s1;
                 (i, q) = splitPath pathTail;
                 (s2, t3) = newSubTrie H q val True t2 in
          if i \<ge> childrenCount then (Inl (Panic ''index out of range''), t3)
          else let b = set_child b1 i s2; t4 = addNode H b t3 in
            if lp > 0 then (let e = NewExtensionNode (Copy pref) b in (Inr e, addNode H e t4))
            else (Inr b, t4))"

definition putIntoEmpty :: "(bytes \<Rightarrow> hash) \<Rightarrow> bytes \<Rightarrow> node \<Rightarrow> trie \<Rightarrow> node result" where
  "putIntoEmpty H path val t = (let (n, t1) = newSubTrie H path val True t in (Inr n, t1))"

definition putIntoHash ::
    "(node \<Rightarrow> bytes \<Rightarrow> node \<Rightarrow> trie \<Rightarrow> node result) \<Rightarrow> hash \<Rightarrow> bytes \<Rightarrow> node \<Rightarrow> trie \<Rightarrow> node result" where
  "putIntoHash putInto h path val t = bind_st (getFromStore h t) (\<lambda>r t1. putInto r path val t1)"

primrec putIntoNode :: "(bytes \<Rightarrow> hash) \<Rightarrow> nat \<Rightarrow> node \<Rightarrow> bytes \<Rightarrow> node \<Rightarrow> trie \<Rightarrow> node result" where
  "putIntoNode H 0 cur path val t = (Inl OutOfFuel, t)"
| "putIntoNode H (Suc fuel) cur path val t = (case cur of
     Leaf u \<Rightarrow> putIntoLeaf H u path val t
   | Branch cs \<Rightarrow> putIntoBranch H (putIntoNode H fuel) cs path val t
   | Extension k n \<Rightarrow> putIntoExtension H (putIntoNode H fuel) k n path val t
   | HashNode h c \<Rightarrow> putIntoHash (putIntoNode H fuel) h path val t
   | Empty \<Rightarrow> putIntoEmpty H path val t)"

definition TriePut :: "(bytes \<Rightarrow> hash) \<Rightarrow> nat \<Rightarrow> bytes \<Rightarrow> bytes option \<Rightarrow> trie \<Rightarrow> unit result" where
  "TriePut H fuel ky v t =
     (if ky = [] then (Inl (ErrArg ''key is empty''), t)
      else if length ky > MaxKeyLength then (Inl (ErrArg ''key is too big''), t)
      else if length (case v of None \<Rightarrow> [] | Some b \<Rightarrow> b) > MaxValueLength
        then (Inl (ErrArg ''value is too big''), t)
      else case v of
        None \<Rightarrow> (Inl (ErrArg ''value is nil''), t)
      | Some b \<Rightarrow> bind_st (putIntoNode H fuel (root t) (toNibbles ky) (NewLeafNode b) t)
          (\<lambda>r t1. (Inr (), t1\<lparr>root := r\<rparr>)))"

section \<open>Deleting\<close>

text \<open>The loop over the children: how many are not empty, and the index of the last such.\<close>

definition count_children :: "node list \<Rightarrow> nat \<times> nat" where
  "count_children cs = fold (\<lambda>(i, c) (n, idx). if isEmpty c then (n, idx) else (Suc n, i))
     (enumerate 0 cs) (0, 0)"

definition deleteFromBranch ::
    "(bytes \<Rightarrow> hash) \<Rightarrow> (node \<Rightarrow> bytes \<Rightarrow> trie \<Rightarrow> node result) \<Rightarrow> node list \<Rightarrow> bytes \<Rightarrow> trie \<Rightarrow> node result" where
  "deleteFromBranch H deleteFrom cs path t =
     (let (i, q) = splitPath path in
      if i \<ge> length cs then (Inl (Panic ''index out of range''), t)
      else bind_st (deleteFrom (cs ! i) q t) (\<lambda>r t1.
        let t2 = removeNode H (Branch cs) t1; cs' = cs[i := r]; (cnt, index) = count_children cs' in
        if cnt > 1 then (Inr (Branch cs'), addNode H (Branch cs') t2)
        else if index = lastChild then (Inr (cs' ! index), t2)
        else bind_st (case cs' ! index of
            HashNode h c \<Rightarrow> getFromStore h t2
          | c \<Rightarrow> (Inr c, t2)) (\<lambda>c t3. case c of
            Extension k n \<Rightarrow>
              (let e = Extension (of_nat index # k) n in (Inr e, addNode H e (removeNode H c t3)))
          | _ \<Rightarrow> (let e = NewExtensionNode [of_nat index] c in (Inr e, addNode H e t3)))))"

definition deleteFromExtension ::
    "(bytes \<Rightarrow> hash) \<Rightarrow> (node \<Rightarrow> bytes \<Rightarrow> trie \<Rightarrow> node result) \<Rightarrow> bytes \<Rightarrow> node \<Rightarrow> bytes \<Rightarrow> trie \<Rightarrow> node result" where
  "deleteFromExtension H deleteFrom k n path t =
     (if \<not> HasPrefix path k then (Inr (Extension k n), t)
      else bind_st (deleteFrom n (drop (length k) path) t) (\<lambda>r t1.
        let t2 = removeNode H (Extension k n) t1 in
        case r of
          Extension k' n' \<Rightarrow>
            (let e = Extension (k @ k') n' in (Inr e, addNode H e (removeNode H r t2)))
        | Empty \<Rightarrow> (Inr Empty, t2)
        | _ \<Rightarrow> (let e = Extension k r in (Inr e, addNode H e t2))))"

primrec deleteFromNode :: "(bytes \<Rightarrow> hash) \<Rightarrow> nat \<Rightarrow> node \<Rightarrow> bytes \<Rightarrow> trie \<Rightarrow> node result" where
  "deleteFromNode H 0 cur path t = (Inl OutOfFuel, t)"
| "deleteFromNode H (Suc fuel) cur path t = (case cur of
     Leaf u \<Rightarrow> if path = [] then (Inr Empty, removeNode H cur t) else (Inr cur, t)
   | Branch cs \<Rightarrow> deleteFromBranch H (deleteFromNode H fuel) cs path t
   | Extension k n \<Rightarrow> deleteFromExtension H (deleteFromNode H fuel) k n path t
   | Empty \<Rightarrow> (Inr Empty, t)
   | HashNode h c \<Rightarrow> bind_st (getFromStore h t) (\<lambda>r t1. deleteFromNode H fuel r path t1))"

definition TrieDelete :: "(bytes \<Rightarrow> hash) \<Rightarrow> nat \<Rightarrow> bytes \<Rightarrow> trie \<Rightarrow> unit result" where
  "TrieDelete H fuel ky t =
     (if length ky > MaxKeyLength then (Inl (ErrArg ''key is too big''), t)
      else bind_st (deleteFromNode H fuel (root t) (toNibbles ky) t)
        (\<lambda>r t1. (Inr (), t1\<lparr>root := r\<rparr>)))"

section \<open>State root, flush, collapse\<close>

definition StateRoot :: "(bytes \<Rightarrow> hash) \<Rightarrow> trie \<Rightarrow> hash" where
  "StateRoot H t = (if isEmpty (root t) then replicate 32 0 else NodeHash H (root t))"

text \<open>\<open>binary.LittleEndian.PutUint32(data[len(data)-4:], x)\<close>.\<close>

definition put_tail :: "bytes \<Rightarrow> u32 \<Rightarrow> bytes" where
  "put_tail data x = take (length data - 4) data @ put_le 4 x"

definition updateRefCount :: "hash \<Rightarrow> cached_node \<Rightarrow> u32 \<Rightarrow> trie \<Rightarrow> i32 result" where
  "updateRefCount h c index t =
     (let k = makeStorageKey h;
          stored = (if initial c = 0 then getData k (mode t) (Store t) else Inl ErrNotFound);
          cnt0 = (case stored of Inr data \<Rightarrow> get_le (drop (length data - 4) data) | Inl _ \<Rightarrow> initial c);
          data0 = (case stored of Inr data \<Rightarrow> data | Inl _ \<Rightarrow> []);
          data = (if data0 = [] then (case cbytes c of None \<Rightarrow> [] | Some b \<Rightarrow> b) @ [1, 0, 0, 0, 0] else data0);
          cnt = cnt0 + refs c;
          store_result = (\<lambda>r. case r of Inl e \<Rightarrow> (Inl (ErrStore e), t) | Inr st \<Rightarrow> (Inr cnt, t\<lparr>Store := st\<rparr>)) in
      if \<not> isl stored \<and> length data0 < 4 then (Inl (Panic ''slice bounds out of range''), t)
      else if cnt <s 0 then (Inl (Panic ''negative reference count''), t)
      else if cnt = 0 then
        if \<not> GC (mode t) then store_result (StoreDelete k (Store t))
        else if length data < 5 then (Inl (Panic ''index out of range''), t)
        else store_result (StorePut k (put_tail (data[length data - 5 := 0]) index) (Store t))
      else store_result (StorePut k (put_tail data cnt) (Store t)))"

definition set_entry :: "hash \<Rightarrow> cached_node \<Rightarrow> trie \<Rightarrow> trie" where
  "set_entry h c t = t\<lparr>refcount := AList.update h c (refcount t)\<rparr>"

definition del_entry :: "hash \<Rightarrow> trie \<Rightarrow> trie" where
  "del_entry h t = t\<lparr>refcount := AList.delete h (refcount t)\<rparr>"

text \<open>One turn of the loop of \<open>Flush\<close>, for one entry of the map.\<close>

definition flush_entry :: "u32 \<Rightarrow> hash \<times> cached_node \<Rightarrow> trie \<Rightarrow> unit result" where
  "flush_entry index hc t = (case hc of (h, c) \<Rightarrow>
     if refs c = 0 then (Inr (), del_entry h t)
     else case cbytes c of
       None \<Rightarrow> (Inl (Panic ''item not in trie''), t)
     | Some b \<Rightarrow>
         if RC (mode t) then bind_st (updateRefCount h c index t) (\<lambda>cnt t1.
           (Inr (), if cnt = 0 then del_entry h t1 else set_entry h (c\<lparr>initial := cnt, refs := 0\<rparr>) t1))
         else if 0 <s refs c then
           (case StorePut (makeStorageKey h) b (Store t) of
              Inl e \<Rightarrow> (Inl (ErrStore e), t)
            | Inr st \<Rightarrow> (Inr (), set_entry h (c\<lparr>refs := 0\<rparr>) (t\<lparr>Store := st\<rparr>)))
         else (Inr (), set_entry h (c\<lparr>refs := 0\<rparr>) t))"

primrec flush_entries :: "u32 \<Rightarrow> (hash \<times> cached_node) list \<Rightarrow> trie \<Rightarrow> unit result" where
  "flush_entries index [] t = (Inr (), t)"
| "flush_entries index (x # xs) t =
     bind_st (flush_entry index x t) (\<lambda>_ t1. flush_entries index xs t1)"

definition Flush :: "u32 \<Rightarrow> trie \<Rightarrow> unit result" where
  "Flush index t = flush_entries index (refcount t) t"

fun collapse :: "(bytes \<Rightarrow> hash) \<Rightarrow> nat \<Rightarrow> node \<Rightarrow> node" where
  "collapse H d (HashNode h c) = HashNode h c"
| "collapse H d Empty = Empty"
| "collapse H 0 n = NewHashNode (NodeHash H n)"
| "collapse H (Suc d) (Branch cs) = Branch (map (collapse H d) cs)"
| "collapse H (Suc d) (Extension k n) = Extension k (collapse H d n)"
| "collapse H (Suc d) (Leaf v) = Leaf v"

definition Collapse :: "(bytes \<Rightarrow> hash) \<Rightarrow> int \<Rightarrow> trie \<Rightarrow> unit result" where
  "Collapse H depth t =
     (if depth < 0 then (Inl (Panic ''negative depth''), t)
      else (Inr (), t\<lparr>root := collapse H (nat depth) (root t), refcount := []\<rparr>))"

end
