(* ===== verification/MptSpec.thy ===== *)
theory MptSpec
  imports MptNode
begin

text \<open>
  What the trie of src/pkg/core/mpt means, without storage, hashes and reference counts: a
  trie whose nodes are all in memory (no hash nodes) maps nibble paths to values
  (\<open>lookup\<close>), and \<open>tput\<close> and \<open>tdel\<close> are the updates that Trie.Put and Trie.Delete make to its shape.
  \<open>canonical\<close> is the conjunction of the invariants that src/pkg/core/mpt/doc.go lists; the
  central result is that a canonical trie is determined by the map it stands for.
\<close>

section \<open>The map a trie stands for\<close>

lemma size_nth [termination_simp]: "i < length cs \<Longrightarrow> size (cs ! i) < Suc (size_list size cs)"
  by (metis nth_mem order_refl size_list_estimation' less_Suc_eq_le)

function lookup :: "node \<Rightarrow> bytes \<Rightarrow> bytes option" where
  "lookup (Leaf v) p = (if p = [] then Some v else None)"
| "lookup (Branch cs) p =
     (let (i, q) = splitPath p in if i < length cs then lookup (cs ! i) q else None)"
| "lookup (Extension k n) p = (if HasPrefix p k then lookup n (drop (length k) p) else None)"
| "lookup Empty p = None"
| "lookup (HashNode h c) p = None"
  by pat_completeness auto
termination by (relation "measure (size \<circ> fst)") (auto simp: size_nth)

section \<open>Updates\<close>

definition tsub :: "bytes \<Rightarrow> node \<Rightarrow> node" where
  "tsub p n = (if p = [] then n else Extension p n)"

definition tbranch :: "(nat \<times> node) list \<Rightarrow> node" where
  "tbranch xs = Branch (fold (\<lambda>(i, n) cs. cs[i := n]) xs (replicate childrenCount Empty))"

text \<open>Split an extension whose key is not a prefix of the path.\<close>

definition tsplit :: "bytes \<Rightarrow> node \<Rightarrow> bytes \<Rightarrow> node \<Rightarrow> node" where
  "tsplit k n p val =
     (let pref = lcp k p; kt = drop (length pref) k; (i, q) = splitPath (drop (length pref) p) in
      tsub pref (tbranch [(unat (hd kt), tsub (tl kt) n), (i, tsub q val)]))"

function tput :: "node \<Rightarrow> bytes \<Rightarrow> bytes \<Rightarrow> node" where
  "tput (Leaf u) p v =
     (case p of [] \<Rightarrow> Leaf v
      | x # q \<Rightarrow> tbranch [(unat x, tsub q (Leaf v)), (lastChild, Leaf u)])"
| "tput (Branch cs) p v =
     (let (i, q) = splitPath p in
      Branch (if i < length cs then cs[i := tput (cs ! i) q v] else cs))"
| "tput (Extension k n) p v =
     (if HasPrefix p k then Extension k (tput n (drop (length k) p) v)
      else tsplit k n p (Leaf v))"
| "tput Empty p v = tsub p (Leaf v)"
| "tput (HashNode h c) p v = HashNode h c"
  by pat_completeness auto
termination by (relation "measure (\<lambda>(n, _). size n)") (auto simp: size_nth)

text \<open>Prefixing a path to a subtrie keeps extensions from following each other.\<close>

fun textend :: "bytes \<Rightarrow> node \<Rightarrow> node" where
  "textend p (Extension k n) = Extension (p @ k) n"
| "textend p Empty = Empty"
| "textend p n = tsub p n"

definition nonempty_at :: "node list \<Rightarrow> nat list" where
  "nonempty_at cs = filter (\<lambda>i. cs ! i \<noteq> Empty) [0 ..< length cs]"

definition tstrip :: "node list \<Rightarrow> node" where
  "tstrip cs = (case nonempty_at cs of
     [] \<Rightarrow> Empty
   | [i] \<Rightarrow> (if i = lastChild then cs ! i else textend [of_nat i] (cs ! i))
   | _ \<Rightarrow> Branch cs)"

function tdel :: "node \<Rightarrow> bytes \<Rightarrow> node" where
  "tdel (Leaf u) p = (if p = [] then Empty else Leaf u)"
| "tdel (Branch cs) p =
     (let (i, q) = splitPath p in
      if i < length cs then tstrip (cs[i := tdel (cs ! i) q]) else Branch cs)"
| "tdel (Extension k n) p =
     (if HasPrefix p k then textend k (tdel n (drop (length k) p)) else Extension k n)"
| "tdel Empty p = Empty"
| "tdel (HashNode h c) p = HashNode h c"
  by pat_completeness auto
termination by (relation "measure (size \<circ> fst)") (auto simp: size_nth)

section \<open>Canonical tries\<close>

fun wf_node :: "node \<Rightarrow> bool" where
  "wf_node (Leaf v) \<longleftrightarrow> True"
| "wf_node (Branch cs) \<longleftrightarrow> length cs = childrenCount \<and> length (nonempty_at cs) \<ge> 2 \<and>
     list_all (\<lambda>c. c = Empty \<or> wf_node c) cs \<and> (cs ! lastChild = Empty \<or> is_Leaf (cs ! lastChild))"
| "wf_node (Extension k n) \<longleftrightarrow> k \<noteq> [] \<and> nibbles k \<and> wf_node n \<and> \<not> is_Extension n"
| "wf_node Empty \<longleftrightarrow> False"
| "wf_node (HashNode h c) \<longleftrightarrow> False"

definition canonical :: "node \<Rightarrow> bool" where
  "canonical n \<longleftrightarrow> n = Empty \<or> wf_node n"

lemma canonical_wf: "wf_node n \<Longrightarrow> canonical n"
  by (simp add: canonical_def)

section \<open>Reading after an update\<close>

lemma unat_nibble_inject [simp]: "unat (x :: byte) = unat y \<longleftrightarrow> x = y"
  by (simp add: word_unat_eq_iff)

lemma nibble_neq_last [simp]:
  "(x :: byte) < 16 \<Longrightarrow> unat x \<noteq> lastChild" "(x :: byte) < 16 \<Longrightarrow> unat x < childrenCount"
  "(x :: byte) < 16 \<Longrightarrow> lastChild \<noteq> unat x"
  by (auto simp: mpt_consts word_less_nat_alt)

lemma lastChild_less [simp]: "lastChild < childrenCount"
  by (simp add: mpt_consts)

lemma splitPath_less: "nibbles p \<Longrightarrow> fst (splitPath p) < childrenCount"
  by (cases p) simp_all

lemma splitPath_inject:
  "nibbles p \<Longrightarrow> nibbles q \<Longrightarrow> splitPath p = splitPath q \<longleftrightarrow> p = q"
  by (cases p; cases q) auto

lemma nibbles_splitPath: "nibbles p \<Longrightarrow> nibbles (snd (splitPath p))"
  by (cases p) simp_all

lemma lookup_tsub:
  "lookup (tsub k n) p = (if HasPrefix p k then lookup n (drop (length k) p) else None)"
  by (simp add: tsub_def)

lemma nth_tbranch2:
  "i < childrenCount \<Longrightarrow> j < childrenCount \<Longrightarrow>
     Children (tbranch [(i, a), (j, b)]) = (replicate childrenCount Empty)[i := a, j := b]"
  by (simp add: tbranch_def)

lemma lookup_tbranch2:
  assumes "i < childrenCount" and "j < childrenCount" and "nibbles p"
  shows "lookup (tbranch [(i, a), (j, b)]) p =
     (let (m, q) = splitPath p in
      if m = j then lookup b q else if m = i then lookup a q else None)"
  using assms splitPath_less [OF assms(3)]
  by (simp add: tbranch_def nth_list_update split_def Let_def)

lemma split_cases:
  assumes "\<not> HasPrefix p k"
  obtains pref x kt pt where "lcp k p = pref" "k = pref @ x # kt" "p = pref @ pt"
    "pt = [] \<or> hd pt \<noteq> x"
proof -
  obtain k' p' where kp: "k = lcp k p @ k'" "p = lcp k p @ p'" "k' = [] \<or> p' = [] \<or> hd k' \<noteq> hd p'"
    by (rule lcp_split)
  have "k' \<noteq> []"
  proof
    assume "k' = []"
    with kp have "p = k @ p'" by simp
    with assms show False by (auto simp: HasPrefix_iff)
  qed
  then obtain x kt where "k' = x # kt" by (cases k') auto
  with kp that [of "lcp k p" x kt p'] show thesis by force
qed

lemma tsplit_eq:
  assumes "lcp k p = pref" and "k = pref @ x # kt" and "p = pref @ pt"
  shows "tsplit k n p val = tsub pref (tbranch [(unat x, tsub kt n),
     (fst (splitPath pt), tsub (snd (splitPath pt)) val)])"
proof -
  have "drop (length pref) k = x # kt" "drop (length pref) p = pt" using assms(2,3) by simp_all
  then show ?thesis by (simp add: tsplit_def assms(1) split_def Let_def)
qed

lemma HasPrefix_append_both [simp]: "HasPrefix (a @ b) (a @ c) \<longleftrightarrow> HasPrefix b c"
  by (induction a) simp_all

lemma lookup_tsplit:
  assumes "\<not> HasPrefix p k" and "nibbles k" and "nibbles p" and "nibbles q"
  shows "lookup (tsplit k n p (Leaf v)) q = (if q = p then Some v else lookup (Extension k n) q)"
proof -
  from split_cases [OF assms(1)] obtain pref x kt pt where s: "lcp k p = pref" "k = pref @ x # kt"
    "p = pref @ pt" "pt = [] \<or> hd pt \<noteq> x" .
  have nib: "x < 16" "nibbles pt" "nibbles kt" using assms s by simp_all
  have neq: "fst (splitPath pt) \<noteq> unat x" using s(4) nib by (cases pt) auto
  show ?thesis
  proof (cases "HasPrefix q pref")
    case True
    then obtain r where q: "q = pref @ r" by (auto simp: HasPrefix_iff)
    then have r: "nibbles r" using assms(4) by simp
    have "lookup (tsplit k n p (Leaf v)) q =
        (let (m, u) = splitPath r in
         if m = fst (splitPath pt) then (if u = snd (splitPath pt) then Some v else None)
         else if m = unat x then lookup (tsub kt n) u else None)"
      using lookup_tbranch2 [OF _ splitPath_less [OF nib(2)] r, of "unat x"] nib(1)
      by (auto simp: tsplit_eq [OF s(1-3)] lookup_tsub q Let_def split_def HasPrefix_iff)
    also have "\<dots> = (if r = pt then Some v else if HasPrefix r (x # kt) then lookup n (drop (Suc (length kt)) r) else None)"
      using neq r nib splitPath_inject [OF r nib(2)]
      by (cases r; cases pt) (auto simp: lookup_tsub)
    finally show ?thesis using s q by auto
  next
    case False
    then have "\<not> HasPrefix q k" "q \<noteq> p" using s by (auto simp: HasPrefix_iff)
    with False show ?thesis by (simp add: tsplit_eq [OF s(1-3)] lookup_tsub)
  qed
qed

lemma canonical_child: "wf_node (Branch cs) \<Longrightarrow> i < childrenCount \<Longrightarrow> canonical (cs ! i)"
  by (auto simp: canonical_def list_all_length)

lemma lookup_tput:
  assumes "canonical n" and "nibbles p" and "nibbles q"
  shows "lookup (tput n p v) q = (if q = p then Some v else lookup n q)"
  using assms
proof (induction n p v arbitrary: q rule: tput.induct)
  case (1 u p v)
  then show ?case
    using lookup_tbranch2 [of _ lastChild q]
    by (cases p; cases q) (auto simp: lookup_tsub HasPrefix_iff split: if_splits)
next
  case (2 cs p v)
  obtain i r where sp: "splitPath p = (i, r)" by fastforce
  obtain j u where sq: "splitPath q = (j, u)" by fastforce
  have wf: "wf_node (Branch cs)" using 2 by (simp add: canonical_def)
  have len: "length cs = childrenCount" using wf by simp
  have ij: "i < childrenCount" "j < childrenCount" "nibbles r" "nibbles u"
    using splitPath_less nibbles_splitPath 2 sp sq by (metis fst_conv snd_conv)+
  have "lookup (tput (cs ! i) r v) u = (if u = r then Some v else lookup (cs ! i) u)"
    using 2(1) [OF sp [symmetric] refl] len ij canonical_child [OF wf ij(1)] by simp
  moreover have "q = p \<longleftrightarrow> j = i \<and> u = r" using splitPath_inject 2 sp sq by (metis Pair_inject)
  ultimately show ?case using len ij by (auto simp: sp sq nth_list_update)
next
  case (3 k n p v)
  then have wf: "wf_node n" "nibbles k" by (simp_all add: canonical_def)
  show ?case
  proof (cases "HasPrefix p k")
    case True
    then obtain r where p: "p = k @ r" by (auto simp: HasPrefix_iff)
    have "lookup (tput n r v) u = (if u = r then Some v else lookup n u)" if "nibbles u" for u
      using 3(1) [OF True] wf 3 p that by (simp add: canonical_def)
    then show ?thesis using 3 p by (auto simp: HasPrefix_iff)
  next
    case False
    then show ?thesis using lookup_tsplit [OF False wf(2)] 3 by simp
  qed
qed (auto simp: lookup_tsub HasPrefix_iff canonical_def)

section \<open>Updates keep a trie canonical\<close>

lemma nonempty_at_set: "set (nonempty_at cs) = {i. i < length cs \<and> cs ! i \<noteq> Empty}"
  by (auto simp: nonempty_at_def)

lemma distinct_nonempty_at [simp]: "distinct (nonempty_at cs)"
  by (simp add: nonempty_at_def)

lemma two_children:
  "2 \<le> length (nonempty_at cs) \<longleftrightarrow>
     (\<exists>i j. i < length cs \<and> j < length cs \<and> i \<noteq> j \<and> cs ! i \<noteq> Empty \<and> cs ! j \<noteq> Empty)"
proof
  assume "2 \<le> length (nonempty_at cs)"
  then obtain i j xs where ij: "nonempty_at cs = i # j # xs"
    by (cases "nonempty_at cs"; cases "tl (nonempty_at cs)") auto
  then have "i \<noteq> j" using distinct_nonempty_at [of cs] by auto
  moreover have "i \<in> set (nonempty_at cs)" "j \<in> set (nonempty_at cs)" using ij by simp_all
  ultimately show "\<exists>i j. i < length cs \<and> j < length cs \<and> i \<noteq> j \<and> cs ! i \<noteq> Empty \<and> cs ! j \<noteq> Empty"
    by (auto simp: nonempty_at_set)
next
  assume "\<exists>i j. i < length cs \<and> j < length cs \<and> i \<noteq> j \<and> cs ! i \<noteq> Empty \<and> cs ! j \<noteq> Empty"
  then obtain i j where "{i, j} \<subseteq> set (nonempty_at cs)" "i \<noteq> j" by (auto simp: nonempty_at_set)
  then have "card {i, j} \<le> card (set (nonempty_at cs))" by (intro card_mono) simp_all
  with \<open>i \<noteq> j\<close> show "2 \<le> length (nonempty_at cs)" by (simp add: distinct_card)
qed

lemma wf_Branch:
  "wf_node (Branch cs) \<longleftrightarrow> length cs = childrenCount \<and> (\<forall>i < childrenCount. canonical (cs ! i)) \<and>
     (cs ! lastChild = Empty \<or> is_Leaf (cs ! lastChild)) \<and>
     (\<exists>i j. i < childrenCount \<and> j < childrenCount \<and> i \<noteq> j \<and> cs ! i \<noteq> Empty \<and> cs ! j \<noteq> Empty)"
  by (auto simp: two_children list_all_length canonical_def) blast+

lemma wf_not_Empty: "wf_node n \<Longrightarrow> n \<noteq> Empty"
  by auto

lemma wf_tsub: "wf_node n \<Longrightarrow> \<not> is_Extension n \<Longrightarrow> nibbles p \<Longrightarrow> wf_node (tsub p n)"
  by (simp add: tsub_def)

lemma wf_tbranch2:
  assumes "i < childrenCount" and "j < childrenCount" and "i \<noteq> j" and "wf_node a" and "wf_node b"
    and "i = lastChild \<longrightarrow> is_Leaf a" and "j = lastChild \<longrightarrow> is_Leaf b"
  shows "wf_node (tbranch [(i, a), (j, b)])"
proof -
  let ?cs = "(replicate childrenCount Empty)[i := a, j := b]"
  have "?cs ! i = a" "?cs ! j = b" using assms by (simp_all add: nth_list_update)
  moreover have "canonical (?cs ! m)" if "m < childrenCount" for m
    using assms that by (simp add: nth_list_update canonical_def)
  moreover have "?cs ! lastChild = Empty \<or> is_Leaf (?cs ! lastChild)"
    using assms by (auto simp: nth_list_update)
  ultimately have "wf_node (Branch ?cs)"
    unfolding wf_Branch using assms wf_not_Empty by (metis length_list_update length_replicate)
  then show ?thesis by (simp add: tbranch_def)
qed

lemma wf_Branch_update:
  assumes "wf_node (Branch cs)" and "i < childrenCount" and "wf_node n" and "i = lastChild \<longrightarrow> is_Leaf n"
  shows "wf_node (Branch (cs[i := n]))"
proof -
  from assms(1) obtain a b where ab: "length cs = childrenCount" "a < childrenCount" "b < childrenCount"
    "a \<noteq> b" "cs ! a \<noteq> Empty" "cs ! b \<noteq> Empty" unfolding wf_Branch by blast
  have "cs[i := n] ! a \<noteq> Empty" "cs[i := n] ! b \<noteq> Empty"
    using ab assms(2,3) by (auto simp: nth_list_update)
  moreover have "canonical (cs[i := n] ! m)" if "m < childrenCount" for m
    using ab assms(1-3) that canonical_child [of cs] by (simp add: nth_list_update canonical_def)
  moreover have "cs[i := n] ! lastChild = Empty \<or> is_Leaf (cs[i := n] ! lastChild)"
    using ab(1) assms unfolding wf_Branch by (simp add: nth_list_update)
  ultimately show ?thesis
    unfolding wf_Branch using ab(1-4) by (metis length_list_update)
qed

lemma wf_tput_shape: "canonical n \<Longrightarrow> \<not> is_Extension n \<Longrightarrow> n \<noteq> Empty \<Longrightarrow> \<not> is_Extension (tput n p v)"
  by (cases n) (auto simp: canonical_def tbranch_def split: list.splits prod.splits)

lemma wf_tsplit:
  assumes "\<not> HasPrefix p k" and "nibbles k" and "nibbles p" and "wf_node n" and "\<not> is_Extension n"
  shows "wf_node (tsplit k n p (Leaf v))"
proof -
  from split_cases [OF assms(1)] obtain pref x kt pt where s: "lcp k p = pref" "k = pref @ x # kt"
    "p = pref @ pt" "pt = [] \<or> hd pt \<noteq> x" .
  have nib: "x < 16" "nibbles pt" "nibbles kt" "nibbles pref" using assms s by simp_all
  have "fst (splitPath pt) \<noteq> unat x" using s(4) nib by (cases pt) auto
  moreover have "fst (splitPath pt) = lastChild \<longrightarrow> is_Leaf (tsub (snd (splitPath pt)) (Leaf v))"
    using nib by (cases pt) (auto simp: tsub_def)
  ultimately have "wf_node (tbranch [(unat x, tsub kt n), (fst (splitPath pt), tsub (snd (splitPath pt)) (Leaf v))])"
    using nib assms(4,5) splitPath_less [OF nib(2)] nibbles_splitPath [OF nib(2)]
    by (intro wf_tbranch2) (auto intro: wf_tsub)
  then show ?thesis
    using nib by (auto simp: tsplit_eq [OF s(1-3)] tbranch_def intro: wf_tsub)
qed

lemma wf_tput: "canonical n \<Longrightarrow> nibbles p \<Longrightarrow> wf_node (tput n p v)"
proof (induction n p v rule: tput.induct)
  case (1 u p v)
  show ?case
  proof (cases p)
    case (Cons x q)
    then show ?thesis
      using 1 wf_tbranch2 [of "unat x" lastChild "tsub q (Leaf v)" "Leaf u"] wf_tsub [of "Leaf v" q]
      by simp
  qed simp
next
  case (2 cs p v)
  obtain i r where sp: "splitPath p = (i, r)" by fastforce
  have wf: "wf_node (Branch cs)" using 2 by (simp add: canonical_def)
  have ir: "i < childrenCount" "nibbles r"
    using splitPath_less nibbles_splitPath 2 sp by (metis fst_conv snd_conv)+
  have len: "length cs = childrenCount" using wf by simp
  have "wf_node (tput (cs ! i) r v)"
    using 2(1) [OF sp [symmetric] refl] len ir canonical_child [OF wf ir(1)] by simp
  moreover have "i = lastChild \<longrightarrow> is_Leaf (tput (cs ! i) r v)"
    using wf sp 2(3) unfolding wf_Branch by (cases p; cases "cs ! lastChild") (auto simp: tsub_def)
  ultimately show ?case using wf_Branch_update [OF wf ir(1)] len ir by (simp add: sp)
next
  case (3 k n p v)
  then have wf: "wf_node n" "nibbles k" "k \<noteq> []" "\<not> is_Extension n" by (simp_all add: canonical_def)
  show ?case
  proof (cases "HasPrefix p k")
    case True
    then show ?thesis using 3 wf wf_tput_shape [of n] wf_not_Empty by (simp add: canonical_def)
  next
    case False
    then show ?thesis using wf_tsplit [OF False] 3 wf by simp
  qed
qed (auto simp: canonical_def intro: wf_tsub)

lemma lookup_textend:
  "lookup (textend k n) q = (if HasPrefix q k then lookup n (drop (length k) q) else None)"
  by (cases n) (auto simp: lookup_tsub HasPrefix_iff)

lemma canonical_textend: "canonical n \<Longrightarrow> nibbles k \<Longrightarrow> canonical (textend k n)"
  by (cases n) (auto simp: canonical_def tsub_def)

text \<open>The children a branch is left with before it is stripped.\<close>

definition loose :: "node list \<Rightarrow> bool" where
  "loose cs \<longleftrightarrow> length cs = childrenCount \<and> (\<forall>i < childrenCount. canonical (cs ! i)) \<and>
     (cs ! lastChild = Empty \<or> is_Leaf (cs ! lastChild))"

lemma wf_Branch_loose: "wf_node (Branch cs) \<Longrightarrow> loose cs"
  unfolding wf_Branch loose_def by blast

lemma tstrip_cases:
  assumes "loose cs"
  obtains (none) "tstrip cs = Empty" "\<forall>i < childrenCount. cs ! i = Empty"
  | (only_last) v where "tstrip cs = Leaf v" "cs ! lastChild = Leaf v" "\<forall>i < lastChild. cs ! i = Empty"
  | (only_child) i where "tstrip cs = textend [of_nat i] (cs ! i)" "i < lastChild" "cs ! i \<noteq> Empty"
      "\<forall>j < childrenCount. j \<noteq> i \<longrightarrow> cs ! j = Empty"
  | (branch) "tstrip cs = Branch cs" "wf_node (Branch cs)"
proof -
  have len: "length cs = childrenCount" using assms by (simp add: loose_def)
  have mem: "i \<in> set (nonempty_at cs) \<longleftrightarrow> i < childrenCount \<and> cs ! i \<noteq> Empty" for i
    by (simp add: nonempty_at_set len)
  consider (a) "nonempty_at cs = []" | (b) i where "nonempty_at cs = [i]"
    | (c) i j xs where "nonempty_at cs = i # j # xs"
    by (cases "nonempty_at cs"; cases "tl (nonempty_at cs)") auto
  then show thesis
  proof cases
    case a
    then show thesis using mem none by (auto simp: tstrip_def)
  next
    case (b i)
    then have i: "i < childrenCount" "cs ! i \<noteq> Empty" "\<forall>j < childrenCount. j \<noteq> i \<longrightarrow> cs ! j = Empty"
      using mem by auto
    show thesis
    proof (cases "i = lastChild")
      case True
      then obtain v where "cs ! lastChild = Leaf v" using assms i by (auto simp: loose_def is_Leaf_def)
      with True i b only_last [of v] show thesis by (auto simp: tstrip_def mpt_consts)
    next
      case False
      with i b only_child [of i] show thesis by (auto simp: tstrip_def mpt_consts)
    qed
  next
    case c
    then have "tstrip cs = Branch cs" by (simp add: tstrip_def)
    moreover have "2 \<le> length (nonempty_at cs)" using c by simp
    then have "wf_node (Branch cs)" using assms by (auto simp: loose_def list_all_length canonical_def)
    ultimately show thesis using branch by blast
  qed
qed

lemma unat_of_nat_child [simp]: "i < lastChild \<Longrightarrow> unat (of_nat i :: byte) = i"
  by (simp add: mpt_consts unat_of_nat take_bit_nat_eq_self)

lemma of_nat_child_nibble [simp]: "i < lastChild \<Longrightarrow> (of_nat i :: byte) < 16"
  by (simp add: word_less_nat_alt) (simp add: mpt_consts)

lemma of_nat_unat_eq: "i < lastChild \<Longrightarrow> x = (of_nat i :: byte) \<longleftrightarrow> unat x = i"
  by (metis unat_nibble_inject unat_of_nat_child)

lemma lookup_tstrip:
  assumes "loose cs" and "nibbles q"
  shows "lookup (tstrip cs) q = lookup (Branch cs) q"
proof -
  have len: "length cs = childrenCount" using assms by (simp add: loose_def)
  obtain j r where s: "splitPath q = (j, r)" by fastforce
  have j: "j < childrenCount" using splitPath_less [OF assms(2)] s by simp
  from assms(1) show ?thesis
  proof (cases rule: tstrip_cases)
    case (only_last v)
    then show ?thesis using assms(2) by (cases q) (auto simp: len mpt_consts)
  next
    case (only_child i)
    then show ?thesis using assms(2) len
      by (cases q) (auto simp: lookup_textend of_nat_unat_eq mpt_consts)
  qed (use s j len in auto)
qed

lemma canonical_tstrip:
  assumes "loose cs"
  shows "canonical (tstrip cs)"
  using assms
proof (cases rule: tstrip_cases)
  case (only_child i)
  then have "canonical (cs ! i)" using assms by (simp add: loose_def mpt_consts)
  with only_child show ?thesis by (simp add: canonical_textend)
qed (auto simp: canonical_def)

lemma tdel_canonical_lookup:
  assumes "canonical n" and "nibbles p"
  shows "canonical (tdel n p) \<and>
    (\<forall>q. nibbles q \<longrightarrow> lookup (tdel n p) q = (if q = p then None else lookup n q))"
  using assms
proof (induction n p rule: tdel.induct)
  case (2 cs p)
  obtain i r where sp: "splitPath p = (i, r)" by fastforce
  have wf: "wf_node (Branch cs)" using 2 by (simp add: canonical_def)
  have ir: "i < childrenCount" "nibbles r"
    using splitPath_less nibbles_splitPath 2 sp by (metis fst_conv snd_conv)+
  have len: "length cs = childrenCount" using wf by simp
  have IH: "canonical (tdel (cs ! i) r)"
    "\<And>q. nibbles q \<Longrightarrow> lookup (tdel (cs ! i) r) q = (if q = r then None else lookup (cs ! i) q)"
    using 2(1) [OF sp [symmetric] refl] len ir canonical_child [OF wf ir(1)] by simp_all
  have "i = lastChild \<longrightarrow> tdel (cs ! i) r = Empty"
    using wf sp 2(3) unfolding wf_Branch by (cases p; cases "cs ! lastChild") auto
  then have loose: "loose (cs[i := tdel (cs ! i) r])"
    using wf_Branch_loose [OF wf] IH(1) ir by (auto simp: loose_def nth_list_update)
  have "lookup (tstrip (cs[i := tdel (cs ! i) r])) q = (if q = p then None else lookup (Branch cs) q)"
    if q: "nibbles q" for q
  proof -
    obtain j u where sq: "splitPath q = (j, u)" by fastforce
    have "nibbles u" "j < childrenCount"
      using splitPath_less [OF q] nibbles_splitPath [OF q] sq by simp_all
    moreover have "q = p \<longleftrightarrow> j = i \<and> u = r" using splitPath_inject q 2 sp sq by (metis Pair_inject)
    ultimately show ?thesis
      using lookup_tstrip [OF loose q] IH(2) len ir by (auto simp: sq nth_list_update)
  qed
  with canonical_tstrip [OF loose] show ?case using len ir by (simp add: sp)
next
  case (3 k n p)
  then have wf: "wf_node n" "nibbles k" by (simp_all add: canonical_def)
  show ?case
  proof (cases "HasPrefix p k")
    case True
    then obtain r where p: "p = k @ r" by (auto simp: HasPrefix_iff)
    have IH: "canonical (tdel n r)"
      "\<And>q. nibbles q \<Longrightarrow> lookup (tdel n r) q = (if q = r then None else lookup n q)"
      using 3(1) [OF True] wf 3 p by (simp_all add: canonical_def)
    then show ?thesis
      using canonical_textend [OF IH(1) wf(2)] p by (auto simp: lookup_textend HasPrefix_iff)
  next
    case False
    then show ?thesis using 3 by auto
  qed
qed (auto simp: canonical_def)

lemmas canonical_tdel = tdel_canonical_lookup [THEN conjunct1]
lemmas lookup_tdel = tdel_canonical_lookup [THEN conjunct2, rule_format]

section \<open>A canonical trie is determined by its map\<close>

lemma wf_has_key: "wf_node n \<Longrightarrow> \<exists>p. nibbles p \<and> lookup n p \<noteq> None"
proof (induction n)
  case (Branch cs)
  then obtain i where i: "i < childrenCount" "cs ! i \<noteq> Empty" and len: "length cs = childrenCount"
    unfolding wf_Branch by blast
  show ?case
  proof (cases "i = lastChild")
    case True
    then have "lookup (Branch cs) [] \<noteq> None"
      using Branch.prems i len unfolding wf_Branch by (auto simp: is_Leaf_def)
    then show ?thesis by (intro exI [of _ "[]"]) simp
  next
    case False
    then have less: "i < lastChild" using i by (simp add: mpt_consts)
    have "wf_node (cs ! i)" using canonical_child [OF Branch.prems i(1)] i by (simp add: canonical_def)
    then obtain p where "nibbles p" "lookup (cs ! i) p \<noteq> None"
      using Branch.IH [of "cs ! i"] i len by auto
    then show ?thesis using less i len by (intro exI [of _ "of_nat i # p"]) simp
  qed
next
  case (Extension k n)
  then obtain p where "nibbles p" "lookup n p \<noteq> None" by auto
  then show ?case using Extension by (intro exI [of _ "k @ p"]) simp
next
  case (Leaf v)
  show ?case by (intro exI [of _ "[]"]) simp
qed simp_all

text \<open>A trie that does not begin with an extension has no common first nibble.\<close>

lemma wf_diverges:
  assumes "wf_node n" and "\<not> is_Extension n"
  shows "\<exists>p. nibbles p \<and> lookup n p \<noteq> None \<and> (p = [] \<or> hd p \<noteq> y)"
proof (cases n)
  case (Branch cs)
  then obtain i where i: "i < childrenCount" "cs ! i \<noteq> Empty" "i \<noteq> unat y"
    and len: "length cs = childrenCount"
    using assms(1) unfolding Branch wf_Branch by metis
  have wf: "wf_node (cs ! i)"
    using canonical_child [OF assms(1) [unfolded Branch] i(1)] i by (simp add: canonical_def)
  show ?thesis
  proof (cases "i = lastChild")
    case True
    then have "lookup n [] \<noteq> None"
      using assms(1) i len unfolding Branch wf_Branch by (auto simp: is_Leaf_def)
    then show ?thesis by (intro exI [of _ "[]"]) simp
  next
    case False
    then have less: "i < lastChild" using i by (simp add: mpt_consts)
    obtain p where "nibbles p" "lookup (cs ! i) p \<noteq> None" using wf_has_key [OF wf] by blast
    then show ?thesis
      using less i len Branch unat_of_nat_child [OF less] by (intro exI [of _ "of_nat i # p"]) auto
  qed
qed (use assms in auto)

text \<open>The same map on all nibble paths.\<close>

definition same_map :: "node \<Rightarrow> node \<Rightarrow> bool" where
  "same_map a b \<longleftrightarrow> (\<forall>p. nibbles p \<longrightarrow> lookup a p = lookup b p)"

lemma same_map_sym: "same_map a b \<Longrightarrow> same_map b a"
  by (simp add: same_map_def)

lemma Extension_keys:
  "lookup (Extension k n) p \<noteq> None \<Longrightarrow> \<exists>r. p = k @ r \<and> lookup n r \<noteq> None"
  by (auto simp: HasPrefix_iff split: if_splits)

lemma Extension_neq_short:
  assumes "wf_node (Extension k n)" and "wf_node b" and "\<not> is_Extension b"
  shows "\<not> same_map (Extension k n) b"
proof
  assume eq: "same_map (Extension k n) b"
  obtain p where p: "nibbles p" "lookup b p \<noteq> None" "p = [] \<or> hd p \<noteq> hd k"
    using wf_diverges [OF assms(2,3), of "hd k"] by blast
  then have "lookup (Extension k n) p \<noteq> None" using eq by (simp add: same_map_def)
  then show False using p(3) assms(1) Extension_keys [of k n p] by (cases k) auto
qed

lemma Leaf_neq_Branch:
  assumes "wf_node (Branch cs)"
  shows "\<not> same_map (Leaf v) (Branch cs)"
proof
  assume eq: "same_map (Leaf v) (Branch cs)"
  from assms obtain i where i: "i < lastChild" "cs ! i \<noteq> Empty" and len: "length cs = childrenCount"
    unfolding wf_Branch by (metis Suc_pred' childrenCount_def lastChild_def less_Suc_eq zero_less_numeral One_nat_def)
  have "wf_node (cs ! i)"
    using canonical_child [OF assms, of i] i by (auto simp: canonical_def mpt_consts)
  then obtain p where "nibbles p" "lookup (cs ! i) p \<noteq> None" using wf_has_key by blast
  then have "lookup (Branch cs) (of_nat i # p) \<noteq> None" "nibbles (of_nat i # p)"
    using i len by (auto simp: mpt_consts)
  with eq show False unfolding same_map_def by fastforce
qed

lemma same_map_child:
  assumes "same_map (Branch cs) (Branch ds)" and "wf_node (Branch cs)" and "wf_node (Branch ds)"
    and "i < childrenCount"
  shows "same_map (cs ! i) (ds ! i)"
  unfolding same_map_def
proof (intro allI impI)
  fix p assume p: "nibbles p"
  have len: "length cs = childrenCount" "length ds = childrenCount" using assms by simp_all
  show "lookup (cs ! i) p = lookup (ds ! i) p"
  proof (cases "i = lastChild")
    case True
    have "lookup (Branch cs) [] = lookup (Branch ds) []"
      using assms(1) unfolding same_map_def by (metis nibbles_simps(1))
    then have "lookup (cs ! lastChild) [] = lookup (ds ! lastChild) []" using len by simp
    then show ?thesis using assms(2,3) True unfolding wf_Branch
      by (cases p; cases "cs ! lastChild"; cases "ds ! lastChild") auto
  next
    case False
    then have "i < lastChild" using assms(4) by (simp add: mpt_consts)
    moreover from this have "lookup (Branch cs) (of_nat i # p) = lookup (Branch ds) (of_nat i # p)"
      using assms(1) p unfolding same_map_def by (metis nibbles_simps(2) of_nat_child_nibble)
    ultimately show ?thesis using len assms(4) by simp
  qed
qed

lemma same_map_Extension:
  assumes "same_map (Extension k n) (Extension l m)"
    and "wf_node (Extension k n)" and "wf_node (Extension l m)" and "length k \<le> length l"
  shows "k = l \<and> same_map n m"
proof -
  obtain p where p: "nibbles p" "lookup (Extension l m) p \<noteq> None" using wf_has_key [OF assms(3)] by blast
  then have "lookup (Extension k n) p \<noteq> None" using assms(1) by (simp add: same_map_def)
  then obtain r r' where "p = k @ r" "p = l @ r'" using p Extension_keys by metis
  then obtain d where l: "l = k @ d" using assms(4) by (auto simp: append_eq_append_conv2)
  have "d = []"
  proof (rule ccontr)
    assume "d \<noteq> []"
    obtain q where q: "nibbles q" "lookup n q \<noteq> None" "q = [] \<or> hd q \<noteq> hd d"
      using wf_diverges [of n "hd d"] assms(2) by auto
    then have "lookup (Extension k n) (k @ q) \<noteq> None" by simp
    then have "lookup (Extension l m) (k @ q) \<noteq> None"
      using assms(1,2) q(1) unfolding same_map_def by (metis nibbles_simps(3) wf_node.simps(3))
    then obtain u where "k @ q = l @ u" using Extension_keys by blast
    with l \<open>d \<noteq> []\<close> q(3) show False by (cases d) auto
  qed
  moreover have "lookup n q = lookup m q" if "nibbles q" for q
    using assms(1,2) that l \<open>d = []\<close> unfolding same_map_def
    by (metis HasPrefix_append append_Nil2 append_eq_conv_conj lookup.simps(3) nibbles_simps(3) wf_node.simps(3))
  ultimately show ?thesis using l by (simp add: same_map_def)
qed

lemma canonical_unique:
  assumes "canonical a" and "canonical b" and "same_map a b"
  shows "a = b"
  using assms
proof (induction a arbitrary: b)
  case (Branch cs)
  then have wf: "wf_node (Branch cs)" by (simp add: canonical_def)
  show ?case
  proof (cases b)
    case [simp]: (Branch ds)
    have wfd: "wf_node (Branch ds)" using Branch.prems by (simp add: canonical_def)
    have "cs ! i = ds ! i" if i: "i < childrenCount" for i
      using Branch.IH [of "cs ! i" "ds ! i"] same_map_child [OF _ wf wfd i] Branch.prems(3) i wf
        canonical_child [OF wf i] canonical_child [OF wfd i] by simp
    then show ?thesis using wf wfd by (simp add: nth_equalityI)
  next
    case (Extension k n)
    then show ?thesis
      using Extension_neq_short [OF _ wf, of k n] Branch.prems same_map_sym by (auto simp: canonical_def)
  next
    case (Leaf v)
    then show ?thesis using Leaf_neq_Branch [OF wf] Branch.prems(3) same_map_sym by blast
  qed (use Branch.prems wf_has_key [OF wf] in \<open>auto simp: canonical_def same_map_def\<close>)
next
  case (Extension k n)
  then have wf: "wf_node (Extension k n)" by (simp add: canonical_def)
  show ?case
  proof (cases b)
    case [simp]: (Extension l m)
    have wfb: "wf_node (Extension l m)" using Extension.prems by (simp add: canonical_def)
    have "k = l \<and> same_map n m"
      using same_map_Extension [OF _ wf wfb] same_map_Extension [OF _ wfb wf] Extension.prems(3) same_map_sym
      by (cases "length k \<le> length l") auto
    then show ?thesis using Extension.IH [of m] wf wfb by (simp add: canonical_def)
  next
    case (Branch cs)
    then show ?thesis using Extension_neq_short [OF wf] Extension.prems by (auto simp: canonical_def)
  next
    case (Leaf v)
    then show ?thesis using Extension_neq_short [OF wf] Extension.prems by (auto simp: canonical_def)
  qed (use Extension.prems wf_has_key [OF wf] in \<open>auto simp: canonical_def same_map_def\<close>)
next
  case (Leaf v)
  show ?case
  proof (cases b)
    case (Branch cs)
    then show ?thesis using Leaf_neq_Branch Leaf.prems by (auto simp: canonical_def)
  next
    case (Extension k n)
    then show ?thesis
      using Extension_neq_short [of k n "Leaf v"] Leaf.prems same_map_sym by (auto simp: canonical_def)
  next
    case (Leaf u)
    then show ?thesis using Leaf.prems by (auto simp: same_map_def dest: spec [of _ "[]"])
  qed (use Leaf.prems in \<open>auto simp: canonical_def same_map_def dest: spec [of _ "[]"]\<close>)
next
  case (HashNode h c)
  then show ?case by (simp add: canonical_def)
next
  case Empty
  then show ?case using wf_has_key [of b] by (auto simp: canonical_def same_map_def)
qed

section \<open>Sequences of updates\<close>

text \<open>One change of a trie: a value put under a path, or the path deleted.\<close>

definition tchange :: "bytes \<times> bytes option \<Rightarrow> node \<Rightarrow> node" where
  "tchange c n = (case c of (p, Some v) \<Rightarrow> tput n p v | (p, None) \<Rightarrow> tdel n p)"

lemma tchange_laws:
  assumes "canonical n" and "nibbles (fst c)"
  shows "canonical (tchange c n)"
    and "nibbles q \<Longrightarrow> lookup (tchange c n) q = (if q = fst c then snd c else lookup n q)"
  using assms wf_tput [of n "fst c"]
  by (cases c; cases "snd c";
      auto simp: tchange_def lookup_tput lookup_tdel canonical_tdel intro: canonical_wf)+

lemma fold_tchange_laws:
  assumes "canonical n" and "\<forall>c \<in> set cs. nibbles (fst c)"
  shows "canonical (fold tchange cs n)"
    and "nibbles q \<Longrightarrow> lookup (fold tchange cs n) q =
      (case map_of (rev cs) q of Some w \<Rightarrow> w | None \<Rightarrow> lookup n q)"
  using assms
proof (induction cs arbitrary: n)
  case (Cons c cs)
  {
    case 1
    then show ?case using Cons.IH(1) tchange_laws(1) by simp
  next
    case 2
    then show ?case
      using Cons.IH(2) [of "tchange c n"] tchange_laws [where n = n and c = c]
      by (cases c) (auto simp: map_add_def split: option.splits)
  }
qed simp_all

lemma fold_tchange_confluent:
  assumes "\<forall>c \<in> set (as @ bs). nibbles (fst c)" and "map_of (rev as) = map_of (rev bs)"
    and "canonical n"
  shows "fold tchange as n = fold tchange bs n"
  using assms fold_tchange_laws [of n as] fold_tchange_laws [of n bs]
  by (intro canonical_unique) (auto simp: same_map_def)

end
