(* ===== verification/MptRefine.thy ===== *)
theory MptRefine
  imports MptTrie MptSpec "HOL-Library.Multiset"
begin

text \<open>
  The trie over a store implements the in-memory trie of theory MptSpec. \<open>rep\<close> relates a node
  with unresolved hash nodes to the full trie it stands for; \<open>Get\<close>, \<open>Put\<close> and
  \<open>Delete\<close> commute with it, never fail on a complete store, return within a fuel linear in
  the length of the path, and change the collected reference counts by exactly the difference
  between the node occurrences of the new and the old trie.
\<close>

declare NodeHash.simps(3-) [simp del] NodeBytes.simps(2-) [simp del]

section \<open>What a partially loaded trie stands for\<close>

definition fetch :: "trie \<Rightarrow> hash \<Rightarrow> node option" where
  "fetch t h = (case fst (getFromStore h t) of Inl _ \<Rightarrow> None | Inr n \<Rightarrow> Some n)"

text \<open>The parts of a trie no operation on nodes changes.\<close>

definition same_store :: "trie \<Rightarrow> trie \<Rightarrow> bool" where
  "same_store t t' \<longleftrightarrow> Store t' = Store t \<and> mode t' = mode t"

lemma same_store_refl [simp, intro]: "same_store t t"
  by (simp add: same_store_def)

lemma same_store_trans [trans]: "same_store a b \<Longrightarrow> same_store b c \<Longrightarrow> same_store a c"
  by (simp add: same_store_def)

lemma getFromStore_fst_cong: "same_store t t' \<Longrightarrow> fst (getFromStore h t') = fst (getFromStore h t)"
  by (simp add: getFromStore_def same_store_def Let_def split: sum.split prod.split option.split)

lemma fetch_cong: "same_store t t' \<Longrightarrow> fetch t' = fetch t"
  using getFromStore_fst_cong by (auto simp: fetch_def)

text \<open>A stored node is fetched with its children as hash nodes.\<close>

lemma fetch_stored:
  assumes "hash32 H" and "node_ok n" and "n \<noteq> Empty" and "\<not> is_HashNode n"
    and "getData (makeStorageKey h) (mode t) (Store t) = Inr (NodeBytes H n @ tail)"
    and "RC (mode t) \<Longrightarrow> length tail = 5"
  shows "fetch t h = Some (shallow H n)"
proof -
  have "with_cache (Some (shallow H n)) h = Inr (shallow H n)"
    using assms(3,4) by (cases n) simp_all
  with assms(5,6) node_codec_roundtrip' [OF assms(1-4), of tail] show ?thesis
    by (auto simp: fetch_def getFromStore_def NewBinReaderFromBuf_def)
qed

inductive rep :: "(bytes \<Rightarrow> hash) \<Rightarrow> (hash \<Rightarrow> node option) \<Rightarrow> node \<Rightarrow> node \<Rightarrow> bool" for H f where
  rep_Leaf: "rep H f (Leaf v) (Leaf v)"
| rep_Empty: "rep H f Empty Empty"
| rep_Extension: "rep H f n p \<Longrightarrow> rep H f (Extension k n) (Extension k p)"
| rep_Branch: "length cs = length ps \<Longrightarrow> \<forall>i < length ps. rep H f (cs ! i) (ps ! i) \<Longrightarrow>
    rep H f (Branch cs) (Branch ps)"
| rep_Hash: "f h = Some n \<Longrightarrow> \<not> is_HashNode n \<Longrightarrow> rep H f n p \<Longrightarrow> p \<noteq> Empty \<Longrightarrow> NodeHash H p = h \<Longrightarrow>
    rep H f (HashNode h c) p"

inductive_cases rep_LeafE: "rep H f (Leaf v) p"
inductive_cases rep_EmptyE: "rep H f Empty p"
inductive_cases rep_ExtensionE: "rep H f (Extension k n) p"
inductive_cases rep_BranchE: "rep H f (Branch cs) p"
inductive_cases rep_HashE: "rep H f (HashNode h c) p"

inductive_simps rep_simps [simp]:
  "rep H f (Leaf v) p" "rep H f Empty p" "rep H f (Extension k n) p" "rep H f (Branch cs) p"

lemma rep_Empty_iff: "rep H f n p \<Longrightarrow> n = Empty \<longleftrightarrow> p = Empty"
  by (induction rule: rep.induct) auto

lemma rep_no_hash: "rep H f n p \<Longrightarrow> \<not> is_HashNode p"
  by (induction rule: rep.induct) auto

lemma rep_encoding:
  "rep H f n p \<Longrightarrow> NodeHash H n = NodeHash H p \<and> (\<not> is_HashNode n \<longrightarrow> NodeBytes H n = NodeBytes H p)"
proof (induction rule: rep.induct)
  case (rep_Extension n p k)
  then have "child_bytes H n = child_bytes H p"
    using rep_Empty_iff by (auto simp: child_bytes_def)
  then show ?case by (simp add: NodeHash_eq NodeBytes_eq)
next
  case (rep_Branch cs ps)
  then have "child_bytes H (cs ! i) = child_bytes H (ps ! i)" if "i < length ps" for i
    using that rep_Empty_iff by (auto simp: child_bytes_def)
  then have "map (child_bytes H) cs = map (child_bytes H) ps"
    using rep_Branch by (simp add: list_eq_iff_nth_eq)
  then show ?case by (simp add: NodeHash_eq NodeBytes_eq)
qed auto

lemmas rep_NodeHash = rep_encoding [THEN conjunct1]
lemmas rep_NodeBytes = rep_encoding [THEN conjunct2, rule_format]

section \<open>Reference counts\<close>

definition rc :: "trie \<Rightarrow> hash \<Rightarrow> i32" where
  "rc t h = (case map_of (refcount t) h of None \<Rightarrow> 0 | Some c \<Rightarrow> refs c)"

lemma change_ref_laws [simp]:
  "rc (change_ref d h bs t) h' = rc t h' + (if h' = h then d else 0)"
  "same_store t (change_ref d h bs t)"
  "root (change_ref d h bs t) = root t"
  "Store (change_ref d h bs t) = Store t"
  "mode (change_ref d h bs t) = mode t"
  by (auto simp: rc_def change_ref_def update_conv' same_store_def split: option.split)

lemma getFromStore_laws:
  assumes "getFromStore h t = (r, t')"
  shows "rc t' h' = rc t h'" and "same_store t t'" and "root t' = root t"
  using assms
  by (auto simp: getFromStore_def rc_def same_store_def Let_def update_conv'
      split: sum.splits prod.splits option.splits if_splits)

lemma fetch_getFromStore:
  assumes "fetch t h = Some n"
  obtains t' where "getFromStore h t = (Inr n, t')" "same_store t t'" "root t' = root t" "\<And>h'. rc t' h' = rc t h'"
proof -
  obtain r t' where g: "getFromStore h t = (r, t')" by fastforce
  with assms have "r = Inr n" by (auto simp: fetch_def split: sum.splits)
  with g getFromStore_laws [OF g] that show thesis by auto
qed

text \<open>The hashes of all nodes of a trie, with multiplicity.\<close>

function occ :: "(bytes \<Rightarrow> hash) \<Rightarrow> node \<Rightarrow> hash multiset" where
  "occ H (Leaf v) = {#NodeHash H (Leaf v)#}"
| "occ H (Branch cs) = {#NodeHash H (Branch cs)#} + sum_list (map (occ H) cs)"
| "occ H (Extension k n) = {#NodeHash H (Extension k n)#} + occ H n"
| "occ H Empty = {#}"
| "occ H (HashNode h c) = {#}"
  by pat_completeness auto
termination
proof (relation "measure (size \<circ> snd)", goal_cases)
  case (2 H cs x)
  then show ?case using size_list_estimation' [of x cs "size x" size] by (simp add: less_Suc_eq_le)
qed auto

definition cnt :: "(bytes \<Rightarrow> hash) \<Rightarrow> node \<Rightarrow> hash \<Rightarrow> i32" where
  "cnt H n h = of_nat (count (occ H n) h)"

lemma count_sum_list: "count (sum_list ms) h = sum_list (map (\<lambda>m. count m h) ms)"
  by (induction ms) simp_all

lemma of_nat_sum_list: "of_nat (sum_list xs) = sum_list (map of_nat xs)"
  by (induction xs) simp_all

definition one_at :: "hash \<Rightarrow> hash \<Rightarrow> i32" where
  "one_at h h' = (if h' = h then 1 else 0)"

lemma cnt_simps [simp]:
  "cnt H (Leaf v) h = one_at (NodeHash H (Leaf v)) h"
  "cnt H (Extension k n) h = one_at (NodeHash H (Extension k n)) h + cnt H n h"
  "cnt H (Branch cs) h = one_at (NodeHash H (Branch cs)) h + sum_list (map (\<lambda>c. cnt H c h) cs)"
  "cnt H Empty h = 0"
  by (auto simp: cnt_def one_at_def count_sum_list comp_def of_nat_sum_list)

lemma sum_list_update:
  fixes f :: "'a \<Rightarrow> i32"
  shows "i < length xs \<Longrightarrow> sum_list (map f (xs[i := x])) = sum_list (map f xs) + f x - f (xs ! i)"
  by (induction xs arbitrary: i) (auto split: nat.split)

lemma sum_list_replicate_Empty [simp]: "sum_list (map (\<lambda>c. cnt H c h) (replicate n Empty)) = 0"
  by (induction n) simp_all

lemma sum_list_replicate_0 [simp]: "sum_list (replicate n (0 :: i32)) = 0"
  by (induction n) simp_all

lemma cnt_tbranch2:
  assumes "i < childrenCount" and "j < childrenCount" and "i \<noteq> j"
  shows "cnt H (tbranch [(i, a), (j, b)]) h =
     one_at (NodeHash H (tbranch [(i, a), (j, b)])) h + cnt H a h + cnt H b h"
  using assms by (simp add: tbranch_def sum_list_update)

lemma rc_addNode [simp]: "rc (addRef k bs t) h = rc t h + one_at k h"
  by (simp add: addRef_def one_at_def)

lemma rc_removeNode [simp]: "rc (removeRef k bs t) h = rc t h - one_at k h"
  by (simp add: removeRef_def one_at_def)

lemma same_store_refs [simp]:
  "same_store t (addRef k bs t)" "same_store t (removeRef k bs t)"
  "root (addRef k bs t) = root t" "root (removeRef k bs t) = root t"
  "Store (addRef k bs t) = Store t" "Store (removeRef k bs t) = Store t"
  "mode (addRef k bs t) = mode t" "mode (removeRef k bs t) = mode t"
  "same_store t (addRef k bs t') \<longleftrightarrow> same_store t t'"
  "same_store t (removeRef k bs t') \<longleftrightarrow> same_store t t'"
  by (simp_all add: addRef_def removeRef_def same_store_def)

lemma fetch_refs [simp]: "fetch (addRef k bs t) = fetch t" "fetch (removeRef k bs t) = fetch t"
  by (rule fetch_cong, simp)+

section \<open>Putting\<close>

text \<open>
  A run that ends with a node standing for \<open>p'\<close> (unresolved only if that is a leaf), on the
  same store, with the reference counts moved from those of \<open>p\<close> to those of \<open>p'\<close>.
\<close>

definition updates :: "(bytes \<Rightarrow> hash) \<Rightarrow> trie \<Rightarrow> node result \<Rightarrow> node \<Rightarrow> node \<Rightarrow> bool" where
  "updates H t r p p' \<longleftrightarrow> (\<exists>n' t'. r = (Inr n', t') \<and> rep H (fetch t) n' p' \<and>
     (is_HashNode n' \<longrightarrow> is_Leaf p') \<and> same_store t t' \<and> root t' = root t \<and> (\<forall>h. rc t' h = rc t h + cnt H p' h - cnt H p h))"

lemma updates_intro:
  "rep H (fetch t) n' p' \<Longrightarrow> (is_HashNode n' \<Longrightarrow> is_Leaf p') \<Longrightarrow> same_store t t' \<Longrightarrow> root t' = root t \<Longrightarrow>
     (\<And>h. rc t' h = rc t h + cnt H p' h - cnt H p h) \<Longrightarrow> updates H t (Inr n', t') p p'"
  by (auto simp: updates_def)

lemma updates_elim:
  assumes "updates H t r p p'"
  obtains n' t' where "r = (Inr n', t')" "rep H (fetch t) n' p'" "is_HashNode n' \<Longrightarrow> is_Leaf p'" "same_store t t'" "root t' = root t"
    "\<And>h. rc t' h = rc t h + cnt H p' h - cnt H p h"
  using assms by (auto simp: updates_def)

text \<open>A new node is counted as it is returned.\<close>

lemma updates_add:
  assumes "rep H (fetch t) n' p'" and "\<not> is_HashNode n'" and "same_store t t'" and "root t' = root t"
    and "\<And>h. rc t' h + one_at (NodeHash H p') h = rc t h + cnt H p' h - cnt H p h"
  shows "updates H t (Inr n', addRef (NodeHash H n') bs t') p p'"
  using assms rep_NodeHash [OF assms(1)] by (auto intro!: updates_intro)

text \<open>Loading a node first changes nothing that counts.\<close>

lemma updates_loaded:
  assumes "same_store t t1" and "root t1 = root t" and "\<And>h. rc t1 h = rc t h" and "updates H t1 r p p'"
  shows "updates H t r p p'"
  using assms fetch_cong [OF assms(1)] same_store_trans [OF assms(1)] by (auto simp: updates_def)

lemma newSubTrie_old:
  assumes "rep H (fetch t) n p" and "newSubTrie H path n False t = (n', t')"
  shows "rep H (fetch t) n' (tsub path p)" and "same_store t t'" and "root t' = root t"
    and "rc t' h = rc t h + cnt H (tsub path p) h - cnt H p h"
proof -
  have "NodeHash H (Extension path n) = NodeHash H (Extension path p)"
    using rep_NodeHash [of H "fetch t" "Extension path n"] assms(1) by simp
  with assms show "rep H (fetch t) n' (tsub path p)" "same_store t t'" "root t' = root t"
    "rc t' h = rc t h + cnt H (tsub path p) h - cnt H p h"
    by (auto simp: newSubTrie_def tsub_def NewExtensionNode_def Let_def split: if_splits)
qed

lemma newSubTrie_new:
  assumes "newSubTrie H path (Leaf v) True t = (n', t')"
  shows "n' = tsub path (Leaf v)" and "same_store t t'" and "root t' = root t"
    and "rc t' h = rc t h + cnt H (tsub path (Leaf v)) h"
  using assms by (auto simp: newSubTrie_def tsub_def NewExtensionNode_def Let_def split: if_splits)

lemma rep_tsub_Leaf [simp]: "rep H f (tsub path (Leaf v)) (tsub path (Leaf v))"
  by (simp add: tsub_def)

lemma new_not_hash [simp]:
  "\<not> is_HashNode (tsub path (Leaf v))" "\<not> is_HashNode (tbranch xs)"
  by (simp_all add: tsub_def tbranch_def)

lemma rep_tbranch2:
  assumes "rep H f a a'" and "rep H f b b'" and "i < childrenCount" and "j < childrenCount"
  shows "rep H f (tbranch [(i, a), (j, b)]) (tbranch [(i, a'), (j, b')])"
  using assms by (auto simp: tbranch_def nth_list_update)

lemma set_child_tbranch:
  "set_child (set_child NewBranchNode i a) j b = tbranch [(i, a), (j, b)]"
  by (simp add: set_child_def NewBranchNode_def tbranch_def)

lemma putIntoLeaf_sim:
  assumes "nibbles path"
  shows "updates H t (putIntoLeaf H u path (Leaf v) t) (Leaf u) (tput (Leaf u) path v)"
proof (cases path)
  case Nil
  then show ?thesis by (auto simp: putIntoLeaf_def updates_def)
next
  case (Cons x q)
  then have x: "unat x < childrenCount" "unat x \<noteq> lastChild" using assms by simp_all
  obtain s t1 where s: "newSubTrie H q (Leaf v) True t = (s, t1)" by fastforce
  from newSubTrie_new [OF s] have [simp]: "s = tsub q (Leaf v)" and ss: "same_store t t1" "root t1 = root t"
    and r: "\<And>h. rc t1 h = rc t h + cnt H (tsub q (Leaf v)) h" by blast+
  show ?thesis
    using Cons x ss r s cnt_tbranch2 [OF x(1) lastChild_less x(2)]
    by (auto simp: putIntoLeaf_def updates_def set_child_tbranch Let_def split_def
        intro!: rep_tbranch2 rep_Leaf)
qed

lemma split_sim:
  assumes nib: "nibbles k" "nibbles path" and np: "\<not> HasPrefix path k" and rep: "rep H (fetch t) n p"
  shows "updates H t (putIntoExtension H putInto k n path (Leaf v) t) (Extension k p) (tsplit k p path (Leaf v))"
proof -
  from split_cases [OF np] obtain pref x kt pt where s: "lcp k path = pref" "k = pref @ x # kt"
    "path = pref @ pt" "pt = [] \<or> hd pt \<noteq> x" .
  have nibs: "x < 16" "nibbles pt" using nib s by simp_all
  let ?i = "fst (splitPath pt)" and ?q = "snd (splitPath pt)"
  have i: "?i < childrenCount" "?i \<noteq> unat x" "unat x < childrenCount"
    using splitPath_less [OF nibs(2)] s(4) nibs by (auto, cases pt) auto
  define t1 where "t1 = removeNode H (Extension k n) t"
  have rep1: "rep H (fetch t1) n p" using rep by (simp add: t1_def)
  obtain s1 t2 where s1: "newSubTrie H kt n False t1 = (s1, t2)" by fastforce
  obtain s2 t3 where s2: "newSubTrie H ?q (Leaf v) True t2 = (s2, t3)" by fastforce
  note o = newSubTrie_old [OF rep1 s1] and w = newSubTrie_new [OF s2]
  let ?b = "tbranch [(unat x, s1), (?i, s2)]" and ?b' = "tbranch [(unat x, tsub kt p), (?i, tsub ?q (Leaf v))]"
  have repb: "rep H (fetch t) ?b ?b'" using o(1) w(1) i by (auto simp: t1_def intro!: rep_tbranch2)
  have repe: "rep H (fetch t) (Extension pref ?b) (Extension pref ?b')" using repb by simp
  have run: "putIntoExtension H putInto k n path (Leaf v) t =
      (if pref = [] then (Inr ?b, addNode H ?b t3)
       else (Inr (Extension pref ?b), addNode H (Extension pref ?b) (addNode H ?b t3)))"
  proof -
    have "drop (length pref) k = x # kt" "drop (length pref) path = pt" using s(2,3) by simp_all
    with s1 s2 i np show ?thesis
      by (simp add: putIntoExtension_def s(1) t1_def [symmetric] set_child_tbranch NewExtensionNode_def
          Copy_def Let_def split_def)
  qed
  have rct: "rc t3 h = rc t h - one_at (NodeHash H (Extension k p)) h + cnt H (tsub kt p) h - cnt H p h
      + cnt H (tsub ?q (Leaf v)) h" for h
    using o(4) w(4) rep_NodeHash [of H "fetch t" "Extension k n" "Extension k p"] rep
    by (simp add: t1_def)
  have st: "same_store t t3" "root t3 = root t"
    using o w same_store_trans by (auto simp: t1_def same_store_def)
  have goal: "tsplit k p path (Leaf v) = tsub pref ?b'" using tsplit_eq [OF s(1-3)] by simp
  show ?thesis
    unfolding run goal
    using repb repe st rct cnt_tbranch2 [OF i(3) i(1) i(2) [symmetric]] rep_NodeHash [OF repb] rep_NodeHash [OF repe]
    by (cases "pref = []") (auto simp: tsub_def intro!: updates_intro)
qed

text \<open>Two steps for every nibble of the path: one for a hash node, one for its contents.\<close>

definition fuel_ok :: "nat \<Rightarrow> node \<Rightarrow> node \<Rightarrow> bytes \<Rightarrow> bool" where
  "fuel_ok fuel n p path \<longleftrightarrow>
     (if is_Leaf p \<or> p = Empty then 1 else 2 * length path + 3) + (if is_HashNode n then 1 else 0) \<le> fuel"

lemma fuel_ok_child:
  assumes "fuel_ok (Suc fuel) (Branch cs) (Branch ps) path" and "splitPath path = (i, q)"
    and "wf_node (Branch ps)"
  shows "fuel_ok fuel (cs ! i) (ps ! i) q"
  using assms unfolding wf_Branch by (cases path) (auto simp: fuel_ok_def)

lemma fuel_ok_next:
  assumes "fuel_ok (Suc fuel) (Extension k n) (Extension k p) path" and "k \<noteq> []" and "HasPrefix path k"
  shows "fuel_ok fuel n p (drop (length k) path)"
  using assms by (cases k) (auto simp: fuel_ok_def HasPrefix_iff)

lemma fuel_ok_loaded:
  "fuel_ok (Suc fuel) (HashNode h c) p path \<Longrightarrow> \<not> is_HashNode n \<Longrightarrow> fuel_ok fuel n p path"
  by (auto simp: fuel_ok_def)

lemma putIntoNode_sim:
  assumes "rep H (fetch t) n p" and "canonical p" and "nibbles path" and "fuel_ok fuel n p path"
  shows "updates H t (putIntoNode H fuel n path (Leaf v) t) p (tput p path v)"
  using assms
proof (induction fuel arbitrary: t n p path)
  case 0
  then show ?case by (auto simp: fuel_ok_def split: if_splits)
next
  case (Suc fuel)
  show ?case
  proof (cases n)
    case (Leaf u)
    then show ?thesis using Suc.prems putIntoLeaf_sim by simp
  next
    case Empty
    then have "p = Empty" using Suc.prems rep_Empty_iff by blast
    with Empty newSubTrie_new [of H path v t] show ?thesis
      by (cases "newSubTrie H path (Leaf v) True t")
        (auto simp: putIntoEmpty_def intro!: updates_intro)
  next
    case (HashNode h c)
    with Suc.prems(1) obtain m where m: "fetch t h = Some m" "\<not> is_HashNode m" "rep H (fetch t) m p"
      by (auto elim: rep_HashE)
    from fetch_getFromStore [OF m(1)] obtain t1 where t1: "getFromStore h t = (Inr m, t1)"
      "same_store t t1" "root t1 = root t" "\<And>h'. rc t1 h' = rc t h'" by metis
    have "updates H t1 (putIntoNode H fuel m path (Leaf v) t1) p (tput p path v)"
      using Suc.IH [of t1 m p path] Suc.prems m fetch_cong [OF t1(2)] fuel_ok_loaded HashNode by simp
    with t1 show ?thesis using HashNode updates_loaded by (simp add: putIntoHash_def)
  next
    case (Extension k m)
    with Suc.prems obtain q where [simp]: "p = Extension k q" and q: "rep H (fetch t) m q" by auto
    have wf: "k \<noteq> []" "nibbles k" "canonical q" using Suc.prems(2) by (auto simp: canonical_def)
    show ?thesis
    proof (cases "HasPrefix path k")
      case True
      define t1 where "t1 = removeNode H (Extension k m) t"
      have "updates H t1 (putIntoNode H fuel m (drop (length k) path) (Leaf v) t1) q (tput q (drop (length k) path) v)"
        using Suc.IH [of t1 m q] q wf Suc.prems(3,4) fuel_ok_next [OF _ wf(1) True] Extension
        by (simp add: t1_def)
      then obtain r t2 where r: "putIntoNode H fuel m (drop (length k) path) (Leaf v) t1 = (Inr r, t2)"
        "rep H (fetch t1) r (tput q (drop (length k) path) v)" "is_HashNode r \<Longrightarrow> is_Leaf (tput q (drop (length k) path) v)" "same_store t1 t2" "root t2 = root t1"
        "\<And>h. rc t2 h = rc t1 h + cnt H (tput q (drop (length k) path) v) h - cnt H q h"
        by (meson updates_elim)
      have repe: "rep H (fetch t) (Extension k r) (Extension k (tput q (drop (length k) path) v))"
        using r(2) by (simp add: t1_def)
      have "same_store t t2" using r(4) by (simp add: t1_def same_store_def)
      moreover have "rc t2 h = rc t h - one_at (NodeHash H p) h + cnt H (tput q (drop (length k) path) v) h - cnt H q h" for h
        using r(6) rep_NodeHash [OF Suc.prems(1)] Extension by (simp add: t1_def)
      ultimately have "updates H t (Inr (Extension k r), addNode H (Extension k r) t2) p (tput p path v)"
        using repe r(5) True by (intro updates_add) (simp_all add: t1_def)
      with True Extension r(1) show ?thesis
        by (simp add: putIntoExtension_def t1_def Let_def)
    next
      case False
      then show ?thesis using split_sim [OF wf(2) Suc.prems(3) False q] Extension by simp
    qed
  next
    case (Branch cs)
    with Suc.prems obtain ps where [simp]: "p = Branch ps" and len: "length cs = length ps"
      and ch: "\<And>i. i < length ps \<Longrightarrow> rep H (fetch t) (cs ! i) (ps ! i)" by auto
    have wf: "wf_node (Branch ps)" using Suc.prems(2) by (simp add: canonical_def)
    obtain i q where sp: "splitPath path = (i, q)" by fastforce
    have i: "i < length ps" "nibbles q"
      using splitPath_less [OF Suc.prems(3)] nibbles_splitPath [OF Suc.prems(3)] sp wf by simp_all
    define t1 where "t1 = removeNode H (Branch cs) t"
    let ?p' = "tput (ps ! i) q v"
    have "updates H t1 (putIntoNode H fuel (cs ! i) q (Leaf v) t1) (ps ! i) ?p'"
      using Suc.IH [of t1 "cs ! i" "ps ! i" q] ch i wf Suc.prems(4) fuel_ok_child [OF _ sp wf] Branch
        canonical_child [OF wf] by (simp add: t1_def)
    then obtain r t2 where r: "putIntoNode H fuel (cs ! i) q (Leaf v) t1 = (Inr r, t2)"
      "rep H (fetch t1) r ?p'" "is_HashNode r \<Longrightarrow> is_Leaf ?p'" "same_store t1 t2" "root t2 = root t1"
      "\<And>h. rc t2 h = rc t1 h + cnt H ?p' h - cnt H (ps ! i) h"
      by (meson updates_elim)
    have repb: "rep H (fetch t) (Branch (cs[i := r])) (Branch (ps[i := ?p']))"
      using r(2) ch len i by (auto simp: t1_def nth_list_update)
    have "same_store t t2" using r(4) by (simp add: t1_def same_store_def)
    moreover have "rc t2 h = rc t h - one_at (NodeHash H p) h + cnt H ?p' h - cnt H (ps ! i) h" for h
      using r(6) rep_NodeHash [OF Suc.prems(1)] Branch by (simp add: t1_def)
    ultimately have "updates H t (Inr (Branch (cs[i := r])), addNode H (Branch (cs[i := r])) t2) p (tput p path v)"
      using repb r(5) i by (intro updates_add) (simp_all add: t1_def sp sum_list_update)
    with Branch r(1) i len show ?thesis
      by (simp add: putIntoBranch_def sp t1_def Let_def)
  qed
qed

section \<open>Reading\<close>

definition reads :: "(bytes \<Rightarrow> hash) \<Rightarrow> trie \<Rightarrow> (node \<times> node \<times> bytes) result \<Rightarrow> node \<Rightarrow> bytes option \<Rightarrow> bool" where
  "reads H t r p v \<longleftrightarrow> (\<exists>t'. same_store t t' \<and> root t' = root t \<and> (\<forall>h. rc t' h = rc t h) \<and>
     (case v of
        None \<Rightarrow> r = (Inl ErrNotFound, t')
      | Some b \<Rightarrow> \<exists>n' pr. r = (Inr (n', Leaf b, pr), t') \<and> rep H (fetch t) n' p))"

lemma reads_loaded:
  assumes "same_store t t1" and "root t1 = root t" and "\<And>h. rc t1 h = rc t h" and "reads H t1 r p v"
  shows "reads H t r p v"
  using assms fetch_cong [OF assms(1)] same_store_trans [OF assms(1)]
  by (auto simp: reads_def split: option.splits)

lemma reads_refl:
  "reads H t (Inl ErrNotFound, t) p None"
  "rep H (fetch t) n p \<Longrightarrow> reads H t (Inr (n, Leaf b, pr), t) p (Some b)"
  by (auto simp: reads_def)

lemma getWithPath_sim:
  assumes "rep H (fetch t) n p" and "canonical p" and "nibbles path" and "fuel_ok fuel n p path"
  shows "reads H t (getWithPath fuel n path True t) p (lookup p path)"
  using assms
proof (induction fuel arbitrary: t n p path)
  case 0
  then show ?case by (auto simp: fuel_ok_def split: if_splits)
next
  case (Suc fuel)
  show ?case
  proof (cases n)
    case (Leaf u)
    then show ?thesis using Suc.prems by (auto intro: reads_refl)
  next
    case Empty
    then show ?thesis using Suc.prems by (auto intro: reads_refl)
  next
    case (HashNode h c)
    with Suc.prems(1) obtain m where m: "fetch t h = Some m" "\<not> is_HashNode m" "rep H (fetch t) m p"
      by (auto elim: rep_HashE)
    from fetch_getFromStore [OF m(1)] obtain t1 where t1: "getFromStore h t = (Inr m, t1)"
      "same_store t t1" "root t1 = root t" "\<And>h'. rc t1 h' = rc t h'" by metis
    have "reads H t1 (getWithPath fuel m path True t1) p (lookup p path)"
      using Suc.IH [of t1 m p path] Suc.prems m fetch_cong [OF t1(2)] fuel_ok_loaded HashNode by simp
    with t1 show ?thesis using HashNode reads_loaded by simp
  next
    case (Extension k m)
    with Suc.prems obtain q where [simp]: "p = Extension k q" and q: "rep H (fetch t) m q" by auto
    have wf: "k \<noteq> []" "canonical q" using Suc.prems(2) by (auto simp: canonical_def)
    show ?thesis
    proof (cases "HasPrefix path k")
      case True
      have "reads H t (getWithPath fuel m (drop (length k) path) True t) q (lookup q (drop (length k) path))"
        using Suc.IH [of t m q] q wf Suc.prems(3,4) fuel_ok_next [OF _ wf(1) True] Extension by simp
      with True Extension show ?thesis by (auto simp: reads_def split: option.splits)
    next
      case False
      then show ?thesis using Extension by (auto intro: reads_refl)
    qed
  next
    case (Branch cs)
    with Suc.prems obtain ps where [simp]: "p = Branch ps" and len: "length cs = length ps"
      and ch: "\<And>i. i < length ps \<Longrightarrow> rep H (fetch t) (cs ! i) (ps ! i)" by auto
    have wf: "wf_node (Branch ps)" using Suc.prems(2) by (simp add: canonical_def)
    obtain i q where sp: "splitPath path = (i, q)" by fastforce
    have i: "i < length ps" "nibbles q"
      using splitPath_less [OF Suc.prems(3)] nibbles_splitPath [OF Suc.prems(3)] sp wf by simp_all
    have "reads H t (getWithPath fuel (cs ! i) q True t) (ps ! i) (lookup (ps ! i) q)"
      using Suc.IH [of t "cs ! i" "ps ! i" q] ch i wf Suc.prems(4) fuel_ok_child [OF _ sp wf] Branch
        canonical_child [OF wf] by simp
    moreover have "rep H (fetch t) (Branch (cs[i := r])) (Branch ps)" if "rep H (fetch t) r (ps ! i)" for r
      using that ch len i by (auto simp: nth_list_update)
    ultimately show ?thesis using Branch i len by (auto simp: reads_def sp split: option.splits)
  qed
qed

section \<open>Deleting\<close>

lemma nonempty_at_snoc:
  "nonempty_at (cs @ [c]) = nonempty_at cs @ (if c = Empty then [] else [length cs])"
  by (auto simp: nonempty_at_def nth_append intro!: filter_cong)

lemma count_children_eq: "count_children cs = (length (nonempty_at cs), last (0 # nonempty_at cs))"
proof (induction cs rule: rev_induct)
  case Nil
  show ?case by (simp add: count_children_def nonempty_at_def)
next
  case (snoc c cs)
  then show ?case
    by (simp add: count_children_def nonempty_at_snoc enumerate_append_eq split_def)
qed

lemma rep_nonempty_at:
  assumes "length cs = length ps" and "\<And>i. i < length ps \<Longrightarrow> rep H f (cs ! i) (ps ! i)"
  shows "nonempty_at cs = nonempty_at ps"
  using assms by (auto simp: nonempty_at_def intro!: filter_cong) (metis rep_Empty_iff)+

lemma sum_list_single:
  fixes f :: "'a \<Rightarrow> i32"
  assumes "j < length xs" and "\<forall>i < length xs. i \<noteq> j \<longrightarrow> f (xs ! i) = 0"
  shows "sum_list (map f xs) = f (xs ! j)"
proof -
  have "sum_list (map f xs) = (\<Sum>i \<in> {0..<length xs}. f (xs ! i))"
    by (simp add: sum_list_sum_nth)
  also have "\<dots> = f (xs ! j) + (\<Sum>i \<in> {0..<length xs} - {j}. f (xs ! i))"
    using assms(1) by (intro sum.remove) simp_all
  also have "(\<Sum>i \<in> {0..<length xs} - {j}. f (xs ! i)) = 0"
    using assms(2) by (intro sum.neutral) simp
  finally show ?thesis by simp
qed

text \<open>The single child left over is pulled up under an extension.\<close>

definition pull_up :: "(bytes \<Rightarrow> hash) \<Rightarrow> nat \<Rightarrow> node \<Rightarrow> trie \<Rightarrow> node result" where
  "pull_up H index n t = bind_st (case n of
       HashNode h c \<Rightarrow> getFromStore h t
     | c \<Rightarrow> (Inr c, t)) (\<lambda>c t3. case c of
       Extension k m \<Rightarrow>
         (let e = Extension (of_nat index # k) m in (Inr e, addNode H e (removeNode H c t3)))
     | _ \<Rightarrow> (let e = NewExtensionNode [of_nat index] c in (Inr e, addNode H e t3)))"

lemma pull_up_sim:
  assumes "rep H (fetch t) n p" and "p \<noteq> Empty"
  shows "updates H t (pull_up H j n t) p (textend [of_nat j] p)"
proof -
  have step: "updates H t1 (pull_up H j m t1) p (textend [of_nat j] p)"
    if m: "rep H (fetch t1) m p" "\<not> is_HashNode m" for t1 m
  proof (cases m)
    case (Extension k m')
    with m obtain q where [simp]: "p = Extension k q" and q: "rep H (fetch t1) m' q" by auto
    show ?thesis
      using Extension q rep_NodeHash [OF m(1)]
      by (simp add: pull_up_def Let_def) (rule updates_add, auto)
  next
    case (Leaf v)
    then show ?thesis
      using m by (auto simp: pull_up_def NewExtensionNode_def tsub_def Let_def intro!: updates_add)
  next
    case (Branch cs)
    with m obtain ps where [simp]: "p = Branch ps" and "rep H (fetch t1) (Branch cs) (Branch ps)" by auto
    then show ?thesis
      using Branch by (auto simp: pull_up_def NewExtensionNode_def tsub_def Let_def
          intro!: updates_add simp del: cnt_simps(3))
  qed (use m assms(2) rep_Empty_iff in auto)
  show ?thesis
  proof (cases n)
    case (HashNode h c)
    with assms obtain m where m: "fetch t h = Some m" "\<not> is_HashNode m" "rep H (fetch t) m p"
      by (auto elim: rep_HashE)
    from fetch_getFromStore [OF m(1)] obtain t1 where t1: "getFromStore h t = (Inr m, t1)"
      "same_store t t1" "root t1 = root t" "\<And>h'. rc t1 h' = rc t h'" by metis
    have "pull_up H j n t = pull_up H j m t1"
      using HashNode t1(1) m(2) by (cases m) (simp_all add: pull_up_def)
    with step [of t1 m] m fetch_cong [OF t1(2)] updates_loaded [OF t1(2-4)] show ?thesis by simp
  qed (use step [of t n] assms(1) in auto)
qed

lemma updates_trans:
  assumes "updates H t1 r q p'" and "same_store t t1" and "root t1 = root t"
    and "\<And>h. rc t1 h = rc t h + cnt H q h - cnt H p h"
  shows "updates H t r p p'"
  using assms fetch_cong [OF assms(2)] same_store_trans [OF assms(2)] by (auto simp: updates_def)

lemma deleteFromBranch_run:
  assumes "splitPath path = (i, q)" and "i < length cs" and "deleteFrom (cs ! i) q t = (Inr r, t1)"
  shows "deleteFromBranch H deleteFrom cs path t =
     (let t2 = removeNode H (Branch cs) t1; cs' = cs[i := r] in
      case nonempty_at cs' of
        [j] \<Rightarrow> (if j = lastChild then (Inr (cs' ! j), t2) else pull_up H j (cs' ! j) t2)
      | [] \<Rightarrow> pull_up H 0 (cs' ! 0) t2
      | _ \<Rightarrow> (Inr (Branch cs'), addNode H (Branch cs') t2))"
proof -
  consider (none) "nonempty_at (cs[i := r]) = []" | (one) j where "nonempty_at (cs[i := r]) = [j]"
    | (more) a b xs where "nonempty_at (cs[i := r]) = a # b # xs"
    by (cases "nonempty_at (cs[i := r])"; cases "tl (nonempty_at (cs[i := r]))") auto
  then show ?thesis
  proof cases
    case none
    then have "count_children (cs[i := r]) = (0, 0)" by (simp add: count_children_eq)
    then show ?thesis
      using assms none by (simp add: deleteFromBranch_def pull_up_def Let_def mpt_consts)
  next
    case (one j)
    then have "count_children (cs[i := r]) = (1, j)" by (simp add: count_children_eq)
    then show ?thesis using assms one by (simp add: deleteFromBranch_def pull_up_def Let_def)
  next
    case more
    then have "count_children (cs[i := r]) = (Suc (Suc (length xs)), last (b # xs))"
      by (simp add: count_children_eq)
    then show ?thesis using assms more by (simp add: deleteFromBranch_def Let_def)
  qed
qed

lemma strip_sim:
  assumes loose: "loose ps" and ne: "\<exists>i < childrenCount. ps ! i \<noteq> Empty"
    and rep: "rep H (fetch t) (Branch cs) (Branch ps)"
    and run: "r = (case nonempty_at cs of
        [j] \<Rightarrow> (if j = lastChild then (Inr (cs ! j), t) else pull_up H j (cs ! j) t)
      | [] \<Rightarrow> pull_up H 0 (cs ! 0) t
      | _ \<Rightarrow> (Inr (Branch cs), addNode H (Branch cs) t))"
    and t0: "same_store t0 t" "root t = root t0"
    and p: "\<And>h. rc t h = rc t0 h + sum_list (map (\<lambda>c. cnt H c h) ps) - cnt H p h"
  shows "updates H t0 r p (tstrip ps)"
proof -
  have len: "length cs = length ps" "length ps = childrenCount"
    and ch: "\<And>i. i < length ps \<Longrightarrow> rep H (fetch t) (cs ! i) (ps ! i)"
    using rep loose by (auto simp: loose_def)
  have idx: "nonempty_at cs = nonempty_at ps" using rep_nonempty_at [OF len(1) ch] .
  consider (none) "nonempty_at ps = []" | (one) j where "nonempty_at ps = [j]"
    | (more) i j xs where "nonempty_at ps = i # j # xs"
    by (cases "nonempty_at ps"; cases "tl (nonempty_at ps)") auto
  then show ?thesis
  proof cases
    case none
    then have "set (nonempty_at ps) = {}" by simp
    with ne len show ?thesis by (auto simp: nonempty_at_set)
  next
    case (one j)
    have mem: "i \<in> set (nonempty_at ps) \<longleftrightarrow> i < length ps \<and> ps ! i \<noteq> Empty" for i
      by (simp add: nonempty_at_set)
    then have j: "j < length ps" "ps ! j \<noteq> Empty" "\<forall>i < length ps. i \<noteq> j \<longrightarrow> ps ! i = Empty"
      using one by auto
    have cnt: "rc t h = rc t0 h + cnt H (ps ! j) h - cnt H p h" for h
      using p sum_list_single [of j ps "\<lambda>c. cnt H c h"] j by simp
    have "updates H t0 (pull_up H j (cs ! j) t) p (textend [of_nat j] (ps ! j))"
      using updates_trans [OF pull_up_sim [OF ch [OF j(1)] j(2)] t0 cnt] .
    moreover have "updates H t0 (Inr (cs ! j), t) p (ps ! j)" if "j = lastChild"
      using ch [OF j(1)] cnt loose j(2) that t0 fetch_cong [OF t0(1)]
      by (auto simp: loose_def intro!: updates_intro)
    ultimately show ?thesis using one idx run by (auto simp: tstrip_def)
  next
    case more
    have "updates H t0 (Inr (Branch cs), addNode H (Branch cs) t) p (Branch ps)"
      using rep p t0 fetch_cong [OF t0(1)] by (intro updates_add) (simp_all del: rep_simps)
    then show ?thesis using more idx run by (simp add: tstrip_def)
  qed
qed

lemma join_sim:
  assumes "rep H (fetch t) r q" and "is_HashNode r \<Longrightarrow> is_Leaf q" and "k \<noteq> []"
  shows "updates H t (case r of
      Extension k' n' \<Rightarrow> (let e = Extension (k @ k') n' in (Inr e, addNode H e (removeNode H r t)))
    | Empty \<Rightarrow> (Inr Empty, t)
    | _ \<Rightarrow> (let e = Extension k r in (Inr e, addNode H e t))) q (textend k q)"
proof (cases r)
  case (Extension k' n')
  with assms obtain q' where [simp]: "q = Extension k' q'" and q': "rep H (fetch t) n' q'" by auto
  show ?thesis
    using Extension q' rep_NodeHash [OF assms(1)] by (simp add: Let_def) (rule updates_add, auto)
next
  case Empty
  then show ?thesis using assms by (auto intro!: updates_intro)
next
  case (HashNode h c)
  then obtain v where [simp]: "q = Leaf v" using assms(2) by (auto simp: is_Leaf_def)
  have e: "rep H (fetch t) (Extension k r) (Extension k (Leaf v))"
    using assms(1) by (auto intro: rep.intros)
  show ?thesis
    using HashNode e assms(3) by (simp add: Let_def tsub_def del: rep_simps) (rule updates_add, auto)
qed (use assms in \<open>auto simp: Let_def tsub_def intro!: updates_add\<close>)

lemma deleteFromNode_sim:
  assumes "rep H (fetch t) n p" and "canonical p" and "nibbles path" and "fuel_ok fuel n p path"
  shows "updates H t (deleteFromNode H fuel n path t) p (tdel p path)"
  using assms
proof (induction fuel arbitrary: t n p path)
  case 0
  then show ?case by (auto simp: fuel_ok_def split: if_splits)
next
  case (Suc fuel)
  show ?case
  proof (cases n)
    case (Leaf u)
    then show ?thesis using Suc.prems by (auto intro!: updates_intro)
  next
    case Empty
    then show ?thesis using Suc.prems by (auto intro!: updates_intro)
  next
    case (HashNode h c)
    with Suc.prems(1) obtain m where m: "fetch t h = Some m" "\<not> is_HashNode m" "rep H (fetch t) m p"
      by (auto elim: rep_HashE)
    from fetch_getFromStore [OF m(1)] obtain t1 where t1: "getFromStore h t = (Inr m, t1)"
      "same_store t t1" "root t1 = root t" "\<And>h'. rc t1 h' = rc t h'" by metis
    have "updates H t1 (deleteFromNode H fuel m path t1) p (tdel p path)"
      using Suc.IH [of t1 m p path] Suc.prems m fetch_cong [OF t1(2)] fuel_ok_loaded HashNode by simp
    with t1 show ?thesis using HashNode updates_loaded by simp
  next
    case (Extension k m)
    with Suc.prems obtain q where [simp]: "p = Extension k q" and q: "rep H (fetch t) m q" by auto
    have wf: "k \<noteq> []" "nibbles k" "canonical q" using Suc.prems(2) by (auto simp: canonical_def)
    show ?thesis
    proof (cases "HasPrefix path k")
      case True
      let ?q' = "tdel q (drop (length k) path)"
      have "updates H t (deleteFromNode H fuel m (drop (length k) path) t) q ?q'"
        using Suc.IH [of t m q] q wf Suc.prems(3,4) fuel_ok_next [OF _ wf(1) True] Extension by simp
      then obtain r t1 where r: "deleteFromNode H fuel m (drop (length k) path) t = (Inr r, t1)"
        "rep H (fetch t) r ?q'" "is_HashNode r \<Longrightarrow> is_Leaf ?q'" "same_store t t1" "root t1 = root t"
        "\<And>h. rc t1 h = rc t h + cnt H ?q' h - cnt H q h"
        by (meson updates_elim)
      define t2 where "t2 = removeNode H (Extension k m) t1"
      have t2: "same_store t t2" "root t2 = root t"
        "\<And>h. rc t2 h = rc t h + cnt H ?q' h - cnt H p h"
        using r(4-6) rep_NodeHash [OF Suc.prems(1)] Extension by (simp_all add: t2_def)
      have rep2: "rep H (fetch t2) r ?q'" using r(2) fetch_cong [OF t2(1)] by simp
      have "updates H t2 (case r of
          Extension k' n' \<Rightarrow>
            (let e = Extension (k @ k') n' in (Inr e, addNode H e (removeNode H r t2)))
        | Empty \<Rightarrow> (Inr Empty, t2)
        | _ \<Rightarrow> (let e = Extension k r in (Inr e, addNode H e t2))) ?q' (textend k ?q')"
        by (rule join_sim [OF rep2 r(3) wf(1)])
      then have "updates H t (case r of
          Extension k' n' \<Rightarrow>
            (let e = Extension (k @ k') n' in (Inr e, addNode H e (removeNode H r t2)))
        | Empty \<Rightarrow> (Inr Empty, t2)
        | _ \<Rightarrow> (let e = Extension k r in (Inr e, addNode H e t2))) p (textend k ?q')"
        using updates_trans t2 by blast
      then show ?thesis
        using True Extension r(1) unfolding t2_def by (simp add: deleteFromExtension_def Let_def)
    next
      case False
      then show ?thesis using Extension Suc.prems by (auto simp: deleteFromExtension_def intro!: updates_intro)
    qed
  next
    case (Branch cs)
    with Suc.prems obtain ps where [simp]: "p = Branch ps" and len: "length cs = length ps"
      and ch: "\<And>i. i < length ps \<Longrightarrow> rep H (fetch t) (cs ! i) (ps ! i)" by auto
    have wf: "wf_node (Branch ps)" using Suc.prems(2) by (simp add: canonical_def)
    obtain i q where sp: "splitPath path = (i, q)" by fastforce
    have i: "i < length ps" "nibbles q"
      using splitPath_less [OF Suc.prems(3)] nibbles_splitPath [OF Suc.prems(3)] sp wf by simp_all
    let ?p' = "tdel (ps ! i) q"
    have "updates H t (deleteFromNode H fuel (cs ! i) q t) (ps ! i) ?p'"
      using Suc.IH [of t "cs ! i" "ps ! i" q] ch i wf Suc.prems(4) fuel_ok_child [OF _ sp wf] Branch
        canonical_child [OF wf] by simp
    then obtain r t1 where r: "deleteFromNode H fuel (cs ! i) q t = (Inr r, t1)"
      "rep H (fetch t) r ?p'" "is_HashNode r \<Longrightarrow> is_Leaf ?p'" "same_store t t1" "root t1 = root t"
      "\<And>h. rc t1 h = rc t h + cnt H ?p' h - cnt H (ps ! i) h"
      by (meson updates_elim)
    define t2 where "t2 = removeNode H (Branch cs) t1"
    have t2: "same_store t t2" "root t2 = root t"
      "\<And>h. rc t2 h = rc t h + sum_list (map (\<lambda>c. cnt H c h) (ps[i := ?p'])) - cnt H p h"
      using r(4-6) rep_NodeHash [OF Suc.prems(1)] Branch i by (simp_all add: t2_def sum_list_update)
    have rep2: "rep H (fetch t2) (Branch (cs[i := r])) (Branch (ps[i := ?p']))"
      using r(2) ch len i fetch_cong [OF t2(1)] by (auto simp: nth_list_update)
    have "i = lastChild \<longrightarrow> ?p' = Empty"
      using wf sp Suc.prems(3) unfolding wf_Branch by (cases path; cases "ps ! lastChild") auto
    then have loose: "loose (ps[i := ?p'])"
      using wf_Branch_loose [OF wf] canonical_tdel [OF canonical_child [OF wf], of i q] i wf
      by (auto simp: loose_def nth_list_update)
    have "\<exists>j < childrenCount. ps[i := ?p'] ! j \<noteq> Empty"
      using wf unfolding wf_Branch by (metis nth_list_update_neq)
    from strip_sim [OF loose this rep2 refl t2]
    show ?thesis
      using Branch deleteFromBranch_run [OF sp, of cs "deleteFromNode H fuel", OF _ r(1)] i len
      unfolding t2_def by (simp add: sp Let_def del: cnt_simps)
  qed
qed

end
