(* ===== verification/MptProps.thy ===== *)
theory MptProps
  imports MptRefine
begin

text \<open>
  The contract of the trie and its properties. The locale \<open>authenticated_map\<close> is the interface
  the ledger relies on: a map that can be updated by puts and deletions and whose digest is a
  function of its contents. The trie over a store is an interpretation of it, with any store
  and storage mode, and the order of updates therefore does not influence the state root.
\<close>

section \<open>The interface\<close>

locale authenticated_map =
  fixes content :: "'s \<Rightarrow> bytes \<Rightarrow> bytes option"
    and digest :: "'s \<Rightarrow> hash"
    and apply_change :: "bytes \<times> bytes option \<Rightarrow> 's \<Rightarrow> ('e + unit) \<times> 's"
    and read :: "bytes \<Rightarrow> 's \<Rightarrow> ('e + bytes) \<times> 's"
    and inv :: "'s \<Rightarrow> bool"
    and change_ok :: "bytes \<times> bytes option \<Rightarrow> bool"
    and key_ok :: "bytes \<Rightarrow> bool"
  assumes change_law: "inv s \<Longrightarrow> change_ok c \<Longrightarrow>
      \<exists>s'. apply_change c s = (Inr (), s') \<and> inv s' \<and> content s' = (content s)(fst c := snd c)"
    and read_law: "inv s \<Longrightarrow> key_ok k \<Longrightarrow>
      \<exists>s'. inv s' \<and> content s' = content s \<and> digest s' = digest s \<and>
        (case content s k of Some v \<Rightarrow> read k s = (Inr v, s') | None \<Rightarrow> \<exists>e. read k s = (Inl e, s'))"
    and digest_law: "inv s \<Longrightarrow> inv s' \<Longrightarrow> content s = content s' \<Longrightarrow> digest s = digest s'"
begin

fun run :: "(bytes \<times> bytes option) list \<Rightarrow> 's \<Rightarrow> ('e + unit) \<times> 's" where
  "run [] s = (Inr (), s)"
| "run (c # cs) s = bind_st (apply_change c s) (\<lambda>_ s'. run cs s')"

lemma run_content:
  assumes "inv s" and "\<forall>c \<in> set cs. change_ok c"
  shows "\<exists>s'. run cs s = (Inr (), s') \<and> inv s' \<and>
     content s' = (\<lambda>k. case map_of (rev cs) k of Some v \<Rightarrow> v | None \<Rightarrow> content s k)"
  using assms
proof (induction cs arbitrary: s)
  case (Cons c cs)
  then obtain s1 where s1: "apply_change c s = (Inr (), s1)" "inv s1" "content s1 = (content s)(fst c := snd c)"
    using change_law [of s c] by auto
  with Cons.IH [of s1] Cons.prems obtain s2 where "run cs s1 = (Inr (), s2)" "inv s2"
    "content s2 = (\<lambda>k. case map_of (rev cs) k of Some v \<Rightarrow> v | None \<Rightarrow> content s1 k)" by auto
  with s1 show ?case by (auto simp: map_add_def fun_eq_iff split: option.splits)
qed simp

text \<open>Whatever the order of the changes, the same final contents have the same digest.\<close>

lemma run_confluent:
  assumes "inv s" and "inv s'" and "\<forall>c \<in> set cs \<union> set ds. change_ok c"
    and "\<And>k. (case map_of (rev cs) k of Some v \<Rightarrow> v | None \<Rightarrow> content s k) =
              (case map_of (rev ds) k of Some v \<Rightarrow> v | None \<Rightarrow> content s' k)"
  shows "\<exists>a b. run cs s = (Inr (), a) \<and> run ds s' = (Inr (), b) \<and> digest a = digest b"
proof -
  obtain a where a: "run cs s = (Inr (), a)" "inv a"
    "content a = (\<lambda>k. case map_of (rev cs) k of Some v \<Rightarrow> v | None \<Rightarrow> content s k)"
    using run_content assms by blast
  obtain b where b: "run ds s' = (Inr (), b)" "inv b"
    "content b = (\<lambda>k. case map_of (rev ds) k of Some v \<Rightarrow> v | None \<Rightarrow> content s' k)"
    using run_content assms by blast
  have "content a = content b" unfolding a(3) b(3) using assms(4) by blast
  with a b digest_law [of a b] show ?thesis by simp
qed

end

section \<open>The trie provides it\<close>

definition stands_for :: "(bytes \<Rightarrow> hash) \<Rightarrow> trie \<Rightarrow> node \<Rightarrow> bool" where
  "stands_for H t p \<longleftrightarrow> rep H (fetch t) (root t) p \<and> canonical p"

definition trie_fuel :: nat where
  "trie_fuel = 2 * maxPathLength + 4"

definition trie_change :: "(bytes \<Rightarrow> hash) \<Rightarrow> bytes \<times> bytes option \<Rightarrow> trie \<Rightarrow> unit result" where
  "trie_change H c t = (case c of
     (k, Some v) \<Rightarrow> TriePut H trie_fuel k (Some v) t
   | (k, None) \<Rightarrow> TrieDelete H trie_fuel k t)"

fun change_ok :: "bytes \<times> bytes option \<Rightarrow> bool" where
  "change_ok (k, v) \<longleftrightarrow> k \<noteq> [] \<and> length k \<le> MaxKeyLength \<and>
     (case v of None \<Rightarrow> True | Some b \<Rightarrow> length b \<le> MaxValueLength)"

definition fuel_for :: "bytes \<Rightarrow> nat" where
  "fuel_for ky = 4 * length ky + 4"

lemma fuel_for_ok: "fuel_for ky \<le> fuel \<Longrightarrow> fuel_ok fuel n p (toNibbles ky)"
  by (auto simp: fuel_ok_def fuel_for_def)

lemma trie_fuel_ok: "length ky \<le> MaxKeyLength \<Longrightarrow> fuel_for ky \<le> trie_fuel"
  by (simp add: fuel_for_def trie_fuel_def mpt_consts)

lemma fetch_root [simp]: "fetch (t\<lparr>root := r\<rparr>) = fetch t"
  by (rule fetch_cong) (simp add: same_store_def)

lemma rc_root [simp]: "rc (t\<lparr>root := r\<rparr>) h = rc t h"
  by (simp add: rc_def)

lemma TriePut_sim:
  assumes "stands_for H t p" and "change_ok (ky, Some v)" and "fuel_for ky \<le> fuel"
  shows "\<exists>t'. TriePut H fuel ky (Some v) t = (Inr (), t') \<and> same_store t t' \<and>
     stands_for H t' (tput p (toNibbles ky) v) \<and>
     (\<forall>h. rc t' h = rc t h + cnt H (tput p (toNibbles ky) v) h - cnt H p h)"
proof -
  have p: "rep H (fetch t) (root t) p" "canonical p" using assms(1) by (simp_all add: stands_for_def)
  let ?p' = "tput p (toNibbles ky) v"
  have "updates H t (putIntoNode H fuel (root t) (toNibbles ky) (Leaf v) t) p ?p'"
    using putIntoNode_sim [OF p] fuel_for_ok [OF assms(3)] by simp
  then obtain r t1 where r: "putIntoNode H fuel (root t) (toNibbles ky) (Leaf v) t = (Inr r, t1)"
    "rep H (fetch t) r ?p'" "same_store t t1" "\<And>h. rc t1 h = rc t h + cnt H ?p' h - cnt H p h"
    by (meson updates_elim)
  have "canonical ?p'" using wf_tput [OF p(2)] by (simp add: canonical_wf)
  with r assms(2) fetch_cong [OF r(3)] show ?thesis
    by (simp add: TriePut_def NewLeafNode_def stands_for_def same_store_def)
qed

lemma TrieDelete_sim:
  assumes "stands_for H t p" and "length ky \<le> MaxKeyLength" and "fuel_for ky \<le> fuel"
  shows "\<exists>t'. TrieDelete H fuel ky t = (Inr (), t') \<and> same_store t t' \<and>
     stands_for H t' (tdel p (toNibbles ky)) \<and>
     (\<forall>h. rc t' h = rc t h + cnt H (tdel p (toNibbles ky)) h - cnt H p h)"
proof -
  have p: "rep H (fetch t) (root t) p" "canonical p" using assms(1) by (simp_all add: stands_for_def)
  let ?p' = "tdel p (toNibbles ky)"
  have "updates H t (deleteFromNode H fuel (root t) (toNibbles ky) t) p ?p'"
    using deleteFromNode_sim [OF p] fuel_for_ok [OF assms(3)] by simp
  then obtain r t1 where r: "deleteFromNode H fuel (root t) (toNibbles ky) t = (Inr r, t1)"
    "rep H (fetch t) r ?p'" "same_store t t1" "\<And>h. rc t1 h = rc t h + cnt H ?p' h - cnt H p h"
    by (meson updates_elim)
  have "canonical ?p'" using canonical_tdel [OF p(2)] by simp
  with r assms(2) fetch_cong [OF r(3)] show ?thesis
    by (simp add: TrieDelete_def stands_for_def same_store_def)
qed

lemma TrieGet_sim:
  assumes "stands_for H t p" and "length ky \<le> MaxKeyLength" and "fuel_for ky \<le> fuel"
  shows "\<exists>t'. same_store t t' \<and> stands_for H t' p \<and> (\<forall>h. rc t' h = rc t h) \<and>
     TrieGet fuel ky t = (case lookup p (toNibbles ky) of
       Some v \<Rightarrow> (Inr v, t') | None \<Rightarrow> (Inl ErrNotFound, t'))"
proof -
  have p: "rep H (fetch t) (root t) p" "canonical p" using assms(1) by (simp_all add: stands_for_def)
  have "reads H t (getWithPath fuel (root t) (toNibbles ky) True t) p (lookup p (toNibbles ky))"
    using getWithPath_sim [OF p] fuel_for_ok [OF assms(3)] by simp
  then obtain t1 where t1: "same_store t t1" "root t1 = root t" "\<forall>h. rc t1 h = rc t h"
    and res: "case lookup p (toNibbles ky) of
        None \<Rightarrow> getWithPath fuel (root t) (toNibbles ky) True t = (Inl ErrNotFound, t1)
      | Some b \<Rightarrow> \<exists>n' pr. getWithPath fuel (root t) (toNibbles ky) True t = (Inr (n', Leaf b, pr), t1) \<and>
          rep H (fetch t) n' p"
    unfolding reads_def by blast
  show ?thesis
  proof (cases "lookup p (toNibbles ky)")
    case None
    with res t1 p assms(2) fetch_cong [OF t1(1)] show ?thesis
      by (intro exI [of _ t1]) (simp add: TrieGet_def stands_for_def)
  next
    case (Some b)
    with res obtain n' pr where "getWithPath fuel (root t) (toNibbles ky) True t = (Inr (n', Leaf b, pr), t1)"
      "rep H (fetch t) n' p" by auto
    with Some t1 p assms(2) fetch_cong [OF t1(1)] show ?thesis
      by (intro exI [of _ "t1\<lparr>root := n'\<rparr>"]) (simp add: TrieGet_def stands_for_def Copy_def same_store_def)
  qed
qed

text \<open>The paths of a trie built through its interface are the nibbles of byte keys.\<close>

definition byte_keyed :: "node \<Rightarrow> bool" where
  "byte_keyed p \<longleftrightarrow> (\<forall>q. nibbles q \<longrightarrow> lookup p q \<noteq> None \<longrightarrow> (\<exists>ky. q = toNibbles ky))"

definition trie_inv :: "(bytes \<Rightarrow> hash) \<Rightarrow> trie \<Rightarrow> bool" where
  "trie_inv H t \<longleftrightarrow> (\<exists>p. stands_for H t p \<and> byte_keyed p)"

lemma rep_unique: "rep H f n p \<Longrightarrow> rep H f n q \<Longrightarrow> p = q"
proof (induction arbitrary: q rule: rep.induct)
  case (rep_Branch cs ps)
  from rep_Branch.prems obtain qs where q: "q = Branch qs" "length cs = length qs"
    "\<forall>i < length qs. rep H f (cs ! i) (qs ! i)" by (rule rep_BranchE) blast
  have "ps ! i = qs ! i" if i: "i < length ps" for i
  proof -
    have "rep H f (cs ! i) (qs ! i)" using q(2,3) rep_Branch.hyps(1) i by metis
    then show ?thesis using rep_Branch.IH i by blast
  qed
  with q rep_Branch.hyps show ?case by (simp add: nth_equalityI)
next
  case (rep_Hash h n p c)
  from rep_Hash.prems rep_Hash.hyps(1) have "rep H f n q" by (auto elim: rep_HashE)
  then show ?case using rep_Hash.IH by blast
next
  case (rep_Extension n p k)
  from rep_Extension.prems obtain q' where q': "q = Extension k q'" "rep H f n q'"
    by (rule rep_ExtensionE) blast
  then show ?case using rep_Extension.IH by blast
qed simp_all

definition trie_content :: "(bytes \<Rightarrow> hash) \<Rightarrow> trie \<Rightarrow> bytes \<Rightarrow> bytes option" where
  "trie_content H t ky = lookup (THE p. stands_for H t p) (toNibbles ky)"

lemma trie_content_eq: "stands_for H t p \<Longrightarrow> trie_content H t ky = lookup p (toNibbles ky)"
proof -
  assume p: "stands_for H t p"
  then have "(THE p. stands_for H t p) = p"
    by (intro the_equality) (auto simp: stands_for_def dest: rep_unique)
  then show ?thesis by (simp add: trie_content_def)
qed

lemma byte_keyed_tput: "canonical p \<Longrightarrow> byte_keyed p \<Longrightarrow> byte_keyed (tput p (toNibbles ky) v)"
  by (auto simp: byte_keyed_def lookup_tput)

lemma byte_keyed_tdel: "canonical p \<Longrightarrow> byte_keyed p \<Longrightarrow> byte_keyed (tdel p (toNibbles ky))"
  by (auto simp: byte_keyed_def lookup_tdel split: if_splits)

lemma StateRoot_eq:
  assumes "stands_for H t p"
  shows "StateRoot H t = (if p = Empty then replicate 32 0 else NodeHash H p)"
  using assms rep_Empty_iff [of H "fetch t" "root t" p] rep_NodeHash [of H "fetch t" "root t" p]
  by (simp add: StateRoot_def stands_for_def)

lemma byte_keyed_same_map:
  assumes "byte_keyed p" and "byte_keyed q" and "\<And>ky. lookup p (toNibbles ky) = lookup q (toNibbles ky)"
  shows "same_map p q"
  unfolding same_map_def
proof (intro allI impI)
  fix r assume "nibbles r"
  then show "lookup p r = lookup q r"
    using assms unfolding byte_keyed_def by (metis not_None_eq)
qed

interpretation mpt: authenticated_map
  "trie_content H" "StateRoot H" "trie_change H" "TrieGet trie_fuel" "trie_inv H"
  change_ok "\<lambda>k. length k \<le> MaxKeyLength"
proof unfold_locales
  fix t c assume "trie_inv H t" and ok: "change_ok c"
  then obtain p where p: "stands_for H t p" "byte_keyed p" "canonical p"
    by (auto simp: trie_inv_def stands_for_def)
  obtain ky v where c: "c = (ky, v)" by fastforce
  have len: "length ky \<le> MaxKeyLength" using ok c by simp
  let ?p' = "case v of Some b \<Rightarrow> tput p (toNibbles ky) b | None \<Rightarrow> tdel p (toNibbles ky)"
  have "\<exists>t'. trie_change H c t = (Inr (), t') \<and> stands_for H t' ?p'"
    using TriePut_sim [OF p(1), of ky] TrieDelete_sim [OF p(1) len] trie_fuel_ok [OF len] ok
    by (cases v) (fastforce simp: trie_change_def c)+
  then obtain t' where t': "trie_change H c t = (Inr (), t')" "stands_for H t' ?p'" by blast
  moreover have "byte_keyed ?p'"
    using byte_keyed_tput [OF p(3,2)] byte_keyed_tdel [OF p(3,2)] by (cases v) simp_all
  moreover have "trie_content H t' = (trie_content H t)(fst c := snd c)"
    using trie_content_eq [OF p(1)] trie_content_eq [OF t'(2)] p(3)
    by (cases v) (auto simp: fun_eq_iff c lookup_tput lookup_tdel)
  ultimately show "\<exists>s'. trie_change H c t = (Inr (), s') \<and> trie_inv H s' \<and>
      trie_content H s' = (trie_content H t)(fst c := snd c)"
    by (auto simp: trie_inv_def)
next
  fix t and ky :: bytes assume "trie_inv H t" and len: "length ky \<le> MaxKeyLength"
  then obtain p where p: "stands_for H t p" "byte_keyed p" by (auto simp: trie_inv_def)
  obtain t' where t': "stands_for H t' p" "TrieGet trie_fuel ky t = (case lookup p (toNibbles ky) of
       Some v \<Rightarrow> (Inr v, t') | None \<Rightarrow> (Inl ErrNotFound, t'))"
    using TrieGet_sim [OF p(1) len trie_fuel_ok [OF len]] by blast
  have "trie_content H t' = trie_content H t" "StateRoot H t' = StateRoot H t"
    using trie_content_eq [OF p(1)] trie_content_eq [OF t'(1)] StateRoot_eq [OF p(1)] StateRoot_eq [OF t'(1)]
    by (auto simp: fun_eq_iff)
  with p t' trie_content_eq [OF p(1), of ky] show "\<exists>s'. trie_inv H s' \<and> trie_content H s' = trie_content H t \<and>
      StateRoot H s' = StateRoot H t \<and> (case trie_content H t ky of
        Some v \<Rightarrow> TrieGet trie_fuel ky t = (Inr v, s') | None \<Rightarrow> \<exists>e. TrieGet trie_fuel ky t = (Inl e, s'))"
    by (intro exI [of _ t']) (auto simp: trie_inv_def split: option.splits)
next
  fix t t' assume "trie_inv H t" "trie_inv H t'" and eq: "trie_content H t = trie_content H t'"
  then obtain p q where p: "stands_for H t p" "byte_keyed p" and q: "stands_for H t' q" "byte_keyed q"
    by (auto simp: trie_inv_def)
  have "same_map p q"
    using byte_keyed_same_map [OF p(2) q(2)] eq trie_content_eq [OF p(1)] trie_content_eq [OF q(1)]
    by (simp add: fun_eq_iff)
  then have "p = q" using canonical_unique p q by (auto simp: stands_for_def)
  then show "StateRoot H t = StateRoot H t'" using StateRoot_eq [OF p(1)] StateRoot_eq [OF q(1)] by simp
qed

section \<open>Properties\<close>

text \<open>
  C4. \<open>Put\<close> on a trie whose unresolved nodes are all in the store succeeds, whatever the
  storage mode, and afterwards \<open>Get\<close> returns the new value for that key and the same answer as
  before for every other key. The fuel needed is linear in the length of the key.
\<close>

theorem get_after_put:
  assumes "stands_for H t p" and "change_ok (ky, Some v)" and "fuel_for ky \<le> fuel"
  shows "\<exists>t'. TriePut H fuel ky (Some v) t = (Inr (), t') \<and>
     (\<forall>k. length k \<le> MaxKeyLength \<longrightarrow>
        fst (TrieGet (fuel_for k) k t') = (if k = ky then Inr v else fst (TrieGet (fuel_for k) k t)))"
proof -
  obtain t' where t': "TriePut H fuel ky (Some v) t = (Inr (), t')" "stands_for H t' (tput p (toNibbles ky) v)"
    using TriePut_sim [OF assms] by blast
  have "fst (TrieGet (fuel_for k) k t') = (if k = ky then Inr v else fst (TrieGet (fuel_for k) k t))"
    if "length k \<le> MaxKeyLength" for k
    using TrieGet_sim [OF t'(2) that order_refl] TrieGet_sim [OF assms(1) that order_refl] assms(1)
    by (auto simp: stands_for_def lookup_tput split: option.splits)
  with t'(1) show ?thesis by blast
qed

text \<open>A trie of one pair whose leaf is only in the store.\<close>

definition sample_trie :: trie where
  "sample_trie = NewTrie (Some (Extension [1, 2] (HashNode (pad32 [2, 1, 7]) False))) ModeAll
     (MemCachedStore \<lparr>mem = [(DataMPT # pad32 [2, 1, 7], Some [2, 1, 7])], stor = []\<rparr> False
        (MemoryStore NewMemoryStore))"

lemma sample_trie_stands_for: "stands_for pad32 sample_trie (Extension [1, 2] (Leaf [7]))"
proof -
  have bytes: "NodeBytes pad32 (Leaf [7]) = [2, 1, 7]"
    by (simp add: NodeBytes_eq node_type_defs var_bytes_def var_uint_def)
  then have "fetch sample_trie (pad32 [2, 1, 7]) = Some (Leaf [7])"
    using fetch_stored [of pad32 "Leaf [7]" "pad32 [2, 1, 7]" sample_trie "[]"]
    by (simp add: sample_trie_def NewTrie_def mpt_consts getData_def makeStorageKey_def chooseMap_def StoreGet.simps
        inStor_def DataMPT_def STStorage_def STTempStorage_def GC_def RC_def ModeAll_def)
  moreover have "NodeHash pad32 (Leaf [7]) = pad32 [2, 1, 7]" using bytes by (simp add: NodeHash_eq)
  ultimately show ?thesis
    by (auto simp: stands_for_def canonical_def sample_trie_def NewTrie_def intro!: rep_Hash rep_Leaf)
qed

theorem get_after_put_witness:
  "\<exists>t'. TriePut pad32 8 [0x34] (Some [5]) sample_trie = (Inr (), t') \<and>
     (\<forall>k. length k \<le> MaxKeyLength \<longrightarrow> fst (TrieGet (fuel_for k) k t') =
        (if k = [0x34] then Inr [5] else fst (TrieGet (fuel_for k) k sample_trie)))"
  by (rule get_after_put [OF sample_trie_stands_for]) (simp_all add: fuel_for_def mpt_consts)

text \<open>
  C5. \<open>Delete\<close> succeeds as well, for present and for absent keys; afterwards \<open>Get\<close> finds
  nothing under that key and every other key unchanged.
\<close>

theorem get_after_delete:
  assumes "stands_for H t p" and "length ky \<le> MaxKeyLength" and "fuel_for ky \<le> fuel"
  shows "\<exists>t'. TrieDelete H fuel ky t = (Inr (), t') \<and>
     (\<forall>k. length k \<le> MaxKeyLength \<longrightarrow>
        fst (TrieGet (fuel_for k) k t') =
          (if k = ky then Inl ErrNotFound else fst (TrieGet (fuel_for k) k t)))"
proof -
  obtain t' where t': "TrieDelete H fuel ky t = (Inr (), t')" "stands_for H t' (tdel p (toNibbles ky))"
    using TrieDelete_sim [OF assms] by blast
  have "fst (TrieGet (fuel_for k) k t') =
      (if k = ky then Inl ErrNotFound else fst (TrieGet (fuel_for k) k t))"
    if "length k \<le> MaxKeyLength" for k
    using TrieGet_sim [OF t'(2) that order_refl] TrieGet_sim [OF assms(1) that order_refl] assms(1)
    by (auto simp: stands_for_def lookup_tdel split: option.splits)
  with t'(1) show ?thesis by blast
qed

theorem get_after_delete_witness:
  "\<exists>t'. TrieDelete pad32 8 [0x12] sample_trie = (Inr (), t') \<and>
     (\<forall>k. length k \<le> MaxKeyLength \<longrightarrow> fst (TrieGet (fuel_for k) k t') =
        (if k = [0x12] then Inl ErrNotFound else fst (TrieGet (fuel_for k) k sample_trie)))"
  by (rule get_after_delete [OF sample_trie_stands_for]) (simp_all add: fuel_for_def mpt_consts)

text \<open>A sequence of changes, and the map it leaves behind on an empty trie.\<close>

primrec run_changes :: "(bytes \<Rightarrow> hash) \<Rightarrow> (bytes \<times> bytes option) list \<Rightarrow> trie \<Rightarrow> unit result" where
  "run_changes H [] t = (Inr (), t)"
| "run_changes H (c # cs) t = bind_st (trie_change H c t) (\<lambda>_ t'. run_changes H cs t')"

definition final_map :: "(bytes \<times> bytes option) list \<Rightarrow> bytes \<Rightarrow> bytes option" where
  "final_map cs k = (case map_of (rev cs) k of Some v \<Rightarrow> v | None \<Rightarrow> None)"

lemma run_changes_eq: "run_changes H cs t = mpt.run H cs t"
  by (induction cs arbitrary: t) simp_all

lemma NewTrie_inv: "trie_inv H (NewTrie None m st)" "trie_content H (NewTrie None m st) k = None"
proof -
  have "stands_for H (NewTrie None m st) Empty"
    by (simp add: stands_for_def canonical_def NewTrie_def)
  then show "trie_inv H (NewTrie None m st)" "trie_content H (NewTrie None m st) k = None"
    by (auto simp: trie_inv_def byte_keyed_def trie_content_eq)
qed

text \<open>
  C3. There is a single state root for every set of key-value pairs: two sequences of puts and
  deletions that leave the same pairs behind, in whatever order, with whatever detours and in
  whatever storage modes, both succeed and end with equal state roots.
\<close>

theorem state_root_history_independent:
  assumes "\<forall>c \<in> set cs. change_ok c" and "\<forall>c \<in> set ds. change_ok c" and "final_map cs = final_map ds"
  shows "\<exists>t1 t2. run_changes H cs (NewTrie None m st) = (Inr (), t1) \<and>
     run_changes H ds (NewTrie None m' st') = (Inr (), t2) \<and> StateRoot H t1 = StateRoot H t2"
  unfolding run_changes_eq
proof (rule mpt.run_confluent)
  show "(case map_of (rev cs) k of Some v \<Rightarrow> v | None \<Rightarrow> trie_content H (NewTrie None m st) k) =
      (case map_of (rev ds) k of Some v \<Rightarrow> v | None \<Rightarrow> trie_content H (NewTrie None m' st') k)" for k
    using fun_cong [OF assms(3), of k] unfolding final_map_def NewTrie_inv(2) .
qed (use assms NewTrie_inv in auto)

theorem state_root_history_independent_witness:
  "\<exists>t1 t2. run_changes pad32 [([1], Some [5]), ([2], Some [6]), ([1], None)]
       (NewTrie None ModeAll (MemoryStore NewMemoryStore)) = (Inr (), t1) \<and>
     run_changes pad32 [([2], Some [6])]
       (NewTrie None ModeLatest (MemoryStore NewMemoryStore)) = (Inr (), t2) \<and>
     StateRoot pad32 t1 = StateRoot pad32 t2"
  by (rule state_root_history_independent)
    (simp_all add: mpt_consts final_map_def fun_eq_iff)

text \<open>
  C27. The reference counts collected by \<open>Put\<close> and \<open>Delete\<close> are exact: after any sequence
  of changes to an empty trie the count of every hash is the number of nodes of the resulting
  trie that have this hash, so a flush stores every node and nothing else.
\<close>

theorem refcounts_exact:
  assumes "\<forall>c \<in> set cs. change_ok c"
  shows "\<exists>t p. run_changes H cs (NewTrie None m st) = (Inr (), t) \<and> stands_for H t p \<and>
     (\<forall>h. rc t h = of_nat (count (occ H p) h))"
proof -
  have "\<exists>t' p'. run_changes H cs t = (Inr (), t') \<and> stands_for H t' p' \<and>
     (\<forall>h. rc t' h = rc t h + cnt H p' h - cnt H p h)" if "stands_for H t p" for t p
    using assms that
  proof (induction cs arbitrary: t p)
    case (Cons c cs)
    obtain ky v where c: "c = (ky, v)" by fastforce
    have ok: "change_ok c" "length ky \<le> MaxKeyLength" using Cons.prems c by simp_all
    have "\<exists>t1 p1. trie_change H c t = (Inr (), t1) \<and> stands_for H t1 p1 \<and>
        (\<forall>h. rc t1 h = rc t h + cnt H p1 h - cnt H p h)"
      using TriePut_sim [OF Cons.prems(2), of ky] TrieDelete_sim [OF Cons.prems(2) ok(2)]
        trie_fuel_ok [OF ok(2)] ok(1)
      by (cases v) (fastforce simp: trie_change_def c)+
    then obtain t1 p1 where t1: "trie_change H c t = (Inr (), t1)" "stands_for H t1 p1"
      "\<forall>h. rc t1 h = rc t h + cnt H p1 h - cnt H p h" by blast
    with Cons.IH [of t1 p1] Cons.prems(1) show ?case by auto
  qed auto
  from this [of "NewTrie None m st" Empty] show ?thesis
    by (auto simp: stands_for_def canonical_def NewTrie_def rc_def cnt_def)
qed

theorem refcounts_exact_witness:
  "\<exists>t p. run_changes pad32 [([1], Some [5]), ([2], Some [6]), ([1], None)]
       (NewTrie None ModeAll (MemoryStore NewMemoryStore)) = (Inr (), t) \<and> stands_for pad32 t p \<and>
     (\<forall>h. rc t h = of_nat (count (occ pad32 p) h))"
  by (rule refcounts_exact) (simp add: mpt_consts)

end
