(* ===== verification/MptProof.thy ===== *)
theory MptProof
  imports MptProps
begin

text \<open>
  Inclusion proofs: src/pkg/core/mpt/proof.go. \<open>GetProof\<close> collects the encodings of the nodes
  on the path to a key, \<open>VerifyProof\<close> puts them into a fresh store under their hashes and
  looks the key up from the root hash. Verification is complete, sound as long as the hash has
  no collision among the byte strings involved, and does not return on a proof that consists
  of the encoding of a hash node.
\<close>

section \<open>Operations\<close>

text \<open>The collected proof is returned with an error too.\<close>

primrec getProof :: "(bytes \<Rightarrow> hash) \<Rightarrow> nat \<Rightarrow> node \<Rightarrow> bytes \<Rightarrow> bytes list \<Rightarrow> trie \<Rightarrow>
    (mpt_error + node) \<times> bytes list \<times> trie" where
  "getProof H 0 cur path proofs t = (Inl OutOfFuel, proofs, t)"
| "getProof H (Suc fuel) cur path proofs t = (case cur of
     Leaf v \<Rightarrow> if path = [] then (Inr cur, proofs @ [Copy (NodeBytes H cur)], t)
       else (Inl ErrNotFound, proofs, t)
   | Branch cs \<Rightarrow>
       (let proofs1 = proofs @ [Copy (NodeBytes H cur)]; (i, q) = splitPath path in
        if i \<ge> length cs then (Inl (Panic ''index out of range''), proofs1, t)
        else case getProof H fuel (cs ! i) q proofs1 t of
          (Inl e, ps, t1) \<Rightarrow> (Inl e, ps, t1)
        | (Inr r, ps, t1) \<Rightarrow> (Inr (Branch (cs[i := r])), ps, t1))
   | Extension k n \<Rightarrow>
       if HasPrefix path k then
         (case getProof H fuel n (drop (length k) path) (proofs @ [Copy (NodeBytes H cur)]) t of
            (Inl e, ps, t1) \<Rightarrow> (Inl e, ps, t1)
          | (Inr r, ps, t1) \<Rightarrow> (Inr (Extension k r), ps, t1))
       else (Inl ErrNotFound, proofs, t)
   | HashNode h c \<Rightarrow>
       (case getFromStore h t of
          (Inl e, t1) \<Rightarrow> (Inl e, proofs, t1)
        | (Inr r, t1) \<Rightarrow> getProof H fuel r path proofs t1)
   | Empty \<Rightarrow> (Inl ErrNotFound, proofs, t))"

definition GetProof :: "(bytes \<Rightarrow> hash) \<Rightarrow> nat \<Rightarrow> bytes \<Rightarrow> trie \<Rightarrow> (mpt_error + unit) \<times> bytes list \<times> trie" where
  "GetProof H fuel ky t =
     (if length ky > MaxKeyLength then (Inl (ErrArg ''key is too big''), [], t)
      else case getProof H fuel (root t) (toNibbles ky) [] t of
        (Inl e, ps, t1) \<Rightarrow> (Inl e, ps, t1)
      | (Inr r, ps, t1) \<Rightarrow> (Inr (), ps, t1\<lparr>root := r\<rparr>))"

definition put_ignore :: "bytes \<Rightarrow> bytes \<Rightarrow> store \<Rightarrow> store" where
  "put_ignore k v st = (case StorePut k v st of Inl _ \<Rightarrow> st | Inr st' \<Rightarrow> st')"

definition proof_store :: "(bytes \<Rightarrow> hash) \<Rightarrow> bytes list \<Rightarrow> store" where
  "proof_store H proofs = fold (\<lambda>p. put_ignore (makeStorageKey (H p)) p) proofs
     (NewMemCachedStore (MemoryStore NewMemoryStore))"

text \<open>\<open>Inr (Some v)\<close> is \<open>(v, true)\<close>, \<open>Inr None\<close> is \<open>(nil, false)\<close>.\<close>

definition VerifyProof :: "(bytes \<Rightarrow> hash) \<Rightarrow> nat \<Rightarrow> hash \<Rightarrow> bytes \<Rightarrow> bytes list \<Rightarrow> mpt_error + bytes option" where
  "VerifyProof H fuel rh ky proofs =
     (let tr = NewTrie (Some (NewHashNode rh)) ModeAll (proof_store H proofs) in
      case fst (getWithPath fuel (root tr) (toNibbles ky) True tr) of
        Inl e \<Rightarrow> if is_panic e \<or> e = OutOfFuel then Inl e else Inr None
      | Inr (_, Leaf v, _) \<Rightarrow> Inr (Some (Copy v))
      | Inr _ \<Rightarrow> Inl (Panic ''interface conversion''))"

section \<open>The store of a proof\<close>

lemma cached_put_ignore:
  assumes "is_cached st" and "k \<noteq> []"
  shows "is_cached (put_ignore k v st)"
    and "k' \<noteq> [] \<Longrightarrow> StoreGet (put_ignore k v st) k' = (if k' = k then Inr v else StoreGet st k')"
proof -
  obtain st' where st': "StorePut k v st = Inr st'" using cached.put_total [OF assms] by blast
  then show "is_cached (put_ignore k v st)"
    using cached.put_inv [OF assms(1) st'] by (simp add: put_ignore_def)
  show "k' \<noteq> [] \<Longrightarrow> StoreGet (put_ignore k v st) k' = (if k' = k then Inr v else StoreGet st k')"
    using cached.get_put [OF assms st'] st' by (simp add: put_ignore_def)
qed

lemma makeStorageKey_simps [simp]:
  "makeStorageKey h \<noteq> []" "makeStorageKey h = makeStorageKey h' \<longleftrightarrow> h = h'"
  by (simp_all add: makeStorageKey_def)

lemma proof_store_get:
  "StoreGet (proof_store H proofs) (makeStorageKey h) =
     (case find (\<lambda>p. H p = h) (rev proofs) of None \<Rightarrow> Inl ErrKeyNotFound | Some p \<Rightarrow> Inr p)"
proof -
  have "StoreGet (fold (\<lambda>p. put_ignore (makeStorageKey (H p)) p) ps st) (makeStorageKey h) =
     (case find (\<lambda>p. H p = h) (rev ps) of None \<Rightarrow> StoreGet st (makeStorageKey h) | Some p \<Rightarrow> Inr p)"
    if "is_cached st" for ps st
    using that
  proof (induction ps arbitrary: st)
    case (Cons p ps)
    have "find Q (xs @ [y]) = (case find Q xs of None \<Rightarrow> if Q y then Some y else None | Some z \<Rightarrow> Some z)" for Q xs and y :: bytes
      by (induction xs) auto
    then show ?case
      using Cons.IH [of "put_ignore (makeStorageKey (H p)) p st"] Cons.prems
        cached_put_ignore [of st "makeStorageKey (H p)"]
      by (auto split: option.splits)
  qed simp
  from this [of "NewMemCachedStore (MemoryStore NewMemoryStore)" proofs] show ?thesis
    by (auto simp: proof_store_def NewMemCachedStore_def NewMemoryStore_def StoreGet_cached StoreGet_memory
        sel_def inStor_def makeStorageKey_def of_value_def split: option.splits)
qed

text \<open>No two different byte strings of the set have the same hash.\<close>

definition collision_free :: "(bytes \<Rightarrow> hash) \<Rightarrow> bytes set \<Rightarrow> bool" where
  "collision_free H S \<longleftrightarrow> inj_on H S"

text \<open>The encodings of all nodes of a trie.\<close>

function encodings :: "(bytes \<Rightarrow> hash) \<Rightarrow> node \<Rightarrow> bytes set" where
  "encodings H (Leaf v) = {NodeBytes H (Leaf v)}"
| "encodings H (Branch cs) = insert (NodeBytes H (Branch cs)) (\<Union>c \<in> set cs. encodings H c)"
| "encodings H (Extension k n) = insert (NodeBytes H (Extension k n)) (encodings H n)"
| "encodings H Empty = {}"
| "encodings H (HashNode h c) = {}"
  by pat_completeness auto
termination
proof (relation "measure (size \<circ> snd)", goal_cases)
  case (2 H cs x)
  then show ?case using size_list_estimation' [of x cs "size x" size] by (simp add: less_Suc_eq_le)
qed auto

section \<open>Soundness\<close>

definition proof_trie :: "(bytes \<Rightarrow> hash) \<Rightarrow> bytes list \<Rightarrow> trie \<Rightarrow> bool" where
  "proof_trie H proofs t \<longleftrightarrow> Store t = proof_store H proofs \<and> mode t = ModeAll"

lemma proof_trie_same_store: "proof_trie H proofs t \<Longrightarrow> same_store t t' \<Longrightarrow> proof_trie H proofs t'"
  by (simp add: proof_trie_def same_store_def)

lemma ModeAll_flags [simp]: "\<not> RC ModeAll" "\<not> GC ModeAll"
  by (simp_all add: RC_def GC_def ModeAll_def)

lemma proof_data:
  "proof_trie H proofs t \<Longrightarrow> getData (makeStorageKey h) (mode t) (Store t) =
     (case find (\<lambda>p. H p = h) (rev proofs) of None \<Rightarrow> Inl (ErrStore ErrKeyNotFound) | Some p \<Rightarrow> Inr p)"
  by (simp add: getData_def proof_trie_def proof_store_get split: option.split)

lemma fetch_sound:
  assumes "hash32 H" and "node_ok q" and "q \<noteq> Empty" and "\<not> is_HashNode q"
    and "collision_free H S" and "set proofs \<subseteq> S" and "NodeBytes H q \<in> S"
    and "proof_trie H proofs t" and "fetch t (NodeHash H q) = Some n"
  shows "n = shallow H q"
proof -
  have "getData (makeStorageKey (NodeHash H q)) (mode t) (Store t) \<noteq> Inl e" for e
    using assms(9) by (auto simp: fetch_def getFromStore_def)
  then obtain d where d: "find (\<lambda>p. H p = NodeHash H q) (rev proofs) = Some d"
    using proof_data [OF assms(8)] by (cases "find (\<lambda>p. H p = NodeHash H q) (rev proofs)") auto
  then have "d \<in> set proofs" "H d = NodeHash H q" by (auto simp: find_Some_iff in_set_conv_nth rev_nth)
    (metis diff_Suc_less length_pos_if_in_set nth_mem rev_nth length_rev set_rev less_imp_diff_less)
  moreover have "NodeHash H q = H (NodeBytes H q)" using assms(3,4) by (cases q) (simp_all add: NodeHash_eq)
  ultimately have "d = NodeBytes H q" using assms(5-7) by (auto simp: collision_free_def dest: inj_onD)
  then have "fetch t (NodeHash H q) = Some (shallow H q)"
    using fetch_stored [OF assms(1-4), of "NodeHash H q" t "[]"] proof_data [OF assms(8)] d assms(8)
    by (simp add: proof_trie_def)
  with assms(9) show ?thesis by simp
qed

lemma encodings_child: "i < length cs \<Longrightarrow> encodings H (cs ! i) \<subseteq> encodings H (Branch cs)"
  using nth_mem by auto

lemma encodings_self: "q \<noteq> Empty \<Longrightarrow> \<not> is_HashNode q \<Longrightarrow> NodeBytes H q \<in> encodings H q"
  by (cases q) simp_all

lemma canonical_no_hash: "canonical q \<Longrightarrow> \<not> is_HashNode q"
  by (cases q) (auto simp: canonical_def)

lemma getWithPath_sound:
  assumes "hash32 H" and "collision_free H S" and "set proofs \<subseteq> S"
  shows "canonical q \<Longrightarrow> node_ok q \<Longrightarrow> encodings H q \<subseteq> S \<Longrightarrow> nibbles path \<Longrightarrow> proof_trie H proofs t \<Longrightarrow>
     n = child_ref H q \<or> n = shallow H q \<and> q \<noteq> Empty \<Longrightarrow>
     getWithPath fuel n path True t = (Inr (n', leaf, pr), t') \<Longrightarrow>
     \<exists>v. leaf = Leaf v \<and> lookup q path = Some v"
proof (induction fuel arbitrary: q path t n n' pr t')
  case (Suc fuel)
  show ?case
  proof (cases "q = Empty \<or> n = shallow H q")
    case False
    then have n: "n = HashNode (NodeHash H q) False" "q \<noteq> Empty" using Suc.prems(6) by (auto simp: child_ref_def)
    then obtain m t1 where m: "getFromStore (NodeHash H q) t = (Inr m, t1)"
      "getWithPath fuel m path True t1 = (Inr (n', leaf, pr), t')"
      using Suc.prems(7) by (auto split: prod.splits sum.splits if_splits)
    then have "fetch t (NodeHash H q) = Some m" by (simp add: fetch_def)
    then have "m = shallow H q"
      using fetch_sound [OF assms(1) Suc.prems(2) n(2) canonical_no_hash [OF Suc.prems(1)] assms(2,3) _ Suc.prems(5)]
        encodings_self [OF n(2) canonical_no_hash [OF Suc.prems(1)]] Suc.prems(3) by blast
    then show ?thesis
      using Suc.IH [OF Suc.prems(1-4) proof_trie_same_store [OF Suc.prems(5)] _ m(2)] n
        getFromStore_laws [OF m(1)] by blast
  next
    case True
    show ?thesis
    proof (cases q)
      case (Leaf v)
      then show ?thesis using True Suc.prems(7) by (auto split: if_splits)
    next
      case (Extension k m)
      then have [simp]: "n = Extension k (child_ref H m)" using True by simp
      then obtain r pr' t1 where r: "HasPrefix path k"
        "getWithPath fuel (child_ref H m) (drop (length k) path) True t = (Inr (r, leaf, pr'), t1)"
        using Suc.prems(7)
        by (auto simp: bind_st_def split: prod.splits sum.splits if_splits)
      have "\<exists>v. leaf = Leaf v \<and> lookup m (drop (length k) path) = Some v"
        using Suc.IH [OF _ _ _ _ Suc.prems(5) _ r(2)] Suc.prems Extension by (simp add: canonical_def)
      then show ?thesis using Extension r(1) by simp
    next
      case (Branch cs)
      then have [simp]: "n = Branch (map (child_ref H) cs)" using True by simp
      have wf: "wf_node (Branch cs)" using Suc.prems(1) Branch by (simp add: canonical_def)
      obtain i u where sp: "splitPath path = (i, u)" by fastforce
      have i: "i < childrenCount" "nibbles u"
        using splitPath_less [OF Suc.prems(4)] nibbles_splitPath [OF Suc.prems(4)] sp by simp_all
      have len: "length cs = childrenCount" using wf by simp
      obtain r pr' t1 where r: "getWithPath fuel (child_ref H (cs ! i)) u True t = (Inr (r, leaf, pr'), t1)"
        using Suc.prems(7) i len
        by (auto simp: sp bind_st_def split: prod.splits sum.splits if_splits)
      have "node_ok (cs ! i)" using Suc.prems(2) Branch i len by (simp add: list_all_length)
      moreover have "encodings H (cs ! i) \<subseteq> S" using encodings_child [of i cs H] Suc.prems(3) Branch i len by (metis order_trans)
      ultimately have "\<exists>v. leaf = Leaf v \<and> lookup (cs ! i) u = Some v"
        using Suc.IH [OF canonical_child [OF wf i(1)] _ _ i(2) Suc.prems(5) _ r] by blast
      then show ?thesis using Branch i len by (simp add: sp)
    qed (use True Suc.prems in \<open>auto simp: child_ref_def canonical_def\<close>)
  qed
qed simp

section \<open>Completeness\<close>

text \<open>The encodings of the nodes on the way to a path.\<close>

function path_nodes :: "(bytes \<Rightarrow> hash) \<Rightarrow> node \<Rightarrow> bytes \<Rightarrow> bytes list" where
  "path_nodes H (Leaf v) p = (if p = [] then [NodeBytes H (Leaf v)] else [])"
| "path_nodes H (Branch cs) p = NodeBytes H (Branch cs) #
     (let (i, q) = splitPath p in if i < length cs then path_nodes H (cs ! i) q else [])"
| "path_nodes H (Extension k n) p =
     (if HasPrefix p k then NodeBytes H (Extension k n) # path_nodes H n (drop (length k) p) else [])"
| "path_nodes H Empty p = []"
| "path_nodes H (HashNode h c) p = []"
  by pat_completeness auto
termination by (relation "measure (size \<circ> fst \<circ> snd)") (auto simp: size_nth)

lemma fetch_complete:
  assumes "hash32 H" and "node_ok q" and "q \<noteq> Empty" and "\<not> is_HashNode q"
    and "collision_free H (set proofs)" and "NodeBytes H q \<in> set proofs" and "proof_trie H proofs t"
  shows "fetch t (NodeHash H q) = Some (shallow H q)"
proof -
  have eq: "NodeHash H q = H (NodeBytes H q)" using assms(3,4) by (cases q) (simp_all add: NodeHash_eq)
  obtain d where d: "find (\<lambda>p. H p = NodeHash H q) (rev proofs) = Some d"
    using assms(6) eq by (cases "find (\<lambda>p. H p = NodeHash H q) (rev proofs)") (auto simp: find_None_iff)
  then have "d \<in> set proofs" "H d = NodeHash H q"
    by (auto simp: find_Some_iff in_set_conv_nth) (metis length_rev nth_mem set_rev in_set_conv_nth)
  then have "d = NodeBytes H q" using assms(5,6) eq by (auto simp: collision_free_def dest: inj_onD)
  then show ?thesis
    using fetch_stored [OF assms(1-4), of "NodeHash H q" t "[]"] proof_data [OF assms(7)] d assms(7)
    by (simp add: proof_trie_def)
qed

lemma getWithPath_complete:
  assumes "hash32 H" and "collision_free H (set proofs)"
  shows "canonical q \<Longrightarrow> node_ok q \<Longrightarrow> nibbles path \<Longrightarrow> set (path_nodes H q path) \<subseteq> set proofs \<Longrightarrow>
     lookup q path = Some v \<Longrightarrow> proof_trie H proofs t \<Longrightarrow>
     n = child_ref H q \<or> n = shallow H q \<Longrightarrow> fuel_ok fuel n q path \<Longrightarrow>
     \<exists>n' pr t'. getWithPath fuel n path True t = (Inr (n', Leaf v, pr), t')"
proof (induction fuel arbitrary: q path t n)
  case 0
  then show ?case by (auto simp: fuel_ok_def split: if_splits)
next
  case (Suc fuel)
  have ne: "q \<noteq> Empty" "\<not> is_HashNode q" using Suc.prems(1,5) canonical_no_hash by auto
  have self: "NodeBytes H q \<in> set proofs"
    using Suc.prems(4,5) ne by (cases q) (auto split: if_splits)
  show ?case
  proof (cases "n = shallow H q")
    case False
    then have n: "n = HashNode (NodeHash H q) False" using Suc.prems(7) ne by (simp add: child_ref_def)
    have "fetch t (NodeHash H q) = Some (shallow H q)"
      using fetch_complete [OF assms(1) Suc.prems(2) ne assms(2) self Suc.prems(6)] .
    then obtain t1 where t1: "getFromStore (NodeHash H q) t = (Inr (shallow H q), t1)" "same_store t t1"
      using fetch_getFromStore by metis
    have "fuel_ok fuel (shallow H q) q path"
      using Suc.prems(8) n ne by (cases q) (auto simp: fuel_ok_def)
    then show ?thesis
      using Suc.IH [OF Suc.prems(1-5) proof_trie_same_store [OF Suc.prems(6) t1(2)]] n t1(1) by simp
  next
    case True
    show ?thesis
    proof (cases q)
      case (Leaf u)
      then show ?thesis using True Suc.prems(5) by (auto split: if_splits)
    next
      case (Extension k m)
      have hp: "HasPrefix path k" using Suc.prems(5) Extension by (auto split: if_splits)
      have k: "k \<noteq> []" "canonical m" using Suc.prems(1) Extension by (auto simp: canonical_def)
      have "fuel_ok fuel (child_ref H m) m (drop (length k) path)"
        using fuel_ok_next [OF _ k(1) hp] Suc.prems(8) Extension True by simp
      then have "\<exists>n' pr t'. getWithPath fuel (child_ref H m) (drop (length k) path) True t = (Inr (n', Leaf v, pr), t')"
        using Suc.IH [OF k(2) _ _ _ _ Suc.prems(6)] Suc.prems Extension hp by auto
      then show ?thesis using Extension True hp by auto
    next
      case (Branch cs)
      have wf: "wf_node (Branch cs)" using Suc.prems(1) Branch by (simp add: canonical_def)
      obtain i u where sp: "splitPath path = (i, u)" by fastforce
      have i: "i < childrenCount" "nibbles u"
        using splitPath_less [OF Suc.prems(3)] nibbles_splitPath [OF Suc.prems(3)] sp by simp_all
      have len: "length cs = childrenCount" using wf by simp
      have "fuel_ok fuel (map (child_ref H) cs ! i) (cs ! i) u"
        using fuel_ok_child [OF _ sp wf] Suc.prems(8) Branch True by simp
      then have "fuel_ok fuel (child_ref H (cs ! i)) (cs ! i) u" using i len by simp
      moreover have "node_ok (cs ! i)" using Suc.prems(2) Branch i len by (simp add: list_all_length)
      moreover have "set (path_nodes H (cs ! i) u) \<subseteq> set proofs" "lookup (cs ! i) u = Some v"
        using Suc.prems(4,5) Branch i len by (auto simp: sp)
      ultimately have "\<exists>n' pr t'. getWithPath fuel (child_ref H (cs ! i)) u True t = (Inr (n', Leaf v, pr), t')"
        using Suc.IH [OF canonical_child [OF wf i(1)] _ i(2) _ _ Suc.prems(6)] by blast
      then show ?thesis using Branch True i len by (auto simp: sp)
    qed (use ne in auto)
  qed
qed

lemma getProof_sim:
  assumes "rep H (fetch t) n p" and "canonical p" and "nibbles path" and "fuel_ok fuel n p path"
    and "lookup p path = Some v"
  shows "\<exists>n' t'. getProof H fuel n path ps t = (Inr n', ps @ path_nodes H p path, t')"
  using assms
proof (induction fuel arbitrary: t n p path ps)
  case 0
  then show ?case by (auto simp: fuel_ok_def split: if_splits)
next
  case (Suc fuel)
  show ?case
  proof (cases n)
    case (Leaf u)
    then show ?thesis using Suc.prems by (auto simp: Copy_def split: if_splits)
  next
    case Empty
    then show ?thesis using Suc.prems by auto
  next
    case (HashNode h c)
    with Suc.prems(1) obtain m where m: "fetch t h = Some m" "\<not> is_HashNode m" "rep H (fetch t) m p"
      by (auto elim: rep_HashE)
    from fetch_getFromStore [OF m(1)] obtain t1 where t1: "getFromStore h t = (Inr m, t1)" "same_store t t1" by metis
    have "fuel_ok fuel m p path" using fuel_ok_loaded Suc.prems(4) HashNode m(2) by blast
    then show ?thesis
      using Suc.IH [of t1 m p path] Suc.prems(2,3,5) m(3) fetch_cong [OF t1(2)] HashNode t1(1) by simp
  next
    case (Extension k m)
    with Suc.prems obtain q where [simp]: "p = Extension k q" and q: "rep H (fetch t) m q" by auto
    have wf: "k \<noteq> []" "canonical q" using Suc.prems(2) by (auto simp: canonical_def)
    have hp: "HasPrefix path k" using Suc.prems(5) by (auto split: if_splits)
    have "fuel_ok fuel m q (drop (length k) path)" using fuel_ok_next [OF _ wf(1) hp] Suc.prems(4) Extension by simp
    then have "\<exists>n' t'. getProof H fuel m (drop (length k) path) (ps @ [NodeBytes H (Extension k q)]) t =
        (Inr n', (ps @ [NodeBytes H (Extension k q)]) @ path_nodes H q (drop (length k) path), t')"
      using Suc.prems(3,5) hp by (intro Suc.IH [OF q wf(2)]) simp_all
    moreover have "NodeBytes H (Extension k m) = NodeBytes H (Extension k q)"
      using rep_NodeBytes [OF Suc.prems(1)] Extension by simp
    ultimately show ?thesis using Extension hp by (auto simp: Copy_def)
  next
    case (Branch cs)
    with Suc.prems obtain qs where [simp]: "p = Branch qs" and len: "length cs = length qs"
      and ch: "\<And>i. i < length qs \<Longrightarrow> rep H (fetch t) (cs ! i) (qs ! i)" by auto
    have wf: "wf_node (Branch qs)" using Suc.prems(2) by (simp add: canonical_def)
    obtain i u where sp: "splitPath path = (i, u)" by fastforce
    have i: "i < length qs" "nibbles u"
      using splitPath_less [OF Suc.prems(3)] nibbles_splitPath [OF Suc.prems(3)] sp wf by simp_all
    have "fuel_ok fuel (cs ! i) (qs ! i) u" using fuel_ok_child [OF _ sp wf] Suc.prems(4) Branch by simp
    moreover have "canonical (qs ! i)" using canonical_child [OF wf] i wf by simp
    moreover have "lookup (qs ! i) u = Some v" using Suc.prems(5) i by (simp add: sp)
    ultimately have "\<exists>n' t'. getProof H fuel (cs ! i) u (ps @ [NodeBytes H (Branch qs)]) t =
        (Inr n', (ps @ [NodeBytes H (Branch qs)]) @ path_nodes H (qs ! i) u, t')"
      using Suc.IH [OF ch [OF i(1)]] i(2) by blast
    moreover have "NodeBytes H (Branch cs) = NodeBytes H (Branch qs)"
      using rep_NodeBytes [OF Suc.prems(1)] Branch by simp
    ultimately show ?thesis using Branch i len by (auto simp: Copy_def sp)
  qed
qed

lemma verify_complete:
  assumes "hash32 H" and "stands_for H t p" and "node_ok p" and "length ky \<le> MaxKeyLength"
    and "lookup p (toNibbles ky) = Some v" and "collision_free H (set (path_nodes H p (toNibbles ky)))"
  shows "\<exists>t'. GetProof H (fuel_for ky) ky t = (Inr (), path_nodes H p (toNibbles ky), t') \<and>
     VerifyProof H (fuel_for ky) (StateRoot H t) ky (path_nodes H p (toNibbles ky)) = Inr (Some v)"
proof -
  have p: "rep H (fetch t) (root t) p" "canonical p" "p \<noteq> Empty"
    using assms(2,5) by (auto simp: stands_for_def)
  have "\<exists>n' t'. getProof H (fuel_for ky) (root t) (toNibbles ky) [] t = (Inr n', [] @ path_nodes H p (toNibbles ky), t')"
    by (rule getProof_sim [OF p(1,2) _ fuel_for_ok [OF order_refl] assms(5)]) simp
  then have get: "\<exists>t'. GetProof H (fuel_for ky) ky t = (Inr (), path_nodes H p (toNibbles ky), t')"
    using assms(4) by (auto simp: GetProof_def)
  let ?tr = "NewTrie (Some (NewHashNode (StateRoot H t))) ModeAll (proof_store H (path_nodes H p (toNibbles ky)))"
  have "proof_trie H (path_nodes H p (toNibbles ky)) ?tr" by (simp add: proof_trie_def NewTrie_def)
  moreover have "root ?tr = child_ref H p"
    using p(3) StateRoot_eq [OF assms(2)] by (simp add: NewTrie_def NewHashNode_def child_ref_def)
  ultimately have "\<exists>n' pr t'. getWithPath (fuel_for ky) (root ?tr) (toNibbles ky) True ?tr = (Inr (n', Leaf v, pr), t')"
    using getWithPath_complete [OF assms(1,6) p(2) assms(3) _ order_refl assms(5)] fuel_for_ok [OF order_refl] by simp
  then show ?thesis using get by (auto simp: VerifyProof_def Copy_def Let_def)
qed

section \<open>Properties\<close>

text \<open>
  C30. Proofs are complete: for every key present in a trie whose nodes respect the size limits,
  \<open>GetProof\<close> succeeds, and \<open>VerifyProof\<close> with the trie's state root accepts the proof and
  returns the value, unless two of the encodings in the proof collide.
\<close>

theorem verify_own_proof:
  assumes "hash32 H" and "stands_for H t p" and "node_ok p" and "length ky \<le> MaxKeyLength"
    and "lookup p (toNibbles ky) = Some v" and "collision_free H (set (path_nodes H p (toNibbles ky)))"
  shows "\<exists>t'. GetProof H (fuel_for ky) ky t = (Inr (), path_nodes H p (toNibbles ky), t') \<and>
     VerifyProof H (fuel_for ky) (StateRoot H t) ky (path_nodes H p (toNibbles ky)) = Inr (Some v)"
  using assms by (rule verify_complete)

lemma sample_encodings:
  "NodeBytes pad32 (Leaf [7]) = [2, 1, 7]"
  "NodeBytes pad32 (Extension [1, 2] (Leaf [7])) = [1, 2, 1, 2, 3, 2, 1, 7] @ replicate 29 0"
  by (simp_all add: NodeBytes_eq node_type_defs var_bytes_def var_uint_def child_bytes_def NodeHash_eq
      pad32_def)

lemma sample_collision_free:
  "collision_free pad32 {NodeBytes pad32 (Leaf [7]), NodeBytes pad32 (Extension [1, 2] (Leaf [7]))}"
  unfolding sample_encodings by (simp add: collision_free_def pad32_def inj_on_def)

theorem verify_own_proof_witness:
  "\<exists>t' ps. GetProof pad32 8 [0x12] sample_trie = (Inr (), ps, t') \<and>
     VerifyProof pad32 8 (StateRoot pad32 sample_trie) [0x12] ps = Inr (Some [7])"
  using verify_own_proof [OF hash32_pad32 sample_trie_stands_for, of "[0x12]" "[7]"] sample_collision_free
  by (auto simp: mpt_consts fuel_for_def insert_commute)

text \<open>
  C29. Proofs are sound: whatever byte strings are offered as a proof for a trie's root hash, a
  value that \<open>VerifyProof\<close> returns is the value of that key in the trie, unless a collision of
  the hash occurs among the offered strings and the encodings of the trie's nodes.
\<close>

theorem verify_proof_sound:
  assumes "hash32 H" and "canonical p" and "p \<noteq> Empty" and "node_ok p"
    and "collision_free H (set proofs \<union> encodings H p)"
    and "VerifyProof H fuel (NodeHash H p) ky proofs = Inr (Some v)"
  shows "lookup p (toNibbles ky) = Some v"
proof -
  let ?tr = "NewTrie (Some (NewHashNode (NodeHash H p))) ModeAll (proof_store H proofs)"
  have tr: "proof_trie H proofs ?tr" "root ?tr = child_ref H p"
    using assms(3) by (simp_all add: proof_trie_def NewTrie_def NewHashNode_def child_ref_def)
  obtain n' pr t' where run: "getWithPath fuel (root ?tr) (toNibbles ky) True ?tr = (Inr (n', Leaf v, pr), t')"
    using assms(6) by (cases "getWithPath fuel (root ?tr) (toNibbles ky) True ?tr")
      (auto simp: VerifyProof_def Copy_def Let_def split: sum.splits if_splits node.splits)
  have "\<exists>u. Leaf v = Leaf u \<and> lookup p (toNibbles ky) = Some u"
    by (rule getWithPath_sound [OF assms(1,5) _ assms(2,4) _ nibbles_toNibbles tr(1) _ run])
      (use tr(2) in auto)
  then show ?thesis by auto
qed

theorem verify_proof_sound_witness:
  "lookup (Extension [1, 2] (Leaf [7])) (toNibbles [0x12]) = Some [7]"
proof (rule verify_proof_sound [OF hash32_pad32])
  let ?ps = "path_nodes pad32 (Extension [1, 2] (Leaf [7])) (toNibbles [0x12])"
  have "StateRoot pad32 sample_trie = NodeHash pad32 (Extension [1, 2] (Leaf [7]))"
    using StateRoot_eq [OF sample_trie_stands_for] by simp
  then show "VerifyProof pad32 8 (NodeHash pad32 (Extension [1, 2] (Leaf [7]))) [0x12] ?ps = Inr (Some [7])"
    using verify_complete [OF hash32_pad32 sample_trie_stands_for, of "[0x12]" "[7]"] sample_collision_free
    by (simp add: mpt_consts fuel_for_def insert_commute)
  show "collision_free pad32 (set ?ps \<union> encodings pad32 (Extension [1, 2] (Leaf [7])))"
    using sample_collision_free by (simp add: insert_commute)
qed (simp_all add: canonical_def mpt_consts)

text \<open>
  C31. \<open>VerifyProof\<close> does not return on a proof that consists of the encoding of a hash node,
  asked for under the hash of that encoding: resolving the root yields the same hash node again.
  Both are chosen by the caller of the \<open>verifyproof\<close> request.
\<close>

theorem verify_proof_diverges:
  assumes "hash32 H" and "length h = 32"
  shows "VerifyProof H fuel (H (HashT # h)) ky [HashT # h] = Inl OutOfFuel"
proof -
  let ?b = "HashT # h"
  let ?tr = "NewTrie (Some (NewHashNode (H ?b))) ModeAll (proof_store H [?b])"
  have "DecodeNodeWithType (NewBinReaderFromBuf ?b) = (Some (HashNode h False), NewBinReaderFromBuf [])"
    using decode_encode [of H "HashNode h False" 32 "[]"] assms
    by (simp add: DecodeNodeWithType_def NewBinReaderFromBuf_def NodeBytes_eq del: decodeNode.simps)
  moreover have "proof_trie H [?b] ?tr" by (simp add: proof_trie_def NewTrie_def)
  ultimately have get: "getFromStore (H ?b) ?tr = (Inr (HashNode (H ?b) False), ?tr)"
    using proof_data [of H "[?b]" ?tr "H ?b"]
    by (simp add: getFromStore_def NewBinReaderFromBuf_def) (simp add: NewTrie_def)
  have "getWithPath f (HashNode (H ?b) False) path True ?tr = (Inl OutOfFuel, ?tr)" for f path
    by (induction f) (simp_all add: get)
  then show ?thesis by (simp add: VerifyProof_def Let_def) (simp add: NewTrie_def NewHashNode_def)
qed

theorem verify_proof_diverges_witness:
  "VerifyProof pad32 1000 (pad32 (HashT # replicate 32 0)) [1] [HashT # replicate 32 0] = Inl OutOfFuel"
  by (rule verify_proof_diverges) simp_all

end
