(* ===== verification/MptBatch.thy ===== *)
theory MptBatch
  imports MptProps
begin

text \<open>
  Batches of changes: src/pkg/core/mpt/batch.go. A batch is a list of nibble paths with values,
  sorted by path; \<open>PutBatch\<close> applies it to the trie in one pass. The main result is that this
  is the same as applying the changes one by one. A result is the node to install, the number
  of items processed and the error returned, if any; a panic (and running out of fuel) is the
  left alternative. The slices are values: \<open>stripPrefix\<close>, which shortens the keys of the batch
  in place, returns the shortened batch.
\<close>

section \<open>Operations\<close>

type_synonym batch_out = "(node \<times> nat \<times> mpt_error option) result"

definition stripPrefix :: "nat \<Rightarrow> key_value list \<Rightarrow> key_value list" where
  "stripPrefix n kv = map (\<lambda>(k, v). (drop n k, v)) kv"

fun last_run :: "byte \<Rightarrow> key_value list \<Rightarrow> nat option" where
  "last_run c [] = Some 0"
| "last_run c ((k, v) # kv) =
     (case k of [] \<Rightarrow> None
      | x # _ \<Rightarrow> if x \<noteq> c then Some 0 else map_option Suc (last_run c kv))"

text \<open>The child the first items go to and how many they are; \<open>None\<close> is an index panic.\<close>

fun getLastIndex :: "key_value list \<Rightarrow> (nat \<times> nat) option" where
  "getLastIndex [] = None"
| "getLastIndex ((k, v) # kv) =
     (case k of [] \<Rightarrow> Some (lastChild, 1)
      | x # _ \<Rightarrow> map_option (\<lambda>n. (unat x, Suc n)) (last_run x kv))"

definition MapToMPTBatch :: "(bytes \<times> bytes option) list \<Rightarrow> key_value list" where
  "MapToMPTBatch m = sort_key fst (map (\<lambda>(k, v). (strToNibbles k, v)) m)"

primrec mergeExtension :: "(bytes \<Rightarrow> hash) \<Rightarrow> nat \<Rightarrow> bytes \<Rightarrow> node \<Rightarrow> trie \<Rightarrow> (node \<times> mpt_error option) result" where
  "mergeExtension H 0 prefix sub t = (Inl OutOfFuel, t)"
| "mergeExtension H (Suc fuel) prefix sub t = (case sub of
     Extension k n \<Rightarrow>
       (let e = Extension (prefix @ k) n in (Inr (e, None), addNode H e (removeNode H sub t)))
   | Empty \<Rightarrow> (Inr (Empty, None), t)
   | HashNode h c \<Rightarrow>
       (case getFromStore h t of
          (Inl e, t1) \<Rightarrow> if is_panic e then (Inl e, t1) else (Inr (sub, Some e), t1)
        | (Inr n, t1) \<Rightarrow> mergeExtension H fuel prefix n t1)
   | _ \<Rightarrow>
       if prefix \<noteq> [] then (let e = NewExtensionNode prefix sub in (Inr (e, None), addNode H e t))
       else (Inr (sub, None), t))"

definition stripBranch :: "(bytes \<Rightarrow> hash) \<Rightarrow> nat \<Rightarrow> node list \<Rightarrow> trie \<Rightarrow> (node \<times> mpt_error option) result" where
  "stripBranch H fuel cs t =
     (let (n, lastIndex) = count_children cs in
      if n = 0 then (Inr (Empty, None), t)
      else if n = 1 then
        if lastIndex \<noteq> lastChild then mergeExtension H fuel [of_nat lastIndex] (cs ! lastIndex) t
        else (Inr (cs ! lastIndex, None), t)
      else (Inr (Branch cs, None), addNode H (Branch cs) t))"

lemma getLastIndex_pos: "getLastIndex kv = Some (c, i) \<Longrightarrow> kv \<noteq> [] \<and> 0 < i"
  by (cases kv) (auto split: list.splits)

function iterateBatch :: "(node \<Rightarrow> key_value list \<Rightarrow> trie \<Rightarrow> batch_out) \<Rightarrow> node list \<Rightarrow> key_value list \<Rightarrow> nat \<Rightarrow> trie \<Rightarrow>
    (node list \<times> nat \<times> mpt_error option) result" where
  "iterateBatch put cs kv n t =
     (if kv = [] then (Inr (cs, n, None), t)
      else case getLastIndex kv of
        None \<Rightarrow> (Inl (Panic ''index out of range''), t)
      | Some (c, i) \<Rightarrow>
          if c \<ge> length cs then (Inl (Panic ''index out of range''), t)
          else let grp = (if c \<noteq> lastChild then stripPrefix 1 (take i kv) else take i kv) in
            bind_st (put (cs ! c) grp t) (\<lambda>(child, sub, err) t1.
              case err of
                Some e \<Rightarrow> (Inr (cs[c := child], n + sub, Some e), t1)
              | None \<Rightarrow> iterateBatch put (cs[c := child]) (drop i kv) (n + sub) t1))"
  by pat_completeness auto
termination
  by (relation "measure (\<lambda>(_, _, kv, _, _). length kv)") (auto dest: getLastIndex_pos)

declare iterateBatch.simps [simp del]

definition addToBranch :: "(bytes \<Rightarrow> hash) \<Rightarrow> nat \<Rightarrow> (node \<Rightarrow> key_value list \<Rightarrow> trie \<Rightarrow> batch_out) \<Rightarrow>
    node list \<Rightarrow> key_value list \<Rightarrow> bool \<Rightarrow> trie \<Rightarrow> batch_out" where
  "addToBranch H fuel put cs kv inTrie t =
     (let t1 = (if inTrie then removeNode H (Branch cs) t else t) in
      bind_st (iterateBatch put cs kv 0 t1) (\<lambda>(cs', n, err) t2.
        bind_st (stripBranch H fuel cs' t2) (\<lambda>(nd, bErr) t3.
          (Inr (nd, n, case err of None \<Rightarrow> bErr | Some e \<Rightarrow> Some e), t3))))"

text \<open>The call \<open>mergeExtension(prefix, nd)\<close> that follows a successful step.\<close>

definition then_merge :: "(bytes \<Rightarrow> hash) \<Rightarrow> nat \<Rightarrow> bytes \<Rightarrow> batch_out \<Rightarrow> batch_out" where
  "then_merge H fuel prefix r = bind_st r (\<lambda>(nd, n, err) t.
     case err of
       Some e \<Rightarrow> (Inr (nd, n, Some e), t)
     | None \<Rightarrow> bind_st (mergeExtension H fuel prefix nd t) (\<lambda>(nd', e) t1. (Inr (nd', n, e), t1)))"

fun newSubTrieMany :: "(bytes \<Rightarrow> hash) \<Rightarrow> nat \<Rightarrow> (node \<Rightarrow> key_value list \<Rightarrow> trie \<Rightarrow> batch_out) \<Rightarrow>
    bytes \<Rightarrow> key_value list \<Rightarrow> bytes option \<Rightarrow> trie \<Rightarrow> batch_out" where
  "newSubTrieMany H fuel put prefix [] val t = (Inl (Panic ''index out of range''), t)"
| "newSubTrieMany H fuel put prefix ((k, v) # kv) val t =
     (if k = [] \<and> v = None then
        if kv = [] then (Inr (Empty, 1, None), t)
        else bind_st (newSubTrieMany H fuel put prefix kv None t) (\<lambda>(nd, n, err) t1.
          (Inr (nd, n + 1, err), t1))
      else if k = [] \<and> kv = [] then
        (let (nd, t1) = newSubTrie H prefix (NewLeafNode (the v)) True t in (Inr (nd, 1, None), t1))
      else
        let val' = (if k = [] then v else val);
            b = replicate childrenCount Empty;
            (b', t1) = (case val' of
               None \<Rightarrow> (b, t)
             | Some u \<Rightarrow> (b[lastChild := NewLeafNode u], addNode H (NewLeafNode u) t)) in
        then_merge H fuel prefix (addToBranch H fuel put b' ((k, v) # kv) False t1))"

definition putBatchIntoLeaf :: "(bytes \<Rightarrow> hash) \<Rightarrow> nat \<Rightarrow> (node \<Rightarrow> key_value list \<Rightarrow> trie \<Rightarrow> batch_out) \<Rightarrow>
    bytes \<Rightarrow> key_value list \<Rightarrow> trie \<Rightarrow> batch_out" where
  "putBatchIntoLeaf H fuel put u kv t =
     newSubTrieMany H fuel put [] kv (Some u) (removeNode H (Leaf u) t)"

definition putBatchIntoEmpty :: "(bytes \<Rightarrow> hash) \<Rightarrow> nat \<Rightarrow> (node \<Rightarrow> key_value list \<Rightarrow> trie \<Rightarrow> batch_out) \<Rightarrow>
    key_value list \<Rightarrow> trie \<Rightarrow> batch_out" where
  "putBatchIntoEmpty H fuel put kv t =
     (let common = lcpMany kv in
      newSubTrieMany H fuel put common (stripPrefix (length common) kv) None t)"

definition putBatchIntoExtensionNoPrefix :: "(bytes \<Rightarrow> hash) \<Rightarrow> nat \<Rightarrow> (node \<Rightarrow> key_value list \<Rightarrow> trie \<Rightarrow> batch_out) \<Rightarrow>
    bytes \<Rightarrow> node \<Rightarrow> key_value list \<Rightarrow> trie \<Rightarrow> batch_out" where
  "putBatchIntoExtensionNoPrefix H fuel put k n kv t =
     (let (s, t1) = (if length k > 1 then newSubTrie H (tl k) n False t else (n, t)) in
      if unat (hd k) \<ge> childrenCount then (Inl (Panic ''index out of range''), t1)
      else addToBranch H fuel put ((replicate childrenCount Empty)[unat (hd k) := s]) kv False t1)"

definition putBatchIntoExtension :: "(bytes \<Rightarrow> hash) \<Rightarrow> nat \<Rightarrow> (node \<Rightarrow> key_value list \<Rightarrow> trie \<Rightarrow> batch_out) \<Rightarrow>
    bytes \<Rightarrow> node \<Rightarrow> key_value list \<Rightarrow> trie \<Rightarrow> batch_out" where
  "putBatchIntoExtension H fuel put k n kv t =
     (let t1 = removeNode H (Extension k n) t; common = lcpMany kv; pref = lcp common k in
      if length pref = length k then
        then_merge H fuel pref (put n (stripPrefix (length k) kv) t1)
      else if length pref \<noteq> 0 then
        then_merge H fuel pref (putBatchIntoExtensionNoPrefix H fuel put (drop (length pref) k) n
          (stripPrefix (length pref) kv) t1)
      else putBatchIntoExtensionNoPrefix H fuel put k n kv t1)"

primrec putBatchIntoNode :: "(bytes \<Rightarrow> hash) \<Rightarrow> nat \<Rightarrow> node \<Rightarrow> key_value list \<Rightarrow> trie \<Rightarrow> batch_out" where
  "putBatchIntoNode H 0 cur kv t = (Inl OutOfFuel, t)"
| "putBatchIntoNode H (Suc fuel) cur kv t = (case cur of
     Leaf u \<Rightarrow> putBatchIntoLeaf H (Suc fuel) (putBatchIntoNode H fuel) u kv t
   | Branch cs \<Rightarrow> addToBranch H (Suc fuel) (putBatchIntoNode H fuel) cs kv True t
   | Extension k n \<Rightarrow> putBatchIntoExtension H (Suc fuel) (putBatchIntoNode H fuel) k n kv t
   | HashNode h c \<Rightarrow>
       (case getFromStore h t of
          (Inl e, t1) \<Rightarrow> if is_panic e then (Inl e, t1) else (Inr (cur, 0, Some e), t1)
        | (Inr n, t1) \<Rightarrow> putBatchIntoNode H fuel n kv t1)
   | Empty \<Rightarrow> putBatchIntoEmpty H (Suc fuel) (putBatchIntoNode H fuel) kv t)"

definition PutBatch :: "(bytes \<Rightarrow> hash) \<Rightarrow> nat \<Rightarrow> key_value list \<Rightarrow> trie \<Rightarrow> (nat \<times> mpt_error option) result" where
  "PutBatch H fuel kv t =
     (if kv = [] then (Inr (0, None), t)
      else bind_st (putBatchIntoNode H fuel (root t) kv t) (\<lambda>(r, n, err) t1.
        (Inr (n, err), t1\<lparr>root := r\<rparr>)))"

section \<open>Sorted batches\<close>

definition good :: "key_value list \<Rightarrow> bool" where
  "good kv \<longleftrightarrow> sorted_wrt (<) (map fst kv) \<and> (\<forall>x \<in> set kv. nibbles (fst x))"

definition upd :: "key_value list \<Rightarrow> (bytes \<Rightarrow> bytes option) \<Rightarrow> bytes \<Rightarrow> bytes option" where
  "upd kv m q = (case map_of kv q of Some w \<Rightarrow> w | None \<Rightarrow> m q)"

lemma good_distinct: "good kv \<Longrightarrow> distinct (map fst kv)"
  by (auto simp: good_def strict_sorted_iff)

lemma good_take_drop: "good kv \<Longrightarrow> good (take i kv)" "good kv \<Longrightarrow> good (drop i kv)"
  by (auto simp: good_def sorted_wrt_take sorted_wrt_drop take_map [symmetric] drop_map [symmetric]
      dest: in_set_takeD in_set_dropD)

lemma good_tail: "good (x # kv) \<Longrightarrow> good kv"
  by (simp add: good_def)

lemma good_tail_nonempty: "good (x # kv) \<Longrightarrow> y \<in> set kv \<Longrightarrow> fst y \<noteq> []"
  by (auto simp: good_def)

lemma append_less_append: "((p :: bytes) @ a < p @ b) \<longleftrightarrow> a < b"
  by (induction p) auto

lemma good_strip:
  assumes "good kv" and "\<forall>x \<in> set kv. HasPrefix (fst x) pre"
  shows "good (stripPrefix (length pre) kv)"
proof -
  have "sorted_wrt (<) (map fst (stripPrefix (length pre) kv))"
    using assms
  proof (induction kv)
    case (Cons x kv)
    have "drop (length pre) (fst x) < drop (length pre) (fst y)" if "y \<in> set kv" for y
      using Cons.prems that append_less_append [of pre "drop (length pre) (fst x)" "drop (length pre) (fst y)"]
        HasPrefix_drop [of "fst x" pre] HasPrefix_drop [of "fst y" pre] by (auto simp: good_def)
    then show ?case using Cons by (auto simp: stripPrefix_def good_def split_def)
  qed (simp add: stripPrefix_def)
  moreover have "nibbles (drop n (fst x))" if "x \<in> set kv" for x n
    using assms(1) that by (simp add: good_def)
  ultimately show ?thesis by (auto simp: good_def stripPrefix_def split_def)
qed

lemma map_of_strip:
  "\<forall>x \<in> set kv. HasPrefix (fst x) pre \<Longrightarrow> map_of (stripPrefix (length pre) kv) u = map_of kv (pre @ u)"
proof (induction kv)
  case (Cons x kv)
  obtain r where "fst x = pre @ r" using Cons.prems by (auto simp: HasPrefix_iff)
  then show ?case using Cons by (cases x) (auto simp: stripPrefix_def)
qed (simp add: stripPrefix_def)

lemma map_of_no_prefix:
  "\<forall>x \<in> set kv. HasPrefix (fst x) pre \<Longrightarrow> \<not> HasPrefix q pre \<Longrightarrow> map_of kv q = None"
  by (auto simp: map_of_eq_None_iff)

lemma length_stripPrefix [simp]: "length (stripPrefix n kv) = length kv"
  by (simp add: stripPrefix_def)

lemma stripPrefix_Nil [simp]: "stripPrefix n kv = [] \<longleftrightarrow> kv = []"
  by (simp add: stripPrefix_def)

lemma upd_append:
  assumes "distinct (map fst (a @ b))"
  shows "upd b (upd a m) q = upd (a @ b) m q"
proof (cases "map_of a q")
  case (Some w)
  then have "q \<in> fst ` set a" by (metis fst_conv image_eqI map_of_SomeD)
  then have "map_of b q = None" using assms by (auto simp: map_of_eq_None_iff)
  then show ?thesis using Some by (simp add: upd_def map_add_def)
qed (simp add: upd_def map_add_def split: option.split)

lemma upd_cong: "m q = m' q \<Longrightarrow> upd kv m q = upd kv m' q"
  by (simp add: upd_def split: option.split)

text \<open>The first group of items: those for one child of a branch.\<close>

lemma last_run_group:
  assumes "\<forall>x \<in> set kv. fst x \<noteq> []"
  shows "\<exists>n. last_run c kv = Some n \<and> n \<le> length kv \<and> (\<forall>x \<in> set (take n kv). HasPrefix (fst x) [c])"
  using assms
proof (induction kv)
  case (Cons x kv)
  obtain y ys where k: "fst x = y # ys" using Cons.prems by (cases "fst x") auto
  show ?case
  proof (cases "y = c")
    case True
    obtain n where "last_run c kv = Some n" "n \<le> length kv" "\<forall>x \<in> set (take n kv). HasPrefix (fst x) [c]"
      using Cons by auto
    then show ?thesis using k True by (cases x) auto
  next
    case False
    then show ?thesis using k by (cases x) auto
  qed
qed simp

lemma first_group:
  assumes "good kv" and "kv \<noteq> []"
  obtains (last) v where "getLastIndex kv = Some (lastChild, 1)" "take 1 kv = [([], v)]"
  | (nibble) x i where "getLastIndex kv = Some (unat x, i)" "x < 16" "0 < i" "i \<le> length kv"
      "\<forall>y \<in> set (take i kv). HasPrefix (fst y) [x]"
proof -
  obtain k v kv' where kv: "kv = (k, v) # kv'" using assms(2) by (cases kv) auto
  show thesis
  proof (cases k)
    case Nil
    then show thesis using last [of v] kv by simp
  next
    case (Cons x ys)
    have "\<forall>y \<in> set kv'. fst y \<noteq> []" using good_tail_nonempty assms(1) kv by blast
    from last_run_group [OF this, of x] obtain n where n: "last_run x kv' = Some n" "n \<le> length kv'"
      "\<forall>y \<in> set (take n kv'). HasPrefix (fst y) [x]" by blast
    have "x < 16" using assms(1) kv Cons by (simp add: good_def)
    then show thesis using nibble [of x "Suc n"] n kv Cons by simp
  qed
qed

section \<open>Simulation\<close>

definition bsim :: "(bytes \<Rightarrow> hash) \<Rightarrow> trie \<Rightarrow> batch_out \<Rightarrow> (hash \<Rightarrow> i32) \<Rightarrow> (bytes \<Rightarrow> bytes option) \<Rightarrow> nat \<Rightarrow> bool" where
  "bsim H t r c m N \<longleftrightarrow> (\<exists>n' t' p'. r = (Inr (n', N, None), t') \<and> rep H (fetch t) n' p' \<and> canonical p' \<and>
     (\<forall>q. nibbles q \<longrightarrow> lookup p' q = m q) \<and> same_store t t' \<and> root t' = root t \<and>
     (\<forall>h. rc t' h = rc t h + cnt H p' h - c h))"

lemma bsim_from:
  assumes "bsim H t1 r c1 m N" and "same_store t t1" and "root t1 = root t"
    and "\<And>h. rc t1 h = rc t h + c1 h - c h"
  shows "bsim H t r c m N"
  using assms fetch_cong [OF assms(2)] same_store_trans [OF assms(2)] by (auto simp: bsim_def)

lemma mergeExtension_sim:
  assumes "rep H (fetch t) sub p" and "canonical p" and "2 \<le> fuel"
  shows "\<exists>n' t'. mergeExtension H fuel prefix sub t = (Inr (n', None), t') \<and>
     rep H (fetch t) n' (textend prefix p) \<and> same_store t t' \<and> root t' = root t \<and>
     (\<forall>h. rc t' h = rc t h + cnt H (textend prefix p) h - cnt H p h)"
proof -
  have step: "\<exists>n' t'. mergeExtension H (Suc f) prefix m t1 = (Inr (n', None), t') \<and>
     rep H (fetch t1) n' (textend prefix p) \<and> same_store t1 t' \<and> root t' = root t1 \<and>
     (\<forall>h. rc t' h = rc t1 h + cnt H (textend prefix p) h - cnt H p h)"
    if m: "rep H (fetch t1) m p" "\<not> is_HashNode m" for m t1 f
  proof (cases m)
    case (Extension k n)
    with m obtain q where [simp]: "p = Extension k q" and q: "rep H (fetch t1) n q" by auto
    have "NodeHash H (Extension (prefix @ k) n) = NodeHash H (Extension (prefix @ k) q)"
      using rep_NodeHash [of H "fetch t1" "Extension (prefix @ k) n"] q by simp
    then show ?thesis using Extension q rep_NodeHash [OF m(1)] by (simp add: Let_def)
  next
    case (Branch cs)
    with m obtain ps where [simp]: "p = Branch ps" by auto
    have r: "rep H (fetch t1) (Extension prefix m) (Extension prefix p)" using m(1) by simp
    show ?thesis
      using Branch m r rep_NodeHash [OF r]
      by (auto simp: NewExtensionNode_def tsub_def Let_def simp del: cnt_simps(3))
  next
    case (Leaf v)
    then show ?thesis using m by (auto simp: NewExtensionNode_def tsub_def Let_def)
  qed (use m in auto)
  obtain f where fuel: "fuel = Suc (Suc f)" using assms(3) by (metis Suc_le_D numeral_2_eq_2 Suc_le_mono)
  show ?thesis
  proof (cases sub)
    case (HashNode h c)
    with assms obtain m where m: "fetch t h = Some m" "\<not> is_HashNode m" "rep H (fetch t) m p"
      by (auto elim: rep_HashE)
    from fetch_getFromStore [OF m(1)] obtain t1 where t1: "getFromStore h t = (Inr m, t1)"
      "same_store t t1" "root t1 = root t" "\<And>h'. rc t1 h' = rc t h'" by metis
    have eq: "mergeExtension H fuel prefix sub t = mergeExtension H (Suc f) prefix m t1"
      using HashNode t1(1) fuel by simp
    show ?thesis
      unfolding eq using step [of t1 m f] m t1 fetch_cong [OF t1(2)] same_store_trans [OF t1(2)] by fastforce
  qed (use step [of t sub "Suc f"] assms(1) fuel in auto)
qed

lemma stripBranch_sim:
  assumes "loose ps" and "rep H (fetch t) (Branch cs) (Branch ps)" and "2 \<le> fuel"
  shows "\<exists>n' t'. stripBranch H fuel cs t = (Inr (n', None), t') \<and>
     rep H (fetch t) n' (tstrip ps) \<and> same_store t t' \<and> root t' = root t \<and>
     (\<forall>h. rc t' h = rc t h + cnt H (tstrip ps) h - sum_list (map (\<lambda>c. cnt H c h) ps))"
proof -
  have len: "length cs = length ps" "length ps = childrenCount"
    and ch: "\<And>i. i < length ps \<Longrightarrow> rep H (fetch t) (cs ! i) (ps ! i)"
    using assms by (auto simp: loose_def)
  have idx: "nonempty_at cs = nonempty_at ps" using rep_nonempty_at [OF len(1) ch] .
  have mem: "i \<in> set (nonempty_at ps) \<longleftrightarrow> i < length ps \<and> ps ! i \<noteq> Empty" for i
    by (simp add: nonempty_at_set)
  consider (none) "nonempty_at ps = []" | (one) j where "nonempty_at ps = [j]"
    | (more) i j xs where "nonempty_at ps = i # j # xs"
    by (cases "nonempty_at ps"; cases "tl (nonempty_at ps)") auto
  then show ?thesis
  proof cases
    case none
    then have "\<forall>c \<in> set ps. c = Empty" using mem by (auto simp: in_set_conv_nth)
    then have "sum_list (map (\<lambda>c. cnt H c h) ps) = 0" for h by (induction ps) auto
    then show ?thesis using none idx by (simp add: stripBranch_def count_children_eq tstrip_def)
  next
    case (one j)
    then have j: "j < length ps" "ps ! j \<noteq> Empty" "\<forall>i < length ps. i \<noteq> j \<longrightarrow> ps ! i = Empty"
      using mem by auto
    have cnt: "sum_list (map (\<lambda>c. cnt H c h) ps) = cnt H (ps ! j) h" for h
      using sum_list_single [of j ps "\<lambda>c. cnt H c h"] j by simp
    have "canonical (ps ! j)" using assms(1) j len by (simp add: loose_def)
    from mergeExtension_sim [OF ch [OF j(1)] this assms(3), of "[of_nat j]"] one idx cnt ch [OF j(1)]
    show ?thesis by (auto simp: stripBranch_def count_children_eq tstrip_def)
  next
    case more
    have "NodeHash H (Branch cs) = NodeHash H (Branch ps)" using rep_NodeHash [OF assms(2)] .
    then show ?thesis using more idx assms(2)
      by (simp add: stripBranch_def count_children_eq tstrip_def del: rep_simps)
  qed
qed

text \<open>What the recursive call does for a child and its group of items.\<close>

definition put_ok :: "(bytes \<Rightarrow> hash) \<Rightarrow> (node \<Rightarrow> key_value list \<Rightarrow> trie \<Rightarrow> batch_out) \<Rightarrow> nat \<Rightarrow> trie \<Rightarrow> bool" where
  "put_ok H put L t0 \<longleftrightarrow> (\<forall>t n p kv. same_store t0 t \<longrightarrow> rep H (fetch t0) n p \<longrightarrow> canonical p \<longrightarrow> good kv \<longrightarrow> kv \<noteq> [] \<longrightarrow>
     (\<forall>x \<in> set kv. length (fst x) < L) \<or> (\<exists>v. kv = [([], v)]) \<and> (p = Empty \<or> is_Leaf p) \<longrightarrow>
     bsim H t (put n kv t) (cnt H p) (upd kv (lookup p)) (length kv))"

lemma put_okD:
  assumes "put_ok H put L t0" and "same_store t0 t" and "rep H (fetch t0) n p" and "canonical p"
    and "good kv" and "kv \<noteq> []"
    and "(\<forall>x \<in> set kv. length (fst x) < L) \<or> (\<exists>v. kv = [([], v)]) \<and> (p = Empty \<or> is_Leaf p)"
  shows "bsim H t (put n kv t) (cnt H p) (upd kv (lookup p)) (length kv)"
  using assms unfolding put_ok_def by blast

lemma put_ok_same_store:
  assumes "put_ok H put L t0" and "same_store t0 t"
  shows "put_ok H put L t"
  unfolding put_ok_def fetch_cong [OF assms(2)]
  using put_okD [OF assms(1) same_store_trans [OF assms(2)]] by blast

lemma canonical_only_nil:
  assumes "canonical p" and "\<And>q. nibbles q \<Longrightarrow> q \<noteq> [] \<Longrightarrow> lookup p q = None"
  shows "p = Empty \<or> is_Leaf p"
proof (cases p)
  case (Branch cs)
  then have "wf_node (Branch cs)" using assms(1) by (simp add: canonical_def)
  then have "same_map (Leaf (the (lookup p []))) p \<or> lookup p [] = None"
    using assms(2) Branch by (auto simp: same_map_def)
  moreover have "lookup p [] \<noteq> None"
    using wf_has_key [OF \<open>wf_node (Branch cs)\<close>] assms(2) Branch by metis
  ultimately show ?thesis using Leaf_neq_Branch [OF \<open>wf_node (Branch cs)\<close>] Branch by blast
next
  case (Extension k n)
  then have wf: "wf_node (Extension k n)" using assms(1) by (simp add: canonical_def)
  from wf_has_key [OF wf] obtain q where q: "nibbles q" "lookup (Extension k n) q \<noteq> None" by blast
  then have "q = []" using assms(2) [of q] Extension by (cases "q = []") auto
  then show ?thesis using Extension_keys [OF q(2)] wf by auto
qed (use assms(1) in \<open>auto simp: canonical_def\<close>)

lemma child_lookup:
  assumes "c < childrenCount" and "length ps = childrenCount" and "nibbles q"
  shows "lookup (Branch (ps[c := p'])) q =
    (if fst (splitPath q) = c then lookup p' (snd (splitPath q)) else lookup (Branch ps) q)"
  using assms splitPath_less [OF assms(3)] by (simp add: split_def nth_list_update)

text \<open>One turn of the loop over the groups.\<close>

lemma group_sim:
  assumes ok: "put_ok H put L t0" and st: "same_store t0 t" and loose: "loose ps"
    and rep: "rep H (fetch t0) (Branch cs) (Branch ps)" and good: "good kv" "kv \<noteq> []"
    and len: "\<forall>x \<in> set kv. length (fst x) \<le> L"
  obtains c i child t1 p' where "getLastIndex kv = Some (c, i)" "c < childrenCount" "0 < i" "i \<le> length kv"
    "put (cs ! c) (if c \<noteq> lastChild then stripPrefix 1 (take i kv) else take i kv) t = (Inr (child, i, None), t1)"
    "rep H (fetch t0) child p'" "loose (ps[c := p'])" "same_store t t1" "root t1 = root t"
    "\<And>q. nibbles q \<Longrightarrow> lookup (Branch (ps[c := p'])) q = upd (take i kv) (lookup (Branch ps)) q"
    "\<And>h. rc t1 h = rc t h + cnt H p' h - cnt H (ps ! c) h"
proof -
  have lens: "length ps = childrenCount" "length cs = childrenCount"
    and ch: "\<And>i. i < childrenCount \<Longrightarrow> rep H (fetch t0) (cs ! i) (ps ! i)"
    and can: "\<And>i. i < childrenCount \<Longrightarrow> canonical (ps ! i)"
    and lst: "ps ! lastChild = Empty \<or> is_Leaf (ps ! lastChild)"
    using rep loose by (auto simp: loose_def)
  have gt: "good (take i kv)" for i using good_take_drop(1) [OF good(1)] .
  from good show thesis
  proof (cases rule: first_group)
    case (last v)
    from last(2) have b: "bsim H t (put (cs ! lastChild) (take 1 kv) t) (cnt H (ps ! lastChild))
        (upd (take 1 kv) (lookup (ps ! lastChild))) (length (take 1 kv))"
      using gt [of 1] lst by (intro put_okD [OF ok st ch can]) auto
    then obtain child t1 p' where r: "put (cs ! lastChild) (take 1 kv) t = (Inr (child, 1, None), t1)"
      "rep H (fetch t) child p'" "canonical p'" "same_store t t1" "root t1 = root t"
      "\<And>q. nibbles q \<Longrightarrow> lookup p' q = upd (take 1 kv) (lookup (ps ! lastChild)) q"
      "\<And>h. rc t1 h = rc t h + cnt H p' h - cnt H (ps ! lastChild) h"
      unfolding bsim_def last(2) by (simp del: take_Suc_Cons) blast
    have "p' = Empty \<or> is_Leaf p'"
    proof (rule canonical_only_nil [OF r(3)])
      fix q :: bytes assume "nibbles q" "q \<noteq> []"
      then show "lookup p' q = None" using r(6) last(2) lst by (auto simp: upd_def is_Leaf_def)
    qed
    then have "loose (ps[lastChild := p'])"
      using loose r(3) lens by (auto simp: loose_def nth_list_update)
    moreover have "lookup (Branch (ps[lastChild := p'])) q = upd (take 1 kv) (lookup (Branch ps)) q"
      if q: "nibbles q" for q
    proof (cases q)
      case Nil
      then show ?thesis using r(6) [of "[]"] lens by (simp add: upd_def split: option.split)
    next
      case (Cons x u)
      then have "x < 16" using q by simp
      then show ?thesis using Cons last(2) child_lookup [OF lastChild_less lens(1) q] by (simp add: upd_def)
    qed
    ultimately show thesis
      using that [of lastChild 1 child t1 p'] last good(2) r fetch_cong [OF st]
      by (cases kv) auto
  next
    case (nibble x i)
    let ?g = "stripPrefix 1 (take i kv)"
    have c: "unat x < childrenCount" "unat x \<noteq> lastChild" using nibble by simp_all
    have g: "good ?g" using good_strip [OF gt nibble(5)] by simp
    have "\<forall>y \<in> set ?g. length (fst y) < L"
    proof
      fix y assume "y \<in> set ?g"
      then obtain z where z: "z \<in> set (take i kv)" "fst y = drop 1 (fst z)" by (auto simp: stripPrefix_def)
      then have "length (fst z) \<le> L" "fst z \<noteq> []" using len nibble(5) by (auto dest: in_set_takeD)
      then show "length (fst y) < L" using z(2) by (cases "fst z") auto
    qed
    then have "bsim H t (put (cs ! unat x) ?g t) (cnt H (ps ! unat x)) (upd ?g (lookup (ps ! unat x))) (length ?g)"
      using g nibble(3,4) good(2) c by (intro put_okD [OF ok st ch can]) auto
    then obtain child t1 p' where r: "put (cs ! unat x) ?g t = (Inr (child, i, None), t1)"
      "rep H (fetch t) child p'" "canonical p'" "same_store t t1" "root t1 = root t"
      "\<And>q. nibbles q \<Longrightarrow> lookup p' q = upd ?g (lookup (ps ! unat x)) q"
      "\<And>h. rc t1 h = rc t h + cnt H p' h - cnt H (ps ! unat x) h"
      using nibble(4) unfolding bsim_def by (simp add: min_absorb2) blast
    have "loose (ps[unat x := p'])"
      using loose r(3) c lens by (auto simp: loose_def nth_list_update)
    moreover have "lookup (Branch (ps[unat x := p'])) q = upd (take i kv) (lookup (Branch ps)) q"
      if q: "nibbles q" for q
    proof (cases "HasPrefix q [x]")
      case True
      then obtain u where u: "q = x # u" by (auto simp: HasPrefix_iff)
      then show ?thesis
        using r(6) [of u] q c lens map_of_strip [OF nibble(5), of u] by (simp add: upd_def split: option.split)
    next
      case False
      have "fst (splitPath q) \<noteq> unat x" using False c q by (cases q) auto
      then show ?thesis
        using child_lookup [OF c(1) lens(1) q] map_of_no_prefix [OF nibble(5) False] by (simp add: upd_def)
    qed
    ultimately show thesis
      using that [of "unat x" i child t1 p'] nibble r c fetch_cong [OF st] by auto
  qed
qed

lemma iterateBatch_sim:
  assumes ok: "put_ok H put L t0"
  shows "same_store t0 t \<Longrightarrow> loose ps \<Longrightarrow> rep H (fetch t0) (Branch cs) (Branch ps) \<Longrightarrow> good kv \<Longrightarrow>
    (\<forall>x \<in> set kv. length (fst x) \<le> L) \<Longrightarrow>
    \<exists>cs' t' ps'. iterateBatch put cs kv n t = (Inr (cs', n + length kv, None), t') \<and> loose ps' \<and>
      rep H (fetch t0) (Branch cs') (Branch ps') \<and>
      (\<forall>q. nibbles q \<longrightarrow> lookup (Branch ps') q = upd kv (lookup (Branch ps)) q) \<and>
      same_store t t' \<and> root t' = root t \<and>
      (\<forall>h. rc t' h = rc t h + sum_list (map (\<lambda>c. cnt H c h) ps') - sum_list (map (\<lambda>c. cnt H c h) ps))"
proof (induction "length kv" arbitrary: kv cs ps n t rule: less_induct)
  case less
  show ?case
  proof (cases "kv = []")
    case True
    then show ?thesis
      using less.prems by (intro exI [of _ cs] exI [of _ t] exI [of _ ps])
        (simp add: iterateBatch.simps [of put cs] upd_def)
  next
    case False
    from group_sim [OF ok less.prems(1-4) False less.prems(5)]
    obtain c i child t1 p' where g: "getLastIndex kv = Some (c, i)" "c < childrenCount" "0 < i" "i \<le> length kv"
      "put (cs ! c) (if c \<noteq> lastChild then stripPrefix 1 (take i kv) else take i kv) t = (Inr (child, i, None), t1)"
      "rep H (fetch t0) child p'" "loose (ps[c := p'])" "same_store t t1" "root t1 = root t"
      "\<And>q. nibbles q \<Longrightarrow> lookup (Branch (ps[c := p'])) q = upd (take i kv) (lookup (Branch ps)) q"
      "\<And>h. rc t1 h = rc t h + cnt H p' h - cnt H (ps ! c) h"
      by metis
    have lens: "length ps = childrenCount" "length cs = childrenCount"
      using less.prems(2,3) by (auto simp: loose_def)
    have rep1: "rep H (fetch t0) (Branch (cs[c := child])) (Branch (ps[c := p']))"
      using less.prems(3) g(6) lens g(2) by (auto simp: nth_list_update)
    have smaller: "length (drop i kv) < length kv" using g(3) False by simp
    have st1: "same_store t0 t1" using same_store_trans [OF less.prems(1) g(8)] .
    have "\<forall>x \<in> set (drop i kv). length (fst x) \<le> L" using less.prems(5) by (auto dest: in_set_dropD)
    from less.hyps [OF smaller st1 g(7) rep1 good_take_drop(2) [OF less.prems(4)] this, of "n + i"]
    obtain cs' t' ps' where r: "iterateBatch put (cs[c := child]) (drop i kv) (n + i) t1 =
        (Inr (cs', n + i + length (drop i kv), None), t')" "loose ps'" "rep H (fetch t0) (Branch cs') (Branch ps')"
      "\<forall>q. nibbles q \<longrightarrow> lookup (Branch ps') q = upd (drop i kv) (lookup (Branch (ps[c := p']))) q"
      "same_store t1 t'" "root t' = root t1"
      "\<forall>h. rc t' h = rc t1 h + sum_list (map (\<lambda>c. cnt H c h) ps') - sum_list (map (\<lambda>c. cnt H c h) (ps[c := p']))"
      by blast
    have "iterateBatch put cs kv n t = (Inr (cs', n + length kv, None), t')"
      using False g(1-5) r(1) lens by (subst iterateBatch.simps) simp
    moreover have "lookup (Branch ps') q = upd kv (lookup (Branch ps)) q" if q: "nibbles q" for q
    proof -
      have "lookup (Branch ps') q = upd (drop i kv) (lookup (Branch (ps[c := p']))) q" using r(4) q by blast
      also have "\<dots> = upd (drop i kv) (upd (take i kv) (lookup (Branch ps))) q"
        using g(10) [OF q] by (rule upd_cong)
      also have "\<dots> = upd kv (lookup (Branch ps)) q"
        using upd_append [of "take i kv" "drop i kv"] good_distinct [OF less.prems(4)] by simp
      finally show ?thesis .
    qed
    moreover have "rc t' h = rc t h + sum_list (map (\<lambda>c. cnt H c h) ps') - sum_list (map (\<lambda>c. cnt H c h) ps)" for h
      using r(7) g(11) g(2) lens by (simp add: sum_list_update)
    moreover have "same_store t t'" "root t' = root t" using same_store_trans [OF g(8) r(5)] r(6) g(9) by simp_all
    ultimately show ?thesis using r(2,3) by blast
  qed
qed

lemma addToBranch_sim:
  assumes ok: "put_ok H put L t" and loose: "loose ps" and rep: "rep H (fetch t) (Branch cs) (Branch ps)"
    and kv: "good kv" "\<forall>x \<in> set kv. length (fst x) \<le> L" and fuel: "2 \<le> fuel"
  shows "bsim H t (addToBranch H fuel put cs kv inTrie t)
     (\<lambda>h. (if inTrie then one_at (NodeHash H (Branch ps)) h else 0) + sum_list (map (\<lambda>c. cnt H c h) ps))
     (upd kv (lookup (Branch ps))) (length kv)"
proof -
  define t1 where "t1 = (if inTrie then removeNode H (Branch cs) t else t)"
  have t1: "same_store t t1" "root t1 = root t"
    "\<And>h. rc t1 h = rc t h - (if inTrie then one_at (NodeHash H (Branch ps)) h else 0)"
    using rep_NodeHash [OF rep] by (simp_all add: t1_def)
  from iterateBatch_sim [OF ok t1(1) loose rep kv, of 0]
  obtain cs' t2 ps' where r: "iterateBatch put cs kv 0 t1 = (Inr (cs', length kv, None), t2)" "loose ps'"
    "rep H (fetch t) (Branch cs') (Branch ps')"
    "\<forall>q. nibbles q \<longrightarrow> lookup (Branch ps') q = upd kv (lookup (Branch ps)) q"
    "same_store t1 t2" "root t2 = root t1"
    "\<forall>h. rc t2 h = rc t1 h + sum_list (map (\<lambda>c. cnt H c h) ps') - sum_list (map (\<lambda>c. cnt H c h) ps)"
    by auto
  have st2: "same_store t t2" using same_store_trans [OF t1(1) r(5)] .
  from stripBranch_sim [OF r(2) _ fuel, of H t2 cs'] r(3) fetch_cong [OF st2]
  obtain n' t3 where s: "stripBranch H fuel cs' t2 = (Inr (n', None), t3)" "rep H (fetch t) n' (tstrip ps')"
    "same_store t2 t3" "root t3 = root t2"
    "\<forall>h. rc t3 h = rc t2 h + cnt H (tstrip ps') h - sum_list (map (\<lambda>c. cnt H c h) ps')" by auto
  have "addToBranch H fuel put cs kv inTrie t = (Inr (n', length kv, None), t3)"
    using r(1) s(1) by (simp add: addToBranch_def t1_def [symmetric] Let_def)
  then show ?thesis
    unfolding bsim_def
    using s r t1 canonical_tstrip [OF r(2)] lookup_tstrip [OF r(2)] same_store_trans [OF st2]
    by (intro exI [of _ n'] exI [of _ t3] exI [of _ "tstrip ps'"]) simp
qed

lemma bsim_cong:
  assumes "bsim H t r c m N" and "\<And>q. nibbles q \<Longrightarrow> m q = m' q"
  shows "bsim H t r c m' N"
  using assms unfolding bsim_def by metis

lemma then_merge_sim:
  assumes "bsim H t r c m N" and "nibbles prefix" and "2 \<le> fuel"
  shows "bsim H t (then_merge H fuel prefix r) c
     (\<lambda>q. if HasPrefix q prefix then m (drop (length prefix) q) else None) N"
proof -
  obtain n' t' p' where r: "r = (Inr (n', N, None), t')" "rep H (fetch t) n' p'" "canonical p'"
    "\<forall>q. nibbles q \<longrightarrow> lookup p' q = m q" "same_store t t'" "root t' = root t"
    "\<forall>h. rc t' h = rc t h + cnt H p' h - c h"
    using assms(1) unfolding bsim_def by blast
  from mergeExtension_sim [of H t' n' p' fuel prefix] r(2,3) assms(3) fetch_cong [OF r(5)]
  obtain n2 t2 where m: "mergeExtension H fuel prefix n' t' = (Inr (n2, None), t2)"
    "rep H (fetch t) n2 (textend prefix p')" "same_store t' t2" "root t2 = root t'"
    "\<forall>h. rc t2 h = rc t' h + cnt H (textend prefix p') h - cnt H p' h" by auto
  have "then_merge H fuel prefix r = (Inr (n2, N, None), t2)" using r(1) m(1) by (simp add: then_merge_def)
  then show ?thesis
    unfolding bsim_def
    using m r(4-7) canonical_textend [OF r(3) assms(2)] same_store_trans [OF r(5) m(3)]
    by (intro exI [of _ n2] exI [of _ t2] exI [of _ "textend prefix p'"]) (simp add: lookup_textend)
qed

definition only_nil :: "bytes option \<Rightarrow> bytes \<Rightarrow> bytes option" where
  "only_nil val u = (if u = [] then val else None)"

definition under :: "bytes \<Rightarrow> (bytes \<Rightarrow> bytes option) \<Rightarrow> bytes \<Rightarrow> bytes option" where
  "under prefix m q = (if HasPrefix q prefix then m (drop (length prefix) q) else None)"

lemma newSubTrieMany_simple:
  assumes "nibbles prefix"
  shows "bsim H t (newSubTrieMany H fuel put prefix [([], v)] val t) (\<lambda>h. 0)
     (under prefix (upd [([], v)] (only_nil val))) 1"
proof (cases v)
  case None
  then show ?thesis
    by (auto simp: bsim_def upd_def only_nil_def under_def canonical_def)
next
  case (Some b)
  obtain n' t' where s: "newSubTrie H prefix (Leaf b) True t = (n', t')" by fastforce
  note w = newSubTrie_new [OF s]
  have "canonical (tsub prefix (Leaf b))" using assms by (simp add: canonical_def tsub_def)
  then show ?thesis
    using w s Some unfolding bsim_def
    by (intro exI [of _ n'] exI [of _ t'] exI [of _ n'])
      (auto simp: NewLeafNode_def lookup_tsub upd_def only_nil_def under_def)
qed

lemma loose_one:
  assumes "c < childrenCount" and "canonical p" and "c = lastChild \<Longrightarrow> is_Leaf p"
  shows "loose ((replicate childrenCount Empty)[c := p])"
  using assms by (auto simp: loose_def nth_list_update canonical_def)

lemma newSubTrieMany_branch:
  assumes ok: "put_ok H put L t" and kv: "good kv" "kv \<noteq> []" "\<forall>x \<in> set kv. length (fst x) \<le> L"
    and nib: "nibbles prefix" and fuel: "2 \<le> fuel"
    and shape: "fst (hd kv) \<noteq> [] \<or> snd (hd kv) \<noteq> None \<and> tl kv \<noteq> []"
  shows "bsim H t (newSubTrieMany H fuel put prefix kv val t) (\<lambda>h. 0) (under prefix (upd kv (only_nil val))) (length kv)"
proof -
  obtain k v kv' where c: "kv = (k, v) # kv'" using kv(2) by (cases kv) auto
  define val' where "val' = (if k = [] then v else val)"
  define ps where "ps = (case val' of None \<Rightarrow> replicate childrenCount Empty
     | Some u \<Rightarrow> (replicate childrenCount Empty)[lastChild := Leaf u])"
  define t1 where "t1 = (case val' of None \<Rightarrow> t | Some u \<Rightarrow> addNode H (Leaf u) t)"
  have run: "newSubTrieMany H fuel put prefix kv val t = then_merge H fuel prefix (addToBranch H fuel put ps kv False t1)"
    using shape by (auto simp: c val'_def ps_def t1_def NewLeafNode_def Let_def split: option.split)
  have loose: "loose ps"
    using loose_one [of lastChild] by (auto simp: ps_def loose_def canonical_def split: option.split)
  have t1: "same_store t t1" "root t1 = root t" "\<And>h. rc t1 h = rc t h + sum_list (map (\<lambda>c. cnt H c h) ps)"
    by (auto simp: t1_def ps_def sum_list_update split: option.split)
  have rep: "rep H (fetch t1) (Branch ps) (Branch ps)"
    by (auto simp: ps_def nth_list_update split: option.split)
  have look: "lookup (Branch ps) u = only_nil val' u" if "nibbles u" for u
    using that by (cases u) (auto simp: ps_def only_nil_def split: option.split)
  have "bsim H t1 (addToBranch H fuel put ps kv False t1) (\<lambda>h. sum_list (map (\<lambda>c. cnt H c h) ps))
      (upd kv (lookup (Branch ps))) (length kv)"
    using addToBranch_sim [OF put_ok_same_store [OF ok t1(1)] loose rep kv(1,3) fuel, of False] by simp
  then have "bsim H t (addToBranch H fuel put ps kv False t1) (\<lambda>h. 0) (upd kv (lookup (Branch ps))) (length kv)"
    by (rule bsim_from [OF _ t1(1,2)]) (simp add: t1(3))
  moreover have "upd kv (lookup (Branch ps)) u = upd kv (only_nil val) u" if "nibbles u" for u
    using look [OF that] by (auto simp: upd_def only_nil_def c val'_def split: option.split)
  ultimately have "bsim H t (addToBranch H fuel put ps kv False t1) (\<lambda>h. 0) (upd kv (only_nil val)) (length kv)"
    by (rule bsim_cong)
  then show ?thesis unfolding run under_def using then_merge_sim [OF _ nib fuel] by blast
qed

lemma newSubTrieMany_sim:
  assumes ok: "put_ok H put L t" and kv: "good kv" "kv \<noteq> []" "\<forall>x \<in> set kv. length (fst x) \<le> L"
    and nib: "nibbles prefix" and fuel: "2 \<le> fuel"
  shows "bsim H t (newSubTrieMany H fuel put prefix kv val t) (\<lambda>h. 0) (under prefix (upd kv (only_nil val))) (length kv)"
proof -
  obtain k v kv' where c: "kv = (k, v) # kv'" using kv(2) by (cases kv) auto
  consider (branch) "fst (hd kv) \<noteq> [] \<or> snd (hd kv) \<noteq> None \<and> tl kv \<noteq> []"
    | (single) "k = []" "kv' = []" | (deleted) "k = []" "v = None" "kv' \<noteq> []"
    using c by (cases "kv' = []") auto
  then show ?thesis
  proof cases
    case branch
    then show ?thesis using newSubTrieMany_branch [OF assms] by blast
  next
    case single
    then show ?thesis using newSubTrieMany_simple [OF nib] c by simp
  next
    case deleted
    have g: "good kv'" using good_tail kv(1) c by blast
    have ne: "\<forall>y \<in> set kv'. fst y \<noteq> []" using good_tail_nonempty kv(1) c by blast
    have "bsim H t (newSubTrieMany H fuel put prefix kv' None t) (\<lambda>h. 0) (under prefix (upd kv' (only_nil None))) (length kv')"
      using newSubTrieMany_branch [OF ok g deleted(3) _ nib fuel, of None] kv(3) c ne deleted(3) by simp
    then have b: "bsim H t (newSubTrieMany H fuel put prefix kv val t) (\<lambda>h. 0)
        (under prefix (upd kv' (only_nil None))) (length kv)"
      using deleted by (auto simp: c bsim_def)
    have "map_of kv' [] = None" using ne by (auto simp: map_of_eq_None_iff)
    then have "upd kv' (only_nil None) u = upd kv (only_nil val) u" for u
      by (auto simp: upd_def only_nil_def c deleted split: option.split)
    then have "upd kv' (only_nil None) = upd kv (only_nil val)" by blast
    with b show ?thesis by simp
  qed
qed

lemma lcp_prefix: "HasPrefix a (lcp a b)" "HasPrefix b (lcp a b)"
proof -
  obtain a' b' where "a = lcp a b @ a'" "b = lcp a b @ b'" by (rule lcp_split)
  then show "HasPrefix a (lcp a b)" "HasPrefix b (lcp a b)" unfolding HasPrefix_iff by blast+
qed

lemma HasPrefix_trans: "HasPrefix a b \<Longrightarrow> HasPrefix b c \<Longrightarrow> HasPrefix a c"
  by (auto simp: HasPrefix_iff)

lemma lcpMany_prefix: "x \<in> set kv \<Longrightarrow> HasPrefix (fst x) (lcpMany kv)"
proof -
  have fold: "HasPrefix p (foldl (\<lambda>p z. lcp p (fst z)) p zs) \<and>
      (\<forall>z \<in> set zs. HasPrefix (fst z) (foldl (\<lambda>p z. lcp p (fst z)) p zs))" for p and zs :: "key_value list"
  proof (induction zs arbitrary: p)
    case (Cons z zs)
    have "HasPrefix p (lcp p (fst z))" "HasPrefix (fst z) (lcp p (fst z))" by (rule lcp_prefix)+
    then show ?case using Cons [of "lcp p (fst z)"] HasPrefix_trans by (simp, blast)
  qed (simp add: HasPrefix_iff)
  assume x: "x \<in> set kv"
  show ?thesis
  proof (cases kv rule: remdups_adj.cases)
    case (3 a b zs)
    have "HasPrefix (fst a) (lcp (fst a) (fst b))" "HasPrefix (fst b) (lcp (fst a) (fst b))"
      by (rule lcp_prefix)+
    moreover have "HasPrefix y []" for y :: bytes by simp
    ultimately show ?thesis
      using x 3 fold [of "lcp (fst a) (fst b)" zs] HasPrefix_trans
      by (auto simp: lcpMany_def Let_def)
  qed (use x in \<open>auto simp: lcpMany_def HasPrefix_iff\<close>)
qed

lemma under_upd:
  assumes "\<forall>x \<in> set kv. HasPrefix (fst x) pre"
  shows "under pre (upd (stripPrefix (length pre) kv) m) q = upd kv (under pre m) q"
proof (cases "HasPrefix q pre")
  case True
  then obtain u where "q = pre @ u" by (auto simp: HasPrefix_iff)
  then show ?thesis using map_of_strip [OF assms, of u] by (simp add: under_def upd_def split: option.split)
next
  case False
  then show ?thesis using map_of_no_prefix [OF assms False] by (simp add: under_def upd_def)
qed

lemma lookup_Extension_under: "lookup (Extension k n) = under k (lookup n)"
  by (auto simp: under_def fun_eq_iff)

lemma noPrefix_sim:
  assumes ok: "put_ok H put L t" and kv: "good kv" "\<forall>x \<in> set kv. length (fst x) \<le> L" and fuel: "2 \<le> fuel"
    and k: "k \<noteq> []" "nibbles k" and n: "rep H (fetch t) n p" "wf_node p" "\<not> is_Extension p"
  shows "bsim H t (putBatchIntoExtensionNoPrefix H fuel put k n kv t) (cnt H p)
     (upd kv (under k (lookup p))) (length kv)"
proof -
  obtain x kt where c: "k = x # kt" using k(1) by (cases k) auto
  have x: "x < 16" "nibbles kt" using k(2) c by simp_all
  then have i: "unat x < childrenCount" "unat x \<noteq> lastChild" by simp_all
  obtain s t1 where s: "newSubTrie H kt n False t = (s, t1)" by fastforce
  note o = newSubTrie_old [OF n(1) s]
  let ?cs = "(replicate childrenCount Empty)[unat x := s]"
    and ?ps = "(replicate childrenCount Empty)[unat x := tsub kt p]"
  have eq: "(if length k > 1 then newSubTrie H (tl k) n False t else (n, t)) = (s, t1)"
    using s c by (cases kt) (auto simp: newSubTrie_def)
  have run: "putBatchIntoExtensionNoPrefix H fuel put k n kv t = addToBranch H fuel put ?cs kv False t1"
    using i c unfolding putBatchIntoExtensionNoPrefix_def eq by simp
  have "wf_node (tsub kt p)" using wf_tsub [OF n(2,3) x(2)] .
  then have loose: "loose ?ps" using loose_one [OF i(1)] i(2) canonical_wf by blast
  have rep: "rep H (fetch t1) (Branch ?cs) (Branch ?ps)"
    using o(1) i fetch_cong [OF o(2)] by (auto simp: nth_list_update)
  have "bsim H t1 (addToBranch H fuel put ?cs kv False t1) (cnt H (tsub kt p)) (upd kv (lookup (Branch ?ps))) (length kv)"
    using addToBranch_sim [OF put_ok_same_store [OF ok o(2)] loose rep kv fuel, of False] i
    by (simp add: sum_list_update)
  then have "bsim H t (addToBranch H fuel put ?cs kv False t1) (cnt H p) (upd kv (lookup (Branch ?ps))) (length kv)"
    by (rule bsim_from [OF _ o(2,3)]) (simp add: o(4))
  moreover have "upd kv (lookup (Branch ?ps)) q = upd kv (under k (lookup p)) q" if "nibbles q" for q
  proof (rule upd_cong)
    show "lookup (Branch ?ps) q = under k (lookup p) q"
      using that i c by (cases q) (auto simp: under_def lookup_tsub nth_list_update)
  qed
  ultimately show ?thesis unfolding run by (rule bsim_cong)
qed

lemma strip_lengths:
  "\<forall>x \<in> set kv. length (fst x) \<le> L \<Longrightarrow> \<forall>x \<in> set (stripPrefix n kv). length (fst x) \<le> L"
  by (auto simp: stripPrefix_def)

lemma extension_sim:
  assumes ok: "put_ok H put L t" and kv: "good kv" "kv \<noteq> []" "\<forall>x \<in> set kv. length (fst x) \<le> L" and fuel: "2 \<le> fuel"
    and rep: "rep H (fetch t) n p" and wf: "wf_node (Extension k p)"
  shows "bsim H t (putBatchIntoExtension H fuel put k n kv t) (cnt H (Extension k p))
     (upd kv (lookup (Extension k p))) (length kv)"
proof -
  define t1 where "t1 = removeNode H (Extension k n) t"
  define pref where "pref = lcp (lcpMany kv) k"
  have k: "k \<noteq> []" "nibbles k" "wf_node p" "\<not> is_Extension p" using wf by simp_all
  have t1: "same_store t t1" "root t1 = root t" "\<And>h. rc t1 h = rc t h + cnt H p h - cnt H (Extension k p) h"
    using rep_NodeHash [of H "fetch t" "Extension k n" "Extension k p"] rep by (simp_all add: t1_def)
  have ok1: "put_ok H put L t1" using put_ok_same_store [OF ok t1(1)] .
  have rep1: "rep H (fetch t1) n p" using rep fetch_cong [OF t1(1)] by simp
  have pre: "\<forall>x \<in> set kv. HasPrefix (fst x) pref"
    using lcpMany_prefix lcp_prefix(1) HasPrefix_trans unfolding pref_def by blast
  obtain k' where k': "k = pref @ k'" using lcp_prefix(2) [of k "lcpMany kv"] unfolding pref_def HasPrefix_iff by blast
  have pn: "nibbles pref" "nibbles k'" using k(2) k' by simp_all
  have g: "good (stripPrefix (length pref) kv)" using good_strip [OF kv(1) pre] .
  note l = strip_lengths [OF kv(3), of "length pref"]
  consider (full) "k' = []" | (part) "k' \<noteq> []" "pref \<noteq> []" | (none) "pref = []" "k' \<noteq> []" by blast
  then show ?thesis
  proof cases
    case full
    then have [simp]: "pref = k" using k' by simp
    have "\<forall>x \<in> set (stripPrefix (length k) kv). length (fst x) < L"
    proof
      fix y assume "y \<in> set (stripPrefix (length k) kv)"
      then obtain x where x: "x \<in> set kv" "fst y = drop (length k) (fst x)" by (auto simp: stripPrefix_def)
      then have "length (fst x) \<le> L" "HasPrefix (fst x) k" using kv(3) pre by auto
      then show "length (fst y) < L" using x(2) k(1) by (cases k) (auto simp: HasPrefix_iff)
    qed
    then have "bsim H t1 (put n (stripPrefix (length k) kv) t1) (cnt H p)
        (upd (stripPrefix (length k) kv) (lookup p)) (length (stripPrefix (length k) kv))"
      using g kv(2) canonical_wf [OF k(3)] by (intro put_okD [OF ok1 same_store_refl rep1]) simp_all
    from then_merge_sim [OF this k(2) fuel]
    have "bsim H t1 (then_merge H fuel k (put n (stripPrefix (length k) kv) t1)) (cnt H p)
        (under k (upd (stripPrefix (length k) kv) (lookup p))) (length kv)"
      unfolding under_def by simp
    moreover have "under k (upd (stripPrefix (length k) kv) (lookup p)) q = upd kv (lookup (Extension k p)) q" for q
      using under_upd [OF pre, of "lookup p" q] unfolding lookup_Extension_under by simp
    ultimately have "bsim H t1 (then_merge H fuel k (put n (stripPrefix (length k) kv) t1)) (cnt H p)
        (upd kv (lookup (Extension k p))) (length kv)" by (rule bsim_cong)
    moreover have "putBatchIntoExtension H fuel put k n kv t = then_merge H fuel k (put n (stripPrefix (length k) kv) t1)"
      using full k' by (simp add: putBatchIntoExtension_def pref_def [symmetric] t1_def [symmetric] Let_def)
    ultimately show ?thesis using bsim_from [OF _ t1] by metis
  next
    case part
    let ?r = "putBatchIntoExtensionNoPrefix H fuel put k' n (stripPrefix (length pref) kv) t1"
    have "bsim H t1 ?r (cnt H p) (upd (stripPrefix (length pref) kv) (under k' (lookup p))) (length (stripPrefix (length pref) kv))"
      using noPrefix_sim [OF ok1 g l fuel part(1) pn(2) rep1 k(3,4)] .
    from then_merge_sim [OF this pn(1) fuel]
    have "bsim H t1 (then_merge H fuel pref ?r) (cnt H p)
        (under pref (upd (stripPrefix (length pref) kv) (under k' (lookup p)))) (length kv)"
      unfolding under_def [of pref] by simp
    moreover have "under pref (upd (stripPrefix (length pref) kv) (under k' (lookup p))) q =
        upd kv (lookup (Extension k p)) q" for q
    proof -
      have "under pref (under k' (lookup p)) q = under k (lookup p) q"
        using k' by (auto simp: under_def HasPrefix_iff)
      then show ?thesis
        using under_upd [OF pre, of "under k' (lookup p)" q] upd_cong unfolding lookup_Extension_under by metis
    qed
    ultimately have "bsim H t1 (then_merge H fuel pref ?r) (cnt H p) (upd kv (lookup (Extension k p))) (length kv)"
      by (rule bsim_cong)
    moreover have "drop (length pref) k = k'" "length pref \<noteq> length k" using k' part by auto
    then have "putBatchIntoExtension H fuel put k n kv t = then_merge H fuel pref ?r"
      using part by (simp add: putBatchIntoExtension_def pref_def [symmetric] t1_def [symmetric] Let_def)
    ultimately show ?thesis using bsim_from [OF _ t1] by metis
  next
    case none
    have "bsim H t1 (putBatchIntoExtensionNoPrefix H fuel put k n kv t1) (cnt H p) (upd kv (lookup (Extension k p))) (length kv)"
      using noPrefix_sim [OF ok1 kv(1,3) fuel k(1,2) rep1 k(3,4)] unfolding lookup_Extension_under .
    moreover have "length pref = 0" "length pref \<noteq> length k" using none k(1) by auto
    then have "putBatchIntoExtension H fuel put k n kv t = putBatchIntoExtensionNoPrefix H fuel put k n kv t1"
      by (simp add: putBatchIntoExtension_def pref_def [symmetric] t1_def [symmetric] Let_def)
    ultimately show ?thesis using bsim_from [OF _ t1] by metis
  qed
qed

text \<open>The fuel of a batch: two steps per nibble of the longest key.\<close>

definition batch_fuel :: "nat \<Rightarrow> nat \<Rightarrow> node \<Rightarrow> node \<Rightarrow> key_value list \<Rightarrow> bool" where
  "batch_fuel L fuel n p kv \<longleftrightarrow>
     (if (p = Empty \<or> is_Leaf p) \<and> (\<exists>v. kv = [([], v)]) then 1 else 2 * L + 3) +
     (if is_HashNode n then 1 else 0) \<le> fuel"

lemma leaf_sim:
  assumes "bsim H (removeNode H (Leaf u) t) (newSubTrieMany H fuel put [] kv (Some u) (removeNode H (Leaf u) t))
      (\<lambda>h. 0) (under [] (upd kv (only_nil (Some u)))) N"
  shows "bsim H t (putBatchIntoLeaf H fuel put u kv t) (cnt H (Leaf u)) (upd kv (lookup (Leaf u))) N"
proof -
  have "bsim H t (putBatchIntoLeaf H fuel put u kv t) (cnt H (Leaf u)) (under [] (upd kv (only_nil (Some u)))) N"
    unfolding putBatchIntoLeaf_def by (rule bsim_from [OF assms]) simp_all
  then show ?thesis by (rule bsim_cong) (auto simp: under_def only_nil_def upd_def split: option.split)
qed

lemma empty_sim:
  assumes "\<forall>x \<in> set kv. HasPrefix (fst x) c"
    and "bsim H t r (\<lambda>h. 0) (under c (upd (stripPrefix (length c) kv) (only_nil None))) N"
  shows "bsim H t r (cnt H Empty) (upd kv (lookup Empty)) N"
proof -
  have "bsim H t r (cnt H Empty) (under c (upd (stripPrefix (length c) kv) (only_nil None))) N"
    using assms(2) by (simp add: bsim_def)
  then show ?thesis
    by (rule bsim_cong)
      (use under_upd [OF assms(1)] in \<open>auto simp: under_def only_nil_def upd_def split: option.split\<close>)
qed

lemma putBatchIntoNode_sim:
  assumes "rep H (fetch t) n p" and "canonical p" and "good kv" and "kv \<noteq> []"
    and "\<forall>x \<in> set kv. length (fst x) \<le> L" and "batch_fuel L fuel n p kv"
  shows "bsim H t (putBatchIntoNode H fuel n kv t) (cnt H p) (upd kv (lookup p)) (length kv)"
  using assms
proof (induction fuel arbitrary: t n p kv L)
  case 0
  then show ?case by (auto simp: batch_fuel_def split: if_splits)
next
  case (Suc fuel)
  let ?put = "putBatchIntoNode H fuel"
  have ok: "put_ok H ?put L t'" if big: "2 * L + 3 \<le> Suc fuel" for t'
    unfolding put_ok_def
  proof (intro allI impI)
    fix t1 m q ws assume st: "same_store t' t1" and r: "rep H (fetch t') m q" and c: "canonical q"
      and g: "good ws" "ws \<noteq> []"
      and d: "(\<forall>x \<in> set ws. length (fst x) < L) \<or> (\<exists>v. ws = [([], v)]) \<and> (q = Empty \<or> is_Leaf q)"
    have r1: "rep H (fetch t1) m q" using r fetch_cong [OF st] by simp
    from d show "bsim H t1 (?put m ws t1) (cnt H q) (upd ws (lookup q)) (length ws)"
    proof
      assume short: "\<forall>x \<in> set ws. length (fst x) < L"
      then have "0 < L" using g(2) by (cases ws) auto
      then have "batch_fuel (L - 1) fuel m q ws" using big by (auto simp: batch_fuel_def)
      moreover have "\<forall>x \<in> set ws. length (fst x) \<le> L - 1" using short by auto
      ultimately show ?thesis using Suc.IH [OF r1 c g] by blast
    next
      assume "(\<exists>v. ws = [([], v)]) \<and> (q = Empty \<or> is_Leaf q)"
      moreover from this have "batch_fuel 0 fuel m q ws" using big by (auto simp: batch_fuel_def)
      ultimately show ?thesis using Suc.IH [OF r1 c g, of 0] by auto
    qed
  qed
  have big: "2 * L + 3 \<le> Suc fuel \<or> (p = Empty \<or> is_Leaf p) \<and> (\<exists>v. kv = [([], v)])"
    using Suc.prems(6) by (auto simp: batch_fuel_def split: if_splits)
  show ?case
  proof (cases n)
    case (Leaf u)
    then have [simp]: "p = Leaf u" using Suc.prems(1) by simp
    have "bsim H (removeNode H (Leaf u) t) (newSubTrieMany H (Suc fuel) ?put [] kv (Some u) (removeNode H (Leaf u) t))
        (\<lambda>h. 0) (under [] (upd kv (only_nil (Some u)))) (length kv)"
      using big newSubTrieMany_simple [of "[]"] newSubTrieMany_sim [OF ok Suc.prems(3-5), of "[]"] by auto
    from leaf_sim [OF this] show ?thesis unfolding Leaf \<open>p = Leaf u\<close> by (simp del: lookup.simps cnt_simps)
  next
    case Empty
    then have [simp]: "p = Empty" using Suc.prems(1) by simp
    let ?c = "lcpMany kv"
    have pre: "\<forall>x \<in> set kv. HasPrefix (fst x) ?c" using lcpMany_prefix by blast
    have nib: "nibbles ?c"
    proof -
      obtain x where x: "x \<in> set kv" using Suc.prems(4) by (cases kv) auto
      then obtain r where "fst x = ?c @ r" using pre by (auto simp: HasPrefix_iff)
      moreover have "nibbles (fst x)" using Suc.prems(3) x by (simp add: good_def)
      ultimately show ?thesis by simp
    qed
    let ?kv = "stripPrefix (length ?c) kv"
    have "bsim H t (newSubTrieMany H (Suc fuel) ?put ?c ?kv None t) (\<lambda>h. 0) (under ?c (upd ?kv (only_nil None))) (length kv)"
      using big newSubTrieMany_simple [OF nib, of H t "Suc fuel" ?put _ None]
        newSubTrieMany_sim [OF ok good_strip [OF Suc.prems(3) pre] _ strip_lengths [OF Suc.prems(5)] nib, of "Suc fuel" t None]
        Suc.prems(4) by (auto simp: stripPrefix_def)
    from empty_sim [OF pre this] show ?thesis using Empty
      by (simp add: putBatchIntoEmpty_def Let_def del: lookup.simps cnt_simps)
  next
    case (HashNode h c)
    with Suc.prems(1) obtain m where m: "fetch t h = Some m" "\<not> is_HashNode m" "rep H (fetch t) m p"
      by (auto elim: rep_HashE)
    from fetch_getFromStore [OF m(1)] obtain t1 where t1: "getFromStore h t = (Inr m, t1)"
      "same_store t t1" "root t1 = root t" "\<And>h'. rc t1 h' = rc t h'" by metis
    have "batch_fuel L fuel m p kv" using Suc.prems(6) HashNode m(2) by (auto simp: batch_fuel_def)
    then have "bsim H t1 (?put m kv t1) (cnt H p) (upd kv (lookup p)) (length kv)"
      using Suc.IH [of t1 m p kv L] Suc.prems m(3) fetch_cong [OF t1(2)] by simp
    then have "bsim H t (?put m kv t1) (cnt H p) (upd kv (lookup p)) (length kv)"
      by (rule bsim_from [OF _ t1(2,3)]) (simp add: t1(4))
    then show ?thesis using HashNode t1(1) by simp
  next
    case (Extension k m)
    with Suc.prems(1) obtain q where [simp]: "p = Extension k q" and q: "rep H (fetch t) m q" by auto
    have wf: "wf_node (Extension k q)" using Suc.prems(2) by (simp add: canonical_def)
    have b: "2 * L + 3 \<le> Suc fuel" using big by auto
    then have "2 \<le> Suc fuel" by simp
    from extension_sim [OF ok [OF b] Suc.prems(3-5) this q wf] show ?thesis
      unfolding Extension \<open>p = Extension k q\<close> by (simp del: lookup.simps cnt_simps)
  next
    case (Branch cs)
    with Suc.prems(1) obtain ps where [simp]: "p = Branch ps" by auto
    have rep: "rep H (fetch t) (Branch cs) (Branch ps)" using Suc.prems(1) Branch by simp
    have wf: "wf_node (Branch ps)" using Suc.prems(2) by (simp add: canonical_def)
    have b: "2 * L + 3 \<le> Suc fuel" using big by auto
    have "bsim H t (addToBranch H (Suc fuel) ?put cs kv True t)
        (\<lambda>h. one_at (NodeHash H (Branch ps)) h + sum_list (map (\<lambda>c. cnt H c h) ps))
        (upd kv (lookup (Branch ps))) (length kv)"
      using addToBranch_sim [OF ok [OF b] wf_Branch_loose [OF wf] rep Suc.prems(3,5), of "Suc fuel" True] b by simp
    moreover have "cnt H p = (\<lambda>h. one_at (NodeHash H (Branch ps)) h + sum_list (map (\<lambda>c. cnt H c h) ps))"
      by (simp add: fun_eq_iff)
    ultimately show ?thesis using Branch by (simp del: lookup.simps cnt_simps)
  qed
qed

section \<open>Properties\<close>

text \<open>
  C28. A batch has the effect of its changes made one by one: \<open>PutBatch\<close> of a sorted batch on a
  trie whose unresolved nodes are in the store processes every item without error, and the
  trie it leaves is the one that the single puts and deletions produce, with the reference
  counts of exactly its nodes.
\<close>

theorem batch_is_sequence:
  assumes "stands_for H t p" and "good kv" and "\<forall>x \<in> set kv. length (fst x) \<le> L" and "2 * L + 4 \<le> fuel"
  shows "\<exists>t'. PutBatch H fuel kv t = (Inr (length kv, None), t') \<and> stands_for H t' (fold tchange kv p) \<and>
     (\<forall>h. rc t' h = rc t h + of_nat (count (occ H (fold tchange kv p)) h) - of_nat (count (occ H p) h))"
proof (cases "kv = []")
  case True
  then show ?thesis using assms(1) by (simp add: PutBatch_def)
next
  case False
  have p: "rep H (fetch t) (root t) p" "canonical p" using assms(1) by (simp_all add: stands_for_def)
  have "batch_fuel L fuel (root t) p kv" using assms(4) by (auto simp: batch_fuel_def)
  then have "bsim H t (putBatchIntoNode H fuel (root t) kv t) (cnt H p) (upd kv (lookup p)) (length kv)"
    using putBatchIntoNode_sim [OF p assms(2) False assms(3)] by blast
  then obtain n' t' p' where r: "putBatchIntoNode H fuel (root t) kv t = (Inr (n', length kv, None), t')"
    "rep H (fetch t) n' p'" "canonical p'" "\<forall>q. nibbles q \<longrightarrow> lookup p' q = upd kv (lookup p) q"
    "same_store t t'" "\<forall>h. rc t' h = rc t h + cnt H p' h - cnt H p h"
    unfolding bsim_def by blast
  have nib: "\<forall>c \<in> set kv. nibbles (fst c)" using assms(2) by (simp add: good_def)
  have "map_of (rev kv) = map_of kv"
    using good_distinct [OF assms(2)] map_of_inject_set [of "rev kv" kv] by (simp add: rev_map [symmetric])
  then have "same_map p' (fold tchange kv p)"
    using r(4) fold_tchange_laws(2) [OF p(2) nib] by (simp add: same_map_def upd_def)
  then have eq: "p' = fold tchange kv p"
    using canonical_unique [OF r(3) fold_tchange_laws(1) [OF p(2) nib]] by blast
  show ?thesis
    using r False fetch_cong [OF r(5)] unfolding eq
    by (simp add: PutBatch_def stands_for_def cnt_def)
qed

theorem batch_is_sequence_witness:
  "\<exists>t'. PutBatch pad32 12 [([1, 2], None), ([1, 2, 3, 4], Some [6])] sample_trie = (Inr (2, None), t') \<and>
     stands_for pad32 t' (Extension [1, 2, 3, 4] (Leaf [6]))"
proof -
  have "fold tchange [([1, 2], None), ([1, 2, 3, 4], Some [6])] (Extension [1, 2] (Leaf [7])) =
      Extension [1, 2, 3, 4] (Leaf [6])"
    by (simp add: tchange_def tsub_def)
  then show ?thesis
    using batch_is_sequence [OF sample_trie_stands_for, of "[([1, 2], None), ([1, 2, 3, 4], Some [6])]" 4 12]
    by (auto simp: good_def)
qed

end
