(* ===== verification/ConsensusPayload.thy ===== *)
theory ConsensusPayload
  imports BinIO
begin

text \<open>
  The messages of the dBFT protocol and their binary form: src/pkg/consensus/payload.go,
  prepare_request.go, prepare_response.go, change_view.go, commit.go, recovery_request.go and
  recovery_message.go, over the envelope src/pkg/network/payload/extensible.go and the scripts
  of src/pkg/core/transaction/witness.go. The dynamic type of the field \<open>payload\<close> is the
  constructor of \<open>message_body\<close>; the field \<open>Type\<close> of a decoded message is determined by it.
  The flag \<open>stateRootEnabled\<close> of a prepare request is never set by the code, so neither it nor
  the state root is part of the model. The hash function and what the code derives from a public
  key are arguments.
\<close>

section \<open>Data\<close>

type_synonym pubkey = bytes
type_synonym privkey = bytes
type_synonym signature = bytes

definition nsInMs :: u64 where
  "nsInMs = 1000000000"

definition signatureSize :: nat where
  "signatureSize = 64"

definition MaxTransactionsPerBlock :: nat where
  "MaxTransactionsPerBlock = 65535"

definition MaxInvocationScript :: nat where
  "MaxInvocationScript = 1024"

definition MaxVerificationScript :: nat where
  "MaxVerificationScript = 1024"

definition maxExtensibleCategorySize :: nat where
  "maxExtensibleCategorySize = 32"

definition MaxSize :: nat where
  "MaxSize = 0x02000000"

definition Category_dBFT :: bytes where
  "Category_dBFT = [0x64, 0x42, 0x46, 0x54]"

record change_view =
  newViewNumber :: byte
  cv_timestamp :: u64
  reason :: byte

record prepare_request =
  pr_version :: u32
  pr_prevHash :: hash
  pr_timestamp :: u64
  pr_nonce :: u64
  pr_nextConsensus :: address
  pr_transactionHashes :: "hash list"

record change_view_compact =
  cvc_ValidatorIndex :: byte
  cvc_OriginalViewNumber :: byte
  cvc_Timestamp :: u64
  cvc_InvocationScript :: bytes

record commit_compact =
  cc_ViewNumber :: byte
  cc_ValidatorIndex :: byte
  cc_Signature :: signature
  cc_InvocationScript :: bytes

record preparation_compact =
  pc_ValidatorIndex :: byte
  pc_InvocationScript :: bytes

text \<open>The prepare request inside a recovery message is a whole message; its type is checked.\<close>

record request_message =
  rq_BlockIndex :: u32
  rq_ValidatorIndex :: byte
  rq_ViewNumber :: byte
  rq_request :: prepare_request

record recovery_message =
  preparationHash :: "hash option"
  preparationPayloads :: "preparation_compact list"
  commitPayloads :: "commit_compact list"
  changeViewPayloads :: "change_view_compact list"
  prepareRequest :: "request_message option"

datatype message_body =
    ChangeView change_view
  | PrepareRequest prepare_request
  | PrepareResponse hash
  | Commit signature
  | RecoveryRequest u64
  | RecoveryMessage recovery_message

record message =
  msg_BlockIndex :: u32
  msg_ValidatorIndex :: byte
  msg_ViewNumber :: byte
  msg_payload :: message_body

record witness =
  InvocationScript :: bytes
  VerificationScript :: bytes

record extensible =
  Category :: bytes
  ValidBlockStart :: u32
  ValidBlockEnd :: u32
  Sender :: address
  Data :: "bytes option"
  Witness :: witness

record payload =
  Extensible :: extensible
  message :: message
  chainId :: u64

fun Type_of :: "message_body \<Rightarrow> byte" where
  "Type_of (ChangeView _) = 0x00"
| "Type_of (PrepareRequest _) = 0x20"
| "Type_of (PrepareResponse _) = 0x21"
| "Type_of (Commit _) = 0x30"
| "Type_of (RecoveryRequest _) = 0x40"
| "Type_of (RecoveryMessage _) = 0x41"

section \<open>Encoding\<close>

definition encode_change_view :: "change_view \<Rightarrow> bin_writer \<Rightarrow> bin_writer" where
  "encode_change_view c w = WriteB (reason c) (WriteU64LE (cv_timestamp c) w)"

definition encode_prepare_request :: "prepare_request \<Rightarrow> bin_writer \<Rightarrow> bin_writer" where
  "encode_prepare_request p w =
     (let w1 = WriteU32LE (pr_version p) w;
          w2 = WriteBytes (pr_prevHash p) w1;
          w3 = WriteU64LE (pr_timestamp p) w2;
          w4 = WriteU64LE (pr_nonce p) w3;
          w5 = WriteBytes (pr_nextConsensus p) w4;
          w6 = WriteVarUint (of_nat (length (pr_transactionHashes p))) w5 in
      fold WriteBytes (pr_transactionHashes p) w6)"

definition encode_change_view_compact :: "change_view_compact \<Rightarrow> bin_writer \<Rightarrow> bin_writer" where
  "encode_change_view_compact p w =
     WriteVarBytes (cvc_InvocationScript p) (WriteU64LE (cvc_Timestamp p)
       (WriteB (cvc_OriginalViewNumber p) (WriteB (cvc_ValidatorIndex p) w)))"

definition encode_commit_compact :: "commit_compact \<Rightarrow> bin_writer \<Rightarrow> bin_writer" where
  "encode_commit_compact p w =
     WriteVarBytes (cc_InvocationScript p) (WriteBytes (cc_Signature p)
       (WriteB (cc_ValidatorIndex p) (WriteB (cc_ViewNumber p) w)))"

definition encode_preparation_compact :: "preparation_compact \<Rightarrow> bin_writer \<Rightarrow> bin_writer" where
  "encode_preparation_compact p w =
     WriteVarBytes (pc_InvocationScript p) (WriteB (pc_ValidatorIndex p) w)"

definition encode_header :: "byte \<Rightarrow> u32 \<Rightarrow> byte \<Rightarrow> byte \<Rightarrow> bin_writer \<Rightarrow> bin_writer" where
  "encode_header t i v n w = WriteB n (WriteB v (WriteU32LE i (WriteB t w)))"

definition encode_request_message :: "request_message \<Rightarrow> bin_writer \<Rightarrow> bin_writer" where
  "encode_request_message m w = encode_prepare_request (rq_request m)
     (encode_header 0x20 (rq_BlockIndex m) (rq_ValidatorIndex m) (rq_ViewNumber m) w)"

definition encode_recovery_message :: "recovery_message \<Rightarrow> bin_writer \<Rightarrow> bin_writer" where
  "encode_recovery_message m w =
     (let w1 = WriteArray encode_change_view_compact (changeViewPayloads m) w;
          w2 = WriteBool (prepareRequest m \<noteq> None) w1;
          w3 = (case prepareRequest m of
                  Some r \<Rightarrow> encode_request_message r w2
                | None \<Rightarrow> (case preparationHash m of
                      None \<Rightarrow> WriteVarUint 0 w2
                    | Some h \<Rightarrow> WriteBytes h (WriteVarUint 32 w2)));
          w4 = WriteArray encode_preparation_compact (preparationPayloads m) w3 in
      WriteArray encode_commit_compact (commitPayloads m) w4)"

fun encode_body :: "message_body \<Rightarrow> bin_writer \<Rightarrow> bin_writer" where
  "encode_body (ChangeView c) w = encode_change_view c w"
| "encode_body (PrepareRequest p) w = encode_prepare_request p w"
| "encode_body (PrepareResponse h) w = WriteBytes h w"
| "encode_body (Commit s) w = WriteBytes s w"
| "encode_body (RecoveryRequest ts) w = WriteU64LE ts w"
| "encode_body (RecoveryMessage m) w = encode_recovery_message m w"

definition encode_message :: "message \<Rightarrow> bin_writer \<Rightarrow> bin_writer" where
  "encode_message m w = encode_body (msg_payload m)
     (encode_header (Type_of (msg_payload m)) (msg_BlockIndex m) (msg_ValidatorIndex m) (msg_ViewNumber m) w)"

definition encodeBinaryUnsigned :: "extensible \<Rightarrow> bin_writer \<Rightarrow> bin_writer" where
  "encodeBinaryUnsigned e w =
     WriteVarBytes (case Data e of None \<Rightarrow> [] | Some d \<Rightarrow> d) (WriteBytes (Sender e)
       (WriteU32LE (ValidBlockEnd e) (WriteU32LE (ValidBlockStart e) (WriteString (Category e) w))))"

definition encode_witness :: "witness \<Rightarrow> bin_writer \<Rightarrow> bin_writer" where
  "encode_witness x w = WriteVarBytes (VerificationScript x) (WriteVarBytes (InvocationScript x) w)"

definition encode_extensible :: "extensible \<Rightarrow> bin_writer \<Rightarrow> bin_writer" where
  "encode_extensible e w = encode_witness (Witness e) (WriteB 1 (encodeBinaryUnsigned e w))"

text \<open>\<open>encodeData\<close> fills the envelope from the message unless it already holds data.\<close>

definition encodeData :: "payload \<Rightarrow> payload" where
  "encodeData p =
     (if Data (Extensible p) = None then
        p\<lparr>Extensible := (Extensible p)
            \<lparr>ValidBlockStart := 0, ValidBlockEnd := msg_BlockIndex (message p),
             Data := fst (Bytes (encode_message (message p) NewBufBinWriter))\<rparr>\<rparr>
      else p)"

definition encode_payload :: "payload \<Rightarrow> bin_writer \<Rightarrow> bin_writer" where
  "encode_payload p w = encode_extensible (Extensible (encodeData p)) w"

definition createHash :: "(bytes \<Rightarrow> hash) \<Rightarrow> extensible \<Rightarrow> hash" where
  "createHash K e = K (the (fst (Bytes (encodeBinaryUnsigned e NewBufBinWriter))))"

definition Hash :: "(bytes \<Rightarrow> hash) \<Rightarrow> payload \<Rightarrow> hash" where
  "Hash K p = createHash K (Extensible (encodeData p))"

section \<open>Decoding\<close>

definition decode_change_view :: "byte \<Rightarrow> bin_reader \<Rightarrow> change_view \<times> bin_reader" where
  "decode_change_view v r = (let (ts, r1) = ReadU64LE r; (re, r2) = ReadB r1 in
     (\<lparr>newViewNumber = v + 1, cv_timestamp = ts, reason = re\<rparr>, r2))"

definition decode_prepare_request :: "bin_reader \<Rightarrow> prepare_request \<times> bin_reader" where
  "decode_prepare_request r =
     (let (ver, r1) = ReadU32LE r;
          (prev, r2) = ReadBytes (replicate 32 0) r1;
          (ts, r3) = ReadU64LE r2;
          (non, r4) = ReadU64LE r3;
          (nc, r5) = ReadBytes (replicate 20 0) r4;
          (n, r6) = ReadVarUint r5;
          n' = min n (of_nat MaxTransactionsPerBlock);
          (hs, r7) = ReadElems (ReadBytes (replicate 32 0)) (unat n') r6 in
      (\<lparr>pr_version = ver, pr_prevHash = prev, pr_timestamp = ts, pr_nonce = non,
        pr_nextConsensus = nc, pr_transactionHashes = hs\<rparr>, r7))"

definition or_nil :: "bytes option \<Rightarrow> bytes" where
  "or_nil b = (case b of None \<Rightarrow> [] | Some s \<Rightarrow> s)"

definition decode_change_view_compact :: "bin_reader \<Rightarrow> change_view_compact \<times> bin_reader" where
  "decode_change_view_compact r =
     (let (v, r1) = ReadB r; (n, r2) = ReadB r1; (ts, r3) = ReadU64LE r2;
          (s, r4) = ReadVarBytes 1024 r3 in
      (\<lparr>cvc_ValidatorIndex = v, cvc_OriginalViewNumber = n, cvc_Timestamp = ts,
        cvc_InvocationScript = or_nil s\<rparr>, r4))"

definition decode_commit_compact :: "bin_reader \<Rightarrow> commit_compact \<times> bin_reader" where
  "decode_commit_compact r =
     (let (n, r1) = ReadB r; (v, r2) = ReadB r1; (g, r3) = ReadBytes (replicate signatureSize 0) r2;
          (s, r4) = ReadVarBytes 1024 r3 in
      (\<lparr>cc_ViewNumber = n, cc_ValidatorIndex = v, cc_Signature = g, cc_InvocationScript = or_nil s\<rparr>, r4))"

definition decode_preparation_compact :: "bin_reader \<Rightarrow> preparation_compact \<times> bin_reader" where
  "decode_preparation_compact r =
     (let (v, r1) = ReadB r; (s, r2) = ReadVarBytes 1024 r1 in
      (\<lparr>pc_ValidatorIndex = v, pc_InvocationScript = or_nil s\<rparr>, r2))"

definition or_empty :: "'a list option \<Rightarrow> 'a list" where
  "or_empty b = (case b of None \<Rightarrow> [] | Some s \<Rightarrow> s)"

text \<open>
  A recovery message may hold a prepare request, which is read by the decoder of whole messages
  given as the first argument. The second component of its result is \<open>None\<close> where the code has
  left the field \<open>payload\<close> unset, which happens only together with an error.
\<close>

definition as_request :: "message option \<Rightarrow> request_message option" where
  "as_request m = (case m of
     None \<Rightarrow> None
   | Some x \<Rightarrow> (case msg_payload x of
        PrepareRequest p \<Rightarrow> Some \<lparr>rq_BlockIndex = msg_BlockIndex x, rq_ValidatorIndex = msg_ValidatorIndex x,
          rq_ViewNumber = msg_ViewNumber x, rq_request = p\<rparr>
      | _ \<Rightarrow> None))"

definition decode_hash_field :: "bin_reader \<Rightarrow> hash option \<times> bin_reader" where
  "decode_hash_field r =
     (let (l, r1) = ReadVarUint r in
      if l \<noteq> 0 then
        if l = 32 then (let (h, r2) = ReadBytes (replicate 32 0) r1 in (Some h, r2))
        else (None, r1\<lparr>Err := Some (Errorf ''invalid data'' 0)\<rparr>)
      else (None, r1))"

definition decode_recovery_message ::
    "(bin_reader \<Rightarrow> message option \<times> bin_reader) \<Rightarrow> bin_reader \<Rightarrow> recovery_message \<times> bin_reader" where
  "decode_recovery_message dec r =
     (let (cv, r1) = ReadArray decode_change_view_compact MaxArraySize r;
          (hasReq, r2) = ReadBool r1 in
      if hasReq then
        let (m, r3) = dec r2; rq = as_request m in
        if Err r3 = None \<and> rq = None then
          (\<lparr>preparationHash = None, preparationPayloads = [], commitPayloads = [],
            changeViewPayloads = or_empty cv, prepareRequest = None\<rparr>,
           r3\<lparr>Err := Some (Errorf ''recovery message PrepareRequest has wrong type'' 0)\<rparr>)
        else
          let (ps, r4) = ReadArray decode_preparation_compact MaxArraySize r3;
              (cs, r5) = ReadArray decode_commit_compact MaxArraySize r4 in
          (\<lparr>preparationHash = None, preparationPayloads = or_empty ps, commitPayloads = or_empty cs,
            changeViewPayloads = or_empty cv, prepareRequest = rq\<rparr>, r5)
      else
        let (h, r3) = decode_hash_field r2;
            (ps, r4) = ReadArray decode_preparation_compact MaxArraySize r3;
            (cs, r5) = ReadArray decode_commit_compact MaxArraySize r4 in
        (\<lparr>preparationHash = h, preparationPayloads = or_empty ps, commitPayloads = or_empty cs,
          changeViewPayloads = or_empty cv, prepareRequest = None\<rparr>, r5))"

text \<open>
  The decoder of messages. The fuel bounds the nesting of messages in recovery messages: every
  level reads at least one byte, so a length above that of the buffer is always enough.
\<close>

primrec decode_message :: "nat \<Rightarrow> bin_reader \<Rightarrow> message option \<times> bin_reader" where
  "decode_message 0 r = (None, r)"
| "decode_message (Suc fuel) r =
     (let (t, r1) = ReadB r;
          (i, r2) = ReadU32LE r1;
          (v, r3) = ReadB r2;
          (n, r4) = ReadB r3;
          mk = (\<lambda>b. Some \<lparr>msg_BlockIndex = i, msg_ValidatorIndex = v, msg_ViewNumber = n, msg_payload = b\<rparr>) in
      if t = 0x00 then (let (c, r5) = decode_change_view n r4 in (mk (ChangeView c), r5))
      else if t = 0x20 then (let (p, r5) = decode_prepare_request r4 in (mk (PrepareRequest p), r5))
      else if t = 0x21 then (let (h, r5) = ReadBytes (replicate 32 0) r4 in (mk (PrepareResponse h), r5))
      else if t = 0x30 then (let (s, r5) = ReadBytes (replicate signatureSize 0) r4 in (mk (Commit s), r5))
      else if t = 0x40 then (let (ts, r5) = ReadU64LE r4 in (mk (RecoveryRequest ts), r5))
      else if t = 0x41 then
        (let (m, r5) = decode_recovery_message (decode_message fuel) r4 in (mk (RecoveryMessage m), r5))
      else (None, r4\<lparr>Err := Some (Errorf ''invalid type: 0x%02x'' (ucast t))\<rparr>))"

text \<open>\<open>decodeData\<close>: the message of an envelope, or the error.\<close>

definition decodeData :: "bytes \<Rightarrow> io_error + message" where
  "decodeData d =
     (let (m, br) = decode_message (Suc (length d)) (NewBinReaderFromBuf d) in
      case Err br of Some e \<Rightarrow> Inl e
      | None \<Rightarrow> (case m of None \<Rightarrow> Inl EOF | Some x \<Rightarrow> Inr x))"

definition decode_witness :: "bin_reader \<Rightarrow> witness \<times> bin_reader" where
  "decode_witness r =
     (let (a, r1) = ReadVarBytes MaxInvocationScript r; (b, r2) = ReadVarBytes MaxVerificationScript r1 in
      (\<lparr>InvocationScript = or_nil a, VerificationScript = or_nil b\<rparr>, r2))"

definition decodeBinaryUnsigned :: "bin_reader \<Rightarrow> extensible \<times> bin_reader" where
  "decodeBinaryUnsigned r =
     (let (c, r1) = ReadString maxExtensibleCategorySize r;
          (s, r2) = ReadU32LE r1;
          (e, r3) = ReadU32LE r2;
          (a, r4) = ReadBytes (replicate 20 0) r3;
          (d, r5) = ReadVarBytes MaxSize r4 in
      (\<lparr>Category = c, ValidBlockStart = s, ValidBlockEnd = e, Sender = a, Data = d,
        Witness = \<lparr>InvocationScript = [], VerificationScript = []\<rparr>\<rparr>, r5))"

definition decode_extensible :: "bin_reader \<Rightarrow> extensible \<times> bin_reader" where
  "decode_extensible r =
     (let (x, r1) = decodeBinaryUnsigned r; (b, r2) = ReadB r1 in
      if b \<noteq> 1 then
        (x, if Err r2 \<noteq> None then r2 else r2\<lparr>Err := Some (Errorf ''invalid padding'' 0)\<rparr>)
      else (let (w, r3) = decode_witness r2 in (x\<lparr>Witness := w\<rparr>, r3)))"

section \<open>Recovery messages\<close>

text \<open>What the code derives from a validator's public key.\<close>

record key_ops =
  Address :: "pubkey \<Rightarrow> address"
  CreateVerificationScript :: "pubkey \<Rightarrow> bytes"

text \<open>\<open>NewPayload\<close>, with an empty envelope but for the category.\<close>

definition fromPayload :: "message_body \<Rightarrow> payload \<Rightarrow> payload" where
  "fromPayload b rec =
     \<lparr>Extensible = \<lparr>Category = Category_dBFT, ValidBlockStart = 0,
         ValidBlockEnd = msg_BlockIndex (message rec), Sender = replicate 20 0, Data = None,
         Witness = \<lparr>InvocationScript = [], VerificationScript = []\<rparr>\<rparr>,
      message = \<lparr>msg_BlockIndex = msg_BlockIndex (message rec), msg_ValidatorIndex = 0,
         msg_ViewNumber = msg_ViewNumber (message rec), msg_payload = b\<rparr>,
      chainId = chainId rec\<rparr>"

text \<open>
  \<open>SetValidatorIndex\<close>, the sender and the witness of a message taken from a recovery message;
  \<open>None\<close> is the panic of \<open>validators[i]\<close> when the index is out of range.
\<close>

definition attributed :: "key_ops \<Rightarrow> pubkey list \<Rightarrow> byte \<Rightarrow> bytes \<Rightarrow> payload \<Rightarrow> payload option" where
  "attributed ko validators i script p =
     (if unat i < length validators then
        Some (p\<lparr>Extensible := (Extensible p)\<lparr>Sender := Address ko (validators ! unat i),
            Witness := \<lparr>InvocationScript = script,
              VerificationScript = CreateVerificationScript ko (validators ! unat i)\<rparr>\<rparr>,
          message := (message p)\<lparr>msg_ValidatorIndex := i\<rparr>\<rparr>)
      else None)"

definition AddPayload :: "(bytes \<Rightarrow> hash) \<Rightarrow> payload \<Rightarrow> recovery_message \<Rightarrow> recovery_message" where
  "AddPayload K p m =
     (let v = msg_ValidatorIndex (message p); script = InvocationScript (Witness (Extensible p));
          pc = \<lparr>pc_ValidatorIndex = v, pc_InvocationScript = script\<rparr> in
      case msg_payload (message p) of
        PrepareRequest q \<Rightarrow>
          m\<lparr>prepareRequest := Some \<lparr>rq_BlockIndex = 0, rq_ValidatorIndex = 0,
               rq_ViewNumber = msg_ViewNumber (message p), rq_request = q\<rparr>,
            preparationHash := Some (Hash K p),
            preparationPayloads := preparationPayloads m @ [pc]\<rparr>
      | PrepareResponse h \<Rightarrow>
          m\<lparr>preparationPayloads := preparationPayloads m @ [pc],
            preparationHash := (case preparationHash m of None \<Rightarrow> Some h | Some h' \<Rightarrow> Some h')\<rparr>
      | ChangeView c \<Rightarrow>
          m\<lparr>changeViewPayloads := changeViewPayloads m @
             [\<lparr>cvc_ValidatorIndex = v, cvc_OriginalViewNumber = msg_ViewNumber (message p),
               cvc_Timestamp = cv_timestamp c * nsInMs div nsInMs, cvc_InvocationScript = script\<rparr>]\<rparr>
      | Commit s \<Rightarrow>
          m\<lparr>commitPayloads := commitPayloads m @
             [\<lparr>cc_ViewNumber = msg_ViewNumber (message p), cc_ValidatorIndex = v, cc_Signature = s,
               cc_InvocationScript = script\<rparr>]\<rparr>
      | _ \<Rightarrow> m)"

text \<open>The outer option is the panic, the inner one the \<open>nil\<close> result.\<close>

definition GetPrepareRequest ::
    "key_ops \<Rightarrow> recovery_message \<Rightarrow> payload \<Rightarrow> pubkey list \<Rightarrow> u16 \<Rightarrow> payload option option" where
  "GetPrepareRequest ko m p validators primary =
     (case prepareRequest m of
        None \<Rightarrow> Some None
      | Some r \<Rightarrow>
          (case find (\<lambda>c. pc_ValidatorIndex c = ucast primary) (preparationPayloads m) of
             None \<Rightarrow> Some None
           | Some c \<Rightarrow>
               if unat primary < length validators then
                 map_option Some (attributed ko validators (ucast primary) (pc_InvocationScript c)
                   (fromPayload (PrepareRequest (rq_request r)) p))
               else None))"

definition those_map :: "('a \<Rightarrow> 'b option) \<Rightarrow> 'a list \<Rightarrow> 'b list option" where
  "those_map f xs = those (map f xs)"

definition GetPrepareResponses ::
    "key_ops \<Rightarrow> recovery_message \<Rightarrow> payload \<Rightarrow> pubkey list \<Rightarrow> payload list option" where
  "GetPrepareResponses ko m p validators =
     (case preparationHash m of
        None \<Rightarrow> Some []
      | Some h \<Rightarrow> those_map (\<lambda>c. attributed ko validators (pc_ValidatorIndex c) (pc_InvocationScript c)
            (fromPayload (PrepareResponse h) p)) (preparationPayloads m))"

definition GetChangeViews ::
    "key_ops \<Rightarrow> recovery_message \<Rightarrow> payload \<Rightarrow> pubkey list \<Rightarrow> payload list option" where
  "GetChangeViews ko m p validators =
     those_map (\<lambda>c. attributed ko validators (cvc_ValidatorIndex c) (cvc_InvocationScript c)
       (let q = fromPayload (ChangeView \<lparr>newViewNumber = cvc_OriginalViewNumber c + 1,
                  cv_timestamp = cvc_Timestamp c, reason = 0\<rparr>) p in
        q\<lparr>message := (message q)\<lparr>msg_ViewNumber := cvc_OriginalViewNumber c\<rparr>\<rparr>)) (changeViewPayloads m)"

definition GetCommits ::
    "key_ops \<Rightarrow> recovery_message \<Rightarrow> payload \<Rightarrow> pubkey list \<Rightarrow> payload list option" where
  "GetCommits ko m p validators =
     those_map (\<lambda>c. attributed ko validators (cc_ValidatorIndex c) (cc_InvocationScript c)
       (fromPayload (Commit (cc_Signature c)) p)) (commitPayloads m)"

section \<open>The fuel of the decoder\<close>

lemma compact_shrinks:
  "length (Reader (snd (decode_change_view_compact r))) \<le> length (Reader r)"
  "length (Reader (snd (decode_commit_compact r))) \<le> length (Reader r)"
  "length (Reader (snd (decode_preparation_compact r))) \<le> length (Reader r)"
proof -
  have B: "length (Reader (snd (ReadB r))) \<le> length (Reader r)" for r
    using ReadB_shrinks(1) [of r "fst (ReadB r)" "snd (ReadB r)"] by simp
  note le = B read_fixed_shrinks ReadBytes_shrinks ReadVarBytes_shrinks
  show "length (Reader (snd (decode_change_view_compact r))) \<le> length (Reader r)"
    unfolding decode_change_view_compact_def split_def Let_def snd_conv
    by (meson le order_trans)
  show "length (Reader (snd (decode_commit_compact r))) \<le> length (Reader r)"
    unfolding decode_commit_compact_def split_def Let_def snd_conv
    by (meson le order_trans)
  show "length (Reader (snd (decode_preparation_compact r))) \<le> length (Reader r)"
    unfolding decode_preparation_compact_def split_def Let_def snd_conv
    by (meson le order_trans)
qed

lemma decode_recovery_message_cong:
  assumes "\<And>r'. length (Reader r') \<le> length (Reader r) \<Longrightarrow> dec r' = dec' r'"
  shows "decode_recovery_message dec r = decode_recovery_message dec' r"
proof -
  let ?r2 = "snd (ReadBool (snd (ReadArray decode_change_view_compact MaxArraySize r)))"
  have "length (Reader (snd (ReadBool r'))) \<le> length (Reader r')" for r'
    using ReadB_shrinks(1) [of r' "fst (ReadB r')" "snd (ReadB r')"]
    by (simp add: ReadBool_def split_def Let_def)
  then have "length (Reader ?r2) \<le> length (Reader r)"
    using ReadArray_shrinks [OF compact_shrinks(1), of MaxArraySize r] order_trans by blast
  from assms [OF this] show ?thesis
    unfolding decode_recovery_message_def split_def Let_def by simp
qed

lemma decode_message_more:
  "length (Reader r) < f \<Longrightarrow> decode_message (Suc f) r = decode_message f r"
proof (induction f arbitrary: r)
  case (Suc f)
  obtain t r1 where t: "ReadB r = (t, r1)" by fastforce
  obtain i r2 where i: "ReadU32LE r1 = (i, r2)" by fastforce
  obtain v r3 where v: "ReadB r2 = (v, r3)" by fastforce
  obtain n r4 where n: "ReadB r3 = (n, r4)" by fastforce
  have "decode_recovery_message (decode_message (Suc f)) r4 = decode_recovery_message (decode_message f) r4"
    if "t = 0x41"
  proof (rule decode_recovery_message_cong, rule Suc.IH)
    fix r' :: bin_reader
    assume r': "length (Reader r') \<le> length (Reader r4)"
    have "Err r1 = None"
      using t that by (auto simp: ReadB_def split_def Let_def split: if_splits)
    then have "length (Reader r1) < length (Reader r)" using ReadB_shrinks(2) [OF t] by blast
    moreover have "length (Reader r2) \<le> length (Reader r1)" using read_fixed_shrinks(2) [of r1] i by simp
    moreover have "length (Reader r3) \<le> length (Reader r2)" using ReadB_shrinks(1) [OF v] .
    moreover have "length (Reader r4) \<le> length (Reader r3)" using ReadB_shrinks(1) [OF n] .
    ultimately show "length (Reader r') < f" using r' Suc.prems by linarith
  qed
  then show ?case
    by (subst (1 2) decode_message.simps) (auto simp: t i v n Let_def simp del: decode_message.simps)
qed simp

lemma decode_message_enough:
  assumes "length (Reader r) < f" and "f \<le> g"
  shows "decode_message g r = decode_message f r"
  using assms(2)
proof (induction rule: dec_induct)
  case (step m)
  then show ?case using decode_message_more [of r m] assms(1) by simp
qed simp

section \<open>Round trips\<close>

definition wf_request :: "prepare_request \<Rightarrow> bool" where
  "wf_request p \<longleftrightarrow> length (pr_prevHash p) = 32 \<and> length (pr_nextConsensus p) = 20 \<and>
     list_all (\<lambda>h. length h = 32) (pr_transactionHashes p) \<and>
     length (pr_transactionHashes p) \<le> MaxTransactionsPerBlock"

definition request_bytes :: "prepare_request \<Rightarrow> bytes" where
  "request_bytes p = put_le 4 (pr_version p) @ pr_prevHash p @ put_le 8 (pr_timestamp p) @
     put_le 8 (pr_nonce p) @ pr_nextConsensus p @
     var_uint (of_nat (length (pr_transactionHashes p))) @ concat (pr_transactionHashes p)"

definition wf_cvc :: "change_view_compact \<Rightarrow> bool" where
  "wf_cvc p \<longleftrightarrow> length (cvc_InvocationScript p) \<le> 1024"

definition wf_cc :: "commit_compact \<Rightarrow> bool" where
  "wf_cc p \<longleftrightarrow> length (cc_InvocationScript p) \<le> 1024 \<and> length (cc_Signature p) = signatureSize"

definition wf_pc :: "preparation_compact \<Rightarrow> bool" where
  "wf_pc p \<longleftrightarrow> length (pc_InvocationScript p) \<le> 1024"

interpretation hash_codec: codec WriteBytes "ReadBytes (replicate 32 0)" "\<lambda>h. h" "\<lambda>h. length h = 32"
  by unfold_locales (simp_all add: codec_simps)

lemma unat_tx_count:
  "n \<le> MaxTransactionsPerBlock \<Longrightarrow> unat (min (of_nat n :: u64) (of_nat MaxTransactionsPerBlock)) = n"
  by (simp add: min_def word_le_nat_alt unat_of_nat take_bit_nat_eq_self MaxTransactionsPerBlock_def)

interpretation request_codec: codec encode_prepare_request decode_prepare_request request_bytes wf_request
proof
  show "encode_prepare_request x w = WriteBytes (request_bytes x) w" for x w
    using hash_codec.fold_enc [of "pr_transactionHashes x"]
    by (simp add: encode_prepare_request_def request_bytes_def WriteU32LE_def WriteU64LE_def
        WriteVarUint_eq Let_def)
  show "decode_prepare_request (rd (request_bytes x @ rest)) = (x, rd rest)" if "wf_request x" for x rest
    using that hash_codec.ReadElems_bytes [of "pr_transactionHashes x" rest] unat_tx_count
    by (simp add: decode_prepare_request_def request_bytes_def wf_request_def codec_simps)
qed

definition cvc_bytes :: "change_view_compact \<Rightarrow> bytes" where
  "cvc_bytes p = [cvc_ValidatorIndex p, cvc_OriginalViewNumber p] @ put_le 8 (cvc_Timestamp p) @
     var_bytes (cvc_InvocationScript p)"

definition cc_bytes :: "commit_compact \<Rightarrow> bytes" where
  "cc_bytes p = [cc_ViewNumber p, cc_ValidatorIndex p] @ cc_Signature p @ var_bytes (cc_InvocationScript p)"

definition pc_bytes :: "preparation_compact \<Rightarrow> bytes" where
  "pc_bytes p = pc_ValidatorIndex p # var_bytes (pc_InvocationScript p)"

lemmas compact_enc_defs = encode_change_view_compact_def encode_commit_compact_def
  encode_preparation_compact_def WriteB_def WriteU64LE_def WriteVarBytes_eq

interpretation cvc_codec: codec encode_change_view_compact decode_change_view_compact cvc_bytes wf_cvc
  by unfold_locales (simp_all add: compact_enc_defs cvc_bytes_def wf_cvc_def
      decode_change_view_compact_def codec_simps or_nil_def)

interpretation cc_codec: codec encode_commit_compact decode_commit_compact cc_bytes wf_cc
  by unfold_locales (simp_all add: compact_enc_defs cc_bytes_def wf_cc_def signatureSize_def
      decode_commit_compact_def codec_simps or_nil_def)

interpretation pc_codec: codec encode_preparation_compact decode_preparation_compact pc_bytes wf_pc
  by unfold_locales (simp_all add: compact_enc_defs pc_bytes_def wf_pc_def
      decode_preparation_compact_def codec_simps or_nil_def)

text \<open>
  What survives the wire: a change view is one to the next view, and all lengths respect the limits
  of the readers.
\<close>

definition wf_recovery :: "recovery_message \<Rightarrow> bool" where
  "wf_recovery m \<longleftrightarrow>
     list_all wf_pc (preparationPayloads m) \<and> list_all wf_cc (commitPayloads m) \<and>
     list_all wf_cvc (changeViewPayloads m) \<and> length (preparationPayloads m) \<le> MaxArraySize \<and>
     length (commitPayloads m) \<le> MaxArraySize \<and> length (changeViewPayloads m) \<le> MaxArraySize \<and>
     (case prepareRequest m of
        Some r \<Rightarrow> wf_request (rq_request r)
      | None \<Rightarrow> (case preparationHash m of None \<Rightarrow> True | Some h \<Rightarrow> length h = 32))"

fun wf_body :: "byte \<Rightarrow> message_body \<Rightarrow> bool" where
  "wf_body v (ChangeView c) \<longleftrightarrow> newViewNumber c = v + 1"
| "wf_body v (PrepareRequest p) \<longleftrightarrow> wf_request p"
| "wf_body v (PrepareResponse h) \<longleftrightarrow> length h = 32"
| "wf_body v (Commit s) \<longleftrightarrow> length s = signatureSize"
| "wf_body v (RecoveryRequest ts) \<longleftrightarrow> True"
| "wf_body v (RecoveryMessage m) \<longleftrightarrow> wf_recovery m"

text \<open>
  What is sent of a message: \<open>AddPayload\<close> notes the hash of a prepare request beside the request, but
  a recovery message with a request is written without that hash.
\<close>

definition sent_recovery :: "recovery_message \<Rightarrow> recovery_message" where
  "sent_recovery m = (if prepareRequest m = None then m else m\<lparr>preparationHash := None\<rparr>)"

definition sent :: "message \<Rightarrow> message" where
  "sent m = (case msg_payload m of
     RecoveryMessage r \<Rightarrow> m\<lparr>msg_payload := RecoveryMessage (sent_recovery r)\<rparr>
   | _ \<Rightarrow> m)"

definition wf_message :: "message \<Rightarrow> bool" where
  "wf_message m \<longleftrightarrow> wf_body (msg_ViewNumber m) (msg_payload m)"

definition header_bytes :: "byte \<Rightarrow> u32 \<Rightarrow> byte \<Rightarrow> byte \<Rightarrow> bytes" where
  "header_bytes t i v n = t # put_le 4 i @ [v, n]"

definition array_bytes :: "('a \<Rightarrow> bytes) \<Rightarrow> 'a list \<Rightarrow> bytes" where
  "array_bytes f xs = var_uint (of_nat (length xs)) @ concat (map f xs)"

definition middle_bytes :: "recovery_message \<Rightarrow> bytes" where
  "middle_bytes m = (case prepareRequest m of
     Some r \<Rightarrow> 1 # header_bytes 0x20 (rq_BlockIndex r) (rq_ValidatorIndex r) (rq_ViewNumber r) @
       request_bytes (rq_request r)
   | None \<Rightarrow> 0 # (case preparationHash m of None \<Rightarrow> var_uint 0 | Some h \<Rightarrow> var_uint 32 @ h))"

definition recovery_bytes :: "recovery_message \<Rightarrow> bytes" where
  "recovery_bytes m = array_bytes cvc_bytes (changeViewPayloads m) @ middle_bytes m @
     array_bytes pc_bytes (preparationPayloads m) @ array_bytes cc_bytes (commitPayloads m)"

fun body_bytes :: "message_body \<Rightarrow> bytes" where
  "body_bytes (ChangeView c) = put_le 8 (cv_timestamp c) @ [reason c]"
| "body_bytes (PrepareRequest p) = request_bytes p"
| "body_bytes (PrepareResponse h) = h"
| "body_bytes (Commit s) = s"
| "body_bytes (RecoveryRequest ts) = put_le 8 ts"
| "body_bytes (RecoveryMessage m) = recovery_bytes m"

definition message_bytes :: "message \<Rightarrow> bytes" where
  "message_bytes m = header_bytes (Type_of (msg_payload m)) (msg_BlockIndex m) (msg_ValidatorIndex m)
     (msg_ViewNumber m) @ body_bytes (msg_payload m)"

lemma encode_header_eq: "encode_header t i v n w = WriteBytes (header_bytes t i v n) w"
  by (simp add: encode_header_def header_bytes_def WriteB_def WriteU32LE_def)

lemma encode_recovery_eq: "encode_recovery_message m w = WriteBytes (recovery_bytes m) w"
  by (simp add: encode_recovery_message_def recovery_bytes_def middle_bytes_def array_bytes_def
      encode_request_message_def cvc_codec.WriteArray_bytes pc_codec.WriteArray_bytes
      cc_codec.WriteArray_bytes request_codec.enc_bytes encode_header_eq WriteBool_def WriteB_def
      WriteVarUint_eq Let_def split: option.splits)

lemma encode_message_eq: "encode_message m w = WriteBytes (message_bytes m) w"
  by (cases "msg_payload m")
    (simp_all add: encode_message_def message_bytes_def encode_header_eq encode_recovery_eq
      request_codec.enc_bytes encode_change_view_def WriteB_def WriteU64LE_def)

lemma decode_request_bytes:
  assumes "wf_request p"
  shows "decode_message (Suc f) (rd (header_bytes 0x20 i v n @ request_bytes p @ rest)) =
     (Some \<lparr>msg_BlockIndex = i, msg_ValidatorIndex = v, msg_ViewNumber = n, msg_payload = PrepareRequest p\<rparr>,
      rd rest)"
  using request_codec.dec_bytes [OF assms] by (simp add: header_bytes_def codec_simps)

lemma recovery_arrays:
  assumes "wf_recovery m"
  shows "ReadArray decode_change_view_compact MaxArraySize (rd (array_bytes cvc_bytes (changeViewPayloads m) @ rest)) =
      (Some (changeViewPayloads m), rd rest)"
    and "ReadArray decode_preparation_compact MaxArraySize (rd (array_bytes pc_bytes (preparationPayloads m) @ rest)) =
      (Some (preparationPayloads m), rd rest)"
    and "ReadArray decode_commit_compact MaxArraySize (rd (array_bytes cc_bytes (commitPayloads m) @ rest)) =
      (Some (commitPayloads m), rd rest)"
  using assms cvc_codec.ReadArray_bytes [of "changeViewPayloads m" MaxArraySize rest]
    pc_codec.ReadArray_bytes [of "preparationPayloads m" MaxArraySize rest]
    cc_codec.ReadArray_bytes [of "commitPayloads m" MaxArraySize rest]
  by (simp_all add: wf_recovery_def array_bytes_def MaxArraySize_def)

lemma ReadBool_bytes [codec_simps]: "ReadBool (rd (b # rest)) = (b \<noteq> 0, rd rest)"
  by (simp add: ReadBool_def codec_simps)

lemma decode_recovery_bytes:
  assumes "wf_recovery m"
  shows "decode_recovery_message (decode_message (Suc f)) (rd (recovery_bytes m @ rest)) = (sent_recovery m, rd rest)"
proof (cases "prepareRequest m")
  case (Some r)
  then have "wf_request (rq_request r)" using assms by (simp add: wf_recovery_def)
  then show ?thesis
    using Some decode_request_bytes [of "rq_request r" f] recovery_arrays [OF assms]
    by (simp add: decode_recovery_message_def recovery_bytes_def middle_bytes_def codec_simps
        as_request_def or_empty_def sent_recovery_def del: decode_message.simps)
next
  case None
  have "decode_hash_field (rd ((case preparationHash m of None \<Rightarrow> var_uint 0 | Some h \<Rightarrow> var_uint 32 @ h) @ rest)) =
      (preparationHash m, rd rest)" for rest
    using assms None
    by (cases "preparationHash m") (simp_all add: decode_hash_field_def wf_recovery_def codec_simps)
  then show ?thesis
    using None recovery_arrays [OF assms]
    by (simp add: decode_recovery_message_def recovery_bytes_def middle_bytes_def codec_simps or_empty_def sent_recovery_def)
qed

lemma decode_message_bytes:
  assumes "wf_message m"
  shows "decode_message (Suc (Suc f)) (rd (message_bytes m @ rest)) = (Some (sent m), rd rest)"
proof (cases "msg_payload m")
  case (RecoveryMessage x)
  then show ?thesis
    using assms decode_recovery_bytes [of x f]
    by (subst decode_message.simps) (simp add: sent_def wf_message_def message_bytes_def header_bytes_def codec_simps del: decode_message.simps)
next
  case (PrepareRequest x)
  then show ?thesis
    using assms request_codec.dec_bytes [of x]
    by (simp add: sent_def wf_message_def message_bytes_def header_bytes_def codec_simps)
qed (use assms in \<open>simp_all add: sent_def wf_message_def message_bytes_def header_bytes_def codec_simps decode_change_view_def\<close>)

lemma Data_encodeData:
  "Data (Extensible p) = None \<Longrightarrow> Data (Extensible (encodeData p)) = Some (message_bytes (message p))"
  by (simp add: encodeData_def encode_message_eq Bytes_WriteBytes_new)

lemma decodeData_bytes: "wf_message m \<Longrightarrow> decodeData (message_bytes m) = Inr (sent m)"
  using decode_message_bytes [of m "length (message_bytes m) - 1" "[]"]
  by (simp add: decodeData_def NewBinReaderFromBuf_def message_bytes_def header_bytes_def
      del: decode_message.simps)

definition unsigned_bytes :: "extensible \<Rightarrow> bytes" where
  "unsigned_bytes e = var_bytes (Category e) @ put_le 4 (ValidBlockStart e) @ put_le 4 (ValidBlockEnd e) @
     Sender e @ var_bytes (case Data e of None \<Rightarrow> [] | Some d \<Rightarrow> d)"

lemma encodeBinaryUnsigned_eq: "encodeBinaryUnsigned e w = WriteBytes (unsigned_bytes e) w"
  by (simp add: encodeBinaryUnsigned_def unsigned_bytes_def WriteVarBytes_eq WriteString_eq WriteU32LE_def)

lemma createHash_eq: "createHash K e = K (unsigned_bytes e)"
  by (simp add: createHash_def encodeBinaryUnsigned_eq Bytes_WriteBytes_new)

definition wf_extensible :: "extensible \<Rightarrow> bool" where
  "wf_extensible e \<longleftrightarrow> length (Category e) \<le> maxExtensibleCategorySize \<and> length (Sender e) = 20 \<and>
     (\<exists>d. Data e = Some d \<and> length d \<le> MaxSize) \<and>
     length (InvocationScript (Witness e)) \<le> MaxInvocationScript \<and>
     length (VerificationScript (Witness e)) \<le> MaxVerificationScript"

definition extensible_bytes :: "extensible \<Rightarrow> bytes" where
  "extensible_bytes e = unsigned_bytes e @ [1] @ var_bytes (InvocationScript (Witness e)) @
     var_bytes (VerificationScript (Witness e))"

interpretation extensible_codec: codec encode_extensible decode_extensible extensible_bytes wf_extensible
  by unfold_locales
    (auto simp: encode_extensible_def encode_witness_def extensible_bytes_def encodeBinaryUnsigned_eq
      WriteVarBytes_eq WriteB_def wf_extensible_def unsigned_bytes_def decode_extensible_def
      decodeBinaryUnsigned_def decode_witness_def ReadString_def codec_simps or_nil_def
      maxExtensibleCategorySize_def MaxSize_def MaxInvocationScript_def MaxVerificationScript_def)

section \<open>Properties\<close>

text \<open>
  C38. A consensus payload arrives as it was sent: decoding the binary form of a payload with a
  well-formed message succeeds, gives back the envelope, and decoding the data of the envelope
  gives back the message, recovery messages with all their parts included. The only thing that is
  lost is the hash of the prepare request that \<open>AddPayload\<close> notes in a recovery message beside the
  request itself.
\<close>

theorem payload_roundtrip:
  assumes "wf_message (message p)" and "Data (Extensible p) = None"
    and "wf_extensible (Extensible (encodeData p))"
  shows "\<exists>b. fst (Bytes (encode_payload p NewBufBinWriter)) = Some b \<and>
     decode_extensible (NewBinReaderFromBuf (b @ rest)) = (Extensible (encodeData p), NewBinReaderFromBuf rest) \<and>
     decodeData (the (Data (Extensible (encodeData p)))) = Inr (sent (message p))"
  using extensible_codec.dec_bytes [OF assms(3)] decodeData_bytes [OF assms(1)] Data_encodeData [OF assms(2)]
  by (simp add: encode_payload_def extensible_codec.enc_bytes Bytes_WriteBytes_new NewBinReaderFromBuf_def)

text \<open>A recovery message with a request and the hash of that request.\<close>

definition recovery_payload :: payload where
  "recovery_payload =
     \<lparr>Extensible = \<lparr>Category = Category_dBFT, ValidBlockStart = 0, ValidBlockEnd = 7,
        Sender = replicate 20 9, Data = None, Witness = \<lparr>InvocationScript = [1], VerificationScript = [2]\<rparr>\<rparr>,
      message = \<lparr>msg_BlockIndex = 7, msg_ValidatorIndex = 1, msg_ViewNumber = 0,
        msg_payload = RecoveryMessage \<lparr>preparationHash = Some (replicate 32 8),
          preparationPayloads = [\<lparr>pc_ValidatorIndex = 1, pc_InvocationScript = [1]\<rparr>], commitPayloads = [],
          changeViewPayloads = [],
          prepareRequest = Some \<lparr>rq_BlockIndex = 0, rq_ValidatorIndex = 0, rq_ViewNumber = 0,
            rq_request = \<lparr>pr_version = 0, pr_prevHash = replicate 32 0, pr_timestamp = 5, pr_nonce = 6,
              pr_nextConsensus = replicate 20 0, pr_transactionHashes = [replicate 32 3]\<rparr>\<rparr>\<rparr>\<rparr>,
      chainId = 1\<rparr>"

theorem payload_roundtrip_witness:
  "\<exists>b. fst (Bytes (encode_payload recovery_payload NewBufBinWriter)) = Some b \<and>
     decode_extensible (NewBinReaderFromBuf (b @ [4])) =
       (Extensible (encodeData recovery_payload), NewBinReaderFromBuf [4]) \<and>
     decodeData (the (Data (Extensible (encodeData recovery_payload)))) = Inr (sent (message recovery_payload))"
proof -
  have d: "Data (Extensible recovery_payload) = None" by (simp add: recovery_payload_def)
  have "wf_extensible (Extensible (encodeData recovery_payload))"
    using Data_encodeData [OF d]
    by (simp add: wf_extensible_def encodeData_def d)
      (simp add: recovery_payload_def message_bytes_def header_bytes_def recovery_bytes_def middle_bytes_def array_bytes_def
        pc_bytes_def var_bytes_def request_bytes_def length_var_uint
        maxExtensibleCategorySize_def Category_dBFT_def MaxSize_def MaxInvocationScript_def MaxVerificationScript_def)
  moreover have "wf_message (message recovery_payload)"
    by (simp add: recovery_payload_def wf_message_def wf_recovery_def wf_pc_def wf_request_def MaxTransactionsPerBlock_def
        MaxInvocationScript_def MaxArraySize_def)
  ultimately show ?thesis using payload_roundtrip [of recovery_payload "[4]"] d by blast
qed

definition sample_payload :: payload where
  "sample_payload =
     \<lparr>Extensible = \<lparr>Category = Category_dBFT, ValidBlockStart = 0, ValidBlockEnd = 7,
        Sender = replicate 20 9, Data = None, Witness = \<lparr>InvocationScript = [1], VerificationScript = [2]\<rparr>\<rparr>,
      message = \<lparr>msg_BlockIndex = 7, msg_ValidatorIndex = 1, msg_ViewNumber = 0,
        msg_payload = PrepareRequest \<lparr>pr_version = 0, pr_prevHash = replicate 32 0, pr_timestamp = 5,
          pr_nonce = 6, pr_nextConsensus = replicate 20 0, pr_transactionHashes = [replicate 32 3]\<rparr>\<rparr>,
      chainId = 1\<rparr>"

text \<open>
  The payload of a validator as \<open>newPayload\<close> builds it, before or after the envelope was filled.
\<close>

definition own_payload :: "key_ops \<Rightarrow> pubkey list \<Rightarrow> payload \<Rightarrow> bool" where
  "own_payload ko validators p \<longleftrightarrow>
     (let e = Extensible p; m = message p in
      unat (msg_ValidatorIndex m) < length validators \<and> Category e = Category_dBFT \<and>
      ValidBlockStart e = 0 \<and> ValidBlockEnd e = msg_BlockIndex m \<and>
      Sender e = Address ko (validators ! unat (msg_ValidatorIndex m)) \<and>
      (Data e = None \<or> Data e = Some (message_bytes m)))"

lemma Hash_own_payload:
  assumes "own_payload ko validators p"
  shows "Hash K p = K (var_bytes Category_dBFT @ put_le 4 (0 :: u32) @ put_le 4 (msg_BlockIndex (message p)) @
     Address ko (validators ! unat (msg_ValidatorIndex (message p))) @ var_bytes (message_bytes (message p)))"
  using assms
  by (cases "Data (Extensible p) = None")
    (auto simp: own_payload_def Hash_def createHash_eq unsigned_bytes_def Let_def Data_encodeData,
     auto simp: encodeData_def)

text \<open>
  A prepare request survives recovery: from a recovery message of the same height and view to
  which the primary's request was added, \<open>GetPrepareRequest\<close> rebuilds a request with the hash of
  the original and its signature, so that the responses, which name the request by its hash, still
  match it.
\<close>

theorem recovered_request_hash:
  assumes "own_payload ko validators p" and "msg_payload (message p) = PrepareRequest q"
    and "msg_BlockIndex (message r) = msg_BlockIndex (message p)"
    and "msg_ViewNumber (message r) = msg_ViewNumber (message p)"
    and "\<forall>c \<in> set (preparationPayloads m). pc_ValidatorIndex c \<noteq> msg_ValidatorIndex (message p)"
  shows "\<exists>p'. GetPrepareRequest ko (AddPayload K p m) r validators (ucast (msg_ValidatorIndex (message p))) = Some (Some p') \<and>
     Hash K p' = Hash K p \<and> preparationHash (AddPayload K p m) = Some (Hash K p) \<and>
     InvocationScript (Witness (Extensible p')) = InvocationScript (Witness (Extensible p))"
proof -
  let ?v = "msg_ValidatorIndex (message p)"
  let ?c = "\<lparr>pc_ValidatorIndex = ?v, pc_InvocationScript = InvocationScript (Witness (Extensible p))\<rparr>"
  have v: "unat ?v < length validators" using assms(1) by (simp add: own_payload_def Let_def)
  have uv: "unat (ucast ?v :: u16) = unat ?v" by (simp add: unsigned_ucast_eq take_bit_nat_eq_self order_less_le_trans [OF unsigned_less])
  have vv: "ucast (ucast ?v :: u16) = ?v" using ucast_ucast_unat [of ?v] by (simp add: ucast_up_ucast_id is_up)
  have f: "find (\<lambda>c. pc_ValidatorIndex c = ?v) (xs @ [?c]) = Some ?c"
    if "\<forall>c \<in> set xs. pc_ValidatorIndex c \<noteq> ?v" for xs
    using that by (induction xs) simp_all
  let ?p = "(fromPayload (PrepareRequest q) r)\<lparr>message := (message (fromPayload (PrepareRequest q) r))\<lparr>msg_ValidatorIndex := ?v\<rparr>,
      Extensible := (Extensible (fromPayload (PrepareRequest q) r))\<lparr>Sender := Address ko (validators ! unat ?v),
        Witness := \<lparr>InvocationScript = InvocationScript (Witness (Extensible p)),
          VerificationScript = CreateVerificationScript ko (validators ! unat ?v)\<rparr>\<rparr>\<rparr>"
  have "GetPrepareRequest ko (AddPayload K p m) r validators (ucast ?v) = Some (Some ?p)"
    using assms(2) v f [OF assms(5)] by (simp add: GetPrepareRequest_def AddPayload_def attributed_def uv vv)
  moreover have "message ?p = message p"
    using assms(2-4) by (cases "message p") (simp add: fromPayload_def)
  moreover from this have "own_payload ko validators ?p"
    using assms(3) v by (simp add: own_payload_def fromPayload_def Let_def)
  ultimately show ?thesis
    using Hash_own_payload [OF assms(1), of K] Hash_own_payload [of ko validators ?p K] assms(2)
    by (simp add: AddPayload_def Let_def)
qed

theorem recovered_request_hash_witness:
  "\<exists>p'. GetPrepareRequest \<lparr>Address = \<lambda>k. k, CreateVerificationScript = \<lambda>k. 0 # k\<rparr>
       (AddPayload (\<lambda>b. b) sample_payload \<lparr>preparationHash = None, preparationPayloads = [], commitPayloads = [],
          changeViewPayloads = [], prepareRequest = None\<rparr>)
       (sample_payload\<lparr>message := (message sample_payload)\<lparr>msg_ValidatorIndex := 0, msg_payload := RecoveryRequest 0\<rparr>\<rparr>)
       [replicate 20 8, replicate 20 9] 1 = Some (Some p') \<and> Hash (\<lambda>b. b) p' = Hash (\<lambda>b. b) sample_payload"
proof -
  let ?r = "sample_payload\<lparr>message := (message sample_payload)\<lparr>msg_ValidatorIndex := 0, msg_payload := RecoveryRequest 0\<rparr>\<rparr>"
  have m: "msg_ValidatorIndex (message sample_payload) = 1" by (simp add: sample_payload_def)
  show ?thesis
    using recovered_request_hash [where ko = "\<lparr>Address = \<lambda>k. k, CreateVerificationScript = \<lambda>k. 0 # k\<rparr>"
        and validators = "[replicate 20 8, replicate 20 9]" and p = sample_payload and r = ?r and K = "\<lambda>b. b"
        and m = "\<lparr>preparationHash = None, preparationPayloads = [], commitPayloads = [],
          changeViewPayloads = [], prepareRequest = None\<rparr>"] m
    by (fastforce simp: own_payload_def sample_payload_def)
qed

end
