(* ===== verification/Dbft.thy ===== *)
theory Dbft
  imports ConsensusPayload "HOL-Library.AList"
begin

text \<open>
  The dBFT consensus of src/pkg/dbft (context.go, send.go, check.go, dbft.go, helpers.go and
  timer/timer.go) as the consensus service instantiates it (src/pkg/consensus/consensus.go). One
  node is a record; an operation maps a node to a node, or to a panic with its message. The calls
  the node makes to the outside are appended to its trace \<open>effects\<close>: payloads broadcast,
  transactions requested, headers signed, blocks handed to \<open>ProcessBlock\<close> together with the height
  of the ledger when the call returns (the ledger may have refused the block). Everything the node
  asks of the chain, the memory pool, the clock and the source of randomness is a function of an
  abstract \<open>world\<close>, which only \<open>ProcessBlock\<close> and the note of the last proposal change; between
  two operations the environment may change it.

  The slices indexed by validator have the length of \<open>Validators\<close> from \<open>reset\<close> on; reading such a
  slice is \<open>slot\<close>, which is \<open>nil\<close> beyond the end. \<open>LastSeenMessage\<close> need not have that length, and
  an access beyond its end is a panic of the model.
\<close>

section \<open>Data\<close>

type_synonym tx = bytes
type_synonym i64 = "64 word"

text \<open>\<open>timer.HV\<close> and the timer. Instants are nanoseconds since the Unix epoch.\<close>

record hv =
  Height :: u32
  View :: byte

record timer =
  t_HV :: hv
  t_s :: int
  t_d :: i64
  t_tt :: "int option"
  t_ch :: "int option"

text \<open>The hashable part of a block, as \<open>newBlockFromContext\<close> fills it.\<close>

record hdr =
  hd_Timestamp :: u64
  hd_Nonce :: u64
  hd_Index :: u32
  hd_PrevHash :: hash
  hd_Version :: u32
  hd_NextConsensus :: address
  hd_PrimaryIndex :: byte
  hd_MerkleRoot :: hash

type_synonym blk = "hdr \<times> tx list"

datatype effect =
    Broadcast payload
  | RequestTx "hash list"
  | Sign hdr
  | ProcessBlock blk u32

record inbox =
  prepare :: "(u16 \<times> payload) list"
  chViews :: "(u16 \<times> payload) list"
  commit :: "(u16 \<times> payload) list"

type_synonym cache = "(u32 \<times> inbox) list"

record 'w dbft =
  Priv :: privkey
  Pub :: pubkey
  block :: "blk option"
  header :: "hdr option"
  BlockIndex :: u32
  ViewNumber :: byte
  Validators :: "pubkey list"
  MyIndex :: int
  PrimaryIndex :: nat
  Version :: u32
  NextConsensus :: address
  PrevHash :: hash
  Timestamp :: u64
  Nonce :: u64
  TransactionHashes :: "hash list"
  MissingTransactions :: "hash list"
  Transactions :: "(hash \<times> tx) list"
  PreparationPayloads :: "payload option list"
  CommitPayloads :: "payload option list"
  ChangeViewPayloads :: "payload option list"
  LastChangeViewPayloads :: "payload option list"
  LastSeenMessage :: "hv option list option"
  lastBlockTime :: int
  lastBlockIndex :: u32
  cache :: cache
  recovering :: bool
  Timer :: timer
  world :: 'w
  effects :: "effect list"

text \<open>
  What the node calls. \<open>AddBlock\<close> is \<open>processBlock\<close> of the service: the block with its witness goes to the
  ledger, which may refuse it, and then, in either case, \<open>postBlock\<close> notes the block's time.
\<close>

record 'w config =
  SecondsPerBlock :: i64
  TimestampIncrement :: u64
  ChainID :: u64
  MaxTxPerBlock :: nat
  Keccak :: "bytes \<Rightarrow> hash"
  Keys :: key_ops
  PublicKeyOf :: "privkey \<Rightarrow> pubkey"
  SignPayload :: "privkey \<Rightarrow> u64 \<Rightarrow> hash \<Rightarrow> bytes"
  SignHeader :: "privkey \<Rightarrow> hdr \<Rightarrow> signature"
  VerifyHeader :: "pubkey \<Rightarrow> signature \<Rightarrow> hdr \<Rightarrow> bool"
  TxHash :: "tx \<Rightarrow> hash"
  CalcMerkle :: "hash list \<Rightarrow> hash"
  GetConsensusAddress :: "pubkey list \<Rightarrow> address"
  GetAccount :: "address \<Rightarrow> privkey option"
  WatchOnlyMode :: bool
  GetTx :: "'w \<Rightarrow> hash \<Rightarrow> tx option"
  GetVerified :: "'w \<Rightarrow> byte \<Rightarrow> tx list"
  VerifyBlock :: "'w \<Rightarrow> blk \<Rightarrow> bool"
  AddBlock :: "blk \<Rightarrow> pubkey list \<Rightarrow> signature list \<Rightarrow> 'w \<Rightarrow> 'w"
  SetLastProposal :: "hash list \<Rightarrow> 'w \<Rightarrow> 'w"
  CurrentHeight :: "'w \<Rightarrow> u32"
  CurrentBlockHash :: "'w \<Rightarrow> hash"
  GetValidators :: "'w \<Rightarrow> u32 \<Rightarrow> pubkey list"
  Now :: "'w \<Rightarrow> int"
  Rand :: "'w \<Rightarrow> u64"

type_synonym 'a outcome = "string + 'a"

definition slot :: "'a option list \<Rightarrow> nat \<Rightarrow> 'a option" where
  "slot xs i = (if i < length xs then xs ! i else None)"

text \<open>Reading a payload: validator, height, view and the numbers inside.\<close>

abbreviation ValidatorIndex :: "payload \<Rightarrow> nat" where
  "ValidatorIndex p \<equiv> unat (msg_ValidatorIndex (message p))"

abbreviation MsgHeight :: "payload \<Rightarrow> u32" where
  "MsgHeight p \<equiv> msg_BlockIndex (message p)"

abbreviation MsgView :: "payload \<Rightarrow> byte" where
  "MsgView p \<equiv> msg_ViewNumber (message p)"

abbreviation Body :: "payload \<Rightarrow> message_body" where
  "Body p \<equiv> msg_payload (message p)"

definition NewViewNumber :: "payload \<Rightarrow> byte" where
  "NewViewNumber p = (case Body p of ChangeView c \<Rightarrow> newViewNumber c | _ \<Rightarrow> 0)"

definition CommitSignature :: "payload \<Rightarrow> signature" where
  "CommitSignature p = (case Body p of Commit s \<Rightarrow> s | _ \<Rightarrow> [])"

definition is_request :: "payload \<Rightarrow> bool" where
  "is_request p = (case Body p of PrepareRequest _ \<Rightarrow> True | _ \<Rightarrow> False)"

section \<open>Time\<close>

definition max_i64 :: int where "max_i64 = 2 ^ 63 - 1"

text \<open>\<open>t.Sub(u)\<close> saturates.\<close>

definition time_sub :: "int \<Rightarrow> int \<Rightarrow> i64" where
  "time_sub t u = word_of_int (max (- max_i64 - 1) (min max_i64 (t - u)))"

definition TimerReset :: "int \<Rightarrow> hv \<Rightarrow> i64 \<Rightarrow> timer \<Rightarrow> timer" where
  "TimerReset now h d t =
     (if d \<noteq> 0 then t\<lparr>t_s := now, t_d := d, t_HV := h, t_tt := Some (now + sint d)\<rparr>
      else t\<lparr>t_s := now, t_d := d, t_HV := h, t_tt := None, t_ch := Some now\<rparr>)"

definition TimerExtend :: "int \<Rightarrow> i64 \<Rightarrow> timer \<Rightarrow> timer" where
  "TimerExtend now d t =
     (let d' = t_d t + d; elapsed = time_sub now (t_s t); t1 = t\<lparr>t_d := d'\<rparr> in
      if sint d' > sint elapsed then t1\<lparr>t_tt := Some (now + sint (d' - elapsed))\<rparr> else t1)"

text \<open>Go's division and remainder truncate towards zero.\<close>

definition go_quot :: "int \<Rightarrow> int \<Rightarrow> int" where
  "go_quot x y = sgn x * sgn y * (\<bar>x\<bar> div \<bar>y\<bar>)"

definition go_rem :: "int \<Rightarrow> int \<Rightarrow> int" where
  "go_rem x y = sgn x * (\<bar>x\<bar> mod \<bar>y\<bar>)"

section \<open>context.go\<close>

definition N :: "'w dbft \<Rightarrow> nat" where
  "N d = length (Validators d)"

definition F :: "'w dbft \<Rightarrow> nat" where
  "F d = (length (Validators d) - 1) div 3"

definition M :: "'w dbft \<Rightarrow> nat" where
  "M d = length (Validators d) - F d"

definition GetPrimaryIndex :: "byte \<Rightarrow> 'w dbft \<Rightarrow> nat outcome" where
  "GetPrimaryIndex v d =
     (if Validators d = [] then Inl ''integer divide by zero''
      else let p = go_rem (uint (BlockIndex d) - uint v) (int (N d)) in
        Inr (nat (if p \<ge> 0 then p else p + int (N d))))"

definition IsPrimary :: "'w dbft \<Rightarrow> bool" where
  "IsPrimary d = (MyIndex d = int (PrimaryIndex d))"

definition IsBackup :: "'w dbft \<Rightarrow> bool" where
  "IsBackup d = (MyIndex d \<ge> 0 \<and> \<not> IsPrimary d)"

definition WatchOnly :: "'w config \<Rightarrow> 'w dbft \<Rightarrow> bool" where
  "WatchOnly cfg d = (MyIndex d < 0 \<or> WatchOnlyMode cfg)"

definition mine :: "'w dbft \<Rightarrow> 'a option list \<Rightarrow> 'a option" where
  "mine d xs = slot xs (nat (MyIndex d))"

definition CountCommitted :: "'w dbft \<Rightarrow> nat" where
  "CountCommitted d = length (filter (\<lambda>p. p \<noteq> None) (CommitPayloads d))"

definition CountFailed :: "'w dbft \<Rightarrow> nat" where
  "CountFailed d = length (filter (\<lambda>h. case h of None \<Rightarrow> True
     | Some h \<Rightarrow> Height h < BlockIndex d \<or> View h < ViewNumber d)
     (case LastSeenMessage d of None \<Rightarrow> [] | Some hs \<Rightarrow> hs))"

definition RequestSentOrReceived :: "'w dbft \<Rightarrow> bool" where
  "RequestSentOrReceived d = (slot (PreparationPayloads d) (PrimaryIndex d) \<noteq> None)"

definition ResponseSent :: "'w config \<Rightarrow> 'w dbft \<Rightarrow> bool" where
  "ResponseSent cfg d = (\<not> WatchOnly cfg d \<and> mine d (PreparationPayloads d) \<noteq> None)"

definition CommitSent :: "'w config \<Rightarrow> 'w dbft \<Rightarrow> bool" where
  "CommitSent cfg d = (\<not> WatchOnly cfg d \<and> mine d (CommitPayloads d) \<noteq> None)"

definition BlockSent :: "'w dbft \<Rightarrow> bool" where
  "BlockSent d = (block d \<noteq> None)"

definition ViewChanging :: "'w config \<Rightarrow> 'w dbft \<Rightarrow> bool" where
  "ViewChanging cfg d = (\<not> WatchOnly cfg d \<and>
     (case mine d (ChangeViewPayloads d) of None \<Rightarrow> False | Some p \<Rightarrow> NewViewNumber p > ViewNumber d))"

definition MoreThanFNodesCommittedOrLost :: "'w dbft \<Rightarrow> bool" where
  "MoreThanFNodesCommittedOrLost d = (CountCommitted d + CountFailed d > F d)"

definition NotAcceptingPayloadsDueToViewChanging :: "'w config \<Rightarrow> 'w dbft \<Rightarrow> bool" where
  "NotAcceptingPayloadsDueToViewChanging cfg d = (ViewChanging cfg d \<and> \<not> MoreThanFNodesCommittedOrLost d)"

definition hasAllTransactions :: "'w dbft \<Rightarrow> bool" where
  "hasAllTransactions d = (length (TransactionHashes d) = length (Transactions d))"

text \<open>
  \<open>getKeyPair\<close> of the service: the first validator whose address has an account in the wallet,
  with the account's key (unlocked with the configured password).
\<close>

fun find_account :: "'w config \<Rightarrow> int \<Rightarrow> pubkey list \<Rightarrow> int \<times> privkey \<times> pubkey" where
  "find_account cfg i [] = (-1, [], [])"
| "find_account cfg i (k # ks) = (case GetAccount cfg (Address (Keys cfg) k) of
     None \<Rightarrow> find_account cfg (i + 1) ks
   | Some key \<Rightarrow> (i, key, PublicKeyOf cfg key))"

definition getKeyPair :: "'w config \<Rightarrow> pubkey list \<Rightarrow> int \<times> privkey \<times> pubkey" where
  "getKeyPair cfg pubs = find_account cfg 0 pubs"

text \<open>\<open>reset(view)\<close>: a new height for view 0, otherwise a new view of the same height.\<close>

definition reset_height :: "'w config \<Rightarrow> 'w dbft \<Rightarrow> 'w dbft" where
  "reset_height cfg d =
     (let w = world d; i = CurrentHeight cfg w + 1; vs = GetValidators cfg w i; n = length vs in
      d\<lparr>PrevHash := CurrentBlockHash cfg w, BlockIndex := i, Validators := vs,
        LastChangeViewPayloads := replicate n None,
        LastSeenMessage := (case LastSeenMessage d of
            None \<Rightarrow> Some (replicate n None) | Some hs \<Rightarrow> Some hs)\<rparr>)"

definition reset_view :: "byte \<Rightarrow> 'w dbft \<Rightarrow> 'w dbft" where
  "reset_view v d = d\<lparr>LastChangeViewPayloads := map (\<lambda>i. case slot (ChangeViewPayloads d) i of
       Some m \<Rightarrow> if NewViewNumber m < v then Some m else None
     | None \<Rightarrow> None) [0..<length (Validators d)]\<rparr>"

definition see :: "nat \<Rightarrow> u32 \<Rightarrow> byte \<Rightarrow> 'w dbft \<Rightarrow> 'w dbft outcome" where
  "see i h v d = (case LastSeenMessage d of
     None \<Rightarrow> Inl ''index out of range''
   | Some hs \<Rightarrow>
       if i < length hs then Inr (d\<lparr>LastSeenMessage := Some (hs[i := Some \<lparr>Height = h, View = v\<rparr>])\<rparr>)
       else Inl ''index out of range'')"

definition reset :: "'w config \<Rightarrow> byte \<Rightarrow> 'w dbft \<Rightarrow> 'w dbft outcome" where
  "reset cfg v d =
     (let d1 = (if v = 0 then reset_height cfg (d\<lparr>MyIndex := -1\<rparr>) else reset_view v (d\<lparr>MyIndex := -1\<rparr>));
          (my, priv, pub) = getKeyPair cfg (Validators d1);
          n = length (Validators d1);
          d2 = d1\<lparr>MyIndex := my, Priv := priv, Pub := pub, block := None, header := None,
            ChangeViewPayloads := replicate n None, CommitPayloads := replicate n None,
            PreparationPayloads := replicate n None, Transactions := [], TransactionHashes := [],
            MissingTransactions := []\<rparr> in
      bind_res (GetPrimaryIndex v d2) (\<lambda>p.
        let d3 = d2\<lparr>PrimaryIndex := p, ViewNumber := v\<rparr> in
        if my \<ge> 0 then see (nat my) (BlockIndex d3) v d3 else Inr d3))"

definition getTimestamp :: "'w config \<Rightarrow> 'w dbft \<Rightarrow> u64" where
  "getTimestamp cfg d = word_of_int (Now cfg (world d)) div TimestampIncrement cfg * TimestampIncrement cfg"

definition Fill :: "'w config \<Rightarrow> 'w dbft \<Rightarrow> 'w dbft" where
  "Fill cfg d =
     (let txx = GetVerified cfg (world d) (ViewNumber d); now = getTimestamp cfg d in
      d\<lparr>Nonce := Rand cfg (world d),
        TransactionHashes := map (TxHash cfg) txx,
        Transactions := fold (\<lambda>tx. AList.update (TxHash cfg tx) tx) txx (Transactions d),
        NextConsensus := GetConsensusAddress cfg (GetValidators cfg (world d) (BlockIndex d + 1)),
        Timestamp := (if now > Timestamp d + TimestampIncrement cfg then now
          else Timestamp d + TimestampIncrement cfg)\<rparr>)"

text \<open>\<open>newBlockFromContext\<close> of the service.\<close>

definition newBlockFromContext :: "'w config \<Rightarrow> 'w dbft \<Rightarrow> hdr" where
  "newBlockFromContext cfg d =
     \<lparr>hd_Timestamp = Timestamp d div nsInMs, hd_Nonce = Nonce d, hd_Index = BlockIndex d,
      hd_PrevHash = PrevHash d, hd_Version = Version d,
      hd_NextConsensus = GetConsensusAddress cfg (GetValidators cfg (world d) (BlockIndex d + 1)),
      hd_PrimaryIndex = of_nat (PrimaryIndex d), hd_MerkleRoot = CalcMerkle cfg (TransactionHashes d)\<rparr>"

definition MakeHeader :: "'w config \<Rightarrow> 'w dbft \<Rightarrow> hdr option \<times> 'w dbft" where
  "MakeHeader cfg d = (case header d of
     Some h \<Rightarrow> (Some h, d)
   | None \<Rightarrow>
       if \<not> RequestSentOrReceived d then (None, d)
       else let h = newBlockFromContext cfg d in (Some h, d\<lparr>header := Some h\<rparr>))"

text \<open>\<open>CreateBlock\<close>; a proposed transaction that is not in the map makes \<open>SetTransactions\<close> panic.\<close>

definition CreateBlock :: "'w config \<Rightarrow> 'w dbft \<Rightarrow> (blk option \<times> 'w dbft) outcome" where
  "CreateBlock cfg d = (case block d of
     Some b \<Rightarrow> Inr (Some b, d)
   | None \<Rightarrow>
       (case MakeHeader cfg d of
          (None, d1) \<Rightarrow> Inr (None, d1)
        | (Some h, d1) \<Rightarrow>
            (case those (map (map_of (Transactions d1)) (TransactionHashes d1)) of
               None \<Rightarrow> Inl ''interface conversion: interface is nil''
             | Some txx \<Rightarrow> Inr (Some (h, txx), d1\<lparr>block := Some (h, txx)\<rparr>))))"

section \<open>Timers and payloads\<close>

definition changeTimer :: "'w config \<Rightarrow> i64 \<Rightarrow> 'w dbft \<Rightarrow> 'w dbft" where
  "changeTimer cfg delay d = d\<lparr>Timer := TimerReset (Now cfg (world d))
     \<lparr>Height = BlockIndex d, View = ViewNumber d\<rparr> delay (Timer d)\<rparr>"

definition extendTimer :: "'w config \<Rightarrow> i64 \<Rightarrow> 'w dbft \<Rightarrow> 'w dbft" where
  "extendTimer cfg n d =
     (if \<not> CommitSent cfg d \<and> \<not> ViewChanging cfg d then
        d\<lparr>Timer := TimerExtend (Now cfg (world d))
            (word_of_int (go_quot (sint (n * SecondsPerBlock cfg)) (int (M d)))) (Timer d)\<rparr>
      else d)"

text \<open>\<open>SecondsPerBlock << v\<close> with the view number, a byte, as shift count.\<close>

definition shifted :: "'w config \<Rightarrow> byte \<Rightarrow> i64" where
  "shifted cfg v = push_bit (unat v) (SecondsPerBlock cfg)"

text \<open>
  \<open>newPayload\<close> of the service. It indexes \<open>Validators\<close> with \<open>MyIndex\<close>; all its callers are
  reached only on a node that is a validator.
\<close>

definition newPayload :: "'w config \<Rightarrow> 'w dbft \<Rightarrow> message_body \<Rightarrow> payload" where
  "newPayload cfg d b =
     \<lparr>Extensible = \<lparr>Category = Category_dBFT, ValidBlockStart = 0, ValidBlockEnd = BlockIndex d,
        Sender = Address (Keys cfg) (Validators d ! nat (MyIndex d)), Data = None,
        Witness = \<lparr>InvocationScript = [], VerificationScript = []\<rparr>\<rparr>,
      message = \<lparr>msg_BlockIndex = BlockIndex d, msg_ValidatorIndex = word_of_int (MyIndex d),
        msg_ViewNumber = ViewNumber d, msg_payload = b\<rparr>,
      chainId = ChainID cfg\<rparr>"

text \<open>
  \<open>service.broadcast\<close> signs the payload, which fills its envelope, before it is sent; the payload
  kept in a slot is the same object. The result is the signed payload.
\<close>

definition signed :: "'w config \<Rightarrow> 'w dbft \<Rightarrow> payload \<Rightarrow> payload" where
  "signed cfg d p =
     (let q = encodeData (p\<lparr>message := (message p)\<lparr>msg_ValidatorIndex := word_of_int (MyIndex d)\<rparr>\<rparr>) in
      q\<lparr>Extensible := (Extensible q)\<lparr>Witness :=
        \<lparr>InvocationScript = SignPayload cfg (Priv d) (chainId q) (createHash (Keccak cfg) (Extensible q)),
         VerificationScript = CreateVerificationScript (Keys cfg) (PublicKeyOf cfg (Priv d))\<rparr>\<rparr>\<rparr>)"

definition broadcast :: "'w config \<Rightarrow> payload \<Rightarrow> 'w dbft \<Rightarrow> 'w dbft" where
  "broadcast cfg p d = d\<lparr>effects := effects d @ [Broadcast (signed cfg d p)]\<rparr>"

definition InitializeConsensus :: "'w config \<Rightarrow> byte \<Rightarrow> 'w dbft \<Rightarrow> 'w dbft outcome" where
  "InitializeConsensus cfg v d = bind_res (reset cfg v d) (\<lambda>d.
     if WatchOnly cfg d then Inr d
     else
       let timeout = (if IsPrimary d \<and> \<not> recovering d then (if v = 0 then SecondsPerBlock cfg else 0)
             else shifted cfg (ViewNumber d + 1));
           timeout' = (if lastBlockIndex d + 1 = BlockIndex d then
               (let t = timeout - time_sub (Now cfg (world d)) (lastBlockTime d) in
                if sint t < 0 then 0 else t)
             else timeout) in
       Inr (changeTimer cfg timeout' d))"

section \<open>send.go and check.go\<close>

text \<open>
  \<open>getBlockWitness\<close> of the service: the signatures of the first \<open>M\<close> commits of this view, in the order
  of the validators; a place that no commit fills stays empty. The ledger gets them with the keys.
\<close>

definition getBlockWitness :: "'w dbft \<Rightarrow> signature list" where
  "getBlockWitness d =
     (let sigs = take (M d) (concat (map (\<lambda>p. case p of
            None \<Rightarrow> [] | Some m \<Rightarrow> if MsgView m = ViewNumber d then [CommitSignature m] else []) (CommitPayloads d))) in
      sigs @ replicate (M d - length sigs) [])"

text \<open>\<open>checkCommit\<close>: with \<open>M\<close> commits of this view the block is made, processed, and the next height begins.\<close>

definition checkCommit :: "'w config \<Rightarrow> 'w dbft \<Rightarrow> 'w dbft outcome" where
  "checkCommit cfg d =
     (if \<not> hasAllTransactions d then Inr d
      else if length (filter (\<lambda>p. case p of None \<Rightarrow> False | Some m \<Rightarrow> MsgView m = ViewNumber d)
          (CommitPayloads d)) < M d then Inr d
      else bind_res (CreateBlock cfg (d\<lparr>lastBlockIndex := BlockIndex d, lastBlockTime := Now cfg (world d)\<rparr>))
        (\<lambda>(b, d1). case b of
           None \<Rightarrow> Inl ''nil pointer dereference''
         | Some b \<Rightarrow> let w = AddBlock cfg b (Validators d1) (getBlockWitness d1) (world d1) in InitializeConsensus cfg 0
             (d1\<lparr>world := w, effects := effects d1 @ [ProcessBlock b (CurrentHeight cfg w)]\<rparr>)))"

text \<open>\<open>makeCommit\<close> and \<open>sendCommit\<close>: a stored commit is sent again, otherwise the header is signed.\<close>

definition sendCommit :: "'w config \<Rightarrow> 'w dbft \<Rightarrow> 'w dbft outcome" where
  "sendCommit cfg d = (case mine d (CommitPayloads d) of
     Some p \<Rightarrow> Inr (broadcast cfg p (d\<lparr>CommitPayloads := (CommitPayloads d)[nat (MyIndex d) := Some (signed cfg d p)]\<rparr>))
   | None \<Rightarrow>
       (case MakeHeader cfg d of
          (None, d1) \<Rightarrow> Inl ''nil pointer dereference''
        | (Some h, d1) \<Rightarrow>
            let d2 = d1\<lparr>effects := effects d1 @ [Sign h]\<rparr>;
                p = newPayload cfg d2 (Commit (SignHeader cfg (Priv d2) h)) in
            Inr (broadcast cfg p (d2\<lparr>CommitPayloads := (CommitPayloads d2)[nat (MyIndex d2) := Some (signed cfg d2 p)]\<rparr>))))"

definition checkPrepare :: "'w config \<Rightarrow> 'w dbft \<Rightarrow> 'w dbft outcome" where
  "checkPrepare cfg d =
     (if \<not> hasAllTransactions d then Inr d
      else
        let n = length (filter (\<lambda>p. case p of None \<Rightarrow> False | Some m \<Rightarrow> MsgView m = ViewNumber d) (PreparationPayloads d));
            hasRequest = list_ex (\<lambda>p. case p of None \<Rightarrow> False | Some m \<Rightarrow> is_request m) (PreparationPayloads d) in
        if hasRequest \<and> n \<ge> M d then
          bind_res (sendCommit cfg d) (\<lambda>d1. checkCommit cfg (changeTimer cfg (SecondsPerBlock cfg) d1))
        else Inr d)"

definition makePrepareRequest :: "'w config \<Rightarrow> 'w dbft \<Rightarrow> payload \<times> 'w dbft" where
  "makePrepareRequest cfg d =
     (let d1 = Fill cfg d in
      (newPayload cfg d1 (PrepareRequest
         \<lparr>pr_version = Version d1, pr_prevHash = PrevHash d1, pr_timestamp = Timestamp d1 div nsInMs,
          pr_nonce = Nonce d1, pr_nextConsensus = NextConsensus d1,
          pr_transactionHashes = TransactionHashes d1\<rparr>), d1))"

definition sendPrepareRequest :: "'w config \<Rightarrow> 'w dbft \<Rightarrow> 'w dbft outcome" where
  "sendPrepareRequest cfg d =
     (let (p, d1) = makePrepareRequest cfg d;
          d2 = broadcast cfg p (d1\<lparr>PreparationPayloads := (PreparationPayloads d1)[nat (MyIndex d1) := Some (signed cfg d1 p)]\<rparr>);
          delay = shifted cfg (ViewNumber d2 + 1);
          delay' = (if ViewNumber d2 = 0 then delay - SecondsPerBlock cfg else delay) in
      checkPrepare cfg (changeTimer cfg delay' d2))"

text \<open>\<open>makeChangeView\<close> followed by \<open>broadcast\<close>.\<close>

definition broadcastChangeView :: "'w config \<Rightarrow> byte \<Rightarrow> 'w dbft \<Rightarrow> 'w dbft" where
  "broadcastChangeView cfg re d =
     (let p = newPayload cfg d (ChangeView \<lparr>newViewNumber = ViewNumber d + 1,
            cv_timestamp = word_of_int (Now cfg (world d)) div nsInMs, reason = re\<rparr>) in
      broadcast cfg p (d\<lparr>ChangeViewPayloads := (ChangeViewPayloads d)[nat (MyIndex d) := Some (signed cfg d p)]\<rparr>))"

definition CVTimeout :: byte where "CVTimeout = 0"
definition CVChangeAgreement :: byte where "CVChangeAgreement = 1"
definition CVTxNotFound :: byte where "CVTxNotFound = 2"
definition CVTxInvalid :: byte where "CVTxInvalid = 4"
definition CVBlockRejectedByPolicy :: byte where "CVBlockRejectedByPolicy = 5"

definition checkChangeView :: "'w config \<Rightarrow> byte \<Rightarrow> 'w dbft \<Rightarrow> 'w dbft outcome" where
  "checkChangeView cfg v d =
     (if ViewNumber d \<ge> v then Inr d
      else if length (filter (\<lambda>p. case p of None \<Rightarrow> False | Some m \<Rightarrow> NewViewNumber m \<ge> v)
          (ChangeViewPayloads d)) < M d then Inr d
      else InitializeConsensus cfg v
        (if \<not> WatchOnly cfg d \<and>
            (case mine d (ChangeViewPayloads d) of None \<Rightarrow> False | Some m \<Rightarrow> NewViewNumber m < v)
         then broadcastChangeView cfg CVChangeAgreement d else d))"

definition processMissingTx :: "'w config \<Rightarrow> 'w dbft \<Rightarrow> 'w dbft" where
  "processMissingTx cfg d =
     (let (missing, txs) = fold (\<lambda>h (ms, ts).
             if map_of ts h \<noteq> None then (ms, ts)
             else (case GetTx cfg (world d) h of
                None \<Rightarrow> (ms @ [h], ts)
              | Some tx \<Rightarrow> (ms, AList.update h tx ts)))
           (TransactionHashes d) ([], Transactions d);
          d1 = d\<lparr>Transactions := txs\<rparr> in
      if missing \<noteq> [] then d1\<lparr>MissingTransactions := missing, effects := effects d1 @ [RequestTx missing]\<rparr>
      else d1)"

definition sendRecoveryRequest :: "'w config \<Rightarrow> 'w dbft \<Rightarrow> 'w dbft" where
  "sendRecoveryRequest cfg d =
     (let d1 = (if RequestSentOrReceived d \<and> \<not> hasAllTransactions d then processMissingTx cfg d else d) in
      broadcast cfg (newPayload cfg d1 (RecoveryRequest (word_of_int (Now cfg (world d1)) div nsInMs))) d1)"

definition sendChangeView :: "'w config \<Rightarrow> byte \<Rightarrow> 'w dbft \<Rightarrow> 'w dbft outcome" where
  "sendChangeView cfg re d =
     (if WatchOnly cfg d then Inr d
      else
        let newView = ViewNumber d + 1;
            d1 = changeTimer cfg (shifted cfg (newView + 1)) d in
        if CountCommitted d1 + CountFailed d1 > F d1 then Inr (sendRecoveryRequest cfg d1)
        else checkChangeView cfg newView
          (broadcastChangeView cfg (if \<not> hasAllTransactions d1 \<and> re = CVTimeout then CVTxNotFound else re) d1))"

text \<open>\<open>makePrepareResponse\<close> and \<open>sendPrepareResponse\<close>.\<close>

definition sendPrepareResponse :: "'w config \<Rightarrow> 'w dbft \<Rightarrow> 'w dbft outcome" where
  "sendPrepareResponse cfg d = (case slot (PreparationPayloads d) (PrimaryIndex d) of
     None \<Rightarrow> Inl ''nil pointer dereference''
   | Some m \<Rightarrow>
       let p = newPayload cfg d (PrepareResponse (Hash (Keccak cfg) m)) in
       Inr (broadcast cfg p (d\<lparr>PreparationPayloads := (PreparationPayloads d)[nat (MyIndex d) := Some (signed cfg d p)]\<rparr>)))"

definition empty_recovery :: recovery_message where
  "empty_recovery = \<lparr>preparationHash = None, preparationPayloads = [], commitPayloads = [],
     changeViewPayloads = [], prepareRequest = None\<rparr>"

definition add_payloads :: "'w config \<Rightarrow> payload option list \<Rightarrow> recovery_message \<Rightarrow> recovery_message" where
  "add_payloads cfg ps m = fold (\<lambda>p m. case p of None \<Rightarrow> m | Some q \<Rightarrow> AddPayload (Keccak cfg) q m) ps m"

definition makeRecoveryMessage :: "'w config \<Rightarrow> 'w dbft \<Rightarrow> payload" where
  "makeRecoveryMessage cfg d =
     (let m1 = add_payloads cfg (PreparationPayloads d) empty_recovery;
          m2 = add_payloads cfg (LastChangeViewPayloads d) m1;
          m3 = (if CommitSent cfg d then add_payloads cfg (CommitPayloads d) m2 else m2) in
      newPayload cfg d (RecoveryMessage m3))"

definition sendRecoveryMessage :: "'w config \<Rightarrow> 'w dbft \<Rightarrow> 'w dbft" where
  "sendRecoveryMessage cfg d = broadcast cfg (makeRecoveryMessage cfg d) d"

section \<open>helpers.go: messages from the future\<close>

definition newInbox :: inbox where
  "newInbox = \<lparr>prepare = [], chViews = [], commit = []\<rparr>"

definition addMessage :: "payload \<Rightarrow> cache \<Rightarrow> cache" where
  "addMessage p c =
     (let msgs = (case map_of c (MsgHeight p) of None \<Rightarrow> newInbox | Some b \<Rightarrow> b);
          i = of_nat (ValidatorIndex p);
          msgs' = (case Body p of
             PrepareRequest _ \<Rightarrow> msgs\<lparr>prepare := AList.update i p (prepare msgs)\<rparr>
           | PrepareResponse _ \<Rightarrow> msgs\<lparr>prepare := AList.update i p (prepare msgs)\<rparr>
           | ChangeView _ \<Rightarrow> msgs\<lparr>chViews := AList.update i p (chViews msgs)\<rparr>
           | Commit _ \<Rightarrow> msgs\<lparr>commit := AList.update i p (commit msgs)\<rparr>
           | _ \<Rightarrow> msgs) in
      AList.update (MsgHeight p) msgs' c)"

definition getHeight :: "u32 \<Rightarrow> cache \<Rightarrow> inbox option \<times> cache" where
  "getHeight h c = (case map_of c h of None \<Rightarrow> (None, c) | Some b \<Rightarrow> (Some b, AList.delete h c))"

section \<open>dbft.go: handlers\<close>

text \<open>\<open>createAndCheckBlock\<close>; the flag is its result.\<close>

definition createAndCheckBlock :: "'w config \<Rightarrow> 'w dbft \<Rightarrow> (bool \<times> 'w dbft) outcome" where
  "createAndCheckBlock cfg d =
     (if NextConsensus d \<noteq> GetConsensusAddress cfg (GetValidators cfg (world d) (BlockIndex d + 1)) then
        bind_res (sendChangeView cfg CVBlockRejectedByPolicy d) (\<lambda>d1. Inr (False, d1))
      else bind_res (CreateBlock cfg d) (\<lambda>(b, d1). case b of
          None \<Rightarrow> Inl ''interface conversion: interface is nil''
        | Some b \<Rightarrow>
            if \<not> VerifyBlock cfg (world d1) b then
              bind_res (sendChangeView cfg CVTxInvalid d1) (\<lambda>d2. Inr (False, d2))
            else Inr (True, d1)))"

text \<open>
  \<open>updateExistingPayloads\<close>: responses to another request are dropped, and commits of this view
  that do not verify against the header, when there is one.
\<close>

definition drop_commit :: "'w config \<Rightarrow> nat \<Rightarrow> 'w dbft \<Rightarrow> 'w dbft" where
  "drop_commit cfg i d = (case slot (CommitPayloads d) i of
     None \<Rightarrow> d
   | Some m \<Rightarrow>
       if MsgView m = ViewNumber d then
         (case MakeHeader cfg d of
            (None, d1) \<Rightarrow> d1
          | (Some h, d1) \<Rightarrow>
              if VerifyHeader cfg (Validators d1 ! ValidatorIndex m) (CommitSignature m) h then d1
              else d1\<lparr>CommitPayloads := (CommitPayloads d1)[i := None]\<rparr>)
       else d)"

definition updateExistingPayloads :: "'w config \<Rightarrow> payload \<Rightarrow> 'w dbft \<Rightarrow> 'w dbft" where
  "updateExistingPayloads cfg msg d =
     (let d1 = d\<lparr>PreparationPayloads := map (\<lambda>p. case p of
              None \<Rightarrow> None
            | Some m \<Rightarrow> (case Body m of
                 PrepareResponse h \<Rightarrow> if h \<noteq> Hash (Keccak cfg) msg then None else Some m
               | _ \<Rightarrow> Some m)) (PreparationPayloads d)\<rparr> in
      fold (drop_commit cfg) [0..<length (CommitPayloads d1)] d1)"

text \<open>\<open>verifyRequest\<close> of the service; a valid request becomes the last proposal.\<close>

definition verifyRequest :: "'w config \<Rightarrow> prepare_request \<Rightarrow> 'w dbft \<Rightarrow> bool \<times> 'w dbft" where
  "verifyRequest cfg req d =
     (if pr_prevHash req \<noteq> PrevHash d then (False, d)
      else if pr_version req \<noteq> Version d then (False, d)
      else if length (pr_transactionHashes req) > MaxTxPerBlock cfg then (False, d)
      else (True, d\<lparr>world := SetLastProposal cfg (pr_transactionHashes req) (world d)\<rparr>))"

definition take_proposal :: "prepare_request \<Rightarrow> 'w dbft \<Rightarrow> 'w dbft" where
  "take_proposal p d = d\<lparr>Timestamp := pr_timestamp p * nsInMs, Nonce := pr_nonce p,
     NextConsensus := pr_nextConsensus p, TransactionHashes := pr_transactionHashes p\<rparr>"

definition onPrepareRequest :: "'w config \<Rightarrow> payload \<Rightarrow> prepare_request \<Rightarrow> 'w dbft \<Rightarrow> 'w dbft outcome" where
  "onPrepareRequest cfg msg p d =
     (if RequestSentOrReceived d then Inr d
      else if ViewNumber d \<noteq> MsgView msg then Inr d
      else bind_res (GetPrimaryIndex (ViewNumber d) d) (\<lambda>prim.
        if ValidatorIndex msg \<noteq> prim then Inr d
        else case verifyRequest cfg p d of
          (False, d1) \<Rightarrow> sendChangeView cfg CVBlockRejectedByPolicy d1
        | (True, d1) \<Rightarrow>
            let d2 = extendTimer cfg 2 d1;
                d3 = take_proposal p d2;
                d4 = updateExistingPayloads cfg msg (processMissingTx cfg d3);
                d5 = d4\<lparr>PreparationPayloads := (PreparationPayloads d4)[ValidatorIndex msg := Some msg]\<rparr> in
            if \<not> hasAllTransactions d5 then Inr d5
            else bind_res (createAndCheckBlock cfg d5) (\<lambda>(ok, d6).
              if \<not> ok \<or> WatchOnly cfg d6 then Inr d6
              else bind_res (sendPrepareResponse cfg d6) (checkPrepare cfg))))"

text \<open>
  \<open>onPrepareResponse\<close>. The assertion that the payload in the primary's slot is a prepare request
  panics when it is not one.
\<close>

definition onPrepareResponse :: "'w config \<Rightarrow> payload \<Rightarrow> hash \<Rightarrow> 'w dbft \<Rightarrow> 'w dbft outcome" where
  "onPrepareResponse cfg msg prepHash d =
     (if ViewNumber d \<noteq> MsgView msg then Inr d
      else bind_res (GetPrimaryIndex (ViewNumber d) d) (\<lambda>prim.
        if ValidatorIndex msg = prim then Inr d
        else if slot (PreparationPayloads d) (ValidatorIndex msg) \<noteq> None \<or>
            ViewChanging cfg d \<and> \<not> MoreThanFNodesCommittedOrLost d then Inr d
        else
          let d1 = d\<lparr>PreparationPayloads := (PreparationPayloads d)[ValidatorIndex msg := Some msg]\<rparr>;
              go = (\<lambda>d2. let d3 = extendTimer cfg 2 d2 in
                if \<not> WatchOnly cfg d3 \<and> \<not> CommitSent cfg d3 \<and> RequestSentOrReceived d3
                then checkPrepare cfg d3 else Inr d3) in
          case slot (PreparationPayloads d1) prim of
            None \<Rightarrow> go d1
          | Some m \<Rightarrow>
              if \<not> is_request m then Inl ''interface conversion: not a PrepareRequest''
              else if prepHash \<noteq> Hash (Keccak cfg) m then
                Inr (d1\<lparr>PreparationPayloads := (PreparationPayloads d1)[ValidatorIndex msg := None]\<rparr>)
              else go d1))"

definition onRecoveryRequest :: "'w config \<Rightarrow> payload \<Rightarrow> 'w dbft \<Rightarrow> 'w dbft outcome" where
  "onRecoveryRequest cfg msg d =
     (if \<not> CommitSent cfg d \<and>
         \<not> list_ex (\<lambda>i. int ((ValidatorIndex msg + i) mod N d) = MyIndex d) [1..<F d + 1] then Inr d
      else Inr (sendRecoveryMessage cfg d))"

definition onChangeView :: "'w config \<Rightarrow> payload \<Rightarrow> change_view \<Rightarrow> 'w dbft \<Rightarrow> 'w dbft outcome" where
  "onChangeView cfg msg p d =
     (if newViewNumber p \<le> ViewNumber d then onRecoveryRequest cfg msg d
      else if CommitSent cfg d then Inr (sendRecoveryMessage cfg d)
      else if (case slot (ChangeViewPayloads d) (ValidatorIndex msg) of
          None \<Rightarrow> False | Some m \<Rightarrow> newViewNumber p < NewViewNumber m) then Inr d
      else checkChangeView cfg (newViewNumber p)
        (d\<lparr>ChangeViewPayloads := (ChangeViewPayloads d)[ValidatorIndex msg := Some msg]\<rparr>))"

definition onCommit :: "'w config \<Rightarrow> payload \<Rightarrow> signature \<Rightarrow> 'w dbft \<Rightarrow> 'w dbft outcome" where
  "onCommit cfg msg sig d =
     (let store = (\<lambda>d. d\<lparr>CommitPayloads := (CommitPayloads d)[ValidatorIndex msg := Some msg]\<rparr>) in
      if ViewNumber d = MsgView msg then
        (case MakeHeader cfg (extendTimer cfg 4 d) of
           (None, d1) \<Rightarrow> Inr (store d1)
         | (Some h, d1) \<Rightarrow>
             if VerifyHeader cfg (Validators d1 ! ValidatorIndex msg) sig h then checkCommit cfg (store d1)
             else Inr d1)
      else Inr (store d))"

text \<open>
  \<open>OnReceive\<close> with the handler of recovery messages as an argument. That handler passes the
  messages it rebuilds to \<open>OnReceive\<close> again; none of them is a recovery message.
\<close>

definition handle :: "'w config \<Rightarrow> (payload \<Rightarrow> recovery_message \<Rightarrow> 'w dbft \<Rightarrow> 'w dbft outcome) \<Rightarrow>
    payload \<Rightarrow> 'w dbft \<Rightarrow> 'w dbft outcome" where
  "handle cfg onRec msg d = (case Body msg of
     ChangeView p \<Rightarrow> onChangeView cfg msg p d
   | PrepareRequest p \<Rightarrow> onPrepareRequest cfg msg p d
   | PrepareResponse h \<Rightarrow> onPrepareResponse cfg msg h d
   | Commit s \<Rightarrow> onCommit cfg msg s d
   | RecoveryRequest _ \<Rightarrow> onRecoveryRequest cfg msg d
   | RecoveryMessage m \<Rightarrow> onRec msg m d)"

definition is_recovery :: "payload \<Rightarrow> bool" where
  "is_recovery p = (case Body p of RecoveryMessage _ \<Rightarrow> True | _ \<Rightarrow> False)"

definition receive :: "'w config \<Rightarrow> (payload \<Rightarrow> recovery_message \<Rightarrow> 'w dbft \<Rightarrow> 'w dbft outcome) \<Rightarrow>
    payload \<Rightarrow> 'w dbft \<Rightarrow> 'w dbft outcome" where
  "receive cfg onRec msg d =
     (if ValidatorIndex msg \<ge> N d then Inr d
      else if MsgHeight msg < BlockIndex d then Inr d
      else if MsgHeight msg > BlockIndex d \<or> (MsgHeight msg = BlockIndex d \<and>
          MsgView msg = ViewNumber d + 1 \<and> \<not> is_recovery msg) then
        Inr (d\<lparr>cache := addMessage msg (cache d)\<rparr>)
      else case LastSeenMessage d of
        None \<Rightarrow> Inl ''index out of range''
      | Some hs \<Rightarrow>
          if ValidatorIndex msg \<ge> length hs then Inl ''index out of range''
          else bind_res
            (if (case hs ! ValidatorIndex msg of None \<Rightarrow> True
                | Some h \<Rightarrow> Height h < MsgHeight msg \<or> View h < MsgView msg)
             then see (ValidatorIndex msg) (MsgHeight msg) (MsgView msg) d else Inr d)
            (handle cfg onRec msg))"

primrec receive_all :: "'w config \<Rightarrow> payload list \<Rightarrow> 'w dbft \<Rightarrow> 'w dbft outcome" where
  "receive_all cfg [] d = Inr d"
| "receive_all cfg (p # ps) d = bind_res (receive cfg (\<lambda>_ _ d. Inr d) p d) (receive_all cfg ps)"

definition or_panic :: "'a option \<Rightarrow> 'a outcome" where
  "or_panic x = (case x of None \<Rightarrow> Inl ''index out of range'' | Some y \<Rightarrow> Inr y)"

definition recover_change_views :: "'w config \<Rightarrow> payload \<Rightarrow> recovery_message \<Rightarrow> 'w dbft \<Rightarrow> 'w dbft outcome" where
  "recover_change_views cfg msg rec d =
     bind_res (or_panic (GetChangeViews (Keys cfg) rec msg (Validators d))) (\<lambda>ps. receive_all cfg ps d)"

definition recover_preparations :: "'w config \<Rightarrow> payload \<Rightarrow> recovery_message \<Rightarrow> 'w dbft \<Rightarrow> 'w dbft outcome" where
  "recover_preparations cfg msg rec d =
     bind_res
       (if \<not> RequestSentOrReceived d then
          bind_res (or_panic (GetPrepareRequest (Keys cfg) rec msg (Validators d) (of_nat (PrimaryIndex d))))
            (\<lambda>r. case r of
               Some req \<Rightarrow> receive cfg (\<lambda>_ _ d. Inr d) req d
             | None \<Rightarrow> if IsPrimary d then sendPrepareRequest cfg d else Inr d)
        else Inr d)
       (\<lambda>d1. bind_res (or_panic (GetPrepareResponses (Keys cfg) rec msg (Validators d1))) (\<lambda>ps. receive_all cfg ps d1))"

definition recover_commits :: "'w config \<Rightarrow> payload \<Rightarrow> recovery_message \<Rightarrow> 'w dbft \<Rightarrow> 'w dbft outcome" where
  "recover_commits cfg msg rec d =
     bind_res (or_panic (GetCommits (Keys cfg) rec msg (Validators d))) (\<lambda>ps. receive_all cfg ps d)"

definition onRecoveryMessage :: "'w config \<Rightarrow> payload \<Rightarrow> recovery_message \<Rightarrow> 'w dbft \<Rightarrow> 'w dbft outcome" where
  "onRecoveryMessage cfg msg rec d0 =
     (let d = d0\<lparr>recovering := True\<rparr>; finish = (\<lambda>d. Inr (d\<lparr>recovering := False\<rparr>)) in
      if MsgView msg > ViewNumber d \<and> CommitSent cfg d then finish d
      else
        bind_res (if MsgView msg > ViewNumber d then recover_change_views cfg msg rec d else Inr d) (\<lambda>d1.
        bind_res (if MsgView msg = ViewNumber d1 \<and>
              \<not> (ViewChanging cfg d1 \<and> \<not> MoreThanFNodesCommittedOrLost d1) \<and> \<not> CommitSent cfg d1
            then recover_preparations cfg msg rec d1 else Inr d1) (\<lambda>d2.
        bind_res (if MsgView msg \<le> ViewNumber d2 then recover_commits cfg msg rec d2 else Inr d2) finish)))"

definition OnReceive :: "'w config \<Rightarrow> payload \<Rightarrow> 'w dbft \<Rightarrow> 'w dbft outcome" where
  "OnReceive cfg msg d = receive cfg (onRecoveryMessage cfg) msg d"

definition OnTimeout :: "'w config \<Rightarrow> hv \<Rightarrow> 'w dbft \<Rightarrow> 'w dbft outcome" where
  "OnTimeout cfg h d =
     (if WatchOnly cfg d then Inr d
      else if Height h \<noteq> BlockIndex d \<or> View h \<noteq> ViewNumber d then Inr d
      else if IsPrimary d \<and> \<not> RequestSentOrReceived d then sendPrepareRequest cfg d
      else if IsPrimary d \<and> RequestSentOrReceived d \<or> IsBackup d then
        if CommitSent cfg d then
          Inr (changeTimer cfg (push_bit 1 (SecondsPerBlock cfg)) (sendRecoveryMessage cfg d))
        else sendChangeView cfg CVTimeout d
      else Inr d)"

definition addTransaction :: "'w config \<Rightarrow> tx \<Rightarrow> 'w dbft \<Rightarrow> 'w dbft outcome" where
  "addTransaction cfg tx d =
     (let d1 = d\<lparr>Transactions := AList.update (TxHash cfg tx) tx (Transactions d)\<rparr> in
      if \<not> hasAllTransactions d1 \<or> IsPrimary d1 \<or> WatchOnly cfg d1 then Inr d1
      else bind_res (createAndCheckBlock cfg d1) (\<lambda>(ok, d2).
        if \<not> ok then Inr d2
        else bind_res (sendPrepareResponse cfg (extendTimer cfg 2 d2)) (checkPrepare cfg)))"

text \<open>The found hash is replaced by the last one, which is cut off.\<close>

definition swap_remove :: "nat \<Rightarrow> 'a list \<Rightarrow> 'a list" where
  "swap_remove i xs =
     (let l = length xs - 1 in take l (if i < l then xs[i := xs ! l] else xs))"

primrec index_of :: "'a \<Rightarrow> 'a list \<Rightarrow> nat option" where
  "index_of x [] = None"
| "index_of x (y # ys) = (if x = y then Some 0 else map_option Suc (index_of x ys))"

definition OnTransaction :: "'w config \<Rightarrow> tx \<Rightarrow> 'w dbft \<Rightarrow> 'w dbft outcome" where
  "OnTransaction cfg tx d =
     (if \<not> IsBackup d \<or> NotAcceptingPayloadsDueToViewChanging cfg d \<or> \<not> RequestSentOrReceived d \<or>
         ResponseSent cfg d \<or> BlockSent d \<or> MissingTransactions d = [] then Inr d
      else case index_of (TxHash cfg tx) (MissingTransactions d) of
        None \<Rightarrow> Inr d
      | Some i \<Rightarrow> bind_res (addTransaction cfg tx d) (\<lambda>d1.
          if MissingTransactions d1 = [] then Inr d1
          else Inr (d1\<lparr>MissingTransactions := swap_remove i (MissingTransactions d1)\<rparr>)))"

text \<open>\<open>Start\<close> and \<open>start\<close>; the order in which a map is walked through is left open by Go.\<close>

primrec deliver :: "'w config \<Rightarrow> payload list \<Rightarrow> 'w dbft \<Rightarrow> 'w dbft outcome" where
  "deliver cfg [] d = Inr d"
| "deliver cfg (p # ps) d = bind_res (OnReceive cfg p d) (deliver cfg ps)"

definition start :: "'w config \<Rightarrow> 'w dbft \<Rightarrow> 'w dbft outcome" where
  "start cfg d =
     (if \<not> IsPrimary d then
        (case getHeight (BlockIndex d) (cache d) of
           (None, c) \<Rightarrow> Inr (d\<lparr>cache := c\<rparr>)
         | (Some b, c) \<Rightarrow> deliver cfg (map snd (prepare b) @ map snd (chViews b) @ map snd (commit b)) (d\<lparr>cache := c\<rparr>))
      else sendPrepareRequest cfg d)"

definition Start :: "'w config \<Rightarrow> 'w dbft \<Rightarrow> 'w dbft outcome" where
  "Start cfg d = bind_res (InitializeConsensus cfg 0 (d\<lparr>cache := []\<rparr>)) (start cfg)"

text \<open>The node \<open>New\<close> returns: every field has its zero value. \<open>time.Time{}\<close> is the first of January, year 1.\<close>

definition zero_time :: int where
  "zero_time = - 62135596800000000000"

definition New :: "'w \<Rightarrow> 'w dbft" where
  "New w = \<lparr>Priv = [], Pub = [], block = None, header = None, BlockIndex = 0, ViewNumber = 0, Validators = [],
     MyIndex = 0, PrimaryIndex = 0, Version = 0, NextConsensus = replicate 20 0, PrevHash = replicate 32 0,
     Timestamp = 0, Nonce = 0, TransactionHashes = [], MissingTransactions = [], Transactions = [],
     PreparationPayloads = [], CommitPayloads = [], ChangeViewPayloads = [], LastChangeViewPayloads = [],
     LastSeenMessage = None, lastBlockTime = zero_time, lastBlockIndex = 0, cache = [], recovering = False,
     Timer = \<lparr>t_HV = \<lparr>Height = 0, View = 0\<rparr>, t_s = zero_time, t_d = 0, t_tt = None, t_ch = None\<rparr>,
     world = w, effects = []\<rparr>"

text \<open>\<open>handleChainBlock\<close> of the service: a block with index \<open>i\<close> was added to the chain.\<close>

definition handleChainBlock :: "'w config \<Rightarrow> u32 \<Rightarrow> 'w dbft \<Rightarrow> 'w dbft outcome" where
  "handleChainBlock cfg i d = (if i \<ge> BlockIndex d then InitializeConsensus cfg 0 d else Inr d)"

text \<open>
  The message case of the service's event loop: the hash of the request, which a recovery message
  does not carry on the wire when it carries the request, is computed again.
\<close>

definition with_preparationHash :: "'w config \<Rightarrow> payload \<Rightarrow> 'w dbft \<Rightarrow> payload outcome" where
  "with_preparationHash cfg msg d = (case Body msg of
     RecoveryMessage rec \<Rightarrow>
       if preparationHash rec = None then
         bind_res (or_panic (GetPrepareRequest (Keys cfg) rec msg (Validators d) (of_nat (PrimaryIndex d)))) (\<lambda>r. case r of
           None \<Rightarrow> Inr msg
         | Some req \<Rightarrow> Inr (msg\<lparr>message := (message msg)\<lparr>msg_payload :=
             RecoveryMessage (rec\<lparr>preparationHash := Some (Hash (Keccak cfg) req)\<rparr>)\<rparr>\<rparr>))
       else Inr msg
   | _ \<Rightarrow> Inr msg)"

section \<open>The event loop\<close>

text \<open>
  One event of a node: a message, a timeout, a transaction, the notice of a block in the chain, or a
  change of the world the node sees.
\<close>

datatype 'w event =
    Received payload
  | TimedOut hv
  | GotTransaction tx
  | ChainBlock u32
  | Environment 'w

fun step :: "'w config \<Rightarrow> 'w event \<Rightarrow> 'w dbft \<Rightarrow> 'w dbft outcome" where
  "step cfg (Received msg) d = bind_res (with_preparationHash cfg msg d) (\<lambda>m. OnReceive cfg m d)"
| "step cfg (TimedOut h) d = OnTimeout cfg h d"
| "step cfg (GotTransaction tx) d = OnTransaction cfg tx d"
| "step cfg (ChainBlock i) d = handleChainBlock cfg i d"
| "step cfg (Environment w) d = Inr (d\<lparr>world := w\<rparr>)"

primrec steps :: "'w config \<Rightarrow> 'w event list \<Rightarrow> 'w dbft \<Rightarrow> 'w dbft outcome" where
  "steps cfg [] d = Inr d"
| "steps cfg (e # es) d = bind_res (step cfg e d) (steps cfg es)"

end
