(* ===== verification/DbftTrace.thy ===== *)
theory DbftTrace
  imports Dbft
begin

text \<open>
  The trace of a dBFT node only grows: no operation drops an effect that an earlier one recorded.
  From this it follows that a refusal of the ledger, once it is in the trace, stays there, which lets
  the safety of a run depend on the blocks handed to the ledger in that run and on nothing else.
\<close>

section \<open>Outcomes\<close>

definition ok :: "('a \<Rightarrow> bool) \<Rightarrow> 'a outcome \<Rightarrow> bool" where
  "ok P r = (case r of Inl _ \<Rightarrow> True | Inr x \<Rightarrow> P x)"

lemma ok_simps [simp]: "ok P (Inl e)" "ok P (Inr x) \<longleftrightarrow> P x"
  by (simp_all add: ok_def)

lemma ok_bind: "ok Q m \<Longrightarrow> (\<And>x. Q x \<Longrightarrow> ok P (f x)) \<Longrightarrow> ok P (bind_res m f)"
  by (cases m) auto

lemma ok_mono: "ok P r \<Longrightarrow> (\<And>x. P x \<Longrightarrow> Q x) \<Longrightarrow> ok Q r"
  by (cases r) auto

lemma ok_bind_any: "(\<And>x. ok P (f x)) \<Longrightarrow> ok P (bind_res m f)"
  by (cases m) auto

section \<open>Effects of the operations that cannot fail\<close>

definition extends :: "'w dbft \<Rightarrow> 'w dbft \<Rightarrow> bool" where
  "extends d d' \<longleftrightarrow> set (effects d) \<subseteq> set (effects d')"

named_theorems grow

lemma extends_refl [simp]: "extends d d"
  by (simp add: extends_def)

lemma extends_effects: "effects d' = effects d \<Longrightarrow> extends e d' \<longleftrightarrow> extends e d"
  by (simp add: extends_def)

lemma extends_more: "effects d' = effects d @ es \<Longrightarrow> extends e d \<Longrightarrow> extends e d'"
  by (auto simp: extends_def)

lemma effects_pure [simp]:
  "effects (changeTimer cfg t d) = effects d" "effects (extendTimer cfg n d) = effects d"
  "effects (Fill cfg d) = effects d" "effects (take_proposal p d) = effects d"
  "effects (reset_height cfg d) = effects d" "effects (reset_view v d) = effects d"
  by (simp_all add: changeTimer_def extendTimer_def Fill_def take_proposal_def reset_height_def reset_view_def Let_def)

lemma effects_MakeHeader: "MakeHeader cfg d = (x, d') \<Longrightarrow> effects d' = effects d"
  by (auto simp: MakeHeader_def Let_def split: option.splits if_splits)

lemma effects_CreateBlock: "CreateBlock cfg d = Inr (x, d') \<Longrightarrow> effects d' = effects d"
  by (auto simp: CreateBlock_def dest: effects_MakeHeader split: option.splits prod.splits)

lemma effects_see: "see i h v d = Inr d' \<Longrightarrow> effects d' = effects d"
  by (auto simp: see_def split: option.splits if_splits)

lemma effects_drop_commit: "effects (drop_commit cfg i d) = effects d"
  by (auto simp: drop_commit_def dest: effects_MakeHeader split: option.splits prod.splits)

lemma effects_updateExistingPayloads [simp]: "effects (updateExistingPayloads cfg msg d) = effects d"
proof -
  have "effects (fold (drop_commit cfg) is d) = effects d" for "is" and d :: "'a dbft"
    by (induction "is" arbitrary: d) (simp_all add: effects_drop_commit)
  then show ?thesis by (simp add: updateExistingPayloads_def Let_def)
qed

lemma effects_verifyRequest: "verifyRequest cfg req d = (g, d') \<Longrightarrow> effects d' = effects d"
  by (auto simp: verifyRequest_def split: if_splits)

lemma extends_updates [simp]:
  "extends e (d\<lparr>Transactions := a1\<rparr>) \<longleftrightarrow> extends e d" "extends e (d\<lparr>cache := a2\<rparr>) \<longleftrightarrow> extends e d"
  "extends e (d\<lparr>recovering := a3\<rparr>) \<longleftrightarrow> extends e d" "extends e (d\<lparr>MissingTransactions := a4\<rparr>) \<longleftrightarrow> extends e d"
  "extends e (d\<lparr>PreparationPayloads := a5\<rparr>) \<longleftrightarrow> extends e d" "extends e (d\<lparr>CommitPayloads := a6\<rparr>) \<longleftrightarrow> extends e d"
  "extends e (d\<lparr>ChangeViewPayloads := a7\<rparr>) \<longleftrightarrow> extends e d" "extends e (d\<lparr>world := a8\<rparr>) \<longleftrightarrow> extends e d"
  "extends e (changeTimer cfg t d) \<longleftrightarrow> extends e d" "extends e (extendTimer cfg n d) \<longleftrightarrow> extends e d"
  "extends e (take_proposal p d) \<longleftrightarrow> extends e d" "extends e (updateExistingPayloads cfg msg d) \<longleftrightarrow> extends e d"
  "extends e (Fill cfg d) \<longleftrightarrow> extends e d"
  by (simp_all add: extends_def)

lemma extends_broadcast [simp]: "extends e d \<Longrightarrow> extends e (broadcast cfg p d)"
  by (rule extends_more [of _ d "[Broadcast (signed cfg d p)]"]) (simp_all add: broadcast_def)

lemma extends_processMissingTx [simp]: "extends e d \<Longrightarrow> extends e (processMissingTx cfg d)"
  by (auto simp: extends_def processMissingTx_def split_def Let_def)

lemma extends_sends [simp]:
  "extends e d \<Longrightarrow> extends e (broadcastChangeView cfg re d)"
  "extends e d \<Longrightarrow> extends e (sendRecoveryMessage cfg d)"
  "extends e d \<Longrightarrow> extends e (sendRecoveryRequest cfg d)"
  by (simp_all add: broadcastChangeView_def sendRecoveryMessage_def sendRecoveryRequest_def Let_def)

section \<open>The handlers\<close>

lemma grow_bind:
  "ok (extends e) m \<Longrightarrow> (\<And>x. extends e x \<Longrightarrow> ok (extends e) (f x)) \<Longrightarrow> ok (extends e) (bind_res m f)"
  by (rule ok_bind)

lemma grow_see [grow]: "extends e d \<Longrightarrow> ok (extends e) (see i h v d)"
  by (cases "see i h v d") (simp_all add: extends_effects [OF effects_see])

lemma grow_reset [grow]:
  assumes "extends e d"
  shows "ok (extends e) (reset cfg v d)"
proof -
  have "extends e (d'\<lparr>PrimaryIndex := p, ViewNumber := v\<rparr>)" if "effects d' = effects d" for d' :: "'a dbft" and p
    using assms that by (simp add: extends_def)
  then show ?thesis
    by (auto simp: reset_def Let_def split_def intro!: ok_bind_any grow_see)
qed

lemma grow_InitializeConsensus [grow]: "extends e d \<Longrightarrow> ok (extends e) (InitializeConsensus cfg v d)"
  unfolding InitializeConsensus_def by (rule grow_bind [OF grow_reset]) (simp_all add: Let_def)

lemma grow_CreateBlock:
  assumes "extends e d" and "\<And>x d'. extends e d' \<Longrightarrow> ok P (f (x, d'))"
  shows "ok P (bind_res (CreateBlock cfg d) f)"
  using assms effects_CreateBlock [of cfg d] by (cases "CreateBlock cfg d") (auto simp: extends_def)

lemma grow_checkCommit [grow]:
  assumes "extends e d"
  shows "ok (extends e) (checkCommit cfg d)"
proof -
  have "extends e (d'\<lparr>world := w, effects := effects d' @ [x]\<rparr>)" if "extends e d'" for d' :: "'a dbft" and w x
    using that by (auto simp: extends_def)
  then show ?thesis
    using assms unfolding checkCommit_def
    by (auto simp: Let_def extends_effects [of "d\<lparr>lastBlockIndex := BlockIndex d, lastBlockTime := Now cfg (world d)\<rparr>" d]
        intro!: grow_CreateBlock [where e = e] grow split: option.split)
qed

lemma grow_sendCommit [grow]:
  assumes "extends e d"
  shows "ok (extends e) (sendCommit cfg d)"
proof -
  have "extends e (broadcast cfg p (d1\<lparr>effects := effects d1 @ [Sign h], CommitPayloads := cs\<rparr>))"
    if "MakeHeader cfg d = (x, d1)" for x d1 h p cs
    using assms effects_MakeHeader [OF that] by (intro extends_broadcast) (auto simp: extends_def)
  then show ?thesis using assms by (auto simp: sendCommit_def Let_def split: option.split prod.split)
qed

lemma grow_checkPrepare [grow]: "extends e d \<Longrightarrow> ok (extends e) (checkPrepare cfg d)"
  by (auto simp: checkPrepare_def Let_def intro!: grow_bind grow)

lemma grow_sendPrepareRequest [grow]: "extends e d \<Longrightarrow> ok (extends e) (sendPrepareRequest cfg d)"
  by (auto simp: sendPrepareRequest_def makePrepareRequest_def Let_def intro!: grow)

lemma grow_checkChangeView [grow]: "extends e d \<Longrightarrow> ok (extends e) (checkChangeView cfg v d)"
  by (auto simp: checkChangeView_def intro!: grow)

lemma grow_sendChangeView [grow]: "extends e d \<Longrightarrow> ok (extends e) (sendChangeView cfg re d)"
  by (auto simp: sendChangeView_def Let_def intro!: grow)

lemma grow_createAndCheckBlock:
  assumes "extends e d" and "\<And>x d'. extends e d' \<Longrightarrow> ok P (f (x, d'))"
  shows "ok P (bind_res (createAndCheckBlock cfg d) f)"
proof -
  have s: "ok (\<lambda>y. extends e (snd y)) (bind_res (sendChangeView cfg re d') (\<lambda>d2. Inr (False, d2)))" if "extends e d'" for re d'
    by (rule ok_bind [OF grow_sendChangeView [OF that]]) simp
  have "ok (\<lambda>y. extends e (snd y)) (createAndCheckBlock cfg d)"
    unfolding createAndCheckBlock_def using assms(1) s
    by (auto intro!: grow_CreateBlock [where e = e] split: option.split)
  then show ?thesis by (rule ok_bind) (metis assms(2) prod.collapse)
qed

lemma grow_sendPrepareResponse [grow]: "extends e d \<Longrightarrow> ok (extends e) (sendPrepareResponse cfg d)"
  by (auto simp: sendPrepareResponse_def Let_def split: option.split)

lemma grow_onPrepareRequest [grow]:
  assumes "extends e d"
  shows "ok (extends e) (onPrepareRequest cfg msg p d)"
proof -
  have "extends e d1" if "verifyRequest cfg p d = (g, d1)" for g d1
    using assms effects_verifyRequest [OF that] by (simp add: extends_def)
  then show ?thesis
    using assms unfolding onPrepareRequest_def
    by (auto simp: Let_def intro!: ok_bind_any [where m = "GetPrimaryIndex _ _"] grow_createAndCheckBlock [where e = e]
        grow_bind [OF grow_sendPrepareResponse] grow split: prod.split bool.split)
qed

lemma grow_onPrepareResponse [grow]: "extends e d \<Longrightarrow> ok (extends e) (onPrepareResponse cfg msg h d)"
  unfolding onPrepareResponse_def by (auto simp: Let_def intro!: ok_bind_any grow split: option.split)

lemma grow_onRecoveryRequest [grow]: "extends e d \<Longrightarrow> ok (extends e) (onRecoveryRequest cfg msg d)"
  by (simp add: onRecoveryRequest_def)

lemma grow_onChangeView [grow]: "extends e d \<Longrightarrow> ok (extends e) (onChangeView cfg msg p d)"
  by (auto simp: onChangeView_def intro!: grow split: option.split)

lemma grow_onCommit [grow]:
  assumes "extends e d"
  shows "ok (extends e) (onCommit cfg msg sig d)"
proof -
  have "extends e d1" if "MakeHeader cfg (extendTimer cfg n d) = (x, d1)" for n x d1
    using assms effects_MakeHeader [OF that] by (simp add: extends_def)
  then show ?thesis using assms by (auto simp: onCommit_def Let_def intro!: grow split: option.split prod.split)
qed

lemma grow_handle:
  assumes "extends e d" and "\<And>m. ok (extends e) (onRec msg m d)"
  shows "ok (extends e) (handle cfg onRec msg d)"
  using assms by (auto simp: handle_def intro!: grow split: message_body.split)

lemma grow_receive:
  assumes "extends e d" and "\<And>m d'. extends e d' \<Longrightarrow> ok (extends e) (onRec msg m d')"
  shows "ok (extends e) (receive cfg onRec msg d)"
  using assms
  by (auto simp: receive_def intro!: grow_bind [OF grow_see] grow_handle split: option.split)

lemma grow_receive_all [grow]: "extends e d \<Longrightarrow> ok (extends e) (receive_all cfg ps d)"
  by (induction ps arbitrary: d) (auto intro!: grow_bind grow_receive)

lemma grow_recover [grow]:
  assumes "extends e d"
  shows "ok (extends e) (recover_change_views cfg msg rec d)" and "ok (extends e) (recover_commits cfg msg rec d)"
    and "ok (extends e) (recover_preparations cfg msg rec d)"
proof -
  show "ok (extends e) (recover_change_views cfg msg rec d)" "ok (extends e) (recover_commits cfg msg rec d)"
    using assms by (auto simp: recover_change_views_def recover_commits_def intro!: ok_bind_any grow)
  show "ok (extends e) (recover_preparations cfg msg rec d)"
    unfolding recover_preparations_def
    by (rule grow_bind) (use assms in \<open>auto intro!: ok_bind_any grow_receive grow split: option.split\<close>)
qed

lemma grow_onRecoveryMessage [grow]: "extends e d \<Longrightarrow> ok (extends e) (onRecoveryMessage cfg msg rec d)"
  unfolding onRecoveryMessage_def Let_def by (auto intro!: grow_bind grow)

lemma grow_OnReceive [grow]: "extends e d \<Longrightarrow> ok (extends e) (OnReceive cfg msg d)"
  unfolding OnReceive_def by (rule grow_receive) (auto intro: grow)

lemma grow_OnTimeout [grow]: "extends e d \<Longrightarrow> ok (extends e) (OnTimeout cfg h d)"
  by (auto simp: OnTimeout_def intro!: grow)

lemma grow_addTransaction [grow]: "extends e d \<Longrightarrow> ok (extends e) (addTransaction cfg tx d)"
  by (auto simp: addTransaction_def Let_def
      intro!: grow_createAndCheckBlock [where e = e] grow_bind [OF grow_sendPrepareResponse] grow)

lemma grow_OnTransaction [grow]: "extends e d \<Longrightarrow> ok (extends e) (OnTransaction cfg tx d)"
  by (auto simp: OnTransaction_def intro!: grow_bind [OF grow_addTransaction] split: option.split)

lemma grow_deliver [grow]: "extends e d \<Longrightarrow> ok (extends e) (deliver cfg ps d)"
  by (induction ps arbitrary: d) (auto intro!: grow_bind grow)

lemma grow_start [grow]: "extends e d \<Longrightarrow> ok (extends e) (start cfg d)"
  by (auto simp: start_def intro!: grow split: prod.split option.split)

lemma grow_step [grow]: "extends d' d \<Longrightarrow> ok (extends d') (step cfg e d)"
  by (cases e) (auto simp: handleChainBlock_def intro!: ok_bind_any [where m = "with_preparationHash _ _ _"] grow)

end
