(* ===== verification/DbftSafety.thy ===== *)
theory DbftSafety
  imports DbftTrace
begin

text \<open>
  Safety of one dBFT node: an invariant of its event loop from which it follows that the node signs
  at most one header per height. The invariant talks about the fields that matter for signing; the
  relation \<open>same\<close> says that an operation left all of them alone. The ledger may refuse a block, and
  then the node starts the same height again with nothing that reminds it of its signature; the
  invariant therefore holds as long as the trace has no refusal (\<open>accepted\<close>).
\<close>

section \<open>The invariant\<close>

definition signs :: "'w dbft \<Rightarrow> hdr set" where
  "signs d = {h. Sign h \<in> set (effects d)}"

text \<open>The node has signed a header at its current height.\<close>

definition locked :: "'w dbft \<Rightarrow> bool" where
  "locked d \<longleftrightarrow> (\<exists>h \<in> signs d. hd_Index h = BlockIndex d)"

definition one_per_height :: "hdr set \<Rightarrow> bool" where
  "one_per_height S \<longleftrightarrow> (\<forall>h \<in> S. \<forall>h' \<in> S. hd_Index h = hd_Index h' \<longrightarrow> h = h')"

definition safe :: "'w dbft \<Rightarrow> bool" where
  "safe d \<longleftrightarrow>
     length (CommitPayloads d) = N d \<and> length (PreparationPayloads d) = N d \<and>
     (MyIndex d = -1 \<or> 0 \<le> MyIndex d \<and> MyIndex d < int (N d)) \<and>
     GetPrimaryIndex (ViewNumber d) d = Inr (PrimaryIndex d) \<and>
     (\<forall>h. header d = Some h \<longrightarrow> hd_Index h = BlockIndex d \<and> RequestSentOrReceived d) \<and>
     (\<forall>b. block d = Some b \<longrightarrow> header d = Some (fst b)) \<and>
     (\<forall>h \<in> signs d. hd_Index h \<le> BlockIndex d) \<and> one_per_height (signs d) \<and>
     (locked d \<longrightarrow> 0 \<le> MyIndex d \<and> mine d (CommitPayloads d) \<noteq> None \<and> RequestSentOrReceived d)"

text \<open>
  No block that the node handed to the ledger was refused: when the call came back, the ledger stood
  at the height of the block or above it, and not at the last of the \<open>2 ^ 32\<close> heights, after which the
  next height wraps. A block that the ledger already has is not a refusal.
\<close>

definition accepted :: "'w dbft \<Rightarrow> bool" where
  "accepted d \<longleftrightarrow> (\<forall>b h. ProcessBlock b h \<in> set (effects d) \<longrightarrow> hd_Index (fst b) < h + 1)"

definition guarded :: "'w dbft \<Rightarrow> bool" where
  "guarded d \<longleftrightarrow> (accepted d \<longrightarrow> safe d)"

lemma extends_accepted: "extends d d' \<Longrightarrow> accepted d' \<Longrightarrow> accepted d"
  by (auto simp: accepted_def extends_def)

lemma safe_guarded [simp]: "safe d \<Longrightarrow> guarded d"
  by (simp add: guarded_def)

lemma ok_guarded: "ok safe r \<Longrightarrow> ok guarded r"
  by (erule ok_mono) simp

lemma guarded_bind:
  fixes m :: "'w dbft outcome" and f :: "'w dbft \<Rightarrow> 'w dbft outcome"
  assumes "ok guarded m" and "\<And>x. safe x \<Longrightarrow> ok guarded (f x)" and "\<And>x. ok (extends x) (f x)"
  shows "ok guarded (bind_res m f)"
proof (rule ok_bind [OF assms(1)])
  fix x :: "'w dbft" assume g: "guarded x"
  show "ok guarded (f x)"
  proof (cases "accepted x")
    case True
    then show ?thesis using g assms(2) by (simp add: guarded_def)
  next
    case False
    then show ?thesis using ok_mono [OF assms(3) [of x]] extends_accepted by (metis guarded_def)
  qed
qed

definition same :: "'w dbft \<Rightarrow> 'w dbft \<Rightarrow> bool" where
  "same d d' \<longleftrightarrow> Validators d' = Validators d \<and> MyIndex d' = MyIndex d \<and> BlockIndex d' = BlockIndex d \<and>
     ViewNumber d' = ViewNumber d \<and> PrimaryIndex d' = PrimaryIndex d \<and> header d' = header d \<and>
     block d' = block d \<and> CommitPayloads d' = CommitPayloads d \<and>
     PreparationPayloads d' = PreparationPayloads d \<and> signs d' = signs d"

lemma same_refl [simp]: "same d d"
  by (simp add: same_def)

lemma same_trans: "same d d' \<Longrightarrow> same d' d'' \<Longrightarrow> same d d''"
  by (simp add: same_def)

lemma same_sym: "same d d' \<Longrightarrow> same d' d"
  by (simp add: same_def)

lemma GetPrimaryIndex_cong:
  "Validators d' = Validators d \<Longrightarrow> BlockIndex d' = BlockIndex d \<Longrightarrow> GetPrimaryIndex v d' = GetPrimaryIndex v d"
  by (simp add: GetPrimaryIndex_def N_def Let_def)

lemma same_inv: "same d d' \<Longrightarrow> safe d' \<longleftrightarrow> safe d"
  using GetPrimaryIndex_cong [of d' d]
  by (auto simp: same_def safe_def N_def mine_def RequestSentOrReceived_def locked_def)

lemma same_locked: "same d d' \<Longrightarrow> locked d' \<longleftrightarrow> locked d"
  by (simp add: same_def locked_def)

lemma same_idx: "same d d' \<Longrightarrow> MyIndex d' = MyIndex d \<and> PrimaryIndex d' = PrimaryIndex d \<and>
    BlockIndex d' = BlockIndex d \<and> ViewNumber d' = ViewNumber d \<and> RequestSentOrReceived d' = RequestSentOrReceived d"
  by (simp add: same_def RequestSentOrReceived_def)

lemma same_updates [simp]:
  "same d (d\<lparr>Timer := a1\<rparr>)" "same d (d\<lparr>cache := a2\<rparr>)" "same d (d\<lparr>recovering := a3\<rparr>)"
  "same d (d\<lparr>world := a4\<rparr>)" "same d (d\<lparr>Transactions := a5\<rparr>)" "same d (d\<lparr>TransactionHashes := a6\<rparr>)"
  "same d (d\<lparr>MissingTransactions := a7\<rparr>)" "same d (d\<lparr>LastSeenMessage := a8\<rparr>)"
  "same d (d\<lparr>ChangeViewPayloads := a9\<rparr>)" "same d (d\<lparr>lastBlockIndex := b1, lastBlockTime := b2\<rparr>)"
  "same d (d\<lparr>effects := effects d @ [Broadcast p]\<rparr>)" "same d (d\<lparr>effects := effects d @ [RequestTx hs]\<rparr>)"
  "same d (d\<lparr>effects := effects d @ [ProcessBlock b i]\<rparr>)"
  by (simp_all add: same_def signs_def)

lemma same_changeTimer [simp]: "same d (changeTimer cfg t d)"
  by (simp add: changeTimer_def)

lemma same_extendTimer [simp]: "same d (extendTimer cfg n d)"
  by (simp add: extendTimer_def)

lemma same_broadcast [simp]: "same d (broadcast cfg p d)"
  by (simp add: broadcast_def)

lemma same_Fill [simp]: "same d (Fill cfg d)"
  by (simp add: Fill_def same_def signs_def Let_def)

lemma same_take_proposal [simp]: "same d (take_proposal p d)"
  by (simp add: take_proposal_def same_def signs_def)

lemma same_processMissingTx [simp]: "same d (processMissingTx cfg d)"
  by (simp add: processMissingTx_def same_def signs_def split_def Let_def)

lemma same_broadcastChangeView [simp]: "same d (broadcastChangeView cfg re d)"
  by (simp add: broadcastChangeView_def broadcast_def same_def signs_def Let_def)

lemma same_sendRecoveryMessage [simp]: "same d (sendRecoveryMessage cfg d)"
  by (simp add: sendRecoveryMessage_def)

lemma same_sendRecoveryRequest [simp]: "same d (sendRecoveryRequest cfg d)"
  by (auto simp: sendRecoveryRequest_def Let_def intro: same_trans [OF same_processMissingTx same_broadcast])

lemma same_see: "see i h v d = Inr d' \<Longrightarrow> same d d'"
  by (auto simp: see_def split: option.splits if_splits)

lemma same_verifyRequest: "verifyRequest cfg req d = (b, d') \<Longrightarrow> same d d'"
  by (auto simp: verifyRequest_def split: if_splits)

text \<open>The truncating remainder, corrected for negative values, is the mathematical one.\<close>

lemma go_rem_mod:
  assumes "0 < n"
  shows "(let p = go_rem x n in if p \<ge> 0 then p else p + n) = x mod n"
proof (cases "x \<ge> 0")
  case True
  then show ?thesis using assms by (cases "x = 0") (simp_all add: go_rem_def)
next
  case False
  then have "go_rem x n = - ((- x) mod n)" using assms by (simp add: go_rem_def)
  then show ?thesis
    using assms zmod_zminus1_eq_if [of "- x" n] by (simp add: Let_def)
      (smt (verit) pos_mod_sign)
qed

lemma GetPrimaryIndex_eq:
  "Validators d \<noteq> [] \<Longrightarrow>
     GetPrimaryIndex v d = Inr (nat ((uint (BlockIndex d) - uint v) mod int (N d)))"
  using go_rem_mod [of "int (N d)" "uint (BlockIndex d) - uint v"]
  by (simp add: GetPrimaryIndex_def N_def Let_def)

lemma inv_index:
  assumes "safe d"
  shows "PrimaryIndex d < N d"
proof -
  have "Validators d \<noteq> []" and "GetPrimaryIndex (ViewNumber d) d = Inr (PrimaryIndex d)"
    using assms by (auto simp: safe_def GetPrimaryIndex_def split: if_splits)
  moreover from this have "0 < int (N d)" by (simp add: N_def)
  moreover from calculation have "PrimaryIndex d = nat ((uint (BlockIndex d) - uint (ViewNumber d)) mod int (N d))"
    using GetPrimaryIndex_eq [of d "ViewNumber d"] by simp
  ultimately show ?thesis by (simp only: nat_less_iff pos_mod_sign pos_mod_bound)
qed

section \<open>Preservation\<close>

lemma find_account_range:
  "find_account cfg i ks = (j, a, b) \<Longrightarrow> 0 \<le> i \<Longrightarrow> j = -1 \<or> i \<le> j \<and> j < i + int (length ks)"
  by (induction cfg i ks rule: find_account.induct) (fastforce split: option.splits)+

lemma slot_None [simp]: "slot (replicate n None) i = None"
  by (simp add: slot_def)

lemma reset_inv:
  assumes "one_per_height (signs d)"
    and "\<forall>h \<in> signs d. hd_Index h < (if v = 0 then CurrentHeight cfg (world d) + 1 else BlockIndex d)"
  shows "ok safe (reset cfg v d)"
proof -
  define d1 where "d1 = (if v = 0 then reset_height cfg (d\<lparr>MyIndex := -1\<rparr>) else reset_view v (d\<lparr>MyIndex := -1\<rparr>))"
  obtain my priv pub where k: "getKeyPair cfg (Validators d1) = (my, priv, pub)" by (metis prod_cases3)
  let ?n = "length (Validators d1)"
  define d2 where "d2 = d1\<lparr>MyIndex := my, Priv := priv, Pub := pub, block := None, header := None,
      ChangeViewPayloads := replicate ?n None, CommitPayloads := replicate ?n None,
      PreparationPayloads := replicate ?n None, Transactions := [], TransactionHashes := [],
      MissingTransactions := []\<rparr>"
  have my: "my = -1 \<or> 0 \<le> my \<and> my < int ?n"
    using find_account_range [of cfg 0 "Validators d1" my priv pub] k by (simp add: getKeyPair_def)
  have s: "signs d1 = signs d" "\<forall>h \<in> signs d. hd_Index h < BlockIndex d1"
    using assms(2) by (auto simp: d1_def reset_height_def reset_view_def signs_def Let_def)
  have "safe (d2\<lparr>PrimaryIndex := p, ViewNumber := v\<rparr>)" if "GetPrimaryIndex v d2 = Inr p" for p
  proof -
    have "GetPrimaryIndex v (d2\<lparr>PrimaryIndex := p, ViewNumber := v\<rparr>) = Inr p"
      using that by (subst GetPrimaryIndex_cong [of _ d2]) simp_all
    then show ?thesis
      using my s assms(1) by (auto simp: safe_def d2_def N_def signs_def locked_def)
  qed
  moreover have "reset cfg v d = bind_res (GetPrimaryIndex v d2) (\<lambda>p.
      let d3 = d2\<lparr>PrimaryIndex := p, ViewNumber := v\<rparr> in
      if my \<ge> 0 then see (nat my) (BlockIndex d3) v d3 else Inr d3)"
    unfolding reset_def d1_def [symmetric] by (simp add: k d2_def Let_def)
  ultimately show ?thesis
    by (cases "GetPrimaryIndex v d2")
      (auto simp: ok_def Let_def same_inv [OF same_see] split: sum.splits)
qed

lemma InitializeConsensus_inv:
  assumes "one_per_height (signs d)"
    and "\<forall>h \<in> signs d. hd_Index h < (if v = 0 then CurrentHeight cfg (world d) + 1 else BlockIndex d)"
  shows "ok safe (InitializeConsensus cfg v d)"
  unfolding InitializeConsensus_def
  by (rule ok_bind [OF reset_inv [OF assms]]) (simp add: same_inv [OF same_changeTimer] Let_def)

lemma unlocked_below: "safe d \<Longrightarrow> \<not> locked d \<Longrightarrow> h \<in> signs d \<Longrightarrow> hd_Index h < BlockIndex d"
  by (auto simp: safe_def locked_def order_le_less)

lemma inv_one: "safe d \<Longrightarrow> one_per_height (signs d)"
  by (simp add: safe_def)

lemma MakeHeader_inv:
  assumes "safe d" and "MakeHeader cfg d = (x, d1)"
  shows "safe d1" and "header d1 = x" and "signs d1 = signs d" and "BlockIndex d1 = BlockIndex d"
    and "MyIndex d1 = MyIndex d" and "CommitPayloads d1 = CommitPayloads d"
    and "RequestSentOrReceived d1 = RequestSentOrReceived d" and "world d1 = world d"
    and "x = None \<longrightarrow> d1 = d" and "Validators d1 = Validators d"
proof -
  have "GetPrimaryIndex (ViewNumber d) (d\<lparr>header := Some y\<rparr>) = GetPrimaryIndex (ViewNumber d) d" for y
    by (rule GetPrimaryIndex_cong) simp_all
  then show "safe d1" "header d1 = x" "signs d1 = signs d" "BlockIndex d1 = BlockIndex d"
    "MyIndex d1 = MyIndex d" "CommitPayloads d1 = CommitPayloads d"
    "RequestSentOrReceived d1 = RequestSentOrReceived d" "world d1 = world d" "x = None \<longrightarrow> d1 = d"
    "Validators d1 = Validators d"
    using assms
    by (auto simp: MakeHeader_def safe_def N_def signs_def locked_def mine_def RequestSentOrReceived_def
        newBlockFromContext_def Let_def split: option.splits if_splits)
qed

lemma CreateBlock_inv:
  assumes "safe d" and "CreateBlock cfg d = Inr (x, d1)"
  shows "safe d1" and "signs d1 = signs d" and "BlockIndex d1 = BlockIndex d" and "MyIndex d1 = MyIndex d"
    and "\<forall>b. x = Some b \<longrightarrow> hd_Index (fst b) = BlockIndex d" and "world d1 = world d"
    and "CommitPayloads d1 = CommitPayloads d"
proof -
  have "safe d1 \<and> signs d1 = signs d \<and> BlockIndex d1 = BlockIndex d \<and> MyIndex d1 = MyIndex d \<and>
      (\<forall>b. x = Some b \<longrightarrow> hd_Index (fst b) = BlockIndex d) \<and> world d1 = world d \<and> CommitPayloads d1 = CommitPayloads d"
  proof (cases "block d")
    case (Some b)
    then show ?thesis using assms by (auto simp: CreateBlock_def safe_def)
  next
    case None
    obtain y d2 where m: "MakeHeader cfg d = (y, d2)" by fastforce
    note mh = MakeHeader_inv [OF assms(1) m]
    have "GetPrimaryIndex (ViewNumber d2) (d2\<lparr>block := Some z\<rparr>) = GetPrimaryIndex (ViewNumber d2) d2" for z
      by (rule GetPrimaryIndex_cong) simp_all
    then have "safe (d2\<lparr>block := Some (h, txx)\<rparr>)" if "y = Some h" for h txx
      using mh(1,2) that
      by (auto simp: safe_def N_def signs_def locked_def mine_def RequestSentOrReceived_def)
    moreover have "hd_Index h = BlockIndex d" if "y = Some h" for h
      using mh(1,2,4) that by (auto simp: safe_def)
    ultimately show ?thesis
      using assms(2) None m mh by (auto simp: CreateBlock_def signs_def split: option.splits)
  qed
  then show "safe d1" "signs d1 = signs d" "BlockIndex d1 = BlockIndex d" "MyIndex d1 = MyIndex d"
    "\<forall>b. x = Some b \<longrightarrow> hd_Index (fst b) = BlockIndex d" "world d1 = world d"
    "CommitPayloads d1 = CommitPayloads d" by auto
qed

lemma next_height_inv:
  fixes d d' :: "'w dbft"
  assumes "safe d" and "BlockIndex d < CurrentHeight cfg (world d') + 1" and "signs d' = signs d"
  shows "ok safe (InitializeConsensus cfg 0 d')"
  using assms by (intro InitializeConsensus_inv) (auto simp: safe_def)

text \<open>After the block is handed over, either the ledger has advanced and a new height begins, or the trace has a refusal.\<close>

lemma checkCommit_inv:
  assumes "safe d"
  shows "ok guarded (checkCommit cfg d)"
proof -
  let ?d = "d\<lparr>lastBlockIndex := BlockIndex d, lastBlockTime := Now cfg (world d)\<rparr>"
  have i: "safe ?d" using assms by (simp add: same_inv [OF same_updates(10)])
  let ?p = "\<lambda>b d1. d1\<lparr>world := AddBlock cfg b (Validators d1) (getBlockWitness d1) (world d1),
      effects := effects d1 @ [ProcessBlock b (CurrentHeight cfg (AddBlock cfg b (Validators d1) (getBlockWitness d1) (world d1)))]\<rparr>"
  have "ok guarded (InitializeConsensus cfg 0 (?p b d1))" if c: "CreateBlock cfg ?d = Inr (Some b, d1)" for b d1
  proof (cases "hd_Index (fst b) < CurrentHeight cfg (AddBlock cfg b (Validators d1) (getBlockWitness d1) (world d1)) + 1")
    case True
    have "signs (?p b d1) = signs d1" by (simp add: signs_def)
    moreover have "hd_Index (fst b) = BlockIndex d1" using CreateBlock_inv(3,5) [OF i c] by simp
    ultimately show ?thesis
      using True next_height_inv [OF CreateBlock_inv(1) [OF i c], of cfg "?p b d1"] by (intro ok_guarded) simp
  next
    case False
    moreover have "ProcessBlock b (CurrentHeight cfg (AddBlock cfg b (Validators d1) (getBlockWitness d1) (world d1))) \<in> set (effects (?p b d1))" by simp
    ultimately have "\<not> accepted (?p b d1)" unfolding accepted_def by blast
    then show ?thesis
      using ok_mono [OF grow_InitializeConsensus [OF extends_refl]] extends_accepted by (metis guarded_def)
  qed
  then show ?thesis
    using assms unfolding checkCommit_def
    by (cases "CreateBlock cfg ?d") (auto simp: split_def Let_def split: option.split)
qed

lemma inv_set_commit:
  assumes "safe d" and "i < N d"
  shows "safe (d\<lparr>CommitPayloads := (CommitPayloads d)[i := Some p]\<rparr>)"
proof -
  have "GetPrimaryIndex (ViewNumber d) (d\<lparr>CommitPayloads := x\<rparr>) = GetPrimaryIndex (ViewNumber d) d" for x
    by (rule GetPrimaryIndex_cong) simp_all
  then show ?thesis
    using assms by (auto simp: safe_def N_def signs_def locked_def mine_def slot_def RequestSentOrReceived_def nth_list_update)
qed

lemma inv_set_preparation:
  assumes "safe d" and "i < N d" and "x = None \<longrightarrow> i \<noteq> PrimaryIndex d"
  shows "safe (d\<lparr>PreparationPayloads := (PreparationPayloads d)[i := x]\<rparr>)"
proof -
  have "GetPrimaryIndex (ViewNumber d) (d\<lparr>PreparationPayloads := y\<rparr>) = GetPrimaryIndex (ViewNumber d) d" for y
    by (rule GetPrimaryIndex_cong) simp_all
  then show ?thesis
    using assms by (auto simp: safe_def N_def signs_def locked_def mine_def slot_def RequestSentOrReceived_def nth_list_update)
qed

lemma inv_sign:
  assumes "safe d" and "header d = Some h" and "0 \<le> MyIndex d" and "mine d (CommitPayloads d) = None"
  shows "safe (d\<lparr>effects := effects d @ [Sign h], CommitPayloads := (CommitPayloads d)[nat (MyIndex d) := Some p]\<rparr>)"
proof -
  let ?d = "d\<lparr>effects := effects d @ [Sign h], CommitPayloads := (CommitPayloads d)[nat (MyIndex d) := Some p]\<rparr>"
  have "GetPrimaryIndex (ViewNumber d) ?d = GetPrimaryIndex (ViewNumber d) d"
    by (rule GetPrimaryIndex_cong) simp_all
  moreover have "signs ?d = insert h (signs d)" by (auto simp: signs_def)
  moreover have "\<not> locked d" using assms(1,4) by (auto simp: safe_def)
  moreover from this have "one_per_height (insert h (signs d))"
    using assms(1,2) by (auto simp: safe_def one_per_height_def locked_def)
  moreover have "nat (MyIndex d) < length (CommitPayloads d)" using assms(1,3) by (auto simp: safe_def)
  ultimately show ?thesis
    using assms(1-3) inv_index [OF assms(1)] by (auto simp: safe_def N_def mine_def slot_def RequestSentOrReceived_def)
qed

lemma sendCommit_inv:
  assumes "safe d" and "0 \<le> MyIndex d"
  shows "ok safe (sendCommit cfg d)"
proof -
  have i: "nat (MyIndex d) < N d" using assms by (auto simp: safe_def)
  show ?thesis
  proof (cases "mine d (CommitPayloads d)")
    case (Some p)
    then show ?thesis
      using inv_set_commit [OF assms(1) i] by (simp add: sendCommit_def same_inv [OF same_broadcast])
  next
    case None
    obtain x d1 where m: "MakeHeader cfg d = (x, d1)" by fastforce
    note mh = MakeHeader_inv [OF assms(1) m]
    have "mine d1 (CommitPayloads d1) = None" using None mh(5,6) by (simp add: mine_def)
    then show ?thesis
      using None m inv_sign [OF mh(1)] mh(2,5) assms(2)
      by (simp add: sendCommit_def same_inv [OF same_broadcast] Let_def split: option.split)
  qed
qed

lemma checkPrepare_inv:
  assumes "safe d" and "0 \<le> MyIndex d"
  shows "ok guarded (checkPrepare cfg d)"
  using assms
  by (auto simp: checkPrepare_def Let_def same_inv [OF same_changeTimer]
      intro!: guarded_bind [OF ok_guarded [OF sendCommit_inv]] checkCommit_inv grow)

lemma sendPrepareRequest_inv:
  assumes "safe d" and "IsPrimary d"
  shows "ok guarded (sendPrepareRequest cfg d)"
proof -
  obtain p d1 where m: "makePrepareRequest cfg d = (p, d1)" by fastforce
  have s: "same d d1" using m by (auto simp: makePrepareRequest_def Let_def)
  have my: "MyIndex d1 = int (PrimaryIndex d1)" using assms(2) same_idx [OF s] by (simp add: IsPrimary_def)
  have i1: "safe d1" using same_inv [OF s] assms(1) by simp
  have "nat (MyIndex d1) < N d1" using my inv_index [OF i1] by simp
  from inv_set_preparation [OF i1 this, of "Some (signed cfg d1 p)"]
  show ?thesis
    using my m
    by (auto simp: sendPrepareRequest_def Let_def same_inv [OF same_changeTimer] same_inv [OF same_broadcast]
        same_idx [OF same_changeTimer] same_idx [OF same_broadcast] intro!: checkPrepare_inv)
qed

lemma checkChangeView_inv:
  assumes "safe d" and "\<not> locked d"
  shows "ok safe (checkChangeView cfg v d)"
proof -
  let ?d = "if \<not> WatchOnly cfg d \<and> (case mine d (ChangeViewPayloads d) of None \<Rightarrow> False | Some m \<Rightarrow> NewViewNumber m < v)
     then broadcastChangeView cfg CVChangeAgreement d else d"
  have s: "same d ?d" by simp
  have i: "safe ?d" "\<not> locked ?d" using same_inv [OF s] same_locked [OF s] assms by blast+
  then have "ok safe (InitializeConsensus cfg v ?d)" if "v \<noteq> 0"
    using that unlocked_below [OF i] inv_one [OF i(1)] by (intro InitializeConsensus_inv) simp_all
  moreover have "v \<noteq> 0" if "\<not> v \<le> ViewNumber d" using that by auto
  ultimately show ?thesis using assms(1) unfolding checkChangeView_def by simp
qed

lemma sendChangeView_inv:
  assumes "safe d" and "\<not> locked d"
  shows "ok safe (sendChangeView cfg re d)"
proof -
  let ?d = "changeTimer cfg (shifted cfg (ViewNumber d + 1 + 1)) d"
  have i: "safe ?d" "\<not> locked ?d" using same_inv [OF same_changeTimer] same_locked [OF same_changeTimer] assms by blast+
  have "ok safe (checkChangeView cfg (ViewNumber d + 1) (broadcastChangeView cfg re' ?d))" for re'
    using same_inv [OF same_broadcastChangeView] same_locked [OF same_broadcastChangeView] i
    by (blast intro: checkChangeView_inv)
  then show ?thesis
    using assms i by (simp add: sendChangeView_def Let_def same_inv [OF same_sendRecoveryRequest])
qed

text \<open>With no request there is no header, and \<open>updateExistingPayloads\<close> checks no commit.\<close>

lemma drop_commit_id: "header d = None \<Longrightarrow> \<not> RequestSentOrReceived d \<Longrightarrow> drop_commit cfg i d = d"
  by (simp add: drop_commit_def MakeHeader_def split: option.split)

lemma fold_drop_commit_id:
  "header d = None \<Longrightarrow> \<not> RequestSentOrReceived d \<Longrightarrow> fold (drop_commit cfg) is d = d"
  by (induction "is") (simp_all add: drop_commit_id)

lemma updateExistingPayloads_request:
  assumes "header d = None" and "\<not> RequestSentOrReceived d"
  shows "\<exists>ps. updateExistingPayloads cfg msg d = d\<lparr>PreparationPayloads := ps\<rparr> \<and> length ps = length (PreparationPayloads d) \<and>
     slot ps (PrimaryIndex d) = None"
proof -
  let ?ps = "map (\<lambda>p. case p of None \<Rightarrow> None | Some m \<Rightarrow> (case Body m of
       PrepareResponse h \<Rightarrow> if h \<noteq> Hash (Keccak cfg) msg then None else Some m | _ \<Rightarrow> Some m)) (PreparationPayloads d)"
  have "slot ?ps (PrimaryIndex d) = None"
    using assms(2) by (simp add: slot_def RequestSentOrReceived_def split: if_splits)
  then show ?thesis
    using fold_drop_commit_id [of "d\<lparr>PreparationPayloads := ?ps\<rparr>"] assms(1)
    by (auto simp: updateExistingPayloads_def RequestSentOrReceived_def Let_def)
qed

lemma createAndCheckBlock_inv:
  assumes "safe d" and "\<not> locked d"
  shows "ok (\<lambda>(b, d'). safe d' \<and> (b \<longrightarrow> MyIndex d' = MyIndex d)) (createAndCheckBlock cfg d)"
proof -
  have f: "ok (\<lambda>(b, d'). safe d' \<and> (b \<longrightarrow> MyIndex d' = MyIndex d)) (bind_res (sendChangeView cfg re e) (\<lambda>d1. Inr (False, d1)))"
    if "safe e" "\<not> locked e" for re e
    by (rule ok_bind [OF sendChangeView_inv [OF that]]) simp
  have "ok (\<lambda>(b, d'). safe d' \<and> (b \<longrightarrow> MyIndex d' = MyIndex d)) (case x of
          None \<Rightarrow> Inl ''interface conversion: interface is nil''
        | Some b \<Rightarrow>
            if \<not> VerifyBlock cfg (world d1) b then
              bind_res (sendChangeView cfg CVTxInvalid d1) (\<lambda>d2. Inr (False, d2))
            else Inr (True, d1))" if c: "CreateBlock cfg d = Inr (x, d1)" for x d1
  proof -
    have "safe d1" "\<not> locked d1" "MyIndex d1 = MyIndex d"
      using CreateBlock_inv [OF assms(1) c] assms(2) by (simp_all add: locked_def)
    then show ?thesis using f [of d1] by (simp split: option.split)
  qed
  then show ?thesis
    using f [OF assms] by (cases "CreateBlock cfg d") (auto simp: createAndCheckBlock_def split_def)
qed

lemma sendPrepareResponse_inv:
  assumes "safe d" and "0 \<le> MyIndex d"
  shows "ok (\<lambda>d'. safe d' \<and> MyIndex d' = MyIndex d) (sendPrepareResponse cfg d)"
proof -
  have "nat (MyIndex d) < N d" using assms by (auto simp: safe_def)
  then show ?thesis
    using inv_set_preparation [OF assms(1), of "nat (MyIndex d)"]
    by (simp add: sendPrepareResponse_def Let_def same_inv [OF same_broadcast] same_idx [OF same_broadcast]
        split: option.split)
qed

lemma respond_inv:
  assumes "safe d" and "0 \<le> MyIndex d"
  shows "ok guarded (bind_res (sendPrepareResponse cfg d) (checkPrepare cfg))"
  by (rule ok_bind [OF sendPrepareResponse_inv [OF assms]]) (auto intro: checkPrepare_inv simp: assms(2))

lemma onPrepareRequest_inv:
  assumes i: "safe d" and v: "ValidatorIndex msg < N d"
  shows "ok guarded (onPrepareRequest cfg msg p d)"
proof (cases "RequestSentOrReceived d \<or> ViewNumber d \<noteq> MsgView msg \<or> ValidatorIndex msg \<noteq> PrimaryIndex d")
  case True
  then show ?thesis using i by (auto simp: onPrepareRequest_def safe_def)
next
  case False
  have prim: "GetPrimaryIndex (ViewNumber d) d = Inr (PrimaryIndex d)" using i by (simp add: safe_def)
  obtain g d1 where vr: "verifyRequest cfg p d = (g, d1)" by fastforce
  have s1: "same d d1" using same_verifyRequest [OF vr] .
  define d3 where "d3 = processMissingTx cfg (take_proposal p (extendTimer cfg 2 d1))"
  have s3: "same d d3"
    unfolding d3_def
    using same_trans [OF s1 same_trans [OF same_extendTimer same_trans [OF same_take_proposal same_processMissingTx]]] .
  have i3: "safe d3" "\<not> RequestSentOrReceived d3" "\<not> locked d3" "PrimaryIndex d3 = PrimaryIndex d"
    "MyIndex d3 = MyIndex d" "N d3 = N d"
    using same_inv [OF s3] same_idx [OF s3] i False s3 by (auto simp: safe_def same_def N_def)
  have "header d3 = None" using i3(1,2) by (cases "header d3") (auto simp: safe_def)
  from updateExistingPayloads_request [OF this i3(2), of cfg msg]
  obtain ps where ps: "updateExistingPayloads cfg msg d3 = d3\<lparr>PreparationPayloads := ps\<rparr>"
    "length ps = length (PreparationPayloads d3)" by auto
  define d5 where "d5 = d3\<lparr>PreparationPayloads := ps[ValidatorIndex msg := Some msg]\<rparr>"
  have "GetPrimaryIndex (ViewNumber d3) (d3\<lparr>PreparationPayloads := y\<rparr>) = GetPrimaryIndex (ViewNumber d3) d3" for y
    by (rule GetPrimaryIndex_cong) simp_all
  then have i5: "safe d5" "\<not> locked d5"
    using i3 ps(2) \<open>header d3 = None\<close>
    by (auto simp: d5_def safe_def N_def signs_def locked_def mine_def RequestSentOrReceived_def)
  have "ok guarded (if \<not> hasAllTransactions d5 then Inr d5
     else bind_res (createAndCheckBlock cfg d5) (\<lambda>(ok, d6).
       if \<not> ok \<or> WatchOnly cfg d6 then Inr d6
       else bind_res (sendPrepareResponse cfg d6) (checkPrepare cfg)))"
    using i5 by (auto intro!: ok_bind [OF createAndCheckBlock_inv [OF i5]] respond_inv simp: WatchOnly_def)
  moreover have "ok guarded (sendChangeView cfg CVBlockRejectedByPolicy d1)"
    using same_inv [OF s1] same_locked [OF s1] i False by (intro ok_guarded sendChangeView_inv) (auto simp: safe_def)
  moreover have "(updateExistingPayloads cfg msg d3)
      \<lparr>PreparationPayloads := (PreparationPayloads (updateExistingPayloads cfg msg d3))[PrimaryIndex d := Some msg]\<rparr> = d5"
    using False by (simp add: ps(1) d5_def)
  ultimately show ?thesis
    using False prim vr
    by (cases g; cases "hasAllTransactions d5") (simp_all add: onPrepareRequest_def d3_def [symmetric] Let_def)
qed

lemma onPrepareResponse_inv:
  assumes i: "safe d" and v: "ValidatorIndex msg < N d"
  shows "ok guarded (onPrepareResponse cfg msg h d)"
proof -
  have prim: "GetPrimaryIndex (ViewNumber d) d = Inr (PrimaryIndex d)" using i by (simp add: safe_def)
  define d1 where "d1 = d\<lparr>PreparationPayloads := (PreparationPayloads d)[ValidatorIndex msg := Some msg]\<rparr>"
  have i1: "safe d1" unfolding d1_def by (rule inv_set_preparation [OF i v]) simp
  let ?e = "extendTimer cfg 2 d1"
  have "ok guarded (if \<not> WatchOnly cfg ?e \<and> \<not> CommitSent cfg ?e \<and> RequestSentOrReceived ?e then checkPrepare cfg ?e else Inr ?e)"
    using i1 same_inv [OF same_extendTimer] by (auto intro!: checkPrepare_inv simp: WatchOnly_def)
  moreover have "safe (d1\<lparr>PreparationPayloads := (PreparationPayloads d1)[ValidatorIndex msg := None]\<rparr>)"
    if "ValidatorIndex msg \<noteq> PrimaryIndex d"
    using inv_set_preparation [OF i1, of "ValidatorIndex msg" None] that v by (simp add: d1_def N_def)
  ultimately show ?thesis
    using i prim by (cases "ViewNumber d = MsgView msg")
      (auto simp: onPrepareResponse_def d1_def [symmetric] Let_def split: option.split if_split_asm)
qed

lemma onRecoveryRequest_inv: "safe d \<Longrightarrow> ok guarded (onRecoveryRequest cfg msg d)"
  by (simp add: onRecoveryRequest_def same_inv [OF same_sendRecoveryMessage])

lemma locked_CommitSent: "\<not> WatchOnlyMode cfg \<Longrightarrow> safe d \<Longrightarrow> locked d \<Longrightarrow> CommitSent cfg d"
  by (auto simp: safe_def CommitSent_def WatchOnly_def)

lemma onChangeView_inv:
  assumes l: "\<not> WatchOnlyMode cfg" and i: "safe d"
  shows "ok guarded (onChangeView cfg msg p d)"
proof -
  have "ok guarded (checkChangeView cfg w (d\<lparr>ChangeViewPayloads := cs\<rparr>))" if "\<not> CommitSent cfg d" for w cs
    using that locked_CommitSent [OF l i] same_inv [OF same_updates(9)] same_locked [OF same_updates(9)] i
    by (intro ok_guarded checkChangeView_inv) blast+
  then show ?thesis
    using onRecoveryRequest_inv [OF i] i
    by (simp add: onChangeView_def same_inv [OF same_sendRecoveryMessage] split: option.split)
qed

lemma onCommit_inv:
  assumes i: "safe d" and v: "ValidatorIndex msg < N d"
  shows "ok guarded (onCommit cfg msg sig d)"
proof -
  let ?e = "extendTimer cfg 4 d"
  have ie: "safe ?e" using same_inv [OF same_extendTimer] i by blast
  have ve: "Validators ?e = Validators d" using same_extendTimer [of d cfg 4] by (simp add: same_def)
  obtain x d1 where m: "MakeHeader cfg ?e = (x, d1)" by fastforce
  have "safe (d1\<lparr>CommitPayloads := (CommitPayloads d1)[ValidatorIndex msg := Some msg]\<rparr>)"
    using MakeHeader_inv(1,10) [OF ie m] v ve by (intro inv_set_commit) (simp_all add: N_def)
  then show ?thesis
    using inv_set_commit [OF i v, of msg] MakeHeader_inv(1) [OF ie m]
      checkCommit_inv [of "d1\<lparr>CommitPayloads := (CommitPayloads d1)[ValidatorIndex msg := Some msg]\<rparr>" cfg]
    by (simp add: onCommit_def m Let_def split: option.split)
qed

lemma handle_inv:
  assumes "\<not> WatchOnlyMode cfg" and "safe d" and "ValidatorIndex msg < N d"
    and "\<And>m. Body msg = RecoveryMessage m \<Longrightarrow> ok guarded (onRec msg m d)"
  shows "ok guarded (handle cfg onRec msg d)"
  using assms
  by (simp add: handle_def onPrepareRequest_inv onPrepareResponse_inv onCommit_inv onChangeView_inv
      onRecoveryRequest_inv split: message_body.split)

lemma receive_inv:
  assumes l: "\<not> WatchOnlyMode cfg" and i: "safe d"
    and r: "\<And>m d'. Body msg = RecoveryMessage m \<Longrightarrow> safe d' \<Longrightarrow> ok guarded (onRec msg m d')"
  shows "ok guarded (receive cfg onRec msg d)"
proof -
  have h: "ok guarded (handle cfg onRec msg d')" if "safe d'" "Validators d' = Validators d" "ValidatorIndex msg < N d" for d'
    using handle_inv [OF l that(1)] r [OF _ that(1)] that(2,3) by (simp add: N_def)
  have "safe d' \<and> Validators d' = Validators d" if "see a b c d = Inr d'" for a b c d'
    using same_inv [OF same_see [OF that]] same_see [OF that] i by (simp add: same_def)
  then have "ok guarded (bind_res (see a b c d) (handle cfg onRec msg))" if "ValidatorIndex msg < N d" for a b c
    using that h by (cases "see a b c d") auto
  then show ?thesis
    using i h by (auto simp: receive_def same_inv [OF same_updates(2)] split: option.split)
qed

lemma receive_plain_inv:
  "\<not> WatchOnlyMode cfg \<Longrightarrow> safe d \<Longrightarrow> ok guarded (receive cfg (\<lambda>_ _ d. Inr d) msg d)"
  by (rule receive_inv) simp_all

lemma receive_all_inv:
  assumes "\<not> WatchOnlyMode cfg"
  shows "safe d \<Longrightarrow> ok guarded (receive_all cfg ps d)"
proof (induction ps arbitrary: d)
  case (Cons p ps)
  then show ?case by (auto intro!: guarded_bind [OF receive_plain_inv [OF assms Cons.prems]] grow)
qed simp

lemma recover_inv:
  assumes l: "\<not> WatchOnlyMode cfg" and i: "safe d"
  shows "ok guarded (recover_change_views cfg msg rec d)" and "ok guarded (recover_commits cfg msg rec d)"
    and "ok guarded (recover_preparations cfg msg rec d)"
proof -
  have all: "ok guarded (bind_res (or_panic x) (\<lambda>ps. receive_all cfg ps e))" if "safe e" for x e
    using receive_all_inv [OF l that] by (simp add: or_panic_def split: option.split)
  show "ok guarded (recover_change_views cfg msg rec d)" "ok guarded (recover_commits cfg msg rec d)"
    using all [OF i] by (simp_all add: recover_change_views_def recover_commits_def)
  have "ok guarded (bind_res (or_panic x) (\<lambda>r. case r of
      Some req \<Rightarrow> receive cfg (\<lambda>_ _ d. Inr d) req d
    | None \<Rightarrow> if IsPrimary d then sendPrepareRequest cfg d else Inr d))" for x
    using receive_plain_inv [OF l i] sendPrepareRequest_inv [OF i] i
    by (simp add: or_panic_def split: option.split)
  then show "ok guarded (recover_preparations cfg msg rec d)"
    unfolding recover_preparations_def using all i by (intro guarded_bind) (auto intro!: ok_bind_any grow)
qed

lemma onRecoveryMessage_inv:
  assumes l: "\<not> WatchOnlyMode cfg" and i: "safe d"
  shows "ok guarded (onRecoveryMessage cfg msg rec d)"
proof -
  have rec: "safe (d\<lparr>recovering := b\<rparr>)" if "safe d" for d :: "'a dbft" and b
    using same_inv [OF same_updates(3)] that by blast
  note rec [OF i, simp] rec [simp]
  show ?thesis
    unfolding onRecoveryMessage_def Let_def
    by (auto intro!: guarded_bind recover_inv l i grow grow_bind)
qed

lemma OnReceive_inv: "\<not> WatchOnlyMode cfg \<Longrightarrow> safe d \<Longrightarrow> ok guarded (OnReceive cfg msg d)"
  unfolding OnReceive_def by (rule receive_inv) (simp_all add: onRecoveryMessage_inv)

lemma OnTimeout_inv:
  assumes l: "\<not> WatchOnlyMode cfg" and i: "safe d"
  shows "ok guarded (OnTimeout cfg h d)"
proof -
  have "safe (changeTimer cfg t (sendRecoveryMessage cfg d))" for t
    using same_inv [OF same_trans [OF same_sendRecoveryMessage same_changeTimer]] i by blast
  moreover have "ok guarded (sendChangeView cfg CVTimeout d)" if "\<not> CommitSent cfg d"
    using that locked_CommitSent [OF l i] ok_guarded [OF sendChangeView_inv [OF i]] by blast
  ultimately show ?thesis
    using sendPrepareRequest_inv [OF i] i by (simp add: OnTimeout_def)
qed

lemma addTransaction_inv:
  assumes i: "safe d" and u: "\<not> locked d"
  shows "ok guarded (addTransaction cfg tx d)"
proof -
  let ?d = "d\<lparr>Transactions := AList.update (TxHash cfg tx) tx (Transactions d)\<rparr>"
  have i1: "safe ?d" "\<not> locked ?d" using same_inv [OF same_updates(5)] same_locked [OF same_updates(5)] i u by blast+
  have "ok guarded (bind_res (sendPrepareResponse cfg (extendTimer cfg 2 d2)) (checkPrepare cfg))"
    if "safe d2" "0 \<le> MyIndex d2" for d2
    using respond_inv same_inv [OF same_extendTimer] same_idx [OF same_extendTimer] that by metis
  then show ?thesis
    using i1 by (auto simp: addTransaction_def Let_def WatchOnly_def
        intro!: ok_bind [OF createAndCheckBlock_inv [OF i1]])
qed

text \<open>The transactions the node may get: none once it has committed without having responded.\<close>

lemma OnTransaction_inv:
  assumes l: "\<not> WatchOnlyMode cfg" and i: "safe d" and a: "CommitSent cfg d \<longrightarrow> ResponseSent cfg d"
  shows "ok guarded (OnTransaction cfg tx d)"
proof (cases "ResponseSent cfg d")
  case True
  then show ?thesis using i by (simp add: OnTransaction_def)
next
  case False
  then have "\<not> locked d" using a locked_CommitSent [OF l i] by blast
  from addTransaction_inv [OF i this, of cfg tx]
  have "ok guarded (bind_res (addTransaction cfg tx d) (\<lambda>d1. if MissingTransactions d1 = [] then Inr d1
      else Inr (d1\<lparr>MissingTransactions := x d1\<rparr>)))" for x
    by (rule guarded_bind) (auto simp: same_inv [OF same_updates(7)] intro!: safe_guarded)
  then show ?thesis using i by (simp add: OnTransaction_def split: option.split)
qed

section \<open>Runs\<close>

text \<open>
  The events a correct node meets: a block is announced once it is in the chain, and no transaction
  arrives between a commit and the response that should have preceded it.
\<close>

fun allowed :: "'w config \<Rightarrow> 'w event \<Rightarrow> 'w dbft \<Rightarrow> bool" where
  "allowed cfg (GotTransaction tx) d \<longleftrightarrow> (CommitSent cfg d \<longrightarrow> ResponseSent cfg d)"
| "allowed cfg (ChainBlock i) d \<longleftrightarrow> i < CurrentHeight cfg (world d) + 1"
| "allowed cfg _ d \<longleftrightarrow> True"

inductive node_run :: "'w config \<Rightarrow> 'w dbft \<Rightarrow> bool" for cfg where
  started: "Start cfg (New w) = Inr d \<Longrightarrow> node_run cfg d"
| stepped: "node_run cfg d \<Longrightarrow> allowed cfg e d \<Longrightarrow> step cfg e d = Inr d' \<Longrightarrow> node_run cfg d'"

lemma deliver_inv: "\<not> WatchOnlyMode cfg \<Longrightarrow> safe d \<Longrightarrow> ok guarded (deliver cfg ps d)"
proof (induction ps arbitrary: d)
  case (Cons p ps)
  then show ?case by (auto intro!: guarded_bind [OF OnReceive_inv [OF Cons.prems]] grow)
qed simp

lemma start_inv:
  assumes "\<not> WatchOnlyMode cfg" and "safe d"
  shows "ok guarded (start cfg d)"
proof -
  have "safe (d\<lparr>cache := c\<rparr>)" for c using same_inv [OF same_updates(2)] assms(2) by blast
  then show ?thesis
    using deliver_inv [OF assms(1)] sendPrepareRequest_inv [OF assms(2)]
    by (auto simp: start_def split: prod.split option.split)
qed

lemma Start_inv:
  assumes "\<not> WatchOnlyMode cfg"
  shows "ok guarded (Start cfg (New w))"
proof -
  have "signs ((New w)\<lparr>cache := []\<rparr>) = {}" by (simp add: signs_def New_def)
  then have "ok safe (InitializeConsensus cfg 0 ((New w)\<lparr>cache := []\<rparr>))"
    by (intro InitializeConsensus_inv) (simp_all add: one_per_height_def)
  then show ?thesis unfolding Start_def by (rule ok_bind) (rule start_inv [OF assms])
qed

lemma step_inv:
  assumes l: "\<not> WatchOnlyMode cfg" and i: "safe d" and a: "allowed cfg e d"
  shows "ok guarded (step cfg e d)"
proof (cases e)
  case (Received msg)
  then show ?thesis
    using OnReceive_inv [OF l i] by (cases "with_preparationHash cfg msg d") simp_all
next
  case (ChainBlock n)
  then have "ok guarded (InitializeConsensus cfg 0 d)" if "BlockIndex d \<le> n"
    using next_height_inv [OF i _ refl, of cfg] a that by (auto intro!: ok_guarded intro: order_le_less_trans)
  then show ?thesis using ChainBlock i by (simp add: handleChainBlock_def)
next
  case (Environment w)
  then show ?thesis using i by (simp add: same_inv [OF same_updates(4)])
qed (use a in \<open>simp_all add: OnTimeout_inv [OF l i] OnTransaction_inv [OF l i]\<close>)

lemma node_run_guarded:
  assumes "node_run cfg d" and l: "\<not> WatchOnlyMode cfg"
  shows "guarded d"
  using assms(1)
proof (induction rule: node_run.induct)
  case (started w d)
  then show ?case using Start_inv [OF l, of w] by simp
next
  case (stepped d e d')
  have "ok guarded (bind_res (Inr d) (\<lambda>d. if allowed cfg e d then step cfg e d else Inr d))"
    by (rule guarded_bind) (use stepped.IH step_inv [OF l] in \<open>auto intro: grow\<close>)
  then show ?case using stepped.hyps(2,3) by simp
qed

lemma node_run_one:
  "node_run cfg d \<Longrightarrow> \<not> WatchOnlyMode cfg \<Longrightarrow> accepted d \<Longrightarrow> one_per_height (signs d)"
  using node_run_guarded [of cfg d] by (simp add: guarded_def safe_def)

section \<open>Quorums\<close>

text \<open>
  A quorum system of \<open>n\<close> members of which \<open>f\<close> may be faulty: two quorums share a member that is not
  faulty, so two values that quorums back are equal when a correct member backs only one.
\<close>

locale quorum_system =
  fixes n m f :: nat
  assumes overlap: "n + f < 2 * m"
begin

lemma quorums_share_correct:
  assumes "Q \<subseteq> {..<n}" and "Q' \<subseteq> {..<n}" and "m \<le> card Q" and "m \<le> card Q'"
    and "finite B" and "card B \<le> f"
  shows "\<exists>i \<in> Q \<inter> Q'. i \<notin> B"
proof (rule ccontr)
  assume "\<not> ?thesis"
  then have "Q \<inter> Q' \<subseteq> B" by auto
  then have "card (Q \<inter> Q') \<le> f" using card_mono [OF assms(5)] assms(6) order_trans by blast
  moreover have "finite Q" "finite Q'" using assms(1,2) by (auto intro: finite_subset)
  then have "card Q + card Q' = card (Q \<union> Q') + card (Q \<inter> Q')" by (rule card_Un_Int)
  moreover have "card (Q \<union> Q') \<le> n" using card_mono [of "{..<n}" "Q \<union> Q'"] assms(1,2) by simp
  ultimately show False using assms(3,4) overlap by linarith
qed

lemma backed_unique:
  assumes "m \<le> card {i. i < n \<and> backs i x}" and "m \<le> card {i. i < n \<and> backs i y}"
    and "finite B" and "card B \<le> f" and "\<And>i. i < n \<Longrightarrow> i \<notin> B \<Longrightarrow> backs i x \<Longrightarrow> backs i y \<Longrightarrow> x = y"
  shows "x = y"
  using quorums_share_correct [of "{i. i < n \<and> backs i x}" "{i. i < n \<and> backs i y}" B] assms by auto

end

text \<open>The numbers \<open>M\<close> and \<open>F\<close> of the code form such a system for every committee that is not empty.\<close>

interpretation committee: quorum_system "Suc k" "Suc k - k div 3" "k div 3" for k
  by unfold_locales linarith

lemma committee_size:
  assumes "Validators d \<noteq> []"
  shows "quorum_system (N d) (M d) (F d)"
  using committee.quorum_system_axioms [of "N d - 1"] assms by (simp add: N_def M_def F_def)

end
