(* ===== verification/DbftProps.thy ===== *)
theory DbftProps
  imports DbftSafety
begin

text \<open>
  Properties of the consensus: agreement, the rotation of primaries, the header all nodes derive from
  a proposal, and executions on small committees that show where the code does not do what it means to.
\<close>

section \<open>A small committee\<close>

text \<open>
  The world is the height of the chain, the transactions the pool knows, and the time of the last
  processed block. Keys are their own addresses, a signature is the key followed by the index and the
  nonce of the header, and a transaction is its own hash. Blocks are verified and added as the
  service does it: a proposed block must be above the chain and later than the last processed block,
  the ledger takes the next block if its witness verifies, and the time of a processed block is noted
  whether or not the ledger took it.
\<close>

record toy =
  ty_height :: u32
  ty_txs :: "tx list"
  ty_last :: u64

abbreviation toy_world :: "u32 \<Rightarrow> tx list \<Rightarrow> toy" where
  "toy_world n ts \<equiv> \<lparr>ty_height = n, ty_txs = ts, ty_last = 0\<rparr>"

definition toy_sign :: "privkey \<Rightarrow> hdr \<Rightarrow> signature" where
  "toy_sign k h = k @ put_le 4 (hd_Index h) @ put_le 8 (hd_Nonce h)"

definition toy_hash :: "bytes \<Rightarrow> hash" where
  "toy_hash b = b"

text \<open>Signatures of one header by some of the keys, in the order of the keys.\<close>

fun toy_multisig :: "hdr \<Rightarrow> pubkey list \<Rightarrow> signature list \<Rightarrow> bool" where
  "toy_multisig h ks [] = True"
| "toy_multisig h [] (s # ss) = False"
| "toy_multisig h (k # ks) (s # ss) = toy_multisig h ks (if s = toy_sign k h then ss else s # ss)"

definition toy_add :: "blk \<Rightarrow> pubkey list \<Rightarrow> signature list \<Rightarrow> toy \<Rightarrow> toy" where
  "toy_add b ks ss w =
     (let w1 = (if hd_Index (fst b) = ty_height w + 1 \<and> toy_multisig (fst b) ks ss
          then w\<lparr>ty_height := hd_Index (fst b)\<rparr> else w) in
      w1\<lparr>ty_last := (if ty_last w < hd_Timestamp (fst b) then hd_Timestamp (fst b) else ty_last w)\<rparr>)"

definition toy_config :: "pubkey list \<Rightarrow> privkey \<Rightarrow> toy config" where
  "toy_config vs me =
     \<lparr>SecondsPerBlock = 15000000000, TimestampIncrement = 1000000, ChainID = 1, MaxTxPerBlock = 512,
      Keccak = toy_hash, Keys = \<lparr>Address = \<lambda>k. k, CreateVerificationScript = \<lambda>k. 0 # k\<rparr>,
      PublicKeyOf = (\<lambda>k. k), SignPayload = (\<lambda>k c h. k), SignHeader = toy_sign,
      VerifyHeader = (\<lambda>k s h. s = toy_sign k h), TxHash = (\<lambda>t. t), CalcMerkle = concat,
      GetConsensusAddress = concat, GetAccount = (\<lambda>a. if a = me then Some me else None),
      WatchOnlyMode = False, GetTx = (\<lambda>w h. if h \<in> set (ty_txs w) then Some h else None),
      GetVerified = (\<lambda>w v. []),
      VerifyBlock = (\<lambda>w b. ty_height w < hd_Index (fst b) \<and> ty_last w < hd_Timestamp (fst b)),
      AddBlock = toy_add, SetLastProposal = (\<lambda>hs w. w),
      CurrentHeight = ty_height, CurrentBlockHash = (\<lambda>w. put_le 4 (ty_height w)), GetValidators = (\<lambda>w i. vs),
      Now = (\<lambda>w. 1000000000), Rand = (\<lambda>w. 7)\<rparr>"

definition four :: "pubkey list" where
  "four = [[0], [1], [2], [3]]"

definition toy_payload :: "nat \<Rightarrow> byte \<Rightarrow> message_body \<Rightarrow> payload" where
  "toy_payload i v b =
     \<lparr>Extensible = \<lparr>Category = Category_dBFT, ValidBlockStart = 0, ValidBlockEnd = 1, Sender = [of_nat i],
        Data = None, Witness = \<lparr>InvocationScript = [], VerificationScript = []\<rparr>\<rparr>,
      message = \<lparr>msg_BlockIndex = 1, msg_ValidatorIndex = of_nat i, msg_ViewNumber = v, msg_payload = b\<rparr>,
      chainId = 1\<rparr>"

text \<open>A proposal for height 1 with a time, a nonce and transactions.\<close>

definition toy_request :: "nat \<Rightarrow> byte \<Rightarrow> u64 \<Rightarrow> u64 \<Rightarrow> hash list \<Rightarrow> payload" where
  "toy_request i v time nonce hs = toy_payload i v (PrepareRequest
     \<lparr>pr_version = 0, pr_prevHash = put_le 4 (0 :: u32), pr_timestamp = time, pr_nonce = nonce,
      pr_nextConsensus = [0, 1, 2, 3], pr_transactionHashes = hs\<rparr>)"

definition toy_response :: "nat \<Rightarrow> payload \<Rightarrow> payload" where
  "toy_response i req = toy_payload i (MsgView req) (PrepareResponse (Hash toy_hash req))"

definition toy_change :: "nat \<Rightarrow> payload" where
  "toy_change i = toy_payload i 0 (ChangeView \<lparr>newViewNumber = 1, cv_timestamp = 0, reason = 0\<rparr>)"

definition signed_at :: "u32 \<Rightarrow> toy dbft outcome \<Rightarrow> hdr list" where
  "signed_at i r = (case r of Inl _ \<Rightarrow> []
     | Inr d \<Rightarrow> filter (\<lambda>h. hd_Index h = i) (concat (map (\<lambda>e. case e of Sign h \<Rightarrow> [h] | _ \<Rightarrow> []) (effects d))))"

text \<open>
  The node misses a transaction of the first proposal, finds it when it asks for recovery, gets
  enough responses and commits; then the transaction arrives from the network.
\<close>

definition late_events :: "toy event list" where
  "late_events =
     (let req = toy_request 1 0 2 5 [[9]]; req' = toy_request 0 1 2 6 [] in
      [Received req, Environment (toy_world 0 [[9]]), TimedOut \<lparr>Height = 1, View = 0\<rparr>,
       Received (toy_change 0), Received (toy_change 2),
       Received (toy_response 0 req), Received (toy_response 2 req), GotTransaction [9],
       Received req', Received (toy_response 1 req'), Received (toy_response 2 req')])"

text \<open>
  A committee whose pool holds a transaction that no block may have, and whose ledger takes every
  block: processing a block makes the next height higher or, at the last of the \<open>2 ^ 32\<close> heights,
  leaves a chain without validators, on which \<open>reset\<close> panics.
\<close>

definition advances :: "'w config \<Rightarrow> u32 \<Rightarrow> 'w \<Rightarrow> bool" where
  "advances cfg i w \<longleftrightarrow> i < CurrentHeight cfg w + 1 \<or> (\<forall>j. GetValidators cfg w j = [])"

definition ledger_ok :: "'w config \<Rightarrow> bool" where
  "ledger_ok cfg \<longleftrightarrow> \<not> WatchOnlyMode cfg \<and>
     (\<forall>b ks ss w. advances cfg (hd_Index (fst b)) (AddBlock cfg b ks ss w))"

definition late_config :: "toy config" where
  "late_config = (toy_config four [3])\<lparr>
     VerifyBlock := \<lambda>w b. ty_height w < hd_Index (fst b) \<and> ty_last w < hd_Timestamp (fst b) \<and> snd b = [],
     AddBlock := \<lambda>b ks ss w. w\<lparr>ty_height := hd_Index (fst b)\<rparr>,
     GetValidators := \<lambda>w i. if ty_height w = 0xFFFFFFFF then [] else four\<rparr>"

text \<open>
  The primary sends a recovery message with made-up commits, then a proposal, and once the ledger has
  refused the block, a later proposal for the same height.
\<close>

definition forged_recovery :: payload where
  "forged_recovery = toy_payload 1 0 (RecoveryMessage (empty_recovery\<lparr>commitPayloads :=
     map (\<lambda>i. \<lparr>cc_ViewNumber = 0, cc_ValidatorIndex = of_nat i, cc_Signature = [], cc_InvocationScript = []\<rparr>) [0, 1, 2]\<rparr>))"

definition forged_events :: "toy event list" where
  "forged_events =
     (let req = toy_request 1 0 2 5 []; req' = toy_request 1 0 3 6 [] in
      [Received forged_recovery, Received req, Received (toy_response 0 req),
       Received req', Received (toy_response 0 req')])"

definition run :: "toy config \<Rightarrow> toy event list \<Rightarrow> toy dbft outcome" where
  "run cfg es = bind_res (Start cfg (New (toy_world 0 []))) (steps cfg es)"

definition own_recovery :: payload where
  "own_recovery = toy_payload 2 1 (RecoveryMessage (empty_recovery
     \<lparr>changeViewPayloads := map (\<lambda>i. \<lparr>cvc_ValidatorIndex = of_nat i, cvc_OriginalViewNumber = 0, cvc_Timestamp = 0,
          cvc_InvocationScript = []\<rparr>) [1, 2, 3],
      prepareRequest := Some \<lparr>rq_BlockIndex = 0, rq_ValidatorIndex = 0, rq_ViewNumber = 1,
        rq_request = \<lparr>pr_version = 0, pr_prevHash = put_le 4 (0 :: u32), pr_timestamp = 2, pr_nonce = 5,
          pr_nextConsensus = [0, 1, 2, 3], pr_transactionHashes = []\<rparr>\<rparr>,
      preparationPayloads := map (\<lambda>i. \<lparr>pc_ValidatorIndex = of_nat i, pc_InvocationScript = []\<rparr>) [0, 1]\<rparr>))"


lemma toy_sign_nonempty: "[] = toy_sign (x # k) h \<longleftrightarrow> False"
  by (simp add: toy_sign_def)

lemma bind_res_weak: "m = m' \<Longrightarrow> bind_res m f = bind_res m' f"
  by simp

lemma message_toy: "message (toy_payload i v b) =
    \<lparr>msg_BlockIndex = 1, msg_ValidatorIndex = of_nat i, msg_ViewNumber = v, msg_payload = b\<rparr>"
  by (simp add: toy_payload_def)

lemma toy_config_simps:
  "Keccak (toy_config vs me) = toy_hash"
  "SecondsPerBlock (toy_config vs me) = 15000000000" "TimestampIncrement (toy_config vs me) = 1000000"
  "ChainID (toy_config vs me) = 1" "MaxTxPerBlock (toy_config vs me) = 512"
  "Keys (toy_config vs me) = \<lparr>Address = \<lambda>k. k, CreateVerificationScript = \<lambda>k. 0 # k\<rparr>"
  "PublicKeyOf (toy_config vs me) k = k" "SignPayload (toy_config vs me) k c h = k" "SignHeader (toy_config vs me) = toy_sign"
  "VerifyHeader (toy_config vs me) k s hh = (s = toy_sign k hh)" "TxHash (toy_config vs me) t = t"
  "CalcMerkle (toy_config vs me) = concat" "GetConsensusAddress (toy_config vs me) = concat"
  "GetAccount (toy_config vs me) a = (if a = me then Some me else None)" "WatchOnlyMode (toy_config vs me) = False"
  "GetTx (toy_config vs me) w h = (if h \<in> set (ty_txs w) then Some h else None)" "GetVerified (toy_config vs me) w v = []"
  "VerifyBlock (toy_config vs me) w b = (ty_height w < hd_Index (fst b) \<and> ty_last w < hd_Timestamp (fst b))"
  "AddBlock (toy_config vs me) = toy_add"
  "SetLastProposal (toy_config vs me) hs w = w" "CurrentHeight (toy_config vs me) = ty_height"
  "CurrentBlockHash (toy_config vs me) w = put_le 4 (ty_height w)" "GetValidators (toy_config vs me) w i = vs"
  "Now (toy_config vs me) w = 1000000000" "Rand (toy_config vs me) w = 7"
  by (simp_all add: toy_config_def)

lemmas context_defs = N_def F_def M_def GetPrimaryIndex_def go_rem_def go_quot_def IsPrimary_def IsBackup_def WatchOnly_def mine_def
  CountCommitted_def CountFailed_def RequestSentOrReceived_def ResponseSent_def CommitSent_def BlockSent_def
  ViewChanging_def MoreThanFNodesCommittedOrLost_def NotAcceptingPayloadsDueToViewChanging_def hasAllTransactions_def
  getKeyPair_def reset_height_def reset_view_def see_def reset_def slot_def
  newBlockFromContext_def MakeHeader_def CreateBlock_def NewViewNumber_def CommitSignature_def is_request_def is_recovery_def

lemmas send_defs = changeTimer_def extendTimer_def shifted_def newPayload_def signed_def encodeData_def broadcast_def
  InitializeConsensus_def checkCommit_def getBlockWitness_def sendCommit_def checkPrepare_def broadcastChangeView_def checkChangeView_def
  processMissingTx_def sendRecoveryRequest_def sendChangeView_def sendPrepareResponse_def

lemmas handler_defs = createAndCheckBlock_def drop_commit_def updateExistingPayloads_def verifyRequest_def take_proposal_def
  onPrepareRequest_def onPrepareResponse_def onChangeView_def onCommit_def handle_def receive_def OnReceive_def
  onRecoveryMessage_def recover_commits_def recover_preparations_def OnTimeout_def addTransaction_def OnTransaction_def
  start_def Start_def New_def with_preparationHash_def or_panic_def swap_remove_def getHeight_def


lemmas toy_defs = toy_request_def toy_response_def toy_change_def message_toy four_def find_account.simps late_config_def
  addMessage_def zero_time_def toy_add_def toy_sign_nonempty nsInMs_def


lemmas run_defs = run_def context_defs send_defs handler_defs toy_config_simps toy_defs Let_def time_sub_def max_i64_def


lemmas recovery_defs = GetPrepareRequest_def GetPrepareResponses_def GetCommits_def GetChangeViews_def those_map_def
  attributed_def fromPayload_def empty_recovery_def recover_change_views_def

lemma signed_at_Inr:
  assumes "map f (signed_at i r) = [a, b]" and "a \<noteq> b"
  shows "\<exists>d. r = Inr d \<and> \<not> one_per_height (signs d)"
proof -
  obtain d where d: "r = Inr d" using assms(1) by (cases r) (auto simp: signed_at_def)
  obtain h h' where h: "signed_at i r = [h, h']" "f h = a" "f h' = b" using assms(1) by (auto simp: map_eq_Cons_conv)
  have sub: "set (signed_at i r) \<subseteq> {h \<in> signs d. hd_Index h = i}"
    unfolding d signed_at_def signs_def by (auto split: effect.splits)
  then have "h \<in> signs d" "h' \<in> signs d" "hd_Index h = hd_Index h'" "h \<noteq> h'" using h assms(2) by auto
  then show ?thesis using d unfolding one_per_height_def by blast
qed

section \<open>Agreement\<close>

text \<open>
  C2. A node signs at most one header per height, whatever messages and timeouts it meets and in
  whatever order, if in its run the ledger refused no block the node handed to it, no transaction
  arrived between a commit and the response that should have preceded it, blocks were announced only
  after the ledger had them, and the node is not in watch-only mode.
\<close>

theorem one_header_per_height:
  assumes "node_run cfg d" and "\<not> WatchOnlyMode cfg" and "accepted d"
  shows "one_per_height (signs d)"
  using node_run_one [OF assms] .

text \<open>A committee of one: the node proposes, commits and processes the first block at once.\<close>

abbreviation single :: "toy config" where
  "single \<equiv> toy_config [[0]] [0]"

lemma single_run:
  "\<exists>d h b. Start single (New (toy_world 0 [])) = Inr d \<and> signs d = {h} \<and> hd_Index h = 1 \<and>
     ProcessBlock b 1 \<in> set (effects d) \<and> fst b = h \<and> accepted d"
  by (simp add: run_defs sendPrepareRequest_def makePrepareRequest_def Fill_def getTimestamp_def signs_def accepted_def
      cong: bind_res_weak let_weak_cong split del: if_split)

theorem one_header_per_height_witness:
  "\<exists>d b. Start single (New (toy_world 0 [])) = Inr d \<and> ProcessBlock b 1 \<in> set (effects d) \<and>
     signs d \<noteq> {} \<and> one_per_height (signs d)"
proof -
  obtain d h b where d: "Start single (New (toy_world 0 [])) = Inr d" "signs d = {h}"
    "ProcessBlock b 1 \<in> set (effects d)" "accepted d" using single_run by blast
  then have "signs d \<noteq> {}" by simp
  moreover have "one_per_height (signs d)"
    by (rule one_header_per_height [OF node_run.started [OF d(1)] _ d(4)]) (simp add: toy_config_simps)
  ultimately show ?thesis using d(1,3) by blast
qed

text \<open>A header is certified when \<open>M\<close> validators of the committee have a valid signature for it.\<close>

definition certified :: "(pubkey \<Rightarrow> signature \<Rightarrow> hdr \<Rightarrow> bool) \<Rightarrow> pubkey list \<Rightarrow> hdr \<Rightarrow> bool" where
  "certified verify vs h \<longleftrightarrow> (\<exists>sigs :: nat \<Rightarrow> signature.
     length vs - (length vs - 1) div 3 \<le> card {i. i < length vs \<and> verify (vs ! i) (sigs i) h})"

text \<open>
  C1. Agreement: let at most \<open>F\<close> members of a committee be faulty, and let every valid signature of
  another member be made by that member's node in a run of the protocol as in C2: the ledger refused
  no block of the node, no transaction arrived late, blocks were announced after the ledger had them,
  and the node is not in watch-only mode. Then two headers of the same height that are both certified
  by \<open>M\<close> signatures are the same header. Nothing is assumed of the faulty members, of the messages the
  nodes receive, or of the ledgers and pools the nodes see beyond that.
\<close>

theorem dbft_agreement:
  fixes node :: "nat \<Rightarrow> 'w dbft"
  assumes "vs \<noteq> []" and "B \<subseteq> {..<length vs}" and "card B \<le> (length vs - 1) div 3"
    and "\<forall>i < length vs. i \<notin> B \<longrightarrow> node_run (cfg i) (node i) \<and> \<not> WatchOnlyMode (cfg i) \<and> accepted (node i)"
    and "\<forall>i < length vs. i \<notin> B \<longrightarrow> (\<forall>s h. verify (vs ! i) s h \<longrightarrow> Sign h \<in> set (effects (node i)))"
    and "certified verify vs h" and "certified verify vs h'" and "hd_Index h = hd_Index h'"
  shows "h = h'"
proof -
  let ?k = "length vs - 1"
  have n: "Suc ?k = length vs" using assms(1) by simp
  let ?backs = "\<lambda>i x. \<exists>s. verify (vs ! i) s x"
  have q: "Suc ?k - ?k div 3 \<le> card {i. i < Suc ?k \<and> ?backs i x}" if "certified verify vs x" for x
  proof -
    from that obtain sigs where s: "Suc ?k - ?k div 3 \<le> card {i. i < length vs \<and> verify (vs ! i) (sigs i) x}"
      using n by (auto simp: certified_def)
    have "card {i. i < length vs \<and> verify (vs ! i) (sigs i) x} \<le> card {i. i < length vs \<and> ?backs i x}"
      by (rule card_mono) auto
    then show ?thesis using s n by simp
  qed
  have one: "h = h'" if "i < Suc ?k" "i \<notin> B" "?backs i h" "?backs i h'" for i
  proof -
    have "h \<in> signs (node i)" "h' \<in> signs (node i)" using that assms(5) n by (auto simp: signs_def)
    moreover have "one_per_height (signs (node i))"
      using that(1,2) assms(4) n node_run_one [of "cfg i" "node i"] by simp
    ultimately show ?thesis using assms(8) unfolding one_per_height_def by blast
  qed
  show ?thesis
  proof (rule committee.backed_unique [where backs = ?backs])
    show "finite B" using assms(2) finite_subset by blast
  qed (use q [OF assms(6)] q [OF assms(7)] assms(3) one in auto)
qed

theorem dbft_agreement_witness:
  "\<exists>d h. Start single (New (toy_world 0 [])) = Inr d \<and> certified (\<lambda>k s x. x = h) [[0]] h \<and>
     (\<lambda>h'. if certified (\<lambda>k s x. x = h) [[0]] h' \<and> hd_Index h' = hd_Index h then h' else h) = (\<lambda>h'. h)"
proof -
  obtain d h where d: "Start single (New (toy_world 0 [])) = Inr d" "signs d = {h}" "accepted d" using single_run by blast
  have c: "certified (\<lambda>k s x. x = h) [[0]] h" by (simp add: certified_def)
  have "h' = h" if "certified (\<lambda>k s x. x = h) [[0]] h'" "hd_Index h' = hd_Index h" for h'
    by (rule dbft_agreement [where vs = "[[0]]" and B = "{}" and cfg = "\<lambda>i. single" and node = "\<lambda>i. d"
          and verify = "\<lambda>k s x. x = h"])
      (use node_run.started [OF d(1)] d(2,3) c that in \<open>auto simp: signs_def toy_config_simps\<close>)
  then show ?thesis using d c by (intro exI [of _ d] exI [of _ h]) auto
qed

section \<open>Where signing twice is possible\<close>

text \<open>
  C36. The exception for late transactions is needed. A backup that misses a transaction and finds it
  while asking for recovery commits, on the responses of the others, to a block it has never verified;
  when the transaction then arrives, it verifies the block, rejects it, and changes the view although
  it has committed. In the next view it signs a second header of the same height. The ledger behaves
  as required throughout.
\<close>

theorem late_transaction_signs_twice:
  "ledger_ok late_config \<and> (\<exists>d. run late_config late_events = Inr d \<and> accepted d \<and> \<not> one_per_height (signs d))"
proof
  have "case run late_config late_events of Inl _ \<Rightarrow> False | Inr d \<Rightarrow> map hd_Nonce (signed_at 1 (Inr d)) = [5, 6] \<and>
      list_all (\<lambda>e. case e of ProcessBlock b h \<Rightarrow> False | _ \<Rightarrow> True) (effects d)"
    by (simp add: late_events_def late_config_def signed_at_def run_defs cong: bind_res_weak let_weak_cong split del: if_split)
  then show "\<exists>d. run late_config late_events = Inr d \<and> accepted d \<and> \<not> one_per_height (signs d)"
    using signed_at_Inr [of hd_Nonce 1 "run late_config late_events" 5 6]
    by (force simp: accepted_def list_all_iff split: sum.splits)
  have "h < h + 1" if "h \<noteq> 0xFFFFFFFF" for h :: u32
    using that uint_bounded [of h] by (simp add: word_less_def uint_word_ariths word_uint_eq_iff mod_pos_pos_trivial)
  then show "ledger_ok late_config"
    by (auto simp: ledger_ok_def late_config_def advances_def toy_config_simps)
qed

text \<open>
  That no block is refused is needed as well. Commits that arrive before the prepare request are
  never verified: a recovery message of the primary with made-up commits makes a node of a committee
  of four hand a block to the ledger with a witness that does not verify. The ledger refuses it, the
  node starts the same height over, and signs a second header for it when the primary proposes again
  with a later time. No transaction arrives late in this run, and no block is announced.
\<close>

lemma received_node_run:
  "node_run cfg d \<Longrightarrow> steps cfg (map Received ps) d = Inr d' \<Longrightarrow> node_run cfg d'"
proof (induction ps arbitrary: d)
  case (Cons p ps)
  then obtain e where "step cfg (Received p) d = Inr e" "steps cfg (map Received ps) e = Inr d'"
    by (cases "step cfg (Received p) d") auto
  then show ?case using Cons.IH [OF node_run.stepped [OF Cons.prems(1), of "Received p"]] by (simp del: step.simps)
qed simp

theorem forged_commits_sign_twice:
  "\<exists>d. run (toy_config four [3]) forged_events = Inr d \<and> node_run (toy_config four [3]) d \<and>
     (\<exists>b. ProcessBlock b 0 \<in> set (effects d) \<and> hd_Index (fst b) = 1) \<and> \<not> one_per_height (signs d)"
proof -
  let ?r = "run (toy_config four [3]) forged_events"
  have e: "case ?r of Inl _ \<Rightarrow> False | Inr d \<Rightarrow> map hd_Nonce (signed_at 1 (Inr d)) = [5, 6] \<and>
      list_ex (\<lambda>e. case e of ProcessBlock b h \<Rightarrow> h = 0 \<and> hd_Index (fst b) = 1 | _ \<Rightarrow> False) (effects d)"
    by (simp add: forged_events_def forged_recovery_def signed_at_def run_defs recovery_defs CommitSignature_def
        cong: bind_res_weak let_weak_cong split del: if_split)
  then obtain d where d: "?r = Inr d" "\<not> one_per_height (signs d)"
    using signed_at_Inr [of hd_Nonce 1 ?r 5 6] by (auto split: sum.splits)
  obtain x where "x \<in> set (effects d)" "case x of ProcessBlock b h \<Rightarrow> h = 0 \<and> hd_Index (fst b) = 1 | _ \<Rightarrow> False"
    using e d(1) by (auto simp: list_ex_iff)
  moreover from this(2) obtain b where "x = ProcessBlock b 0" "hd_Index (fst b) = 1" by (cases x) auto
  ultimately have "\<exists>b. ProcessBlock b 0 \<in> set (effects d) \<and> hd_Index (fst b) = 1" by blast
  moreover have "node_run (toy_config four [3]) d"
  proof -
    obtain d0 where s: "Start (toy_config four [3]) (New (toy_world 0 [])) = Inr d0" "steps (toy_config four [3]) forged_events d0 = Inr d"
      using d(1) by (cases "Start (toy_config four [3]) (New (toy_world 0 []))") (auto simp: run_def)
    have "\<exists>ps. forged_events = map Received ps" unfolding forged_events_def Let_def by (simp add: map_eq_Cons_conv Cons_eq_map_conv)
    then show ?thesis using received_node_run [OF node_run.started [OF s(1)]] s(2) by metis
  qed
  ultimately show ?thesis using d by blast
qed

text \<open>
  A node that is the primary of a later view and learns its own prepare request from a recovery
  message answers it with a response of its own, which replaces the request in its slot; the next
  response from another validator then panics.
\<close>

theorem restarted_primary_panics:
  "run (toy_config four [0]) [Received own_recovery] = Inl ''interface conversion: not a PrepareRequest''"
  by (simp add: own_recovery_def run_defs recovery_defs cong: bind_res_weak let_weak_cong split del: if_split)

text \<open>
  When the committee grows, a node whose index lies beyond the size of the committee it started
  with panics at the next height, because \<open>LastSeenMessage\<close> keeps its first length.
\<close>

theorem committee_growth_panics:
  assumes "vs = GetValidators cfg (world d) (CurrentHeight cfg (world d) + 1)" and "vs \<noteq> []"
    and "getKeyPair cfg vs = (my, priv, pub)" and "LastSeenMessage d = Some hs" and "int (length hs) \<le> my"
  shows "InitializeConsensus cfg 0 d = Inl ''index out of range''"
proof -
  have "0 \<le> my" "\<not> nat my < length hs" using assms(5) by auto
  then show ?thesis
    using assms(2,4) assms(3) [unfolded assms(1)] assms(1)
    by (simp add: InitializeConsensus_def reset_def reset_height_def see_def GetPrimaryIndex_def Let_def)
qed

theorem committee_growth_panics_witness:
  "InitializeConsensus (toy_config [[0], [1]] [1]) 0 ((New (toy_world 5 []))\<lparr>LastSeenMessage := Some [None]\<rparr>) =
     Inl ''index out of range''"
  by (rule committee_growth_panics [where vs = "[[0], [1]]" and hs = "[None]" and my = 1 and priv = "[1]" and pub = "[1]"])
    (simp_all add: toy_config_simps New_def getKeyPair_def)

text \<open>
  A recovery message for a later view that lists a change view of a validator index outside the
  committee panics the node that receives it: the index is used before anything is checked.
\<close>

theorem recovery_index_panics:
  assumes "ValidatorIndex msg < N d" and "MsgHeight msg = BlockIndex d" and "ViewNumber d < MsgView msg"
    and "\<not> CommitSent cfg d" and "LastSeenMessage d = Some hs" and "length hs = N d"
    and "Body msg = RecoveryMessage rec" and "c \<in> set (changeViewPayloads rec)"
    and "N d \<le> unat (cvc_ValidatorIndex c)"
  shows "OnReceive cfg msg d = Inl ''index out of range''"
proof -
  have none: "GetChangeViews (Keys cfg) rec msg (Validators e) = None" if "Validators e = Validators d" for e :: "'a dbft"
  proof -
    have "those ys = None" if "None \<in> set ys" for ys :: "payload option list"
      using that by (induction ys) (auto split: option.splits)
    moreover have "None \<in> set (map (\<lambda>c. attributed (Keys cfg) (Validators d) (cvc_ValidatorIndex c) (cvc_InvocationScript c) (q c)) (changeViewPayloads rec))" for q
      using assms(8,9) by (force simp: attributed_def N_def)
    ultimately show ?thesis using that by (simp add: GetChangeViews_def those_map_def)
  qed
  have rec: "onRecoveryMessage cfg msg rec e = Inl ''index out of range''" if "e = d \<or> (\<exists>x. e = d\<lparr>LastSeenMessage := x\<rparr>)" for e
    using that assms(3,4) none
    by (auto simp: onRecoveryMessage_def recover_change_views_def or_panic_def CommitSent_def WatchOnly_def mine_def Let_def)
  have "onRecoveryMessage cfg msg rec d = Inl ''index out of range''"
    and "onRecoveryMessage cfg msg rec (d\<lparr>LastSeenMessage := x\<rparr>) = Inl ''index out of range''" for x
    using rec by blast+
  then show ?thesis
    using assms(1,2,5-7) by (simp add: OnReceive_def receive_def is_recovery_def see_def handle_def)
qed

theorem recovery_index_panics_witness:
  "OnReceive (toy_config four [3])
     (toy_payload 0 1 (RecoveryMessage (empty_recovery\<lparr>changeViewPayloads := [\<lparr>cvc_ValidatorIndex = 9,
        cvc_OriginalViewNumber = 0, cvc_Timestamp = 0, cvc_InvocationScript = []\<rparr>]\<rparr>)))
     ((New (toy_world 0 []))\<lparr>BlockIndex := 1, Validators := four, LastSeenMessage := Some [None, None, None, None],
        CommitPayloads := [None, None, None, None]\<rparr>) = Inl ''index out of range''"
  by (rule recovery_index_panics [where rec = "empty_recovery\<lparr>changeViewPayloads := [\<lparr>cvc_ValidatorIndex = 9,
        cvc_OriginalViewNumber = 0, cvc_Timestamp = 0, cvc_InvocationScript = []\<rparr>]\<rparr>"
        and hs = "[None, None, None, None]" and c = "\<lparr>cvc_ValidatorIndex = 9,
        cvc_OriginalViewNumber = 0, cvc_Timestamp = 0, cvc_InvocationScript = []\<rparr>"])
    (simp_all add: message_toy four_def N_def New_def CommitSent_def mine_def slot_def)

section \<open>Primaries and proposals\<close>

text \<open>
  The primaries rotate: over any run of as many views as there are validators, every validator is
  the primary of exactly one of them (as long as the view number does not wrap).
\<close>

theorem primary_rotation:
  assumes "i < N d" and "unat v + N d \<le> 256"
  shows "\<exists>!k. k < N d \<and> GetPrimaryIndex (v + of_nat k) d = Inr i"
proof -
  let ?n = "int (N d)" and ?b = "uint (BlockIndex d) - uint v"
  have ne: "Validators d \<noteq> []" and n: "0 < ?n" using assms(1) by (auto simp: N_def)
  have view: "uint (v + of_nat k) = uint v + int k" if "k < N d" for k
  proof -
    have "unat (of_nat k :: byte) = k" using that assms(2) by (simp add: unat_of_nat take_bit_nat_eq_self)
    then have "unat (v + of_nat k) = unat v + k" using that assms(2) by (simp add: unat_word_ariths)
    then show ?thesis by (metis of_nat_add of_nat_unat)
  qed
  have eq: "GetPrimaryIndex (v + of_nat k) d = Inr i \<longleftrightarrow> (?b - int k) mod ?n = int i" if "k < N d" for k
  proof -
    have "0 \<le> (?b - int k) mod ?n" using n by simp
    moreover have "GetPrimaryIndex (v + of_nat k) d = Inr (nat ((?b - int k) mod ?n))"
      using GetPrimaryIndex_eq [OF ne, of "v + of_nat k"] unfolding view [OF that] by (simp only: diff_diff_eq)
    ultimately show ?thesis by (simp only: sum.inject) (metis int_nat_eq nat_int)
  qed
  have uniq: "(?b - int k) mod ?n = int i \<longleftrightarrow> int k = (?b - int i) mod ?n" if "k < N d" for k
  proof -
    have "(?b - int k) mod ?n = int i mod ?n \<longleftrightarrow> ?n dvd (?b - int k - int i)" by (rule mod_eq_dvd_iff)
    also have "\<dots> \<longleftrightarrow> ?n dvd (?b - int i - int k)" by (simp add: algebra_simps)
    also have "\<dots> \<longleftrightarrow> (?b - int i) mod ?n = int k mod ?n" by (rule mod_eq_dvd_iff [symmetric])
    finally show ?thesis using that assms(1) by auto
  qed
  let ?k = "nat ((?b - int i) mod ?n)"
  have "?k < N d" using n by (simp add: nat_less_iff)
  moreover have "int ?k = (?b - int i) mod ?n" using n by simp
  ultimately show ?thesis using eq uniq by (metis of_nat_eq_iff)
qed

theorem primary_rotation_witness:
  "\<exists>!k. k < N ((New (toy_world 0 []))\<lparr>BlockIndex := 9, Validators := four\<rparr>) \<and>
     GetPrimaryIndex (2 + of_nat k) ((New (toy_world 0 []))\<lparr>BlockIndex := 9, Validators := four\<rparr>) = Inr 3"
  by (rule primary_rotation) (simp_all add: N_def four_def)

text \<open>
  All validators build the header the primary builds: a backup at the same height that takes over
  the fields of the primary's request gets the same header, the time included, although the request
  carries it in seconds only.
\<close>

theorem proposal_same_header:
  assumes "makePrepareRequest cfg d = (p, d1)" and "Body p = PrepareRequest q"
    and "BlockIndex e = BlockIndex d" and "PrevHash e = PrevHash d" and "Version e = Version d"
    and "PrimaryIndex e = PrimaryIndex d"
    and "GetValidators cfg (world e) (BlockIndex d + 1) = GetValidators cfg (world d) (BlockIndex d + 1)"
  shows "newBlockFromContext cfg (take_proposal q e) = newBlockFromContext cfg d1"
proof -
  have "x div nsInMs * nsInMs div nsInMs = x div nsInMs" for x :: u64
  proof -
    have unat_less: "unat x < 2 ^ 64" using unsigned_less [of x, where 'a = nat] by simp
    have "unat (x div nsInMs) * 1000000000 \<le> unat x" by (simp add: unat_div nsInMs_def)
    then have "unat (x div nsInMs * nsInMs) = unat (x div nsInMs) * 1000000000"
      using unat_less by (simp add: unat_word_ariths nsInMs_def)
    then show ?thesis by (simp add: word_unat_eq_iff unat_div nsInMs_def)
  qed
  then show ?thesis
    using assms by (auto simp: makePrepareRequest_def newPayload_def take_proposal_def newBlockFromContext_def Fill_def Let_def)
qed

theorem proposal_same_header_witness:
  "let (p, d1) = makePrepareRequest single (New (toy_world 3 [])); q = (case Body p of PrepareRequest q \<Rightarrow> q) in
     newBlockFromContext single (take_proposal q ((New (toy_world 3 []))\<lparr>Nonce := 99, Timestamp := 5\<rparr>)) =
     newBlockFromContext single d1"
proof -
  obtain p d1 where m: "makePrepareRequest single (New (toy_world 3 [])) = (p, d1)" by fastforce
  then obtain q where q: "Body p = PrepareRequest q" by (auto simp: makePrepareRequest_def newPayload_def Let_def)
  have "newBlockFromContext single (take_proposal q ((New (toy_world 3 []))\<lparr>Nonce := 99, Timestamp := 5\<rparr>)) = newBlockFromContext single d1"
    by (rule proposal_same_header [OF m q]) (simp_all add: New_def)
  then show ?thesis using m q by simp
qed

end
