(* ===== verification/BigInt.thy ===== *)
theory BigInt
  imports Prelude
begin

text \<open>
  The part of the standard package math/big that the code uses on byte strings: \<open>SetBytes\<close> reads
  an unsigned big-endian number, \<open>Bytes\<close> writes the absolute value without leading zeros,
  \<open>FillBytes\<close> writes it into a buffer of fixed size, \<open>BitLen\<close> is the number of its bits.
\<close>

definition SetBytes :: "bytes \<Rightarrow> int" where
  "SetBytes bs = foldl (\<lambda>a b. a * 256 + uint b) 0 bs"

fun nat_bytes :: "nat \<Rightarrow> bytes" where
  "nat_bytes n = (if n = 0 then [] else nat_bytes (n div 256) @ [of_nat (n mod 256)])"

declare nat_bytes.simps [simp del]

definition big_Bytes :: "int \<Rightarrow> bytes" where
  "big_Bytes x = nat_bytes (nat \<bar>x\<bar>)"

text \<open>\<open>None\<close> is the panic on a buffer that is too small.\<close>

definition FillBytes :: "nat \<Rightarrow> int \<Rightarrow> bytes option" where
  "FillBytes n x = (let b = big_Bytes x in
     if length b > n then None else Some (replicate (n - length b) 0 @ b))"

fun nat_bitlen :: "nat \<Rightarrow> nat" where
  "nat_bitlen n = (if n = 0 then 0 else Suc (nat_bitlen (n div 2)))"

declare nat_bitlen.simps [simp del]

definition BitLen :: "int \<Rightarrow> nat" where
  "BitLen x = nat_bitlen (nat \<bar>x\<bar>)"

section \<open>Laws\<close>

lemma SetBytes_Nil [simp]: "SetBytes [] = 0"
  by (simp add: SetBytes_def)

lemma SetBytes_snoc: "SetBytes (bs @ [b]) = SetBytes bs * 256 + uint b"
  by (simp add: SetBytes_def)

lemma SetBytes_nonneg [simp]: "0 \<le> SetBytes bs"
  by (induction bs rule: rev_induct) (simp_all add: SetBytes_snoc)

lemma SetBytes_zeros: "SetBytes (replicate n 0 @ bs) = SetBytes bs"
proof -
  have "foldl (\<lambda>a b. a * 256 + uint b) 0 (replicate n (0 :: byte)) = 0" by (induction n) auto
  then show ?thesis by (simp add: SetBytes_def)
qed

lemma SetBytes_small: "SetBytes (replicate n 0) = 0" "SetBytes [b] = uint b"
  using SetBytes_zeros [of n "[]"] by (simp_all add: SetBytes_def)

lemma SetBytes_less: "SetBytes bs < 256 ^ length bs"
proof (induction bs rule: rev_induct)
  case (snoc b bs)
  have "uint b < 256" using uint_lt2p [of b] by simp
  then show ?case using snoc by (simp add: SetBytes_snoc)
qed simp

lemma SetBytes_nat_bytes: "SetBytes (nat_bytes n) = int n"
proof (induction n rule: less_induct)
  case (less n)
  show ?case
  proof (cases "n = 0")
    case False
    have "uint (of_nat (n mod 256) :: byte) = int (n mod 256)"
      by (simp add: uint_nat unat_of_nat take_bit_eq_mod)
    moreover have "int n = int (n div 256) * 256 + int (n mod 256)"
      by (metis div_mult_mod_eq of_nat_add of_nat_mult of_nat_numeral)
    ultimately show ?thesis
      using less [of "n div 256"] False by (subst nat_bytes.simps) (simp add: SetBytes_snoc)
  qed (simp add: nat_bytes.simps)
qed

lemma SetBytes_big_Bytes [simp]: "SetBytes (big_Bytes x) = \<bar>x\<bar>"
  by (simp add: big_Bytes_def SetBytes_nat_bytes)

lemma length_nat_bytes: "length (nat_bytes n) \<le> k \<longleftrightarrow> n < 256 ^ k"
proof (induction k arbitrary: n)
  case 0
  show ?case by (subst nat_bytes.simps) auto
next
  case (Suc k)
  show ?case
    by (cases "n = 0") (simp_all add: nat_bytes.simps [of n] Suc less_mult_imp_div_less div_less_iff_less_mult mult.commute nat_bytes.simps [of 0])
qed

lemma length_big_Bytes: "length (big_Bytes x) \<le> k \<longleftrightarrow> \<bar>x\<bar> < 256 ^ k"
proof -
  have "nat \<bar>x\<bar> < 256 ^ k \<longleftrightarrow> \<bar>x\<bar> < 256 ^ k" using nat_less_iff [of "\<bar>x\<bar>" "256 ^ k"] by simp
  then show ?thesis by (simp add: big_Bytes_def length_nat_bytes)
qed

lemma nat_bitlen_le: "nat_bitlen n \<le> k \<longleftrightarrow> n < 2 ^ k"
proof (induction k arbitrary: n)
  case 0
  show ?case by (subst nat_bitlen.simps) auto
next
  case (Suc k)
  show ?case
    by (cases "n = 0") (simp_all add: nat_bitlen.simps [of n] Suc div_less_iff_less_mult mult.commute nat_bitlen.simps [of 0])
qed

lemma BitLen_le: "BitLen x \<le> k \<longleftrightarrow> \<bar>x\<bar> < 2 ^ k"
proof -
  have "nat \<bar>x\<bar> < 2 ^ k \<longleftrightarrow> \<bar>x\<bar> < 2 ^ k" using nat_less_iff [of "\<bar>x\<bar>" "2 ^ k"] by simp
  then show ?thesis by (simp add: BitLen_def nat_bitlen_le)
qed

lemma FillBytes_SetBytes:
  assumes "0 \<le> x" and "x < 256 ^ n"
  obtains b where "FillBytes n x = Some b" and "length b = n" and "SetBytes b = x"
proof
  have "length (big_Bytes x) \<le> n" using assms by (simp add: length_big_Bytes)
  then show "FillBytes n x = Some (replicate (n - length (big_Bytes x)) 0 @ big_Bytes x)"
    and "length (replicate (n - length (big_Bytes x)) 0 @ big_Bytes x) = n"
    by (simp_all add: FillBytes_def Let_def)
  show "SetBytes (replicate (n - length (big_Bytes x)) 0 @ big_Bytes x) = x"
    using assms by (simp add: SetBytes_zeros)
qed

end
