(* ===== verification/PublicKeys.thy ===== *)
theory PublicKeys
  imports BinIO BigInt "HOL-Library.Product_Lexorder"
begin

text \<open>
  Public keys and signature scripts: src/pkg/crypto/keys/public_key.go, src/pkg/crypto/keys/util.go,
  src/pkg/crypto/util.go and the signed data of src/pkg/crypto/hash/hash.go. A key whose
  coordinates are nil is \<open>Infinity\<close>; all keys here are on one curve, whose parameters and field
  square root are an argument, as are the hash functions and the signature check of the standard
  library. The least-recently-used cache of decoded keys returns what decoding returns and is left
  out. An error made by \<open>errors.New\<close> is \<open>Errorf\<close> with an unused argument.
\<close>

section \<open>Keys\<close>

record curve =
  P :: int
  B :: int
  Koblitz :: bool
  ModSqrt :: "int \<Rightarrow> int option"
  IsOnCurve :: "int \<Rightarrow> int \<Rightarrow> bool"

datatype public_key = Infinity | Point int int

record crypto_lib =
  Secp :: curve
  Sha256 :: "bytes \<Rightarrow> hash"
  RipeMD160 :: "bytes \<Rightarrow> address"
  PubkeyToAddress :: "public_key \<Rightarrow> address"
  EcdsaVerify :: "public_key \<Rightarrow> bytes \<Rightarrow> int \<Rightarrow> int \<Rightarrow> bool"

definition coordLen :: nat where
  "coordLen = 32"

definition MaxMultiSigCount :: nat where
  "MaxMultiSigCount = 21"

definition SignatureLen :: nat where
  "SignatureLen = 64"

definition decodeCompressedY :: "curve \<Rightarrow> int \<Rightarrow> int \<Rightarrow> io_error + int" where
  "decodeCompressedY c x ylsb =
     (let a = (if Koblitz c then 0 else 3);
          xCubed = x ^ 3 mod P c;
          aX = x * a mod P c;
          ySquared = (xCubed - aX + B c) mod P c in
      case ModSqrt c ySquared of
        None \<Rightarrow> Inl (Errorf ''error computing Y for compressed point'' 0)
      | Some y \<Rightarrow> Inr (if y mod 2 \<noteq> ylsb then - y mod P c else y))"

definition check_range :: "curve \<Rightarrow> int \<Rightarrow> int \<Rightarrow> bin_reader \<Rightarrow> public_key \<times> bin_reader" where
  "check_range c x y r =
     (if x \<ge> P c \<or> y \<ge> P c then
        (Infinity, r\<lparr>Err := Some (Errorf ''enccoded point is not correct (X or Y is bigger than P'' 0)\<rparr>)
      else (Point x y, r))"

definition decode_key :: "curve \<Rightarrow> bin_reader \<Rightarrow> public_key \<times> bin_reader" where
  "decode_key c r =
     (let (prefix, r1) = ReadB r in
      if Err r1 \<noteq> None then (Infinity, r1)
      else if prefix = 0x00 then (Infinity, r1)
      else if prefix = 0x02 \<or> prefix = 0x03 then
        let (xbytes, r2) = ReadBytes (replicate coordLen 0) r1 in
        if Err r2 \<noteq> None then (Infinity, r2)
        else (case decodeCompressedY c (SetBytes xbytes) (uint (prefix AND 1)) of
                Inl e \<Rightarrow> (Infinity, r2\<lparr>Err := Some e\<rparr>)
              | Inr y \<Rightarrow> check_range c (SetBytes xbytes) y r2)
      else if prefix = 0x04 then
        let (xbytes, r2) = ReadBytes (replicate coordLen 0) r1;
            (ybytes, r3) = ReadBytes (replicate coordLen 0) r2 in
        if Err r3 \<noteq> None then (Infinity, r3)
        else if \<not> IsOnCurve c (SetBytes xbytes) (SetBytes ybytes) then
          (Infinity, r3\<lparr>Err := Some (Errorf ''encoded point is not on the P256 curve'' 0)\<rparr>)
        else check_range c (SetBytes xbytes) (SetBytes ybytes) r3
      else (Infinity, r1\<lparr>Err := Some (Errorf ''invalid prefix %d'' (ucast prefix))\<rparr>))"

definition decode_key_bytes :: "curve \<Rightarrow> bytes \<Rightarrow> io_error + public_key" where
  "decode_key_bytes c data =
     (let (k, b) = decode_key c (NewBinReaderFromBuf data) in
      case Err b of Some e \<Rightarrow> Inl e
      | None \<Rightarrow> if Reader b \<noteq> [] then Inl (Errorf ''extra data'' 0) else Inr k)"

definition NewPublicKeyFromBytes :: "curve \<Rightarrow> bytes \<Rightarrow> io_error + public_key" where
  "NewPublicKeyFromBytes c b = decode_key_bytes c b"

text \<open>The compressed and the uncompressed form; a coordinate is written into 32 bytes.\<close>

fun getBytes :: "bool \<Rightarrow> public_key \<Rightarrow> bytes" where
  "getBytes compressed Infinity = [0x00]"
| "getBytes compressed (Point x y) =
     (if compressed then (2 OR of_int (y mod 2)) # the (FillBytes coordLen x)
      else 4 # the (FillBytes coordLen x) @ the (FillBytes coordLen y))"

definition encode_key :: "public_key \<Rightarrow> bin_writer \<Rightarrow> bin_writer" where
  "encode_key k w = WriteBytes (getBytes True k) w"

definition CreateVerificationScript :: "public_key \<Rightarrow> bytes" where
  "CreateVerificationScript k =
     the (fst (Bytes (encode_key k (WriteVarUint 0 NewBufBinWriter))))"

text \<open>\<open>None\<close> is the nil pointer dereference of \<open>Cmp\<close> on exactly one nil coordinate.\<close>

fun key_Equal :: "public_key \<Rightarrow> public_key \<Rightarrow> bool option" where
  "key_Equal Infinity Infinity = Some True"
| "key_Equal (Point x y) (Point x' y') = Some (x = x' \<and> y = y')"
| "key_Equal _ _ = None"

fun key_Contains :: "public_key list \<Rightarrow> public_key \<Rightarrow> bool option" where
  "key_Contains [] k = Some False"
| "key_Contains (key # ks) k = (case key_Equal key k of
     None \<Rightarrow> None
   | Some True \<Rightarrow> Some True
   | Some False \<Rightarrow> key_Contains ks k)"

fun unique_from :: "public_key list \<Rightarrow> public_key list \<Rightarrow> public_key list option" where
  "unique_from u [] = Some u"
| "unique_from u (k # ks) = (case key_Contains u k of
     None \<Rightarrow> None
   | Some c \<Rightarrow> unique_from (if c then u else u @ [k]) ks)"

definition key_Unique :: "public_key list \<Rightarrow> public_key list option" where
  "key_Unique ks = unique_from [] ks"

text \<open>
  \<open>sort.Sort\<close> by \<open>Cmp\<close>, the order of the pairs of coordinates; equal keys cannot be told apart,
  so the result does not depend on the algorithm. Comparing a nil coordinate with another one
  panics, which happens as soon as a list holds both kinds of keys.
\<close>

fun coords :: "public_key \<Rightarrow> int \<times> int" where
  "coords Infinity = (0, 0)"
| "coords (Point x y) = (x, y)"

definition key_sort :: "public_key list \<Rightarrow> public_key list option" where
  "key_sort ks = (if Infinity \<in> set ks \<and> (\<exists>k \<in> set ks. k \<noteq> Infinity) then None
     else Some (sort_key coords ks))"

definition GetDefaultHonestNodeCount :: "nat \<Rightarrow> nat" where
  "GetDefaultHonestNodeCount n = n - (n - 1) div 3"

definition GetMajorityHonestNodeCount :: "nat \<Rightarrow> nat" where
  "GetMajorityHonestNodeCount n = n - (n - 1) div 2"

section \<open>Errors of the script functions\<close>

datatype script_error =
    ErrEmptyScript | ErrInvalidVerificationScript | ErrInvalidMultiVerificationScript
  | ErrPublicKeyCountExceedsLimit | ErrMExceedsPublicKeyCount
  | ErrInvalidSignature | ErrInvalidSignatureCount
  | ErrMultiSig string
  | ErrRead io_error
  | ScriptPanic string

section \<open>Signature scripts\<close>

definition CreateMultiSigVerificationScript :: "nat \<Rightarrow> public_key list \<Rightarrow> script_error + bytes" where
  "CreateMultiSigVerificationScript m keys =
     (if m < 1 then Inl (ErrMultiSig ''param m cannot be smaller or equal to 1'')
      else if length keys < 1 then Inl (ErrMultiSig ''could not create multisig for keys cout less equal 1'')
      else if m > length keys then Inl (ErrMultiSig ''length of the signatures is higher then the number of public keys'')
      else if length keys > MaxMultiSigCount then Inl (ErrMultiSig ''length of the publicKeys is higher then the limit'')
      else if m > MaxMultiSigCount then Inl (ErrMultiSig ''public key count exceeds maximum of length 1024'')
      else case key_sort keys of
        None \<Rightarrow> Inl (ScriptPanic ''nil pointer dereference'')
      | Some ks \<Rightarrow> Inr (the (fst (Bytes (WriteArray encode_key ks (WriteVarUint (of_nat m) NewBufBinWriter))))))"

definition CreateDefaultMultiSigRedeemScript :: "public_key list \<Rightarrow> script_error + bytes" where
  "CreateDefaultMultiSigRedeemScript keys =
     CreateMultiSigVerificationScript (GetDefaultHonestNodeCount (length keys)) keys"

definition CreateMajorityMultiSigRedeemScript :: "public_key list \<Rightarrow> script_error + bytes" where
  "CreateMajorityMultiSigRedeemScript keys =
     CreateMultiSigVerificationScript (GetMajorityHonestNodeCount (length keys)) keys"

definition CreateMultiInvocationScript :: "bytes list \<Rightarrow> bytes" where
  "CreateMultiInvocationScript sigs =
     the (fst (Bytes (fold WriteVarBytes sigs (WriteVarUint (of_nat (length sigs)) NewBufBinWriter))))"

text \<open>
  \<open>make([][]byte, n)\<close> panics when the \<open>n\<close> slice headers of 24 bytes do not fit into the
  address space (2 ^ 48 bytes on the 64-bit platforms).
\<close>

fun read_sigs :: "nat \<Rightarrow> bin_reader \<Rightarrow> io_error + bytes list" where
  "read_sigs 0 br = Inr []"
| "read_sigs (Suc n) br =
     (let (s, br1) = ReadVarBytes MaxArraySize br in
      case Err br1 of
        Some e \<Rightarrow> Inl e
      | None \<Rightarrow> map_sum id (\<lambda>ss. (case s of None \<Rightarrow> [] | Some b \<Rightarrow> b) # ss) (read_sigs n br1))"

definition ParseMultiInvocationScript :: "bytes \<Rightarrow> script_error + bytes list" where
  "ParseMultiInvocationScript script =
     (let (n, br) = ReadVarUint (NewBinReaderFromBuf script) in
      case Err br of
        Some e \<Rightarrow> Inl (ErrRead e)
      | None \<Rightarrow>
          if unat n * 24 > 2 ^ 48 then Inl (ScriptPanic ''makeslice: len out of range'')
          else map_sum ErrRead id (read_sigs (unat n) br))"

definition IsMultiVerificationScript :: "bytes \<Rightarrow> bool" where
  "IsMultiVerificationScript script \<longleftrightarrow> length script > 1 \<and> script ! 0 > 0"

definition decode_keys :: "curve \<Rightarrow> bytes \<Rightarrow> io_error + public_key list" where
  "decode_keys c data =
     (let (ks, b) = ReadArray (decode_key c) MaxArraySize (NewBinReaderFromBuf data) in
      case Err b of Some e \<Rightarrow> Inl e | None \<Rightarrow> Inr (case ks of None \<Rightarrow> [] | Some l \<Rightarrow> l))"

definition ParseMultiVerificationScript :: "curve \<Rightarrow> bytes \<Rightarrow> script_error + (public_key list \<times> nat)" where
  "ParseMultiVerificationScript c script =
     (if length script < 1 then Inl ErrEmptyScript
      else let m = unat (script ! 0) in
        if m < 1 then Inl ErrInvalidMultiVerificationScript
        else if m > MaxMultiSigCount then Inl ErrPublicKeyCountExceedsLimit
        else case decode_keys c (drop 1 script) of
          Inl e \<Rightarrow> Inl (ErrRead e)
        | Inr keys \<Rightarrow> (case key_Unique keys of
            None \<Rightarrow> Inl (ScriptPanic ''nil pointer dereference'')
          | Some uks \<Rightarrow> (case key_sort uks of
              None \<Rightarrow> Inl (ScriptPanic ''nil pointer dereference'')
            | Some pks \<Rightarrow>
                if length pks > MaxMultiSigCount then Inl ErrPublicKeyCountExceedsLimit
                else if m > length pks then Inl ErrMExceedsPublicKeyCount
                else Inr (pks, m))))"

definition ParseVerificationScript :: "curve \<Rightarrow> bytes \<Rightarrow> script_error + public_key" where
  "ParseVerificationScript c script =
     (if length script < 1 then Inl ErrEmptyScript
      else if script ! 0 \<noteq> 0 then Inl ErrInvalidVerificationScript
      else map_sum ErrRead id (NewPublicKeyFromBytes c (drop 1 script)))"

section \<open>Signed data\<close>

definition getSignedData :: "u64 \<Rightarrow> hash \<Rightarrow> bytes" where
  "getSignedData chainId h = copy_at 4 h (copy_at 0 (put_le 8 chainId) (replicate (8 + 32) 0))"

definition NetSha256 :: "'a crypto_lib_scheme \<Rightarrow> u64 \<Rightarrow> hash \<Rightarrow> hash" where
  "NetSha256 lib net h = Sha256 lib (getSignedData net h)"

definition Hash160 :: "'a crypto_lib_scheme \<Rightarrow> bytes \<Rightarrow> address" where
  "Hash160 lib data = RipeMD160 lib (Sha256 lib data)"

definition key_Verify :: "'a crypto_lib_scheme \<Rightarrow> public_key \<Rightarrow> bytes \<Rightarrow> bytes \<Rightarrow> bool" where
  "key_Verify lib k sig h =
     (if k = Infinity \<or> length sig \<noteq> SignatureLen then False
      else EcdsaVerify lib k h (SetBytes (take 32 sig)) (SetBytes (drop 32 sig)))"

definition key_VerifyHashable :: "'a crypto_lib_scheme \<Rightarrow> public_key \<Rightarrow> bytes \<Rightarrow> u64 \<Rightarrow> hash \<Rightarrow> bool" where
  "key_VerifyHashable lib k sig chainId h = key_Verify lib k sig (NetSha256 lib chainId h)"

section \<open>The key codec\<close>

text \<open>What the code relies on of the curve: an odd prime field with a square root function.\<close>

definition curve_ok :: "curve \<Rightarrow> bool" where
  "curve_ok c \<longleftrightarrow> odd (P c) \<and> 2 < P c \<and> P c \<le> 2 ^ 256 \<and>
     (\<forall>a b. P c dvd a * b \<longrightarrow> P c dvd a \<or> P c dvd b) \<and>
     (\<forall>y. \<exists>r. ModSqrt c (y ^ 2 mod P c) = Some r \<and> 0 \<le> r \<and> r < P c \<and> r ^ 2 mod P c = y ^ 2 mod P c)"

fun valid_key :: "curve \<Rightarrow> public_key \<Rightarrow> bool" where
  "valid_key c Infinity = True"
| "valid_key c (Point x y) \<longleftrightarrow> 0 \<le> x \<and> x < P c \<and> 0 \<le> y \<and> y < P c \<and>
     y ^ 2 mod P c = (x ^ 3 - x * (if Koblitz c then 0 else 3) + B c) mod P c"

lemma decodeCompressedY_valid:
  assumes "curve_ok c" and "valid_key c (Point x y)"
  shows "decodeCompressedY c x (y mod 2) = Inr y"
proof -
  let ?p = "P c"
  have yb: "0 \<le> y" "y < ?p" and y2: "y ^ 2 mod ?p = (x ^ 3 - x * (if Koblitz c then 0 else 3) + B c) mod ?p"
    using assms(2) by auto
  have p: "odd ?p" "2 < ?p" using assms(1) by (auto simp: curve_ok_def)
  obtain r where r: "ModSqrt c (y ^ 2 mod ?p) = Some r" "0 \<le> r" "r < ?p" "r ^ 2 mod ?p = y ^ 2 mod ?p"
    using assms(1) unfolding curve_ok_def by blast
  have "?p dvd (r - y) * (r + y)"
    using r(4) by (simp add: mod_eq_dvd_iff power2_eq_square algebra_simps)
  then consider "?p dvd r - y" | "?p dvd r + y" using assms(1) by (auto simp: curve_ok_def)
  then have root: "r = y \<or> r + y = ?p"
  proof cases
    case 1
    then have "r = y" using r yb by (metis mod_eq_dvd_iff mod_pos_pos_trivial)
    then show ?thesis ..
  next
    case 2
    then obtain k where k: "r + y = ?p * k" by (elim dvdE)
    have "?p * k < ?p * 2" "0 \<le> ?p * k" using r(2,3) yb k by linarith+
    then have "k < 2" "0 \<le> k" using p(2) by (simp_all add: mult_less_cancel_left zero_le_mult_iff)
    then have "k = 0 \<or> k = 1" by auto
    then show ?thesis using k r yb by auto
  qed
  have "(if r mod 2 \<noteq> y mod 2 then - r mod ?p else r) = y"
  proof (cases "r = y")
    case False
    with root have s: "r = ?p - y" by simp
    then have "r mod 2 \<noteq> y mod 2" using p(1) by presburger
    moreover have "- r mod ?p = y" using s yb by (simp add: mod_pos_pos_trivial)
    ultimately show ?thesis by simp
  qed simp
  moreover have "(x ^ 3 mod ?p - x * (if Koblitz c then 0 else 3) mod ?p + B c) mod ?p = y ^ 2 mod ?p"
    unfolding y2 by (intro mod_add_cong mod_diff_cong) simp_all
  ultimately show ?thesis using r(1) by (simp add: decodeCompressedY_def Let_def)
qed

lemma compressed_prefix:
  fixes y :: int
  shows "(2 OR of_int (y mod 2) :: byte) = (if odd y then 3 else 2)"
  by (cases "odd y") (simp_all add: odd_iff_mod_2_eq_one even_iff_mod_2_eq_zero)

interpretation key_codec: codec encode_key "decode_key c" "getBytes True" "\<lambda>k. curve_ok c \<and> valid_key c k"
proof unfold_locales
  fix k rest
  assume ok: "curve_ok c \<and> valid_key c k"
  show "decode_key c (rd (getBytes True k @ rest)) = (k, rd rest)"
  proof (cases k)
    case (Point x y)
    have "0 \<le> x" "x < 256 ^ coordLen"
      using ok Point by (auto simp: curve_ok_def coordLen_def)
    then obtain b where b: "FillBytes coordLen x = Some b" "length b = coordLen" "SetBytes b = x"
      by (rule FillBytes_SetBytes)
    then have rb: "ReadBytes (replicate coordLen 0) (rd (b @ rest)) = (b, rd rest)"
      by (simp add: ReadBytes_exact)
    have "decodeCompressedY c x (y mod 2) = Inr y" using ok Point decodeCompressedY_valid by blast
    moreover have "uint ((if odd y then 3 else 2 :: byte) AND 1) = y mod 2" by (auto simp: odd_iff_mod_2_eq_one)
    ultimately show ?thesis using ok Point b rb
      by (auto simp: decode_key_def compressed_prefix rd_fixed check_range_def split: if_splits)
  qed (simp add: decode_key_def rd_fixed)
qed (simp add: encode_key_def)

section \<open>Unique and sorted keys\<close>

lemma key_Equal_Some: "key_Equal a b = Some e \<Longrightarrow> e \<longleftrightarrow> a = b"
  by (induction a b rule: key_Equal.induct) auto

lemma key_Contains_Some: "key_Contains u k = Some e \<Longrightarrow> e \<longleftrightarrow> k \<in> set u"
  by (induction u k rule: key_Contains.induct)
    (auto dest: key_Equal_Some split: option.splits bool.splits)

lemma unique_from_Some:
  "unique_from u ks = Some r \<Longrightarrow> distinct u \<Longrightarrow> distinct r \<and> set r = set u \<union> set ks"
  by (induction u ks rule: unique_from.induct)
    (auto dest!: key_Contains_Some split: option.splits if_splits)

lemma key_Contains_points:
  "Infinity \<notin> set u \<Longrightarrow> k \<noteq> Infinity \<Longrightarrow> key_Contains u k = Some (k \<in> set u)"
proof (induction u)
  case (Cons a u)
  then show ?case by (cases a; cases k) (auto split: bool.splits)
qed simp

lemma unique_from_points:
  "Infinity \<notin> set u \<Longrightarrow> Infinity \<notin> set ks \<Longrightarrow> distinct (u @ ks) \<Longrightarrow> unique_from u ks = Some (u @ ks)"
  by (induction u ks rule: unique_from.induct) (auto simp: key_Contains_points)

lemma key_sort_Some:
  "key_sort ks = Some r \<Longrightarrow> distinct ks \<Longrightarrow> distinct r \<and> set r = set ks \<and> length r = length ks"
  by (auto simp: key_sort_def split: if_splits)

lemma ParseMulti_keys:
  assumes "ParseMultiVerificationScript c script = Inr (pks, m)"
  shows "distinct pks" and "1 \<le> m" and "m \<le> length pks" and "length pks \<le> MaxMultiSigCount"
proof -
  obtain keys uks where u: "key_Unique keys = Some uks" "key_sort uks = Some pks"
      and r: "1 \<le> m" "m \<le> length pks" "length pks \<le> MaxMultiSigCount"
    using assms by (auto simp: ParseMultiVerificationScript_def Let_def split: if_splits sum.splits option.splits)
  show "distinct pks"
    using u key_sort_Some unique_from_Some [of "[]" keys uks] by (simp add: key_Unique_def)
  show "1 \<le> m" and "m \<le> length pks" and "length pks \<le> MaxMultiSigCount" using r .
qed

end
