(* ===== verification/Witnesses.thy ===== *)
theory Witnesses
  imports ConsensusPayload PublicKeys "HOL-Library.Sublist"
begin

text \<open>
  Verification of the scripts of a witness, src/pkg/core/transaction/witness.go, over the keys and
  scripts of \<open>PublicKeys\<close>: a witness has one signature for a single key or a list of signatures
  for a list of keys.
\<close>

section \<open>Operations\<close>

definition witness_Address :: "'a crypto_lib_scheme \<Rightarrow> witness \<Rightarrow> address" where
  "witness_Address lib w =
     (if length (VerificationScript w) < 1 then replicate 20 0
      else if VerificationScript w ! 0 = 0 then
        (case NewPublicKeyFromBytes (Secp lib) (drop 1 (VerificationScript w)) of
           Inl _ \<Rightarrow> replicate 20 0
         | Inr pk \<Rightarrow> PubkeyToAddress lib pk)
      else Hash160 lib (VerificationScript w))"

text \<open>
  The loop over the keys from \<open>i\<close> and the signatures from \<open>j\<close> on: a key that verifies the current
  signature uses it up, and the loop gives up when fewer keys than signatures are left.
\<close>

fun match_sigs :: "(public_key \<Rightarrow> bytes \<Rightarrow> bool) \<Rightarrow> public_key list \<Rightarrow> bytes list \<Rightarrow> bool" where
  "match_sigs ver (pk # pks) (sig # sigs) =
     (let rest = (if ver pk sig then sigs else sig # sigs) in
      if length rest > length pks then False else match_sigs ver pks rest)"
| "match_sigs ver _ _ = True"

definition witness_VerifyHashable :: "'a crypto_lib_scheme \<Rightarrow> witness \<Rightarrow> u64 \<Rightarrow> hash \<Rightarrow> script_error + unit" where
  "witness_VerifyHashable lib w net h =
     (if \<not> IsMultiVerificationScript (VerificationScript w) then
        bind_res (ParseVerificationScript (Secp lib) (VerificationScript w)) (\<lambda>pk.
          if key_VerifyHashable lib pk (InvocationScript w) net h then Inr ()
          else Inl ErrInvalidSignature)
      else
        bind_res (ParseMultiVerificationScript (Secp lib) (VerificationScript w)) (\<lambda>(pks, m).
          bind_res (ParseMultiInvocationScript (InvocationScript w)) (\<lambda>sigs.
            if length sigs < m then Inl ErrInvalidSignatureCount
            else if match_sigs (\<lambda>pk sig. key_VerifyHashable lib pk sig net h) pks sigs then Inr ()
            else Inl ErrInvalidSignature)))"

section \<open>The matching loop\<close>

lemma subseq_match_Cons:
  "(\<exists>qs. subseq qs (k # ks) \<and> list_all2 R (s # ss) qs) \<longleftrightarrow>
     (if R s k then \<exists>qs. subseq qs ks \<and> list_all2 R ss qs
      else \<exists>qs. subseq qs ks \<and> list_all2 R (s # ss) qs)"
proof -
  have "\<exists>qs'. subseq qs' ks \<and> list_all2 R ss qs'"
    if "subseq qs (k # ks)" "list_all2 R (s # ss) qs" for qs
    using that by (cases qs) (auto simp: subseq_Cons2_iff dest: subseq_Cons' split: if_splits)
  moreover have "\<exists>qs'. subseq qs' ks \<and> list_all2 R (s # ss) qs'"
    if "subseq qs (k # ks)" "list_all2 R (s # ss) qs" "\<not> R s k" for qs
    using that by (cases qs) (auto split: if_splits)
  moreover have "\<exists>qs'. subseq qs' (k # ks) \<and> list_all2 R (s # ss) qs'"
    if "subseq qs ks" "list_all2 R ss qs" "R s k" for qs
    using that by (intro exI [of _ "k # qs"]) auto
  ultimately show ?thesis by (auto intro: list_emb_Cons)
qed

lemma subseq_distinct: "subseq qs ks \<Longrightarrow> distinct ks \<Longrightarrow> distinct qs"
  by (auto simp: subseq_conv_nths)

lemma match_sigs_iff:
  assumes "pks \<noteq> [] \<or> sigs = []"
  shows "match_sigs ver pks sigs \<longleftrightarrow> (\<exists>qs. subseq qs pks \<and> list_all2 (\<lambda>s k. ver k s) sigs qs)"
  using assms
proof (induction ver pks sigs rule: match_sigs.induct)
  case (1 ver pk pks sig sigs)
  let ?rest = "if ver pk sig then sigs else sig # sigs"
  have step: "(\<exists>qs. subseq qs (pk # pks) \<and> list_all2 (\<lambda>s k. ver k s) (sig # sigs) qs) \<longleftrightarrow>
      (\<exists>qs. subseq qs pks \<and> list_all2 (\<lambda>s k. ver k s) ?rest qs)"
    by (simp only: subseq_match_Cons) simp
  show ?case
  proof (cases "length ?rest > length pks")
    case True
    have "\<not> (\<exists>qs. subseq qs pks \<and> list_all2 (\<lambda>s k. ver k s) ?rest qs)"
      using True by (auto dest: list_emb_length list_all2_lengthD)
    with True step show ?thesis by (simp add: Let_def)
  next
    case False
    then have "pks \<noteq> [] \<or> ?rest = []" by auto
    with 1 False have "match_sigs ver pks ?rest \<longleftrightarrow> (\<exists>qs. subseq qs pks \<and> list_all2 (\<lambda>s k. ver k s) ?rest qs)"
      by (simp add: Let_def)
    with False step show ?thesis by (simp add: Let_def)
  qed
qed auto

lemma nth_put_le: "i < n \<Longrightarrow> put_le n w ! i = ucast (drop_bit (8 * i) w)"
proof (induction n arbitrary: w i)
  case (Suc n)
  then show ?case by (cases i) (simp_all add: algebra_simps)
qed simp

section \<open>Scripts that were created by the code parse back\<close>

lemma read_sigs_bytes:
  "\<forall>s \<in> set ss. length s \<le> MaxArraySize \<Longrightarrow>
     read_sigs (length ss) (rd (concat (map var_bytes ss) @ rest)) = Inr ss"
proof (induction ss)
  case (Cons s ss)
  have "ReadVarBytes MaxArraySize (rd (var_bytes s @ concat (map var_bytes ss) @ rest)) =
      (Some s, rd (concat (map var_bytes ss) @ rest))"
    using Cons.prems by (intro ReadVarBytes_exact) (simp_all add: MaxArraySize_def)
  with Cons show ?case by simp
qed simp

lemma parse_invocation:
  assumes "\<forall>s \<in> set ss. length s \<le> MaxArraySize" and "length ss * 24 \<le> 2 ^ 48"
  shows "ParseMultiInvocationScript (CreateMultiInvocationScript ss) = Inr ss"
proof -
  have "fold WriteVarBytes ys w = WriteBytes (concat (map var_bytes ys)) w" for ys w
    by (induction ys arbitrary: w) (simp_all add: WriteVarBytes_eq)
  then have "CreateMultiInvocationScript ss = var_uint (of_nat (length ss)) @ concat (map var_bytes ss)"
    by (simp add: CreateMultiInvocationScript_def WriteVarUint_eq Bytes_WriteBytes_new)
  moreover have "unat (of_nat (length ss) :: u64) = length ss"
    using assms(2) by (simp add: unat_of_nat take_bit_nat_eq_self)
  moreover have "read_sigs (length ss) (rd (concat (map var_bytes ss))) = Inr ss"
    using read_sigs_bytes [OF assms(1), of "[]"] by simp
  ultimately show ?thesis
    using assms(2) by (simp add: ParseMultiInvocationScript_def NewBinReaderFromBuf_def codec_simps)
qed

lemma small_var_uint: "n < 0xfd \<Longrightarrow> var_uint (of_nat n) = [of_nat n]"
  by (simp add: var_uint_def word_less_nat_alt unat_of_nat take_bit_nat_eq_self unsigned_of_nat)

lemma decode_keys_bytes:
  assumes "curve_ok c" and "\<forall>k \<in> set ks. valid_key c k" and "length ks \<le> MaxMultiSigCount"
  shows "decode_keys c (of_nat (length ks) # concat (map (getBytes True) ks)) = Inr ks"
proof -
  have "list_all (\<lambda>k. curve_ok c \<and> valid_key c k) ks" using assms by (simp add: list_all_iff)
  from key_codec.ReadArray_bytes [OF this, of MaxArraySize "[]"] assms(3)
  show ?thesis
    by (simp add: decode_keys_def NewBinReaderFromBuf_def MaxArraySize_def MaxMultiSigCount_def small_var_uint)
qed

lemma created_script:
  assumes "Infinity \<notin> set keys" and "1 \<le> m" and "m \<le> length keys" and "length keys \<le> MaxMultiSigCount"
  shows "CreateMultiSigVerificationScript m keys =
    Inr (of_nat m # of_nat (length keys) # concat (map (getBytes True) (sort_key coords keys)))"
  using assms
  by (auto simp: CreateMultiSigVerificationScript_def key_sort_def key_codec.WriteArray_bytes WriteVarUint_eq
      Bytes_WriteBytes_new small_var_uint MaxMultiSigCount_def)

lemma parse_created:
  assumes "curve_ok c" and "\<forall>k \<in> set keys. valid_key c k" and "Infinity \<notin> set keys" and "distinct keys"
    and "1 \<le> m" and "m \<le> length keys" and "length keys \<le> MaxMultiSigCount"
  shows "ParseMultiVerificationScript c
     (of_nat m # of_nat (length keys) # concat (map (getBytes True) (sort_key coords keys))) =
     Inr (sort_key coords keys, m)"
proof -
  have "unat (of_nat m :: byte) = m"
    using assms by (simp add: unat_of_nat take_bit_nat_eq_self MaxMultiSigCount_def)
  moreover have "decode_keys c (of_nat (length keys) # concat (map (getBytes True) (sort_key coords keys))) =
      Inr (sort_key coords keys)"
    using decode_keys_bytes [of c "sort_key coords keys"] assms by simp
  moreover have "key_Unique (sort_key coords keys) = Some (sort_key coords keys)"
    using unique_from_points [of "[]" "sort_key coords keys"] assms by (simp add: key_Unique_def)
  moreover have "key_sort (sort_key coords keys) = Some (sort_key coords keys)"
    using assms(3) by (simp add: key_sort_def sort_key_id_if_sorted)
  ultimately show ?thesis using assms by (simp add: ParseMultiVerificationScript_def)
qed

section \<open>Properties\<close>

text \<open>A curve over the field of three elements for the examples: y ^ 2 = x ^ 3.\<close>

definition tiny_curve :: curve where
  "tiny_curve = \<lparr>P = 3, B = 0, Koblitz = True,
     ModSqrt = (\<lambda>a. if a = 0 then Some 0 else if a = 1 then Some 1 else None),
     IsOnCurve = (\<lambda>x y. (y ^ 2 - x ^ 3) mod 3 = 0)\<rparr>"

definition tiny_lib :: crypto_lib where
  "tiny_lib = \<lparr>Secp = tiny_curve, Sha256 = (\<lambda>b. take 32 (b @ replicate 32 0)),
     RipeMD160 = take 20, PubkeyToAddress = (\<lambda>_. replicate 20 1),
     EcdsaVerify = (\<lambda>k h r s. k = Point r s)\<rparr>"

lemma tiny_simps:
  "Secp tiny_lib = tiny_curve" "P tiny_curve = 3" "B tiny_curve = 0" "Koblitz tiny_curve"
  "EcdsaVerify tiny_lib k h r s \<longleftrightarrow> k = Point r s"
  by (simp_all add: tiny_lib_def tiny_curve_def)

lemma tiny_curve_ok: "curve_ok tiny_curve"
proof -
  have "(3 :: int) dvd a \<or> 3 dvd b" if "3 dvd a * b" for a b :: int
  proof -
    have "(a mod 3) * (b mod 3) mod 3 = 0" using that by (simp add: mod_mult_eq)
    moreover have "a mod 3 \<in> {0, 1, 2}" "b mod 3 \<in> {0, 1, 2}" by auto
    ultimately show ?thesis by (auto simp: dvd_eq_mod_eq_0)
  qed
  moreover have "\<exists>r. ModSqrt tiny_curve (y ^ 2 mod 3) = Some r \<and> 0 \<le> r \<and> r < 3 \<and> r ^ 2 mod 3 = y ^ 2 mod 3" for y :: int
  proof -
    have "y ^ 2 mod 3 = (y mod 3) ^ 2 mod 3" by (simp add: power_mod)
    moreover have "y mod 3 \<in> {0, 1, 2}" by auto
    ultimately show ?thesis by (auto simp: tiny_curve_def)
  qed
  ultimately show ?thesis by (auto simp: curve_ok_def tiny_curve_def)
qed

text \<open>
  C25. A multisignature witness is accepted exactly when its scripts parse into m and a list of
  distinct keys and into at least m signatures that verify, in order, under a subsequence of the
  keys; so at least m distinct keys have signed.
\<close>

theorem multisig_witness_iff:
  assumes "IsMultiVerificationScript (VerificationScript w)"
  shows "witness_VerifyHashable lib w net h = Inr () \<longleftrightarrow>
     (\<exists>pks m sigs qs. ParseMultiVerificationScript (Secp lib) (VerificationScript w) = Inr (pks, m) \<and>
        ParseMultiInvocationScript (InvocationScript w) = Inr sigs \<and> 1 \<le> m \<and> m \<le> length qs \<and>
        distinct qs \<and> subseq qs pks \<and>
        list_all2 (\<lambda>s k. key_VerifyHashable lib k s net h) sigs qs)"
    (is "?l \<longleftrightarrow> ?r")
proof
  assume ?l
  then obtain pks m sigs where p: "ParseMultiVerificationScript (Secp lib) (VerificationScript w) = Inr (pks, m)"
      "ParseMultiInvocationScript (InvocationScript w) = Inr sigs" "m \<le> length sigs"
      "match_sigs (\<lambda>pk sig. key_VerifyHashable lib pk sig net h) pks sigs"
    using assms by (auto simp: witness_VerifyHashable_def split: if_splits)
  note k = ParseMulti_keys [OF p(1)]
  then have "pks \<noteq> []" by auto
  with p(4) obtain qs where q: "subseq qs pks" "list_all2 (\<lambda>s k. key_VerifyHashable lib k s net h) sigs qs"
    by (auto simp: match_sigs_iff)
  have "length sigs = length qs" "distinct qs" using q k(1) by (auto dest: list_all2_lengthD subseq_distinct)
  with p k q show ?r by auto
next
  assume ?r
  then obtain pks m sigs qs where p: "ParseMultiVerificationScript (Secp lib) (VerificationScript w) = Inr (pks, m)"
      "ParseMultiInvocationScript (InvocationScript w) = Inr sigs" "m \<le> length qs" "subseq qs pks"
      "list_all2 (\<lambda>s k. key_VerifyHashable lib k s net h) sigs qs" by auto
  note k = ParseMulti_keys [OF p(1)]
  then have "pks \<noteq> []" by auto
  then have "match_sigs (\<lambda>pk sig. key_VerifyHashable lib pk sig net h) pks sigs"
    using p(4,5) by (auto simp: match_sigs_iff)
  moreover have "length sigs = length qs" using p(5) by (rule list_all2_lengthD)
  ultimately show ?l using assms p by (simp add: witness_VerifyHashable_def)
qed

theorem multisig_witness_iff_witness:
  "witness_VerifyHashable tiny_lib \<lparr>InvocationScript = [], VerificationScript = [1, 0]\<rparr> 7 [] = Inr () \<longleftrightarrow>
     (\<exists>pks m sigs qs. ParseMultiVerificationScript (Secp tiny_lib) [1, 0] = Inr (pks, m) \<and>
        ParseMultiInvocationScript [] = Inr sigs \<and> 1 \<le> m \<and> m \<le> length qs \<and>
        distinct qs \<and> subseq qs pks \<and>
        list_all2 (\<lambda>s k. key_VerifyHashable tiny_lib k s 7 []) sigs qs)"
  using multisig_witness_iff [of "\<lparr>InvocationScript = [], VerificationScript = [1, 0]\<rparr>" tiny_lib 7 "[]"]
  by (simp add: IsMultiVerificationScript_def)

text \<open>
  C26. The verification script that is created for m and a list of at most 21 distinct keys,
  together with the invocation script of at least m signatures by keys of the list in their sorted
  order, makes a witness that is accepted.
\<close>

theorem multisig_created_accepted:
  assumes "curve_ok (Secp lib)" and "\<forall>k \<in> set keys. valid_key (Secp lib) k" and "Infinity \<notin> set keys"
    and "distinct keys" and "1 \<le> m" and "length keys \<le> MaxMultiSigCount"
    and "subseq qs (sort_key coords keys)" and "m \<le> length qs"
    and "list_all2 (\<lambda>s k. key_VerifyHashable lib k s net h) sigs qs"
  shows "\<exists>vs. CreateMultiSigVerificationScript m keys = Inr vs \<and>
     witness_VerifyHashable lib
       \<lparr>InvocationScript = CreateMultiInvocationScript sigs, VerificationScript = vs\<rparr> net h = Inr ()"
proof -
  let ?ks = "sort_key coords keys"
  let ?vs = "of_nat m # of_nat (length keys) # concat (map (getBytes True) ?ks) :: bytes"
  have len: "length sigs = length qs" "length qs \<le> length keys"
    using assms(7,9) by (auto dest: list_all2_lengthD list_emb_length)
  with assms have m: "m \<le> length keys" by simp
  have "\<forall>s \<in> set sigs. length s = SignatureLen"
    using assms(9) by (auto simp: key_VerifyHashable_def key_Verify_def in_set_conv_nth dest: list_all2_nthD split: if_splits)
  then have ivs: "ParseMultiInvocationScript (CreateMultiInvocationScript sigs) = Inr sigs"
    using len assms(6) by (intro parse_invocation) (auto simp: SignatureLen_def MaxArraySize_def MaxMultiSigCount_def)
  have ver: "ParseMultiVerificationScript (Secp lib) ?vs = Inr (?ks, m)"
    using assms m by (intro parse_created)
  have "0 < (of_nat m :: byte)"
    using assms(5,6) m by (simp add: word_less_nat_alt unat_of_nat take_bit_nat_eq_self MaxMultiSigCount_def)
  then have "IsMultiVerificationScript ?vs" by (simp add: IsMultiVerificationScript_def)
  moreover have "?ks \<noteq> []" using m assms(5) by (auto simp flip: length_0_conv)
  then have "match_sigs (\<lambda>pk sig. key_VerifyHashable lib pk sig net h) ?ks sigs"
    using assms(7,9) by (auto simp: match_sigs_iff)
  ultimately show ?thesis
    using created_script [OF assms(3,5) m assms(6)] ver ivs len assms(8) by (simp add: witness_VerifyHashable_def)
qed

theorem multisig_created_accepted_witness:
  "\<exists>vs. CreateMultiSigVerificationScript 2 [Point 1 2, Point 1 1, Point 0 0] = Inr vs \<and>
     witness_VerifyHashable tiny_lib
       \<lparr>InvocationScript = CreateMultiInvocationScript [replicate 64 0, replicate 31 0 @ [1] @ replicate 31 0 @ [2]],
        VerificationScript = vs\<rparr> 7 (replicate 32 5) = Inr ()"
  by (rule multisig_created_accepted [where qs = "[Point 0 0, Point 1 2]"])
    (simp_all add: tiny_curve_ok tiny_simps MaxMultiSigCount_def key_VerifyHashable_def key_Verify_def
      SignatureLen_def SetBytes_zeros SetBytes_small)

text \<open>
  C35. A multisignature script that lists the point at infinity before another key makes the
  verification of the witness dereference a nil pointer, and an invocation script that announces
  more signatures than slice headers fit into memory makes it panic too, whatever the keys are.
\<close>

theorem hostile_witness_panics:
  fixes n :: u64
  assumes "curve_ok (Secp lib)" and "valid_key (Secp lib) k" and "k \<noteq> Infinity" and "2 ^ 48 < unat n * 24"
  shows "witness_VerifyHashable lib
       \<lparr>InvocationScript = ivs, VerificationScript = [1, 2, 0] @ getBytes True k\<rparr> net h =
         Inl (ScriptPanic ''nil pointer dereference'') \<and>
     witness_VerifyHashable lib
       \<lparr>InvocationScript = 0xff # put_le 8 n @ rest, VerificationScript = [1, 1] @ getBytes True k\<rparr> net h =
         Inl (ScriptPanic ''makeslice: len out of range'')"
proof -
  have d: "decode_keys (Secp lib) (2 # 0 # getBytes True k) = Inr [Infinity, k]"
    using decode_keys_bytes [of "Secp lib" "[Infinity, k]"] assms by (simp add: MaxMultiSigCount_def)
  have "key_Unique [Infinity, k] = None" using assms(3) by (cases k) (simp_all add: key_Unique_def)
  then have "ParseMultiVerificationScript (Secp lib) (1 # 2 # 0 # getBytes True k) =
      Inl (ScriptPanic ''nil pointer dereference'')"
    using d by (simp add: ParseMultiVerificationScript_def MaxMultiSigCount_def)
  moreover have "ParseMultiVerificationScript (Secp lib) (1 # 1 # getBytes True k) = Inr ([k], 1)"
    using parse_created [of "Secp lib" "[k]" 1] assms by (simp add: MaxMultiSigCount_def)
  moreover have "ParseMultiInvocationScript (0xff # put_le 8 n @ rest) =
      Inl (ScriptPanic ''makeslice: len out of range'')"
    using assms(4)
    by (simp add: ParseMultiInvocationScript_def NewBinReaderFromBuf_def ReadVarUint_def rd_fixed)
  ultimately show ?thesis
    by (simp add: witness_VerifyHashable_def IsMultiVerificationScript_def)
qed

theorem hostile_witness_panics_witness:
  "witness_VerifyHashable tiny_lib
       \<lparr>InvocationScript = [], VerificationScript = [1, 2, 0] @ getBytes True (Point 1 1)\<rparr> 7 [] =
         Inl (ScriptPanic ''nil pointer dereference'') \<and>
     witness_VerifyHashable tiny_lib
       \<lparr>InvocationScript = 0xff # put_le 8 (0xFFFFFFFFFFFFFFFF :: u64) @ [], VerificationScript = [1, 1] @ getBytes True (Point 1 1)\<rparr> 7 [] =
         Inl (ScriptPanic ''makeslice: len out of range'')"
  by (rule hostile_witness_panics) (simp_all add: tiny_curve_ok tiny_simps)

text \<open>
  The data that is signed for a hash determines the hash but only the low 32 bits of the chain
  identifier: a signature made for one chain is valid on every chain whose identifier agrees
  modulo 2 ^ 32.
\<close>

theorem signed_data_chain_id:
  assumes "length h = 32" and "length h' = 32"
  shows "getSignedData c h = getSignedData c' h' \<longleftrightarrow>
     h = h' \<and> (ucast c :: u32) = ucast c'"
proof -
  have "take 4 (put_le 8 d) = put_le 4 (ucast d :: u32)" for d :: u64
    by (rule nth_equalityI) (auto simp: nth_put_le bit_simps intro!: bit_word_eqI)
  then have s: "getSignedData d g = put_le 4 (ucast d :: u32) @ g @ replicate 4 0" if "length g = 32" for d g
    using that by (simp add: getSignedData_def copy_at_def)
  have "x = y" if "put_le 4 x = put_le 4 y" for x y :: u32
  proof -
    have "get_le (put_le 4 z) = z" for z :: u32 by (rule get_put_le) simp
    from this [of x] this [of y] show ?thesis unfolding that by (rule trans [OF sym])
  qed
  then show ?thesis by (auto simp: s assms)
qed

theorem signed_data_chain_id_witness:
  "getSignedData 0x100000007 (replicate 32 1) = getSignedData 7 (replicate 32 1) \<longleftrightarrow>
     replicate 32 (1 :: byte) = replicate 32 1 \<and> (ucast (0x100000007 :: u64) :: u32) = ucast (7 :: u64)"
  by (rule signed_data_chain_id) simp_all

end
