(* ===== verification/Transactions.thy ===== *)
theory Transactions
  imports Witnesses
begin

text \<open>
  Transactions, src/pkg/core/transaction: the native format of neotx.go, the wrapper of Ethereum
  transactions of ethtx.go, the union of both of transaction.go and the network fee of util.go.
  The Ethereum transaction itself, its RLP form and its signature are go-ethereum's and enter as
  the type \<open>'e\<close> and the fields of \<open>tx_lib\<close>. Prices and values are never nil here: every decoder
  sets them. The cached hash and size of a transaction are recomputed. The JSON forms are left out.
\<close>

section \<open>Data\<close>

record 'e tx_lib = crypto_lib +
  Keccak256 :: "bytes \<Rightarrow> hash"
  BytesToAddress :: "bytes \<Rightarrow> address"
  eth_Nonce :: "'e \<Rightarrow> u64"
  eth_To :: "'e \<Rightarrow> address option"
  eth_Gas :: "'e \<Rightarrow> u64"
  eth_GasPrice :: "'e \<Rightarrow> int"
  eth_GasFeeCap :: "'e \<Rightarrow> int"
  eth_GasTipCap :: "'e \<Rightarrow> int"
  eth_Value :: "'e \<Rightarrow> int"
  eth_Data :: "'e \<Rightarrow> bytes"
  eth_Size :: "'e \<Rightarrow> nat"
  eth_Hash :: "'e \<Rightarrow> hash"
  eth_ChainId :: "'e \<Rightarrow> int"
  eth_Sender :: "u64 \<Rightarrow> 'e \<Rightarrow> string + address"
  eth_SignHash :: "u64 \<Rightarrow> 'e \<Rightarrow> hash"
  eth_zero :: 'e
  rlp_Encode :: "'e \<Rightarrow> io_error + bytes"
  rlp_Decode :: "bin_reader \<Rightarrow> (io_error + 'e) \<times> bytes"

record neo_tx =
  Nonce :: u64
  GasPrice :: int
  Gas :: u64
  From :: address
  To :: "address option"
  Value :: int
  TxData :: bytes
  TxWitness :: witness

record 'e eth_tx =
  EthTransaction :: 'e
  EthChainID :: u64
  EthSender :: address

datatype 'e transaction = EthTx "'e eth_tx" | NeoTx neo_tx

definition EthTxType :: byte where "EthTxType = 0"
definition NeoTxType :: byte where "NeoTxType = 1"
definition SignatureLength :: nat where "SignatureLength = 64"
definition MaxScriptLength :: nat where "MaxScriptLength = 65535"
definition MaxTransactionSize :: nat where "MaxTransactionSize = 102400"
definition EthLegacyBaseLength :: nat where "EthLegacyBaseLength = 100"

datatype tx_error =
    ErrUnsupportType | ErrNegativeValue | ErrValueVeryHigh | ErrGasPriceVeryHigh | ErrZeroFromAddress
  | ErrFeeCapVeryHigh | ErrTipVeryHigh | ErrTipAboveFeeCap | ErrInvalidChainID | ErrWitnessUnmatch
  | ErrChainIdNotUint64 | ErrSender string | ErrWitness script_error

text \<open>The same errors as the sticky error of a reader.\<close>

fun as_io :: "tx_error \<Rightarrow> io_error" where
  "as_io ErrUnsupportType = Errorf ''unsupport tx type'' 0"
| "as_io ErrNegativeValue = Errorf ''negative value'' 0"
| "as_io ErrValueVeryHigh = Errorf ''value higher than 2^256-1'' 0"
| "as_io ErrGasPriceVeryHigh = Errorf ''gas price higher than 2^256-1'' 0"
| "as_io ErrZeroFromAddress = Errorf ''zero from address'' 0"
| "as_io ErrChainIdNotUint64 = Errorf ''ChainId is not uint64'' 0"
| "as_io (ErrSender s) = Errorf s 0"
| "as_io _ = Errorf ''invalid transaction'' 0"

section \<open>Native transactions\<close>

definition neo_isValid :: "neo_tx \<Rightarrow> tx_error option" where
  "neo_isValid t =
     (if Value t < 0 \<or> GasPrice t < 0 then Some ErrNegativeValue
      else if BitLen (Value t) > 256 then Some ErrValueVeryHigh
      else if BitLen (GasPrice t) > 256 then Some ErrGasPriceVeryHigh
      else if From t = replicate 20 0 then Some ErrZeroFromAddress
      else None)"

definition encodeHashableFields :: "neo_tx \<Rightarrow> bin_writer \<Rightarrow> bin_writer" where
  "encodeHashableFields t w =
     (let w1 = WriteU64LE (Nonce t) w;
          w2 = WriteVarBytes (big_Bytes (GasPrice t)) w1;
          w3 = WriteU64LE (Gas t) w2;
          w4 = WriteBytes (From t) w3;
          w5 = (case To t of None \<Rightarrow> WriteVarUint 0 w4 | Some a \<Rightarrow> WriteVarBytes a w4);
          w6 = WriteVarBytes (big_Bytes (Value t)) w5 in
      WriteVarBytes (TxData t) w6)"

definition encode_neo :: "neo_tx \<Rightarrow> bin_writer \<Rightarrow> bin_writer" where
  "encode_neo t w = encode_witness (TxWitness t) (encodeHashableFields t w)"

definition decodeHashableFields :: "'e tx_lib \<Rightarrow> bin_reader \<Rightarrow> neo_tx \<times> bin_reader" where
  "decodeHashableFields lib r =
     (let (nonce, r1) = ReadU64LE r;
          (pricebs, r2) = ReadVarBytes MaxArraySize r1;
          (gas, r3) = ReadU64LE r2;
          (from, r4) = ReadBytes (replicate 20 0) r3;
          (tob, r5) = ReadVarBytes 20 r4;
          (valuebs, r6) = ReadVarBytes MaxArraySize r5;
          (dat, r7) = ReadVarBytes MaxScriptLength r6;
          t = \<lparr>Nonce = nonce, GasPrice = SetBytes (or_nil pricebs), Gas = gas, From = from,
               To = (if or_nil tob = [] then None else Some (BytesToAddress lib (or_nil tob))),
               Value = SetBytes (or_nil valuebs), TxData = or_nil dat,
               TxWitness = \<lparr>InvocationScript = [], VerificationScript = []\<rparr>\<rparr> in
      (t, if Err r7 = None then r7\<lparr>Err := map_option as_io (neo_isValid t)\<rparr> else r7))"

definition decode_neo :: "'e tx_lib \<Rightarrow> bin_reader \<Rightarrow> neo_tx \<times> bin_reader" where
  "decode_neo lib r =
     (let (t, r1) = decodeHashableFields lib r in
      if Err r1 \<noteq> None then (t, r1)
      else let (x, r2) = decode_witness r1 in (t\<lparr>TxWitness := x\<rparr>, r2))"

text \<open>\<open>createHash\<close> hashes with SHA-256; \<open>DecodeHashableFields\<close> caches a Keccak hash of the buffer.\<close>

definition EncodeHashableFields :: "neo_tx \<Rightarrow> bytes" where
  "EncodeHashableFields t = the (fst (Bytes (encodeHashableFields t NewBufBinWriter)))"

definition neo_Hash :: "'e tx_lib \<Rightarrow> neo_tx \<Rightarrow> hash" where
  "neo_Hash lib t = Sha256 lib (EncodeHashableFields t)"

definition DecodeHashableFields :: "'e tx_lib \<Rightarrow> bytes \<Rightarrow> io_error + (neo_tx \<times> hash)" where
  "DecodeHashableFields lib buf =
     (let (t, r) = decodeHashableFields lib (NewBinReaderFromBuf buf) in
      case Err r of
        Some e \<Rightarrow> Inl e
      | None \<Rightarrow>
          if Reader r \<noteq> [] then Inl (Errorf ''additional data after the signed part'' 0)
          else Inr (t, Keccak256 lib buf))"

definition neo_Size :: "neo_tx \<Rightarrow> nat" where
  "neo_Size t = the (GetVarSize (GPtr (encode_neo t)))"

section \<open>Ethereum transactions\<close>

definition deriveSigned :: "'e tx_lib \<Rightarrow> 'e \<Rightarrow> u64 \<times> address \<times> tx_error option" where
  "deriveSigned lib x =
     (let c = eth_ChainId lib x in
      if \<not> (0 \<le> c \<and> c < 2 ^ 64) then (0, replicate 20 0, Some ErrChainIdNotUint64)
      else case eth_Sender lib (of_int c) x of
        Inl e \<Rightarrow> (of_int c, replicate 20 0, Some (ErrSender e)) | Inr a \<Rightarrow> (of_int c, a, None))"

definition NewEthTx :: "'e tx_lib \<Rightarrow> 'e \<Rightarrow> tx_error + 'e eth_tx" where
  "NewEthTx lib x = (case deriveSigned lib x of
     (c, a, Some e) \<Rightarrow> Inl e
   | (c, a, None) \<Rightarrow> Inr \<lparr>EthTransaction = x, EthChainID = c, EthSender = a\<rparr>)"

definition eth_isValid :: "'e tx_lib \<Rightarrow> 'e eth_tx \<Rightarrow> tx_error option" where
  "eth_isValid lib t =
     (let x = EthTransaction t in
      if eth_Value lib x < 0 then Some ErrNegativeValue
      else if BitLen (eth_Value lib x) > 256 then Some ErrValueVeryHigh
      else if BitLen (eth_GasFeeCap lib x) > 256 then Some ErrFeeCapVeryHigh
      else if BitLen (eth_GasTipCap lib x) > 256 then Some ErrTipVeryHigh
      else if eth_GasTipCap lib x > eth_GasFeeCap lib x then Some ErrTipAboveFeeCap
      else if BitLen (eth_GasPrice lib x) > 256 then Some ErrGasPriceVeryHigh
      else None)"

text \<open>A sender and a chain that are both unset are derived first and kept.\<close>

definition eth_Verify :: "'e tx_lib \<Rightarrow> u64 \<Rightarrow> 'e eth_tx \<Rightarrow> tx_error option \<times> 'e eth_tx" where
  "eth_Verify lib c t =
     (let (err, t') =
        (if EthChainID t = 0 \<and> EthSender t = replicate 20 0 then
           let (i, a, e) = deriveSigned lib (EthTransaction t) in (e, t\<lparr>EthChainID := i, EthSender := a\<rparr>)
         else (None, t)) in
      if err \<noteq> None then (err, t')
      else (if EthChainID t' \<noteq> c then Some ErrInvalidChainID else None, t'))"

text \<open>Both methods overwrite the sticky error with their own outcome.\<close>

definition encode_eth :: "'e tx_lib \<Rightarrow> 'e eth_tx \<Rightarrow> bin_writer \<Rightarrow> bin_writer" where
  "encode_eth lib t w = (case rlp_Encode lib (EthTransaction t) of
     Inl e \<Rightarrow> w\<lparr>WErr := Some e\<rparr>
   | Inr b \<Rightarrow> w\<lparr>Writer := Write (Writer w) b, WErr := None\<rparr>)"

definition decode_eth :: "'e tx_lib \<Rightarrow> bin_reader \<Rightarrow> 'e eth_tx \<times> bin_reader" where
  "decode_eth lib r =
     (case rlp_Decode lib r of
        (Inl e, rest) \<Rightarrow> (\<lparr>EthTransaction = eth_zero lib, EthChainID = 0, EthSender = replicate 20 0\<rparr>,
                         \<lparr>Reader = rest, Err = Some e\<rparr>)
      | (Inr y, rest) \<Rightarrow> (let (c, a, e) = deriveSigned lib y in
          (\<lparr>EthTransaction = y, EthChainID = c, EthSender = a\<rparr>,
           \<lparr>Reader = rest, Err = map_option as_io e\<rparr>)))"

section \<open>Transactions\<close>

fun tx_Nonce :: "'e tx_lib \<Rightarrow> 'e transaction \<Rightarrow> u64" where
  "tx_Nonce lib (EthTx t) = eth_Nonce lib (EthTransaction t)"
| "tx_Nonce lib (NeoTx t) = Nonce t"

fun tx_To :: "'e tx_lib \<Rightarrow> 'e transaction \<Rightarrow> address option" where
  "tx_To lib (EthTx t) = eth_To lib (EthTransaction t)"
| "tx_To lib (NeoTx t) = To t"

fun tx_Gas :: "'e tx_lib \<Rightarrow> 'e transaction \<Rightarrow> u64" where
  "tx_Gas lib (EthTx t) = eth_Gas lib (EthTransaction t)"
| "tx_Gas lib (NeoTx t) = Gas t"

fun tx_GasPrice :: "'e tx_lib \<Rightarrow> 'e transaction \<Rightarrow> int" where
  "tx_GasPrice lib (EthTx t) = eth_GasPrice lib (EthTransaction t)"
| "tx_GasPrice lib (NeoTx t) = GasPrice t"

fun tx_Value :: "'e tx_lib \<Rightarrow> 'e transaction \<Rightarrow> int" where
  "tx_Value lib (EthTx t) = eth_Value lib (EthTransaction t)"
| "tx_Value lib (NeoTx t) = Value t"

fun tx_Data :: "'e tx_lib \<Rightarrow> 'e transaction \<Rightarrow> bytes" where
  "tx_Data lib (EthTx t) = eth_Data lib (EthTransaction t)"
| "tx_Data lib (NeoTx t) = TxData t"

fun tx_Size :: "'e tx_lib \<Rightarrow> 'e transaction \<Rightarrow> nat" where
  "tx_Size lib (EthTx t) = eth_Size lib (EthTransaction t)"
| "tx_Size lib (NeoTx t) = neo_Size t"

fun tx_From :: "'e transaction \<Rightarrow> address" where
  "tx_From (EthTx t) = EthSender t"
| "tx_From (NeoTx t) = From t"

fun tx_Hash :: "'e tx_lib \<Rightarrow> 'e transaction \<Rightarrow> hash" where
  "tx_Hash lib (EthTx t) = eth_Hash lib (EthTransaction t)"
| "tx_Hash lib (NeoTx t) = neo_Hash lib t"

fun tx_SignHash :: "'e tx_lib \<Rightarrow> u64 \<Rightarrow> 'e transaction \<Rightarrow> hash" where
  "tx_SignHash lib c (EthTx t) = eth_SignHash lib c (EthTransaction t)"
| "tx_SignHash lib c (NeoTx t) = neo_Hash lib t"

text \<open>The gas is converted to a signed 64-bit number before it is multiplied.\<close>

definition tx_Cost :: "'e tx_lib \<Rightarrow> 'e transaction \<Rightarrow> int" where
  "tx_Cost lib t = tx_Value lib t + sint (tx_Gas lib t) * tx_GasPrice lib t"

definition tx_FeePerByte :: "'e tx_lib \<Rightarrow> 'e transaction \<Rightarrow> u64" where
  "tx_FeePerByte lib t = tx_Gas lib t div of_nat (tx_Size lib t)"

fun tx_IsValid :: "'e tx_lib \<Rightarrow> 'e transaction \<Rightarrow> tx_error option" where
  "tx_IsValid lib (EthTx t) = eth_isValid lib t"
| "tx_IsValid lib (NeoTx t) = neo_isValid t"

fun tx_Verify :: "'e tx_lib \<Rightarrow> u64 \<Rightarrow> 'e transaction \<Rightarrow> tx_error option \<times> 'e transaction" where
  "tx_Verify lib c (EthTx t) = map_prod id EthTx (eth_Verify lib c t)"
| "tx_Verify lib c (NeoTx t) =
     (if From t \<noteq> witness_Address lib (TxWitness t) then (Some ErrWitnessUnmatch, NeoTx t)
      else (case witness_VerifyHashable lib (TxWitness t) c (neo_Hash lib t) of
              Inl e \<Rightarrow> Some (ErrWitness e) | Inr _ \<Rightarrow> None, NeoTx t))"

fun tx_encode :: "'e tx_lib \<Rightarrow> 'e transaction \<Rightarrow> bin_writer \<Rightarrow> bin_writer" where
  "tx_encode lib (EthTx t) w = encode_eth lib t (WriteB EthTxType w)"
| "tx_encode lib (NeoTx t) w = encode_neo t (WriteB NeoTxType w)"

text \<open>An unknown type leaves an empty transaction behind, shown as \<open>None\<close>, and an error.\<close>

definition tx_decode :: "'e tx_lib \<Rightarrow> bin_reader \<Rightarrow> 'e transaction option \<times> bin_reader" where
  "tx_decode lib r =
     (let (ty, r1) = ReadB r in
      if ty = EthTxType then map_prod (\<lambda>t. Some (EthTx t)) id (decode_eth lib r1)
      else if ty = NeoTxType then map_prod (\<lambda>t. Some (NeoTx t)) id (decode_neo lib r1)
      else (None, r1\<lparr>Err := Some (as_io ErrUnsupportType)\<rparr>))"

text \<open>\<open>None\<close> is the index out of range on an empty verification script.\<close>

fun CalculateNetworkFee :: "'e tx_lib \<Rightarrow> 'e transaction \<Rightarrow> u64 \<Rightarrow> u64 option" where
  "CalculateNetworkFee lib (EthTx t) fee =
     Some (of_nat (EthLegacyBaseLength + length (eth_Data lib (EthTransaction t))) * fee)"
| "CalculateNetworkFee lib (NeoTx t) fee =
     (let slice = (\<lambda>b. the (GetVarSize (GNums (length b) 1)));
          vs = VerificationScript (TxWitness t);
          size = 8 + slice (big_Bytes (GasPrice t)) + 8 + 20 + slice (big_Bytes (Value t)) + slice (TxData t) + 1
                 + (if To t \<noteq> None then 20 else 0) + slice vs in
      case vs of
        [] \<Rightarrow> None
      | b # _ \<Rightarrow> Some (of_nat (size + (if b = 0 then SignatureLength + 1 else 1 + unat b * (SignatureLength + 1))) * fee))"

section \<open>The codec of native transactions\<close>

definition neo_bytes :: "neo_tx \<Rightarrow> bytes" where
  "neo_bytes t = put_le 8 (Nonce t) @ var_bytes (big_Bytes (GasPrice t)) @ put_le 8 (Gas t) @ From t @
     var_bytes (case To t of None \<Rightarrow> [] | Some a \<Rightarrow> a) @ var_bytes (big_Bytes (Value t)) @ var_bytes (TxData t)"

definition witness_bytes :: "witness \<Rightarrow> bytes" where
  "witness_bytes x = var_bytes (InvocationScript x) @ var_bytes (VerificationScript x)"

definition witness_ok :: "witness \<Rightarrow> bool" where
  "witness_ok x \<longleftrightarrow> length (InvocationScript x) \<le> MaxInvocationScript \<and>
     length (VerificationScript x) \<le> MaxVerificationScript"

definition neo_ok :: "'e tx_lib \<Rightarrow> neo_tx \<Rightarrow> bool" where
  "neo_ok lib t \<longleftrightarrow> neo_isValid t = None \<and> length (From t) = 20 \<and>
     (\<forall>a. To t = Some a \<longrightarrow> length a = 20 \<and> BytesToAddress lib a = a) \<and>
     length (TxData t) \<le> MaxScriptLength \<and> witness_ok (TxWitness t)"

interpretation witness_codec: codec encode_witness decode_witness witness_bytes witness_ok
  by unfold_locales
    (simp_all add: encode_witness_def decode_witness_def witness_bytes_def witness_ok_def WriteVarBytes_eq
      codec_simps MaxInvocationScript_def MaxVerificationScript_def or_nil_def)

lemma encodeHashableFields_eq: "encodeHashableFields t w = WriteBytes (neo_bytes t) w"
proof -
  have "WriteVarUint 0 w' = WriteVarBytes [] w'" for w' by (simp add: WriteVarBytes_def)
  then show ?thesis
    by (simp add: encodeHashableFields_def neo_bytes_def Let_def WriteU64LE_def WriteVarBytes_eq split: option.splits)
qed

lemma valid_amounts:
  assumes "neo_isValid t = None"
  shows "length (big_Bytes (Value t)) \<le> 32" and "length (big_Bytes (GasPrice t)) \<le> 32"
    and "\<bar>Value t\<bar> = Value t" and "\<bar>GasPrice t\<bar> = GasPrice t"
proof -
  have "\<bar>Value t\<bar> < 2 ^ 256" "\<bar>GasPrice t\<bar> < 2 ^ 256"
    using assms BitLen_le [of "Value t" 256] BitLen_le [of "GasPrice t" 256]
    by (auto simp: neo_isValid_def not_less split: if_splits)
  then show "length (big_Bytes (Value t)) \<le> 32" and "length (big_Bytes (GasPrice t)) \<le> 32"
    by (simp_all add: length_big_Bytes)
  show "\<bar>Value t\<bar> = Value t" and "\<bar>GasPrice t\<bar> = GasPrice t"
    using assms by (auto simp: neo_isValid_def split: if_splits)
qed

lemma decodeHashableFields_bytes:
  assumes "neo_ok lib t"
  shows "decodeHashableFields lib (rd (neo_bytes t @ rest)) =
     (t\<lparr>TxWitness := \<lparr>InvocationScript = [], VerificationScript = []\<rparr>\<rparr>, rd rest)"
proof -
  have v: "neo_isValid t = None" using assms by (simp add: neo_ok_def)
  note a = valid_amounts [OF v]
  have to: "length (case To t of None \<Rightarrow> [] | Some a \<Rightarrow> a) \<le> 20"
    using assms by (auto simp: neo_ok_def split: option.splits)
  have to': "(if (case To t of None \<Rightarrow> [] | Some a \<Rightarrow> a) = [] then None
      else Some (BytesToAddress lib (case To t of None \<Rightarrow> [] | Some a \<Rightarrow> a))) = To t"
    using assms by (auto simp: neo_ok_def split: option.splits)
  have iv: "neo_isValid (t\<lparr>TxWitness := x\<rparr>) = None" for x
    using v by (auto simp: neo_isValid_def split: if_splits)
  show ?thesis
  proof (cases t)
    case (fields n g ga f dst v' d w)
    then show ?thesis
      using assms a to to' iv [of "\<lparr>InvocationScript = [], VerificationScript = []\<rparr>"]
      by (cases dst) (auto simp: decodeHashableFields_def neo_bytes_def neo_ok_def codec_simps ReadBytes_exact
          MaxArraySize_def MaxScriptLength_def or_nil_def Let_def)
  qed
qed

interpretation neo_codec: codec encode_neo "decode_neo lib" "\<lambda>t. neo_bytes t @ witness_bytes (TxWitness t)" "neo_ok lib"
proof unfold_locales
  fix t rest
  assume "neo_ok lib t"
  then show "decode_neo lib (rd ((neo_bytes t @ witness_bytes (TxWitness t)) @ rest)) = (t, rd rest)"
    by (simp add: decode_neo_def decodeHashableFields_bytes witness_codec.dec_bytes neo_ok_def)
qed (simp add: encode_neo_def encodeHashableFields_eq witness_codec.enc_bytes)

lemma tx_encode_neo: "ToByteArray (tx_encode lib (NeoTx t)) = Inr (Some (NeoTxType # neo_bytes t @ witness_bytes (TxWitness t)))"
proof -
  have "tx_encode lib (NeoTx t) w = WriteBytes (NeoTxType # neo_bytes t @ witness_bytes (TxWitness t)) w" for w
    by (simp add: neo_codec.enc_bytes WriteB_def)
  then show ?thesis by (simp add: ToByteArray_def Bytes_def WriteBytes_def NewBufBinWriter_def)
qed

lemma tx_decode_neo:
  assumes "neo_ok lib t"
  shows "tx_decode lib (rd ((NeoTxType # neo_bytes t @ witness_bytes (TxWitness t)) @ rest)) = (Some (NeoTx t), rd rest)"
  using neo_codec.dec_bytes [OF assms, of rest] by (simp add: tx_decode_def rd_fixed NeoTxType_def EthTxType_def)

section \<open>Properties\<close>

lemma sint_eq_uint_iff: "sint g = uint g \<longleftrightarrow> uint g < 2 ^ 63" for g :: u64
  by (simp add: sint_uint signed_take_bit_int_eq_self_iff order_trans [OF _ uint_ge_0])

text \<open>Parameters for the examples: no Ethereum transactions, and the tiny curve.\<close>

definition tiny_tx_lib :: "unit tx_lib" where
  "tiny_tx_lib = \<lparr>Secp = tiny_curve, Sha256 = (\<lambda>b. take 32 (b @ replicate 32 0)),
     RipeMD160 = take 20, PubkeyToAddress = (\<lambda>_. replicate 20 1), EcdsaVerify = (\<lambda>k h r s. k = Point r s),
     Keccak256 = (\<lambda>b. take 32 (b @ replicate 32 0)), BytesToAddress = (\<lambda>b. take 20 (replicate (20 - length b) 0 @ b)),
     eth_Nonce = (\<lambda>_. 0), eth_To = (\<lambda>_. None), eth_Gas = (\<lambda>_. 0), eth_GasPrice = (\<lambda>_. 0), eth_GasFeeCap = (\<lambda>_. 0),
     eth_GasTipCap = (\<lambda>_. 0), eth_Value = (\<lambda>_. 0), eth_Data = (\<lambda>_. []), eth_Size = (\<lambda>_. 1), eth_Hash = (\<lambda>_. []),
     eth_ChainId = (\<lambda>_. 0), eth_Sender = (\<lambda>_ _. Inl ''no sender''), eth_SignHash = (\<lambda>_ _. []), eth_zero = (),
     rlp_Encode = (\<lambda>_. Inl EOF), rlp_Decode = (\<lambda>r. (Inl EOF, Reader r))\<rparr>"

text \<open>A transaction with the given sender, nonce and gas price.\<close>

definition tiny_tx :: "byte \<Rightarrow> u64 \<Rightarrow> int \<Rightarrow> neo_tx" where
  "tiny_tx from n price = \<lparr>Nonce = n, GasPrice = price, Gas = 1000, From = replicate 20 from, To = None, Value = 0,
     TxData = [], TxWitness = \<lparr>InvocationScript = [], VerificationScript = []\<rparr>\<rparr>"

lemma tiny_tx_ok:
  assumes "from \<noteq> 0" and "0 \<le> price" and "price < 2 ^ 256"
  shows "neo_ok lib (tiny_tx from n price)"
proof -
  have "\<not> 256 < BitLen price" using assms BitLen_le [of price 256] by simp
  moreover have "BitLen 0 = 0" by (simp add: BitLen_def nat_bitlen.simps)
  ultimately show ?thesis
    using assms by (simp add: neo_ok_def neo_isValid_def tiny_tx_def witness_ok_def)
qed

text \<open>
  C34. A valid native transaction within the size limits that is encoded as a transaction is decoded
  to itself, with the same hash, and the bytes behind it are left; its size is the number of bytes
  of the native encoding.
\<close>

theorem neo_tx_roundtrip:
  assumes "neo_ok lib t"
  shows "\<exists>b. ToByteArray (tx_encode lib (NeoTx t)) = Inr (Some b) \<and>
     tx_decode lib (NewBinReaderFromBuf (b @ rest)) = (Some (NeoTx t), NewBinReaderFromBuf rest) \<and>
     length b = tx_Size lib (NeoTx t) + 1"
proof -
  have "tx_Size lib (NeoTx t) = length (neo_bytes t @ witness_bytes (TxWitness t))"
    using neo_codec.GetVarSize_ptr [of t] by (simp add: neo_Size_def)
  then show ?thesis
    using tx_encode_neo [of lib t] tx_decode_neo [OF assms, of rest] by (auto simp: NewBinReaderFromBuf_def)
qed

theorem neo_tx_roundtrip_witness:
  "\<exists>b. ToByteArray (tx_encode tiny_tx_lib (NeoTx (tiny_tx 1 7 9))) = Inr (Some b) \<and>
     tx_decode tiny_tx_lib (NewBinReaderFromBuf (b @ [3])) = (Some (NeoTx (tiny_tx 1 7 9)), NewBinReaderFromBuf [3]) \<and>
     length b = tx_Size tiny_tx_lib (NeoTx (tiny_tx 1 7 9)) + 1"
  by (rule neo_tx_roundtrip) (simp add: tiny_tx_ok)

text \<open>
  A transaction costs its value plus gas times price exactly when the gas is below 2 ^ 63 or
  the price is zero; from 2 ^ 63 on the gas enters as a negative number.
\<close>

theorem cost_exact_iff:
  "tx_Cost lib t = tx_Value lib t + uint (tx_Gas lib t) * tx_GasPrice lib t \<longleftrightarrow>
     uint (tx_Gas lib t) < 2 ^ 63 \<or> tx_GasPrice lib t = 0"
proof -
  show ?thesis using sint_eq_uint_iff [of "tx_Gas lib t"] by (auto simp: tx_Cost_def)
qed

end
