(* ===== verification/Mempool.thy ===== *)
theory Mempool
  imports Transactions "HOL-Library.AList"
begin

text \<open>
  The memory pool of unconfirmed transactions, src/pkg/core/mempool/mem_pool.go and feer.go. The
  inner maps of \<open>senderMap\<close> are association lists without repeated keys, and a missing entry of the
  outer map is the empty list; a missing nonce is zero, which is what reading a Go map yields. Items
  are never modified after they were made, so the pointers to them are the items themselves. What is
  sent to the event channel and what is given to the resend function is recorded in lists. The
  metrics and the dispatcher goroutine of subscriptions.go are left out.
\<close>

section \<open>Data\<close>

record ('e, 'd) pool_item =
  txn :: "'e transaction"
  blockStamp :: u32
  item_data :: "'d option"
  priority :: int

record utilityBalanceAndFees =
  balance :: int
  feeSum :: int

datatype ('e, 'd) pool_event =
    TransactionAdded "'e transaction" "'d option"
  | TransactionRemoved "'e transaction" "'d option"

record ('e, 'd) pool =
  verifiedMap :: "hash \<rightharpoonup> 'e transaction"
  verifiedTxes :: "('e, 'd) pool_item list"
  fees :: "address \<rightharpoonup> utilityBalanceAndFees"
  pendingNonces :: "address \<Rightarrow> u64"
  dbNonces :: "address \<Rightarrow> u64"
  senderMap :: "address \<Rightarrow> (u64 \<times> ('e, 'd) pool_item) list"
  capacity :: nat
  feePerByte :: u64
  gasPrice :: "int option"
  resendThreshold :: u32
  subscriptionsOn :: bool
  events :: "('e, 'd) pool_event list"
  resent :: "('e, 'd) pool_item list"

record feer =
  FeePerByte :: u64
  GetGasPrice :: int
  GetUtilityTokenBalance :: "address \<Rightarrow> int"
  BlockHeight :: u32

datatype pool_error =
    ErrInsufficientFunds | ErrConflict | ErrDup | ErrOOM | ErrConflictsNonce | PoolPanic string

section \<open>Order and search\<close>

definition int_Cmp :: "int \<Rightarrow> int \<Rightarrow> int" where
  "int_Cmp x y = (if x < y then -1 else if x = y then 0 else 1)"

text \<open>The second test on the nonces repeats the first one, as it does in the code.\<close>

definition CompareTo :: "'e tx_lib \<Rightarrow> ('e, 'd) pool_item \<Rightarrow> ('e, 'd) pool_item \<Rightarrow> int" where
  "CompareTo lib p q =
     (let ret = int_Cmp (priority p) (priority q) in
      if ret \<noteq> 0 then ret
      else if tx_Nonce lib (txn p) > tx_Nonce lib (txn q) then -1
      else if tx_Nonce lib (txn p) > tx_Nonce lib (txn q) then 1
      else int_Cmp (SetBytes (tx_Hash lib (txn p))) (SetBytes (tx_Hash lib (txn q))))"

text \<open>\<open>sort.Search\<close> of the standard library: the loop between the bounds \<open>i\<close> and \<open>j\<close>.\<close>

function search_between :: "(nat \<Rightarrow> bool) \<Rightarrow> nat \<Rightarrow> nat \<Rightarrow> nat" where
  "search_between f i j =
     (if i < j then
        let h = (i + j) div 2 in
        if \<not> f h then search_between f (h + 1) j else search_between f i h
      else i)"
  by pat_completeness auto
termination by (relation "measure (\<lambda>(f, i, j). j - i)") auto

declare search_between.simps [simp del]

definition sort_Search :: "nat \<Rightarrow> (nat \<Rightarrow> bool) \<Rightarrow> nat" where
  "sort_Search n f = search_between f 0 n"

section \<open>Reading\<close>

definition Count :: "('e, 'd) pool \<Rightarrow> nat" where
  "Count mp = length (verifiedTxes mp)"

definition containsKey :: "hash \<Rightarrow> ('e, 'd) pool \<Rightarrow> bool" where
  "containsKey h mp \<longleftrightarrow> verifiedMap mp h \<noteq> None"

definition HasConflicts :: "'e tx_lib \<Rightarrow> 'e transaction \<Rightarrow> ('e, 'd) pool \<Rightarrow> bool" where
  "HasConflicts lib t mp = containsKey (tx_Hash lib t) mp"

definition GetVerifiedTransactions :: "('e, 'd) pool \<Rightarrow> 'e transaction list" where
  "GetVerifiedTransactions mp = map txn (verifiedTxes mp)"

definition TryGetValue :: "hash \<Rightarrow> ('e, 'd) pool \<Rightarrow> 'e transaction option" where
  "TryGetValue h mp = verifiedMap mp h"

fun find_data :: "'e tx_lib \<Rightarrow> hash \<Rightarrow> ('e, 'd) pool_item \<Rightarrow> ('e, 'd) pool_item list \<Rightarrow> 'd option \<times> bool" where
  "find_data lib h itm [] = (None, False)"
| "find_data lib h itm (x # xs) =
     (if tx_Hash lib (txn x) = h then (item_data x, True)
      else if CompareTo lib itm x \<noteq> 0 then (None, False)
      else find_data lib h itm xs)"

definition TryGetData :: "'e tx_lib \<Rightarrow> hash \<Rightarrow> ('e, 'd) pool \<Rightarrow> 'd option \<times> bool" where
  "TryGetData lib h mp = (case verifiedMap mp h of
     None \<Rightarrow> (None, False)
   | Some tx \<Rightarrow>
       let itm = \<lparr>txn = tx, blockStamp = 0, item_data = None, priority = 0\<rparr>;
           n = sort_Search (length (verifiedTxes mp)) (\<lambda>n. CompareTo lib itm (verifiedTxes mp ! n) \<ge> 0) in
       find_data lib h itm (drop n (verifiedTxes mp)))"

definition SetDBNonce :: "address \<Rightarrow> u64 \<Rightarrow> ('e, 'd) pool \<Rightarrow> ('e, 'd) pool" where
  "SetDBNonce a n mp = mp\<lparr>dbNonces := (dbNonces mp)(a := n)\<rparr>"

definition GetDBNonce :: "address \<Rightarrow> ('e, 'd) pool \<Rightarrow> u64" where
  "GetDBNonce a mp = dbNonces mp a"

definition PendingNonce :: "address \<Rightarrow> ('e, 'd) pool \<Rightarrow> u64" where
  "PendingNonce a mp = pendingNonces mp a"

text \<open>The loops that walk over consecutive nonces: the first nonce from \<open>i\<close> on that is missing.\<close>

function first_gap :: "(u64 \<Rightarrow> bool) \<Rightarrow> u64 \<Rightarrow> u64 \<Rightarrow> u64 option" where
  "first_gap has i n = (if i < n then (if has i then first_gap has (i + 1) n else Some i) else None)"
  by pat_completeness auto
termination
proof (relation "measure (\<lambda>(has, i, n). unat n - unat i)")
  fix has :: "u64 \<Rightarrow> bool" and i n :: u64
  assume less: "i < n"
  moreover have "unat n < 2 ^ 64" using unsigned_less [of n] by simp
  ultimately have "unat (i + 1) = unat i + 1" by (simp add: unat_word_ariths word_less_nat_alt)
  with less show "((has, i + 1, n), (has, i, n)) \<in> measure (\<lambda>(has, i, n). unat n - unat i)"
    by (simp add: word_less_nat_alt)
qed simp

declare first_gap.simps [simp del]

definition checkNonceContinue :: "'e tx_lib \<Rightarrow> 'e transaction \<Rightarrow> ('e, 'd) pool \<Rightarrow> bool" where
  "checkNonceContinue lib tx mp =
     (let dbNonce = dbNonces mp (tx_From tx) in
      if tx_Nonce lib tx < dbNonce then False
      else first_gap (\<lambda>i. map_of (senderMap mp (tx_From tx)) i \<noteq> None) dbNonce (tx_Nonce lib tx) = None)"

section \<open>Fees\<close>

definition checkBalance :: "'e tx_lib \<Rightarrow> 'e transaction \<Rightarrow> utilityBalanceAndFees \<Rightarrow> int \<times> pool_error option" where
  "checkBalance lib tx b =
     (let txFee = tx_Cost lib tx in
      if balance b < txFee then (txFee, Some ErrInsufficientFunds)
      else let total = txFee + feeSum b in
        if balance b < total then (total, Some ErrConflict) else (total, None))"

text \<open>The entry of a payer, read from the chain when there is none yet.\<close>

definition fee_entry :: "feer \<Rightarrow> address \<Rightarrow> ('e, 'd) pool \<Rightarrow> utilityBalanceAndFees" where
  "fee_entry f payer mp = (case fees mp payer of
     None \<Rightarrow> \<lparr>balance = GetUtilityTokenBalance f payer, feeSum = 0\<rparr>
   | Some e \<Rightarrow> e)"

definition tryAddSendersFee ::
    "'e tx_lib \<Rightarrow> 'e transaction \<Rightarrow> feer \<Rightarrow> bool \<Rightarrow> ('e, 'd) pool \<Rightarrow> bool \<times> ('e, 'd) pool" where
  "tryAddSendersFee lib tx f needCheck mp =
     (let payer = tx_From tx;
          senderFee = fee_entry f payer mp;
          mp1 = mp\<lparr>fees := (fees mp)(payer \<mapsto> senderFee)\<rparr> in
      if needCheck then
        (case checkBalance lib tx senderFee of
           (_, Some _) \<Rightarrow> (False, mp1)
         | (newFeeSum, None) \<Rightarrow> (True, mp1\<lparr>fees := (fees mp1)(payer \<mapsto> senderFee\<lparr>feeSum := newFeeSum\<rparr>)\<rparr>))
      else (True, mp1\<lparr>fees := (fees mp1)(payer \<mapsto> senderFee\<lparr>feeSum := feeSum senderFee + tx_Cost lib tx\<rparr>)\<rparr>))"

text \<open>
  \<open>checkTxConflicts\<close> copies the entry of the payer, but a \<open>big.Int\<close> is a sign and a slice of words,
  and the copy shares the words: \<open>Sub\<close> writes the words of the difference into the entry of the pool,
  whose sign and number of words stay. The recorded sum is therefore reduced by every call that meets
  a cheaper transaction of the same nonce, whatever the call returns.
\<close>

definition shared_sum :: "int \<Rightarrow> int \<Rightarrow> int" where
  "shared_sum recorded cost = (if recorded < 0 then - \<bar>recorded - cost\<bar> else \<bar>recorded - cost\<bar>)"

definition share_sum :: "address \<Rightarrow> int \<Rightarrow> ('e, 'd) pool \<Rightarrow> ('e, 'd) pool" where
  "share_sum payer cost mp = (case fees mp payer of
     None \<Rightarrow> mp
   | Some e \<Rightarrow> mp\<lparr>fees := (fees mp)(payer \<mapsto> e\<lparr>feeSum := shared_sum (feeSum e) cost\<rparr>)\<rparr>)"

definition checkTxConflicts ::
    "'e tx_lib \<Rightarrow> 'e transaction \<Rightarrow> feer \<Rightarrow> ('e, 'd) pool \<Rightarrow> 'e transaction option \<times> pool_error option \<times> ('e, 'd) pool" where
  "checkTxConflicts lib tx f mp =
     (let actual = fee_entry f (tx_From tx) mp in
      case map_of (senderMap mp (tx_From tx)) (tx_Nonce lib tx) of
        Some existTx \<Rightarrow>
          if tx_GasPrice lib (txn existTx) < tx_GasPrice lib tx then
            (Some (txn existTx),
             snd (checkBalance lib tx (actual\<lparr>feeSum := feeSum actual - tx_Cost lib (txn existTx)\<rparr>)),
             share_sum (tx_From tx) (tx_Cost lib (txn existTx)) mp)
          else (None, Some ErrConflictsNonce, mp)
      | None \<Rightarrow> (None, snd (checkBalance lib tx actual), mp))"

definition pool_Verify :: "'e tx_lib \<Rightarrow> 'e transaction \<Rightarrow> feer \<Rightarrow> ('e, 'd) pool \<Rightarrow> bool \<times> ('e, 'd) pool" where
  "pool_Verify lib tx f mp = (case checkTxConflicts lib tx f mp of (_, err, mp') \<Rightarrow> (err = None, mp'))"

section \<open>Removal\<close>

definition emit :: "('e, 'd) pool_event \<Rightarrow> ('e, 'd) pool \<Rightarrow> ('e, 'd) pool" where
  "emit e mp = (if subscriptionsOn mp then mp\<lparr>events := events mp @ [e]\<rparr> else mp)"

definition removeItemByIndex :: "'e tx_lib \<Rightarrow> nat \<Rightarrow> ('e, 'd) pool \<Rightarrow> pool_error + ('e, 'd) pool" where
  "removeItemByIndex lib num mp =
     (if num \<ge> length (verifiedTxes mp) then Inl (PoolPanic ''index out of range'')
      else let item = verifiedTxes mp ! num;
               payer = tx_From (txn item);
               senderFee = (case fees mp payer of None \<Rightarrow> \<lparr>balance = 0, feeSum = 0\<rparr> | Some e \<Rightarrow> e) in
        Inr (emit (TransactionRemoved (txn item) (item_data item))
          (mp\<lparr>verifiedMap := (verifiedMap mp)(tx_Hash lib (txn item) := None),
              senderMap := (senderMap mp)(payer := AList.delete (tx_Nonce lib (txn item)) (senderMap mp payer)),
              verifiedTxes := take num (verifiedTxes mp) @ drop (num + 1) (verifiedTxes mp),
              fees := (fees mp)(payer \<mapsto> senderFee\<lparr>feeSum := feeSum senderFee - tx_Cost lib (txn item)\<rparr>)\<rparr>)))"

text \<open>The last index from \<open>i\<close> on that holds the hash, or the given default.\<close>

fun last_match :: "'e tx_lib \<Rightarrow> hash \<Rightarrow> nat \<Rightarrow> ('e, 'd) pool_item list \<Rightarrow> nat \<Rightarrow> nat" where
  "last_match lib h i [] target = target"
| "last_match lib h i (x # xs) target =
     last_match lib h (Suc i) xs (if tx_Hash lib (txn x) = h then i else target)"

definition removeInternal :: "'e tx_lib \<Rightarrow> 'e transaction \<Rightarrow> ('e, 'd) pool \<Rightarrow> pool_error + ('e, 'd) pool" where
  "removeInternal lib tx mp =
     (case map_of (senderMap mp (tx_From tx)) (tx_Nonce lib tx) of
        None \<Rightarrow> Inl (PoolPanic ''nil pointer dereference'')
      | Some item \<Rightarrow>
          let num = sort_Search (length (verifiedTxes mp)) (\<lambda>n. CompareTo lib item (verifiedTxes mp ! n) \<ge> 0);
              target = last_match lib (tx_Hash lib tx) num (drop num (verifiedTxes mp)) num in
          removeItemByIndex lib target mp)"

section \<open>Addition\<close>

text \<open>
  Making room at capacity and placing the item. The slice expression \<open>verifiedTxes[n+1:]\<close> panics
  when \<open>n + 1\<close> exceeds the length.
\<close>

definition ditch_last :: "'e tx_lib \<Rightarrow> ('e, 'd) pool \<Rightarrow> pool_error + ('e, 'd) pool" where
  "ditch_last lib mp =
     (let unlucky = last (verifiedTxes mp); a = tx_From (txn unlucky) in
      bind_res (removeItemByIndex lib (length (verifiedTxes mp) - 1) mp) (\<lambda>mp1.
        let mp2 = mp1\<lparr>pendingNonces := (pendingNonces mp1)(a := pendingNonces mp1 a - 1)\<rparr> in
        Inr (if senderMap mp2 a = [] then mp2\<lparr>pendingNonces := (pendingNonces mp2)(a := 0)\<rparr> else mp2)))"

definition place_item :: "nat \<Rightarrow> ('e, 'd) pool_item \<Rightarrow> ('e, 'd) pool_item list \<Rightarrow> pool_error + ('e, 'd) pool_item list" where
  "place_item n pItem v =
     (if int n \<noteq> int (length v) - 1 then
        if n + 1 > length v then Inl (PoolPanic ''slice bounds out of range'')
        else Inr ((copy_at (n + 1) (drop n v) v)[n := pItem])
      else Inr v)"

definition insert_item :: "'e tx_lib \<Rightarrow> ('e, 'd) pool_item \<Rightarrow> ('e, 'd) pool \<Rightarrow> pool_error + ('e, 'd) pool" where
  "insert_item lib pItem mp =
     (let v = verifiedTxes mp;
          n = sort_Search (length v) (\<lambda>n. CompareTo lib pItem (v ! n) > 0) in
      bind_res
        (if length v = capacity mp then
           if n = length v then Inl ErrOOM else ditch_last lib mp
         else Inr (mp\<lparr>verifiedTxes := v @ [pItem]\<rparr>))
        (\<lambda>mp1. bind_res (place_item n pItem (verifiedTxes mp1)) (\<lambda>v1. Inr (mp1\<lparr>verifiedTxes := v1\<rparr>))))"

text \<open>A transaction gets at most the priority of the sender's previous one.\<close>

definition capped :: "'e tx_lib \<Rightarrow> ('e, 'd) pool_item \<Rightarrow> ('e, 'd) pool \<Rightarrow> ('e, 'd) pool_item" where
  "capped lib pItem mp = (case map_of (senderMap mp (tx_From (txn pItem))) (tx_Nonce lib (txn pItem) - 1) of
     None \<Rightarrow> pItem
   | Some pre \<Rightarrow> if int_Cmp (priority pItem) (priority pre) = 1 then pItem\<lparr>priority := priority pre\<rparr> else pItem)"

text \<open>
  The sum that \<open>checkTxConflicts\<close> has reduced keeps its number of words, so a comparison takes it for
  greater than any number with fewer words; when the removal then subtracts the cost once more,
  \<open>math/big\<close> panics if the cost has fewer words than the sum had and exceeds the reduced sum. The sum
  is taken to have no leading zero words when \<open>Add\<close> is called.
\<close>

definition word_count :: "int \<Rightarrow> nat" where
  "word_count n = (BitLen n + 63) div 64"

definition removal_underflows :: "int \<Rightarrow> int \<Rightarrow> bool" where
  "removal_underflows recorded cost \<longleftrightarrow>
     word_count cost < word_count recorded \<and> \<bar>shared_sum recorded cost\<bar> < cost"

definition remove_conflict ::
    "'e tx_lib \<Rightarrow> int \<Rightarrow> 'e transaction option \<Rightarrow> ('e, 'd) pool \<Rightarrow> pool_error + ('e, 'd) pool" where
  "remove_conflict lib recorded conflict mp = (case conflict of
     None \<Rightarrow> Inr mp
   | Some c \<Rightarrow> bind_res (removeInternal lib c mp) (\<lambda>mp1.
       if removal_underflows recorded (tx_Cost lib c) then Inl (PoolPanic ''underflow'') else Inr mp1))"

definition Add ::
    "'e tx_lib \<Rightarrow> 'e transaction \<Rightarrow> feer \<Rightarrow> 'd option \<Rightarrow> ('e, 'd) pool \<Rightarrow> pool_error option \<times> ('e, 'd) pool" where
  "Add lib t f dat mp =
     (let pItem = \<lparr>txn = t, blockStamp = BlockHeight f, item_data = dat, priority = tx_GasPrice lib t\<rparr>;
          a = tx_From t in
      if containsKey (tx_Hash lib t) mp then (Some ErrDup, mp)
      else case checkTxConflicts lib t f mp of
        (_, Some e, mp0) \<Rightarrow> (Some e, mp0)
      | (conflict, None, mp0) \<Rightarrow>
          (case remove_conflict lib (feeSum (fee_entry f a mp)) conflict mp0 of
             Inl e \<Rightarrow> (Some e, mp0)
           | Inr mp1 \<Rightarrow>
               let item = capped lib pItem mp1 in
               (case insert_item lib item mp1 of
                  Inl e \<Rightarrow> (Some e, mp1)
                | Inr mp2 \<Rightarrow>
                    let mp3 = mp2\<lparr>verifiedMap := (verifiedMap mp2)(tx_Hash lib t \<mapsto> t),
                                  senderMap := (senderMap mp2)(a := AList.update (tx_Nonce lib t) item (senderMap mp2 a))\<rparr>;
                        mp4 = (if conflict = None
                               then mp3\<lparr>pendingNonces := (pendingNonces mp3)(a := tx_Nonce lib t + 1)\<rparr> else mp3) in
                    (None, emit (TransactionAdded t dat) (snd (tryAddSendersFee lib t f False mp4))))))"

section \<open>Policy and stale transactions\<close>

definition loadPolicy :: "feer \<Rightarrow> ('e, 'd) pool \<Rightarrow> bool \<times> ('e, 'd) pool" where
  "loadPolicy f mp =
     (let c1 = FeePerByte f > feePerByte mp;
          mp1 = (if c1 then mp\<lparr>feePerByte := FeePerByte f\<rparr> else mp);
          c2 = (gasPrice mp1 = None \<or> gasPrice mp1 \<noteq> Some (GetGasPrice f));
          mp2 = (if c2 then mp1\<lparr>gasPrice := Some (GetGasPrice f)\<rparr> else mp1) in
      (c1 \<or> c2, mp2))"

definition checkPolicy :: "'e tx_lib \<Rightarrow> 'e transaction \<Rightarrow> bool \<Rightarrow> ('e, 'd) pool \<Rightarrow> bool" where
  "checkPolicy lib tx policyChanged mp \<longleftrightarrow>
     \<not> policyChanged \<or> (tx_FeePerByte lib tx \<ge> feePerByte mp \<and>
       (case gasPrice mp of None \<Rightarrow> True | Some g \<Rightarrow> tx_GasPrice lib tx \<ge> g))"

definition OnesCount32 :: "u32 \<Rightarrow> nat" where
  "OnesCount32 w = length (filter (bit w) [0..<32])"

definition is_stale :: "u32 \<Rightarrow> ('e, 'd) pool_item \<Rightarrow> ('e, 'd) pool \<Rightarrow> bool" where
  "is_stale height itm mp =
     (resendThreshold mp \<noteq> 0 \<and>
      (let diff = height - blockStamp itm in
       diff mod resendThreshold mp = 0 \<and> OnesCount32 (diff div resendThreshold mp) = 1))"

text \<open>The loop of \<open>RemoveStale\<close>: the items that are kept, the senders to refresh and the items to resend.\<close>

fun stale_loop :: "'e tx_lib \<Rightarrow> ('e transaction \<Rightarrow> bool) \<Rightarrow> feer \<Rightarrow> bool \<Rightarrow> ('e, 'd) pool_item list \<Rightarrow>
    ('e, 'd) pool \<Rightarrow> ('e, 'd) pool_item list \<times> address list \<times> ('e, 'd) pool_item list \<times> ('e, 'd) pool" where
  "stale_loop lib isOK f changed [] mp = ([], [], [], mp)"
| "stale_loop lib isOK f changed (itm # itms) mp =
     (let (ok, mp1) = (if isOK (txn itm) \<and> checkPolicy lib (txn itm) changed mp
                       then tryAddSendersFee lib (txn itm) f True mp else (False, mp)) in
      if ok then
        let (kept, senders, stale, mp2) = stale_loop lib isOK f changed itms mp1 in
        (itm # kept, senders, (if is_stale (BlockHeight f) itm mp1 then [itm] else []) @ stale, mp2)
      else
        let a = tx_From (txn itm);
            mp2 = emit (TransactionRemoved (txn itm) (item_data itm))
              (mp1\<lparr>verifiedMap := (verifiedMap mp1)(tx_Hash lib (txn itm) := None),
                   senderMap := (senderMap mp1)(a := AList.delete (tx_Nonce lib (txn itm)) (senderMap mp1 a))\<rparr>);
            (kept, senders, stale, mp3) = stale_loop lib isOK f changed itms mp2 in
        (kept, a # senders, stale, mp3))"

definition RemoveStale ::
    "'e tx_lib \<Rightarrow> ('e transaction \<Rightarrow> bool) \<Rightarrow> feer \<Rightarrow> ('e, 'd) pool \<Rightarrow> address list \<times> ('e, 'd) pool" where
  "RemoveStale lib isOK f mp =
     (let (changed, mp1) = loadPolicy f mp;
          (kept, senders, stale, mp2) = stale_loop lib isOK f changed (verifiedTxes mp1) (mp1\<lparr>fees := Map.empty\<rparr>) in
      (remdups senders, mp2\<lparr>verifiedTxes := kept, resent := resent mp2 @ stale\<rparr>))"

section \<open>Refreshing nonces\<close>

text \<open>
  \<open>RefreshNonce\<close> ranges over the map of the sender while removing from it; \<open>order\<close> is the order in
  which the runtime visits the nonces. A nonce that is no longer there is skipped.
\<close>

definition clear_nonces :: "address \<Rightarrow> ('e, 'd) pool \<Rightarrow> ('e, 'd) pool" where
  "clear_nonces a mp = mp\<lparr>dbNonces := (dbNonces mp)(a := 0), pendingNonces := (pendingNonces mp)(a := 0)\<rparr>"

fun drop_gaps :: "'e tx_lib \<Rightarrow> address \<Rightarrow> u64 \<Rightarrow> u64 list \<Rightarrow> ('e, 'd) pool \<Rightarrow> pool_error + ('e, 'd) pool" where
  "drop_gaps lib a dbNonce [] mp = Inr mp"
| "drop_gaps lib a dbNonce (n # ns) mp =
     (case map_of (senderMap mp a) n of
        None \<Rightarrow> drop_gaps lib a dbNonce ns mp
      | Some item \<Rightarrow>
          if n < dbNonce \<or> n > pendingNonces mp a then
            bind_res (removeInternal lib (txn item) mp) (drop_gaps lib a dbNonce ns)
          else drop_gaps lib a dbNonce ns mp)"

definition RefreshNonce :: "'e tx_lib \<Rightarrow> address \<Rightarrow> u64 \<Rightarrow> u64 list \<Rightarrow> ('e, 'd) pool \<Rightarrow> pool_error + ('e, 'd) pool" where
  "RefreshNonce lib a dbNonce order mp =
     (if senderMap mp a = [] then Inr (clear_nonces a mp)
      else let mp1 = mp\<lparr>dbNonces := (dbNonces mp)(a := dbNonce)\<rparr>;
               mp2 = (case first_gap (\<lambda>i. map_of (senderMap mp1 a) i \<noteq> None) dbNonce (pendingNonces mp1 a) of
                        None \<Rightarrow> mp1
                      | Some i \<Rightarrow> mp1\<lparr>pendingNonces := (pendingNonces mp1)(a := i)\<rparr>) in
        bind_res (drop_gaps lib a dbNonce order mp2) (\<lambda>mp3.
          Inr (if senderMap mp3 a = [] then clear_nonces a mp3 else mp3)))"

section \<open>Construction\<close>

definition NewPool :: "nat \<Rightarrow> ('e, 'd) pool" where
  "NewPool cap = \<lparr>verifiedMap = Map.empty, verifiedTxes = [], fees = Map.empty, pendingNonces = (\<lambda>_. 0),
     dbNonces = (\<lambda>_. 0), senderMap = (\<lambda>_. []), capacity = cap, feePerByte = 0, gasPrice = None, resendThreshold = 0,
     subscriptionsOn = False, events = [], resent = []\<rparr>"

definition SetResendThreshold :: "u32 \<Rightarrow> ('e, 'd) pool \<Rightarrow> ('e, 'd) pool" where
  "SetResendThreshold h mp = mp\<lparr>resendThreshold := h\<rparr>"

section \<open>Search\<close>

lemma search_between_bounds:
  "i \<le> j \<Longrightarrow> let k = search_between f i j in i \<le> k \<and> k \<le> j \<and> (k < j \<longrightarrow> f k) \<and> (\<forall>m. k = Suc m \<longrightarrow> i \<le> m \<longrightarrow> \<not> f m)"
proof (induction f i j rule: search_between.induct)
  case (1 f i j)
  show ?case
  proof (cases "i < j")
    case True
    let ?h = "(i + j) div 2"
    have h: "i \<le> ?h" "?h < j" using True by auto
    show ?thesis
    proof (cases "f ?h")
      case f: True
      with 1(2) [OF True refl] h have "let k = search_between f i ?h in
          i \<le> k \<and> k \<le> ?h \<and> (k < ?h \<longrightarrow> f k) \<and> (\<forall>m. k = Suc m \<longrightarrow> i \<le> m \<longrightarrow> \<not> f m)" by simp
      moreover have "search_between f i j = search_between f i ?h"
        using True f by (subst search_between.simps) (simp add: Let_def)
      ultimately show ?thesis using h f by (auto simp: Let_def le_less)
    next
      case f: False
      with 1(1) [OF True refl] h have "let k = search_between f (?h + 1) j in
          ?h + 1 \<le> k \<and> k \<le> j \<and> (k < j \<longrightarrow> f k) \<and> (\<forall>m. k = Suc m \<longrightarrow> ?h + 1 \<le> m \<longrightarrow> \<not> f m)" by simp
      moreover have "search_between f i j = search_between f (?h + 1) j"
        using True f by (subst search_between.simps) (simp add: Let_def)
      ultimately show ?thesis using h f by (auto simp: Let_def) (metis le_antisym not_less_eq_eq)+
    qed
  qed (use 1 in \<open>simp add: search_between.simps\<close>)
qed

lemma sort_Search_bounds:
  "sort_Search n f \<le> n" "sort_Search n f < n \<Longrightarrow> f (sort_Search n f)"
  "sort_Search n f = Suc m \<Longrightarrow> \<not> f m"
  using search_between_bounds [of 0 n f] by (auto simp: sort_Search_def Let_def)

text \<open>On a predicate that is false and then true, the search finds the boundary.\<close>

lemma sort_Search_boundary:
  assumes "k \<le> n" and "\<And>i. i < k \<Longrightarrow> \<not> f i" and "\<And>i. k \<le> i \<Longrightarrow> i < n \<Longrightarrow> f i"
  shows "sort_Search n f = k"
proof (rule ccontr)
  assume "sort_Search n f \<noteq> k"
  then consider "sort_Search n f < k" | m where "sort_Search n f = Suc m" "k \<le> m"
    by (cases "sort_Search n f") force+
  then show False
  proof cases
    case 1
    with assms(1) sort_Search_bounds(2) [of n f] assms(2) show False by auto
  next
    case 2
    with sort_Search_bounds(1) [of n f] sort_Search_bounds(3) [OF 2(1)] assms(3) [of m]
    show False by auto
  qed
qed

text \<open>When only the first position satisfies the predicate, the search misses it.\<close>

lemma sort_Search_misses:
  assumes "2 \<le> n" and "\<And>i. 1 \<le> i \<Longrightarrow> i < n \<Longrightarrow> \<not> f i"
  shows "sort_Search n f = n"
proof -
  have "search_between f 0 n = search_between f (n div 2 + 1) n"
    using assms(1) assms(2) [of "n div 2"] by (subst search_between.simps) (simp add: Let_def)
  moreover have "search_between f (n div 2 + 1) n = n"
  proof -
    have le: "n div 2 + 1 \<le> n" using assms(1) by linarith
    let ?k = "search_between f (n div 2 + 1) n"
    have "n div 2 + 1 \<le> ?k" "?k \<le> n" "?k < n \<longrightarrow> f ?k"
      using search_between_bounds [OF le, of f] by (auto simp: Let_def)
    with assms(2) [of ?k] show ?thesis by linarith
  qed
  ultimately show ?thesis by (simp add: sort_Search_def)
qed

end
