(* ===== verification/MempoolProps.thy ===== *)
theory MempoolProps
  imports Mempool
begin

text \<open>
  What the memory pool guarantees. \<open>pool_ok\<close> relates the sorted list of items, the two maps and the
  recorded fees: every sender can pay for all transactions it has in the pool. The invariant is
  proved for \<open>Add\<close> below capacity without a replacement and for \<open>RemoveStale\<close>. \<open>Add\<close> on a full pool and
  replacing a transaction whose priority others share are the branches in which the code loses items
  or panics; replacing any other transaction leaves the recorded fees too low.
\<close>

section \<open>The invariant\<close>

definition spent :: "'e tx_lib \<Rightarrow> address \<Rightarrow> ('e, 'd) pool_item list \<Rightarrow> int" where
  "spent lib a v = sum_list (map (\<lambda>i. if tx_From (txn i) = a then tx_Cost lib (txn i) else 0) v)"

definition fees_ok :: "'e tx_lib \<Rightarrow> ('e, 'd) pool \<Rightarrow> bool" where
  "fees_ok lib mp \<longleftrightarrow> (\<forall>a. case fees mp a of
       None \<Rightarrow> (\<forall>i \<in> set (verifiedTxes mp). tx_From (txn i) \<noteq> a)
     | Some e \<Rightarrow> feeSum e = spent lib a (verifiedTxes mp) \<and> feeSum e \<le> balance e)"

definition maps_ok :: "'e tx_lib \<Rightarrow> ('e, 'd) pool \<Rightarrow> bool" where
  "maps_ok lib mp \<longleftrightarrow>
     (\<forall>h t. verifiedMap mp h = Some t \<longleftrightarrow> (\<exists>i \<in> set (verifiedTxes mp). txn i = t \<and> tx_Hash lib t = h)) \<and>
     (\<forall>a n i. map_of (senderMap mp a) n = Some i \<longleftrightarrow>
        i \<in> set (verifiedTxes mp) \<and> tx_From (txn i) = a \<and> tx_Nonce lib (txn i) = n)"

definition list_ok :: "'e tx_lib \<Rightarrow> ('e, 'd) pool_item list \<Rightarrow> bool" where
  "list_ok lib v \<longleftrightarrow> sorted_wrt (\<lambda>a b. priority b \<le> priority a) v \<and>
     distinct (map (\<lambda>i. tx_Hash lib (txn i)) v) \<and> (\<forall>i \<in> set v. 0 \<le> tx_Cost lib (txn i))"

definition pool_ok :: "'e tx_lib \<Rightarrow> ('e, 'd) pool \<Rightarrow> bool" where
  "pool_ok lib mp \<longleftrightarrow> list_ok lib (verifiedTxes mp) \<and> maps_ok lib mp \<and> fees_ok lib mp \<and>
     length (verifiedTxes mp) \<le> capacity mp"

lemma pool_ok_New: "pool_ok lib (NewPool cap)"
  by (simp add: pool_ok_def list_ok_def maps_ok_def fees_ok_def NewPool_def)

lemma emit_simps [simp]:
  "verifiedMap (emit e mp) = verifiedMap mp" "verifiedTxes (emit e mp) = verifiedTxes mp"
  "fees (emit e mp) = fees mp" "senderMap (emit e mp) = senderMap mp" "capacity (emit e mp) = capacity mp"
  "pendingNonces (emit e mp) = pendingNonces mp" "dbNonces (emit e mp) = dbNonces mp"
  "feePerByte (emit e mp) = feePerByte mp" "gasPrice (emit e mp) = gasPrice mp"
  "resendThreshold (emit e mp) = resendThreshold mp"
  by (simp_all add: emit_def)

lemma pool_ok_cong:
  assumes "verifiedTxes mp' = verifiedTxes mp" "verifiedMap mp' = verifiedMap mp" "senderMap mp' = senderMap mp"
    "fees mp' = fees mp" "capacity mp' = capacity mp"
  shows "pool_ok lib mp' \<longleftrightarrow> pool_ok lib mp"
  unfolding pool_ok_def maps_ok_def fees_ok_def assms ..

section \<open>Lists of items\<close>

lemma spent_simps [simp]:
  "spent lib a [] = 0"
  "spent lib a (x # v) = (if tx_From (txn x) = a then tx_Cost lib (txn x) else 0) + spent lib a v"
  "spent lib a (u @ v) = spent lib a u + spent lib a v"
  by (simp_all add: spent_def)

lemma spent_foreign: "\<forall>i \<in> set v. tx_From (txn i) \<noteq> a \<Longrightarrow> spent lib a v = 0"
  by (induction v) auto

lemma take_nth_drop:
  assumes "k < length v"
  shows "v = take k v @ v ! k # drop (Suc k) v"
  using assms by (simp add: id_take_nth_drop)

lemma list_ok_distinct: "list_ok lib v \<Longrightarrow> distinct v"
  by (simp add: list_ok_def distinct_map)

lemma list_ok_remove:
  assumes "list_ok lib v" and "k < length v"
  shows "list_ok lib (take k v @ drop (Suc k) v)"
    and "set (take k v @ drop (Suc k) v) = set v - {v ! k}"
proof -
  define a b c where d: "a = take k v" "b = v ! k" "c = drop (Suc k) v"
  have v: "v = a @ b # c" using take_nth_drop [OF assms(2)] by (simp add: d)
  from assms(1) show "list_ok lib (take k v @ drop (Suc k) v)"
    unfolding d(1,3) [symmetric] unfolding v by (auto simp: list_ok_def sorted_wrt_append)
  have "distinct v" using assms(1) by (rule list_ok_distinct)
  then show "set (take k v @ drop (Suc k) v) = set v - {v ! k}"
    unfolding d [symmetric] unfolding v by auto
qed

lemma spent_remove:
  assumes "k < length v"
  shows "spent lib a (take k v @ drop (Suc k) v) =
     spent lib a v - (if tx_From (txn (v ! k)) = a then tx_Cost lib (txn (v ! k)) else 0)"
proof -
  define u b c where d: "u = take k v" "b = v ! k" "c = drop (Suc k) v"
  have v: "v = u @ b # c" using take_nth_drop [OF assms] by (simp add: d)
  show ?thesis unfolding d [symmetric] unfolding v by simp
qed

section \<open>Removal\<close>

lemma item_fee:
  assumes "pool_ok lib mp" and "i \<in> set (verifiedTxes mp)"
  obtains e where "fees mp (tx_From (txn i)) = Some e"
  using assms by (cases "fees mp (tx_From (txn i))") (force simp: pool_ok_def fees_ok_def split: option.splits)+

lemma maps_listed:
  assumes "maps_ok lib mp" and "i \<in> set (verifiedTxes mp)"
  shows "verifiedMap mp (tx_Hash lib (txn i)) = Some (txn i)"
    and "map_of (senderMap mp (tx_From (txn i))) (tx_Nonce lib (txn i)) = Some i"
  using assms by (auto simp: maps_ok_def)

lemma hash_not_listed:
  assumes "maps_ok lib mp" and "\<not> containsKey h mp" and "i \<in> set (verifiedTxes mp)"
  shows "tx_Hash lib (txn i) \<noteq> h"
  using maps_listed(1) [OF assms(1,3)] assms(2) by (auto simp: containsKey_def)

lemma sender_not_listed:
  assumes "maps_ok lib mp" and "map_of (senderMap mp a) n = None" and "i \<in> set (verifiedTxes mp)"
  shows "\<not> (tx_From (txn i) = a \<and> tx_Nonce lib (txn i) = n)"
  using maps_listed(2) [OF assms(1,3)] assms(2) by auto

lemma sender_unique:
  assumes "maps_ok lib mp" and "i \<in> set (verifiedTxes mp)" and "j \<in> set (verifiedTxes mp)"
    and "tx_From (txn i) = tx_From (txn j)" and "tx_Nonce lib (txn i) = tx_Nonce lib (txn j)"
  shows "i = j"
proof -
  have "Some i = Some j"
    using maps_listed(2) [OF assms(1,2)] maps_listed(2) [OF assms(1,3)] unfolding assms(4,5)
    by (rule trans [OF sym])
  then show ?thesis by simp
qed

lemma hash_unique:
  assumes "list_ok lib v" and "i \<in> set v" and "j \<in> set v" and "tx_Hash lib (txn i) = tx_Hash lib (txn j)"
  shows "i = j"
  using assms inj_on_eq_iff [of "\<lambda>i. tx_Hash lib (txn i)" "set v" i j] by (simp add: list_ok_def distinct_map)

lemma maps_remove:
  assumes lo: "list_ok lib (verifiedTxes mp)" and mo: "maps_ok lib mp" and i: "i \<in> set (verifiedTxes mp)"
    and m: "verifiedMap mp' = (verifiedMap mp)(tx_Hash lib (txn i) := None)"
      "senderMap mp' = (senderMap mp)(tx_From (txn i) := AList.delete (tx_Nonce lib (txn i)) (senderMap mp (tx_From (txn i))))"
      "set (verifiedTxes mp') = set (verifiedTxes mp) - {i}"
  shows "maps_ok lib mp'"
  unfolding maps_ok_def m(3)
proof (intro conjI allI)
  fix h t
  show "verifiedMap mp' h = Some t \<longleftrightarrow> (\<exists>j \<in> set (verifiedTxes mp) - {i}. txn j = t \<and> tx_Hash lib t = h)"
    using mo hash_unique [OF lo _ i] i by (auto simp: m(1) maps_ok_def)
next
  fix a n j
  show "map_of (senderMap mp' a) n = Some j \<longleftrightarrow>
      j \<in> set (verifiedTxes mp) - {i} \<and> tx_From (txn j) = a \<and> tx_Nonce lib (txn j) = n"
    using mo sender_unique [OF mo _ i] i by (auto simp: m(2) maps_ok_def delete_conv')
qed

lemma removeItemByIndex_ok:
  assumes ok: "pool_ok lib mp" and k: "k < length (verifiedTxes mp)"
  shows "\<exists>mp'. removeItemByIndex lib k mp = Inr mp' \<and> pool_ok lib mp' \<and>
     verifiedTxes mp' = take k (verifiedTxes mp) @ drop (Suc k) (verifiedTxes mp) \<and>
     capacity mp' = capacity mp \<and>
     fees mp' = (fees mp)(tx_From (txn (verifiedTxes mp ! k)) \<mapsto>
       (the (fees mp (tx_From (txn (verifiedTxes mp ! k)))))\<lparr>feeSum := feeSum (the (fees mp (tx_From (txn (verifiedTxes mp ! k)))))
         - tx_Cost lib (txn (verifiedTxes mp ! k))\<rparr>)"
proof -
  let ?v = "verifiedTxes mp" and ?i = "verifiedTxes mp ! k"
  let ?a = "tx_From (txn ?i)"
  have i: "?i \<in> set ?v" using k by simp
  obtain e where e: "fees mp ?a = Some e" using item_fee [OF ok i] .
  have lo: "list_ok lib ?v" and mo: "maps_ok lib mp" and fo: "fees_ok lib mp"
    using ok by (auto simp: pool_ok_def)
  note sr = list_ok_remove [OF lo k]
  define mp' where "mp' = emit (TransactionRemoved (txn ?i) (item_data ?i))
          (mp\<lparr>verifiedMap := (verifiedMap mp)(tx_Hash lib (txn ?i) := None),
              senderMap := (senderMap mp)(?a := AList.delete (tx_Nonce lib (txn ?i)) (senderMap mp ?a)),
              verifiedTxes := take k ?v @ drop (Suc k) ?v,
              fees := (fees mp)(?a \<mapsto> e\<lparr>feeSum := feeSum e - tx_Cost lib (txn ?i)\<rparr>)\<rparr>)"
  have v': "verifiedTxes mp' = take k ?v @ drop (Suc k) ?v" by (simp add: mp'_def)
  have "maps_ok lib mp'"
    using sr(2) v' by (intro maps_remove [OF lo mo i]) (simp_all add: mp'_def)
  moreover have "fees_ok lib mp'"
  proof -
    have f: "feeSum e = spent lib ?a ?v" "feeSum e \<le> balance e"
      using fo e by (auto simp: fees_ok_def dest!: spec [of _ ?a])
    have "0 \<le> tx_Cost lib (txn ?i)" using lo i by (simp add: list_ok_def)
    then have "case fees mp' b of None \<Rightarrow> \<forall>j \<in> set ?v - {?i}. tx_From (txn j) \<noteq> b
        | Some e' \<Rightarrow> feeSum e' = spent lib b (take k ?v @ drop (Suc k) ?v) \<and> feeSum e' \<le> balance e'" for b
      using f fo [unfolded fees_ok_def, rule_format, of b]
      by (cases "b = ?a") (auto simp: mp'_def spent_remove [OF k] simp del: spent_simps(3) split: option.splits)
    then show ?thesis unfolding fees_ok_def v' sr(2) by blast
  qed
  moreover have "list_ok lib (verifiedTxes mp')" "length (verifiedTxes mp') \<le> capacity mp'"
    using sr(1) v' ok by (auto simp: mp'_def pool_ok_def)
  ultimately have "pool_ok lib mp'" by (simp add: pool_ok_def)
  moreover have "removeItemByIndex lib k mp = Inr mp'"
    using k e by (simp add: removeItemByIndex_def mp'_def Let_def)
  ultimately show ?thesis using v' e by (intro exI [of _ mp']) (simp add: mp'_def)
qed

lemma last_match_none: "\<forall>x \<in> set xs. tx_Hash lib (txn x) \<noteq> h \<Longrightarrow> last_match lib h i xs t = t"
  by (induction xs arbitrary: i t) auto

text \<open>An item that shares its priority with no other one is found by the search.\<close>

lemma removeInternal_index:
  assumes lo: "list_ok lib (verifiedTxes mp)" and mo: "maps_ok lib mp" and k: "k < length (verifiedTxes mp)"
    and alone: "\<forall>x \<in> set (verifiedTxes mp). priority x = priority (verifiedTxes mp ! k) \<longrightarrow> x = verifiedTxes mp ! k"
  shows "removeInternal lib (txn (verifiedTxes mp ! k)) mp = removeItemByIndex lib k mp"
proof -
  let ?v = "verifiedTxes mp" and ?i = "verifiedTxes mp ! k"
  have found: "map_of (senderMap mp (tx_From (txn ?i))) (tx_Nonce lib (txn ?i)) = Some ?i"
    using mo k by (simp add: maps_ok_def)
  have srt: "priority (?v ! n) \<le> priority (?v ! m)" if "m < n" "n < length ?v" for m n
    using lo that by (simp add: list_ok_def sorted_wrt_iff_nth_less)
  have ne: "priority (?v ! n) \<noteq> priority ?i" if "n < length ?v" "n \<noteq> k" for n
    using alone that k list_ok_distinct [OF lo] by (auto simp: nth_eq_iff_index_eq)
  have "sort_Search (length ?v) (\<lambda>n. CompareTo lib ?i (?v ! n) \<ge> 0) = k"
  proof (rule sort_Search_boundary)
    fix n assume "n < k"
    with srt [of n k] ne [of n] k show "\<not> CompareTo lib ?i (?v ! n) \<ge> 0" by (simp add: CompareTo_def int_Cmp_def)
  next
    fix n assume "k \<le> n" "n < length ?v"
    with srt [of k n] ne [of n] k show "CompareTo lib ?i (?v ! n) \<ge> 0"
      by (cases "n = k") (simp_all add: CompareTo_def int_Cmp_def)
  qed (use k in simp)
  moreover have "last_match lib (tx_Hash lib (txn ?i)) k (drop k ?v) k = k"
  proof -
    have "drop k ?v = ?i # drop (Suc k) ?v" using k by (simp add: Cons_nth_drop_Suc)
    moreover have "\<forall>x \<in> set (drop (Suc k) ?v). tx_Hash lib (txn x) \<noteq> tx_Hash lib (txn ?i)"
    proof -
      have "distinct (map (\<lambda>i. tx_Hash lib (txn i)) (drop k ?v))"
        using lo by (simp add: list_ok_def distinct_drop flip: drop_map)
      then show ?thesis unfolding calculation by simp (metis image_eqI)
    qed
    ultimately show ?thesis by (simp add: last_match_none)
  qed
  ultimately show ?thesis using found by (simp add: removeInternal_def)
qed

section \<open>Insertion below capacity\<close>

lemma place_item_end:
  assumes "n \<le> length v"
  shows "place_item n x (v @ [x]) = Inr (take n v @ x # drop n v)"
proof (cases "n = length v")
  case False
  with assms have n: "n < length v" by simp
  have "(copy_at (n + 1) (drop n (v @ [x])) (v @ [x]))[n := x] = take n v @ x # drop n v"
  proof (rule nth_equalityI)
    show "length ((copy_at (n + 1) (drop n (v @ [x])) (v @ [x]))[n := x]) = length (take n v @ x # drop n v)"
      using n by simp
    fix i assume "i < length ((copy_at (n + 1) (drop n (v @ [x])) (v @ [x]))[n := x])"
    then have i: "i < Suc (length v)" using n by simp
    then show "(copy_at (n + 1) (drop n (v @ [x])) (v @ [x]))[n := x] ! i = (take n v @ x # drop n v) ! i"
      using n by (auto simp: copy_at_def nth_list_update nth_append nth_Cons' less_Suc_eq)
  qed
  then show ?thesis using n by (simp add: place_item_def)
qed (simp add: place_item_def)

lemma sorted_insert:
  assumes "sorted_wrt (\<lambda>a b. priority b \<le> priority a) v" and "n \<le> length v"
    and "n < length v \<Longrightarrow> priority (v ! n) \<le> priority x"
    and "\<And>m. n = Suc m \<Longrightarrow> priority x \<le> priority (v ! m)"
  shows "sorted_wrt (\<lambda>a b. priority b \<le> priority a) (take n v @ x # drop n v)"
proof -
  have "priority y \<le> priority x" if y: "y \<in> set (drop n v)" for y
  proof -
    from y obtain k where "k < length (drop n v)" "y = drop n v ! k" by (auto simp: in_set_conv_nth)
    then have k: "n + k < length v" "y = v ! (n + k)" by auto
    have "priority (v ! (n + k)) \<le> priority (v ! n)"
      using assms(1) k by (cases k) (auto simp: sorted_wrt_iff_nth_less)
    with assms(3) k show ?thesis by auto
  qed
  moreover have "priority x \<le> priority y" if y: "y \<in> set (take n v)" for y
  proof -
    from y obtain k where k: "k < n" "y = v ! k" "k < length v" by (auto simp: in_set_conv_nth)
    then obtain m where m: "n = Suc m" "k \<le> m" by (cases n) auto
    have "priority (v ! m) \<le> priority (v ! k)"
      using assms(1,2) k m by (cases "k = m") (auto simp: sorted_wrt_iff_nth_less)
    with assms(4) [OF m(1)] k show ?thesis by simp
  qed
  ultimately show ?thesis
    using assms(1) by (auto simp: sorted_wrt_append sorted_wrt_take sorted_wrt_drop intro: order_trans)
qed

lemma CompareTo_priority:
  "CompareTo lib x y > 0 \<Longrightarrow> priority y \<le> priority x"
  "\<not> CompareTo lib x y > 0 \<Longrightarrow> priority x \<le> priority y"
  by (auto simp: CompareTo_def int_Cmp_def Let_def split: if_splits)

lemma insert_item_ok:
  assumes "list_ok lib (verifiedTxes mp)" and "length (verifiedTxes mp) < capacity mp"
    and "\<forall>i \<in> set (verifiedTxes mp). tx_Hash lib (txn i) \<noteq> tx_Hash lib (txn x)" and "0 \<le> tx_Cost lib (txn x)"
  shows "\<exists>n \<le> length (verifiedTxes mp).
     insert_item lib x mp = Inr (mp\<lparr>verifiedTxes := take n (verifiedTxes mp) @ x # drop n (verifiedTxes mp)\<rparr>) \<and>
     list_ok lib (take n (verifiedTxes mp) @ x # drop n (verifiedTxes mp))"
proof -
  let ?v = "verifiedTxes mp"
  define n where "n = sort_Search (length ?v) (\<lambda>n. CompareTo lib x (?v ! n) > 0)"
  have le: "n \<le> length ?v" by (simp add: n_def sort_Search_bounds)
  have "insert_item lib x mp = Inr (mp\<lparr>verifiedTxes := take n ?v @ x # drop n ?v\<rparr>)"
    using assms(2) place_item_end [OF le] by (simp add: insert_item_def Let_def flip: n_def)
  moreover have "sorted_wrt (\<lambda>a b. priority b \<le> priority a) (take n ?v @ x # drop n ?v)"
  proof (rule sorted_insert [OF _ le])
    show "sorted_wrt (\<lambda>a b. priority b \<le> priority a) ?v" using assms(1) by (simp add: list_ok_def)
    have "n < length ?v \<Longrightarrow> CompareTo lib x (?v ! n) > 0" unfolding n_def by (rule sort_Search_bounds(2))
    then show "n < length ?v \<Longrightarrow> priority (?v ! n) \<le> priority x" by (blast intro: CompareTo_priority)
    have "n = Suc m \<Longrightarrow> \<not> CompareTo lib x (?v ! m) > 0" for m unfolding n_def by (rule sort_Search_bounds(3))
    then show "\<And>m. n = Suc m \<Longrightarrow> priority x \<le> priority (?v ! m)" by (blast intro: CompareTo_priority)
  qed
  moreover have "distinct (map (\<lambda>i. tx_Hash lib (txn i)) (take n ?v @ x # drop n ?v))"
  proof -
    have "distinct (map (\<lambda>i. tx_Hash lib (txn i)) (take n ?v @ drop n ?v))" using assms(1) by (simp add: list_ok_def)
    moreover have "set (take n ?v) \<union> set (drop n ?v) = set ?v" by (metis append_take_drop_id set_append)
    ultimately show ?thesis using assms(3) by (auto simp del: append_take_drop_id)
  qed
  moreover have "\<forall>i \<in> set (take n ?v @ x # drop n ?v). 0 \<le> tx_Cost lib (txn i)"
    using assms(1,4) by (auto simp: list_ok_def dest: in_set_takeD in_set_dropD)
  ultimately show ?thesis using le by (auto simp: list_ok_def)
qed

lemma set_insert_at: "set (take n v @ x # drop n v) = insert x (set v)"
  by (metis append_take_drop_id list.simps(15) set_append Un_insert_right)

lemma spent_insert_at:
  "spent lib a (take n v @ x # drop n v) = (if tx_From (txn x) = a then tx_Cost lib (txn x) else 0) + spent lib a v"
proof -
  have "spent lib a v = spent lib a (take n v) + spent lib a (drop n v)"
    using spent_simps(3) [of lib a "take n v" "drop n v"] by simp
  then show ?thesis by simp
qed

section \<open>Adding a transaction that replaces none\<close>

lemma Add_fresh:
  assumes ok: "pool_ok lib mp" and room: "length (verifiedTxes mp) < capacity mp"
    and new: "\<not> containsKey (tx_Hash lib t) mp" and none: "map_of (senderMap mp (tx_From t)) (tx_Nonce lib t) = None"
    and x: "txn x = t" and cost: "0 \<le> tx_Cost lib t"
    and pay: "tx_Cost lib t + feeSum (fee_entry f (tx_From t) mp) \<le> balance (fee_entry f (tx_From t) mp)"
    and ins: "insert_item lib x mp = Inr mp2"
    and mp3: "mp3 = mp2\<lparr>verifiedMap := (verifiedMap mp2)(tx_Hash lib t \<mapsto> t),
        senderMap := (senderMap mp2)(tx_From t := AList.update (tx_Nonce lib t) x (senderMap mp2 (tx_From t))),
        pendingNonces := pn\<rparr>"
  shows "pool_ok lib (snd (tryAddSendersFee lib t f False mp3)) \<and>
     set (verifiedTxes (snd (tryAddSendersFee lib t f False mp3))) = insert x (set (verifiedTxes mp))"
proof -
  let ?v = "verifiedTxes mp" and ?a = "tx_From t"
  have lo: "list_ok lib ?v" and mo: "maps_ok lib mp" and fo: "fees_ok lib mp" using ok by (auto simp: pool_ok_def)
  have hashes: "\<forall>i \<in> set ?v. tx_Hash lib (txn i) \<noteq> tx_Hash lib (txn x)"
    using hash_not_listed [OF mo new] x by auto
  obtain n where n: "n \<le> length ?v" "mp2 = mp\<lparr>verifiedTxes := take n ?v @ x # drop n ?v\<rparr>"
      "list_ok lib (take n ?v @ x # drop n ?v)"
    using insert_item_ok [OF lo room hashes] cost x ins by auto
  have foreign: "\<not> (tx_From (txn j) = ?a \<and> tx_Nonce lib (txn j) = tx_Nonce lib t)" if "j \<in> set ?v" for j
    using sender_not_listed [OF mo none that] .
  define mp4 where "mp4 = snd (tryAddSendersFee lib t f False mp3)"
  let ?e = "fee_entry f ?a mp"
  have fe: "fee_entry f ?a mp3 = ?e" by (simp add: fee_entry_def mp3 n(2))
  have v4: "verifiedTxes mp4 = take n ?v @ x # drop n ?v" "capacity mp4 = capacity mp"
      "verifiedMap mp4 = (verifiedMap mp)(tx_Hash lib t \<mapsto> t)"
      "senderMap mp4 = (senderMap mp)(?a := AList.update (tx_Nonce lib t) x (senderMap mp ?a))"
      "fees mp4 = (fees mp)(?a \<mapsto> ?e\<lparr>feeSum := feeSum ?e + tx_Cost lib t\<rparr>)"
    unfolding mp4_def tryAddSendersFee_def Let_def fe by (simp_all add: mp3 n(2))
  have "maps_ok lib mp4"
    unfolding maps_ok_def v4(1) set_insert_at
  proof (intro conjI allI)
    fix h t'
    show "verifiedMap mp4 h = Some t' \<longleftrightarrow> (\<exists>i \<in> insert x (set ?v). txn i = t' \<and> tx_Hash lib t' = h)"
      using mo x hashes by (auto simp: v4 maps_ok_def)
  next
    fix b m j
    show "map_of (senderMap mp4 b) m = Some j \<longleftrightarrow>
        j \<in> insert x (set ?v) \<and> tx_From (txn j) = b \<and> tx_Nonce lib (txn j) = m"
      using mo x foreign by (auto simp: v4 maps_ok_def update_conv')
  qed
  moreover have "fees_ok lib mp4"
  proof -
    have "feeSum ?e = spent lib ?a ?v"
      using fo [unfolded fees_ok_def, rule_format, of ?a]
      by (auto simp: fee_entry_def spent_foreign split: option.splits)
    then have "case fees mp4 b of None \<Rightarrow> \<forall>i \<in> insert x (set ?v). tx_From (txn i) \<noteq> b
        | Some e' \<Rightarrow> feeSum e' = spent lib b (take n ?v @ x # drop n ?v) \<and> feeSum e' \<le> balance e'" for b
      using pay x fo [unfolded fees_ok_def, rule_format, of b]
      by (cases "b = ?a") (auto simp: v4 spent_insert_at simp del: spent_simps(3) split: option.splits)
    then show ?thesis unfolding fees_ok_def v4(1) set_insert_at by blast
  qed
  moreover have "length (verifiedTxes mp4) \<le> capacity mp4" using room n(1) by (simp add: v4)
  ultimately have "pool_ok lib mp4" using n(3) by (simp add: pool_ok_def v4(1))
  then show ?thesis unfolding mp4_def [symmetric] v4(1) set_insert_at by simp
qed

lemma checkBalance_None:
  assumes "snd (checkBalance lib t b) = None"
  shows "tx_Cost lib t + feeSum b \<le> balance b"
  using assms by (auto simp: checkBalance_def Let_def split: if_splits)

lemma checkBalance_error: "snd (checkBalance lib t b) = Some e \<Longrightarrow> e = ErrInsufficientFunds \<or> e = ErrConflict"
  by (auto simp: checkBalance_def Let_def split: if_splits)

text \<open>The last steps of \<open>Add\<close>, from a pool in which nothing is in the way of the transaction.\<close>

lemma Add_finish:
  assumes "pool_ok lib mp" and "length (verifiedTxes mp) < capacity mp"
    and "\<not> containsKey (tx_Hash lib t) mp" and "map_of (senderMap mp (tx_From t)) (tx_Nonce lib t) = None"
    and "0 \<le> tx_Cost lib t"
    and "tx_Cost lib t + feeSum (fee_entry f (tx_From t) mp) \<le> balance (fee_entry f (tx_From t) mp)"
    and "txn p = t"
  shows "\<exists>mp'. (let item = capped lib p mp in
       bind_res (insert_item lib item mp) (\<lambda>mp2.
         let mp3 = mp2\<lparr>verifiedMap := (verifiedMap mp2)(tx_Hash lib t \<mapsto> t),
                       senderMap := (senderMap mp2)(tx_From t := AList.update (tx_Nonce lib t) item (senderMap mp2 (tx_From t)))\<rparr>;
             mp4 = (if c then mp3\<lparr>pendingNonces := (pendingNonces mp3)(tx_From t := tx_Nonce lib t + 1)\<rparr> else mp3) in
         Inr (emit (TransactionAdded t dat) (snd (tryAddSendersFee lib t f False mp4))))) = Inr mp' \<and>
     pool_ok lib mp' \<and> set (GetVerifiedTransactions mp') = insert t (set (GetVerifiedTransactions mp))"
proof -
  define item where "item = capped lib p mp"
  have x: "txn item = t" using assms(7) by (auto simp: item_def capped_def split: option.splits)
  have lo: "list_ok lib (verifiedTxes mp)" and mo: "maps_ok lib mp" using assms(1) by (auto simp: pool_ok_def)
  have hashes: "\<forall>i \<in> set (verifiedTxes mp). tx_Hash lib (txn i) \<noteq> tx_Hash lib (txn item)"
    using hash_not_listed [OF mo assms(3)] x by auto
  obtain mp2 where ins: "insert_item lib item mp = Inr mp2"
    using insert_item_ok [OF lo assms(2) hashes] assms(5) x by auto
  define pn where "pn = (if c then (pendingNonces mp2)(tx_From t := tx_Nonce lib t + 1) else pendingNonces mp2)"
  define mp3 where "mp3 = mp2\<lparr>verifiedMap := (verifiedMap mp2)(tx_Hash lib t \<mapsto> t),
        senderMap := (senderMap mp2)(tx_From t := AList.update (tx_Nonce lib t) item (senderMap mp2 (tx_From t))),
        pendingNonces := pn\<rparr>"
  have ok: "pool_ok lib (snd (tryAddSendersFee lib t f False mp3))"
      "set (verifiedTxes (snd (tryAddSendersFee lib t f False mp3))) = insert item (set (verifiedTxes mp))"
    using Add_fresh [OF assms(1-4) x assms(5,6) ins mp3_def] by auto
  let ?r = "emit (TransactionAdded t dat) (snd (tryAddSendersFee lib t f False mp3))"
  have "pool_ok lib ?r" using ok(1) by (subst pool_ok_cong) simp_all
  moreover have "set (GetVerifiedTransactions ?r) = insert t (set (GetVerifiedTransactions mp))"
    using ok(2) x by (auto simp: GetVerifiedTransactions_def)
  moreover have "(let mp3' = mp2\<lparr>verifiedMap := (verifiedMap mp2)(tx_Hash lib t \<mapsto> t),
                       senderMap := (senderMap mp2)(tx_From t := AList.update (tx_Nonce lib t) item (senderMap mp2 (tx_From t)))\<rparr>
       in if c then mp3'\<lparr>pendingNonces := (pendingNonces mp3')(tx_From t := tx_Nonce lib t + 1)\<rparr> else mp3') = mp3"
    by (simp add: mp3_def pn_def)
  ultimately show ?thesis using ins by (simp add: Let_def flip: item_def)
qed

section \<open>Removing stale transactions\<close>

text \<open>The fees while the list is rebuilt: balances are fresh and sums are those of the items kept so far.\<close>

definition fresh_fees :: "'e tx_lib \<Rightarrow> feer \<Rightarrow> ('e, 'd) pool_item list \<Rightarrow> ('e, 'd) pool \<Rightarrow> bool" where
  "fresh_fees lib f v mp \<longleftrightarrow> (\<forall>a. case fees mp a of
       None \<Rightarrow> (\<forall>i \<in> set v. tx_From (txn i) \<noteq> a)
     | Some e \<Rightarrow> balance e = GetUtilityTokenBalance f a \<and> feeSum e = spent lib a v \<and> feeSum e \<le> balance e)"

lemma fresh_entry:
  assumes "fresh_fees lib f v mp" and "0 \<le> GetUtilityTokenBalance f a"
  shows "balance (fee_entry f a mp) = GetUtilityTokenBalance f a" and "feeSum (fee_entry f a mp) = spent lib a v"
    and "spent lib a v \<le> GetUtilityTokenBalance f a"
  using assms(1) [unfolded fresh_fees_def, rule_format, of a] assms(2)
  by (auto simp: fee_entry_def spent_foreign split: option.splits)

lemma fresh_fees_cong: "fees mp' = fees mp \<Longrightarrow> fresh_fees lib f v mp' \<longleftrightarrow> fresh_fees lib f v mp"
  by (simp add: fresh_fees_def)

lemma tryAddSendersFee_True:
  assumes "fresh_fees lib f v mp" and pos: "\<And>a. 0 \<le> GetUtilityTokenBalance f a"
    and "tryAddSendersFee lib (txn x) f True mp = (ok, mp')"
  shows "fresh_fees lib f (if ok then v @ [x] else v) mp'"
    and "mp' = mp\<lparr>fees := fees mp'\<rparr>"
proof -
  let ?a = "tx_From (txn x)" and ?e = "fee_entry f (tx_From (txn x)) mp"
  note e = fresh_entry [OF assms(1) pos]
  have "ok \<longleftrightarrow> snd (checkBalance lib (txn x) ?e) = None"
    and fm: "fees mp' = (fees mp)(?a \<mapsto> if ok then ?e\<lparr>feeSum := tx_Cost lib (txn x) + feeSum ?e\<rparr> else ?e)"
    and mp': "mp' = mp\<lparr>fees := fees mp'\<rparr>"
    using assms(3) by (auto simp: tryAddSendersFee_def checkBalance_def Let_def split: if_splits)
  then have pay: "ok \<Longrightarrow> tx_Cost lib (txn x) + feeSum ?e \<le> balance ?e" by (simp add: checkBalance_None)
  show "fresh_fees lib f (if ok then v @ [x] else v) mp'"
    unfolding fresh_fees_def
  proof
    fix a
    show "case fees mp' a of None \<Rightarrow> \<forall>i \<in> set (if ok then v @ [x] else v). tx_From (txn i) \<noteq> a
      | Some e' \<Rightarrow> balance e' = GetUtilityTokenBalance f a \<and>
          feeSum e' = spent lib a (if ok then v @ [x] else v) \<and> feeSum e' \<le> balance e'"
      using pay e [of ?a] assms(1) [unfolded fresh_fees_def, rule_format, of a]
      by (cases "a = ?a") (auto simp: fm split: option.splits)
  qed
  show "mp' = mp\<lparr>fees := fees mp'\<rparr>" by (rule mp')
qed

lemma subseq_list_ok:
  assumes "list_ok lib v" and "subseq u v"
  shows "list_ok lib u"
proof -
  obtain I where u: "u = nths v I" using assms(2) by (auto simp: subseq_conv_nths)
  have "sorted_wrt (\<lambda>a b. priority b \<le> priority a) v" using assms(1) by (simp add: list_ok_def)
  then have "sorted_wrt (\<lambda>a b. priority b \<le> priority a) u"
    unfolding u by (induction v arbitrary: I) (auto simp: nths_Cons dest: in_set_nthsD)
  moreover have "distinct (map (\<lambda>i. tx_Hash lib (txn i)) u)"
    using assms(1) by (simp add: list_ok_def u distinct_nthsI flip: nths_map)
  moreover have "set u \<subseteq> set v" by (simp add: u set_nths_subset)
  ultimately show ?thesis using assms(1) by (auto simp: list_ok_def)
qed

lemma maps_ok_fees: "mp' = mp\<lparr>fees := fs\<rparr> \<Longrightarrow> maps_ok lib (mp'\<lparr>verifiedTxes := v\<rparr>) = maps_ok lib (mp\<lparr>verifiedTxes := v\<rparr>)"
  by (simp add: maps_ok_def)

lemma stale_loop_inv:
  assumes "list_ok lib (pre @ itms)" and "maps_ok lib (mp\<lparr>verifiedTxes := pre @ itms\<rparr>)"
    and "fresh_fees lib f pre mp" and "\<forall>a. 0 \<le> GetUtilityTokenBalance f a"
    and "stale_loop lib isOK f changed itms mp = (kept, senders, stale, mp')"
  shows "maps_ok lib (mp'\<lparr>verifiedTxes := pre @ kept\<rparr>) \<and> fresh_fees lib f (pre @ kept) mp' \<and> subseq kept itms \<and>
     (\<forall>i \<in> set kept. isOK (txn i)) \<and> (\<forall>i \<in> set itms - set kept. tx_From (txn i) \<in> set senders) \<and> capacity mp' = capacity mp"
  using assms
proof (induction lib isOK f changed itms mp arbitrary: pre kept senders stale mp' rule: stale_loop.induct)
  case (1 lib isOK f changed mp)
  then show ?case by auto
next
  case (2 lib isOK f changed itm itms mp)
  obtain ok mp1 where t: "(if isOK (txn itm) \<and> checkPolicy lib (txn itm) changed mp
      then tryAddSendersFee lib (txn itm) f True mp else (False, mp)) = (ok, mp1)" by fastforce
  have pos: "\<And>a. 0 \<le> GetUtilityTokenBalance f a" using 2(6) by simp
  have ff: "fresh_fees lib f (if ok then pre @ [itm] else pre) mp1" and mp1: "mp1 = mp\<lparr>fees := fees mp1\<rparr>"
    using t tryAddSendersFee_True [OF 2(5) pos, of itm ok mp1] 2(5) by (auto split: if_splits)
  have okOK: "ok \<Longrightarrow> isOK (txn itm)" using t by (auto split: if_splits)
  show ?case
  proof (cases ok)
    case True
    obtain kept1 senders1 stale1 where r: "stale_loop lib isOK f changed itms mp1 = (kept1, senders1, stale1, mp')"
        "kept = itm # kept1" "senders = senders1"
      using 2(7) t True by (auto simp: Let_def split: prod.splits)
    have "maps_ok lib (mp'\<lparr>verifiedTxes := (pre @ [itm]) @ kept1\<rparr>) \<and> fresh_fees lib f ((pre @ [itm]) @ kept1) mp' \<and>
        subseq kept1 itms \<and> (\<forall>i \<in> set kept1. isOK (txn i)) \<and>
        (\<forall>i \<in> set itms - set kept1. tx_From (txn i) \<in> set senders1) \<and> capacity mp' = capacity mp1"
    proof (rule 2(1) [OF t [symmetric] refl True _ _ _ 2(6) r(1)])
      show "list_ok lib ((pre @ [itm]) @ itms)" using 2(3) by simp
      show "maps_ok lib (mp1\<lparr>verifiedTxes := (pre @ [itm]) @ itms\<rparr>)" using 2(4) maps_ok_fees [OF mp1] by simp
      show "fresh_fees lib f (pre @ [itm]) mp1" using ff True by simp
    qed
    moreover have "capacity mp1 = capacity mp" by (subst mp1) simp
    ultimately show ?thesis using r okOK [OF True] by auto
  next
    case False
    define mp2 where "mp2 = emit (TransactionRemoved (txn itm) (item_data itm))
              (mp1\<lparr>verifiedMap := (verifiedMap mp1)(tx_Hash lib (txn itm) := None),
                   senderMap := (senderMap mp1)(tx_From (txn itm) :=
                     AList.delete (tx_Nonce lib (txn itm)) (senderMap mp1 (tx_From (txn itm))))\<rparr>)"
    obtain senders1 where r: "stale_loop lib isOK f changed itms mp2 = (kept, senders1, stale, mp')"
        "senders = tx_From (txn itm) # senders1"
      using 2(7) t False by (auto simp: Let_def mp2_def split: prod.splits)
    have mo: "maps_ok lib (mp1\<lparr>verifiedTxes := pre @ itm # itms\<rparr>)" using 2(4) maps_ok_fees [OF mp1] by simp
    have lo: "list_ok lib (pre @ itm # itms)" using 2(3) .
    have "itm \<notin> set pre \<union> set itms" using list_ok_distinct [OF lo] by auto
    then have m2: "maps_ok lib (mp2\<lparr>verifiedTxes := pre @ itms\<rparr>)"
      using lo by (intro maps_remove [OF _ mo, of itm]) (auto simp: mp2_def)
    have l2: "list_ok lib (pre @ itms)" by (rule subseq_list_ok [OF lo]) (auto simp: subseq_append')
    have f2: "fresh_fees lib f pre mp2" using ff False by (subst fresh_fees_cong [of _ mp1]) (simp_all add: mp2_def)
    have "maps_ok lib (mp'\<lparr>verifiedTxes := pre @ kept\<rparr>) \<and> fresh_fees lib f (pre @ kept) mp' \<and>
        subseq kept itms \<and> (\<forall>i \<in> set kept. isOK (txn i)) \<and>
        (\<forall>i \<in> set itms - set kept. tx_From (txn i) \<in> set senders1) \<and> capacity mp' = capacity mp2"
      by (rule 2(2) [OF t [symmetric] refl False refl mp2_def l2 m2 f2 2(6) r(1)])
    moreover have "capacity mp2 = capacity mp" by (simp add: mp2_def) (subst mp1, simp)
    ultimately show ?thesis using r by auto
  qed
qed

lemma Add_ok:
  assumes ok: "pool_ok lib mp" and room: "length (verifiedTxes mp) < capacity mp" and cost: "0 \<le> tx_Cost lib t"
    and none: "map_of (senderMap mp (tx_From t)) (tx_Nonce lib t) = None"
  shows "case Add lib t f dat mp of
     (Some e, mp') \<Rightarrow> e \<in> {ErrDup, ErrInsufficientFunds, ErrConflict} \<and> mp' = mp
   | (None, mp') \<Rightarrow> pool_ok lib mp' \<and> \<not> containsKey (tx_Hash lib t) mp \<and>
       set (GetVerifiedTransactions mp') = insert t (set (GetVerifiedTransactions mp))"
proof (cases "containsKey (tx_Hash lib t) mp")
  case True
  then show ?thesis by (simp add: Add_def)
next
  case new: False
  let ?e = "fee_entry f (tx_From t) mp"
  have c: "checkTxConflicts lib t f mp = (None, snd (checkBalance lib t ?e), mp)"
    using none by (simp add: checkTxConflicts_def)
  show ?thesis
  proof (cases "snd (checkBalance lib t ?e)")
    case (Some e)
    then show ?thesis using new c checkBalance_error [OF Some] by (auto simp: Add_def)
  next
    case None
    then have pay: "tx_Cost lib t + feeSum ?e \<le> balance ?e" by (rule checkBalance_None)
    show ?thesis
      unfolding Add_def Let_def [of "tx_From t"] using new c None
        Add_finish [OF ok room new none cost pay, of "\<lparr>txn = t, blockStamp = BlockHeight f, item_data = dat, priority = tx_GasPrice lib t\<rparr>" True dat]
      by (auto simp: Let_def remove_conflict_def)
  qed
qed

section \<open>Replacing a transaction\<close>

lemma Add_replaces:
  assumes ok: "pool_ok lib mp" and room: "length (verifiedTxes mp) < capacity mp" and cost: "0 \<le> tx_Cost lib t"
    and new: "\<not> containsKey (tx_Hash lib t) mp"
    and old: "map_of (senderMap mp (tx_From t)) (tx_Nonce lib t) = Some it" "tx_GasPrice lib (txn it) < tx_GasPrice lib t"
    and alone: "\<And>x. x \<in> set (verifiedTxes mp) \<Longrightarrow> priority x = priority it \<Longrightarrow> x = it"
    and pay: "fees mp (tx_From t) = Some e" "tx_Cost lib t \<le> balance e"
      "tx_Cost lib t + feeSum e - tx_Cost lib (txn it) \<le> balance e"
    and words: "\<not> removal_underflows (feeSum e) (tx_Cost lib (txn it))"
  shows "\<exists>mp' e'. Add lib t f dat mp = (None, mp') \<and>
     set (GetVerifiedTransactions mp') =
       insert t {c \<in> set (GetVerifiedTransactions mp). \<not> (tx_From c = tx_From t \<and> tx_Nonce lib c = tx_Nonce lib t)} \<and>
     fees mp' (tx_From t) = Some e' \<and> feeSum e' = spent lib (tx_From t) (verifiedTxes mp') - tx_Cost lib (txn it)"
proof -
  let ?a = "tx_From t" and ?n = "tx_Nonce lib t" and ?c = "tx_Cost lib (txn it)" and ?v = "verifiedTxes mp"
  have lo: "list_ok lib ?v" and mo: "maps_ok lib mp" and fo: "fees_ok lib mp" using ok by (auto simp: pool_ok_def)
  have it: "it \<in> set ?v" "tx_From (txn it) = ?a" "tx_Nonce lib (txn it) = ?n" using old(1) mo by (auto simp: maps_ok_def)
  obtain k where k: "k < length ?v" "?v ! k = it" using it(1) by (auto simp: in_set_conv_nth)
  have sum: "feeSum e = spent lib ?a ?v" using fo pay(1) by (auto simp: fees_ok_def dest!: spec [of _ ?a])
  let ?w = "take k ?v @ drop (Suc k) ?v"
  have left: "spent lib ?a ?w = feeSum e - ?c"
    using spent_remove [OF k(1), of lib ?a] it(2) k(2) sum by (simp del: spent_simps(3))
  have "0 \<le> tx_Cost lib (txn i)" if "i \<in> set ?w" for i
    using lo that by (auto simp: list_ok_def dest: in_set_takeD in_set_dropD)
  then have "0 \<le> spent lib ?a ?w" unfolding spent_def by (intro sum_list_nonneg) auto
  moreover have "0 \<le> ?c" using lo it(1) by (simp add: list_ok_def)
  ultimately have sh: "shared_sum (feeSum e) ?c = feeSum e - ?c" using left by (simp add: shared_sum_def)
  define mp0 where "mp0 = mp\<lparr>fees := (fees mp)(?a \<mapsto> e\<lparr>feeSum := feeSum e - ?c\<rparr>)\<rparr>"
  have c: "checkTxConflicts lib t f mp = (Some (txn it), None, mp0)"
    using old pay sh by (simp add: checkTxConflicts_def checkBalance_def fee_entry_def share_sum_def mp0_def Let_def)
  have mo0: "maps_ok lib mp0" using mo by (simp add: maps_ok_def mp0_def)
  have "removeInternal lib (txn it) mp0 = removeItemByIndex lib k mp0"
    using removeInternal_index [of lib mp0 k] lo mo0 k alone by (auto simp: mp0_def)
  then obtain mp1 where r: "removeInternal lib (txn it) mp0 = Inr mp1" "verifiedTxes mp1 = ?w" "capacity mp1 = capacity mp"
      "fees mp1 ?a = Some (e\<lparr>feeSum := feeSum e - ?c - ?c\<rparr>)"
    using k it(2) by (simp add: removeItemByIndex_def mp0_def Let_def)
  have lo1: "list_ok lib ?w" and set1: "set ?w = set ?v - {it}" using list_ok_remove [OF lo k(1)] k(2) by simp_all
  define item where "item = capped lib \<lparr>txn = t, blockStamp = BlockHeight f, item_data = dat, priority = tx_GasPrice lib t\<rparr> mp1"
  have x: "txn item = t" by (auto simp: item_def capped_def split: option.splits)
  have "\<forall>i \<in> set ?w. tx_Hash lib (txn i) \<noteq> tx_Hash lib (txn item)"
    using hash_not_listed [OF mo new] set1 x by auto
  moreover have "length ?w < capacity mp1" "0 \<le> tx_Cost lib (txn item)" using room k(1) r(3) cost x by simp_all
  ultimately obtain n where ins: "insert_item lib item mp1 = Inr (mp1\<lparr>verifiedTxes := take n ?w @ item # drop n ?w\<rparr>)"
    using insert_item_ok [of lib mp1 item, unfolded r(2)] lo1 by blast
  obtain mp' where mp': "Add lib t f dat mp = (None, mp')" "verifiedTxes mp' = take n ?w @ item # drop n ?w"
      "fees mp' ?a = Some (e\<lparr>feeSum := feeSum e - ?c - ?c + tx_Cost lib t\<rparr>)"
    using new c r words pay(1) ins
    by (simp add: Add_def remove_conflict_def tryAddSendersFee_def fee_entry_def Let_def flip: item_def)
  have "y \<noteq> it \<longleftrightarrow> \<not> (tx_From (txn y) = ?a \<and> tx_Nonce lib (txn y) = ?n)" if "y \<in> set ?v" for y
    using it(2,3) sender_unique [OF mo that it(1)] by metis
  then have "set ?w = {y \<in> set ?v. \<not> (tx_From (txn y) = ?a \<and> tx_Nonce lib (txn y) = ?n)}"
    unfolding set1 by blast
  then have "set (verifiedTxes mp') = insert item {y \<in> set ?v. \<not> (tx_From (txn y) = ?a \<and> tx_Nonce lib (txn y) = ?n)}"
    unfolding mp'(2) set_insert_at by simp
  then have "set (GetVerifiedTransactions mp') =
      insert t {c \<in> set (GetVerifiedTransactions mp). \<not> (tx_From c = ?a \<and> tx_Nonce lib c = ?n)}"
    using x by (auto simp: GetVerifiedTransactions_def)
  moreover have "spent lib ?a (verifiedTxes mp') = tx_Cost lib t + (feeSum e - ?c)"
    unfolding mp'(2) spent_insert_at left using x by simp
  ultimately show ?thesis
    using mp'(1,3) by (intro exI [of _ mp'] exI [of _ "e\<lparr>feeSum := feeSum e - ?c - ?c + tx_Cost lib t\<rparr>"]) simp
qed

lemma removeItemByIndex_dbNonces: "removeItemByIndex lib k mp = Inr mp' \<Longrightarrow> dbNonces mp' = dbNonces mp"
  by (auto simp: removeItemByIndex_def Let_def split: if_splits)

lemma removeInternal_dbNonces: "removeInternal lib t mp = Inr mp' \<Longrightarrow> dbNonces mp' = dbNonces mp"
  by (auto simp: removeInternal_def Let_def dest: removeItemByIndex_dbNonces split: option.splits)

lemma insert_item_dbNonces: "insert_item lib x mp = Inr mp' \<Longrightarrow> dbNonces mp' = dbNonces mp"
  by (auto simp: insert_item_def ditch_last_def Let_def dest: removeItemByIndex_dbNonces split: if_splits)

lemma tryAddSendersFee_dbNonces: "dbNonces (snd (tryAddSendersFee lib t f b mp)) = dbNonces mp"
  by (simp add: tryAddSendersFee_def Let_def split: prod.splits option.splits)

lemma remove_conflict_dbNonces: "remove_conflict lib r c mp = Inr mp' \<Longrightarrow> dbNonces mp' = dbNonces mp"
  by (auto simp: remove_conflict_def dest: removeInternal_dbNonces split: option.splits if_splits)

lemma checkTxConflicts_dbNonces: "checkTxConflicts lib t f mp = (c, e, mp') \<Longrightarrow> dbNonces mp' = dbNonces mp"
  by (auto simp: checkTxConflicts_def share_sum_def Let_def split: option.splits if_splits)

lemma Add_dbNonces: "Add lib t f dat mp = (None, mp') \<Longrightarrow> dbNonces mp' = dbNonces mp"
  by (auto simp: Add_def Let_def tryAddSendersFee_dbNonces
      dest!: insert_item_dbNonces remove_conflict_dbNonces checkTxConflicts_dbNonces
      split: if_splits prod.splits option.splits sum.splits)

section \<open>A small pool for the examples\<close>

definition toy_item :: "byte \<Rightarrow> u64 \<Rightarrow> int \<Rightarrow> (unit, unit) pool_item" where
  "toy_item a n price = \<lparr>txn = NeoTx (tiny_tx a n price), blockStamp = 0, item_data = None, priority = price\<rparr>"

definition toy_feer :: feer where
  "toy_feer = \<lparr>FeePerByte = 0, GetGasPrice = 1, GetUtilityTokenBalance = (\<lambda>_. 100000), BlockHeight = 4\<rparr>"

text \<open>Two transactions: of one sender with equal prices, and of two senders.\<close>

definition toy_pool :: "nat \<Rightarrow> byte \<Rightarrow> u64 \<Rightarrow> int \<Rightarrow> int \<Rightarrow> (unit, unit) pool" where
  "toy_pool cap b n p q =
     (let i = toy_item 1 0 p; j = toy_item b n q in
      (NewPool cap)\<lparr>verifiedTxes := [i, j],
         verifiedMap := [tx_Hash tiny_tx_lib (txn i) \<mapsto> txn i, tx_Hash tiny_tx_lib (txn j) \<mapsto> txn j],
         senderMap := (if b = 1 then (\<lambda>_. [])(replicate 20 1 := [(0, i), (n, j)])
                       else (\<lambda>_. [])(replicate 20 1 := [(0, i)], replicate 20 b := [(n, j)])),
         fees := (if b = 1 then [replicate 20 1 \<mapsto> \<lparr>balance = 100000, feeSum = 1000 * p + 1000 * q\<rparr>]
                  else [replicate 20 1 \<mapsto> \<lparr>balance = 100000, feeSum = 1000 * p\<rparr>,
                        replicate 20 b \<mapsto> \<lparr>balance = 100000, feeSum = 1000 * q\<rparr>])\<rparr>)"

lemma toy_tx_simps [simp]:
  "Nonce (tiny_tx a n p) = n" "From (tiny_tx a n p) = replicate 20 a" "GasPrice (tiny_tx a n p) = p"
  "tx_Cost tiny_tx_lib (NeoTx (tiny_tx a n p)) = 1000 * p"
  by (simp_all add: tiny_tx_def tx_Cost_def)

lemma toy_item_simps [simp]:
  "txn (toy_item a n p) = NeoTx (tiny_tx a n p)" "priority (toy_item a n p) = p"
  by (simp_all add: toy_item_def)

lemma replicate20_eq [simp]: "replicate 20 a = replicate 20 (b :: byte) \<longleftrightarrow> a = b"
  by (simp add: replicate_eq_replicate)

lemma toy_hashes:
  "neo_Hash tiny_tx_lib (tiny_tx 3 0 5) \<noteq> neo_Hash tiny_tx_lib (tiny_tx 1 0 9)"
  "neo_Hash tiny_tx_lib (tiny_tx 3 0 5) \<noteq> neo_Hash tiny_tx_lib (tiny_tx 2 0 3)"
  "neo_Hash tiny_tx_lib (tiny_tx 1 0 6) \<noteq> neo_Hash tiny_tx_lib (tiny_tx 1 0 5)"
  "neo_Hash tiny_tx_lib (tiny_tx 1 0 6) \<noteq> neo_Hash tiny_tx_lib (tiny_tx 1 1 5)"
  "CompareTo tiny_tx_lib (toy_item 1 0 5) (toy_item 1 1 5) < 0"
  by code_simp+

section \<open>Properties\<close>

text \<open>
  C23. \<open>Add\<close> to a pool with room, of a transaction with a cost that is not negative and with a nonce
  of which the pool has no transaction of the same sender, keeps the invariant: the items stay sorted
  by priority, the two maps hold exactly the listed items, and the recorded fees of every sender are
  the sum of the costs of its listed transactions and never exceed its balance. On success the
  transaction was not known and is listed beside the others; otherwise one of three errors is
  returned and the pool is as it was.
\<close>

theorem mempool_add_invariant:
  assumes ok: "pool_ok lib mp" and room: "length (verifiedTxes mp) < capacity mp" and cost: "0 \<le> tx_Cost lib t"
    and none: "map_of (senderMap mp (tx_From t)) (tx_Nonce lib t) = None"
  shows "case Add lib t f dat mp of
     (Some e, mp') \<Rightarrow> e \<in> {ErrDup, ErrInsufficientFunds, ErrConflict} \<and> mp' = mp
   | (None, mp') \<Rightarrow> pool_ok lib mp' \<and> \<not> containsKey (tx_Hash lib t) mp \<and>
       set (GetVerifiedTransactions mp') = insert t (set (GetVerifiedTransactions mp))"
  by (rule Add_ok [OF assms])

theorem mempool_add_invariant_witness:
  "\<exists>mp'. Add tiny_tx_lib (NeoTx (tiny_tx 3 0 5)) toy_feer None (NewPool 2 :: (unit, unit) pool) = (None, mp') \<and>
     pool_ok tiny_tx_lib mp' \<and> set (GetVerifiedTransactions mp') = {NeoTx (tiny_tx 3 0 5)}"
proof -
  let ?mp = "NewPool 2 :: (unit, unit) pool" and ?t = "NeoTx (tiny_tx 3 0 5) :: unit transaction"
  obtain e mp' where r: "Add tiny_tx_lib ?t toy_feer None ?mp = (e, mp')" by fastforce
  have "e = None"
    using r by (auto simp: Add_def NewPool_def containsKey_def checkTxConflicts_def checkBalance_def fee_entry_def
        toy_feer_def remove_conflict_def insert_item_def sort_Search_def search_between.simps place_item_def capped_def Let_def)
  with r mempool_add_invariant [of tiny_tx_lib ?mp ?t toy_feer None]
  show ?thesis by (simp add: pool_ok_New) (simp add: NewPool_def GetVerifiedTransactions_def)
qed

text \<open>
  Replacing a pooled transaction by a dearer one with the same nonce takes its cost out of the
  recorded fees twice, because \<open>checkTxConflicts\<close> already reduces the sum of the pool through the words
  that its copy shares: afterwards the recorded sum of the sender is smaller than the sum of the
  costs of its listed transactions by the cost of the replaced one, and the sender can add
  transactions that it cannot pay for. (The pool has room, the replaced transaction shares its
  priority with no other one, and its cost has as many words as the sum or is at most half of it;
  otherwise the second subtraction panics.)
\<close>

theorem replacement_understates_fees:
  assumes ok: "pool_ok lib mp" and room: "length (verifiedTxes mp) < capacity mp" and cost: "0 \<le> tx_Cost lib t"
    and new: "\<not> containsKey (tx_Hash lib t) mp"
    and old: "map_of (senderMap mp (tx_From t)) (tx_Nonce lib t) = Some it" "tx_GasPrice lib (txn it) < tx_GasPrice lib t"
    and alone: "\<And>x. x \<in> set (verifiedTxes mp) \<Longrightarrow> priority x = priority it \<Longrightarrow> x = it"
    and pay: "fees mp (tx_From t) = Some e" "tx_Cost lib t \<le> balance e"
      "tx_Cost lib t + feeSum e - tx_Cost lib (txn it) \<le> balance e"
    and words: "\<not> removal_underflows (feeSum e) (tx_Cost lib (txn it))"
  shows "\<exists>mp' e'. Add lib t f dat mp = (None, mp') \<and>
     set (GetVerifiedTransactions mp') =
       insert t {c \<in> set (GetVerifiedTransactions mp). \<not> (tx_From c = tx_From t \<and> tx_Nonce lib c = tx_Nonce lib t)} \<and>
     fees mp' (tx_From t) = Some e' \<and> feeSum e' = spent lib (tx_From t) (verifiedTxes mp') - tx_Cost lib (txn it)"
  by (rule Add_replaces [OF assms])

definition one_pool :: "(unit, unit) pool" where
  "one_pool = (let i = toy_item 1 0 5 in
     (NewPool 9)\<lparr>verifiedTxes := [i], verifiedMap := [tx_Hash tiny_tx_lib (txn i) \<mapsto> txn i],
        senderMap := (\<lambda>_. [])(replicate 20 1 := [(0, i)]),
        fees := [replicate 20 1 \<mapsto> \<lparr>balance = 100000, feeSum = 5000\<rparr>]\<rparr>)"

lemma one_pool_ok: "pool_ok tiny_tx_lib one_pool"
  by (auto simp: one_pool_def Let_def pool_ok_def list_ok_def maps_ok_def fees_ok_def NewPool_def split: if_splits)

theorem replacement_understates_fees_witness:
  "\<exists>mp' e'. Add tiny_tx_lib (NeoTx (tiny_tx 1 0 6)) toy_feer None one_pool = (None, mp') \<and>
     set (GetVerifiedTransactions mp') = {NeoTx (tiny_tx 1 0 6)} \<and>
     fees mp' (replicate 20 1) = Some e' \<and> feeSum e' = spent tiny_tx_lib (replicate 20 1) (verifiedTxes mp') - 5000"
proof -
  let ?t = "NeoTx (tiny_tx 1 0 6) :: unit transaction" and ?it = "toy_item 1 0 5"
  have p: "verifiedTxes one_pool = [?it]" "senderMap one_pool (replicate 20 1) = [(0, ?it)]" "capacity one_pool = 9"
      "fees one_pool (replicate 20 1) = Some \<lparr>balance = 100000, feeSum = 5000\<rparr>" "\<not> containsKey (tx_Hash tiny_tx_lib ?t) one_pool"
    using toy_hashes(3) by (simp_all add: one_pool_def Let_def NewPool_def containsKey_def)
  have "\<not> removal_underflows 5000 5000" by (simp add: removal_underflows_def)
  then have "\<exists>mp' e'. Add tiny_tx_lib ?t toy_feer None one_pool = (None, mp') \<and>
     set (GetVerifiedTransactions mp') = insert ?t {c \<in> set (GetVerifiedTransactions one_pool).
       \<not> (tx_From c = tx_From ?t \<and> tx_Nonce tiny_tx_lib c = tx_Nonce tiny_tx_lib ?t)} \<and>
     fees mp' (tx_From ?t) = Some e' \<and>
     feeSum e' = spent tiny_tx_lib (tx_From ?t) (verifiedTxes mp') - tx_Cost tiny_tx_lib (txn ?it)"
    by (intro replacement_understates_fees [OF one_pool_ok]) (use p in auto)
  then show ?thesis using p(1) by (auto simp: GetVerifiedTransactions_def)
qed

text \<open>
  C24. After \<open>RemoveStale\<close> the invariant holds again and every sender can pay, from its balance on the
  chain as it is now, for the transactions that are kept: these are in their old order and pass the
  filter, and the senders of all others are returned for their nonces to be refreshed.
\<close>

theorem mempool_remove_stale:
  assumes ok: "pool_ok lib mp" and pos: "\<forall>a. 0 \<le> GetUtilityTokenBalance f a"
    and run: "RemoveStale lib isOK f mp = (senders, mp')"
  shows "pool_ok lib mp' \<and> subseq (verifiedTxes mp') (verifiedTxes mp) \<and>
     (\<forall>i \<in> set (verifiedTxes mp'). isOK (txn i)) \<and>
     (\<forall>a. spent lib a (verifiedTxes mp') \<le> GetUtilityTokenBalance f a) \<and>
     (\<forall>i \<in> set (verifiedTxes mp) - set (verifiedTxes mp'). tx_From (txn i) \<in> set senders)"
proof -
  obtain changed mp1 where lp: "loadPolicy f mp = (changed, mp1)" by fastforce
  then have same: "verifiedTxes mp1 = verifiedTxes mp" "verifiedMap mp1 = verifiedMap mp"
      "senderMap mp1 = senderMap mp" "capacity mp1 = capacity mp"
    by (auto simp: loadPolicy_def Let_def split: if_splits)
  obtain kept snds stale mp2 where sl:
      "stale_loop lib isOK f changed (verifiedTxes mp) (mp1\<lparr>fees := Map.empty\<rparr>) = (kept, snds, stale, mp2)"
    by (cases "stale_loop lib isOK f changed (verifiedTxes mp) (mp1\<lparr>fees := Map.empty\<rparr>)") auto
  have r: "senders = remdups snds" "mp' = mp2\<lparr>verifiedTxes := kept, resent := resent mp2 @ stale\<rparr>"
    using run lp sl same by (auto simp: RemoveStale_def)
  have lo: "list_ok lib (verifiedTxes mp)" and mo: "maps_ok lib mp" using ok by (auto simp: pool_ok_def)
  have "maps_ok lib (mp2\<lparr>verifiedTxes := [] @ kept\<rparr>) \<and> fresh_fees lib f ([] @ kept) mp2 \<and>
     subseq kept (verifiedTxes mp) \<and> (\<forall>i \<in> set kept. isOK (txn i)) \<and>
     (\<forall>i \<in> set (verifiedTxes mp) - set kept. tx_From (txn i) \<in> set snds) \<and>
     capacity mp2 = capacity (mp1\<lparr>fees := Map.empty\<rparr>)"
    using lo mo same by (intro stale_loop_inv [OF _ _ _ pos sl]) (simp_all add: maps_ok_def fresh_fees_def)
  then have k: "maps_ok lib (mp2\<lparr>verifiedTxes := kept\<rparr>)" "fresh_fees lib f kept mp2" "subseq kept (verifiedTxes mp)"
      "\<forall>i \<in> set kept. isOK (txn i)" "\<forall>i \<in> set (verifiedTxes mp) - set kept. tx_From (txn i) \<in> set snds"
      "capacity mp2 = capacity mp" using same by auto
  have "fees_ok lib mp'"
    unfolding fees_ok_def
  proof
    fix a
    show "case fees mp' a of None \<Rightarrow> \<forall>i \<in> set (verifiedTxes mp'). tx_From (txn i) \<noteq> a
      | Some e \<Rightarrow> feeSum e = spent lib a (verifiedTxes mp') \<and> feeSum e \<le> balance e"
      using k(2) [unfolded fresh_fees_def, rule_format, of a] by (simp add: r(2) split: option.splits)
  qed
  moreover have "maps_ok lib mp'" using k(1) unfolding r(2) by (simp add: maps_ok_def)
  moreover have "length kept \<le> capacity mp" using k(3) ok list_emb_length by (fastforce simp: pool_ok_def)
  ultimately have "pool_ok lib mp'" using subseq_list_ok [OF lo k(3)] k(6) by (simp add: pool_ok_def r(2))
  moreover have "\<forall>a. spent lib a kept \<le> GetUtilityTokenBalance f a" using fresh_entry(3) [OF k(2)] pos by blast
  ultimately show ?thesis using k(3-5) by (simp add: r)
qed

theorem mempool_remove_stale_witness:
  "pool_ok tiny_tx_lib (snd (RemoveStale tiny_tx_lib (\<lambda>_. True) toy_feer (NewPool 2 :: (unit, unit) pool))) \<and>
     (\<forall>a. spent tiny_tx_lib a (verifiedTxes (snd (RemoveStale tiny_tx_lib (\<lambda>_. True) toy_feer (NewPool 2 :: (unit, unit) pool)))) \<le> 100000)"
  using mempool_remove_stale [OF pool_ok_New [of tiny_tx_lib 2], of toy_feer "\<lambda>_. True"
      "fst (RemoveStale tiny_tx_lib (\<lambda>_. True) toy_feer (NewPool 2 :: (unit, unit) pool))"
      "snd (RemoveStale tiny_tx_lib (\<lambda>_. True) toy_feer (NewPool 2 :: (unit, unit) pool))"]
  by (simp add: toy_feer_def)

section \<open>Properties: where the pool fails\<close>

lemma removeItemByIndex_txes:
  assumes "k < length (verifiedTxes mp)"
  shows "\<exists>mp'. removeItemByIndex lib k mp = Inr mp' \<and>
     verifiedTxes mp' = take k (verifiedTxes mp) @ drop (Suc k) (verifiedTxes mp)"
  using assms by (simp add: removeItemByIndex_def Let_def)

text \<open>
  Adding a transaction to a full pool, in front of which exactly the first n items rank. When only
  the least item ranks below it, the code has dropped that item and then slices beyond the end of the
  shortened list: it panics. When two items rank below it, it is reported as added and found by its
  hash but not listed; when more do, it is listed but yet another item is lost from the list.
\<close>

theorem full_pool_add:
  assumes full: "length (verifiedTxes mp) = capacity mp" and n: "n < length (verifiedTxes mp)"
    and hi: "\<And>i. i < n \<Longrightarrow> tx_GasPrice lib t < priority (verifiedTxes mp ! i)"
    and lo: "\<And>i. n \<le> i \<Longrightarrow> i < length (verifiedTxes mp) \<Longrightarrow> priority (verifiedTxes mp ! i) < tx_GasPrice lib t"
    and new: "\<not> containsKey (tx_Hash lib t) mp"
    and none: "map_of (senderMap mp (tx_From t)) (tx_Nonce lib t) = None"
      "map_of (senderMap mp (tx_From t)) (tx_Nonce lib t - 1) = None"
    and pay: "snd (checkBalance lib t (fee_entry f (tx_From t) mp)) = None"
  shows "(n + 1 = capacity mp \<longrightarrow> fst (Add lib t f dat mp) = Some (PoolPanic ''slice bounds out of range'')) \<and>
     (n + 1 < capacity mp \<longrightarrow> (\<exists>mp'. Add lib t f dat mp = (None, mp') \<and> containsKey (tx_Hash lib t) mp' \<and>
        verifiedTxes mp' = (if n + 2 = capacity mp then butlast (verifiedTxes mp)
          else take n (verifiedTxes mp) @
            \<lparr>txn = t, blockStamp = BlockHeight f, item_data = dat, priority = tx_GasPrice lib t\<rparr> #
            drop n (butlast (butlast (verifiedTxes mp))))))"
proof -
  let ?v = "verifiedTxes mp" and ?w = "butlast (verifiedTxes mp)"
  define x where "x = \<lparr>txn = t, blockStamp = BlockHeight f, item_data = dat, priority = tx_GasPrice lib t\<rparr>"
  have s: "sort_Search (length ?v) (\<lambda>n. CompareTo lib x (?v ! n) > 0) = n"
  proof (rule sort_Search_boundary)
    show "\<not> CompareTo lib x (?v ! i) > 0" if "i < n" for i
      using hi [OF that] by (simp add: x_def CompareTo_def int_Cmp_def)
    show "CompareTo lib x (?v ! i) > 0" if "n \<le> i" "i < length ?v" for i
      using lo [OF that] by (simp add: x_def CompareTo_def int_Cmp_def)
  qed (use n in simp)
  have c: "checkTxConflicts lib t f mp = (None, None, mp)" using none(1) pay by (simp add: checkTxConflicts_def)
  have cap: "capped lib x mp = x" using none(2) by (simp add: capped_def x_def)
  have "length ?v - 1 < length ?v" using n by simp
  from removeItemByIndex_txes [OF this]
  obtain mp0 where "removeItemByIndex lib (length ?v - 1) mp = Inr mp0" "verifiedTxes mp0 = ?w"
    using n by (auto simp: butlast_conv_take)
  then obtain mp1 where d: "ditch_last lib mp = Inr mp1" "verifiedTxes mp1 = ?w"
    by (simp add: ditch_last_def Let_def)
  have ins: "insert_item lib x mp =
      bind_res (place_item n x ?w) (\<lambda>v1. Inr (mp1\<lparr>verifiedTxes := v1\<rparr>))"
    using n d s unfolding full by (simp add: insert_item_def full)
  have "place_item n x ?w = Inl (PoolPanic ''slice bounds out of range'')" if "n + 1 = capacity mp"
    using that full by (simp add: place_item_def)
  moreover have "place_item n x ?w = Inr ?w" if "n + 2 = capacity mp"
    using that full by (simp add: place_item_def)
  moreover have "place_item n x ?w = Inr (take n ?v @ x # drop n (butlast ?w))" if "n + 2 < capacity mp"
  proof -
    have k: "n + 1 < length ?w" using that full by simp
    have "(copy_at (n + 1) (drop n ?w) ?w)[n := x] = take n ?w @ x # drop n (butlast ?w)"
    proof (rule nth_equalityI)
      show "length ((copy_at (n + 1) (drop n ?w) ?w)[n := x]) = length (take n ?w @ x # drop n (butlast ?w))"
        using k by simp
      fix i assume "i < length ((copy_at (n + 1) (drop n ?w) ?w)[n := x])"
      then show "(copy_at (n + 1) (drop n ?w) ?w)[n := x] ! i = (take n ?w @ x # drop n (butlast ?w)) ! i"
        using k by (auto simp: copy_at_def nth_list_update nth_append nth_Cons' nth_butlast)
    qed
    moreover have "take n ?w = take n ?v" using n by (simp add: take_butlast)
    moreover have "int n \<noteq> int (length ?w) - 1" using k by linarith
    ultimately show ?thesis using k by (simp add: place_item_def)
  qed
  ultimately show ?thesis
    using full new c ins cap unfolding Add_def x_def [symmetric]
    by (auto simp: Let_def containsKey_def tryAddSendersFee_def remove_conflict_def)
qed

theorem full_pool_add_witness:
  "fst (Add tiny_tx_lib (NeoTx (tiny_tx 3 0 5)) toy_feer None (toy_pool 2 2 0 9 3)) = Some (PoolPanic ''slice bounds out of range'')"
proof -
  have "(1 + 1 = capacity (toy_pool 2 2 0 9 3) \<longrightarrow>
      fst (Add tiny_tx_lib (NeoTx (tiny_tx 3 0 5)) toy_feer None (toy_pool 2 2 0 9 3)) = Some (PoolPanic ''slice bounds out of range'')) \<and>
    (1 + 1 < capacity (toy_pool 2 2 0 9 3) \<longrightarrow> (\<exists>mp'. Add tiny_tx_lib (NeoTx (tiny_tx 3 0 5)) toy_feer None (toy_pool 2 2 0 9 3) = (None, mp') \<and>
       containsKey (tx_Hash tiny_tx_lib (NeoTx (tiny_tx 3 0 5))) mp' \<and>
       verifiedTxes mp' = (if 1 + 2 = capacity (toy_pool 2 2 0 9 3) then butlast (verifiedTxes (toy_pool 2 2 0 9 3))
         else take 1 (verifiedTxes (toy_pool 2 2 0 9 3)) @
           \<lparr>txn = NeoTx (tiny_tx 3 0 5), blockStamp = BlockHeight toy_feer, item_data = None,
            priority = tx_GasPrice tiny_tx_lib (NeoTx (tiny_tx 3 0 5))\<rparr> #
           drop 1 (butlast (butlast (verifiedTxes (toy_pool 2 2 0 9 3)))))))"
    by (rule full_pool_add)
      (auto simp: toy_pool_def NewPool_def Let_def containsKey_def fee_entry_def checkBalance_def toy_feer_def toy_hashes less_Suc_eq)
  then show ?thesis by (simp add: toy_pool_def NewPool_def Let_def)
qed

text \<open>
  Replacing the first of several items when the others compare as greater than it although the
  list is sorted by priority alone, as items of equal priority with higher nonces and hashes do: the
  search misses the item and the code panics with an index out of range.
\<close>

theorem replace_misses_item:
  assumes "2 \<le> length (verifiedTxes mp)"
    and first: "map_of (senderMap mp (tx_From t)) (tx_Nonce lib t) = Some (verifiedTxes mp ! 0)"
      "tx_From (txn (verifiedTxes mp ! 0)) = tx_From t" "tx_Nonce lib (txn (verifiedTxes mp ! 0)) = tx_Nonce lib t"
    and "tx_GasPrice lib (txn (verifiedTxes mp ! 0)) < tx_GasPrice lib t"
    and "\<And>i. 1 \<le> i \<Longrightarrow> i < length (verifiedTxes mp) \<Longrightarrow> CompareTo lib (verifiedTxes mp ! 0) (verifiedTxes mp ! i) < 0"
    and "\<not> containsKey (tx_Hash lib t) mp"
    and "tx_Cost lib t \<le> balance (fee_entry f (tx_From t) mp)"
      "tx_Cost lib t + feeSum (fee_entry f (tx_From t) mp) - tx_Cost lib (txn (verifiedTxes mp ! 0)) \<le> balance (fee_entry f (tx_From t) mp)"
  shows "fst (Add lib t f dat mp) = Some (PoolPanic ''index out of range'')"
proof -
  let ?v = "verifiedTxes mp"
  have "sort_Search (length ?v) (\<lambda>n. CompareTo lib (?v ! 0) (?v ! n) \<ge> 0) = length ?v"
    using assms(1,6) by (intro sort_Search_misses) (auto simp: not_le)
  then have "removeInternal lib (txn (?v ! 0)) (share_sum a c mp) = Inl (PoolPanic ''index out of range'')" for a c
    using first by (simp add: removeInternal_def removeItemByIndex_def share_sum_def split: option.split)
  moreover have "checkTxConflicts lib t f mp = (Some (txn (?v ! 0)), None, share_sum (tx_From t) (tx_Cost lib (txn (?v ! 0))) mp)"
    using first assms(5,8,9) by (simp add: checkTxConflicts_def checkBalance_def Let_def)
  ultimately show ?thesis using assms(7) by (simp add: Add_def remove_conflict_def)
qed

theorem replace_misses_item_witness:
  "fst (Add tiny_tx_lib (NeoTx (tiny_tx 1 0 6)) toy_feer None (toy_pool 9 1 1 5 5)) = Some (PoolPanic ''index out of range'')"
  by (rule replace_misses_item)
    (auto simp: toy_pool_def NewPool_def Let_def containsKey_def fee_entry_def toy_feer_def toy_hashes less_Suc_eq)

end
