(* ===== verification/TxVerification.thy ===== *)
theory TxVerification
  imports MempoolProps
begin

text \<open>
  How the ledger verifies a transaction before it enters a pool: \<open>verifyAndPoolTx\<close>, \<open>PolicyCheck\<close>,
  \<open>VerifyTx\<close>, \<open>PoolTx\<close> and \<open>IsTxStillRelevant\<close> of src/pkg/core/blockchain.go. What the stored state
  answers (whether a transaction is on the chain, whether an account is blocked, whether an address
  holds a contract, the nonce of an account) is the record \<open>ledger\<close>.
\<close>

record ledger = feer +
  MaxBlockGas :: u64
  ChainID :: u64
  HasTransaction :: "hash \<Rightarrow> bool"
  IsBlocked :: "address \<Rightarrow> bool"
  IsContract :: "address \<Rightarrow> bool"
  GetNonce :: "address \<Rightarrow> u64"

datatype verify_error =
    VInvalid tx_error | VGasLimit | VGasPriceTooLow | ErrTxTooBig | ErrTxSmallNetworkFee
  | ErrAlreadyExists | VSignature tx_error | ErrAccountBlocked | ErrContractBlocked | VNonce
  | VPool pool_error | VPanic string

definition PolicyCheck :: "'e tx_lib \<Rightarrow> ledger \<Rightarrow> 'e transaction \<Rightarrow> verify_error option" where
  "PolicyCheck lib bc t =
     (if IsBlocked bc (tx_From t) then Some ErrAccountBlocked
      else case tx_To lib t of
        None \<Rightarrow> None
      | Some a \<Rightarrow> if IsContract bc a \<and> IsBlocked bc a then Some ErrContractBlocked else None)"

text \<open>
  The pool is returned in every case, since the nonce of the database is recorded before the last
  checks. The fee is checked before the signature; the sender of an Ethereum transaction may be
  derived by the signature check, so the checks that follow use the transaction it leaves behind.
\<close>

definition pool_checked :: "'e tx_lib \<Rightarrow> ledger \<Rightarrow> 'e transaction \<Rightarrow> 'd option \<Rightarrow> ('e, 'd) pool \<Rightarrow>
    verify_error option \<times> ('e, 'd) pool" where
  "pool_checked lib bc t dat pool =
     (let from = tx_From t;
          pool1 = (if GetDBNonce from pool = 0 then SetDBNonce from (GetNonce bc from) pool else pool) in
      if \<not> checkNonceContinue lib t pool1 then (Some VNonce, pool1)
      else case Add lib t (feer.truncate bc) dat pool1 of
        (Some e, pool2) \<Rightarrow> (Some (VPool e), pool2)
      | (None, pool2) \<Rightarrow> (None, pool2))"

definition verifyAndPoolTx :: "'e tx_lib \<Rightarrow> ledger \<Rightarrow> 'e transaction \<Rightarrow> 'd option \<Rightarrow> ('e, 'd) pool \<Rightarrow>
    verify_error option \<times> ('e, 'd) pool" where
  "verifyAndPoolTx lib bc t dat pool =
     (case tx_IsValid lib t of
        Some e \<Rightarrow> (Some (VInvalid e), pool)
      | None \<Rightarrow>
          if tx_Gas lib t > MaxBlockGas bc then (Some VGasLimit, pool)
          else if tx_GasPrice lib t < GetGasPrice bc then (Some VGasPriceTooLow, pool)
          else if tx_Size lib t > MaxTransactionSize then (Some ErrTxTooBig, pool)
          else (case CalculateNetworkFee lib t (FeePerByte bc) of
            None \<Rightarrow> (Some (VPanic ''index out of range''), pool)
          | Some fee \<Rightarrow>
              if tx_Gas lib t < fee then (Some ErrTxSmallNetworkFee, pool)
              else if HasTransaction bc (tx_Hash lib t) then (Some ErrAlreadyExists, pool)
              else (case tx_Verify lib (ChainID bc) t of
                (Some e, t') \<Rightarrow> (Some (VSignature e), pool)
              | (None, t') \<Rightarrow> (case PolicyCheck lib bc t' of
                  Some e \<Rightarrow> (Some e, pool)
                | None \<Rightarrow> pool_checked lib bc t' dat pool))))"

definition VerifyTx :: "'e tx_lib \<Rightarrow> ledger \<Rightarrow> 'e transaction \<Rightarrow> verify_error option" where
  "VerifyTx lib bc t = fst (verifyAndPoolTx lib bc t None (NewPool 1 :: ('e, unit) pool))"

definition PoolTx :: "'e tx_lib \<Rightarrow> ledger \<Rightarrow> 'e transaction \<Rightarrow> ('e, 'd) pool \<Rightarrow> verify_error option \<times> ('e, 'd) pool" where
  "PoolTx lib bc t pool = verifyAndPoolTx lib bc t None pool"

definition PoolTxWithData :: "'e tx_lib \<Rightarrow> ledger \<Rightarrow> ('e transaction \<Rightarrow> 'd \<Rightarrow> verify_error option) option \<Rightarrow>
    'e transaction \<Rightarrow> 'd \<Rightarrow> ('e, 'd) pool \<Rightarrow> verify_error option \<times> ('e, 'd) pool" where
  "PoolTxWithData lib bc ver t dat pool =
     (case (case ver of None \<Rightarrow> None | Some v \<Rightarrow> v t dat) of
        Some e \<Rightarrow> (Some e, pool)
      | None \<Rightarrow> verifyAndPoolTx lib bc t (Some dat) pool)"

definition IsTxStillRelevant :: "'e tx_lib \<Rightarrow> ledger \<Rightarrow> 'e transaction \<Rightarrow> ('e, 'd) pool option \<Rightarrow> bool" where
  "IsTxStillRelevant lib bc t txpool = (case txpool of
     None \<Rightarrow> \<not> HasTransaction bc (tx_Hash lib t)
   | Some p \<Rightarrow> \<not> HasConflicts lib t p)"

section \<open>A ledger and a signed transaction for the examples\<close>

definition toy_ledger :: ledger where
  "toy_ledger = \<lparr>FeePerByte = 0, GetGasPrice = 1, GetUtilityTokenBalance = (\<lambda>_. 100000), BlockHeight = 4,
     MaxBlockGas = 50000, ChainID = 7, HasTransaction = (\<lambda>_. False), IsBlocked = (\<lambda>_. False),
     IsContract = (\<lambda>_. False), GetNonce = (\<lambda>_. 0)\<rparr>"


lemma size_bound:
  assumes "neo_isValid t = None" and "length (From t) = 20" and "To t = None" and "TxData t = []"
    and "length (InvocationScript (TxWitness t)) < 253" and "length (VerificationScript (TxWitness t)) < 253"
  shows "neo_Size t \<le> MaxTransactionSize"
proof -
  have small: "length (var_bytes b) \<le> length b + 1" if "length b < 253" for b
    using that by (simp add: var_bytes_def length_var_uint word_less_nat_alt unat_of_nat take_bit_nat_eq_self)
  have "neo_Size t = length (neo_bytes t) + length (witness_bytes (TxWitness t))"
    using neo_codec.GetVarSize_ptr [of t] by (simp add: neo_Size_def)
  also have "\<dots> \<le> 8 + 33 + 8 + 20 + 1 + 33 + 1 + (254 + 254)"
    using valid_amounts(1,2) [OF assms(1)] assms(2-6) small [of "big_Bytes (Value t)"] small [of "big_Bytes (GasPrice t)"]
      small [of "InvocationScript (TxWitness t)"] small [of "VerificationScript (TxWitness t)"] small [of "[]"]
    by (simp add: neo_bytes_def witness_bytes_def)
  finally show ?thesis by (simp add: MaxTransactionSize_def)
qed



section \<open>Properties\<close>



text \<open>
  A native transaction with an empty verification script that passes the first checks survives
  decoding, and verifying it reads the first byte of that script: the node panics before it looks at
  the signature.
\<close>

theorem unwitnessed_tx_panics:
  assumes "neo_ok lib t" and "VerificationScript (TxWitness t) = []" and "Gas t \<le> MaxBlockGas bc"
    and "GetGasPrice bc \<le> GasPrice t" and "neo_Size t \<le> MaxTransactionSize"
  shows "\<exists>b. ToByteArray (tx_encode lib (NeoTx t)) = Inr (Some b) \<and>
     fst (tx_decode lib (NewBinReaderFromBuf b)) = Some (NeoTx t) \<and>
     verifyAndPoolTx lib bc (NeoTx t) dat pool = (Some (VPanic ''index out of range''), pool)"
proof -
  let ?b = "NeoTxType # neo_bytes t @ witness_bytes (TxWitness t)"
  have "ToByteArray (tx_encode lib (NeoTx t)) = Inr (Some ?b)" by (rule tx_encode_neo)
  moreover have "tx_decode lib (rd (?b @ [])) = (Some (NeoTx t), rd [])" by (rule tx_decode_neo [OF assms(1)])
  moreover have "verifyAndPoolTx lib bc (NeoTx t) dat pool = (Some (VPanic ''index out of range''), pool)"
    using assms by (simp add: verifyAndPoolTx_def neo_ok_def not_less Let_def)
  ultimately show ?thesis by (auto simp: NewBinReaderFromBuf_def)
qed

theorem unwitnessed_tx_panics_witness:
  "\<exists>b. ToByteArray (tx_encode tiny_tx_lib (NeoTx (tiny_tx 1 0 5))) = Inr (Some b) \<and>
     fst (tx_decode tiny_tx_lib (NewBinReaderFromBuf b)) = Some (NeoTx (tiny_tx 1 0 5)) \<and>
     verifyAndPoolTx tiny_tx_lib toy_ledger (NeoTx (tiny_tx 1 0 5)) None (NewPool 3 :: (unit, unit) pool) =
       (Some (VPanic ''index out of range''), NewPool 3)"
proof (rule unwitnessed_tx_panics)
  have "neo_isValid (tiny_tx 1 0 5) = None" using tiny_tx_ok [of 1 5 tiny_tx_lib 0] by (simp add: neo_ok_def)
  then show "neo_Size (tiny_tx 1 0 5) \<le> MaxTransactionSize" by (rule size_bound) (simp_all add: tiny_tx_def)
qed (simp_all add: tiny_tx_ok toy_ledger_def, simp_all add: tiny_tx_def)

end
