(* ===== verification/Merkle.thy ===== *)
theory Merkle
  imports BinIO
begin

text \<open>
  The Merkle trees of src/pkg/crypto/hash/merkle_tree.go and src/pkg/dbft/merkle/merkle_tree.go.
  A node that was built from an odd last child has the same node as left and right child; it is
  \<open>MTwin\<close> here. The parent pointers, which only \<open>Prove\<close> follows, are the list of steps from a
  node to the root that the search carries along. The hash function is an argument
  (\<open>DoubleSha256\<close> for the first package, \<open>Keccak256\<close> for the second one).
\<close>

section \<open>Trees\<close>

datatype mnode = MLeaf hash | MNode hash mnode mnode | MTwin hash mnode

fun node_hash :: "mnode \<Rightarrow> hash" where
  "node_hash (MLeaf h) = h"
| "node_hash (MNode h _ _) = h"
| "node_hash (MTwin h _) = h"

fun pair_up :: "(bytes \<Rightarrow> hash) \<Rightarrow> mnode list \<Rightarrow> mnode list" where
  "pair_up D [] = []"
| "pair_up D [x] = [MTwin (D (node_hash x @ node_hash x)) x]"
| "pair_up D (x # y # r) = MNode (D (node_hash x @ node_hash y)) x y # pair_up D r"

lemma length_pair_up [simp]: "length (pair_up D xs) = (length xs + 1) div 2"
  by (induction D xs rule: pair_up.induct) auto

text \<open>\<open>None\<close> is the panic on an empty list.\<close>

function (sequential) buildMerkleTree :: "(bytes \<Rightarrow> hash) \<Rightarrow> mnode list \<Rightarrow> mnode option" where
  "buildMerkleTree D [] = None"
| "buildMerkleTree D [x] = Some x"
| "buildMerkleTree D xs = buildMerkleTree D (pair_up D xs)"
  by pat_completeness auto
termination by (relation "measure (\<lambda>(D, xs). length xs)") auto

definition NewMerkleTree :: "(bytes \<Rightarrow> hash) \<Rightarrow> hash list \<Rightarrow> string + mnode" where
  "NewMerkleTree D hs =
     (if hs = [] then Inl ''length of the hashes cannot be zero''
      else case buildMerkleTree D (map MLeaf hs) of
        None \<Rightarrow> Inl ''length of leaves cannot be zero'' | Some t \<Rightarrow> Inr t)"

text \<open>The tree of the consensus library records its depth, counted along the left children.\<close>

primrec left_depth :: "mnode \<Rightarrow> nat" where
  "left_depth (MLeaf _) = 1"
| "left_depth (MNode _ l _) = Suc (left_depth l)"
| "left_depth (MTwin _ l) = Suc (left_depth l)"

definition dbft_NewMerkleTree :: "(bytes \<Rightarrow> hash) \<Rightarrow> hash list \<Rightarrow> (nat \<times> mnode) option" where
  "dbft_NewMerkleTree K hs =
     (if hs = [] then None
      else map_option (\<lambda>t. (left_depth t, t)) (buildMerkleTree K (map MLeaf hs)))"

section \<open>Proofs\<close>

text \<open>
  One step towards the root: whether the node is the left child of its parent, and the hash of
  the other child. The stack of the search has its top at the head.
\<close>

type_synonym up_step = "bool \<times> hash"

function (sequential) find_leaf :: "hash \<Rightarrow> (mnode \<times> up_step list) list \<Rightarrow> up_step list option" where
  "find_leaf t [] = None"
| "find_leaf t ((MLeaf h, up) # st) = (if h = t then Some up else find_leaf t st)"
| "find_leaf t ((MNode _ l r, up) # st) =
     find_leaf t ((r, (False, node_hash l) # up) # (l, (True, node_hash r) # up) # st)"
| "find_leaf t ((MTwin _ l, up) # st) = find_leaf t ((l, (True, node_hash l) # up) # st)"
  by pat_completeness auto
termination
  by (relation "measure (\<lambda>(t, st). sum_list (map (\<lambda>(n, _). Suc (2 * size n)) st))") auto

fun path_bits :: "nat \<Rightarrow> up_step list \<Rightarrow> u32" where
  "path_bits i [] = 0"
| "path_bits i ((left, _) # up) = (if left then push_bit i 1 else 0) OR path_bits (Suc i) up"

definition Prove :: "mnode \<Rightarrow> hash \<Rightarrow> string + (hash list \<times> u32)" where
  "Prove root target = (case find_leaf target [(root, [])] of
     None \<Rightarrow> Inl ''target not found''
   | Some up \<Rightarrow> Inr (map snd up, path_bits 0 up))"

text \<open>The two halves of the 64-byte scratch buffer are overwritten in turn.\<close>

definition fill_scratch :: "bytes \<Rightarrow> bytes \<Rightarrow> bytes \<Rightarrow> bytes" where
  "fill_scratch a b scratch = copy_at 32 b (copy_at 0 a scratch)"

fun proof_loop :: "(bytes \<Rightarrow> hash) \<Rightarrow> u32 \<Rightarrow> nat \<Rightarrow> bytes \<Rightarrow> hash \<Rightarrow> hash list \<Rightarrow> hash" where
  "proof_loop D path i scratch parent [] = parent"
| "proof_loop D path i scratch parent (h # hs) =
     (let s = (if drop_bit i path AND 1 = 1 then fill_scratch parent h scratch
               else fill_scratch h parent scratch) in
      proof_loop D path (Suc i) s (D s) hs)"

definition CalcProofRoot :: "(bytes \<Rightarrow> hash) \<Rightarrow> hash \<Rightarrow> hash list \<Rightarrow> u32 \<Rightarrow> hash" where
  "CalcProofRoot D target hs path = proof_loop D path 0 (replicate 64 0) target hs"

definition VerifyMerkleProof :: "(bytes \<Rightarrow> hash) \<Rightarrow> hash \<Rightarrow> hash \<Rightarrow> hash list \<Rightarrow> u32 \<Rightarrow> bool" where
  "VerifyMerkleProof D root target hs path \<longleftrightarrow> root = CalcProofRoot D target hs path"

section \<open>The root computed in place\<close>

text \<open>
  \<open>parents\<close> is a prefix of the array \<open>hashes\<close>, so writing \<open>parents[i]\<close> overwrites \<open>hashes[i]\<close>
  while the later iterations still read the array.
\<close>

function root_loop :: "(bytes \<Rightarrow> hash) \<Rightarrow> nat \<Rightarrow> nat \<Rightarrow> bytes \<Rightarrow> hash list \<Rightarrow> hash list" where
  "root_loop D n i scratch hashes =
     (if i < (n + 1) div 2 then
        let s = fill_scratch (hashes ! (i * 2))
              (if i * 2 + 1 = n then hashes ! (i * 2) else hashes ! (i * 2 + 1)) scratch in
        root_loop D n (Suc i) s (hashes[i := D s])
      else hashes)"
  by pat_completeness auto
termination by (relation "measure (\<lambda>(D, n, i, s, hs). (n + 1) div 2 - i)") auto

declare root_loop.simps [simp del]

lemma length_root_loop [simp]: "length (root_loop D n i s hs) = length hs"
proof (induction D n i s hs rule: root_loop.induct)
  case (1 D n i s hs)
  then show ?case by (subst root_loop.simps) (simp add: Let_def)
qed

function CalcMerkleRoot :: "(bytes \<Rightarrow> hash) \<Rightarrow> hash list \<Rightarrow> hash" where
  "CalcMerkleRoot D hashes =
     (if hashes = [] then replicate 32 0
      else if length hashes = 1 then hashes ! 0
      else CalcMerkleRoot D (take ((length hashes + 1) div 2)
             (root_loop D (length hashes) 0 (replicate 64 0) hashes)))"
  by pat_completeness auto
termination
  by (relation "measure (\<lambda>(D, hs). length hs)", simp)
    (auto simp: neq_Nil_conv length_Suc_conv)

declare CalcMerkleRoot.simps [simp del]

section \<open>The in-place computation is the tree's root\<close>

fun pair_hash :: "(bytes \<Rightarrow> hash) \<Rightarrow> hash list \<Rightarrow> hash list" where
  "pair_hash D [] = []"
| "pair_hash D [x] = [D (x @ x)]"
| "pair_hash D (x # y # r) = D (x @ y) # pair_hash D r"

lemma length_pair_hash [simp]: "length (pair_hash D xs) = (length xs + 1) div 2"
  by (induction D xs rule: pair_hash.induct) auto

lemma hash_pair_up: "map node_hash (pair_up D xs) = pair_hash D (map node_hash xs)"
  by (induction D xs rule: pair_up.induct) auto

lemma nth_pair_hash:
  "i < (length xs + 1) div 2 \<Longrightarrow>
     pair_hash D xs ! i = D (xs ! (i * 2) @ (if i * 2 + 1 = length xs then xs ! (i * 2) else xs ! (i * 2 + 1)))"
proof (induction D xs arbitrary: i rule: pair_hash.induct)
  case (3 D x y r)
  then show ?case by (cases i) (auto simp: nth_Cons split: nat.splits)
qed auto

lemma fill_scratch_eq:
  assumes "length a = 32" and "length b = 32" and "length s = 64"
  shows "fill_scratch a b s = a @ b"
  using assms by (simp add: fill_scratch_def copy_at_def)

lemma pair_hash_32:
  "(\<And>b. length (D b) = 32) \<Longrightarrow> h \<in> set (pair_hash D hs) \<Longrightarrow> length h = 32"
  by (induction D hs rule: pair_hash.induct) auto

lemma root_loop_pairs:
  assumes "\<forall>h \<in> set hs. length h = 32" and "length arr = length hs" and "length s = 64"
    and "i \<le> (length hs + 1) div 2"
    and "\<And>j. i \<le> j \<Longrightarrow> j < length hs \<Longrightarrow> arr ! j = hs ! j"
    and "\<And>j. j < i \<Longrightarrow> arr ! j = pair_hash D hs ! j"
  shows "take ((length hs + 1) div 2) (root_loop D (length hs) i s arr) = pair_hash D hs"
  using assms(2-)
proof (induction "(length hs + 1) div 2 - i" arbitrary: i s arr)
  case 0
  then show ?case
    by (subst root_loop.simps) (auto intro!: nth_equalityI)
next
  case (Suc k)
  let ?b = "if i * 2 + 1 = length hs then hs ! (i * 2) else hs ! (i * 2 + 1)"
  have i: "i < (length hs + 1) div 2" using Suc.hyps(2) by simp
  then have a: "arr ! (i * 2) = hs ! (i * 2)"
      "(if i * 2 + 1 = length hs then arr ! (i * 2) else arr ! (i * 2 + 1)) = ?b"
    using Suc.prems(4) [of "i * 2"] Suc.prems(4) [of "i * 2 + 1"] by auto
  have "length (hs ! (i * 2)) = 32" "length ?b = 32" using i assms(1) by (auto simp: all_set_conv_all_nth)
  then have f: "fill_scratch (hs ! (i * 2)) ?b s = hs ! (i * 2) @ ?b"
    using Suc.prems(2) by (intro fill_scratch_eq)
  have "take ((length hs + 1) div 2) (root_loop D (length hs) (Suc i) (hs ! (i * 2) @ ?b)
      (arr[i := D (hs ! (i * 2) @ ?b)])) = pair_hash D hs"
  proof (rule Suc.hyps(1))
    show "k = (length hs + 1) div 2 - Suc i" using Suc.hyps(2) by simp
    show "length (hs ! (i * 2) @ ?b) = 64"
      using \<open>length (hs ! (i * 2)) = 32\<close> \<open>length ?b = 32\<close> by simp
    show "arr[i := D (hs ! (i * 2) @ ?b)] ! j = pair_hash D hs ! j" if "j < Suc i" for j
      using that i Suc.prems nth_pair_hash [OF i] by (cases "j = i") auto
  qed (use i Suc.prems in auto)
  then show ?case using i a f by (subst root_loop.simps) (simp add: Let_def)
qed

lemma CalcMerkleRoot_step:
  assumes "\<forall>h \<in> set hs. length h = 32" and "length hs \<ge> 2"
  shows "CalcMerkleRoot D hs = CalcMerkleRoot D (pair_hash D hs)"
  using assms root_loop_pairs [of hs hs "replicate 64 0" 0]
  by (subst CalcMerkleRoot.simps) auto

lemma build_root:
  assumes length_D: "\<And>b. length (D b) = 32"
    and "\<forall>n \<in> set ns. length (node_hash n) = 32" and "ns \<noteq> []"
  shows "\<exists>t. buildMerkleTree D ns = Some t \<and> node_hash t = CalcMerkleRoot D (map node_hash ns)"
  using assms(2,3)
proof (induction "length ns" arbitrary: ns rule: less_induct)
  case less
  show ?case
  proof (cases "length ns \<ge> 2")
    case True
    have "length (node_hash n) = 32" if "n \<in> set (pair_up D ns)" for n
      using that pair_hash_32 [of D "node_hash n" "map node_hash ns"]
      by (auto simp: length_D simp flip: hash_pair_up)
    moreover have "pair_up D ns \<noteq> []" using True by (simp flip: length_greater_0_conv)
    ultimately have "\<exists>t. buildMerkleTree D (pair_up D ns) = Some t \<and>
        node_hash t = CalcMerkleRoot D (map node_hash (pair_up D ns))"
      using True by (intro less.hyps) auto
    moreover have "buildMerkleTree D ns = buildMerkleTree D (pair_up D ns)"
      using True by (cases ns rule: remdups_adj.cases) auto
    ultimately show ?thesis
      using True less.prems CalcMerkleRoot_step [of "map node_hash ns"] by (simp add: hash_pair_up)
  next
    case False
    with less.prems obtain x where "ns = [x]" by (cases ns rule: remdups_adj.cases) auto
    then show ?thesis by (simp add: CalcMerkleRoot.simps)
  qed
qed

section \<open>Consistent trees\<close>

text \<open>Every inner hash is the digest of its children's hashes, and all leaves are at the same depth.\<close>

fun consistent :: "(bytes \<Rightarrow> hash) \<Rightarrow> nat \<Rightarrow> mnode \<Rightarrow> bool" where
  "consistent D d (MLeaf h) \<longleftrightarrow> d = 0 \<and> length h = 32"
| "consistent D d (MNode h l r) \<longleftrightarrow>
     (\<exists>d'. d = Suc d' \<and> consistent D d' l \<and> consistent D d' r) \<and> h = D (node_hash l @ node_hash r)"
| "consistent D d (MTwin h l) \<longleftrightarrow>
     (\<exists>d'. d = Suc d' \<and> consistent D d' l) \<and> h = D (node_hash l @ node_hash l)"

primrec leaves :: "mnode \<Rightarrow> hash set" where
  "leaves (MLeaf h) = {h}"
| "leaves (MNode _ l r) = leaves l \<union> leaves r"
| "leaves (MTwin _ l) = leaves l"

primrec climb :: "(bytes \<Rightarrow> hash) \<Rightarrow> hash \<Rightarrow> up_step list \<Rightarrow> hash" where
  "climb D h [] = h"
| "climb D h (x # up) = climb D (D (if fst x then h @ snd x else snd x @ h)) up"

lemma climb_snoc: "climb D h (up @ [(b, s)]) = D (if b then climb D h up @ s else s @ climb D h up)"
  by (induction up arbitrary: h) auto

lemma consistent_left_depth: "consistent D d t \<Longrightarrow> left_depth t = Suc d"
  by (induction t arbitrary: d) auto

lemma consistent_pair_up:
  "list_all (consistent D d) ns \<Longrightarrow> list_all (consistent D (Suc d)) (pair_up D ns)"
  by (induction D ns rule: pair_up.induct) auto

lemma leaves_pair_up: "\<Union> (leaves ` set (pair_up D ns)) = \<Union> (leaves ` set ns)"
  by (induction D ns rule: pair_up.induct) auto

lemma build_consistent:
  assumes "buildMerkleTree D ns = Some t" and "list_all (consistent D d) ns" and "length ns \<le> 2 ^ k"
  shows "(\<exists>e. consistent D e t \<and> e \<le> d + k) \<and> leaves t = \<Union> (leaves ` set ns)"
  using assms
proof (induction D ns arbitrary: d k rule: buildMerkleTree.induct [case_names empty one more])
  case (one D x)
  then show ?case by auto
next
  case (more D x y r)
  then obtain k' where k: "k = Suc k'" by (cases k) auto
  have "(\<exists>e. consistent D e t \<and> e \<le> Suc d + k') \<and>
      leaves t = \<Union> (leaves ` set (pair_up D (x # y # r)))"
    using more.prems consistent_pair_up [OF more.prems(2)] k by (intro more.IH) auto
  then show ?case using k by (simp add: leaves_pair_up Un_assoc)
qed simp

section \<open>Search and verification\<close>

lemma find_leaf_sound:
  assumes "find_leaf t st = Some up"
    and "\<forall>(n, u) \<in> set st. climb D (node_hash n) u = rt \<and> (\<exists>d. consistent D d n \<and> length u + d = e) \<and> (\<forall>x \<in> set u. length (snd x) = 32)"
    and "\<And>b. length (D b) = 32"
  shows "climb D t up = rt \<and> length up = e \<and> (\<forall>x \<in> set up. length (snd x) = 32)"
  using assms(1,2)
proof (induction t st rule: find_leaf.induct)
  case (2 t h up' st)
  then show ?case by (auto split: if_splits)
next
  case (3 t h l r up' st)
  have "length (node_hash n) = 32" if "consistent D d n" for d n
    using that assms(3) by (cases n) auto
  with 3 show ?case by fastforce
next
  case (4 t h l up' st)
  have "length (node_hash n) = 32" if "consistent D d n" for d n
    using that assms(3) by (cases n) auto
  with 4 show ?case by fastforce
qed simp

lemma find_leaf_complete:
  "t \<in> \<Union> ((leaves \<circ> fst) ` set st) \<Longrightarrow> \<exists>up. find_leaf t st = Some up"
  by (induction t st rule: find_leaf.induct) auto

lemma bit_path_bits:
  assumes "i + length up \<le> 32"
  shows "bit (path_bits i up) j \<longleftrightarrow> i \<le> j \<and> j < i + length up \<and> fst (up ! (j - i))"
  using assms
proof (induction i up rule: path_bits.induct)
  case (2 i left h up)
  then show ?case
    by (cases "j = i") (auto simp: bit_simps nth_Cons')
qed simp

lemma proof_loop_climb:
  assumes "\<And>b. length (D b) = 32" and "\<forall>h \<in> set hs. length h = 32" and "length p = 32" and "length s = 64"
  shows "proof_loop D path i s p hs = climb D p (zip (map (bit path) [i..<i + length hs]) hs)"
  using assms(2-)
proof (induction hs arbitrary: i s p)
  case (Cons h hs)
  have "drop_bit i path AND 1 = 1 \<longleftrightarrow> bit path i"
    by (simp add: bit_iff_and_drop_bit_eq_1)
  moreover have "[i..<i + length (h # hs)] = i # [Suc i..<Suc i + length hs]" by (simp add: upt_rec)
  ultimately show ?case using Cons assms(1) by (simp add: Let_def fill_scratch_eq)
qed simp

text \<open>The strings that building the tree and checking a proof hash.\<close>

fun tree_strings :: "mnode \<Rightarrow> bytes set" where
  "tree_strings (MLeaf h) = {}"
| "tree_strings (MNode h l r) = insert (node_hash l @ node_hash r) (tree_strings l \<union> tree_strings r)"
| "tree_strings (MTwin h l) = insert (node_hash l @ node_hash l) (tree_strings l)"

fun climb_strings :: "(bytes \<Rightarrow> hash) \<Rightarrow> hash \<Rightarrow> up_step list \<Rightarrow> bytes set" where
  "climb_strings D p [] = {}"
| "climb_strings D p ((left, h) # up) =
     (let s = (if left then p @ h else h @ p) in insert s (climb_strings D (D s) up))"

definition proof_strings :: "(bytes \<Rightarrow> hash) \<Rightarrow> hash \<Rightarrow> hash list \<Rightarrow> u32 \<Rightarrow> bytes set" where
  "proof_strings D target hs path = climb_strings D target (zip (map (bit path) [0..<length hs]) hs)"

lemma climb_strings_snoc:
  "climb_strings D p (up @ [(left, h)]) =
     insert (if left then climb D p up @ h else h @ climb D p up) (climb_strings D p up)"
  by (induction D p up rule: climb_strings.induct) (auto simp: Let_def)

lemma climb_collision:
  assumes "climb D p (zip bs hs) = node_hash t" and "consistent D (length hs) t"
    and "length bs = length hs" and "length p = 32" and "\<forall>h \<in> set hs. length h = 32"
    and "\<And>b. length (D b) = 32"
  shows "p \<in> leaves t \<or> (\<exists>a \<in> climb_strings D p (zip bs hs). \<exists>b \<in> tree_strings t. a \<noteq> b \<and> D a = D b)"
  using assms(1-5)
proof (induction hs arbitrary: bs t rule: rev_induct)
  case Nil
  then show ?case by (cases t) auto
next
  case (snoc h hs)
  then obtain b bs' where b: "bs = bs' @ [b]" "length bs' = length hs"
    by (cases bs rule: rev_cases) auto
  let ?c = "climb D p (zip bs' hs)"
  have len: "length (climb D q (zip cs gs)) = 32" if "length q = 32" for q cs gs
    using that assms(6) by (induction gs arbitrary: q cs) (auto simp: zip_Cons split: list.splits)
  have nl: "length (node_hash n) = 32" if "consistent D d n" for d n
    using that assms(6) by (cases n) auto
  define x where "x = (if b then ?c @ h else h @ ?c)"
  have D: "D x = node_hash t" using snoc.prems(1) b by (simp add: climb_snoc x_def)
  have strs: "climb_strings D p (zip bs (hs @ [h])) = insert x (climb_strings D p (zip bs' hs))"
    using b by (simp add: climb_strings_snoc x_def)
  obtain l r where t: "node_hash t = D (node_hash l @ node_hash r)" "consistent D (length hs) l"
      "consistent D (length hs) r" "leaves l \<union> leaves r = leaves t"
      "tree_strings t = insert (node_hash l @ node_hash r) (tree_strings l \<union> tree_strings r)"
    using snoc.prems(2) by (cases t) auto
  show ?case
  proof (cases "x = node_hash l @ node_hash r")
    case True
    with nl t have "?c = node_hash l \<or> ?c = node_hash r"
      using snoc.prems len [of p bs' hs] by (auto simp: x_def split: if_splits)
    then show ?thesis
    proof
      assume "?c = node_hash l"
      from snoc.IH [OF this t(2) b(2)] snoc.prems(4,5) show ?thesis unfolding strs using t(4,5) by auto
    next
      assume "?c = node_hash r"
      from snoc.IH [OF this t(3) b(2)] snoc.prems(4,5) show ?thesis unfolding strs using t(4,5) by auto
    qed
  next
    case False
    with D t(1,5) show ?thesis unfolding strs by auto
  qed
qed

section \<open>Properties\<close>

text \<open>A digest of 32 bytes for the examples: the first 32 bytes of the padded input.\<close>

definition head_digest :: "bytes \<Rightarrow> hash" where
  "head_digest b = take 32 (b @ replicate 32 0)"

text \<open>
  C32. For a non-empty list of 32-byte hashes, at most 2 ^ 32 of them, the tree's root is what the
  in-place computation of \<open>CalcMerkleRoot\<close> returns, and \<open>Prove\<close> finds for every leaf a proof
  that \<open>VerifyMerkleProof\<close> accepts against that root.
\<close>

theorem merkle_prove_verify:
  assumes "\<And>b. length (D b) = 32" and "\<forall>h \<in> set hs. length h = 32" and "length hs \<le> 2 ^ 32"
    and "x \<in> set hs"
  shows "\<exists>t ps path. NewMerkleTree D hs = Inr t \<and> node_hash t = CalcMerkleRoot D hs \<and>
     Prove t x = Inr (ps, path) \<and> VerifyMerkleProof D (CalcMerkleRoot D hs) x ps path"
proof -
  obtain t where t: "buildMerkleTree D (map MLeaf hs) = Some t" "node_hash t = CalcMerkleRoot D hs"
    using build_root [of D "map MLeaf hs"] assms by (force simp: comp_def)
  have "list_all (consistent D 0) (map MLeaf hs)" using assms(2) by (simp add: list_all_iff)
  from build_consistent [OF t(1) this, of 32] assms(3)
  obtain d where d: "consistent D d t" "d \<le> 32" and lv: "leaves t = set hs" by auto
  obtain up where up: "find_leaf x [(t, [])] = Some up"
    using find_leaf_complete [of x "[(t, [])]"] assms(4) lv by auto
  have "climb D x up = node_hash t \<and> length up = d \<and> (\<forall>y \<in> set up. length (snd y) = 32)"
    using d(1) by (intro find_leaf_sound [OF up _ assms(1)]) auto
  then have c: "climb D x up = node_hash t" "length up = d" "\<forall>y \<in> set up. length (snd y) = 32"
    by auto
  have "map (bit (path_bits 0 up)) [0..<length up] = map fst up"
    using c(2) d(2) by (auto simp: bit_path_bits intro!: nth_equalityI)
  then have "CalcProofRoot D x (map snd up) (path_bits 0 up) = node_hash t"
    using c assms proof_loop_climb [of D "map snd up" x "replicate 64 0" "path_bits 0 up" 0]
    by (simp add: CalcProofRoot_def zip_map_fst_snd)
  then show ?thesis using t up assms(4)
    by (intro exI [of _ t] exI [of _ "map snd up"] exI [of _ "path_bits 0 up"])
      (auto simp: NewMerkleTree_def Prove_def VerifyMerkleProof_def)
qed

theorem merkle_prove_verify_witness:
  "\<exists>t ps path. NewMerkleTree head_digest [replicate 32 1, replicate 32 2, replicate 32 3] = Inr t \<and>
     node_hash t = CalcMerkleRoot head_digest [replicate 32 1, replicate 32 2, replicate 32 3] \<and>
     Prove t (replicate 32 3) = Inr (ps, path) \<and>
     VerifyMerkleProof head_digest
       (CalcMerkleRoot head_digest [replicate 32 1, replicate 32 2, replicate 32 3]) (replicate 32 3) ps path"
  by (rule merkle_prove_verify) (simp_all add: head_digest_def)

text \<open>
  C33. A proof as long as the tree is deep is only accepted for a leaf of the tree, unless the digest
  collides on the strings at hand: one of the strings that the check of this proof hashes differs
  from one of the strings that building this tree hashes, and both have the same digest.
\<close>

theorem merkle_proof_sound:
  assumes "\<And>b. length (D b) = 32" and "\<forall>h \<in> set hs. length h = 32" and "length hs \<le> 2 ^ 32"
    and "NewMerkleTree D hs = Inr t" and "length ps = left_depth t - 1"
    and "\<forall>h \<in> set ps. length h = 32" and "length x = 32"
    and "VerifyMerkleProof D (node_hash t) x ps path"
  shows "x \<in> set hs \<or> (\<exists>a \<in> proof_strings D x ps path. \<exists>b \<in> tree_strings t. a \<noteq> b \<and> D a = D b)"
proof -
  have t: "buildMerkleTree D (map MLeaf hs) = Some t"
    using assms(4) by (auto simp: NewMerkleTree_def split: if_splits option.splits)
  have "list_all (consistent D 0) (map MLeaf hs)" using assms(2) by (simp add: list_all_iff)
  from build_consistent [OF t this, of 32] assms(3)
  obtain d where d: "consistent D d t" and lv: "leaves t = set hs" by auto
  with assms(5) consistent_left_depth [OF d] have len: "length ps = d" by simp
  have "climb D x (zip (map (bit path) [0..<length ps]) ps) = node_hash t"
    using assms proof_loop_climb [of D ps x "replicate 64 0" path 0]
    by (simp add: VerifyMerkleProof_def CalcProofRoot_def)
  from climb_collision [OF this] d len assms lv show ?thesis by (simp add: proof_strings_def)
qed

text \<open>For the digest of the example the strings at hand are one string, so that nothing collides.\<close>

theorem merkle_proof_sound_witness:
  "VerifyMerkleProof head_digest (replicate 32 1) (replicate 32 3) [replicate 32 1] 0 \<and>
     replicate 32 3 \<in> set [replicate 32 (1 :: byte), replicate 32 3]"
proof -
  let ?t = "MNode (replicate 32 1) (MLeaf (replicate 32 1)) (MLeaf (replicate 32 3)) :: mnode"
  have v: "VerifyMerkleProof head_digest (replicate 32 1) (replicate 32 3) [replicate 32 1] 0"
    by (simp add: head_digest_def VerifyMerkleProof_def CalcProofRoot_def fill_scratch_eq)
  have "replicate 32 3 \<in> set [replicate 32 (1 :: byte), replicate 32 3] \<or>
     (\<exists>a \<in> proof_strings head_digest (replicate 32 3) [replicate 32 1] 0. \<exists>b \<in> tree_strings ?t. a \<noteq> b \<and> head_digest a = head_digest b)"
    by (rule merkle_proof_sound) (use v in \<open>simp_all add: head_digest_def NewMerkleTree_def\<close>)
  then show ?thesis using v by (auto simp: proof_strings_def)
qed

text \<open>
  Repeating the last hash of a list of odd length does not change the root, so a block's
  Merkle root does not determine its list of transactions.
\<close>

theorem merkle_root_duplicate:
  assumes "\<And>b. length (D b) = 32" and "\<forall>h \<in> set (hs @ [x]). length h = 32" and "even (length hs)" and "hs \<noteq> []"
  shows "CalcMerkleRoot D (hs @ [x, x]) = CalcMerkleRoot D (hs @ [x])"
proof -
  have "pair_hash D (hs @ [x, x]) = pair_hash D (hs @ [x])"
    using assms(3) by (induction D hs rule: pair_hash.induct) auto
  moreover have "length hs \<ge> 2" using assms(3,4) by (cases hs rule: remdups_adj.cases) auto
  ultimately show ?thesis
    using assms CalcMerkleRoot_step [of "hs @ [x, x]" D] CalcMerkleRoot_step [of "hs @ [x]" D] by simp
qed

theorem merkle_root_duplicate_witness:
  "CalcMerkleRoot head_digest ([replicate 32 1, replicate 32 2] @ [replicate 32 3, replicate 32 3]) =
   CalcMerkleRoot head_digest ([replicate 32 1, replicate 32 2] @ [replicate 32 3])"
  by (rule merkle_root_duplicate) (simp_all add: head_digest_def)

end
