(* ===== verification/Blocks.thy ===== *)
theory Blocks
  imports Transactions Merkle Storage
begin

text \<open>
  Block headers and blocks: src/pkg/core/block/header.go and block.go, and the state roots of
  src/pkg/core/state/mpt_root.go, which share their layout. The cached hash of a header is
  recomputed. A block that was read back from the database holds trimmed transactions, of which only
  the hash is known. The JSON forms are left out.
\<close>

section \<open>Headers\<close>

record block_header =
  h_Version :: u32
  h_PrevHash :: hash
  h_MerkleRoot :: hash
  h_Timestamp :: u64
  h_Nonce :: u64
  h_Index :: u32
  h_NextConsensus :: address
  h_Witness :: witness
  h_PrimaryIndex :: byte

definition header_encodeHashableFields :: "block_header \<Rightarrow> bin_writer \<Rightarrow> bin_writer" where
  "header_encodeHashableFields b w =
     (let w1 = WriteU32LE (h_Version b) w;
          w2 = WriteBytes (h_PrevHash b) w1;
          w3 = WriteBytes (h_MerkleRoot b) w2;
          w4 = WriteU64LE (h_Timestamp b) w3;
          w5 = WriteU64LE (h_Nonce b) w4;
          w6 = WriteU32LE (h_Index b) w5;
          w7 = WriteB (h_PrimaryIndex b) w6 in
      WriteBytes (h_NextConsensus b) w7)"

definition encode_block_header :: "block_header \<Rightarrow> bin_writer \<Rightarrow> bin_writer" where
  "encode_block_header b w = encode_witness (h_Witness b) (WriteVarUint 1 (header_encodeHashableFields b w))"

definition header_decodeHashableFields :: "bin_reader \<Rightarrow> block_header \<times> bin_reader" where
  "header_decodeHashableFields r =
     (let (v, r1) = ReadU32LE r;
          (prev, r2) = ReadBytes (replicate 32 0) r1;
          (root, r3) = ReadBytes (replicate 32 0) r2;
          (time, r4) = ReadU64LE r3;
          (nonce, r5) = ReadU64LE r4;
          (index, r6) = ReadU32LE r5;
          (primary, r7) = ReadB r6;
          (next, r8) = ReadBytes (replicate 20 0) r7 in
      (\<lparr>h_Version = v, h_PrevHash = prev, h_MerkleRoot = root, h_Timestamp = time, h_Nonce = nonce,
        h_Index = index, h_NextConsensus = next,
        h_Witness = \<lparr>InvocationScript = [], VerificationScript = []\<rparr>, h_PrimaryIndex = primary\<rparr>, r8))"

definition wrong_witness_count :: io_error where
  "wrong_witness_count = Errorf ''wrong witness count'' 0"

definition decode_block_header :: "bin_reader \<Rightarrow> block_header \<times> bin_reader" where
  "decode_block_header r =
     (let (b, r1) = header_decodeHashableFields r;
          (count, r2) = ReadVarUint r1 in
      if Err r2 = None \<and> count \<noteq> 1 then (b, r2\<lparr>Err := Some wrong_witness_count\<rparr>)
      else let (x, r3) = decode_witness r2 in (b\<lparr>h_Witness := x\<rparr>, r3))"

definition header_Hash :: "'a crypto_lib_scheme \<Rightarrow> block_header \<Rightarrow> hash" where
  "header_Hash lib b = Sha256 lib (the (fst (Bytes (header_encodeHashableFields b NewBufBinWriter))))"

section \<open>State roots\<close>

record mpt_root =
  r_Version :: byte
  r_Index :: u32
  r_Root :: hash
  r_Witness :: witness

definition root_EncodeBinaryUnsigned :: "mpt_root \<Rightarrow> bin_writer \<Rightarrow> bin_writer" where
  "root_EncodeBinaryUnsigned s w = WriteBytes (r_Root s) (WriteU32LE (r_Index s) (WriteB (r_Version s) w))"

definition root_DecodeBinaryUnsigned :: "bin_reader \<Rightarrow> mpt_root \<times> bin_reader" where
  "root_DecodeBinaryUnsigned r =
     (let (v, r1) = ReadB r; (i, r2) = ReadU32LE r1; (root, r3) = ReadBytes (replicate 32 0) r2 in
      (\<lparr>r_Version = v, r_Index = i, r_Root = root,
        r_Witness = \<lparr>InvocationScript = [], VerificationScript = []\<rparr>\<rparr>, r3))"

definition encode_root :: "mpt_root \<Rightarrow> bin_writer \<Rightarrow> bin_writer" where
  "encode_root s w = encode_witness (r_Witness s) (WriteVarUint 1 (root_EncodeBinaryUnsigned s w))"

definition decode_root :: "bin_reader \<Rightarrow> mpt_root \<times> bin_reader" where
  "decode_root r =
     (let (s, r1) = root_DecodeBinaryUnsigned r;
          (count, r2) = ReadVarUint r1 in
      if Err r2 = None \<and> count \<noteq> 1 then (s, r2\<lparr>Err := Some wrong_witness_count\<rparr>)
      else let (x, r3) = decode_witness r2 in (s\<lparr>r_Witness := x\<rparr>, r3))"

definition root_Hash :: "'a crypto_lib_scheme \<Rightarrow> mpt_root \<Rightarrow> hash" where
  "root_Hash lib s = Sha256 lib (the (fst (Bytes (root_EncodeBinaryUnsigned s NewBufBinWriter))))"

section \<open>Blocks\<close>

datatype 'e block_tx = FullTx "'e transaction" | TrimmedTX hash

fun btx_Hash :: "'e tx_lib \<Rightarrow> 'e block_tx \<Rightarrow> hash" where
  "btx_Hash lib (FullTx t) = tx_Hash lib t"
| "btx_Hash lib (TrimmedTX h) = h"

record 'e block =
  b_Header :: block_header
  b_Transactions :: "'e block_tx list"
  b_Trimmed :: bool

datatype block_error = ErrMaxContentsPerBlock | BlockIo io_error

definition ComputeMerkleRoot :: "'e tx_lib \<Rightarrow> 'e block \<Rightarrow> hash" where
  "ComputeMerkleRoot lib b =
     CalcMerkleRoot (\<lambda>b. Sha256 lib (Sha256 lib b)) (map (btx_Hash lib) (b_Transactions b))"

definition RebuildMerkleRoot :: "'e tx_lib \<Rightarrow> 'e block \<Rightarrow> 'e block" where
  "RebuildMerkleRoot lib b = b\<lparr>b_Header := (b_Header b)\<lparr>h_MerkleRoot := ComputeMerkleRoot lib b\<rparr>\<rparr>"

definition EncodeTrimmed :: "'e tx_lib \<Rightarrow> 'e block \<Rightarrow> bin_writer \<Rightarrow> bin_writer" where
  "EncodeTrimmed lib b w =
     fold (\<lambda>t. WriteBytes (btx_Hash lib t)) (b_Transactions b)
       (WriteVarUint (of_nat (length (b_Transactions b))) (encode_block_header (b_Header b) w))"

definition NewTrimmedFromReader :: "bin_reader \<Rightarrow> block_error + 'e block" where
  "NewTrimmedFromReader r =
     (let (h, r1) = decode_block_header r;
          (n, r2) = ReadVarUint r1 in
      if n > of_nat MaxTransactionsPerBlock then Inl ErrMaxContentsPerBlock
      else let (hashes, r3) = ReadElems (ReadBytes (replicate 32 0)) (unat n) r2 in
        case Err r3 of
          Some e \<Rightarrow> Inl (BlockIo e)
        | None \<Rightarrow> Inr \<lparr>b_Header = h, b_Transactions = map TrimmedTX hashes, b_Trimmed = True\<rparr>)"

text \<open>Encoding a trimmed transaction panics, because it has no body; decoding yields full ones.\<close>

fun btx_encode :: "'e tx_lib \<Rightarrow> 'e block_tx \<Rightarrow> bin_writer \<Rightarrow> bin_writer option" where
  "btx_encode lib (FullTx t) w = Some (tx_encode lib t w)"
| "btx_encode lib (TrimmedTX h) w = None"

fun encode_txes :: "'e tx_lib \<Rightarrow> 'e block_tx list \<Rightarrow> bin_writer \<Rightarrow> bin_writer option" where
  "encode_txes lib [] w = Some w"
| "encode_txes lib (t # ts) w = Option.bind (btx_encode lib t w) (encode_txes lib ts)"

definition encode_block :: "'e tx_lib \<Rightarrow> 'e block \<Rightarrow> bin_writer \<Rightarrow> bin_writer option" where
  "encode_block lib b w =
     encode_txes lib (b_Transactions b)
       (WriteVarUint (of_nat (length (b_Transactions b))) (encode_block_header (b_Header b) w))"

text \<open>A transaction of unknown type is left empty in the block; the error of the reader is set then.\<close>

definition decode_block :: "'e tx_lib \<Rightarrow> bin_reader \<Rightarrow> 'e block \<times> bin_reader" where
  "decode_block lib r =
     (let (h, r1) = decode_block_header r;
          (n, r2) = ReadVarUint r1;
          b = \<lparr>b_Header = h, b_Transactions = [], b_Trimmed = False\<rparr> in
      if n > of_nat MaxTransactionsPerBlock
      then (b, r2\<lparr>Err := Some (Errorf ''the number of contents exceeds the maximum'' 0)\<rparr>)
      else let (ts, r3) = ReadElems (tx_decode lib) (unat n) r2 in
        (b\<lparr>b_Transactions := map FullTx (List.map_filter id ts)\<rparr>, r3))"

definition header_zero :: block_header where
  "header_zero = \<lparr>h_Version = 0, h_PrevHash = replicate 32 0, h_MerkleRoot = replicate 32 0, h_Timestamp = 0,
     h_Nonce = 0, h_Index = 0, h_NextConsensus = replicate 20 0,
     h_Witness = \<lparr>InvocationScript = [], VerificationScript = []\<rparr>, h_PrimaryIndex = 0\<rparr>"

definition expectedHeaderSizeWithEmptyWitness :: nat where
  "expectedHeaderSizeWithEmptyWitness = the (GetVarSize (GPtr (encode_block_header header_zero)))"

definition GetExpectedBlockSizeWithoutTransactions :: "'e block \<Rightarrow> nat \<Rightarrow> nat" where
  "GetExpectedBlockSizeWithoutTransactions b txCount =
     expectedHeaderSizeWithEmptyWitness - 1 - 1 +
     the (GetVarSize (GPtr (encode_witness (h_Witness (b_Header b))))) +
     the (GetVarSize (GInt (of_nat txCount)))"

definition GetExpectedBlockSize :: "'e tx_lib \<Rightarrow> 'e block \<Rightarrow> nat" where
  "GetExpectedBlockSize lib b =
     GetExpectedBlockSizeWithoutTransactions b (length (b_Transactions b)) +
     sum_list (map (\<lambda>t. case t of FullTx x \<Rightarrow> tx_Size lib x | TrimmedTX _ \<Rightarrow> 0) (b_Transactions b))"

section \<open>Codecs\<close>

definition hashable_bytes :: "block_header \<Rightarrow> bytes" where
  "hashable_bytes b = put_le 4 (h_Version b) @ h_PrevHash b @ h_MerkleRoot b @ put_le 8 (h_Timestamp b) @
     put_le 8 (h_Nonce b) @ put_le 4 (h_Index b) @ [h_PrimaryIndex b] @ h_NextConsensus b"

definition header_ok :: "block_header \<Rightarrow> bool" where
  "header_ok b \<longleftrightarrow> length (h_PrevHash b) = 32 \<and> length (h_MerkleRoot b) = 32 \<and>
     length (h_NextConsensus b) = 20 \<and> witness_ok (h_Witness b)"

definition root_bytes :: "mpt_root \<Rightarrow> bytes" where
  "root_bytes s = [r_Version s] @ put_le 4 (r_Index s) @ r_Root s"

definition root_ok :: "mpt_root \<Rightarrow> bool" where
  "root_ok s \<longleftrightarrow> length (r_Root s) = 32 \<and> witness_ok (r_Witness s)"

lemma header_encodeHashableFields_eq:
  "header_encodeHashableFields b w = WriteBytes (hashable_bytes b) w"
  by (simp add: header_encodeHashableFields_def hashable_bytes_def WriteU32LE_def WriteU64LE_def WriteB_def)

lemma header_Hash_eq: "header_Hash lib b = Sha256 lib (hashable_bytes b)"
  by (simp add: header_Hash_def header_encodeHashableFields_eq Bytes_WriteBytes_new)

lemma root_Hash_eq: "root_Hash lib s = Sha256 lib (root_bytes s)"
  by (simp add: root_Hash_def root_EncodeBinaryUnsigned_def root_bytes_def WriteU32LE_def WriteB_def
      Bytes_WriteBytes_new)

lemma header_decodeHashableFields_bytes:
  assumes "header_ok b"
  shows "header_decodeHashableFields (rd (hashable_bytes b @ rest)) =
     (b\<lparr>h_Witness := \<lparr>InvocationScript = [], VerificationScript = []\<rparr>\<rparr>, rd rest)"
  using assms by (cases b)
    (simp add: header_decodeHashableFields_def hashable_bytes_def header_ok_def codec_simps ReadBytes_exact)

lemma ReadVarUint_one: "ReadVarUint (rd (var_uint 1 @ rest)) = (1, rd rest)"
  by (rule ReadVarUint_var_uint)

interpretation header_codec: codec encode_block_header decode_block_header
  "\<lambda>b. hashable_bytes b @ var_uint 1 @ witness_bytes (h_Witness b)" header_ok
proof unfold_locales
  fix b rest
  assume "header_ok b"
  then show "decode_block_header (rd ((hashable_bytes b @ var_uint 1 @ witness_bytes (h_Witness b)) @ rest)) = (b, rd rest)"
    by (simp add: decode_block_header_def header_decodeHashableFields_bytes ReadVarUint_one witness_codec.dec_bytes
        header_ok_def)
qed (simp add: encode_block_header_def header_encodeHashableFields_eq WriteVarUint_eq witness_codec.enc_bytes)

interpretation root_codec: codec encode_root decode_root
  "\<lambda>s. root_bytes s @ var_uint 1 @ witness_bytes (r_Witness s)" root_ok
proof unfold_locales
  fix s rest
  assume "root_ok s"
  then show "decode_root (rd ((root_bytes s @ var_uint 1 @ witness_bytes (r_Witness s)) @ rest)) = (s, rd rest)"
    by (cases s) (simp add: decode_root_def root_DecodeBinaryUnsigned_def root_bytes_def root_ok_def codec_simps
        ReadBytes_exact witness_codec.dec_bytes)
qed (simp add: encode_root_def root_EncodeBinaryUnsigned_def root_bytes_def WriteU32LE_def WriteB_def
      WriteVarUint_eq witness_codec.enc_bytes)

interpretation hash_codec: codec WriteBytes "ReadBytes (replicate 32 0)" "\<lambda>h. h" "\<lambda>h. length h = 32"
  by unfold_locales (simp_all add: ReadBytes_exact)

definition trimmed_bytes :: "'e tx_lib \<Rightarrow> 'e block \<Rightarrow> bytes" where
  "trimmed_bytes lib b = hashable_bytes (b_Header b) @ var_uint 1 @ witness_bytes (h_Witness (b_Header b)) @
     var_uint (of_nat (length (b_Transactions b))) @ concat (map (btx_Hash lib) (b_Transactions b))"

definition trimmed :: "'e tx_lib \<Rightarrow> 'e block \<Rightarrow> 'e block" where
  "trimmed lib b = b\<lparr>b_Transactions := map (TrimmedTX \<circ> btx_Hash lib) (b_Transactions b), b_Trimmed := True\<rparr>"

definition block_ok :: "'e tx_lib \<Rightarrow> 'e block \<Rightarrow> bool" where
  "block_ok lib b \<longleftrightarrow> header_ok (b_Header b) \<and> length (b_Transactions b) \<le> 65535 \<and>
     (\<forall>t \<in> set (b_Transactions b). length (btx_Hash lib t) = 32)"

lemma EncodeTrimmed_eq: "EncodeTrimmed lib b w = WriteBytes (trimmed_bytes lib b) w"
proof -
  have "fold (\<lambda>t. WriteBytes (btx_Hash lib t)) ts w = WriteBytes (concat (map (btx_Hash lib) ts)) w" for ts w
    by (induction ts arbitrary: w) simp_all
  then show ?thesis
    by (simp add: EncodeTrimmed_def trimmed_bytes_def header_codec.enc_bytes WriteVarUint_eq)
qed

lemma NewTrimmedFromReader_trimmed:
  assumes "block_ok lib b"
  shows "NewTrimmedFromReader (rd (trimmed_bytes lib b @ rest)) = Inr (trimmed lib b)"
proof -
  let ?hs = "map (btx_Hash lib) (b_Transactions b)"
  have len: "length (b_Transactions b) \<le> 65535" and ok: "list_all (\<lambda>h. length h = 32) ?hs"
    and h: "header_ok (b_Header b)"
    using assms by (auto simp: block_ok_def list_all_iff)
  have n: "unat (of_nat (length (b_Transactions b)) :: u64) = length (b_Transactions b)"
    using len by (simp add: unsigned_of_nat take_bit_nat_eq_self_iff)
  then have small: "\<not> of_nat (length (b_Transactions b)) > (of_nat MaxTransactionsPerBlock :: u64)"
    using len by (simp add: MaxTransactionsPerBlock_def word_less_nat_alt)
  have hs: "ReadElems (ReadBytes (replicate 32 0)) (length (b_Transactions b)) (rd (concat ?hs @ rest)) = (?hs, rd rest)"
    using hash_codec.ReadElems_bytes [OF ok, of rest] by simp
  show ?thesis
    using header_codec.dec_bytes [OF h, of "var_uint (of_nat (length (b_Transactions b))) @ concat ?hs @ rest"]
      hs small n
    by (simp add: NewTrimmedFromReader_def trimmed_bytes_def trimmed_def codec_simps ReadVarUint_var_uint comp_def)
qed

end
