(* ===== verification/Dao.thy ===== *)
theory Dao
  imports Blocks
begin

text \<open>
  The data access object of src/pkg/core/dao/dao.go: keys and records of blocks, transactions,
  storage items, heights and header hashes over a caching store. The reused buffers of a private
  object matter only through their capacity, past which slicing panics. Receipts and their JSON form
  are go-ethereum's and enter as a type and two functions.
\<close>

section \<open>Data\<close>

record dao_version =
  StoragePrefix :: byte
  KeepOnlyLatestState :: bool
  VersionValue :: bytes

record simple =
  Version :: dao_version
  Store :: store
  d_private :: bool

datatype dao_error =
    DaoStore store_error | DaoMsg string | DaoBlock block_error | DaoIo io_error
  | ErrAlreadyExists | DaoPanic string

record 'r receipt_lib =
  json_Marshal :: "'r \<Rightarrow> string + bytes"
  json_Unmarshal :: "bytes \<Rightarrow> string + 'r"

definition SYSCurrentBlock :: byte where "SYSCurrentBlock = 0xc0"
definition SYSCurrentHeader :: byte where "SYSCurrentHeader = 0xc1"
definition SYSStateSyncPoint :: byte where "SYSStateSyncPoint = 0xc3"
definition SYSVersion :: byte where "SYSVersion = 0xf0"
definition IXHeaderHashList :: byte where "IXHeaderHashList = 0x80"

definition newSimple :: "store \<Rightarrow> simple" where
  "newSimple st = \<lparr>Version = \<lparr>StoragePrefix = STStorage, KeepOnlyLatestState = False, VersionValue = []\<rparr>,
     Store = st, d_private = False\<rparr>"

definition NewSimple :: "store \<Rightarrow> simple" where
  "NewSimple backend = newSimple (NewMemCachedStore backend)"

definition GetWrapped :: "simple \<Rightarrow> simple" where
  "GetWrapped dao = (NewSimple (Store dao))\<lparr>Version := Version dao\<rparr>"

definition GetPrivate :: "simple \<Rightarrow> simple" where
  "GetPrivate dao = dao\<lparr>Store := NewPrivateMemCachedStore (Store dao), d_private := True\<rparr>"

text \<open>The buffer for a key; \<open>None\<close> is the panic past its capacity.\<close>

definition getKeyBuf :: "simple \<Rightarrow> nat \<Rightarrow> bytes option" where
  "getKeyBuf dao n = (if d_private dao \<and> n > 1 + 4 + MaxStorageKeyLen then None else Some (replicate n 0))"

definition GetAndDecode :: "simple \<Rightarrow> (bin_reader \<Rightarrow> 'a \<times> bin_reader) \<Rightarrow> bytes \<Rightarrow> dao_error + 'a" where
  "GetAndDecode dao dec key = (case StoreGet (Store dao) key of
     Inl e \<Rightarrow> Inl (DaoStore e)
   | Inr b \<Rightarrow> (let (x, r) = dec (NewBinReaderFromBuf b) in
       case Err r of Some e \<Rightarrow> Inl (DaoIo e) | None \<Rightarrow> Inr x))"

definition put_record :: "simple \<Rightarrow> bytes \<Rightarrow> bytes \<Rightarrow> dao_error + simple" where
  "put_record dao key b = (case StorePut key b (Store dao) of
     Inl e \<Rightarrow> Inl (DaoStore e) | Inr st \<Rightarrow> Inr (dao\<lparr>Store := st\<rparr>))"

section \<open>Blocks\<close>

definition makeHashKey :: "simple \<Rightarrow> byte \<Rightarrow> hash \<Rightarrow> bytes option" where
  "makeHashKey dao p h =
     map_option (\<lambda>buf. copy_at 1 h (buf[0 := p])) (getKeyBuf dao (1 + 32))"

definition makeBlockKey :: "simple \<Rightarrow> hash \<Rightarrow> bytes option" where
  "makeBlockKey dao h = makeHashKey dao DataBlock h"

definition with_key :: "bytes option \<Rightarrow> (bytes \<Rightarrow> dao_error + 'a) \<Rightarrow> dao_error + 'a" where
  "with_key k f = (case k of None \<Rightarrow> Inl (DaoPanic ''slice bounds out of range'') | Some key \<Rightarrow> f key)"

definition getBlock :: "'r receipt_lib \<Rightarrow> simple \<Rightarrow> bytes \<Rightarrow> dao_error + ('e block \<times> 'r option)" where
  "getBlock rl dao key = (case StoreGet (Store dao) key of
     Inl e \<Rightarrow> Inl (DaoStore e)
   | Inr b \<Rightarrow>
       (let (bb, r1) = ReadVarBytes MaxArraySize (NewBinReaderFromBuf b);
            (rb, r2) = ReadVarBytes MaxArraySize r1 in
        case NewTrimmedFromReader (NewBinReaderFromBuf (or_nil bb)) of
          Inl e \<Rightarrow> Inl (DaoBlock e)
        | Inr blk \<Rightarrow>
            if or_nil rb = [] then Inr (blk, None)
            else case json_Unmarshal rl (or_nil rb) of
              Inl e \<Rightarrow> Inl (DaoMsg e)
            | Inr receipt \<Rightarrow> Inr (blk, Some receipt)))"

definition GetHeader :: "'r receipt_lib \<Rightarrow> simple \<Rightarrow> hash \<Rightarrow> dao_error + block_header" where
  "GetHeader rl dao h = with_key (makeBlockKey dao h) (\<lambda>key.
     bind_res (getBlock rl dao key :: dao_error + (unit block \<times> 'r option)) (\<lambda>(blk, _). Inr (b_Header blk)))"

definition GetBlock :: "'r receipt_lib \<Rightarrow> simple \<Rightarrow> hash \<Rightarrow> dao_error + ('e block \<times> 'r)" where
  "GetBlock rl dao h = with_key (makeBlockKey dao h) (\<lambda>key.
     bind_res (getBlock rl dao key) (\<lambda>(blk, receipt).
       case receipt of None \<Rightarrow> Inl (DaoMsg ''only header'') | Some r \<Rightarrow> Inr (blk, r)))"

definition StoreAsBlock :: "'e tx_lib \<Rightarrow> 'r receipt_lib \<Rightarrow> 'e block \<Rightarrow> 'r option \<Rightarrow> simple \<Rightarrow> dao_error + simple" where
  "StoreAsBlock lib rl blk receipt dao = with_key (makeBlockKey dao (header_Hash lib (b_Header blk))) (\<lambda>key.
     let w = EncodeTrimmed lib blk NewBufBinWriter in
     case WErr w of
       Some e \<Rightarrow> Inl (DaoIo e)
     | None \<Rightarrow> bind_res (case receipt of
           None \<Rightarrow> Inr []
         | Some r \<Rightarrow> (case json_Marshal rl r of Inl e \<Rightarrow> Inl (DaoMsg e) | Inr b \<Rightarrow> Inr b)) (\<lambda>rb.
         put_record dao key (or_nil (fst (Bytes
           (WriteVarBytes rb (WriteVarBytes (or_nil (fst (Bytes w))) NewBufBinWriter))))))) "

definition StoreAsHeader :: "'e tx_lib \<Rightarrow> 'r receipt_lib \<Rightarrow> block_header \<Rightarrow> simple \<Rightarrow> dao_error + simple" where
  "StoreAsHeader lib rl h dao =
     StoreAsBlock lib rl \<lparr>b_Header = h, b_Transactions = [], b_Trimmed = True\<rparr> None dao"

text \<open>\<open>DeleteBlock\<close> overwrites the hash in the key of the block with the hash of each transaction.\<close>

fun delete_keys :: "bytes \<Rightarrow> hash list \<Rightarrow> store \<Rightarrow> dao_error + store" where
  "delete_keys key [] st = Inr st"
| "delete_keys key (h # hs) st = (case StoreDelete (copy_at 1 h key) st of
     Inl e \<Rightarrow> Inl (DaoStore e)
   | Inr st' \<Rightarrow> delete_keys key hs st')"

definition DeleteBlock :: "'e tx_lib \<Rightarrow> 'r receipt_lib \<Rightarrow> hash \<Rightarrow> simple \<Rightarrow> dao_error + simple" where
  "DeleteBlock lib rl h dao = with_key (makeBlockKey dao h) (\<lambda>key.
     bind_res (getBlock rl dao key) (\<lambda>(b, _).
     bind_res (delete_keys key (map (btx_Hash lib) (b_Transactions b)) (Store dao)) (\<lambda>st.
       Inr (dao\<lparr>Store := st\<rparr>))))"

section \<open>Transactions\<close>

definition makeTxKey :: "simple \<Rightarrow> hash \<Rightarrow> bytes option" where
  "makeTxKey dao h = makeHashKey dao DataTx h"

definition StoreAsTransaction ::
    "'e tx_lib \<Rightarrow> 'r receipt_lib \<Rightarrow> 'e transaction \<Rightarrow> 'r \<Rightarrow> simple \<Rightarrow> dao_error + simple" where
  "StoreAsTransaction lib rl tx aer dao = with_key (makeTxKey dao (tx_Hash lib tx)) (\<lambda>key.
     case ToByteArray (tx_encode lib tx) of
       Inl e \<Rightarrow> Inl (DaoIo e)
     | Inr bTx \<Rightarrow> (case json_Marshal rl aer of
         Inl e \<Rightarrow> Inl (DaoMsg e)
       | Inr b \<Rightarrow>
           put_record dao key (or_nil (fst (Bytes
             (WriteVarBytes b (WriteVarBytes (or_nil bTx) NewBufBinWriter)))))))"

definition bad_transaction_bytes :: dao_error where
  "bad_transaction_bytes = DaoMsg ''bad transaction bytes''"

definition read_tx :: "'e tx_lib \<Rightarrow> 'r receipt_lib \<Rightarrow> bin_reader \<Rightarrow> dao_error + ('e transaction option \<times> 'r)" where
  "read_tx lib rl r =
     (let (bTx, r1) = ReadVarBytes MaxArraySize r in
      case FromByteArray (tx_decode lib) (or_nil bTx) of
        (_, Some e) \<Rightarrow> Inl (DaoIo e)
      | (tx, None) \<Rightarrow>
          (let (bReceipt, r2) = ReadVarBytes MaxArraySize r1 in
           case json_Unmarshal rl (or_nil bReceipt) of
             Inl e \<Rightarrow> Inl (DaoMsg e)
           | Inr receipt \<Rightarrow> Inr (tx, receipt)))"

definition GetTransaction :: "'e tx_lib \<Rightarrow> 'r receipt_lib \<Rightarrow> simple \<Rightarrow> hash \<Rightarrow> dao_error + ('e transaction option \<times> 'r)" where
  "GetTransaction lib rl dao h = with_key (makeTxKey dao h) (\<lambda>key.
     case StoreGet (Store dao) key of
       Inl e \<Rightarrow> Inl (DaoStore e)
     | Inr b \<Rightarrow>
         if length b < 6 then Inl bad_transaction_bytes
         else read_tx lib rl (NewBinReaderFromBuf b))"

text \<open>\<open>GetReceipt\<close> skips four bytes that \<open>StoreAsTransaction\<close> does not write.\<close>

definition GetReceipt :: "'e tx_lib \<Rightarrow> 'r receipt_lib \<Rightarrow> simple \<Rightarrow> hash \<Rightarrow> dao_error + 'r" where
  "GetReceipt lib rl dao h = with_key (makeTxKey dao h) (\<lambda>key.
     case StoreGet (Store dao) key of
       Inl e \<Rightarrow> Inl (DaoStore e)
     | Inr b \<Rightarrow>
         if length b < 6 then Inl bad_transaction_bytes
         else bind_res (read_tx lib rl (snd (ReadU32LE (NewBinReaderFromBuf b)))) (\<lambda>(_, receipt). Inr receipt))"

definition HasTransaction :: "simple \<Rightarrow> hash \<Rightarrow> dao_error option" where
  "HasTransaction dao h = (case makeTxKey dao h of
     None \<Rightarrow> Some (DaoPanic ''slice bounds out of range'')
   | Some key \<Rightarrow> (case StoreGet (Store dao) key of
       Inl _ \<Rightarrow> None
     | Inr b \<Rightarrow> if length b < 4 then None else Some ErrAlreadyExists))"

section \<open>Storage items\<close>

definition makeStorageItemKey :: "simple \<Rightarrow> address \<Rightarrow> bytes \<Rightarrow> bytes option" where
  "makeStorageItemKey dao a key =
     map_option (\<lambda>buf. copy_at 21 key (copy_at 1 a (buf[0 := StoragePrefix (Version dao)])))
       (getKeyBuf dao (21 + length key))"

text \<open>The outer option is the panic of the key buffer, the inner one a nil item.\<close>

definition GetStorageItem :: "simple \<Rightarrow> address \<Rightarrow> bytes \<Rightarrow> bytes option option" where
  "GetStorageItem dao a key = map_option (\<lambda>k.
     case StoreGet (Store dao) k of Inl _ \<Rightarrow> None | Inr b \<Rightarrow> Some b) (makeStorageItemKey dao a key)"

definition PutStorageItem :: "address \<Rightarrow> bytes \<Rightarrow> bytes \<Rightarrow> simple \<Rightarrow> simple option" where
  "PutStorageItem a key si dao = Option.bind (makeStorageItemKey dao a key) (\<lambda>k.
     case StorePut k si (Store dao) of Inl _ \<Rightarrow> None | Inr st \<Rightarrow> Some (dao\<lparr>Store := st\<rparr>))"

definition DeleteStorageItem :: "address \<Rightarrow> bytes \<Rightarrow> simple \<Rightarrow> simple option" where
  "DeleteStorageItem a key dao = Option.bind (makeStorageItemKey dao a key) (\<lambda>k.
     case StoreDelete k (Store dao) of Inl _ \<Rightarrow> None | Inr st \<Rightarrow> Some (dao\<lparr>Store := st\<rparr>))"

definition dao_Seek :: "simple \<Rightarrow> address \<Rightarrow> seek_range \<Rightarrow> 's callback \<Rightarrow> 's \<Rightarrow> dao_error + 's" where
  "dao_Seek dao a rng f u = with_key (makeStorageItemKey dao a (Prefix rng)) (\<lambda>p.
     case StoreSeek (Store dao) (rng\<lparr>Prefix := Copy p\<rparr>) (\<lambda>k v. f (drop (length p) k) v) u of
       Inl e \<Rightarrow> Inl (DaoStore e) | Inr u' \<Rightarrow> Inr u')"

definition GetStorageItemsWithPrefix :: "simple \<Rightarrow> address \<Rightarrow> bytes \<Rightarrow> dao_error + kv list" where
  "GetStorageItemsWithPrefix dao a p =
     dao_Seek dao a \<lparr>Prefix = p, Start = [], Backwards = False\<rparr> (\<lambda>k v arr. (True, arr @ [(k, v)])) []"

definition GetStorageItems :: "simple \<Rightarrow> address \<Rightarrow> dao_error + kv list" where
  "GetStorageItems dao a = GetStorageItemsWithPrefix dao a []"

definition dao_SeekAsync :: "simple \<Rightarrow> address \<Rightarrow> seek_range \<Rightarrow> dao_error + kv list" where
  "dao_SeekAsync dao a rng = with_key (makeStorageItemKey dao a (Prefix rng)) (\<lambda>p.
     case SeekAsync (Store dao) (rng\<lparr>Prefix := Copy p\<rparr>) True of
       Inl e \<Rightarrow> Inl (DaoStore e) | Inr kvs \<Rightarrow> Inr kvs)"

section \<open>Version, heights and header hashes\<close>

definition keepOnlyLatestStateBit :: byte where "keepOnlyLatestStateBit = 1"

text \<open>\<open>FromBytes\<close> keeps the other fields when the data has no zero byte.\<close>

definition version_FromBytes :: "dao_version \<Rightarrow> bytes \<Rightarrow> dao_error + dao_version" where
  "version_FromBytes v d =
     (if d = [] then Inl (DaoMsg ''missing version'')
      else let i = length (takeWhile (\<lambda>b. b \<noteq> 0) d) in
        if i = length d then Inr (v\<lparr>VersionValue := d\<rparr>)
        else if length d \<noteq> i + 3 then Inl (DaoMsg ''version is invalid'')
        else Inr \<lparr>StoragePrefix = d ! (i + 1), KeepOnlyLatestState = (d ! (i + 2) AND keepOnlyLatestStateBit \<noteq> 0),
                  VersionValue = take i d\<rparr>)"

definition version_Bytes :: "dao_version \<Rightarrow> bytes" where
  "version_Bytes v =
     VersionValue v @ [0, StoragePrefix v, if KeepOnlyLatestState v then keepOnlyLatestStateBit else 0]"

definition mkKeyPrefix :: "simple \<Rightarrow> byte \<Rightarrow> bytes option" where
  "mkKeyPrefix dao p = map_option (\<lambda>buf. buf[0 := p]) (getKeyBuf dao 1)"

definition get_record :: "simple \<Rightarrow> byte \<Rightarrow> dao_error + bytes" where
  "get_record dao p = with_key (mkKeyPrefix dao p) (\<lambda>key.
     case StoreGet (Store dao) key of Inl e \<Rightarrow> Inl (DaoStore e) | Inr b \<Rightarrow> Inr b)"

definition GetVersion :: "simple \<Rightarrow> dao_error + dao_version" where
  "GetVersion dao = bind_res (get_record dao SYSVersion)
     (version_FromBytes \<lparr>StoragePrefix = 0, KeepOnlyLatestState = False, VersionValue = []\<rparr>)"

definition PutVersion :: "dao_version \<Rightarrow> simple \<Rightarrow> dao_error + simple" where
  "PutVersion v dao = with_key (mkKeyPrefix dao SYSVersion) (\<lambda>key.
     put_record (dao\<lparr>Version := v\<rparr>) key (version_Bytes v))"

text \<open>The bytes 32 to 36 of a record; a shorter record is a slice out of range.\<close>

definition height_of :: "bytes \<Rightarrow> dao_error + u32" where
  "height_of b = (if length b < 36 then Inl (DaoPanic ''slice bounds out of range'')
     else Inr (get_le (take 4 (drop 32 b))))"

definition GetCurrentBlockHeight :: "simple \<Rightarrow> dao_error + u32" where
  "GetCurrentBlockHeight dao = bind_res (get_record dao SYSCurrentBlock) height_of"

definition GetCurrentHeaderHeight :: "simple \<Rightarrow> dao_error + (u32 \<times> hash)" where
  "GetCurrentHeaderHeight dao = bind_res (get_record dao SYSCurrentHeader) (\<lambda>b.
     bind_res (height_of b) (\<lambda>i. Inr (i, take 32 b)))"

definition GetStateSyncPoint :: "simple \<Rightarrow> dao_error + u32" where
  "GetStateSyncPoint dao = bind_res (get_record dao SYSStateSyncPoint) (\<lambda>b.
     if length b < 4 then Inl (DaoPanic ''index out of range'') else Inr (get_le (take 4 b)))"

definition put_height :: "byte \<Rightarrow> hash \<Rightarrow> u32 \<Rightarrow> simple \<Rightarrow> dao_error + simple" where
  "put_height p h index dao = with_key (mkKeyPrefix dao p) (\<lambda>key.
     put_record dao key (or_nil (fst (Bytes (WriteU32LE index (WriteBytes h NewBufBinWriter))))))"

definition PutCurrentHeader :: "hash \<Rightarrow> u32 \<Rightarrow> simple \<Rightarrow> dao_error + simple" where
  "PutCurrentHeader h index dao = put_height SYSCurrentHeader h index dao"

definition StoreAsCurrentBlock :: "'e tx_lib \<Rightarrow> 'e block \<Rightarrow> simple \<Rightarrow> dao_error + simple" where
  "StoreAsCurrentBlock lib b dao =
     put_height SYSCurrentBlock (header_Hash lib (b_Header b)) (h_Index (b_Header b)) dao"

definition read2000Uint256Hashes :: "bytes \<Rightarrow> dao_error + hash list" where
  "read2000Uint256Hashes b =
     (let (count, r1) = ReadVarUint (NewBinReaderFromBuf b);
          (hashes, r2) = ReadElems (ReadBytes (replicate 32 0)) (unat count) r1 in
      case Err r2 of Some e \<Rightarrow> Inl (DaoIo e) | None \<Rightarrow> Inr hashes)"

definition mkHeaderHashKey :: "simple \<Rightarrow> u32 \<Rightarrow> bytes option" where
  "mkHeaderHashKey dao h =
     map_option (\<lambda>buf. copy_at 1 (put_be 4 h) (buf[0 := IXHeaderHashList])) (getKeyBuf dao (1 + 4))"

definition GetHeaderHashes :: "simple \<Rightarrow> dao_error + hash list" where
  "GetHeaderHashes dao = with_key (mkKeyPrefix dao IXHeaderHashList) (\<lambda>p.
     case StoreSeek (Store dao) \<lparr>Prefix = p, Start = [], Backwards = False\<rparr>
         (\<lambda>k v (hashes, err). case read2000Uint256Hashes v of
            Inl e \<Rightarrow> (False, (hashes, Some e))
          | Inr new \<Rightarrow> (True, (hashes @ new, err))) ([], None) of
       Inl e \<Rightarrow> Inl (DaoStore e)
     | Inr (hashes, None) \<Rightarrow> Inr hashes
     | Inr (_, Some e) \<Rightarrow> Inl e)"

definition StoreHeaderHashes :: "hash list \<Rightarrow> u32 \<Rightarrow> simple \<Rightarrow> dao_error + simple" where
  "StoreHeaderHashes hashes height dao = with_key (mkHeaderHashKey dao height) (\<lambda>key.
     let w = fold WriteBytes hashes (WriteVarUint (of_nat (length hashes)) NewBufBinWriter) in
     case WErr w of
       Some e \<Rightarrow> Inl (DaoIo e)
     | None \<Rightarrow> put_record dao key (or_nil (fst (Bytes w))))"

definition dao_Persist :: "change_sink \<Rightarrow> simple \<Rightarrow> nat \<times> store_error option \<times> simple" where
  "dao_Persist pcs dao = (let (n, e, st) = persist pcs (Store dao) in (n, e, dao\<lparr>Store := st\<rparr>))"

section \<open>Laws of the storage items\<close>

text \<open>The array a byte string stands for: cut or filled with zeros.\<close>

definition fit :: "nat \<Rightarrow> bytes \<Rightarrow> bytes" where
  "fit n b = copy_at 0 b (replicate n 0)"

lemma fit_eq: "fit n b = take n b @ replicate (n - length b) 0"
  by (simp add: fit_def copy_at_def)

lemma length_fit [simp]: "length (fit n b) = n"
  by (simp add: fit_eq)

lemma fit_id [simp]: "length b = n \<Longrightarrow> fit n b = b"
  by (simp add: fit_eq)

lemma copy_at_key: "copy_at 1 a ((replicate (Suc n) 0)[0 := p]) = p # fit n a"
  by (cases "replicate (Suc n) (0 :: byte)") (simp_all add: copy_at_def fit_eq)

lemma makeStorageItemKey_eq:
  "makeStorageItemKey dao a k =
     (if d_private dao \<and> length k > 48 then None else Some (StoragePrefix (Version dao) # fit 20 a @ k))"
proof -
  let ?n = "20 + length k"
  have "take 21 (p # fit ?n a) = p # fit 20 a" for p
    by (simp add: fit_eq min_def)
  then have "copy_at 21 k (p # fit ?n a) = p # fit 20 a @ k" for p
    by (simp add: copy_at_def)
  then show ?thesis
    using copy_at_key [of a ?n] by (auto simp: makeStorageItemKey_def getKeyBuf_def MaxStorageKeyLen_def)
qed

lemma makeHashKey_eq: "makeHashKey dao p h = Some (p # fit 32 h)"
  using copy_at_key [of h 32 p] by (simp add: makeHashKey_def getKeyBuf_def MaxStorageKeyLen_def)

definition dao_ok :: "simple \<Rightarrow> bool" where
  "dao_ok dao \<longleftrightarrow> is_cached (Store dao)"

definition item :: "simple \<Rightarrow> address \<Rightarrow> bytes \<Rightarrow> bytes option" where
  "item dao a k = (case StoreGet (Store dao) (StoragePrefix (Version dao) # fit 20 a @ k) of
     Inl _ \<Rightarrow> None | Inr b \<Rightarrow> Some b)"

lemma GetStorageItem_eq:
  "GetStorageItem dao a k = (if d_private dao \<and> length k > 48 then None else Some (item dao a k))"
  by (simp add: GetStorageItem_def makeStorageItemKey_eq item_def)

lemma GetStorageItem_short [simp]: "length k \<le> 48 \<Longrightarrow> GetStorageItem dao a k = Some (item dao a k)"
  by (simp add: GetStorageItem_eq)

lemma PutStorageItem_total: "dao_ok dao \<Longrightarrow> length k \<le> 48 \<Longrightarrow> \<exists>dao'. PutStorageItem a k v dao = Some dao'"
  using cached.put_total [of "Store dao" "StoragePrefix (Version dao) # fit 20 a @ k" v]
  by (auto simp: PutStorageItem_def makeStorageItemKey_eq dao_ok_def)

lemma DeleteStorageItem_total: "dao_ok dao \<Longrightarrow> length k \<le> 48 \<Longrightarrow> \<exists>dao'. DeleteStorageItem a k dao = Some dao'"
  using cached.delete_total [of "Store dao" "StoragePrefix (Version dao) # fit 20 a @ k"]
  by (auto simp: DeleteStorageItem_def makeStorageItemKey_eq dao_ok_def)

lemma PutStorageItem_facts:
  assumes "PutStorageItem a k v dao = Some dao'" and "dao_ok dao"
  shows "dao_ok dao'" and "Version dao' = Version dao" and "d_private dao' = d_private dao"
    and "item dao' a' k' = (if fit 20 a' = fit 20 a \<and> k' = k then Some v else item dao a' k')"
proof -
  obtain st where st: "StorePut (StoragePrefix (Version dao) # fit 20 a @ k) v (Store dao) = Inr st"
    and dao': "dao' = dao\<lparr>Store := st\<rparr>"
    using assms(1) by (auto simp: PutStorageItem_def makeStorageItemKey_eq split: if_splits sum.splits)
  show "dao_ok dao'" "Version dao' = Version dao" "d_private dao' = d_private dao"
    using cached.put_inv [OF _ st] assms(2) by (simp_all add: dao' dao_ok_def)
  show "item dao' a' k' = (if fit 20 a' = fit 20 a \<and> k' = k then Some v else item dao a' k')"
    using cached.get_put [OF _ _ st] assms(2) by (simp add: item_def dao' dao_ok_def)
qed

lemma DeleteStorageItem_facts:
  assumes "DeleteStorageItem a k dao = Some dao'" and "dao_ok dao"
  shows "dao_ok dao'" and "Version dao' = Version dao" and "d_private dao' = d_private dao"
    and "item dao' a' k' = (if fit 20 a' = fit 20 a \<and> k' = k then None else item dao a' k')"
proof -
  obtain st where st: "StoreDelete (StoragePrefix (Version dao) # fit 20 a @ k) (Store dao) = Inr st"
    and dao': "dao' = dao\<lparr>Store := st\<rparr>"
    using assms(1) by (auto simp: DeleteStorageItem_def makeStorageItemKey_eq split: if_splits sum.splits)
  show "dao_ok dao'" "Version dao' = Version dao" "d_private dao' = d_private dao"
    using cached.delete_inv [OF _ st] assms(2) by (simp_all add: dao' dao_ok_def)
  show "item dao' a' k' = (if fit 20 a' = fit 20 a \<and> k' = k then None else item dao a' k')"
    using cached.get_delete [OF _ _ st] assms(2) by (simp add: item_def dao' dao_ok_def)
qed

lemma GetPrivate_facts [simp]:
  "dao_ok (GetPrivate dao)" "Version (GetPrivate dao) = Version dao" "d_private (GetPrivate dao)"
  "item (GetPrivate dao) a k = item dao a k"
  by (simp_all add: GetPrivate_def dao_ok_def NewPrivateMemCachedStore_def NewMemoryStore_def item_def)

section \<open>Records of transactions and blocks\<close>

lemma put_record_facts:
  assumes "dao_ok dao" and "k \<noteq> []"
  shows "\<exists>dao'. put_record dao k b = Inr dao' \<and> dao_ok dao' \<and> Version dao' = Version dao \<and>
     d_private dao' = d_private dao \<and>
     (\<forall>k'. k' \<noteq> [] \<longrightarrow> StoreGet (Store dao') k' = (if k' = k then Inr b else StoreGet (Store dao) k'))"
proof -
  obtain st where st: "StorePut k b (Store dao) = Inr st"
    using cached.put_total [OF _ assms(2)] assms(1) by (auto simp: dao_ok_def)
  then show ?thesis
    using cached.put_inv [OF _ st] cached.get_put [OF _ assms(2) st] assms(1)
    by (auto simp: put_record_def dao_ok_def)
qed

lemma two_parts: "or_nil (fst (Bytes (WriteVarBytes b (WriteVarBytes a NewBufBinWriter)))) = var_bytes a @ var_bytes b"
  by (simp add: WriteVarBytes_eq Bytes_WriteBytes_new or_nil_def)

lemma read_tx_parts:
  assumes "neo_ok lib t" and "length (neo_bytes t @ witness_bytes (TxWitness t)) < MaxArraySize"
    and "json_Unmarshal rl b = Inr r" and "length b \<le> MaxArraySize"
  shows "read_tx lib rl (rd (var_bytes (NeoTxType # neo_bytes t @ witness_bytes (TxWitness t)) @ var_bytes b)) =
     Inr (Some (NeoTx t), r)"
proof -
  let ?t = "NeoTxType # neo_bytes t @ witness_bytes (TxWitness t)"
  have "ReadVarBytes MaxArraySize (rd (var_bytes ?t @ var_bytes b)) = (Some ?t, rd (var_bytes b))"
    by (rule ReadVarBytes_exact) (use assms(2) in \<open>simp_all add: MaxArraySize_def\<close>)
  moreover have "ReadVarBytes MaxArraySize (rd (var_bytes b)) = (Some b, rd [])"
    using ReadVarBytes_exact [of b MaxArraySize "[]"] assms(4) by (simp add: MaxArraySize_def)
  moreover have "tx_decode lib (rd ?t) = (Some (NeoTx t), rd [])"
    using tx_decode_neo [OF assms(1), of "[]"] by simp
  ultimately show ?thesis
    using assms(3) by (simp add: read_tx_def or_nil_def FromByteArray_def NewBinReaderFromBuf_def)
qed

lemma length_neo_bytes: "length (neo_bytes t) \<ge> 16"
  by (simp add: neo_bytes_def)

lemma delete_keys_facts:
  assumes "is_cached st"
  shows "\<exists>st'. delete_keys (p # fit 32 g) hs st = Inr st' \<and> is_cached st' \<and>
     (\<forall>k. k \<noteq> [] \<longrightarrow> (\<forall>h \<in> set hs. k \<noteq> copy_at 1 h (p # fit 32 g)) \<longrightarrow> StoreGet st' k = StoreGet st k)"
  using assms
proof (induction hs arbitrary: st)
  case (Cons h hs)
  have ne: "copy_at 1 h (p # fit 32 g) \<noteq> []" by (simp add: copy_at_def)
  obtain st1 where st1: "StoreDelete (copy_at 1 h (p # fit 32 g)) st = Inr st1"
    using cached.delete_total [OF Cons.prems ne] by blast
  have c: "is_cached st1" by (rule cached.delete_inv [OF Cons.prems st1])
  show ?case using Cons.IH [OF c] st1 cached.get_delete [OF Cons.prems ne st1] by auto
qed simp

text \<open>
  C21. A valid native transaction that is stored with its receipt is found again, with the receipt,
  under its hash; it counts as known, and what is stored under other hashes stays as it is.
\<close>

theorem stored_transaction_found:
  assumes "dao_ok dao" and "neo_ok lib t" and "tx_Size lib (NeoTx t) < MaxArraySize"
    and "json_Marshal rl r = Inr b" and "json_Unmarshal rl b = Inr r" and "length b \<le> MaxArraySize"
  shows "\<exists>dao'. StoreAsTransaction lib rl (NeoTx t) r dao = Inr dao' \<and>
     GetTransaction lib rl dao' (tx_Hash lib (NeoTx t)) = Inr (Some (NeoTx t), r) \<and>
     HasTransaction dao' (tx_Hash lib (NeoTx t)) = Some ErrAlreadyExists \<and>
     (\<forall>h. fit 32 h \<noteq> fit 32 (tx_Hash lib (NeoTx t)) \<longrightarrow>
        GetTransaction lib rl dao' h = GetTransaction lib rl dao h \<and> HasTransaction dao' h = HasTransaction dao h)"
proof -
  let ?k = "DataTx # fit 32 (tx_Hash lib (NeoTx t))"
  let ?t = "NeoTxType # neo_bytes t @ witness_bytes (TxWitness t)"
  obtain dao' where dao': "put_record dao ?k (var_bytes ?t @ var_bytes b) = Inr dao'"
    and get: "\<And>k'. k' \<noteq> [] \<Longrightarrow> StoreGet (Store dao') k' =
      (if k' = ?k then Inr (var_bytes ?t @ var_bytes b) else StoreGet (Store dao) k')"
    using put_record_facts [OF assms(1), of ?k] by blast
  have sz: "length (neo_bytes t @ witness_bytes (TxWitness t)) < MaxArraySize"
    using neo_codec.GetVarSize_ptr [of t] assms(3) by (simp add: neo_Size_def)
  have "StoreAsTransaction lib rl (NeoTx t) r dao = Inr dao'"
    using dao' assms(4) by (simp only: StoreAsTransaction_def makeTxKey_def makeHashKey_eq with_key_def tx_encode_neo
        option.case sum.case or_nil_def two_parts [unfolded or_nil_def])
  moreover have "length (var_bytes ?t @ var_bytes b) \<ge> 6"
    using length_neo_bytes [of t] by (simp add: var_bytes_def)
  then have "GetTransaction lib rl dao' (tx_Hash lib (NeoTx t)) = Inr (Some (NeoTx t), r)"
    and "HasTransaction dao' (tx_Hash lib (NeoTx t)) = Some ErrAlreadyExists"
    using read_tx_parts [OF assms(2) sz assms(5,6)]
    by (simp_all add: GetTransaction_def HasTransaction_def makeTxKey_def makeHashKey_eq with_key_def get
        NewBinReaderFromBuf_def)
  ultimately show ?thesis
    by (auto simp: GetTransaction_def HasTransaction_def makeTxKey_def makeHashKey_eq with_key_def get)
qed

definition toy_receipts :: "bytes receipt_lib" where
  "toy_receipts = \<lparr>json_Marshal = Inr, json_Unmarshal = Inr\<rparr>"

lemma tiny_tx_size: "tx_Size tiny_tx_lib (NeoTx (tiny_tx 1 7 9)) < MaxArraySize"
proof -
  have "neo_Size (tiny_tx 1 7 9) = length (neo_bytes (tiny_tx 1 7 9) @ witness_bytes (TxWitness (tiny_tx 1 7 9)))"
    using neo_codec.GetVarSize_ptr [of "tiny_tx 1 7 9"] by (simp add: neo_Size_def)
  then show ?thesis
    by (simp add: neo_bytes_def witness_bytes_def tiny_tx_def var_bytes_def var_uint_def big_Bytes_def nat_bytes.simps
        MaxArraySize_def)
qed

theorem stored_transaction_found_witness:
  "\<exists>dao'. StoreAsTransaction tiny_tx_lib toy_receipts (NeoTx (tiny_tx 1 7 9)) [5]
       (NewSimple (MemoryStore NewMemoryStore)) = Inr dao' \<and>
     GetTransaction tiny_tx_lib toy_receipts dao' (tx_Hash tiny_tx_lib (NeoTx (tiny_tx 1 7 9))) =
       Inr (Some (NeoTx (tiny_tx 1 7 9)), [5])"
proof -
  have "dao_ok (NewSimple (MemoryStore NewMemoryStore))"
    by (simp add: dao_ok_def NewSimple_def newSimple_def NewMemCachedStore_def)
  from stored_transaction_found [OF this tiny_tx_ok tiny_tx_size, of toy_receipts "[5]" "[5]"]
  show ?thesis by (auto simp: toy_receipts_def MaxArraySize_def)
qed

lemma delete_block_keeps:
  assumes "dao_ok dao" and "DeleteBlock lib rl h dao = Inr dao'"
  shows "GetTransaction lib rl dao' g = GetTransaction lib rl dao g"
    and "GetBlock rl dao h = Inr (b, r) \<Longrightarrow> length h = 32 \<Longrightarrow>
      \<forall>t \<in> set (b_Transactions b). length (btx_Hash lib t) = 32 \<and> btx_Hash lib t \<noteq> h \<Longrightarrow>
      GetBlock rl dao' h = Inr (b, r)"
proof -
  obtain b' r' st where b': "getBlock rl dao (DataBlock # fit 32 h) = Inr (b', r')"
    and st: "delete_keys (DataBlock # fit 32 h) (map (btx_Hash lib) (b_Transactions b')) (Store dao) = Inr st"
    and dao': "dao' = dao\<lparr>Store := st\<rparr>"
    using assms(2) by (auto simp: DeleteBlock_def makeBlockKey_def makeHashKey_eq with_key_def)
  have get: "StoreGet st k = StoreGet (Store dao) k"
    if "k \<noteq> []" "\<forall>t \<in> set (b_Transactions b'). k \<noteq> copy_at 1 (btx_Hash lib t) (DataBlock # fit 32 h)" for k
    using delete_keys_facts [of "Store dao" DataBlock h "map (btx_Hash lib) (b_Transactions b')"] st assms(1) that
    by (auto simp: dao_ok_def)
  show "GetTransaction lib rl dao' g = GetTransaction lib rl dao g"
    using get [of "DataTx # fit 32 g"]
    by (simp add: GetTransaction_def makeTxKey_def makeHashKey_eq with_key_def dao' copy_at_def DataTx_def DataBlock_def)
  assume b: "GetBlock rl dao h = Inr (b, r)" and h: "length h = 32"
    and ts: "\<forall>t \<in> set (b_Transactions b). length (btx_Hash lib t) = 32 \<and> btx_Hash lib t \<noteq> h"
  have "b' = b" using b b'
    by (auto simp: GetBlock_def makeBlockKey_def makeHashKey_eq with_key_def split: option.splits)
  then have "StoreGet st (DataBlock # h) = StoreGet (Store dao) (DataBlock # h)"
    using ts h by (intro get) (auto simp: copy_at_def)
  then show "GetBlock rl dao' h = Inr (b, r)"
    using b h by (simp add: GetBlock_def getBlock_def makeBlockKey_def makeHashKey_eq with_key_def dao')
qed

lemma stored_block_found:
  assumes "dao_ok dao" and "block_ok lib b" and "length (trimmed_bytes lib b) \<le> MaxArraySize"
    and "json_Marshal rl r = Inr j" and "json_Unmarshal rl j = Inr r" and "j \<noteq> []" and "length j \<le> MaxArraySize"
  shows "\<exists>dao'. StoreAsBlock lib rl b (Some r) dao = Inr dao' \<and> dao_ok dao' \<and>
     GetBlock rl dao' (header_Hash lib (b_Header b)) = Inr (trimmed lib b, r)"
proof -
  let ?k = "DataBlock # fit 32 (header_Hash lib (b_Header b))"
  obtain dao' where dao': "put_record dao ?k (var_bytes (trimmed_bytes lib b) @ var_bytes j) = Inr dao'" "dao_ok dao'"
    and get: "StoreGet (Store dao') ?k = Inr (var_bytes (trimmed_bytes lib b) @ var_bytes j)"
    using put_record_facts [OF assms(1), of ?k "var_bytes (trimmed_bytes lib b) @ var_bytes j"] by auto
  have w: "EncodeTrimmed lib b NewBufBinWriter = WriteBytes (trimmed_bytes lib b) NewBufBinWriter"
    "WErr NewBufBinWriter = None"
    by (simp_all add: EncodeTrimmed_eq NewBufBinWriter_def)
  then have "StoreAsBlock lib rl b (Some r) dao = Inr dao'"
    using dao' assms(4) two_parts [of j "trimmed_bytes lib b"]
    by (simp add: StoreAsBlock_def makeBlockKey_def makeHashKey_eq with_key_def Bytes_WriteBytes_new or_nil_def)
  moreover have "ReadVarBytes MaxArraySize (rd (var_bytes (trimmed_bytes lib b) @ var_bytes j)) =
      (Some (trimmed_bytes lib b), rd (var_bytes j))"
    by (rule ReadVarBytes_exact) (use assms(3) in \<open>simp_all add: MaxArraySize_def\<close>)
  moreover have "ReadVarBytes MaxArraySize (rd (var_bytes j)) = (Some j, rd [])"
    using ReadVarBytes_exact [of j MaxArraySize "[]"] assms(7) by (simp add: MaxArraySize_def)
  moreover have "NewTrimmedFromReader (rd (trimmed_bytes lib b)) = Inr (trimmed lib b)"
    using NewTrimmedFromReader_trimmed [OF assms(2), of "[]"] by simp
  ultimately show ?thesis
    using dao' get assms(5,6) by (simp add: GetBlock_def getBlock_def makeBlockKey_def makeHashKey_eq with_key_def
        NewBinReaderFromBuf_def or_nil_def)
qed

text \<open>
  A block that is stored with its receipt is found again under its hash, with the hashes of its
  transactions. Deleting it succeeds and removes nothing: the block and all transactions are still
  found, because the hashes of the transactions are put behind the prefix of blocks.
\<close>

theorem deleted_block_still_found:
  fixes lib :: "'e tx_lib"
  assumes "dao_ok dao" and "block_ok lib b" and "length (trimmed_bytes lib b) \<le> MaxArraySize"
    and "json_Marshal rl r = Inr j" and "json_Unmarshal rl j = Inr r" and "j \<noteq> []" and "length j \<le> MaxArraySize"
    and "length (header_Hash lib (b_Header b)) = 32"
    and "\<forall>t \<in> set (b_Transactions b). btx_Hash lib t \<noteq> header_Hash lib (b_Header b)"
  shows "\<exists>dao' dao''. StoreAsBlock lib rl b (Some r) dao = Inr dao' \<and>
     GetBlock rl dao' (header_Hash lib (b_Header b)) = Inr (trimmed lib b, r) \<and>
     DeleteBlock lib rl (header_Hash lib (b_Header b)) dao' = Inr dao'' \<and>
     GetBlock rl dao'' (header_Hash lib (b_Header b)) = Inr (trimmed lib b, r) \<and>
     (\<forall>h. GetTransaction lib rl dao'' h = GetTransaction lib rl dao' h)"
proof -
  let ?h = "header_Hash lib (b_Header b)"
  obtain dao' where dao': "StoreAsBlock lib rl b (Some r) dao = Inr dao'" "dao_ok dao'"
    and found: "GetBlock rl dao' ?h = Inr (trimmed lib b, r)"
    using stored_block_found [OF assms(1-7)] by blast
  have "getBlock rl dao' (DataBlock # fit 32 ?h) = Inr (trimmed lib b, Some r)"
    using found by (auto simp: GetBlock_def makeBlockKey_def makeHashKey_eq with_key_def split: option.splits)
  then obtain dao'' where dao'': "DeleteBlock lib rl ?h dao' = Inr dao''"
    using delete_keys_facts [of "Store dao'" DataBlock ?h "map (btx_Hash lib) (b_Transactions (trimmed lib b))"] dao'(2)
    by (auto simp: DeleteBlock_def makeBlockKey_def makeHashKey_eq with_key_def dao_ok_def)
  have "GetBlock rl dao'' ?h = Inr (trimmed lib b, r)"
    by (rule delete_block_keeps(2) [OF dao'(2) dao'' found assms(8)])
      (use assms(2,9) in \<open>auto simp: trimmed_def block_ok_def\<close>)
  then show ?thesis using dao' dao'' found delete_block_keeps(1) [OF dao'(2) dao''] by blast
qed

definition tiny_block :: "unit block" where
  "tiny_block = \<lparr>b_Header = header_zero, b_Transactions = [TrimmedTX (replicate 32 1)], b_Trimmed = False\<rparr>"

lemma put_le_0: "put_le n 0 = replicate n 0"
  by (induction n) simp_all

lemma tiny_block_ok:
  "block_ok tiny_tx_lib tiny_block" "length (trimmed_bytes tiny_tx_lib tiny_block) \<le> MaxArraySize"
  "header_Hash tiny_tx_lib (b_Header tiny_block) = replicate 32 0"
proof -
  show "header_Hash tiny_tx_lib (b_Header tiny_block) = replicate 32 0"
    by (simp add: header_Hash_eq hashable_bytes_def tiny_block_def header_zero_def tiny_tx_lib_def put_le_0
        flip: replicate_add replicate_append_same replicate_Suc)
  show "block_ok tiny_tx_lib tiny_block" "length (trimmed_bytes tiny_tx_lib tiny_block) \<le> MaxArraySize"
    by (simp_all add: block_ok_def header_ok_def witness_ok_def trimmed_bytes_def hashable_bytes_def witness_bytes_def
        tiny_block_def header_zero_def MaxArraySize_def var_bytes_def var_uint_def)
qed

theorem deleted_block_still_found_witness:
  "\<exists>dao' dao''. StoreAsBlock tiny_tx_lib toy_receipts tiny_block (Some [5]) (NewSimple (MemoryStore NewMemoryStore)) =
       Inr dao' \<and> DeleteBlock tiny_tx_lib toy_receipts (replicate 32 0) dao' = Inr dao'' \<and>
     GetBlock toy_receipts dao'' (replicate 32 0) = Inr (trimmed tiny_tx_lib tiny_block, [5])"
proof -
  have "dao_ok (NewSimple (MemoryStore NewMemoryStore))"
    by (simp add: dao_ok_def NewSimple_def newSimple_def NewMemCachedStore_def)
  from deleted_block_still_found [OF this tiny_block_ok(1,2), of toy_receipts "[5]" "[5]"]
  show ?thesis by (simp add: tiny_block_ok(3) toy_receipts_def MaxArraySize_def) (auto simp: tiny_block_def)
qed

end
