(* ===== verification/NativeAccounts.thy ===== *)
theory NativeAccounts
  imports Dao
begin

text \<open>
  The accounts the native contracts keep in storage items: src/pkg/core/native/util.go, the GAS
  balances of gas.go, the nonces of ledger.go, the contracts of management.go and their record in
  src/pkg/core/state/contract.go. The result \<open>None\<close> of an operation is a panic.
\<close>

section \<open>Keys\<close>

definition BytesToHash :: "bytes \<Rightarrow> hash" where
  "BytesToHash b = (let n = length b in if n > 32 then drop (n - 32) b else replicate (32 - n) 0 @ b)"

definition native_address :: "byte \<Rightarrow> address" where
  "native_address b = replicate 19 0 @ [b]"

definition makeAddressKey :: "byte \<Rightarrow> address \<Rightarrow> bytes" where
  "makeAddressKey p a = copy_at 1 a ((replicate 21 0)[0 := p])"

definition native_makeHashKey :: "byte \<Rightarrow> hash \<Rightarrow> bytes" where
  "native_makeHashKey p h = copy_at 1 h ((replicate 33 0)[0 := p])"

definition makeIndexKey :: "byte \<Rightarrow> u32 \<Rightarrow> bytes" where
  "makeIndexKey p index = p # put_le 4 index"

definition PolicyAddress :: address where "PolicyAddress = native_address 0xE0"
definition GASAddress :: address where "GASAddress = native_address 0xE1"
definition ManagementAddress :: address where "ManagementAddress = native_address 0xE2"
definition LedgerAddress :: address where "LedgerAddress = native_address 0xE3"
definition DesignationAddress :: address where "DesignationAddress = native_address 0xE4"
definition BridgeAddress :: address where "BridgeAddress = native_address 0xE5"

section \<open>GAS\<close>

definition totalSupplyKey :: bytes where "totalSupplyKey = [11]"

definition makeAccountKey :: "address \<Rightarrow> bytes" where
  "makeAccountKey h = makeAddressKey 20 h"

definition encode_gas_state :: "int \<Rightarrow> bin_writer \<Rightarrow> bin_writer" where
  "encode_gas_state bal w = WriteVarBytes (big_Bytes bal) w"

definition decode_gas_state :: "bin_reader \<Rightarrow> int \<times> bin_reader" where
  "decode_gas_state r = (let (b, r') = ReadVarBytes MaxArraySize r in (SetBytes (or_nil b), r'))"

definition increaseBalance :: "int \<Rightarrow> int \<Rightarrow> string + int" where
  "increaseBalance bal amount =
     (if sgn amount = -1 \<and> \<bar>bal\<bar> < \<bar>amount\<bar> then Inl ''insufficient funds'' else Inr (bal + amount))"

definition getTotalSupply :: "simple \<Rightarrow> int option option" where
  "getTotalSupply d = map_option (map_option SetBytes) (GetStorageItem d GASAddress totalSupplyKey)"

definition saveTotalSupply :: "int \<Rightarrow> simple \<Rightarrow> simple option" where
  "saveTotalSupply n d = PutStorageItem GASAddress totalSupplyKey (big_Bytes n) d"

definition getGasState :: "simple \<Rightarrow> bytes \<Rightarrow> (io_error + int option) option" where
  "getGasState d k = map_option (\<lambda>si. case si of
     None \<Rightarrow> Inr None
   | Some b \<Rightarrow> (case FromByteArray decode_gas_state b of (_, Some e) \<Rightarrow> Inl e | (bal, None) \<Rightarrow> Inr (Some bal)))
     (GetStorageItem d GASAddress k)"

definition putGasState :: "bytes \<Rightarrow> int \<Rightarrow> simple \<Rightarrow> (io_error + simple) option" where
  "putGasState k bal d = (case ToByteArray (encode_gas_state bal) of
     Inl e \<Rightarrow> Some (Inl e)
   | Inr b \<Rightarrow> map_option Inr (PutStorageItem GASAddress k (or_nil b) d))"

text \<open>The error of \<open>addTokens\<close> comes with the object as it is then.\<close>

definition addTokens :: "address \<Rightarrow> int \<Rightarrow> simple \<Rightarrow> (string option \<times> simple) option" where
  "addTokens h amount d =
     (if amount = 0 then Some (None, d)
      else let k = makeAccountKey h in
        Option.bind (getGasState d k) (\<lambda>gs. case gs of
          Inl e \<Rightarrow> Some (Some ''decode'', d)
        | Inr gs \<Rightarrow> (case increaseBalance (case gs of None \<Rightarrow> 0 | Some b \<Rightarrow> b) amount of
            Inl e \<Rightarrow> Some (Some e, d)
          | Inr bal \<Rightarrow>
              Option.bind (if gs \<noteq> None \<and> bal = 0 then map_option Inr (DeleteStorageItem GASAddress k d)
                           else putGasState k bal d) (\<lambda>r. case r of
                Inl e \<Rightarrow> Some (Some ''encode'', d)
              | Inr d \<Rightarrow> Option.bind (getTotalSupply d) (\<lambda>total.
                  map_option (Pair None)
                    (saveTotalSupply ((case total of None \<Rightarrow> 0 | Some n \<Rightarrow> n) + amount) d))))))"

definition gas_Mint :: "address \<Rightarrow> int \<Rightarrow> simple \<Rightarrow> (string option \<times> simple) option" where
  "gas_Mint a amount d = addTokens a amount d"

definition gas_Burn :: "address \<Rightarrow> int \<Rightarrow> simple \<Rightarrow> (string option \<times> simple) option" where
  "gas_Burn a amount d = addTokens a (- amount) d"

text \<open>The two operations below drop the error.\<close>

definition gas_AddBalance :: "address \<Rightarrow> int \<Rightarrow> simple \<Rightarrow> simple option" where
  "gas_AddBalance h amount d = map_option snd (addTokens h amount d)"

definition gas_SubBalance :: "address \<Rightarrow> int \<Rightarrow> simple \<Rightarrow> simple option" where
  "gas_SubBalance h amount d = map_option snd (addTokens h (- amount) d)"

definition gas_GetBalance :: "simple \<Rightarrow> address \<Rightarrow> int option" where
  "gas_GetBalance d h = Option.bind (GetStorageItem d GASAddress (makeAccountKey h)) (\<lambda>si. case si of
     None \<Rightarrow> Some 0
   | Some b \<Rightarrow> (case FromByteArray decode_gas_state b of (_, Some e) \<Rightarrow> None | (bal, None) \<Rightarrow> Some bal))"

section \<open>Ledger\<close>

definition createNonceKey :: "address \<Rightarrow> bytes" where
  "createNonceKey a = makeAddressKey 0x01 a"

definition ledger_GetNonce :: "simple \<Rightarrow> address \<Rightarrow> u64 option" where
  "ledger_GetNonce s h = Option.bind (GetStorageItem s LedgerAddress (createNonceKey h)) (\<lambda>item. case item of
     None \<Rightarrow> Some 0
   | Some b \<Rightarrow> if length b < 8 then None else Some (get_le (take 8 b)))"

definition ledger_SetNonce :: "address \<Rightarrow> u64 \<Rightarrow> simple \<Rightarrow> simple option" where
  "ledger_SetNonce h nonce s = PutStorageItem LedgerAddress (createNonceKey h) (put_le 8 nonce) s"

section \<open>Management\<close>

record state_contract =
  sc_Address :: address
  sc_CodeHash :: hash
  sc_Code :: bytes

definition encode_contract :: "state_contract \<Rightarrow> bin_writer \<Rightarrow> bin_writer" where
  "encode_contract c w = WriteVarBytes (sc_Code c) (WriteBytes (sc_CodeHash c) (WriteBytes (sc_Address c) w))"

definition decode_contract :: "bin_reader \<Rightarrow> state_contract \<times> bin_reader" where
  "decode_contract r =
     (let (a, r1) = ReadBytes (replicate 20 0) r;
          (h, r2) = ReadBytes (replicate 32 0) r1;
          (c, r3) = ReadVarBytes MaxArraySize r2 in
      (\<lparr>sc_Address = a, sc_CodeHash = h, sc_Code = or_nil c\<rparr>, r3))"

definition createContractKey :: "address \<Rightarrow> bytes" where
  "createContractKey h = makeAddressKey 0x01 h"

definition GetContract :: "simple \<Rightarrow> address \<Rightarrow> state_contract option option" where
  "GetContract s addr = Option.bind (GetStorageItem s ManagementAddress (createContractKey addr)) (\<lambda>item. case item of
     None \<Rightarrow> Some None
   | Some b \<Rightarrow> (case FromByteArray decode_contract b of (_, Some e) \<Rightarrow> None | (c, None) \<Rightarrow> Some (Some c)))"

definition mgmt_GetCode :: "simple \<Rightarrow> address \<Rightarrow> bytes option" where
  "mgmt_GetCode s addr = map_option (\<lambda>c. case c of None \<Rightarrow> [] | Some c \<Rightarrow> sc_Code c) (GetContract s addr)"

definition mgmt_GetCodeHash :: "simple \<Rightarrow> address \<Rightarrow> hash option" where
  "mgmt_GetCodeHash s addr =
     map_option (\<lambda>c. case c of None \<Rightarrow> replicate 32 0 | Some c \<Rightarrow> sc_CodeHash c) (GetContract s addr)"

definition mgmt_GetCodeSize :: "simple \<Rightarrow> address \<Rightarrow> nat option" where
  "mgmt_GetCodeSize s addr =
     map_option (\<lambda>c. case c of None \<Rightarrow> 0 | Some c \<Rightarrow> length (sc_Code c)) (GetContract s addr)"

definition mgmt_SetCode :: "(bytes \<Rightarrow> hash) \<Rightarrow> address \<Rightarrow> bytes \<Rightarrow> simple \<Rightarrow> simple option" where
  "mgmt_SetCode keccak addr code s =
     Option.bind (GetContract s addr) (\<lambda>c.
     let c = (case c of None \<Rightarrow> \<lparr>sc_Address = addr, sc_CodeHash = replicate 32 0, sc_Code = []\<rparr> | Some c \<Rightarrow> c);
         c = c\<lparr>sc_Code := code, sc_CodeHash := keccak code\<rparr> in
     case ToByteArray (encode_contract c) of
       Inl e \<Rightarrow> None
     | Inr b \<Rightarrow> PutStorageItem ManagementAddress (createContractKey addr) (or_nil b) s)"

text \<open>\<open>Destroy\<close> deletes under the address of the contract itself, not under that of the registry.\<close>

definition Destroy :: "address \<Rightarrow> simple \<Rightarrow> (bool \<times> simple) option" where
  "Destroy addr s = Option.bind (GetContract s addr) (\<lambda>c. case c of
     None \<Rightarrow> Some (False, s)
   | Some _ \<Rightarrow> map_option (Pair True) (DeleteStorageItem addr (createContractKey addr) s))"

section \<open>Laws\<close>

lemma makeAddressKey_eq: "makeAddressKey p a = p # fit 20 a"
  using copy_at_key [of a 20 p] by (simp add: makeAddressKey_def)

lemmas key_eqs = makeAddressKey_eq makeAccountKey_def createNonceKey_def createContractKey_def totalSupplyKey_def

lemma native_addresses [simp]:
  "length GASAddress = 20" "length LedgerAddress = 20" "length ManagementAddress = 20"
  "length PolicyAddress = 20" "length DesignationAddress = 20" "length BridgeAddress = 20"
  "GASAddress \<noteq> LedgerAddress" "GASAddress \<noteq> ManagementAddress" "LedgerAddress \<noteq> ManagementAddress"
  "LedgerAddress \<noteq> GASAddress" "ManagementAddress \<noteq> GASAddress" "ManagementAddress \<noteq> LedgerAddress"
  "PolicyAddress \<noteq> GASAddress" "DesignationAddress \<noteq> GASAddress" "BridgeAddress \<noteq> GASAddress"
  "GASAddress \<noteq> PolicyAddress" "GASAddress \<noteq> DesignationAddress" "GASAddress \<noteq> BridgeAddress"
  by (simp_all add: native_address_def GASAddress_def LedgerAddress_def ManagementAddress_def PolicyAddress_def
      DesignationAddress_def BridgeAddress_def)

text \<open>The balance in a storage item; \<open>None\<close> when it cannot be read.\<close>

definition balance_in :: "bytes option \<Rightarrow> int option" where
  "balance_in si = (case si of None \<Rightarrow> Some 0
     | Some b \<Rightarrow> (case FromByteArray decode_gas_state b of (_, Some e) \<Rightarrow> None | (bal, None) \<Rightarrow> Some bal))"

definition account :: "simple \<Rightarrow> address \<Rightarrow> bytes option" where
  "account d a = item d GASAddress (20 # fit 20 a)"

lemma GetBalance_eq: "gas_GetBalance d a = balance_in (account d a)"
  by (simp add: gas_GetBalance_def key_eqs balance_in_def account_def)

lemma getGasState_eq:
  "getGasState d (20 # fit 20 a) = Some (case account d a of None \<Rightarrow> Inr None
     | Some b \<Rightarrow> (case FromByteArray decode_gas_state b of (_, Some e) \<Rightarrow> Inl e | (bal, None) \<Rightarrow> Inr (Some bal)))"
  by (simp add: getGasState_def account_def)

lemma balance_nonneg: "balance_in si = Some x \<Longrightarrow> 0 \<le> x"
  by (auto simp: balance_in_def FromByteArray_def decode_gas_state_def split: option.splits prod.splits)

lemma encode_gas_state_bytes: "ToByteArray (encode_gas_state x) = Inr (Some (var_bytes (big_Bytes x)))"
  by (simp add: ToByteArray_def encode_gas_state_def WriteVarBytes_eq NewBufBinWriter_def Bytes_def WriteBytes_def)

definition amount_ok :: "int \<Rightarrow> bool" where
  "amount_ok v \<longleftrightarrow> \<bar>v\<bar> < 256 ^ MaxArraySize"

lemma decode_gas_bytes:
  assumes "0 \<le> x" and "x < 2 * 256 ^ MaxArraySize"
  shows "FromByteArray decode_gas_state (var_bytes (big_Bytes x)) = (x, None) \<and> x < 256 ^ MaxArraySize \<or>
     (\<exists>y e. FromByteArray decode_gas_state (var_bytes (big_Bytes x)) = (y, Some e))"
proof (cases "length (big_Bytes x) \<le> MaxArraySize")
  case True
  then have "x < 256 ^ MaxArraySize" using length_big_Bytes [of x MaxArraySize] assms(1) by simp
  moreover have "ReadVarBytes MaxArraySize (rd (var_bytes (big_Bytes x))) = (Some (big_Bytes x), rd [])"
    using ReadVarBytes_exact [OF True, of "[]"] by (simp add: MaxArraySize_def)
  ultimately show ?thesis
    using assms(1) by (simp add: FromByteArray_def decode_gas_state_def NewBinReaderFromBuf_def or_nil_def)
next
  case False
  have "(2 :: int) * 256 ^ MaxArraySize \<le> 256 ^ Suc MaxArraySize" by simp
  with assms(2) have "x < 256 ^ Suc MaxArraySize" by (rule less_le_trans)
  then have "length (big_Bytes x) \<le> Suc MaxArraySize" using length_big_Bytes [of x "Suc MaxArraySize"] assms(1) by simp
  then have "length (big_Bytes x) < 2 ^ 64" by (simp add: MaxArraySize_def)
  with False ReadVarBytes_too_big [of MaxArraySize "big_Bytes x" "[]"] show ?thesis
    by (simp add: FromByteArray_def decode_gas_state_def NewBinReaderFromBuf_def)
qed

lemma ReadVarBytes_length:
  assumes "ms < 2 ^ 64" and "ReadVarBytes ms r = (Some b, r')"
  shows "length b \<le> ms"
proof -
  obtain n r1 where n: "ReadVarUint r = (n, r1)" by (cases "ReadVarUint r")
  then have "n \<le> of_nat ms" and "length b = unat n"
    using assms(2) ReadBytes_length by (auto simp: ReadVarBytes_def not_less split: if_splits prod.splits)
  then show ?thesis using assms(1) by (simp add: word_le_nat_alt unat_of_nat take_bit_nat_eq_self)
qed

lemma balance_small:
  assumes "balance_in si = Some x"
  shows "amount_ok x"
proof (cases si)
  case None
  then show ?thesis using assms by (simp add: balance_in_def amount_ok_def)
next
  case (Some b)
  obtain c r' where c: "ReadVarBytes MaxArraySize (NewBinReaderFromBuf b) = (c, r')"
    by (cases "ReadVarBytes MaxArraySize (NewBinReaderFromBuf b)")
  then have x: "x = SetBytes (or_nil c)"
    using assms Some by (auto simp: balance_in_def FromByteArray_def decode_gas_state_def split: option.splits)
  have "length (or_nil c) \<le> MaxArraySize"
    using c ReadVarBytes_length [of MaxArraySize] by (cases c) (auto simp: or_nil_def MaxArraySize_def)
  then have "(256 :: int) ^ length (or_nil c) \<le> 256 ^ MaxArraySize" by (rule power_increasing) simp
  with SetBytes_less [of "or_nil c"] have "SetBytes (or_nil c) < 256 ^ MaxArraySize" by (rule less_le_trans)
  then show ?thesis by (simp add: amount_ok_def x)
qed

section \<open>The books balance\<close>

text \<open>
  The accounts in the storage hold the positive balances \<open>b\<close>, and the recorded supply is their sum
  over all addresses.
\<close>

definition recorded :: "simple \<Rightarrow> int" where
  "recorded d = (case item d GASAddress totalSupplyKey of None \<Rightarrow> 0 | Some x \<Rightarrow> SetBytes x)"

definition all_addresses :: "address set" where
  "all_addresses = {a. length a = 20}"

definition gas_books :: "simple \<Rightarrow> (address \<Rightarrow> int) \<Rightarrow> bool" where
  "gas_books d b \<longleftrightarrow> (\<forall>a. 0 \<le> b a \<and> b a < 2 * 256 ^ MaxArraySize \<and>
       account d a = (if b (fit 20 a) = 0 then None else Some (var_bytes (big_Bytes (b (fit 20 a)))))) \<and>
     recorded d = (\<Sum>a \<in> all_addresses. b a)"

lemma finite_addresses: "finite all_addresses"
  using finite_lists_length_eq [of "UNIV :: byte set" 20] by (simp add: all_addresses_def)

lemma sum_books:
  "a \<in> all_addresses \<Longrightarrow> (\<Sum>x \<in> all_addresses. (b(a := b a + v)) x) = (\<Sum>x \<in> all_addresses. b x) + (v :: int)"
  by (simp add: sum.remove [OF finite_addresses, of a])

definition same_frame :: "simple \<Rightarrow> simple \<Rightarrow> bool" where
  "same_frame d d' \<longleftrightarrow> dao_ok d' \<and> Version d' = Version d \<and> d_private d' = d_private d"

lemma account_put:
  assumes "dao_ok d" and "bal \<noteq> 0"
  shows "\<exists>d'. putGasState (20 # fit 20 h) bal d = Some (Inr d') \<and> same_frame d d' \<and>
     (\<forall>a. account d' a = (if fit 20 a = fit 20 h then Some (var_bytes (big_Bytes bal)) else account d a)) \<and>
     recorded d' = recorded d"
proof -
  obtain d' where d': "PutStorageItem GASAddress (20 # fit 20 h) (var_bytes (big_Bytes bal)) d = Some d'"
    using PutStorageItem_total [OF assms(1), of "20 # fit 20 h"] by auto
  show ?thesis
    using PutStorageItem_facts [OF d' assms(1)] d'
    by (simp add: putGasState_def encode_gas_state_bytes or_nil_def same_frame_def account_def recorded_def totalSupplyKey_def)
qed

lemma account_delete:
  assumes "dao_ok d"
  shows "\<exists>d'. DeleteStorageItem GASAddress (20 # fit 20 h) d = Some d' \<and> same_frame d d' \<and>
     (\<forall>a. account d' a = (if fit 20 a = fit 20 h then None else account d a)) \<and> recorded d' = recorded d"
proof -
  obtain d' where d': "DeleteStorageItem GASAddress (20 # fit 20 h) d = Some d'"
    using DeleteStorageItem_total [OF assms(1), of "20 # fit 20 h"] by auto
  show ?thesis
    using DeleteStorageItem_facts [OF d' assms(1)] d'
    by (simp add: same_frame_def account_def recorded_def totalSupplyKey_def)
qed

lemma account_set:
  assumes "dao_ok d" and "gs = None \<longrightarrow> bal \<noteq> 0"
  shows "\<exists>d'. (if gs \<noteq> None \<and> bal = 0 then map_option Inr (DeleteStorageItem GASAddress (20 # fit 20 h) d)
        else putGasState (20 # fit 20 h) bal d) = Some (Inr d') \<and> same_frame d d' \<and> recorded d' = recorded d \<and>
     (\<forall>a. account d' a = (if fit 20 a = fit 20 h
        then (if bal = 0 then None else Some (var_bytes (big_Bytes bal))) else account d a))"
proof (cases "bal = 0")
  case True
  then show ?thesis using account_delete [OF assms(1), of h] assms(2) by auto
next
  case False
  then show ?thesis using account_put [OF assms(1), of bal h] by auto
qed

lemma recorded_put:
  assumes "dao_ok d"
  shows "\<exists>d'. Option.bind (getTotalSupply d) (\<lambda>n. map_option (Pair None)
        (saveTotalSupply ((case n of None \<Rightarrow> 0 | Some n \<Rightarrow> n) + amount) d)) = Some (None :: string option, d') \<and>
     same_frame d d' \<and> (\<forall>a. account d' a = account d a) \<and> recorded d' = \<bar>recorded d + amount\<bar>"
proof -
  have n: "getTotalSupply d = Some (map_option SetBytes (item d GASAddress totalSupplyKey))"
    by (simp add: getTotalSupply_def totalSupplyKey_def)
  have sup: "(case map_option SetBytes (item d GASAddress totalSupplyKey) of None \<Rightarrow> 0 | Some n \<Rightarrow> n) = recorded d"
    by (simp add: recorded_def split: option.split)
  obtain d' where d': "PutStorageItem GASAddress totalSupplyKey (big_Bytes (recorded d + amount)) d = Some d'"
    using PutStorageItem_total [OF assms(1), of totalSupplyKey] by (auto simp: totalSupplyKey_def)
  note f = PutStorageItem_facts [OF d' assms(1)]
  have "\<forall>a. account d' a = account d a" by (simp add: account_def f(4) totalSupplyKey_def)
  moreover have "recorded d' = \<bar>recorded d + amount\<bar>"
    by (subst recorded_def) (simp add: f(4))
  ultimately show ?thesis
    using d' f(1-3) by (simp only: n sup bind.bind_lunit saveTotalSupply_def same_frame_def) simp
qed

lemma same_frame_trans: "same_frame d d' \<Longrightarrow> same_frame d' d'' \<Longrightarrow> same_frame d d''"
  by (simp add: same_frame_def)

lemma gas_books_change:
  assumes "gas_books d b" and "0 \<le> b (fit 20 h) + amount" and "b (fit 20 h) + amount < 2 * 256 ^ MaxArraySize"
    and "\<forall>a. account d' a = (if fit 20 a = fit 20 h
        then (if b (fit 20 h) + amount = 0 then None else Some (var_bytes (big_Bytes (b (fit 20 h) + amount))))
        else account d a)"
    and "recorded d' = \<bar>recorded d + amount\<bar>"
  shows "gas_books d' (b(fit 20 h := b (fit 20 h) + amount))"
proof -
  let ?b = "b(fit 20 h := b (fit 20 h) + amount)"
  have pos: "0 \<le> ?b a" for a using assms(1,2) by (simp add: gas_books_def)
  have "(\<Sum>a \<in> all_addresses. ?b a) = recorded d + amount"
    using sum_books [of "fit 20 h" b amount] assms(1) by (simp add: all_addresses_def gas_books_def)
  moreover have "0 \<le> (\<Sum>a \<in> all_addresses. ?b a)" using pos by (rule sum_nonneg)
  ultimately have "recorded d' = (\<Sum>a \<in> all_addresses. ?b a)" using assms(5) by linarith
  then show ?thesis using assms(1-4) by (simp add: gas_books_def)
qed

lemma addTokens_books:
  assumes "dao_ok d" and "gas_books d b" and "amount_ok amount"
  shows "\<exists>e d'. addTokens h amount d = Some (e, d') \<and>
     (e \<noteq> None \<and> d' = d \<or> e = None \<and> amount = 0 \<and> d' = d \<or>
      e = None \<and> same_frame d d' \<and> gas_books d' (b(fit 20 h := b (fit 20 h) + amount)))"
proof (cases "amount = 0")
  case True
  then show ?thesis by (simp add: addTokens_def)
next
  case False
  let ?x = "b (fit 20 h)" and ?k = "20 # fit 20 h"
  have x: "0 \<le> ?x" "?x < 2 * 256 ^ MaxArraySize" using assms(2) by (simp_all add: gas_books_def)
  have acc: "account d h = (if ?x = 0 then None else Some (var_bytes (big_Bytes ?x)))"
    using assms(2) by (simp add: gas_books_def)
  consider e where "getGasState d ?k = Some (Inl e)"
    | gs where "getGasState d ?k = Some (Inr gs)" "?x < 256 ^ MaxArraySize" "(case gs of None \<Rightarrow> 0 | Some b \<Rightarrow> b) = ?x"
      "gs = None \<longleftrightarrow> ?x = 0"
    using decode_gas_bytes [OF x] x(1) by (cases "?x = 0") (auto simp: getGasState_eq acc)
  then show ?thesis
  proof cases
    case (1 e)
    then show ?thesis using False by (simp add: addTokens_def key_eqs)
  next
    case (2 gs)
    show ?thesis
    proof (cases "0 \<le> ?x + amount")
      case neg: False
      then have "increaseBalance ?x amount = Inl ''insufficient funds''"
        using x by (simp add: increaseBalance_def)
      then show ?thesis using 2 False by (simp add: addTokens_def key_eqs Let_def)
    next
      case pos: True
      then have inc: "increaseBalance ?x amount = Inr (?x + amount)"
        using x by (auto simp: increaseBalance_def sgn_if split: if_splits)
      have le: "?x + amount < 2 * 256 ^ MaxArraySize" using assms(3) 2(2) unfolding amount_ok_def by linarith
      obtain d1 where d1: "(if gs \<noteq> None \<and> ?x + amount = 0 then map_option Inr (DeleteStorageItem GASAddress ?k d)
            else putGasState ?k (?x + amount) d) = Some (Inr d1)" "same_frame d d1" "recorded d1 = recorded d"
        and a1: "\<forall>a. account d1 a = (if fit 20 a = fit 20 h
          then (if ?x + amount = 0 then None else Some (var_bytes (big_Bytes (?x + amount)))) else account d a)"
        using account_set [OF assms(1), of gs "?x + amount" h] 2(4) False by auto
      then have "dao_ok d1" by (simp add: same_frame_def)
      from recorded_put [OF this, of amount] obtain d' where d': "Option.bind (getTotalSupply d1) (\<lambda>n. map_option (Pair None)
          (saveTotalSupply ((case n of None \<Rightarrow> 0 | Some n \<Rightarrow> n) + amount) d1)) = Some (None :: string option, d')"
        "same_frame d1 d'" "\<forall>a. account d' a = account d1 a" "recorded d' = \<bar>recorded d1 + amount\<bar>" by blast
      have "addTokens h amount d = Some (None, d')"
        using 2 inc d1(1) d'(1) False by (simp add: addTokens_def key_eqs Let_def)
      moreover have "gas_books d' (b(fit 20 h := ?x + amount))"
        by (rule gas_books_change [OF assms(2) pos le]) (use a1 d1 d' in simp_all)
      ultimately show ?thesis using same_frame_trans [OF d1(2) d'(2)] by blast
    qed
  qed
qed

end
