(* ===== verification/AccessList.thy ===== *)
theory AccessList
  imports Prelude
begin

text \<open>
  The access list of src/pkg/core/statedb/access_list.go: a map from addresses to an index into a
  slice of slot sets, with -1 for addresses that have no slots. An index outside the slice is a panic
  (\<open>None\<close>). The interface is that of two sets, of addresses and of slots.
\<close>

record access_list =
  addresses :: "address \<rightharpoonup> int"
  slots :: "hash set list"

definition slots_at :: "access_list \<Rightarrow> int \<Rightarrow> hash set option" where
  "slots_at al idx = (if 0 \<le> idx \<and> idx < int (length (slots al)) then Some (slots al ! nat idx) else None)"

definition ContainsAddress :: "access_list \<Rightarrow> address \<Rightarrow> bool" where
  "ContainsAddress al a = (addresses al a \<noteq> None)"

definition al_Contains :: "access_list \<Rightarrow> address \<Rightarrow> hash \<Rightarrow> (bool \<times> bool) option" where
  "al_Contains al a slot = (case addresses al a of
     None \<Rightarrow> Some (False, False)
   | Some idx \<Rightarrow>
       if idx = -1 then Some (True, False)
       else map_option (\<lambda>s. (True, slot \<in> s)) (slots_at al idx))"

definition newAccessList :: access_list where
  "newAccessList = \<lparr>addresses = Map.empty, slots = []\<rparr>"

text \<open>A deep copy is the same value.\<close>

definition al_Copy :: "access_list \<Rightarrow> access_list" where
  "al_Copy a = \<lparr>addresses = addresses a, slots = slots a\<rparr>"

definition AddAddress :: "address \<Rightarrow> access_list \<Rightarrow> bool \<times> access_list" where
  "AddAddress a al =
     (if addresses al a \<noteq> None then (False, al)
      else (True, al\<lparr>addresses := (addresses al)(a \<mapsto> -1)\<rparr>))"

definition AddSlot :: "address \<Rightarrow> hash \<Rightarrow> access_list \<Rightarrow> ((bool \<times> bool) \<times> access_list) option" where
  "AddSlot a slot al =
     (let present = (addresses al a \<noteq> None) in
      case addresses al a of
        Some idx \<Rightarrow>
          if idx = -1 then Some ((False, True), al\<lparr>addresses := (addresses al)(a \<mapsto> int (length (slots al))),
                                       slots := slots al @ [{slot}]\<rparr>)
          else Option.bind (slots_at al idx) (\<lambda>s.
            if slot \<notin> s then Some ((False, True), al\<lparr>slots := (slots al)[nat idx := insert slot s]\<rparr>)
            else Some ((False, False), al))
      | None \<Rightarrow> Some ((True, True), al\<lparr>addresses := (addresses al)(a \<mapsto> int (length (slots al))),
                                     slots := slots al @ [{slot}]\<rparr>))"

definition DeleteSlot :: "address \<Rightarrow> hash \<Rightarrow> access_list \<Rightarrow> access_list option" where
  "DeleteSlot a slot al = (case addresses al a of
     None \<Rightarrow> None
   | Some idx \<Rightarrow> Option.bind (slots_at al idx) (\<lambda>s.
       let s' = s - {slot}; al' = al\<lparr>slots := (slots al)[nat idx := s']\<rparr> in
       if s' = {} then Some (al'\<lparr>slots := take (nat idx) (slots al'), addresses := (addresses al')(a \<mapsto> -1)\<rparr>)
       else Some al'))"

definition DeleteAddress :: "address \<Rightarrow> access_list \<Rightarrow> access_list" where
  "DeleteAddress a al = al\<lparr>addresses := (addresses al)(a := None)\<rparr>"

section \<open>The interface\<close>

text \<open>Laws of a collection of warm addresses and slots, and what a sequence of additions leaves.\<close>

datatype warmth = WarmAddress address | WarmSlot address hash

fun addr_of :: "warmth \<Rightarrow> address" where
  "addr_of (WarmAddress a) = a"
| "addr_of (WarmSlot a k) = a"

locale warm_set =
  fixes inv :: "'l \<Rightarrow> bool"
    and add_addr :: "address \<Rightarrow> 'l \<Rightarrow> 'l option"
    and add_slot :: "address \<Rightarrow> hash \<Rightarrow> 'l \<Rightarrow> 'l option"
    and addrs :: "'l \<Rightarrow> address set"
    and pairs :: "'l \<Rightarrow> (address \<times> hash) set"
  assumes add_addr: "inv l \<Longrightarrow> \<exists>l'. add_addr a l = Some l' \<and> inv l' \<and> addrs l' = insert a (addrs l) \<and> pairs l' = pairs l"
    and add_slot: "inv l \<Longrightarrow> \<exists>l'. add_slot a k l = Some l' \<and> inv l' \<and> addrs l' = insert a (addrs l) \<and>
      pairs l' = insert (a, k) (pairs l)"
begin

fun add1 :: "warmth \<Rightarrow> 'l \<Rightarrow> 'l option" where
  "add1 (WarmAddress a) l = add_addr a l"
| "add1 (WarmSlot a k) l = add_slot a k l"

fun adds :: "warmth list \<Rightarrow> 'l \<Rightarrow> 'l option" where
  "adds [] l = Some l"
| "adds (w # ws) l = Option.bind (add1 w l) (adds ws)"

lemma adds_sets:
  "inv l \<Longrightarrow> \<exists>l'. adds ws l = Some l' \<and> inv l' \<and> addrs l' = addrs l \<union> addr_of ` set ws \<and>
     pairs l' = pairs l \<union> {(a, k). WarmSlot a k \<in> set ws}"
proof (induction ws arbitrary: l)
  case (Cons w ws)
  obtain l1 where l1: "add1 w l = Some l1" "inv l1" "addrs l1 = insert (addr_of w) (addrs l)"
    "pairs l1 = pairs l \<union> {(a, k). w = WarmSlot a k}"
  proof (cases w)
    case (WarmAddress a)
    then show ?thesis using add_addr [OF Cons.prems, of a] that by auto
  next
    case (WarmSlot a k)
    then show ?thesis using add_slot [OF Cons.prems, of a k] that by auto
  qed
  then obtain l' where "adds ws l1 = Some l'" "inv l'" "addrs l' = addrs l1 \<union> addr_of ` set ws"
    "pairs l' = pairs l1 \<union> {(a, k). WarmSlot a k \<in> set ws}"
    using Cons.IH by blast
  with l1 show ?case by auto
qed simp

end

section \<open>The list behaves like two sets\<close>

definition al_ok :: "access_list \<Rightarrow> bool" where
  "al_ok al \<longleftrightarrow> (\<forall>a idx. addresses al a = Some idx \<longrightarrow> idx = -1 \<or> 0 \<le> idx \<and> idx < int (length (slots al))) \<and>
     (\<forall>a b idx. addresses al a = Some idx \<longrightarrow> addresses al b = Some idx \<longrightarrow> idx \<noteq> -1 \<longrightarrow> a = b)"

definition al_addrs :: "access_list \<Rightarrow> address set" where
  "al_addrs al = dom (addresses al)"

definition al_pairs :: "access_list \<Rightarrow> (address \<times> hash) set" where
  "al_pairs al = {(a, k). \<exists>idx. addresses al a = Some idx \<and> idx \<noteq> -1 \<and> k \<in> slots al ! nat idx}"

lemma Contains_sets:
  assumes "al_ok al"
  shows "ContainsAddress al a \<longleftrightarrow> a \<in> al_addrs al"
    and "al_Contains al a k = Some (a \<in> al_addrs al, (a, k) \<in> al_pairs al)"
  using assms
  by (auto simp: ContainsAddress_def al_Contains_def al_addrs_def al_pairs_def al_ok_def slots_at_def split: option.splits)

lemma AddAddress_sets:
  assumes "al_ok al"
  shows "al_ok (snd (AddAddress a al))" and "al_addrs (snd (AddAddress a al)) = insert a (al_addrs al)"
    and "al_pairs (snd (AddAddress a al)) = al_pairs al"
  using assms by (auto simp: AddAddress_def al_ok_def al_addrs_def al_pairs_def split: if_splits)

lemma new_slots:
  assumes "al_ok al" and "addresses al a = None \<or> addresses al a = Some (-1)"
    and "al' = al\<lparr>addresses := (addresses al)(a \<mapsto> int (length (slots al))), slots := slots al @ [{k}]\<rparr>"
  shows "al_ok al' \<and> al_addrs al' = insert a (al_addrs al) \<and> al_pairs al' = insert (a, k) (al_pairs al)"
proof (intro conjI)
  have range: "idx = -1 \<or> 0 \<le> idx \<and> idx < int (length (slots al))" if "addresses al b = Some idx" for b idx
    using assms(1) that by (auto simp: al_ok_def)
  then show "al_ok al'" using assms(1,3) by (fastforce simp: al_ok_def)
  show "al_addrs al' = insert a (al_addrs al)" by (simp add: al_addrs_def assms(3))
  show "al_pairs al' = insert (a, k) (al_pairs al)"
    using assms(2,3) range by (fastforce simp: al_pairs_def nth_append split: if_splits)
qed

lemma AddSlot_sets:
  assumes "al_ok al"
  shows "\<exists>r al'. AddSlot a k al = Some (r, al') \<and> al_ok al' \<and> al_addrs al' = insert a (al_addrs al) \<and>
     al_pairs al' = insert (a, k) (al_pairs al)"
proof (cases "addresses al a = None \<or> addresses al a = Some (-1)")
  case True
  then show ?thesis using new_slots [OF assms True refl, of k] by (auto simp: AddSlot_def)
next
  case False
  then obtain idx where idx: "addresses al a = Some idx" "idx \<noteq> -1" by auto
  then have r: "0 \<le> idx" "idx < int (length (slots al))" using assms by (auto simp: al_ok_def)
  let ?al = "al\<lparr>slots := (slots al)[nat idx := insert k (slots al ! nat idx)]\<rparr>"
  have "al_ok ?al" "al_addrs ?al = insert a (al_addrs al)" using assms idx by (auto simp: al_ok_def al_addrs_def)
  moreover have inj: "nat i = nat idx \<longleftrightarrow> b = a" if "addresses al b = Some i" "i \<noteq> -1" for b i
    using that idx r assms by (auto simp: al_ok_def) (metis nat_eq_iff2 of_nat_nat)
  have "p \<in> al_pairs ?al \<longleftrightarrow> p \<in> insert (a, k) (al_pairs al)" for p
  proof (cases "fst p = a")
    case True
    then show ?thesis using idx r by (cases p) (auto simp: al_pairs_def)
  next
    case other: False
    then have "slots ?al ! nat i = slots al ! nat i" if "addresses al (fst p) = Some i" "i \<noteq> -1" for i
      using inj [OF that] by simp
    with other show ?thesis by (cases p) (auto simp: al_pairs_def)
  qed
  then have "al_pairs ?al = insert (a, k) (al_pairs al)" by blast
  ultimately show ?thesis using idx r assms
    by (cases "k \<in> slots al ! nat idx") (auto simp: AddSlot_def slots_at_def al_pairs_def al_addrs_def)
qed

interpretation al: warm_set al_ok "\<lambda>a al. Some (snd (AddAddress a al))" "\<lambda>a k al. map_option snd (AddSlot a k al)"
  al_addrs al_pairs
proof unfold_locales
  fix l a k assume "al_ok l"
  then show "\<exists>l'. map_option snd (AddSlot a k l) = Some l' \<and> al_ok l' \<and> al_addrs l' = insert a (al_addrs l) \<and>
      al_pairs l' = insert (a, k) (al_pairs l)"
    using AddSlot_sets [of l a k] by force
qed (simp add: AddAddress_sets)

text \<open>A sequence of additions, as the instructions and the access list of a transaction make them.\<close>

fun warm :: "warmth \<Rightarrow> access_list \<Rightarrow> access_list option" where
  "warm (WarmAddress a) l = Some (snd (AddAddress a l))"
| "warm (WarmSlot a k) l = map_option snd (AddSlot a k l)"

fun warm_all :: "warmth list \<Rightarrow> access_list \<Rightarrow> access_list option" where
  "warm_all [] l = Some l"
| "warm_all (w # ws) l = Option.bind (warm w l) (warm_all ws)"

lemma adds_warm_all: "al.adds ws l = warm_all ws l"
proof (induction ws arbitrary: l)
  case (Cons w ws)
  have "al.add1 w = warm w" by (rule ext) (cases w; simp)
  then show ?case using Cons.IH by (cases "warm w l") simp_all
qed simp

lemma newAccessList_sets: "al_ok newAccessList" "al_addrs newAccessList = {}" "al_pairs newAccessList = {}"
  by (simp_all add: al_ok_def al_addrs_def al_pairs_def newAccessList_def)

text \<open>
  C18. After any sequence of additions the two-level list answers exactly as the set of the added
  addresses and the set of the added slots, an address counting as added with each of its slots; no
  addition and no query runs out of the slice of slot sets.
\<close>

theorem access_list_is_two_sets:
  "\<exists>l. warm_all ws newAccessList = Some l \<and>
     (\<forall>a. ContainsAddress l a = (a \<in> addr_of ` set ws)) \<and>
     (\<forall>a k. al_Contains l a k = Some (a \<in> addr_of ` set ws, WarmSlot a k \<in> set ws))"
proof -
  obtain l where l: "warm_all ws newAccessList = Some l" "al_ok l"
    and sets: "al_addrs l = addr_of ` set ws" "al_pairs l = {(a, k). WarmSlot a k \<in> set ws}"
    using al.adds_sets [OF newAccessList_sets(1), of ws] by (auto simp: newAccessList_sets adds_warm_all)
  then show ?thesis using Contains_sets [OF l(2)] by (simp add: sets)
qed

end
