(* ===== verification/EvmBase.thy ===== *)
theory EvmBase
  imports BigInt
begin

text \<open>
  The data of the virtual machine in src/pkg/vm: 256-bit words, errors (errors.go), the database
  interface (interface.go), contracts and frames (contract.go, interpreter.go, evm.go), the stack
  (stack.go), the memory (memory.go) and the helpers of common.go.

  The stack is a list with its top first. A frame holds what \<open>Run\<close> keeps in local variables and in
  the interpreter; a Go panic is an outcome of its own. The gas prices of go-ethereum's package
  params, the harder operations of its 256-bit integers and its hash functions are parameters. The
  jump analysis that contracts cache under the hash of their code is recomputed.
\<close>

section \<open>256-bit words\<close>

definition IsUint64 :: "u256 \<Rightarrow> bool" where
  "IsUint64 x = (x \<le> 0xFFFFFFFFFFFFFFFF)"

definition Uint64 :: "u256 \<Rightarrow> u64" where
  "Uint64 x = ucast x"

definition of_u64 :: "u64 \<Rightarrow> u256" where
  "of_u64 x = ucast x"

definition Bytes32 :: "u256 \<Rightarrow> hash" where
  "Bytes32 x = put_be 32 x"

definition Bytes20 :: "u256 \<Rightarrow> address" where
  "Bytes20 x = put_be 20 x"

definition of_bytes :: "bytes \<Rightarrow> u256" where
  "of_bytes b = get_be b"

definition FromBig :: "int \<Rightarrow> u256" where
  "FromBig n = word_of_int n"

definition ToBig :: "u256 \<Rightarrow> int" where
  "ToBig x = uint x"

definition flag :: "bool \<Rightarrow> u256" where
  "flag b = (if b then 1 else 0)"

record u256_lib =
  u_Div :: "u256 \<Rightarrow> u256 \<Rightarrow> u256"
  u_SDiv :: "u256 \<Rightarrow> u256 \<Rightarrow> u256"
  u_Mod :: "u256 \<Rightarrow> u256 \<Rightarrow> u256"
  u_SMod :: "u256 \<Rightarrow> u256 \<Rightarrow> u256"
  u_Exp :: "u256 \<Rightarrow> u256 \<Rightarrow> u256"
  u_ExtendSign :: "u256 \<Rightarrow> u256 \<Rightarrow> u256"
  u_Byte :: "u256 \<Rightarrow> u256 \<Rightarrow> u256"
  u_AddMod :: "u256 \<Rightarrow> u256 \<Rightarrow> u256 \<Rightarrow> u256"
  u_MulMod :: "u256 \<Rightarrow> u256 \<Rightarrow> u256 \<Rightarrow> u256"

section \<open>Prices and rules\<close>

datatype (plugins only: size code) param =
    StackLimit | CallCreateDepth | MaxCodeSize | CreateDataGas
  | MemoryGas | QuadCoeffDiv | CopyGas | Keccak256Gas | Keccak256WordGas | JumpdestGas
  | LogGas | LogTopicGas | LogDataGas | ExpGas | ExpByteFrontier | ExpByteEIP158
  | CreateGas | Create2Gas | CallGasFrontier | CallGasEIP150 | CallNewAccountGas
  | CallValueTransferGas | CallStipend
  | BalanceGasFrontier | BalanceGasEIP150 | BalanceGasEIP1884
  | ExtcodeSizeGasFrontier | ExtcodeSizeGasEIP150 | ExtcodeCopyBaseFrontier | ExtcodeCopyBaseEIP150
  | ExtcodeHashGasConstantinople | ExtcodeHashGasEIP1884
  | SloadGasFrontier | SloadGasEIP150 | SloadGasEIP1884 | SloadGasEIP2200
  | SstoreSetGas | SstoreClearGas | SstoreResetGas | SstoreRefundGas
  | NetSstoreNoopGas | NetSstoreInitGas | NetSstoreCleanGas | NetSstoreDirtyGas
  | NetSstoreClearRefund | NetSstoreResetClearRefund | NetSstoreResetRefund
  | SstoreSentryGasEIP2200 | SstoreSetGasEIP2200 | SstoreResetGasEIP2200
  | SstoreClearsScheduleRefundEIP2200 | SstoreClearsScheduleRefundEIP3529
  | ColdSloadCostEIP2929 | ColdAccountAccessCostEIP2929 | WarmStorageReadCostEIP2929
  | SelfdestructGasEIP150 | CreateBySelfdestructGas | SelfdestructRefundGas

type_synonym prices = "param \<Rightarrow> u64"

record rules =
  IsHomestead :: bool
  IsEIP150 :: bool
  IsEIP158 :: bool
  IsByzantium :: bool
  IsConstantinople :: bool
  IsPetersburg :: bool
  IsIstanbul :: bool
  IsBerlin :: bool
  IsLondon :: bool
  IsMerge :: bool

section \<open>Errors\<close>

datatype vm_error =
    ErrOutOfGas | ErrCodeStoreOutOfGas | ErrDepth | ErrInsufficientBalance
  | ErrContractAddressCollision | ErrExecutionReverted | ErrMaxCodeSizeExceeded | ErrInvalidJump
  | ErrWriteProtection | ErrReturnDataOutOfBounds | ErrGasUintOverflow | ErrInvalidCode
  | ErrNonceUintOverflow | ErrStackUnderflow nat nat | ErrStackOverflow nat nat
  | ErrInvalidOpCode byte | ErrContract string

section \<open>The database interface\<close>

record vm_log =
  log_Address :: address
  log_Topics :: "hash list"
  log_Data :: bytes
  log_BlockNumber :: u64

text \<open>The result \<open>None\<close> of an operation is a panic.\<close>

record 's state_db =
  db_CreateAccount :: "address \<Rightarrow> 's \<Rightarrow> 's option"
  db_AddBalance :: "address \<Rightarrow> int \<Rightarrow> 's \<Rightarrow> 's option"
  db_GetBalance :: "'s \<Rightarrow> address \<Rightarrow> int option"
  db_GetNonce :: "'s \<Rightarrow> address \<Rightarrow> u64 option"
  db_SetNonce :: "address \<Rightarrow> u64 \<Rightarrow> 's \<Rightarrow> 's option"
  db_GetCodeHash :: "'s \<Rightarrow> address \<Rightarrow> hash option"
  db_GetCode :: "'s \<Rightarrow> address \<Rightarrow> bytes option"
  db_SetCode :: "address \<Rightarrow> bytes \<Rightarrow> 's \<Rightarrow> 's option"
  db_GetCodeSize :: "'s \<Rightarrow> address \<Rightarrow> nat option"
  db_AddRefund :: "u64 \<Rightarrow> 's \<Rightarrow> 's option"
  db_SubRefund :: "u64 \<Rightarrow> 's \<Rightarrow> 's option"
  db_GetCommittedState :: "'s \<Rightarrow> address \<Rightarrow> hash \<Rightarrow> hash option"
  db_GetState :: "'s \<Rightarrow> address \<Rightarrow> hash \<Rightarrow> hash option"
  db_SetState :: "address \<Rightarrow> hash \<Rightarrow> hash \<Rightarrow> 's \<Rightarrow> 's option"
  db_Suicide :: "address \<Rightarrow> 's \<Rightarrow> 's option"
  db_HasSuicided :: "'s \<Rightarrow> address \<Rightarrow> bool option"
  db_Exist :: "'s \<Rightarrow> address \<Rightarrow> bool option"
  db_Empty :: "'s \<Rightarrow> address \<Rightarrow> bool option"
  db_AddressInAccessList :: "'s \<Rightarrow> address \<Rightarrow> bool option"
  db_SlotInAccessList :: "'s \<Rightarrow> address \<Rightarrow> hash \<Rightarrow> (bool \<times> bool) option"
  db_AddAddressToAccessList :: "address \<Rightarrow> 's \<Rightarrow> 's option"
  db_AddSlotToAccessList :: "address \<Rightarrow> hash \<Rightarrow> 's \<Rightarrow> 's option"
  db_RevertToSnapshot :: "int \<Rightarrow> 's \<Rightarrow> 's option"
  db_Snapshot :: "'s \<Rightarrow> (int \<times> 's) option"
  db_AddLog :: "vm_log \<Rightarrow> 's \<Rightarrow> 's option"
  db_AddPreimage :: "hash \<Rightarrow> bytes \<Rightarrow> 's \<Rightarrow> 's option"

section \<open>Machine state\<close>

text \<open>
  \<open>native\<close> is the interface \<open>NativeContract\<close>: the price of a call and its effect on the database;
  \<open>precompiled\<close> is \<open>PrecompiledContract\<close>. The result of \<open>Run\<close> is \<open>None\<close> when it panics.
  \<open>GetHash\<close> is a field of function type, which may be nil. \<open>abort\<close> is the flag that \<open>Cancel\<close> sets from outside.
\<close>

record 's native =
  n_RequiredGas :: "bytes \<Rightarrow> u64"
  n_Run :: "address \<Rightarrow> bytes \<Rightarrow> 's \<Rightarrow> ((vm_error + bytes) \<times> 's) option"

record precompiled =
  p_RequiredGas :: "bytes \<Rightarrow> u64"
  p_Run :: "bytes \<Rightarrow> (vm_error + bytes) option"

record 's env =
  DB :: "'s state_db"
  prc :: prices
  chainRules :: rules
  num :: u256_lib
  Keccak :: "bytes \<Rightarrow> hash"
  CreateAddress :: "address \<Rightarrow> u64 \<Rightarrow> address"
  CreateAddress2 :: "address \<Rightarrow> hash \<Rightarrow> hash \<Rightarrow> address"
  precompiles :: "rules \<Rightarrow> address \<Rightarrow> precompiled option"
  natives :: "address \<Rightarrow> 's native option"
  GetHash :: "(u64 \<Rightarrow> hash) option"
  Coinbase :: address
  GasLimit :: u64
  BlockNumber :: int
  BlockTime :: int
  Difficulty :: int
  BaseFee :: int
  Random :: hash
  Origin :: address
  TxGasPrice :: int
  ChainId :: int
  EnablePreimageRecording :: bool
  abort :: bool

record contract =
  CallerAddress :: address
  self :: address
  Code :: bytes
  CodeHash :: hash
  cgas :: u64
  cvalue :: int

record 's evm =
  statedb :: 's
  depth :: nat
  readOnly :: bool
  returnData :: bytes
  callGasTemp :: u64

record 's frame =
  pc :: u64
  stk :: "u256 list"
  mstore :: bytes
  lastGasCost :: u64
  gas :: u64
  ctr :: contract
  input :: bytes
  vm :: "'s evm"

definition db :: "'s frame \<Rightarrow> 's" where
  "db f = statedb (vm f)"

definition set_db :: "'s \<Rightarrow> 's frame \<Rightarrow> 's frame" where
  "set_db s f = f\<lparr>vm := (vm f)\<lparr>statedb := s\<rparr>\<rparr>"

definition set_returnData :: "bytes \<Rightarrow> 's frame \<Rightarrow> 's frame" where
  "set_returnData b f = f\<lparr>vm := (vm f)\<lparr>returnData := b\<rparr>\<rparr>"

text \<open>
  What an instruction does: continue, halt (with \<open>None\<close> for the stop token) or panic. \<open>NoFuel\<close> stands
  for a computation that was cut off.
\<close>

datatype 's outcome =
    Next "'s frame"
  | Halt "vm_error option" bytes "'s frame"
  | VmPanic string
  | NoFuel

datatype 's run_result =
    Ran "vm_error option" bytes u64 "'s evm"
  | RunPanic string
  | RunNoFuel

type_synonym 's runner = "contract \<Rightarrow> bytes \<Rightarrow> bool \<Rightarrow> 's evm \<Rightarrow> 's run_result"

datatype 's gas_outcome =
    Cost u64 "'s frame"
  | GasErr vm_error "'s frame"
  | GasPanic string

definition ask :: "'a option \<Rightarrow> ('a \<Rightarrow> 's outcome) \<Rightarrow> 's outcome" where
  "ask r k = (case r of None \<Rightarrow> VmPanic ''state database'' | Some x \<Rightarrow> k x)"

definition gask :: "'a option \<Rightarrow> ('a \<Rightarrow> 's gas_outcome) \<Rightarrow> 's gas_outcome" where
  "gask r k = (case r of None \<Rightarrow> GasPanic ''state database'' | Some x \<Rightarrow> k x)"

definition rask :: "'a option \<Rightarrow> ('a \<Rightarrow> 's run_result) \<Rightarrow> 's run_result" where
  "rask r k = (case r of None \<Rightarrow> RunPanic ''state database'' | Some x \<Rightarrow> k x)"

section \<open>Contracts\<close>

definition NewContract :: "address \<Rightarrow> address \<Rightarrow> int \<Rightarrow> u64 \<Rightarrow> contract" where
  "NewContract caller object value g =
     \<lparr>CallerAddress = caller, self = object, Code = [], CodeHash = replicate 32 0,
      cgas = g, cvalue = value\<rparr>"

definition AsDelegate :: "contract \<Rightarrow> contract \<Rightarrow> contract" where
  "AsDelegate parent c = c\<lparr>CallerAddress := CallerAddress parent, cvalue := cvalue parent\<rparr>"

definition SetCallCode :: "hash \<Rightarrow> bytes \<Rightarrow> contract \<Rightarrow> contract" where
  "SetCallCode h code c = c\<lparr>Code := code, CodeHash := h\<rparr>"

definition STOP :: byte where "STOP = 0x00"

definition GetOp :: "contract \<Rightarrow> u64 \<Rightarrow> byte" where
  "GetOp c n = (if unat n < length (Code c) then Code c ! unat n else STOP)"

definition UseGas :: "u64 \<Rightarrow> 's frame \<Rightarrow> 's frame option" where
  "UseGas g f = (if gas f < g then None else Some (f\<lparr>gas := gas f - g\<rparr>))"

section \<open>Stack\<close>

definition push :: "u256 \<Rightarrow> 's frame \<Rightarrow> 's frame" where
  "push d f = f\<lparr>stk := d # stk f\<rparr>"

definition pop :: "'s frame \<Rightarrow> (u256 \<Rightarrow> 's frame \<Rightarrow> 's outcome) \<Rightarrow> 's outcome" where
  "pop f k = (case stk f of
     [] \<Rightarrow> VmPanic ''index out of range''
   | x # st \<Rightarrow> k x (f\<lparr>stk := st\<rparr>))"

text \<open>\<open>Back n\<close> is the n-th item from the top; \<open>peek\<close> is \<open>Back 0\<close>.\<close>

definition Back :: "nat \<Rightarrow> u256 list \<Rightarrow> u256 option" where
  "Back n st = (if n < length st then Some (st ! n) else None)"

definition stack_swap :: "nat \<Rightarrow> 's frame \<Rightarrow> 's outcome" where
  "stack_swap n f = (let st = stk f in
     if n = 0 \<or> n > length st then VmPanic ''index out of range''
     else Next (f\<lparr>stk := st[0 := st ! (n - 1), n - 1 := st ! 0]\<rparr>))"

definition stack_dup :: "nat \<Rightarrow> 's frame \<Rightarrow> 's outcome" where
  "stack_dup n f = (let st = stk f in
     if n = 0 \<or> n > length st then VmPanic ''index out of range''
     else Next (push (st ! (n - 1)) f))"

section \<open>Memory\<close>

definition mem_Set :: "u64 \<Rightarrow> u64 \<Rightarrow> bytes \<Rightarrow> bytes \<Rightarrow> bytes option" where
  "mem_Set off sz value m =
     (if sz = 0 then Some m
      else let e = off + sz in
        if e > of_nat (length m) then None
        else if off > e then None
        else Some (copy_at (unat off) (take (unat sz) value) m))"

definition mem_Set32 :: "u64 \<Rightarrow> u256 \<Rightarrow> bytes \<Rightarrow> bytes option" where
  "mem_Set32 off val m =
     (let e = off + 32 in
      if e > of_nat (length m) then None
      else if off > e then None
      else Some (copy_at (unat off) (Bytes32 val) m))"

definition mem_Resize :: "u64 \<Rightarrow> bytes \<Rightarrow> bytes" where
  "mem_Resize sz m = (if length m < unat sz then m @ replicate (unat sz - length m) 0 else m)"

text \<open>
  \<open>GetPtr\<close> and \<open>GetCopy\<close> take signed arguments. A slice past the length of the memory is a panic here
  (the code would allow it up to the capacity of the slice).
\<close>

definition GetPtr :: "u64 \<Rightarrow> u64 \<Rightarrow> bytes \<Rightarrow> bytes option" where
  "GetPtr off sz m =
     (if sz = 0 then Some []
      else if int (length m) > sint off then
        (if 0 \<le> sint off \<and> 0 \<le> sint sz \<and> sint off + sint sz \<le> int (length m)
         then Some (take (unat sz) (drop (unat off) m)) else None)
      else Some [])"

section \<open>Helpers of common.go\<close>

text \<open>Both return the size and whether it overflowed.\<close>

definition calcMemSize64WithUint :: "u256 \<Rightarrow> u64 \<Rightarrow> u64 \<times> bool" where
  "calcMemSize64WithUint off length64 =
     (if length64 = 0 then (0, False)
      else if \<not> IsUint64 off then (0, True)
      else let v = Uint64 off + length64 in (v, v < Uint64 off))"

definition calcMemSize64 :: "u256 \<Rightarrow> u256 \<Rightarrow> u64 \<times> bool" where
  "calcMemSize64 off l =
     (if \<not> IsUint64 l then (0, True) else calcMemSize64WithUint off (Uint64 l))"

definition RightPadBytes :: "bytes \<Rightarrow> nat \<Rightarrow> bytes" where
  "RightPadBytes b l = b @ replicate (l - length b) 0"

definition getData :: "bytes \<Rightarrow> u64 \<Rightarrow> u64 \<Rightarrow> bytes option" where
  "getData dat start sz =
     (let len = of_nat (length dat);
          s = (if start > len then len else start);
          e = s + sz;
          e' = (if e > len then len else e) in
      if e' < s then None
      else Some (RightPadBytes (take (unat e' - unat s) (drop (unat s) dat)) (unat sz)))"

definition toWordSize :: "u64 \<Rightarrow> u64" where
  "toWordSize sz =
     (if sz > 0xFFFFFFFFFFFFFFFF - 31 then 0xFFFFFFFFFFFFFFFF div 32 + 1 else (sz + 31) div 32)"

text \<open>\<open>math.SafeMul\<close> and \<open>math.SafeAdd\<close> of go-ethereum: the wrapped result and an overflow flag.\<close>

definition SafeMul :: "u64 \<Rightarrow> u64 \<Rightarrow> u64 \<times> bool" where
  "SafeMul x y = (x * y, uint x * uint y \<ge> 2 ^ 64)"

definition SafeAdd :: "u64 \<Rightarrow> u64 \<Rightarrow> u64 \<times> bool" where
  "SafeAdd x y = (x + y, uint x + uint y \<ge> 2 ^ 64)"

lemma int_ge_64: "int n \<ge> 2 ^ 64 \<longleftrightarrow> n \<ge> 2 ^ 64"
  by (metis of_nat_le_iff of_nat_numeral of_nat_power)

lemma SafeMul_nat: "SafeMul x y = (x * y, unat x * unat y \<ge> 2 ^ 64)"
proof -
  have "uint x * uint y = int (unat x * unat y)" by simp
  then show ?thesis by (simp only: SafeMul_def int_ge_64)
qed

lemma SafeAdd_nat: "SafeAdd x y = (x + y, unat x + unat y \<ge> 2 ^ 64)"
proof -
  have "uint x + uint y = int (unat x + unat y)" by simp
  then show ?thesis by (simp only: SafeAdd_def int_ge_64)
qed

end
