(* ===== verification/EvmGas.thy ===== *)
theory EvmGas
  imports EvmBase
begin

text \<open>
  What an instruction costs: src/pkg/vm/gas.go, gas_table.go, operations_acl.go and the memory an
  instruction needs, src/pkg/vm/memory_table.go. A gas function may change the frame: it records the
  fee of the memory, the gas of a call, refunds and accessed addresses.
\<close>

type_synonym 's gas_fn = "'s env \<Rightarrow> u64 \<Rightarrow> 's frame \<Rightarrow> 's gas_outcome"
type_synonym memory_fn = "u256 list \<Rightarrow> (u64 \<times> bool) option"

section \<open>Memory sizes\<close>

definition mem2 :: "nat \<Rightarrow> nat \<Rightarrow> memory_fn" where
  "mem2 i j st = Option.bind (Back i st) (\<lambda>off. Option.bind (Back j st) (\<lambda>l. Some (calcMemSize64 off l)))"

definition mem1 :: "u64 \<Rightarrow> memory_fn" where
  "mem1 l st = Option.bind (Back 0 st) (\<lambda>off. Some (calcMemSize64WithUint off l))"

definition memoryKeccak256 :: memory_fn where "memoryKeccak256 = mem2 0 1"
definition memoryCallDataCopy :: memory_fn where "memoryCallDataCopy = mem2 0 2"
definition memoryReturnDataCopy :: memory_fn where "memoryReturnDataCopy = mem2 0 2"
definition memoryCodeCopy :: memory_fn where "memoryCodeCopy = mem2 0 2"
definition memoryExtCodeCopy :: memory_fn where "memoryExtCodeCopy = mem2 1 3"
definition memoryMLoad :: memory_fn where "memoryMLoad = mem1 32"
definition memoryMStore8 :: memory_fn where "memoryMStore8 = mem1 1"
definition memoryMStore :: memory_fn where "memoryMStore = mem1 32"
definition memoryCreate :: memory_fn where "memoryCreate = mem2 1 2"
definition memoryCreate2 :: memory_fn where "memoryCreate2 = mem2 1 2"
definition memoryReturn :: memory_fn where "memoryReturn = mem2 0 1"
definition memoryRevert :: memory_fn where "memoryRevert = mem2 0 1"
definition memoryLog :: memory_fn where "memoryLog = mem2 0 1"

text \<open>The calls need room for their input and for their result.\<close>

definition mem_max :: "memory_fn \<Rightarrow> memory_fn \<Rightarrow> memory_fn" where
  "mem_max a b st = Option.bind (a st) (\<lambda>(x, ox).
     if ox then Some (0, True)
     else Option.bind (b st) (\<lambda>(y, oy).
       if oy then Some (0, True) else Some (if x > y then x else y, False)))"

definition memoryCall :: memory_fn where
  "memoryCall = mem_max (mem2 5 6) (mem2 3 4)"

definition memoryDelegateCall :: memory_fn where
  "memoryDelegateCall = mem_max (mem2 4 5) (mem2 2 3)"

definition memoryStaticCall :: memory_fn where
  "memoryStaticCall = mem_max (mem2 4 5) (mem2 2 3)"

section \<open>Gas functions\<close>

definition GasQuickStep :: u64 where "GasQuickStep = 2"
definition GasFastestStep :: u64 where "GasFastestStep = 3"
definition GasFastStep :: u64 where "GasFastStep = 5"
definition GasMidStep :: u64 where "GasMidStep = 8"
definition GasSlowStep :: u64 where "GasSlowStep = 10"
definition GasExtStep :: u64 where "GasExtStep = 20"

definition gback :: "nat \<Rightarrow> 's frame \<Rightarrow> (u256 \<Rightarrow> 's gas_outcome) \<Rightarrow> 's gas_outcome" where
  "gback n f k = (case Back n (stk f) of
     None \<Rightarrow> GasPanic ''index out of range'' | Some x \<Rightarrow> k x)"

definition gthen :: "'s gas_outcome \<Rightarrow> (u64 \<Rightarrow> 's frame \<Rightarrow> 's gas_outcome) \<Rightarrow> 's gas_outcome" where
  "gthen m k = (case m of Cost c f \<Rightarrow> k c f | GasErr e f \<Rightarrow> GasErr e f | GasPanic s \<Rightarrow> GasPanic s)"

definition safely :: "u64 \<times> bool \<Rightarrow> 's frame \<Rightarrow> (u64 \<Rightarrow> 's gas_outcome) \<Rightarrow> 's gas_outcome" where
  "safely r f k = (if snd r then GasErr ErrGasUintOverflow f else k (fst r))"

definition gupd :: "'s option \<Rightarrow> 's frame \<Rightarrow> ('s frame \<Rightarrow> 's gas_outcome) \<Rightarrow> 's gas_outcome" where
  "gupd r f k = gask r (\<lambda>s. k (set_db s f))"

definition zero_hash :: hash where
  "zero_hash = replicate 32 0"

definition callGas :: "bool \<Rightarrow> u64 \<Rightarrow> u64 \<Rightarrow> u256 \<Rightarrow> vm_error + u64" where
  "callGas isEip150 availableGas base callCost =
     (let available = availableGas - base;
          g = available - available div 64 in
      if isEip150 \<and> (\<not> IsUint64 callCost \<or> g < Uint64 callCost) then Inr g
      else if \<not> IsUint64 callCost then Inl ErrGasUintOverflow
      else Inr (Uint64 callCost))"

definition memoryGasCost :: "prices \<Rightarrow> u64 \<Rightarrow> 's frame \<Rightarrow> 's gas_outcome" where
  "memoryGasCost P newMemSize f =
     (if newMemSize = 0 then Cost 0 f
      else if newMemSize > 0x1FFFFFFFE0 then GasErr ErrGasUintOverflow f
      else let newMemSizeWords = toWordSize newMemSize in
        if newMemSizeWords * 32 > of_nat (length (mstore f)) then
          let square = newMemSizeWords * newMemSizeWords;
              linCoef = newMemSizeWords * P MemoryGas;
              quadCoef = square div P QuadCoeffDiv;
              newTotalFee = linCoef + quadCoef in
          Cost (newTotalFee - lastGasCost f) (f\<lparr>lastGasCost := newTotalFee\<rparr>)
        else Cost 0 f)"

text \<open>The gas of a word of the stack as a number of 32-byte words.\<close>

definition words_gas :: "nat \<Rightarrow> u64 \<Rightarrow> u64 \<Rightarrow> 's frame \<Rightarrow> 's gas_outcome" where
  "words_gas i price g f =
     gback i f (\<lambda>w.
       if \<not> IsUint64 w then GasErr ErrGasUintOverflow f
       else safely (SafeMul (toWordSize (Uint64 w)) price) f (\<lambda>words.
         safely (SafeAdd g words) f (\<lambda>g'. Cost g' f)))"

definition memoryCopierGas :: "nat \<Rightarrow> 's gas_fn" where
  "memoryCopierGas stackpos E memorySize f =
     gthen (memoryGasCost (prc E) memorySize f) (words_gas stackpos (prc E CopyGas))"

definition gasCallDataCopy :: "'s gas_fn" where "gasCallDataCopy = memoryCopierGas 2"
definition gasCodeCopy :: "'s gas_fn" where "gasCodeCopy = memoryCopierGas 2"
definition gasExtCodeCopy :: "'s gas_fn" where "gasExtCodeCopy = memoryCopierGas 3"
definition gasReturnDataCopy :: "'s gas_fn" where "gasReturnDataCopy = memoryCopierGas 2"

definition gasKeccak256 :: "'s gas_fn" where
  "gasKeccak256 E memorySize f =
     gthen (memoryGasCost (prc E) memorySize f) (words_gas 1 (prc E Keccak256WordGas))"

definition gasCreate2 :: "'s gas_fn" where
  "gasCreate2 E memorySize f =
     gthen (memoryGasCost (prc E) memorySize f) (words_gas 2 (prc E Keccak256WordGas))"

definition pureMemoryGascost :: "'s gas_fn" where
  "pureMemoryGascost E memorySize f = memoryGasCost (prc E) memorySize f"

definition makeGasLog :: "u64 \<Rightarrow> 's gas_fn" where
  "makeGasLog n E memorySize f =
     gback 1 f (\<lambda>w.
       if \<not> IsUint64 w then GasErr ErrGasUintOverflow f
       else gthen (memoryGasCost (prc E) memorySize f) (\<lambda>g f.
         safely (SafeAdd g (prc E LogGas)) f (\<lambda>g.
         safely (SafeAdd g (n * prc E LogTopicGas)) f (\<lambda>g.
         safely (SafeMul (Uint64 w) (prc E LogDataGas)) f (\<lambda>memorySizeGas.
         safely (SafeAdd g memorySizeGas) f (\<lambda>g. Cost g f))))))"

definition gas_exp :: "param \<Rightarrow> 's gas_fn" where
  "gas_exp byte_price E memorySize f =
     gback 1 f (\<lambda>e.
       let expByteLen = of_nat ((BitLen (uint e) + 7) div 8) in
       safely (SafeAdd (expByteLen * prc E byte_price) (prc E ExpGas)) f (\<lambda>g. Cost g f))"

definition gasExpFrontier :: "'s gas_fn" where "gasExpFrontier = gas_exp ExpByteFrontier"
definition gasExpEIP158 :: "'s gas_fn" where "gasExpEIP158 = gas_exp ExpByteEIP158"

section \<open>Storage\<close>

text \<open>
  The refunds of a changed slot, common to the three net-metered rules: for a slot that was changed
  before, the refund for clearing it is taken back or granted, and a slot that gets its original
  value again is refunded.
\<close>

definition dirty_refunds ::
    "'s env \<Rightarrow> u64 \<Rightarrow> u64 \<Rightarrow> u64 \<Rightarrow> hash \<Rightarrow> hash \<Rightarrow> hash \<Rightarrow> u64 \<Rightarrow> 's frame \<Rightarrow> 's gas_outcome" where
  "dirty_refunds E clear reset_zero reset original current value cost f =
     gupd (if original \<noteq> zero_hash then
             if current = zero_hash then db_SubRefund (DB E) clear (db f)
             else if value = zero_hash then db_AddRefund (DB E) clear (db f)
             else Some (db f)
           else Some (db f)) f (\<lambda>f.
     gupd (if original = value then
             if original = zero_hash then db_AddRefund (DB E) reset_zero (db f)
             else db_AddRefund (DB E) reset (db f)
           else Some (db f)) f (\<lambda>f. Cost cost f))"

definition gasSStore :: "'s gas_fn" where
  "gasSStore E memorySize f =
     gback 1 f (\<lambda>y. gback 0 f (\<lambda>x.
     gask (db_GetState (DB E) (db f) (self (ctr f)) (Bytes32 x)) (\<lambda>current.
       if IsPetersburg (chainRules E) \<or> \<not> IsConstantinople (chainRules E) then
         (if current = zero_hash \<and> y \<noteq> 0 then Cost (prc E SstoreSetGas) f
          else if current \<noteq> zero_hash \<and> y = 0 then
            gupd (db_AddRefund (DB E) (prc E SstoreRefundGas) (db f)) f (Cost (prc E SstoreClearGas))
          else Cost (prc E SstoreResetGas) f)
       else if current = Bytes32 y then Cost (prc E NetSstoreNoopGas) f
       else gask (db_GetCommittedState (DB E) (db f) (self (ctr f)) (Bytes32 x)) (\<lambda>original.
         if original = current then
           (if original = zero_hash then Cost (prc E NetSstoreInitGas) f
            else gupd (if Bytes32 y = zero_hash
                       then db_AddRefund (DB E) (prc E NetSstoreClearRefund) (db f)
                       else Some (db f)) f (Cost (prc E NetSstoreCleanGas)))
         else dirty_refunds E (prc E NetSstoreClearRefund) (prc E NetSstoreResetClearRefund)
                (prc E NetSstoreResetRefund) original current (Bytes32 y) (prc E NetSstoreDirtyGas) f))))"

definition gasSStoreEIP2200 :: "'s gas_fn" where
  "gasSStoreEIP2200 E memorySize f =
     (if gas f \<le> prc E SstoreSentryGasEIP2200
      then GasErr (ErrContract ''not enough gas for reentrancy sentry'') f
      else gback 1 f (\<lambda>y. gback 0 f (\<lambda>x.
        gask (db_GetState (DB E) (db f) (self (ctr f)) (Bytes32 x)) (\<lambda>current.
          if current = Bytes32 y then Cost (prc E SloadGasEIP2200) f
          else gask (db_GetCommittedState (DB E) (db f) (self (ctr f)) (Bytes32 x)) (\<lambda>original.
            if original = current then
              (if original = zero_hash then Cost (prc E SstoreSetGasEIP2200) f
               else gupd (if Bytes32 y = zero_hash
                          then db_AddRefund (DB E) (prc E SstoreClearsScheduleRefundEIP2200) (db f)
                          else Some (db f)) f (Cost (prc E SstoreResetGasEIP2200)))
            else dirty_refunds E (prc E SstoreClearsScheduleRefundEIP2200)
                   (prc E SstoreSetGasEIP2200 - prc E SloadGasEIP2200)
                   (prc E SstoreResetGasEIP2200 - prc E SloadGasEIP2200)
                   original current (Bytes32 y) (prc E SloadGasEIP2200) f)))))"

text \<open>
  With access lists: a slot that is not listed yet is charged once more and listed. The address of
  the running contract is listed already; the code panics if it is not.
\<close>

definition list_slot :: "'s env \<Rightarrow> hash \<Rightarrow> 's frame \<Rightarrow> (u64 \<Rightarrow> 's frame \<Rightarrow> 's gas_outcome) \<Rightarrow> 's gas_outcome" where
  "list_slot E slot f k =
     gask (db_SlotInAccessList (DB E) (db f) (self (ctr f)) slot) (\<lambda>(addrPresent, slotPresent).
       if slotPresent then k 0 f
       else gupd (db_AddSlotToAccessList (DB E) (self (ctr f)) slot (db f)) f (\<lambda>f.
         if \<not> addrPresent
         then GasPanic ''impossible case: address was not present in access list during sstore op''
         else k (prc E ColdSloadCostEIP2929) f))"

definition makeGasSStoreFunc :: "param \<Rightarrow> 's gas_fn" where
  "makeGasSStoreFunc clearingRefund E memorySize f =
     (if gas f \<le> prc E SstoreSentryGasEIP2200
      then GasErr (ErrContract ''not enough gas for reentrancy sentry'') f
      else gback 1 f (\<lambda>y. gback 0 f (\<lambda>x.
        gask (db_GetState (DB E) (db f) (self (ctr f)) (Bytes32 x)) (\<lambda>current.
        list_slot E (Bytes32 x) f (\<lambda>cost f.
          if current = Bytes32 y then Cost (cost + prc E WarmStorageReadCostEIP2929) f
          else gask (db_GetCommittedState (DB E) (db f) (self (ctr f)) (Bytes32 x)) (\<lambda>original.
            if original = current then
              (if original = zero_hash then Cost (cost + prc E SstoreSetGasEIP2200) f
               else gupd (if Bytes32 y = zero_hash
                          then db_AddRefund (DB E) (prc E clearingRefund) (db f)
                          else Some (db f)) f
                      (Cost (cost + (prc E SstoreResetGasEIP2200 - prc E ColdSloadCostEIP2929))))
            else dirty_refunds E (prc E clearingRefund)
                   (prc E SstoreSetGasEIP2200 - prc E WarmStorageReadCostEIP2929)
                   (prc E SstoreResetGasEIP2200 - prc E ColdSloadCostEIP2929
                      - prc E WarmStorageReadCostEIP2929)
                   original current (Bytes32 y) (cost + prc E WarmStorageReadCostEIP2929) f))))))"

definition gasSStoreEIP2929 :: "'s gas_fn" where
  "gasSStoreEIP2929 = makeGasSStoreFunc SstoreClearsScheduleRefundEIP2200"

definition gasSStoreEIP3529 :: "'s gas_fn" where
  "gasSStoreEIP3529 = makeGasSStoreFunc SstoreClearsScheduleRefundEIP3529"

definition gasSLoadEIP2929 :: "'s gas_fn" where
  "gasSLoadEIP2929 E memorySize f =
     gback 0 f (\<lambda>loc.
     gask (db_SlotInAccessList (DB E) (db f) (self (ctr f)) (Bytes32 loc)) (\<lambda>(_, slotPresent).
       if \<not> slotPresent then
         gupd (db_AddSlotToAccessList (DB E) (self (ctr f)) (Bytes32 loc) (db f)) f
           (Cost (prc E ColdSloadCostEIP2929))
       else Cost (prc E WarmStorageReadCostEIP2929) f))"

section \<open>Access of accounts\<close>

definition cold_surcharge :: "'s env \<Rightarrow> u64" where
  "cold_surcharge E = prc E ColdAccountAccessCostEIP2929 - prc E WarmStorageReadCostEIP2929"

definition gasExtCodeCopyEIP2929 :: "'s gas_fn" where
  "gasExtCodeCopyEIP2929 E memorySize f =
     gthen (gasExtCodeCopy E memorySize f) (\<lambda>g f.
     gback 0 f (\<lambda>a.
     gask (db_AddressInAccessList (DB E) (db f) (Bytes20 a)) (\<lambda>present.
       if \<not> present then
         gupd (db_AddAddressToAccessList (DB E) (Bytes20 a) (db f)) f (\<lambda>f.
           safely (SafeAdd g (cold_surcharge E)) f (\<lambda>g. Cost g f))
       else Cost g f)))"

definition gasEip2929AccountCheck :: "'s gas_fn" where
  "gasEip2929AccountCheck E memorySize f =
     gback 0 f (\<lambda>a.
     gask (db_AddressInAccessList (DB E) (db f) (Bytes20 a)) (\<lambda>present.
       if \<not> present then
         gupd (db_AddAddressToAccessList (DB E) (Bytes20 a) (db f)) f (Cost (cold_surcharge E))
       else Cost 0 f))"

section \<open>Calls\<close>

text \<open>The gas for the callee is kept in \<open>callGasTemp\<close> for the instruction, and charged.\<close>

definition charge_call :: "'s env \<Rightarrow> u64 \<Rightarrow> 's frame \<Rightarrow> 's gas_outcome" where
  "charge_call E g f =
     gback 0 f (\<lambda>requested.
       case callGas (IsEIP150 (chainRules E)) (gas f) g requested of
         Inl e \<Rightarrow> GasErr e f
       | Inr t \<Rightarrow>
           let f' = f\<lparr>vm := (vm f)\<lparr>callGasTemp := t\<rparr>\<rparr> in
           safely (SafeAdd g t) f' (\<lambda>g. Cost g f'))"

definition gasCall :: "'s gas_fn" where
  "gasCall E memorySize f =
     gback 2 f (\<lambda>value. gback 1 f (\<lambda>a.
     gask (if IsEIP158 (chainRules E) then
             (if value \<noteq> 0 then db_Empty (DB E) (db f) (Bytes20 a) else Some False)
           else map_option Not (db_Exist (DB E) (db f) (Bytes20 a))) (\<lambda>new_account.
       let g = (if new_account then prc E CallNewAccountGas else 0)
             + (if value \<noteq> 0 then prc E CallValueTransferGas else 0) in
       gthen (memoryGasCost (prc E) memorySize f) (\<lambda>memoryGas f.
         safely (SafeAdd g memoryGas) f (\<lambda>g. charge_call E g f)))))"

definition gasCallCode :: "'s gas_fn" where
  "gasCallCode E memorySize f =
     gthen (memoryGasCost (prc E) memorySize f) (\<lambda>memoryGas f.
     gback 2 f (\<lambda>value.
       safely (SafeAdd (if value \<noteq> 0 then prc E CallValueTransferGas else 0) memoryGas) f
         (\<lambda>g. charge_call E g f)))"

definition gasDelegateCall :: "'s gas_fn" where
  "gasDelegateCall E memorySize f = gthen (memoryGasCost (prc E) memorySize f) (charge_call E)"

definition gasStaticCall :: "'s gas_fn" where
  "gasStaticCall E memorySize f = gthen (memoryGasCost (prc E) memorySize f) (charge_call E)"

definition makeCallVariantGasCallEIP2929 :: "'s gas_fn \<Rightarrow> 's gas_fn" where
  "makeCallVariantGasCallEIP2929 oldCalculator E memorySize f =
     gback 1 f (\<lambda>a.
     gask (db_AddressInAccessList (DB E) (db f) (Bytes20 a)) (\<lambda>warmAccess.
       if warmAccess then oldCalculator E memorySize f
       else gupd (db_AddAddressToAccessList (DB E) (Bytes20 a) (db f)) f (\<lambda>f.
         case UseGas (cold_surcharge E) f of
           None \<Rightarrow> GasErr ErrOutOfGas f
         | Some f \<Rightarrow> gthen (oldCalculator E memorySize f) (\<lambda>g f.
             Cost (g + cold_surcharge E) (f\<lparr>gas := gas f + cold_surcharge E\<rparr>)))))"

definition gasCallEIP2929 :: "'s gas_fn" where
  "gasCallEIP2929 = makeCallVariantGasCallEIP2929 gasCall"

definition gasDelegateCallEIP2929 :: "'s gas_fn" where
  "gasDelegateCallEIP2929 = makeCallVariantGasCallEIP2929 gasDelegateCall"

definition gasStaticCallEIP2929 :: "'s gas_fn" where
  "gasStaticCallEIP2929 = makeCallVariantGasCallEIP2929 gasStaticCall"

definition gasCallCodeEIP2929 :: "'s gas_fn" where
  "gasCallCodeEIP2929 = makeCallVariantGasCallEIP2929 gasCallCode"

section \<open>Self-destruction\<close>

definition new_beneficiary :: "'s env \<Rightarrow> address \<Rightarrow> 's frame \<Rightarrow> bool option" where
  "new_beneficiary E a f =
     Option.bind (db_Empty (DB E) (db f) a) (\<lambda>empty.
       if empty then map_option (\<lambda>b. b \<noteq> 0) (db_GetBalance (DB E) (db f) (self (ctr f)))
       else Some False)"

definition refund_suicide :: "'s env \<Rightarrow> bool \<Rightarrow> u64 \<Rightarrow> 's frame \<Rightarrow> 's gas_outcome" where
  "refund_suicide E enabled g f =
     (if enabled then
        gask (db_HasSuicided (DB E) (db f) (self (ctr f))) (\<lambda>dead.
          if \<not> dead then gupd (db_AddRefund (DB E) (prc E SelfdestructRefundGas) (db f)) f (Cost g)
          else Cost g f)
      else Cost g f)"

definition gasSelfdestruct :: "'s gas_fn" where
  "gasSelfdestruct E memorySize f =
     (if IsEIP150 (chainRules E) then
        gback 0 f (\<lambda>a.
        gask (if IsEIP158 (chainRules E) then new_beneficiary E (Bytes20 a) f
              else map_option Not (db_Exist (DB E) (db f) (Bytes20 a))) (\<lambda>new.
          refund_suicide E True
            (prc E SelfdestructGasEIP150 + (if new then prc E CreateBySelfdestructGas else 0)) f))
      else refund_suicide E True 0 f)"

definition makeSelfdestructGasFn :: "bool \<Rightarrow> 's gas_fn" where
  "makeSelfdestructGasFn refundsEnabled E memorySize f =
     gback 0 f (\<lambda>a.
     gask (db_AddressInAccessList (DB E) (db f) (Bytes20 a)) (\<lambda>present.
     gupd (if \<not> present then db_AddAddressToAccessList (DB E) (Bytes20 a) (db f) else Some (db f)) f (\<lambda>f.
     gask (new_beneficiary E (Bytes20 a) f) (\<lambda>new.
       refund_suicide E refundsEnabled
         ((if \<not> present then prc E ColdAccountAccessCostEIP2929 else 0)
          + (if new then prc E CreateBySelfdestructGas else 0)) f))))"

definition gasSelfdestructEIP2929 :: "'s gas_fn" where
  "gasSelfdestructEIP2929 = makeSelfdestructGasFn True"

definition gasSelfdestructEIP3529 :: "'s gas_fn" where
  "gasSelfdestructEIP3529 = makeSelfdestructGasFn False"

end
