(* ===== verification/EvmCalls.thy ===== *)
theory EvmCalls
  imports EvmGas
begin

text \<open>
  Calls and contract creation: src/pkg/vm/evm.go, the wrappers that run native and precompiled
  contracts in src/pkg/vm/contracts.go and the transfers of src/pkg/core/interop/context.go. The
  interpreter enters as the argument \<open>run\<close>.
\<close>

definition CanTransfer :: "'s env \<Rightarrow> address \<Rightarrow> int \<Rightarrow> 's \<Rightarrow> bool option" where
  "CanTransfer E from amount s = map_option (\<lambda>b. b \<ge> amount) (db_GetBalance (DB E) s from)"

definition Transfer :: "'s env \<Rightarrow> address \<Rightarrow> address \<Rightarrow> int \<Rightarrow> 's \<Rightarrow> 's option" where
  "Transfer E from to amount s =
     Option.bind (db_AddBalance (DB E) from (- amount) s) (db_AddBalance (DB E) to amount)"

definition RunNativeContract ::
    "'s native \<Rightarrow> address \<Rightarrow> bytes \<Rightarrow> u64 \<Rightarrow> 's evm \<Rightarrow> 's run_result" where
  "RunNativeContract p caller inp suppliedGas e =
     (let gasCost = n_RequiredGas p inp in
      if suppliedGas < gasCost then Ran (Some ErrOutOfGas) [] 0 e
      else case n_Run p caller inp (statedb e) of
        None \<Rightarrow> RunPanic ''native contract''
      | Some (Inl err, s) \<Rightarrow> Ran (Some err) [] (suppliedGas - gasCost) (e\<lparr>statedb := s\<rparr>)
      | Some (Inr out, s) \<Rightarrow> Ran None out (suppliedGas - gasCost) (e\<lparr>statedb := s\<rparr>))"

definition RunPrecompiledContract ::
    "precompiled \<Rightarrow> bytes \<Rightarrow> u64 \<Rightarrow> 's evm \<Rightarrow> 's run_result" where
  "RunPrecompiledContract p inp suppliedGas e =
     (let gasCost = p_RequiredGas p inp in
      if suppliedGas < gasCost then Ran (Some ErrOutOfGas) [] 0 e
      else case p_Run p inp of
        None \<Rightarrow> RunPanic ''precompiled contract''
      | Some (Inl err) \<Rightarrow> Ran (Some err) [] (suppliedGas - gasCost) e
      | Some (Inr out) \<Rightarrow> Ran None out (suppliedGas - gasCost) e)"

definition precompile :: "'s env \<Rightarrow> address \<Rightarrow> precompiled option" where
  "precompile E addr = precompiles E (chainRules E) addr"

text \<open>The end of every call: an error reverts the database and takes the gas, except for a revert.\<close>

definition settle :: "'s env \<Rightarrow> int \<Rightarrow> 's run_result \<Rightarrow> 's run_result" where
  "settle E snapshot r = (case r of
     Ran (Some err) ret g e \<Rightarrow>
       rask (db_RevertToSnapshot (DB E) snapshot (statedb e)) (\<lambda>s.
         Ran (Some err) ret (if err \<noteq> ErrExecutionReverted then 0 else g) (e\<lparr>statedb := s\<rparr>))
   | _ \<Rightarrow> r)"

text \<open>Built-in contracts run outside the interpreter; \<open>other\<close> is what happens for all the rest.\<close>

definition dispatch ::
    "'s env \<Rightarrow> address \<Rightarrow> address \<Rightarrow> bytes \<Rightarrow> u64 \<Rightarrow> ('s evm \<Rightarrow> 's run_result) \<Rightarrow> 's evm \<Rightarrow> 's run_result" where
  "dispatch E caller addr inp g other e =
     (case precompile E addr of
        Some p \<Rightarrow> RunPrecompiledContract p inp g e
      | None \<Rightarrow> (case natives E addr of
          Some n \<Rightarrow> RunNativeContract n caller inp g e
        | None \<Rightarrow> other e))"

definition with_code ::
    "'s env \<Rightarrow> address \<Rightarrow> contract \<Rightarrow> 's evm \<Rightarrow> (contract \<Rightarrow> 's run_result) \<Rightarrow> 's run_result" where
  "with_code E addr c e k =
     rask (db_GetCodeHash (DB E) (statedb e) addr) (\<lambda>h.
     rask (db_GetCode (DB E) (statedb e) addr) (\<lambda>code. k (SetCallCode h code c)))"

definition Call ::
    "'s env \<Rightarrow> 's runner \<Rightarrow> address \<Rightarrow> address \<Rightarrow> bytes \<Rightarrow> u64 \<Rightarrow> int \<Rightarrow> 's evm \<Rightarrow> 's run_result" where
  "Call E run caller addr inp g value e =
     (if depth e > unat (prc E CallCreateDepth) then Ran (Some ErrDepth) [] g e
      else rask (if value \<noteq> 0 then CanTransfer E caller value (statedb e) else Some True) (\<lambda>ok.
        if \<not> ok then Ran (Some ErrInsufficientBalance) [] g e
        else rask (db_Snapshot (DB E) (statedb e)) (\<lambda>(snapshot, s).
        rask (db_Exist (DB E) s addr) (\<lambda>exist.
          if \<not> exist \<and> natives E addr = None \<and> precompile E addr = None
             \<and> IsEIP158 (chainRules E) \<and> value = 0
          then Ran None [] g (e\<lparr>statedb := s\<rparr>)
          else rask (if exist then Some s else db_CreateAccount (DB E) addr s) (\<lambda>s.
            rask (Transfer E caller addr value s) (\<lambda>s.
            settle E snapshot
              (dispatch E caller addr inp g (\<lambda>e.
                 rask (db_GetCode (DB E) (statedb e) addr) (\<lambda>code.
                   if code = [] then Ran None [] g e
                   else with_code E addr (NewContract caller addr value g) e (\<lambda>c. run c inp False e)))
                 (e\<lparr>statedb := s\<rparr>))))))))"

definition CallCode ::
    "'s env \<Rightarrow> 's runner \<Rightarrow> address \<Rightarrow> address \<Rightarrow> bytes \<Rightarrow> u64 \<Rightarrow> int \<Rightarrow> 's evm \<Rightarrow> 's run_result" where
  "CallCode E run caller addr inp g value e =
     (if depth e > unat (prc E CallCreateDepth) then Ran (Some ErrDepth) [] g e
      else rask (CanTransfer E caller value (statedb e)) (\<lambda>ok.
        if \<not> ok then Ran (Some ErrInsufficientBalance) [] g e
        else rask (db_Snapshot (DB E) (statedb e)) (\<lambda>(snapshot, s).
          settle E snapshot
            (dispatch E caller addr inp g (\<lambda>e.
               with_code E addr (NewContract caller caller value g) e (\<lambda>c. run c inp False e))
             (e\<lparr>statedb := s\<rparr>)))))"

definition DelegateCall ::
    "'s env \<Rightarrow> 's runner \<Rightarrow> contract \<Rightarrow> address \<Rightarrow> bytes \<Rightarrow> u64 \<Rightarrow> 's evm \<Rightarrow> 's run_result" where
  "DelegateCall E run parent addr inp g e =
     (if depth e > unat (prc E CallCreateDepth) then Ran (Some ErrDepth) [] g e
      else rask (db_Snapshot (DB E) (statedb e)) (\<lambda>(snapshot, s).
        settle E snapshot
          (dispatch E (self parent) addr inp g (\<lambda>e.
             with_code E addr (AsDelegate parent (NewContract (self parent) (self parent) 0 g)) e
               (\<lambda>c. run c inp False e))
           (e\<lparr>statedb := s\<rparr>))))"

definition StaticCall ::
    "'s env \<Rightarrow> 's runner \<Rightarrow> address \<Rightarrow> address \<Rightarrow> bytes \<Rightarrow> u64 \<Rightarrow> 's evm \<Rightarrow> 's run_result" where
  "StaticCall E run caller addr inp g e =
     (if depth e > unat (prc E CallCreateDepth) then Ran (Some ErrDepth) [] g e
      else rask (db_Snapshot (DB E) (statedb e)) (\<lambda>(snapshot, s).
        rask (db_AddBalance (DB E) addr 0 s) (\<lambda>s.
        settle E snapshot
          (dispatch E caller addr inp g (\<lambda>e.
             with_code E addr (NewContract caller addr 0 g) e (\<lambda>c. run c inp True e))
           (e\<lparr>statedb := s\<rparr>)))))"

section \<open>Creation\<close>

definition store_code :: "'s env \<Rightarrow> address \<Rightarrow> bytes \<Rightarrow> u64 \<Rightarrow> 's evm \<Rightarrow> 's run_result" where
  "store_code E addr ret g e =
     (if IsEIP158 (chainRules E) \<and> length ret > unat (prc E MaxCodeSize) then
        Ran (Some ErrMaxCodeSizeExceeded) ret g e
      else if ret \<noteq> [] \<and> hd ret = 0xEF \<and> IsLondon (chainRules E) then
        Ran (Some ErrInvalidCode) ret g e
      else let createDataGas = of_nat (length ret) * prc E CreateDataGas in
        if g < createDataGas then Ran (Some ErrCodeStoreOutOfGas) ret g e
        else rask (db_SetCode (DB E) addr ret (statedb e)) (\<lambda>s.
          Ran None ret (g - createDataGas) (e\<lparr>statedb := s\<rparr>)))"

definition settle_create :: "'s env \<Rightarrow> int \<Rightarrow> 's run_result \<Rightarrow> 's run_result" where
  "settle_create E snapshot r = (case r of
     Ran (Some err) ret g e \<Rightarrow>
       (if IsHomestead (chainRules E) \<or> err \<noteq> ErrCodeStoreOutOfGas then settle E snapshot r else r)
   | _ \<Rightarrow> r)"

definition zero_address :: address where
  "zero_address = replicate 20 0"

definition address_taken :: "'s env \<Rightarrow> address \<Rightarrow> 's \<Rightarrow> bool option" where
  "address_taken E addr s =
     Option.bind (db_GetCodeHash (DB E) s addr) (\<lambda>h.
     Option.bind (db_GetNonce (DB E) s addr) (\<lambda>n.
       Some (n \<noteq> 0 \<or> (h \<noteq> zero_hash \<and> h \<noteq> Keccak E []))))"

text \<open>The part of \<open>create\<close> after its checks, and the whole. The address is zero when a check fails.\<close>

definition deploy ::
    "'s env \<Rightarrow> 's runner \<Rightarrow> address \<Rightarrow> bytes \<Rightarrow> hash \<Rightarrow> u64 \<Rightarrow> int \<Rightarrow> address \<Rightarrow> 's evm \<Rightarrow> 's run_result" where
  "deploy E run caller code h g value addr e =
     rask (db_Snapshot (DB E) (statedb e)) (\<lambda>(snapshot, s).
     rask (db_CreateAccount (DB E) addr s) (\<lambda>s.
     rask (if IsEIP158 (chainRules E) then db_SetNonce (DB E) addr 1 s else Some s) (\<lambda>s.
     rask (Transfer E caller addr value s) (\<lambda>s.
       settle_create E snapshot
         (case run (SetCallCode h code (NewContract caller addr value g)) [] False (e\<lparr>statedb := s\<rparr>) of
            Ran None ret g e \<Rightarrow> store_code E addr ret g e
          | r \<Rightarrow> r)))))"

definition create ::
    "'s env \<Rightarrow> 's runner \<Rightarrow> address \<Rightarrow> bytes \<Rightarrow> hash \<Rightarrow> u64 \<Rightarrow> int \<Rightarrow> address \<Rightarrow> 's evm \<Rightarrow> address \<times> 's run_result" where
  "create E run caller code h g value addr e =
     (if depth e > unat (prc E CallCreateDepth) then (zero_address, Ran (Some ErrDepth) [] g e)
      else case CanTransfer E caller value (statedb e) of
        None \<Rightarrow> (zero_address, RunPanic ''state database'')
      | Some False \<Rightarrow> (zero_address, Ran (Some ErrInsufficientBalance) [] g e)
      | Some True \<Rightarrow> (case db_GetNonce (DB E) (statedb e) caller of
          None \<Rightarrow> (zero_address, RunPanic ''state database'')
        | Some nonce \<Rightarrow>
            if nonce + 1 < nonce then (zero_address, Ran (Some ErrNonceUintOverflow) [] g e)
            else case Option.bind (db_SetNonce (DB E) caller (nonce + 1) (statedb e)) (\<lambda>s.
                        if IsBerlin (chainRules E) then db_AddAddressToAccessList (DB E) addr s
                        else Some s) of
              None \<Rightarrow> (zero_address, RunPanic ''state database'')
            | Some s \<Rightarrow> (case address_taken E addr s of
                None \<Rightarrow> (zero_address, RunPanic ''state database'')
              | Some True \<Rightarrow>
                  (zero_address, Ran (Some ErrContractAddressCollision) [] 0 (e\<lparr>statedb := s\<rparr>))
              | Some False \<Rightarrow> (addr, deploy E run caller code h g value addr (e\<lparr>statedb := s\<rparr>)))))"

definition Create ::
    "'s env \<Rightarrow> 's runner \<Rightarrow> address \<Rightarrow> bytes \<Rightarrow> u64 \<Rightarrow> int \<Rightarrow> 's evm \<Rightarrow> address \<times> 's run_result" where
  "Create E run caller code g value e =
     (case db_GetNonce (DB E) (statedb e) caller of
        None \<Rightarrow> (zero_address, RunPanic ''state database'')
      | Some nonce \<Rightarrow> create E run caller code zero_hash g value (CreateAddress E caller nonce) e)"

definition Create2 ::
    "'s env \<Rightarrow> 's runner \<Rightarrow> address \<Rightarrow> bytes \<Rightarrow> u64 \<Rightarrow> int \<Rightarrow> u256 \<Rightarrow> 's evm \<Rightarrow> address \<times> 's run_result" where
  "Create2 E run caller code g endowment salt e =
     (let h = Keccak E code in
      create E run caller code h g endowment (CreateAddress2 E caller (Bytes32 salt) h) e)"

end
