(* ===== verification/EvmAnalysis.thy ===== *)
theory EvmAnalysis
  imports EvmBase
begin

text \<open>
  The analysis of jump destinations: src/pkg/vm/analysis.go and \<open>validJumpdest\<close> of
  src/pkg/vm/contract.go. A set bit marks a byte of the code that is the argument of a push. The
  result \<open>None\<close> is an index out of range.
\<close>

type_synonym bitvec = bytes

definition PUSH1 :: byte where "PUSH1 = 0x60"
definition PUSH32 :: byte where "PUSH32 = 0x7f"
definition JUMPDEST :: byte where "JUMPDEST = 0x5b"

definition put_byte :: "nat \<Rightarrow> byte \<Rightarrow> bitvec \<Rightarrow> bitvec option" where
  "put_byte i b bits = (if i < length bits then Some (bits[i := b]) else None)"

definition or_byte :: "nat \<Rightarrow> byte \<Rightarrow> bitvec \<Rightarrow> bitvec option" where
  "or_byte i b bits = (if i < length bits then Some (bits[i := bits ! i OR b]) else None)"

definition set1 :: "nat \<Rightarrow> bitvec \<Rightarrow> bitvec option" where
  "set1 pos bits = or_byte (pos div 8) (push_bit (pos mod 8) 1) bits"

definition setN :: "u16 \<Rightarrow> nat \<Rightarrow> bitvec \<Rightarrow> bitvec option" where
  "setN msk pos bits =
     (let a = push_bit (pos mod 8) msk; b = ucast (drop_bit 8 a) :: byte in
      Option.bind (or_byte (pos div 8) (ucast a) bits) (\<lambda>bits.
        if b \<noteq> 0 then put_byte (pos div 8 + 1) b bits else Some bits))"

definition set8 :: "nat \<Rightarrow> bitvec \<Rightarrow> bitvec option" where
  "set8 pos bits =
     (let a = push_bit (pos mod 8) 0xFF in
      Option.bind (or_byte (pos div 8) a bits) (put_byte (pos div 8 + 1) (NOT a)))"

definition set16 :: "nat \<Rightarrow> bitvec \<Rightarrow> bitvec option" where
  "set16 pos bits =
     (let a = push_bit (pos mod 8) 0xFF in
      Option.bind (or_byte (pos div 8) a bits) (\<lambda>bits.
      Option.bind (put_byte (pos div 8 + 1) 0xFF bits) (put_byte (pos div 8 + 2) (NOT a))))"

definition codeSegment :: "bitvec \<Rightarrow> nat \<Rightarrow> bool option" where
  "codeSegment bits pos =
     (if pos div 8 < length bits
      then Some (drop_bit (pos mod 8) (bits ! (pos div 8)) AND 1 = 0) else None)"

text \<open>The marks for one push with \<open>numbits\<close> bytes of argument at \<open>p\<close>.\<close>

fun mark16 :: "nat \<Rightarrow> nat \<Rightarrow> bitvec \<Rightarrow> (nat \<times> nat \<times> bitvec) option" where
  "mark16 numbits p bits =
     (if numbits \<ge> 16 then Option.bind (set16 p bits) (mark16 (numbits - 16) (p + 16))
      else Some (numbits, p, bits))"

fun mark8 :: "nat \<Rightarrow> nat \<Rightarrow> bitvec \<Rightarrow> (nat \<times> nat \<times> bitvec) option" where
  "mark8 numbits p bits =
     (if numbits \<ge> 8 then Option.bind (set8 p bits) (mark8 (numbits - 8) (p + 8))
      else Some (numbits, p, bits))"

declare mark16.simps [simp del] mark8.simps [simp del]

definition mark_rest :: "nat \<Rightarrow> nat \<Rightarrow> bitvec \<Rightarrow> (nat \<times> bitvec) option" where
  "mark_rest numbits p bits =
     (if numbits = 0 then Some (p, bits)
      else map_option (Pair (p + numbits))
        (if numbits = 1 then set1 p bits
         else if numbits = 2 then setN 0b11 p bits
         else if numbits = 3 then setN 0b111 p bits
         else if numbits = 4 then setN 0b1111 p bits
         else if numbits = 5 then setN 0b11111 p bits
         else if numbits = 6 then setN 0b111111 p bits
         else setN 0b1111111 p bits))"

definition mark_push :: "nat \<Rightarrow> nat \<Rightarrow> bitvec \<Rightarrow> (nat \<times> bitvec) option" where
  "mark_push numbits p bits =
     Option.bind (if numbits \<ge> 8 then
         Option.bind (mark16 numbits p bits) (\<lambda>(numbits, p, bits). mark8 numbits p bits)
       else Some (numbits, p, bits)) (\<lambda>(numbits, p, bits). mark_rest numbits p bits)"

text \<open>The fuel of the loop over the code is the length of the code: every turn moves on.\<close>

fun bitmap_loop :: "nat \<Rightarrow> bytes \<Rightarrow> nat \<Rightarrow> bitvec \<Rightarrow> bitvec option" where
  "bitmap_loop 0 code p bits = Some bits"
| "bitmap_loop (Suc n) code p bits =
     (if p < length code then
        let op = code ! p in
        if op < PUSH1 \<or> op > PUSH32 then bitmap_loop n code (p + 1) bits
        else Option.bind (mark_push (unat (op - PUSH1 + 1)) (p + 1) bits) (\<lambda>(p, bits).
          bitmap_loop n code p bits)
      else Some bits)"

definition codeBitmap :: "bytes \<Rightarrow> bitvec option" where
  "codeBitmap code = bitmap_loop (length code) code 0 (replicate (length code div 8 + 1 + 4) 0)"

definition isCode :: "bytes \<Rightarrow> nat \<Rightarrow> bool option" where
  "isCode code udest = Option.bind (codeBitmap code) (\<lambda>bits. codeSegment bits udest)"

definition validJumpdest :: "bytes \<Rightarrow> u256 \<Rightarrow> bool option" where
  "validJumpdest code dest =
     (if \<not> IsUint64 dest \<or> unat (Uint64 dest) \<ge> length code then Some False
      else if code ! unat (Uint64 dest) \<noteq> JUMPDEST then Some False
      else isCode code (unat (Uint64 dest)))"

section \<open>Reference\<close>

text \<open>The positions at which an instruction starts when the code is read from its beginning.\<close>

definition push_len :: "byte \<Rightarrow> nat" where
  "push_len op = (if PUSH1 \<le> op \<and> op \<le> PUSH32 then unat op - 0x5f else 0)"

inductive instr_start :: "bytes \<Rightarrow> nat \<Rightarrow> bool" for code where
  first: "instr_start code 0"
| next_instr: "instr_start code p \<Longrightarrow> p < length code \<Longrightarrow> instr_start code (p + 1 + push_len (code ! p))"

section \<open>Marks as sets of bits\<close>

definition marked :: "bitvec \<Rightarrow> nat \<Rightarrow> bool" where
  "marked bits i \<longleftrightarrow> i div 8 < length bits \<and> bit (bits ! (i div 8)) (i mod 8)"

definition clean_from :: "nat \<Rightarrow> bitvec \<Rightarrow> bool" where
  "clean_from pos bits \<longleftrightarrow> (\<forall>i \<ge> pos. \<not> marked bits i)"

text \<open>The effect of marking the \<open>n\<close> positions from \<open>pos\<close> on.\<close>

definition marks :: "nat \<Rightarrow> nat \<Rightarrow> bitvec \<Rightarrow> bitvec \<Rightarrow> bool" where
  "marks pos n bits bits' \<longleftrightarrow> length bits' = length bits \<and>
     (\<forall>i. marked bits' i \<longleftrightarrow> marked bits i \<or> pos \<le> i \<and> i < pos + n)"

lemma codeSegment_marked: "pos div 8 < length bits \<Longrightarrow> codeSegment bits pos = Some (\<not> marked bits pos)"
  by (simp add: codeSegment_def marked_def and_one_eq bit_iff_odd_drop_bit even_iff_mod_2_eq_zero)

lemma clean_byte:
  "clean_from pos bits \<Longrightarrow> q > pos div 8 \<Longrightarrow> q < length bits \<Longrightarrow> j < 8 \<Longrightarrow> \<not> bit (bits ! q) j"
proof -
  assume c: "clean_from pos bits" and q: "q > pos div 8" "q < length bits" and j: "j < 8"
  have "8 * q + j \<ge> pos" using q(1) by (metis (no_types) add_leE less_imp_le_nat mult.commute
        div_less_iff_less_mult not_le trans_le_add1 zero_less_numeral)
  moreover have "(8 * q + j) div 8 = q" "(8 * q + j) mod 8 = j" using j by auto
  ultimately show ?thesis using c q(2) by (metis clean_from_def marked_def)
qed

lemma marks_by_bytes:
  assumes "length bits' = length bits" and "pos + n \<le> 8 * length bits"
    and "\<And>q j. q < length bits \<Longrightarrow> j < 8 \<Longrightarrow>
       bit (bits' ! q) j \<longleftrightarrow> bit (bits ! q) j \<or> pos \<le> 8 * q + j \<and> 8 * q + j < pos + n"
  shows "marks pos n bits bits'"
  unfolding marks_def
proof (intro conjI allI)
  fix i :: nat
  have "8 * (i div 8) + i mod 8 = i" by simp
  then show "marked bits' i \<longleftrightarrow> marked bits i \<or> pos \<le> i \<and> i < pos + n"
    using assms(1,2) assms(3) [of "i div 8" "i mod 8"]
    by (auto simp: marked_def)
qed (fact assms(1))

lemma bit_ones: "j < 8 \<Longrightarrow> bit (push_bit r (0xFF :: byte)) j \<longleftrightarrow> r \<le> j"
proof -
  assume "j < 8"
  moreover have "(0xFF :: byte) = - 1" by simp
  ultimately show ?thesis by (simp only: bit_push_bit_iff) (auto simp: bit_minus_1_iff)
qed

lemma set8_marks:
  assumes "clean_from pos bits" and "pos div 8 + 1 < length bits"
  shows "\<exists>bits'. set8 pos bits = Some bits' \<and> marks pos 8 bits bits'"
proof -
  define q r where "q = pos div 8" and "r = pos mod 8"
  have pos: "pos = 8 * q + r" "r < 8" by (simp_all add: q_def r_def)
  let ?a = "push_bit r 0xFF :: byte"
  let ?bits' = "bits[q := bits ! q OR ?a, q + 1 := NOT ?a]"
  have "set8 pos bits = Some ?bits'"
    using assms(2) by (simp add: set8_def or_byte_def put_byte_def Let_def flip: q_def r_def)
  moreover have "marks pos 8 bits ?bits'"
  proof (rule marks_by_bytes)
    fix k j :: nat
    assume k: "k < length bits" "j < 8"
    then show "bit (?bits' ! k) j \<longleftrightarrow> bit (bits ! k) j \<or> pos \<le> 8 * k + j \<and> 8 * k + j < pos + 8"
      using clean_byte [OF assms(1), of k j] pos
      by (cases "k = q"; cases "k = q + 1")
        (auto simp: nth_list_update bit_ones bit_not_iff bit_or_iff)
  qed (use assms(2) pos in auto)
  ultimately show ?thesis by blast
qed

lemma set16_marks:
  assumes "clean_from pos bits" and "pos div 8 + 2 < length bits"
  shows "\<exists>bits'. set16 pos bits = Some bits' \<and> marks pos 16 bits bits'"
proof -
  define q r where "q = pos div 8" and "r = pos mod 8"
  have pos: "pos = 8 * q + r" "r < 8" by (simp_all add: q_def r_def)
  let ?a = "push_bit r 0xFF :: byte"
  let ?bits' = "bits[q := bits ! q OR ?a, q + 1 := 0xFF, q + 2 := NOT ?a]"
  have "set16 pos bits = Some ?bits'"
    using assms(2) by (simp add: set16_def or_byte_def put_byte_def Let_def flip: q_def r_def)
  moreover have "marks pos 16 bits ?bits'"
  proof (rule marks_by_bytes)
    fix k j :: nat
    assume k: "k < length bits" "j < 8"
    then show "bit (?bits' ! k) j \<longleftrightarrow> bit (bits ! k) j \<or> pos \<le> 8 * k + j \<and> 8 * k + j < pos + 16"
      using clean_byte [OF assms(1), of k j] pos bit_ones [of j 0]
      by (cases "k = q"; cases "k = q + 1"; cases "k = q + 2")
        (auto simp: nth_list_update bit_ones bit_not_iff bit_or_iff)
  qed (use assms(2) pos in auto)
  ultimately show ?thesis by blast
qed

lemma setN_marks:
  assumes "clean_from pos bits" and "pos + n < 8 * length bits" and "0 < n" and "n < 8"
  shows "\<exists>bits'. setN (mask n) pos bits = Some bits' \<and> marks pos n bits bits'"
proof -
  define q r where "q = pos div 8" and "r = pos mod 8"
  have pos: "pos = 8 * q + r" "r < 8" by (simp_all add: q_def r_def)
  then have q: "q < length bits" using assms(2) by simp
  define A B :: byte where "A = ucast (push_bit r (mask n) :: u16)"
    and "B = ucast (drop_bit 8 (push_bit r (mask n) :: u16))"
  have b: "bit B j \<longleftrightarrow> j + 8 < r + n" if "j < 8" for j
    using that assms(4) pos(2) by (auto simp: B_def bit_simps)
  have a: "bit A j \<longleftrightarrow> r \<le> j \<and> j < r + n" if "j < 8" for j
    using that assms(4) by (auto simp: A_def bit_simps)
  let ?bits' = "(bits[q := bits ! q OR A])[q + 1 := B]"
  have clean: "bits ! (q + 1) = 0" if "q + 1 < length bits"
  proof (rule bit_word_eqI)
    fix j assume "j < LENGTH(8)"
    then show "bit (bits ! (q + 1)) j = bit (0 :: byte) j"
      using clean_byte [OF assms(1), of "q + 1" j] that by (simp add: q_def)
  qed
  have same: "?bits' = bits[q := bits ! q OR A]" if "B = 0"
  proof (cases "q + 1 < length bits")
    case True
    then show ?thesis using that clean
      by simp (metis list_update_id n_not_Suc_n nth_list_update_neq)
  next
    case False
    then have "length (bits[q := bits ! q OR A]) \<le> q + 1" by simp
    then show ?thesis by (rule list_update_beyond)
  qed
  have "q + 1 < length bits" if "B \<noteq> 0"
  proof (rule ccontr)
    assume "\<not> ?thesis"
    then have "r + n < 8" using assms(2) pos q by simp
    then have "B = 0" by (intro bit_word_eqI) (use b in auto)
    with that show False by simp
  qed
  then have "setN (mask n) pos bits = Some ?bits'"
    using q same by (auto simp: setN_def or_byte_def put_byte_def Let_def simp flip: q_def r_def A_def B_def)
  moreover have "marks pos n bits ?bits'"
  proof (rule marks_by_bytes)
    fix k j :: nat
    assume k: "k < length bits" "j < 8"
    show "bit (?bits' ! k) j \<longleftrightarrow> bit (bits ! k) j \<or> pos \<le> 8 * k + j \<and> 8 * k + j < pos + n"
    proof -
      consider "k = q" | "k = q + 1" | "k < q" | "k \<ge> q + 2" by linarith
      then show ?thesis
      proof cases
        case 1
        then show ?thesis using k q pos(1) by (simp add: a bit_or_iff)
      next
        case 2
        then have "\<not> bit (bits ! k) j" using clean_byte [OF assms(1), of k j] k by (simp add: q_def)
        with 2 show ?thesis using k pos by (simp add: b add.commute)
      next
        case 3
        then have "8 * k + j < pos" using k(2) pos(1) by linarith
        then show ?thesis using 3 by simp
      next
        case 4
        then have "pos + n \<le> 8 * k + j" using pos assms(4) by linarith
        then show ?thesis using 4 by simp
      qed
    qed
  qed (use assms in auto)
  ultimately show ?thesis by blast
qed

lemma marks_trans:
  "marks p a b b' \<Longrightarrow> marks (p + a) c b' b'' \<Longrightarrow> marks p (a + c) b b''"
  by (auto simp: marks_def)

lemma marks_clean: "clean_from p b \<Longrightarrow> marks p a b b' \<Longrightarrow> clean_from (p + a) b'"
  by (auto simp: marks_def clean_from_def)

lemma mark16_marks:
  assumes "clean_from p bits" and "p + n < 8 * length bits"
  shows "\<exists>k bits'. mark16 n p bits = Some (n - k, p + k, bits') \<and> marks p k bits bits' \<and> k \<le> n"
  using assms
proof (induction n p bits rule: mark16.induct)
  case (1 n p bits)
  show ?case
  proof (cases "n \<ge> 16")
    case True
    obtain b where b: "set16 p bits = Some b" "marks p 16 bits b"
      using set16_marks [of p bits] 1(2,3) True by fastforce
    have len: "length b = length bits" using b(2) by (simp add: marks_def)
    have less: "p + 16 + (n - 16) < 8 * length b" using 1(3) True len by simp
    obtain k b' where k: "mark16 (n - 16) (p + 16) b = Some (n - 16 - k, p + 16 + k, b')"
        "marks (p + 16) k b b'" "k \<le> n - 16"
      using 1(1) [OF True b(1)] marks_clean [OF 1(2) b(2)] less by blast
    then have "mark16 n p bits = Some (n - (16 + k), p + (16 + k), b')"
      using True b(1) by (subst mark16.simps) (simp add: algebra_simps)
    with marks_trans [OF b(2) k(2)] k(3) True show ?thesis
      by (intro exI [of _ "16 + k"] exI [of _ b']) auto
  next
    case False
    then have "mark16 n p bits = Some (n - 0, p + 0, bits)" by (subst mark16.simps) simp
    then show ?thesis by (intro exI [of _ 0] exI [of _ bits]) (auto simp: marks_def)
  qed
qed

lemma mark8_marks:
  assumes "clean_from p bits" and "p + n < 8 * length bits"
  shows "\<exists>k bits'. mark8 n p bits = Some (n - k, p + k, bits') \<and> marks p k bits bits' \<and> k \<le> n \<and> n - k < 8"
  using assms
proof (induction n p bits rule: mark8.induct)
  case (1 n p bits)
  show ?case
  proof (cases "n \<ge> 8")
    case True
    obtain b where b: "set8 p bits = Some b" "marks p 8 bits b"
      using set8_marks [of p bits] 1(2,3) True by fastforce
    have len: "length b = length bits" using b(2) by (simp add: marks_def)
    have less: "p + 8 + (n - 8) < 8 * length b" using 1(3) True len by simp
    obtain k b' where k: "mark8 (n - 8) (p + 8) b = Some (n - 8 - k, p + 8 + k, b')"
        "marks (p + 8) k b b'" "k \<le> n - 8" "n - 8 - k < 8"
      using 1(1) [OF True b(1)] marks_clean [OF 1(2) b(2)] less by blast
    then have "mark8 n p bits = Some (n - (8 + k), p + (8 + k), b')"
      using True b(1) by (subst mark8.simps) (simp add: algebra_simps)
    with marks_trans [OF b(2) k(2)] k(3,4) True show ?thesis
      by (intro exI [of _ "8 + k"] exI [of _ b']) auto
  next
    case False
    then have "mark8 n p bits = Some (n - 0, p + 0, bits)" by (subst mark8.simps) simp
    then show ?thesis using False by (intro exI [of _ 0] exI [of _ bits]) (auto simp: marks_def)
  qed
qed

lemma mark_rest_marks:
  assumes "clean_from p bits" and "p + n < 8 * length bits" and "n < 8"
  shows "\<exists>bits'. mark_rest n p bits = Some (p + n, bits') \<and> marks p n bits bits'"
proof (cases "n = 0")
  case True
  then show ?thesis by (auto simp: mark_rest_def marks_def)
next
  case False
  have one: "set1 p bits = setN (mask 1) p bits"
  proof -
    have "p mod 8 < 8" by simp
    then have "p mod 8 \<in> {0, 1, 2, 3, 4, 5, 6, 7}" by auto
    then have "ucast (push_bit (p mod 8) (mask 1) :: u16) = (push_bit (p mod 8) 1 :: byte)"
      "ucast (drop_bit 8 (push_bit (p mod 8) (mask 1) :: u16)) = (0 :: byte)"
      by (auto simp: mask_eq_exp_minus_1)
    then show ?thesis by (simp add: set1_def setN_def Let_def)
  qed
  have "mark_rest n p bits = map_option (Pair (p + n)) (setN (mask n) p bits)"
  proof -
    have "n \<in> {1, 2, 3, 4, 5, 6, 7}" using False assms(3) by auto
    then show ?thesis by (auto simp: mark_rest_def one mask_eq_exp_minus_1)
  qed
  with setN_marks [OF assms(1,2) _ assms(3)] False show ?thesis by auto
qed

lemma mark_push_marks:
  assumes "clean_from p bits" and "p + n < 8 * length bits"
  shows "\<exists>bits'. mark_push n p bits = Some (p + n, bits') \<and> marks p n bits bits'"
proof -
  have "\<exists>k b. (if n \<ge> 8 then Option.bind (mark16 n p bits) (\<lambda>(n, p, bits). mark8 n p bits)
        else Some (n, p, bits)) = Some (n - k, p + k, b) \<and> marks p k bits b \<and> k \<le> n \<and> n - k < 8"
  proof (cases "n \<ge> 8")
    case True
    obtain k b where k: "mark16 n p bits = Some (n - k, p + k, b)" "marks p k bits b" "k \<le> n"
      using mark16_marks [OF assms] by blast
    then have "p + k + (n - k) < 8 * length b" using assms(2) by (simp add: marks_def)
    then obtain l b' where l: "mark8 (n - k) (p + k) b = Some (n - k - l, p + k + l, b')"
        "marks (p + k) l b b'" "l \<le> n - k" "n - k - l < 8"
      using mark8_marks [OF marks_clean [OF assms(1) k(2)]] by blast
    show ?thesis using True k(1,3) l(1,3,4) marks_trans [OF k(2) l(2)]
      by (intro exI [of _ "k + l"] exI [of _ b']) (auto simp: add.assoc)
  next
    case False
    then show ?thesis by (intro exI [of _ 0] exI [of _ bits]) (auto simp: marks_def)
  qed
  then obtain k b where k: "(if n \<ge> 8 then Option.bind (mark16 n p bits) (\<lambda>(n, p, bits). mark8 n p bits)
        else Some (n, p, bits)) = Some (n - k, p + k, b)" "marks p k bits b" "k \<le> n" "n - k < 8"
    by blast
  have "length b = length bits" using k(2) by (simp add: marks_def)
  then obtain b' where "mark_rest (n - k) (p + k) b = Some (p + k + (n - k), b')" "marks (p + k) (n - k) b b'"
    using mark_rest_marks [of "p + k" b "n - k"] marks_clean [OF assms(1) k(2)] assms(2) k(3,4) by auto
  then show ?thesis using k marks_trans [OF k(2), of "n - k" b'] by (simp add: mark_push_def)
qed

section \<open>The walk through the code\<close>

definition next_start :: "bytes \<Rightarrow> nat \<Rightarrow> nat" where
  "next_start code p = p + 1 + (if p < length code then push_len (code ! p) else 0)"

lemma next_start_code: "p < length code \<Longrightarrow> next_start code p = p + 1 + push_len (code ! p)"
  by (simp add: next_start_def)

lemma next_start_less: "p < next_start code p"
  by (simp add: next_start_def)

lemma instr_start_walk: "instr_start code p \<Longrightarrow> \<exists>n. p = (next_start code ^^ n) 0"
proof (induction rule: instr_start.induct)
  case first
  show ?case by (rule exI [of _ 0]) simp
next
  case (next_instr p)
  then obtain n where "p = (next_start code ^^ n) 0" by blast
  then show ?case using next_instr(2) by (intro exI [of _ "Suc n"]) (simp add: next_start_code)
qed

lemma walk_strict: "strict_mono (\<lambda>n. (next_start code ^^ n) 0)"
  by (simp add: strict_mono_Suc_iff next_start_less)

lemma no_start_inside:
  assumes "instr_start code p" and "p < length code" and "p < q" and "q < p + 1 + push_len (code ! p)"
  shows "\<not> instr_start code q"
proof
  assume "instr_start code q"
  then obtain m n where w: "p = (next_start code ^^ m) 0" "q = (next_start code ^^ n) 0"
    using assms(1) instr_start_walk by blast
  then have "Suc m \<le> n" using assms(3) strict_mono_less [OF walk_strict [of code], of m n] by simp
  then have "(next_start code ^^ Suc m) 0 \<le> q"
    using strict_mono_less_eq [OF walk_strict [of code], of "Suc m" n] w(2) by blast
  then show False using w(1) assms(2,4) by (simp add: next_start_code)
qed

text \<open>What the loop has established when it reaches \<open>p\<close>.\<close>

definition analysed :: "bytes \<Rightarrow> nat \<Rightarrow> bitvec \<Rightarrow> bool" where
  "analysed code p bits \<longleftrightarrow> instr_start code p \<and> length bits = length code div 8 + 5
     \<and> clean_from p bits \<and> (\<forall>i < p. marked bits i \<longleftrightarrow> \<not> instr_start code i)"

lemma analysed_step:
  assumes "analysed code p bits" and "p < length code" and "marks (p + 1) (push_len (code ! p)) bits bits'"
  shows "analysed code (p + 1 + push_len (code ! p)) bits'"
proof -
  have "marked bits' i \<longleftrightarrow> \<not> instr_start code i" if "i < p + 1 + push_len (code ! p)" for i
  proof (cases "i < p")
    case True
    then show ?thesis using assms(1,3) by (auto simp: analysed_def marks_def)
  next
    case False
    then consider "i = p" | "p < i" by fastforce
    then show ?thesis
    proof cases
      case 1
      then show ?thesis using assms(1,3) by (auto simp: analysed_def marks_def clean_from_def)
    next
      case 2
      then show ?thesis
        using no_start_inside [of code p i] that assms by (auto simp: analysed_def marks_def)
    qed
  qed
  moreover have "clean_from (p + 1 + push_len (code ! p)) bits'"
    using assms(1,3) by (auto simp: analysed_def marks_def clean_from_def)
  ultimately show ?thesis
    using assms instr_start.next_instr [of code p] by (auto simp: analysed_def marks_def)
qed

lemma push_len_le: "push_len op \<le> 32"
  by (simp add: push_len_def PUSH1_def PUSH32_def word_le_nat_alt) arith

lemma push_len_count: "\<not> (op < PUSH1 \<or> op > PUSH32) \<Longrightarrow> unat (op - PUSH1 + 1) = push_len op"
  by (simp add: push_len_def PUSH1_def PUSH32_def word_le_nat_alt not_less unat_word_ariths)
    (simp add: word_less_nat_alt not_less unat_sub word_le_nat_alt)

lemma bitmap_loop_analysed:
  assumes "analysed code p bits" and "length code \<le> p + n"
  shows "\<exists>q bits'. bitmap_loop n code p bits = Some bits' \<and> analysed code q bits' \<and> length code \<le> q"
  using assms
proof (induction n arbitrary: p bits)
  case 0
  then show ?case by auto
next
  case (Suc n)
  show ?case
  proof (cases "p < length code")
    case False
    then show ?thesis using Suc.prems by auto
  next
    case p: True
    let ?op = "code ! p"
    have clean: "clean_from (p + 1) bits" using Suc.prems(1) by (simp add: analysed_def clean_from_def)
    have len: "p + 1 + push_len ?op < 8 * length bits"
      using Suc.prems(1) p push_len_le [of ?op] by (simp add: analysed_def)
    obtain bits' where b: "mark_push (push_len ?op) (p + 1) bits = Some (p + 1 + push_len ?op, bits')"
        "marks (p + 1) (push_len ?op) bits bits'"
      using mark_push_marks [OF clean len] by blast
    have IH: "\<exists>q b. bitmap_loop n code (p + 1 + push_len ?op) bits' = Some b \<and> analysed code q b \<and> length code \<le> q"
      using Suc.IH [OF analysed_step [OF Suc.prems(1) p b(2)]] Suc.prems(2) by simp
    show ?thesis
    proof (cases "?op < PUSH1 \<or> ?op > PUSH32")
      case True
      then have z: "push_len ?op = 0" by (auto simp: push_len_def)
      then have "marks (p + 1) (push_len ?op) bits bits" by (auto simp: marks_def)
      then show ?thesis
        using Suc.IH [OF analysed_step [OF Suc.prems(1) p, of bits]] Suc.prems(2) p True z by simp
    next
      case False
      then show ?thesis using IH b(1) p push_len_count [OF False] by simp
    qed
  qed
qed

lemma codeBitmap_bits:
  "\<exists>bits. codeBitmap code = Some bits \<and>
     (\<forall>pos < length code. codeSegment bits pos = Some (instr_start code pos))"
proof -
  let ?z = "replicate (length code div 8 + 1 + 4) 0 :: bitvec"
  have "\<not> marked ?z i" for i by (simp add: marked_def)
  then have "analysed code 0 ?z" by (simp add: analysed_def clean_from_def instr_start.first)
  then obtain q bits where b: "codeBitmap code = Some bits" "analysed code q bits" "length code \<le> q"
    using bitmap_loop_analysed [of code 0 ?z "length code"] unfolding codeBitmap_def by auto
  have "codeSegment bits pos = Some (instr_start code pos)" if "pos < length code" for pos
    using that b(2,3) codeSegment_marked [of pos bits] by (auto simp: analysed_def)
  with b(1) show ?thesis by blast
qed

lemma isCode_walk: "pos < length code \<Longrightarrow> isCode code pos = Some (instr_start code pos)"
  using codeBitmap_bits [of code] by (auto simp: isCode_def)

lemma validJumpdest_eq:
  "validJumpdest code dest =
     Some (unat dest < length code \<and> IsUint64 dest \<and>
       code ! unat dest = JUMPDEST \<and> instr_start code (unat dest))"
proof (cases "IsUint64 dest")
  case True
  then have u: "unat (Uint64 dest) = unat dest"
    by (simp add: IsUint64_def Uint64_def unsigned_ucast_eq take_bit_nat_eq_self word_le_nat_alt)
  then show ?thesis using True by (simp add: validJumpdest_def isCode_walk not_le)
qed (simp add: validJumpdest_def)

text \<open>
  C9. A jump is accepted exactly when its target is a JUMPDEST that a plain walk from the first byte
  of the code reaches as an instruction, and the check never fails: the analysis marks arguments of
  pushes by bytes and by pairs of bytes at unaligned positions, and never runs out of its vector.
\<close>

theorem jumps_follow_walk:
  "codeBitmap code \<noteq> None \<and>
   validJumpdest code dest =
     Some (unat dest < length code \<and> IsUint64 dest \<and>
       code ! unat dest = JUMPDEST \<and> instr_start code (unat dest))"
  using codeBitmap_bits [of code] validJumpdest_eq [of code dest] by auto

end
