(* ===== verification/EvmInstr.thy ===== *)
theory EvmInstr
  imports EvmCalls EvmAnalysis
begin

text \<open>
  The instructions of src/pkg/vm/instructions.go and eips.go, one function each. A value that the
  code pops and overwrites in place is popped and pushed here.
\<close>

type_synonym 's exec_fn = "'s env \<Rightarrow> 's runner \<Rightarrow> 's frame \<Rightarrow> 's outcome"

section \<open>Arithmetic and logic\<close>

definition binop :: "(u256 \<Rightarrow> u256 \<Rightarrow> u256) \<Rightarrow> 's frame \<Rightarrow> 's outcome" where
  "binop h f = pop f (\<lambda>x f. pop f (\<lambda>y f. Next (push (h x y) f)))"

definition unop :: "(u256 \<Rightarrow> u256) \<Rightarrow> 's frame \<Rightarrow> 's outcome" where
  "unop h f = pop f (\<lambda>x f. Next (push (h x) f))"

definition opAdd :: "'s exec_fn" where
  "opAdd E run f = binop (\<lambda>x y. x + y) f"

definition opSub :: "'s exec_fn" where
  "opSub E run f = binop (\<lambda>x y. x - y) f"

definition opMul :: "'s exec_fn" where
  "opMul E run f = binop (\<lambda>x y. x * y) f"

definition opDiv :: "'s exec_fn" where
  "opDiv E run f = binop (u_Div (num E)) f"

definition opSdiv :: "'s exec_fn" where
  "opSdiv E run f = binop (u_SDiv (num E)) f"

definition opMod :: "'s exec_fn" where
  "opMod E run f = binop (u_Mod (num E)) f"

definition opSmod :: "'s exec_fn" where
  "opSmod E run f = binop (u_SMod (num E)) f"

definition opExp :: "'s exec_fn" where
  "opExp E run f = binop (u_Exp (num E)) f"

definition opSignExtend :: "'s exec_fn" where
  "opSignExtend E run f = binop (\<lambda>back n. u_ExtendSign (num E) n back) f"

definition opLt :: "'s exec_fn" where
  "opLt E run f = binop (\<lambda>x y. flag (x < y)) f"

definition opGt :: "'s exec_fn" where
  "opGt E run f = binop (\<lambda>x y. flag (x > y)) f"

definition opSlt :: "'s exec_fn" where
  "opSlt E run f = binop (\<lambda>x y. flag (x <s y)) f"

definition opSgt :: "'s exec_fn" where
  "opSgt E run f = binop (\<lambda>x y. flag (y <s x)) f"

definition opEq :: "'s exec_fn" where
  "opEq E run f = binop (\<lambda>x y. flag (x = y)) f"

definition opAnd :: "'s exec_fn" where
  "opAnd E run f = binop (\<lambda>x y. x AND y) f"

definition opOr :: "'s exec_fn" where
  "opOr E run f = binop (\<lambda>x y. x OR y) f"

definition opXor :: "'s exec_fn" where
  "opXor E run f = binop (\<lambda>x y. x XOR y) f"

definition opByte :: "'s exec_fn" where
  "opByte E run f = binop (\<lambda>th v. u_Byte (num E) v th) f"

definition opSHL :: "'s exec_fn" where
  "opSHL E run f = binop (\<lambda>shift v. if shift < 256 then push_bit (unat shift) v else 0) f"

definition opSHR :: "'s exec_fn" where
  "opSHR E run f = binop (\<lambda>shift v. if shift < 256 then drop_bit (unat shift) v else 0) f"

definition opSAR :: "'s exec_fn" where
  "opSAR E run f = binop (\<lambda>shift v.
     if shift > 256 then (if 0 \<le>s v then 0 else NOT 0) else signed_drop_bit (unat shift) v) f"

definition opNot :: "'s exec_fn" where
  "opNot E run f = unop (\<lambda>x. NOT x) f"

definition opIszero :: "'s exec_fn" where
  "opIszero E run f = unop (\<lambda>x. flag (x = 0)) f"

definition opAddmod :: "'s exec_fn" where
  "opAddmod E run f = pop f (\<lambda>x f. pop f (\<lambda>y f. pop f (\<lambda>z f.
     Next (push (if z = 0 then 0 else u_AddMod (num E) x y z) f))))"

definition opMulmod :: "'s exec_fn" where
  "opMulmod E run f = pop f (\<lambda>x f. pop f (\<lambda>y f. pop f (\<lambda>z f.
     Next (push (u_MulMod (num E) x y z) f))))"

section \<open>Memory slices\<close>

definition with_slice :: "u256 \<Rightarrow> u256 \<Rightarrow> 's frame \<Rightarrow> (bytes \<Rightarrow> 's outcome) \<Rightarrow> 's outcome" where
  "with_slice off sz f k = (case GetPtr (Uint64 off) (Uint64 sz) (mstore f) of
     None \<Rightarrow> VmPanic ''slice bounds out of range''
   | Some b \<Rightarrow> k b)"

definition write_mem :: "u256 \<Rightarrow> u256 \<Rightarrow> bytes \<Rightarrow> 's frame \<Rightarrow> ('s frame \<Rightarrow> 's outcome) \<Rightarrow> 's outcome" where
  "write_mem off sz v f k = (case mem_Set (Uint64 off) (Uint64 sz) v (mstore f) of
     None \<Rightarrow> VmPanic ''invalid memory: store empty''
   | Some m \<Rightarrow> k (f\<lparr>mstore := m\<rparr>))"

definition upd :: "'s option \<Rightarrow> 's frame \<Rightarrow> ('s frame \<Rightarrow> 's outcome) \<Rightarrow> 's outcome" where
  "upd r f k = ask r (\<lambda>s. k (set_db s f))"

definition opKeccak256 :: "'s exec_fn" where
  "opKeccak256 E run f = pop f (\<lambda>off f. pop f (\<lambda>sz f. with_slice off sz f (\<lambda>dat.
     let h = Keccak E dat in
     upd (if EnablePreimageRecording E then db_AddPreimage (DB E) h dat (db f) else Some (db f)) f
       (\<lambda>f. Next (push (of_bytes h) f)))))"

section \<open>Environment\<close>

definition opAddress :: "'s exec_fn" where
  "opAddress E run f = Next (push (of_bytes (self (ctr f))) f)"

definition opBalance :: "'s exec_fn" where
  "opBalance E run f = pop f (\<lambda>slot f.
     ask (db_GetBalance (DB E) (db f) (Bytes20 slot)) (\<lambda>b. Next (push (FromBig b) f)))"

definition opOrigin :: "'s exec_fn" where
  "opOrigin E run f = Next (push (of_bytes (Origin E)) f)"

definition opCaller :: "'s exec_fn" where
  "opCaller E run f = Next (push (of_bytes (CallerAddress (ctr f))) f)"

definition opCallValue :: "'s exec_fn" where
  "opCallValue E run f = Next (push (FromBig (cvalue (ctr f))) f)"

definition slice_data :: "bytes \<Rightarrow> u64 \<Rightarrow> u64 \<Rightarrow> (bytes \<Rightarrow> 's outcome) \<Rightarrow> 's outcome" where
  "slice_data dat start sz k = (case getData dat start sz of
     None \<Rightarrow> VmPanic ''slice bounds out of range''
   | Some b \<Rightarrow> k b)"

definition opCallDataLoad :: "'s exec_fn" where
  "opCallDataLoad E run f = pop f (\<lambda>x f.
     if IsUint64 x then slice_data (input f) (Uint64 x) 32 (\<lambda>d. Next (push (of_bytes d) f))
     else Next (push 0 f))"

definition opCallDataSize :: "'s exec_fn" where
  "opCallDataSize E run f = Next (push (of_nat (length (input f))) f)"

text \<open>An offset that does not fit into 64 bits reads behind the data.\<close>

definition data_offset :: "u256 \<Rightarrow> u64" where
  "data_offset x = (if IsUint64 x then Uint64 x else 0xFFFFFFFFFFFFFFFF)"

definition copy_data :: "bytes \<Rightarrow> u256 \<Rightarrow> u256 \<Rightarrow> u256 \<Rightarrow> 's frame \<Rightarrow> 's outcome" where
  "copy_data dat memOffset dataOffset len f =
     slice_data dat (data_offset dataOffset) (Uint64 len) (\<lambda>d. write_mem memOffset len d f Next)"

definition opCallDataCopy :: "'s exec_fn" where
  "opCallDataCopy E run f = pop f (\<lambda>memOffset f. pop f (\<lambda>dataOffset f. pop f (\<lambda>len f.
     copy_data (input f) memOffset dataOffset len f)))"

definition opReturnDataSize :: "'s exec_fn" where
  "opReturnDataSize E run f = Next (push (of_nat (length (returnData (vm f)))) f)"

definition opReturnDataCopy :: "'s exec_fn" where
  "opReturnDataCopy E run f = pop f (\<lambda>memOffset f. pop f (\<lambda>dataOffset f. pop f (\<lambda>len f.
     if \<not> IsUint64 dataOffset then Halt (Some ErrReturnDataOutOfBounds) [] f
     else let e = dataOffset + len; ret = returnData (vm f) in
       if \<not> IsUint64 e \<or> length ret < unat e then Halt (Some ErrReturnDataOutOfBounds) [] f
       else if dataOffset > e then VmPanic ''slice bounds out of range''
       else write_mem memOffset len (take (unat e - unat dataOffset) (drop (unat dataOffset) ret)) f Next)))"

definition opExtCodeSize :: "'s exec_fn" where
  "opExtCodeSize E run f = pop f (\<lambda>slot f.
     ask (db_GetCodeSize (DB E) (db f) (Bytes20 slot)) (\<lambda>n. Next (push (of_nat n) f)))"

definition opCodeSize :: "'s exec_fn" where
  "opCodeSize E run f = Next (push (of_nat (length (Code (ctr f)))) f)"

definition opCodeCopy :: "'s exec_fn" where
  "opCodeCopy E run f = pop f (\<lambda>memOffset f. pop f (\<lambda>codeOffset f. pop f (\<lambda>len f.
     copy_data (Code (ctr f)) memOffset codeOffset len f)))"

definition opExtCodeCopy :: "'s exec_fn" where
  "opExtCodeCopy E run f = pop f (\<lambda>a f. pop f (\<lambda>memOffset f. pop f (\<lambda>codeOffset f. pop f (\<lambda>len f.
     ask (db_GetCode (DB E) (db f) (Bytes20 a)) (\<lambda>code. copy_data code memOffset codeOffset len f)))))"

definition opExtCodeHash :: "'s exec_fn" where
  "opExtCodeHash E run f = pop f (\<lambda>slot f.
     ask (db_Empty (DB E) (db f) (Bytes20 slot)) (\<lambda>empty.
       if empty then Next (push 0 f)
       else ask (db_GetCodeHash (DB E) (db f) (Bytes20 slot)) (\<lambda>h. Next (push (of_bytes h) f))))"

definition opGasprice :: "'s exec_fn" where
  "opGasprice E run f = Next (push (FromBig (TxGasPrice E)) f)"

definition opBlockhash :: "'s exec_fn" where
  "opBlockhash E run f = pop f (\<lambda>n f.
     let upper = word_of_int (BlockNumber E) :: u64;
         lower = (if upper < 257 then 0 else upper - 256) in
     if IsUint64 n \<and> Uint64 n \<ge> lower \<and> Uint64 n < upper
     then (case GetHash E of
         None \<Rightarrow> VmPanic ''nil GetHash''
       | Some h \<Rightarrow> Next (push (of_bytes (h (Uint64 n))) f))
     else Next (push 0 f))"

definition opCoinbase :: "'s exec_fn" where
  "opCoinbase E run f = Next (push (of_bytes (Coinbase E)) f)"

definition opTimestamp :: "'s exec_fn" where
  "opTimestamp E run f = Next (push (FromBig (BlockTime E)) f)"

definition opNumber :: "'s exec_fn" where
  "opNumber E run f = Next (push (FromBig (BlockNumber E)) f)"

definition opDifficulty :: "'s exec_fn" where
  "opDifficulty E run f = Next (push (FromBig (Difficulty E)) f)"

definition opRandom :: "'s exec_fn" where
  "opRandom E run f = Next (push (of_bytes (Random E)) f)"

definition opGasLimit :: "'s exec_fn" where
  "opGasLimit E run f = Next (push (of_u64 (GasLimit E)) f)"

definition opChainID :: "'s exec_fn" where
  "opChainID E run f = Next (push (FromBig (ChainId E)) f)"

definition opSelfBalance :: "'s exec_fn" where
  "opSelfBalance E run f =
     ask (db_GetBalance (DB E) (db f) (self (ctr f))) (\<lambda>b. Next (push (FromBig b) f))"

definition opBaseFee :: "'s exec_fn" where
  "opBaseFee E run f = Next (push (FromBig (BaseFee E)) f)"

section \<open>Stack, memory, storage and flow\<close>

definition opPop :: "'s exec_fn" where
  "opPop E run f = pop f (\<lambda>_ f. Next f)"

definition opMload :: "'s exec_fn" where
  "opMload E run f = pop f (\<lambda>v f. with_slice v 32 f (\<lambda>b. Next (push (of_bytes b) f)))"

definition opMstore :: "'s exec_fn" where
  "opMstore E run f = pop f (\<lambda>mStart f. pop f (\<lambda>v f.
     case mem_Set32 (Uint64 mStart) v (mstore f) of
       None \<Rightarrow> VmPanic ''invalid memory: store empty''
     | Some m \<Rightarrow> Next (f\<lparr>mstore := m\<rparr>)))"

definition opMstore8 :: "'s exec_fn" where
  "opMstore8 E run f = pop f (\<lambda>off f. pop f (\<lambda>v f.
     if unat (Uint64 off) < length (mstore f)
     then Next (f\<lparr>mstore := (mstore f)[unat (Uint64 off) := ucast v]\<rparr>)
     else VmPanic ''index out of range''))"

definition opSload :: "'s exec_fn" where
  "opSload E run f = pop f (\<lambda>loc f.
     ask (db_GetState (DB E) (db f) (self (ctr f)) (Bytes32 loc)) (\<lambda>v. Next (push (of_bytes v) f)))"

definition opSstore :: "'s exec_fn" where
  "opSstore E run f =
     (if readOnly (vm f) then Halt (Some ErrWriteProtection) [] f
      else pop f (\<lambda>loc f. pop f (\<lambda>v f.
        upd (db_SetState (DB E) (self (ctr f)) (Bytes32 loc) (Bytes32 v) (db f)) f Next)))"

definition jump_to :: "u256 \<Rightarrow> 's frame \<Rightarrow> 's outcome" where
  "jump_to pos f = (case validJumpdest (Code (ctr f)) pos of
     None \<Rightarrow> VmPanic ''index out of range''
   | Some ok \<Rightarrow>
       if \<not> ok then Halt (Some ErrInvalidJump) [] f else Next (f\<lparr>pc := Uint64 pos - 1\<rparr>))"

definition opJump :: "'s exec_fn" where
  "opJump E run f = (if abort E then Halt None [] f else pop f jump_to)"

definition opJumpi :: "'s exec_fn" where
  "opJumpi E run f =
     (if abort E then Halt None [] f
      else pop f (\<lambda>pos f. pop f (\<lambda>cond f. if cond \<noteq> 0 then jump_to pos f else Next f)))"

definition opJumpdest :: "'s exec_fn" where
  "opJumpdest E run f = Next f"

definition opPc :: "'s exec_fn" where
  "opPc E run f = Next (push (of_u64 (pc f)) f)"

definition opMsize :: "'s exec_fn" where
  "opMsize E run f = Next (push (of_nat (length (mstore f))) f)"

definition opGas :: "'s exec_fn" where
  "opGas E run f = Next (push (of_u64 (gas f)) f)"

text \<open>\<open>opPush1\<close> and \<open>makePush\<close>: bytes behind the end of the code are zero.\<close>

definition opPush1 :: "'s exec_fn" where
  "opPush1 E run f =
     (let p = pc f + 1; code = Code (ctr f) in
      Next (push (if unat p < length code then ucast (code ! unat p) else 0) (f\<lparr>pc := p\<rparr>)))"

definition makePush :: "nat \<Rightarrow> 's exec_fn" where
  "makePush n E run f =
     (let code = Code (ctr f); codeLen = length code;
          start = unat (pc f + 1);
          startMin = (if start < codeLen then start else codeLen);
          endMin = (if startMin + n < codeLen then startMin + n else codeLen) in
      Next ((push (of_bytes (RightPadBytes (take (endMin - startMin) (drop startMin code)) n)) f)
              \<lparr>pc := pc f + of_nat n\<rparr>))"

definition makeDup :: "nat \<Rightarrow> 's exec_fn" where
  "makeDup n E run f = stack_dup n f"

definition makeSwap :: "nat \<Rightarrow> 's exec_fn" where
  "makeSwap n E run f = stack_swap (n + 1) f"

definition makeLog :: "nat \<Rightarrow> 's exec_fn" where
  "makeLog n E run f =
     (if readOnly (vm f) then Halt (Some ErrWriteProtection) [] f
      else pop f (\<lambda>mStart f. pop f (\<lambda>mSize f.
        if length (stk f) < n then VmPanic ''index out of range''
        else let topics = map Bytes32 (take n (stk f)); f = f\<lparr>stk := drop n (stk f)\<rparr> in
          with_slice mStart mSize f (\<lambda>d.
          upd (db_AddLog (DB E) \<lparr>log_Address = self (ctr f), log_Topics = topics, log_Data = d,
                 log_BlockNumber = word_of_int (BlockNumber E)\<rparr> (db f)) f Next))))"

section \<open>Calls\<close>

text \<open>
  After a call: a flag on the stack, the result in memory when it succeeded or reverted, the gas
  that was left and the return data.
\<close>

definition after_call :: "u256 \<Rightarrow> u256 \<Rightarrow> 's frame \<Rightarrow> 's run_result \<Rightarrow> 's outcome" where
  "after_call retOffset retSize f r = (case r of
     RunPanic s \<Rightarrow> VmPanic s
   | RunNoFuel \<Rightarrow> NoFuel
   | Ran err ret returnGas e \<Rightarrow>
       let f = push (flag (err = None)) (f\<lparr>vm := e\<rparr>);
           done = (\<lambda>f. Next (set_returnData ret (f\<lparr>gas := gas f + returnGas\<rparr>))) in
       if err = None \<or> err = Some ErrExecutionReverted
       then write_mem retOffset retSize ret f done else done f)"

definition opCall :: "'s exec_fn" where
  "opCall E run f = pop f (\<lambda>_ f. pop f (\<lambda>addr f. pop f (\<lambda>value f.
     pop f (\<lambda>inOffset f. pop f (\<lambda>inSize f. pop f (\<lambda>retOffset f. pop f (\<lambda>retSize f.
     with_slice inOffset inSize f (\<lambda>args.
       if readOnly (vm f) \<and> value \<noteq> 0 then Halt (Some ErrWriteProtection) [] f
       else let g = callGasTemp (vm f) + (if value \<noteq> 0 then prc E CallStipend else 0) in
         after_call retOffset retSize f
           (Call E run (self (ctr f)) (Bytes20 addr) args g (ToBig value) (vm f))))))))))"

definition opCallCode :: "'s exec_fn" where
  "opCallCode E run f = pop f (\<lambda>_ f. pop f (\<lambda>addr f. pop f (\<lambda>value f.
     pop f (\<lambda>inOffset f. pop f (\<lambda>inSize f. pop f (\<lambda>retOffset f. pop f (\<lambda>retSize f.
     with_slice inOffset inSize f (\<lambda>args.
       let g = callGasTemp (vm f) + (if value \<noteq> 0 then prc E CallStipend else 0) in
       after_call retOffset retSize f
         (CallCode E run (self (ctr f)) (Bytes20 addr) args g (ToBig value) (vm f))))))))))"

definition opDelegateCall :: "'s exec_fn" where
  "opDelegateCall E run f = pop f (\<lambda>_ f. pop f (\<lambda>addr f.
     pop f (\<lambda>inOffset f. pop f (\<lambda>inSize f. pop f (\<lambda>retOffset f. pop f (\<lambda>retSize f.
     with_slice inOffset inSize f (\<lambda>args.
       after_call retOffset retSize f
         (DelegateCall E run (ctr f) (Bytes20 addr) args (callGasTemp (vm f)) (vm f)))))))))"

definition opStaticCall :: "'s exec_fn" where
  "opStaticCall E run f = pop f (\<lambda>_ f. pop f (\<lambda>addr f.
     pop f (\<lambda>inOffset f. pop f (\<lambda>inSize f. pop f (\<lambda>retOffset f. pop f (\<lambda>retSize f.
     with_slice inOffset inSize f (\<lambda>args.
       after_call retOffset retSize f
         (StaticCall E run (self (ctr f)) (Bytes20 addr) args (callGasTemp (vm f)) (vm f)))))))))"

text \<open>After a creation: \<open>failed\<close> tells which errors put zero on the stack.\<close>

definition after_create :: "(vm_error option \<Rightarrow> bool) \<Rightarrow> 's frame \<Rightarrow> address \<times> 's run_result \<Rightarrow> 's outcome" where
  "after_create failed f r = (case snd r of
     RunPanic s \<Rightarrow> VmPanic s
   | RunNoFuel \<Rightarrow> NoFuel
   | Ran err ret returnGas e \<Rightarrow>
       let f = push (if failed err then 0 else of_bytes (fst r)) (f\<lparr>vm := e\<rparr>) in
       Next (set_returnData (if err = Some ErrExecutionReverted then ret else [])
         (f\<lparr>gas := gas f + returnGas\<rparr>)))"

definition opCreate :: "'s exec_fn" where
  "opCreate E run f =
     (if readOnly (vm f) then Halt (Some ErrWriteProtection) [] f
      else pop f (\<lambda>value f. pop f (\<lambda>off f. pop f (\<lambda>sz f. with_slice off sz f (\<lambda>code.
        let g = (if IsEIP150 (chainRules E) then gas f - gas f div 64 else gas f);
            f = f\<lparr>gas := gas f - g\<rparr> in
        after_create (\<lambda>err. (IsHomestead (chainRules E) \<and> err = Some ErrCodeStoreOutOfGas)
             \<or> (err \<noteq> None \<and> err \<noteq> Some ErrCodeStoreOutOfGas)) f
          (Create E run (self (ctr f)) code g (ToBig value) (vm f)))))))"

definition opCreate2 :: "'s exec_fn" where
  "opCreate2 E run f =
     (if readOnly (vm f) then Halt (Some ErrWriteProtection) [] f
      else pop f (\<lambda>endowment f. pop f (\<lambda>off f. pop f (\<lambda>sz f. pop f (\<lambda>salt f.
        with_slice off sz f (\<lambda>code.
        let g = gas f - gas f div 64; f = f\<lparr>gas := gas f - g\<rparr> in
        after_create (\<lambda>err. err \<noteq> None) f
          (Create2 E run (self (ctr f)) code g (ToBig endowment) salt (vm f))))))))"

section \<open>Ends\<close>

definition opReturn :: "'s exec_fn" where
  "opReturn E run f = pop f (\<lambda>off f. pop f (\<lambda>sz f. with_slice off sz f (\<lambda>ret. Halt None ret f)))"

definition opRevert :: "'s exec_fn" where
  "opRevert E run f = pop f (\<lambda>off f. pop f (\<lambda>sz f. with_slice off sz f (\<lambda>ret.
     Halt (Some ErrExecutionReverted) ret (set_returnData ret f))))"

definition opUndefined :: "'s exec_fn" where
  "opUndefined E run f =
     (if unat (pc f) < length (Code (ctr f))
      then Halt (Some (ErrInvalidOpCode (Code (ctr f) ! unat (pc f)))) [] f
      else VmPanic ''index out of range'')"

definition opStop :: "'s exec_fn" where
  "opStop E run f = Halt None [] f"

definition opSelfdestruct :: "'s exec_fn" where
  "opSelfdestruct E run f =
     (if readOnly (vm f) then Halt (Some ErrWriteProtection) [] f
      else pop f (\<lambda>beneficiary f.
        ask (db_GetBalance (DB E) (db f) (self (ctr f))) (\<lambda>balance.
        upd (db_AddBalance (DB E) (Bytes20 beneficiary) balance (db f)) f (\<lambda>f.
        upd (db_Suicide (DB E) (self (ctr f)) (db f)) f (\<lambda>f. Halt None [] f)))))"

end
