(* ===== verification/EvmTable.thy ===== *)
theory EvmTable
  imports EvmInstr
begin

text \<open>
  The instruction tables of src/pkg/vm/jump_table.go with stack_table.go, and the changes of
  src/pkg/vm/eips.go. A table is a function of the opcode. The functions of the code build a fresh
  table each and change its entries in place; here every change is an update.
\<close>

text \<open>The opcodes, as in src/pkg/vm/opcodes.go.\<close>

abbreviation (input) OP_STOP :: byte where "OP_STOP \<equiv> 0x0"
abbreviation (input) OP_ADD :: byte where "OP_ADD \<equiv> 0x1"
abbreviation (input) OP_MUL :: byte where "OP_MUL \<equiv> 0x2"
abbreviation (input) OP_SUB :: byte where "OP_SUB \<equiv> 0x3"
abbreviation (input) OP_DIV :: byte where "OP_DIV \<equiv> 0x4"
abbreviation (input) OP_SDIV :: byte where "OP_SDIV \<equiv> 0x5"
abbreviation (input) OP_MOD :: byte where "OP_MOD \<equiv> 0x6"
abbreviation (input) OP_SMOD :: byte where "OP_SMOD \<equiv> 0x7"
abbreviation (input) OP_ADDMOD :: byte where "OP_ADDMOD \<equiv> 0x8"
abbreviation (input) OP_MULMOD :: byte where "OP_MULMOD \<equiv> 0x9"
abbreviation (input) OP_EXP :: byte where "OP_EXP \<equiv> 0xa"
abbreviation (input) OP_SIGNEXTEND :: byte where "OP_SIGNEXTEND \<equiv> 0xb"
abbreviation (input) OP_LT :: byte where "OP_LT \<equiv> 0x10"
abbreviation (input) OP_GT :: byte where "OP_GT \<equiv> 0x11"
abbreviation (input) OP_SLT :: byte where "OP_SLT \<equiv> 0x12"
abbreviation (input) OP_SGT :: byte where "OP_SGT \<equiv> 0x13"
abbreviation (input) OP_EQ :: byte where "OP_EQ \<equiv> 0x14"
abbreviation (input) OP_ISZERO :: byte where "OP_ISZERO \<equiv> 0x15"
abbreviation (input) OP_AND :: byte where "OP_AND \<equiv> 0x16"
abbreviation (input) OP_OR :: byte where "OP_OR \<equiv> 0x17"
abbreviation (input) OP_XOR :: byte where "OP_XOR \<equiv> 0x18"
abbreviation (input) OP_NOT :: byte where "OP_NOT \<equiv> 0x19"
abbreviation (input) OP_BYTE :: byte where "OP_BYTE \<equiv> 0x1a"
abbreviation (input) OP_SHL :: byte where "OP_SHL \<equiv> 0x1b"
abbreviation (input) OP_SHR :: byte where "OP_SHR \<equiv> 0x1c"
abbreviation (input) OP_SAR :: byte where "OP_SAR \<equiv> 0x1d"
abbreviation (input) OP_KECCAK256 :: byte where "OP_KECCAK256 \<equiv> 0x20"
abbreviation (input) OP_ADDRESS :: byte where "OP_ADDRESS \<equiv> 0x30"
abbreviation (input) OP_BALANCE :: byte where "OP_BALANCE \<equiv> 0x31"
abbreviation (input) OP_ORIGIN :: byte where "OP_ORIGIN \<equiv> 0x32"
abbreviation (input) OP_CALLER :: byte where "OP_CALLER \<equiv> 0x33"
abbreviation (input) OP_CALLVALUE :: byte where "OP_CALLVALUE \<equiv> 0x34"
abbreviation (input) OP_CALLDATALOAD :: byte where "OP_CALLDATALOAD \<equiv> 0x35"
abbreviation (input) OP_CALLDATASIZE :: byte where "OP_CALLDATASIZE \<equiv> 0x36"
abbreviation (input) OP_CALLDATACOPY :: byte where "OP_CALLDATACOPY \<equiv> 0x37"
abbreviation (input) OP_CODESIZE :: byte where "OP_CODESIZE \<equiv> 0x38"
abbreviation (input) OP_CODECOPY :: byte where "OP_CODECOPY \<equiv> 0x39"
abbreviation (input) OP_GASPRICE :: byte where "OP_GASPRICE \<equiv> 0x3a"
abbreviation (input) OP_EXTCODESIZE :: byte where "OP_EXTCODESIZE \<equiv> 0x3b"
abbreviation (input) OP_EXTCODECOPY :: byte where "OP_EXTCODECOPY \<equiv> 0x3c"
abbreviation (input) OP_RETURNDATASIZE :: byte where "OP_RETURNDATASIZE \<equiv> 0x3d"
abbreviation (input) OP_RETURNDATACOPY :: byte where "OP_RETURNDATACOPY \<equiv> 0x3e"
abbreviation (input) OP_EXTCODEHASH :: byte where "OP_EXTCODEHASH \<equiv> 0x3f"
abbreviation (input) OP_BLOCKHASH :: byte where "OP_BLOCKHASH \<equiv> 0x40"
abbreviation (input) OP_COINBASE :: byte where "OP_COINBASE \<equiv> 0x41"
abbreviation (input) OP_TIMESTAMP :: byte where "OP_TIMESTAMP \<equiv> 0x42"
abbreviation (input) OP_NUMBER :: byte where "OP_NUMBER \<equiv> 0x43"
abbreviation (input) OP_DIFFICULTY :: byte where "OP_DIFFICULTY \<equiv> 0x44"
abbreviation (input) OP_RANDOM :: byte where "OP_RANDOM \<equiv> 0x44"
abbreviation (input) OP_GASLIMIT :: byte where "OP_GASLIMIT \<equiv> 0x45"
abbreviation (input) OP_CHAINID :: byte where "OP_CHAINID \<equiv> 0x46"
abbreviation (input) OP_SELFBALANCE :: byte where "OP_SELFBALANCE \<equiv> 0x47"
abbreviation (input) OP_BASEFEE :: byte where "OP_BASEFEE \<equiv> 0x48"
abbreviation (input) OP_POP :: byte where "OP_POP \<equiv> 0x50"
abbreviation (input) OP_MLOAD :: byte where "OP_MLOAD \<equiv> 0x51"
abbreviation (input) OP_MSTORE :: byte where "OP_MSTORE \<equiv> 0x52"
abbreviation (input) OP_MSTORE8 :: byte where "OP_MSTORE8 \<equiv> 0x53"
abbreviation (input) OP_SLOAD :: byte where "OP_SLOAD \<equiv> 0x54"
abbreviation (input) OP_SSTORE :: byte where "OP_SSTORE \<equiv> 0x55"
abbreviation (input) OP_JUMP :: byte where "OP_JUMP \<equiv> 0x56"
abbreviation (input) OP_JUMPI :: byte where "OP_JUMPI \<equiv> 0x57"
abbreviation (input) OP_PC :: byte where "OP_PC \<equiv> 0x58"
abbreviation (input) OP_MSIZE :: byte where "OP_MSIZE \<equiv> 0x59"
abbreviation (input) OP_GAS :: byte where "OP_GAS \<equiv> 0x5a"
abbreviation (input) OP_JUMPDEST :: byte where "OP_JUMPDEST \<equiv> 0x5b"
abbreviation (input) OP_PUSH1 :: byte where "OP_PUSH1 \<equiv> 0x60"
abbreviation (input) OP_CREATE :: byte where "OP_CREATE \<equiv> 0xf0"
abbreviation (input) OP_CALL :: byte where "OP_CALL \<equiv> 0xf1"
abbreviation (input) OP_CALLCODE :: byte where "OP_CALLCODE \<equiv> 0xf2"
abbreviation (input) OP_RETURN :: byte where "OP_RETURN \<equiv> 0xf3"
abbreviation (input) OP_DELEGATECALL :: byte where "OP_DELEGATECALL \<equiv> 0xf4"
abbreviation (input) OP_CREATE2 :: byte where "OP_CREATE2 \<equiv> 0xf5"
abbreviation (input) OP_STATICCALL :: byte where "OP_STATICCALL \<equiv> 0xfa"
abbreviation (input) OP_REVERT :: byte where "OP_REVERT \<equiv> 0xfd"
abbreviation (input) OP_SELFDESTRUCT :: byte where "OP_SELFDESTRUCT \<equiv> 0xff"

record 's vm_operation =
  execute :: "'s exec_fn"
  constantGas :: u64
  dynamicGas :: "'s gas_fn option"
  min_stack :: nat
  max_stack :: int
  memorySize :: "memory_fn option"

type_synonym 's jump_table = "byte \<Rightarrow> 's vm_operation"

definition maxStack :: "prices \<Rightarrow> nat \<Rightarrow> nat \<Rightarrow> int" where
  "maxStack P pops pushes = uint (P StackLimit) + int pops - int pushes"

definition minStack :: "nat \<Rightarrow> nat \<Rightarrow> nat" where
  "minStack pops pushes = pops"

definition minSwapStack :: "nat \<Rightarrow> nat" where
  "minSwapStack n = minStack n n"

definition maxSwapStack :: "prices \<Rightarrow> nat \<Rightarrow> int" where
  "maxSwapStack P n = maxStack P n n"

definition minDupStack :: "nat \<Rightarrow> nat" where
  "minDupStack n = minStack n (n + 1)"

definition maxDupStack :: "prices \<Rightarrow> nat \<Rightarrow> int" where
  "maxDupStack P n = maxStack P n (n + 1)"

text \<open>An entry that takes \<open>pops\<close> items and puts \<open>pushes\<close>.\<close>

definition entry ::
    "prices \<Rightarrow> 's exec_fn \<Rightarrow> u64 \<Rightarrow> 's gas_fn option \<Rightarrow> nat \<Rightarrow> nat \<Rightarrow> memory_fn option \<Rightarrow> 's vm_operation" where
  "entry P ex c dyn pops pushes mem =
     \<lparr>execute = ex, constantGas = c, dynamicGas = dyn, min_stack = minStack pops pushes,
      max_stack = maxStack P pops pushes, memorySize = mem\<rparr>"

definition basic_entries :: "prices \<Rightarrow> (byte \<times> 's vm_operation) list" where
  "basic_entries P = [
     (OP_STOP, entry P opStop 0 None 0 0 None),
     (OP_ADD, entry P opAdd GasFastestStep None 2 1 None),
     (OP_MUL, entry P opMul GasFastStep None 2 1 None),
     (OP_SUB, entry P opSub GasFastestStep None 2 1 None),
     (OP_DIV, entry P opDiv GasFastStep None 2 1 None),
     (OP_SDIV, entry P opSdiv GasFastStep None 2 1 None),
     (OP_MOD, entry P opMod GasFastStep None 2 1 None),
     (OP_SMOD, entry P opSmod GasFastStep None 2 1 None),
     (OP_ADDMOD, entry P opAddmod GasMidStep None 3 1 None),
     (OP_MULMOD, entry P opMulmod GasMidStep None 3 1 None),
     (OP_EXP, entry P opExp 0 (Some gasExpFrontier) 2 1 None),
     (OP_SIGNEXTEND, entry P opSignExtend GasFastStep None 2 1 None),
     (OP_LT, entry P opLt GasFastestStep None 2 1 None),
     (OP_GT, entry P opGt GasFastestStep None 2 1 None),
     (OP_SLT, entry P opSlt GasFastestStep None 2 1 None),
     (OP_SGT, entry P opSgt GasFastestStep None 2 1 None),
     (OP_EQ, entry P opEq GasFastestStep None 2 1 None),
     (OP_ISZERO, entry P opIszero GasFastestStep None 1 1 None),
     (OP_AND, entry P opAnd GasFastestStep None 2 1 None),
     (OP_XOR, entry P opXor GasFastestStep None 2 1 None),
     (OP_OR, entry P opOr GasFastestStep None 2 1 None),
     (OP_NOT, entry P opNot GasFastestStep None 1 1 None),
     (OP_BYTE, entry P opByte GasFastestStep None 2 1 None),
     (OP_KECCAK256, entry P opKeccak256 (P Keccak256Gas) (Some gasKeccak256) 2 1 (Some memoryKeccak256)),
     (OP_ADDRESS, entry P opAddress GasQuickStep None 0 1 None),
     (OP_BALANCE, entry P opBalance (P BalanceGasFrontier) None 1 1 None),
     (OP_ORIGIN, entry P opOrigin GasQuickStep None 0 1 None),
     (OP_CALLER, entry P opCaller GasQuickStep None 0 1 None),
     (OP_CALLVALUE, entry P opCallValue GasQuickStep None 0 1 None),
     (OP_CALLDATALOAD, entry P opCallDataLoad GasFastestStep None 1 1 None),
     (OP_CALLDATASIZE, entry P opCallDataSize GasQuickStep None 0 1 None),
     (OP_CALLDATACOPY, entry P opCallDataCopy GasFastestStep (Some gasCallDataCopy) 3 0 (Some memoryCallDataCopy)),
     (OP_CODESIZE, entry P opCodeSize GasQuickStep None 0 1 None),
     (OP_CODECOPY, entry P opCodeCopy GasFastestStep (Some gasCodeCopy) 3 0 (Some memoryCodeCopy)),
     (OP_GASPRICE, entry P opGasprice GasQuickStep None 0 1 None),
     (OP_EXTCODESIZE, entry P opExtCodeSize (P ExtcodeSizeGasFrontier) None 1 1 None),
     (OP_EXTCODECOPY, entry P opExtCodeCopy (P ExtcodeCopyBaseFrontier) (Some gasExtCodeCopy) 4 0 (Some memoryExtCodeCopy)),
     (OP_BLOCKHASH, entry P opBlockhash GasExtStep None 1 1 None),
     (OP_COINBASE, entry P opCoinbase GasQuickStep None 0 1 None),
     (OP_TIMESTAMP, entry P opTimestamp GasQuickStep None 0 1 None),
     (OP_NUMBER, entry P opNumber GasQuickStep None 0 1 None),
     (OP_DIFFICULTY, entry P opDifficulty GasQuickStep None 0 1 None),
     (OP_GASLIMIT, entry P opGasLimit GasQuickStep None 0 1 None),
     (OP_POP, entry P opPop GasQuickStep None 1 0 None),
     (OP_MLOAD, entry P opMload GasFastestStep (Some pureMemoryGascost) 1 1 (Some memoryMLoad)),
     (OP_MSTORE, entry P opMstore GasFastestStep (Some pureMemoryGascost) 2 0 (Some memoryMStore)),
     (OP_MSTORE8, entry P opMstore8 GasFastestStep (Some pureMemoryGascost) 2 0 (Some memoryMStore8)),
     (OP_SLOAD, entry P opSload (P SloadGasFrontier) None 1 1 None),
     (OP_SSTORE, entry P opSstore 0 (Some gasSStore) 2 0 None),
     (OP_JUMP, entry P opJump GasMidStep None 1 0 None),
     (OP_JUMPI, entry P opJumpi GasSlowStep None 2 0 None),
     (OP_PC, entry P opPc GasQuickStep None 0 1 None),
     (OP_MSIZE, entry P opMsize GasQuickStep None 0 1 None),
     (OP_GAS, entry P opGas GasQuickStep None 0 1 None),
     (OP_JUMPDEST, entry P opJumpdest (P JumpdestGas) None 0 0 None),
     (OP_PUSH1, entry P opPush1 GasFastestStep None 0 1 None),
     (OP_CREATE, entry P opCreate (P CreateGas) (Some pureMemoryGascost) 3 1 (Some memoryCreate)),
     (OP_CALL, entry P opCall (P CallGasFrontier) (Some gasCall) 7 1 (Some memoryCall)),
     (OP_CALLCODE, entry P opCallCode (P CallGasFrontier) (Some gasCallCode) 7 1 (Some memoryCall)),
     (OP_RETURN, entry P opReturn 0 (Some pureMemoryGascost) 2 0 (Some memoryReturn)),
     (OP_SELFDESTRUCT, entry P opSelfdestruct 0 (Some gasSelfdestruct) 1 0 None)]"

definition push_entries :: "prices \<Rightarrow> (byte \<times> 's vm_operation) list" where
  "push_entries P = map (\<lambda>n. (0x5f + of_nat n, entry P (makePush n) GasFastestStep None 0 1 None)) [2..<33]"

definition dup_entries :: "prices \<Rightarrow> (byte \<times> 's vm_operation) list" where
  "dup_entries P = map (\<lambda>n. (0x7f + of_nat n,
     \<lparr>execute = makeDup n, constantGas = GasFastestStep, dynamicGas = None,
      min_stack = minDupStack n, max_stack = maxDupStack P n, memorySize = None\<rparr>)) [1..<17]"

definition swap_entries :: "prices \<Rightarrow> (byte \<times> 's vm_operation) list" where
  "swap_entries P = map (\<lambda>n. (0x8f + of_nat n,
     \<lparr>execute = makeSwap n, constantGas = GasFastestStep, dynamicGas = None,
      min_stack = minSwapStack (n + 1), max_stack = maxSwapStack P (n + 1), memorySize = None\<rparr>)) [1..<17]"

definition log_entries :: "prices \<Rightarrow> (byte \<times> 's vm_operation) list" where
  "log_entries P = map (\<lambda>n. (0xa0 + of_nat n,
     entry P (makeLog n) 0 (Some (makeGasLog (of_nat n))) (n + 2) 0 (Some memoryLog))) [0..<5]"

definition undefined_entry :: "prices \<Rightarrow> 's vm_operation" where
  "undefined_entry P =
     \<lparr>execute = opUndefined, constantGas = 0, dynamicGas = None, min_stack = 0,
      max_stack = maxStack P 0 0, memorySize = None\<rparr>"

definition frontier_entries :: "prices \<Rightarrow> (byte \<times> 's vm_operation) list" where
  "frontier_entries P =
     basic_entries P @ push_entries P @ dup_entries P @ swap_entries P @ log_entries P"

definition newFrontierInstructionSet :: "prices \<Rightarrow> 's jump_table" where
  "newFrontierInstructionSet P b =
     (case map_of (frontier_entries P) b of None \<Rightarrow> undefined_entry P | Some op \<Rightarrow> op)"

section \<open>Later rules\<close>

definition set_constant :: "byte \<Rightarrow> u64 \<Rightarrow> 's jump_table \<Rightarrow> 's jump_table" where
  "set_constant b c T = T(b := (T b)\<lparr>constantGas := c\<rparr>)"

definition set_dynamic :: "byte \<Rightarrow> 's gas_fn \<Rightarrow> 's jump_table \<Rightarrow> 's jump_table" where
  "set_dynamic b d T = T(b := (T b)\<lparr>dynamicGas := Some d\<rparr>)"

definition newHomesteadInstructionSet :: "prices \<Rightarrow> 's jump_table" where
  "newHomesteadInstructionSet P = (newFrontierInstructionSet P)
     (OP_DELEGATECALL := entry P opDelegateCall (P CallGasFrontier) (Some gasDelegateCall) 6 1 (Some memoryDelegateCall))"

definition newTangerineWhistleInstructionSet :: "prices \<Rightarrow> 's jump_table" where
  "newTangerineWhistleInstructionSet P =
     (set_constant OP_DELEGATECALL (P CallGasEIP150) \<circ>
      set_constant OP_CALLCODE (P CallGasEIP150) \<circ>
      set_constant OP_CALL (P CallGasEIP150) \<circ>
      set_constant OP_EXTCODECOPY (P ExtcodeCopyBaseEIP150) \<circ>
      set_constant OP_SLOAD (P SloadGasEIP150) \<circ>
      set_constant OP_EXTCODESIZE (P ExtcodeSizeGasEIP150) \<circ>
      set_constant OP_BALANCE (P BalanceGasEIP150)) (newHomesteadInstructionSet P)"

definition newSpuriousDragonInstructionSet :: "prices \<Rightarrow> 's jump_table" where
  "newSpuriousDragonInstructionSet P =
     set_dynamic OP_EXP gasExpEIP158 (newTangerineWhistleInstructionSet P)"

definition newByzantiumInstructionSet :: "prices \<Rightarrow> 's jump_table" where
  "newByzantiumInstructionSet P = (newSpuriousDragonInstructionSet P)
     (OP_STATICCALL := entry P opStaticCall (P CallGasEIP150) (Some gasStaticCall) 6 1 (Some memoryStaticCall),
      OP_RETURNDATASIZE := entry P opReturnDataSize GasQuickStep None 0 1 None,
      OP_RETURNDATACOPY := entry P opReturnDataCopy GasFastestStep (Some gasReturnDataCopy) 3 0 (Some memoryReturnDataCopy),
      OP_REVERT := entry P opRevert 0 (Some pureMemoryGascost) 2 0 (Some memoryRevert))"

definition newConstantinopleInstructionSet :: "prices \<Rightarrow> 's jump_table" where
  "newConstantinopleInstructionSet P = (newByzantiumInstructionSet P)
     (OP_SHL := entry P opSHL GasFastestStep None 2 1 None,
      OP_SHR := entry P opSHR GasFastestStep None 2 1 None,
      OP_SAR := entry P opSAR GasFastestStep None 2 1 None,
      OP_EXTCODEHASH := entry P opExtCodeHash (P ExtcodeHashGasConstantinople) None 1 1 None,
      OP_CREATE2 := entry P opCreate2 (P Create2Gas) (Some gasCreate2) 4 1 (Some memoryCreate2))"

definition enable1344 :: "prices \<Rightarrow> 's jump_table \<Rightarrow> 's jump_table" where
  "enable1344 P T = T(OP_CHAINID := entry P opChainID GasQuickStep None 0 1 None)"

definition enable1884 :: "prices \<Rightarrow> 's jump_table \<Rightarrow> 's jump_table" where
  "enable1884 P T =
     ((set_constant OP_EXTCODEHASH (P ExtcodeHashGasEIP1884) \<circ>
       set_constant OP_BALANCE (P BalanceGasEIP1884) \<circ>
       set_constant OP_SLOAD (P SloadGasEIP1884)) T)
     (OP_SELFBALANCE := entry P opSelfBalance GasFastStep None 0 1 None)"

definition enable2200 :: "prices \<Rightarrow> 's jump_table \<Rightarrow> 's jump_table" where
  "enable2200 P T =
     set_dynamic OP_SSTORE gasSStoreEIP2200 (set_constant OP_SLOAD (P SloadGasEIP2200) T)"

definition reprice :: "byte \<Rightarrow> u64 \<Rightarrow> 's gas_fn \<Rightarrow> 's jump_table \<Rightarrow> 's jump_table" where
  "reprice b c d T = set_dynamic b d (set_constant b c T)"

definition enable2929 :: "prices \<Rightarrow> 's jump_table \<Rightarrow> 's jump_table" where
  "enable2929 P T =
     (reprice OP_SELFDESTRUCT (P SelfdestructGasEIP150) gasSelfdestructEIP2929 \<circ>
      reprice OP_DELEGATECALL (P WarmStorageReadCostEIP2929) gasDelegateCallEIP2929 \<circ>
      reprice OP_STATICCALL (P WarmStorageReadCostEIP2929) gasStaticCallEIP2929 \<circ>
      reprice OP_CALLCODE (P WarmStorageReadCostEIP2929) gasCallCodeEIP2929 \<circ>
      reprice OP_CALL (P WarmStorageReadCostEIP2929) gasCallEIP2929 \<circ>
      reprice OP_BALANCE (P WarmStorageReadCostEIP2929) gasEip2929AccountCheck \<circ>
      reprice OP_EXTCODEHASH (P WarmStorageReadCostEIP2929) gasEip2929AccountCheck \<circ>
      reprice OP_EXTCODESIZE (P WarmStorageReadCostEIP2929) gasEip2929AccountCheck \<circ>
      reprice OP_EXTCODECOPY (P WarmStorageReadCostEIP2929) gasExtCodeCopyEIP2929 \<circ>
      reprice OP_SLOAD 0 gasSLoadEIP2929 \<circ>
      set_dynamic OP_SSTORE gasSStoreEIP2929) T"

definition enable3198 :: "prices \<Rightarrow> 's jump_table \<Rightarrow> 's jump_table" where
  "enable3198 P T = T(OP_BASEFEE := entry P opBaseFee GasQuickStep None 0 1 None)"

definition enable3529 :: "prices \<Rightarrow> 's jump_table \<Rightarrow> 's jump_table" where
  "enable3529 P T =
     set_dynamic OP_SELFDESTRUCT gasSelfdestructEIP3529 (set_dynamic OP_SSTORE gasSStoreEIP3529 T)"

definition newIstanbulInstructionSet :: "prices \<Rightarrow> 's jump_table" where
  "newIstanbulInstructionSet P =
     enable2200 P (enable1884 P (enable1344 P (newConstantinopleInstructionSet P)))"

definition newBerlinInstructionSet :: "prices \<Rightarrow> 's jump_table" where
  "newBerlinInstructionSet P = enable2929 P (newIstanbulInstructionSet P)"

definition newLondonInstructionSet :: "prices \<Rightarrow> 's jump_table" where
  "newLondonInstructionSet P = enable3198 P (enable3529 P (newBerlinInstructionSet P))"

definition newMergeInstructionSet :: "prices \<Rightarrow> 's jump_table" where
  "newMergeInstructionSet P = (newLondonInstructionSet P)
     (OP_RANDOM := entry P opRandom GasQuickStep None 0 1 None)"

text \<open>\<open>EnableEIP\<close>: the table after one more change, or nothing for an unknown number.\<close>

definition activators :: "(nat \<times> (prices \<Rightarrow> 's jump_table \<Rightarrow> 's jump_table)) list" where
  "activators = [(3529, enable3529), (3198, enable3198), (2929, enable2929), (2200, enable2200),
     (1884, enable1884), (1344, enable1344)]"

definition EnableEIP :: "prices \<Rightarrow> nat \<Rightarrow> 's jump_table \<Rightarrow> 's jump_table option" where
  "EnableEIP P eipNum T = map_option (\<lambda>enable. enable P T) (map_of activators eipNum)"

definition ValidEip :: "nat \<Rightarrow> bool" where
  "ValidEip eipNum \<longleftrightarrow> map_of (activators :: (nat \<times> (prices \<Rightarrow> unit jump_table \<Rightarrow> unit jump_table)) list) eipNum \<noteq> None"

text \<open>The check that every table passes when the program starts.\<close>

definition validate_op :: "'s vm_operation \<Rightarrow> bool" where
  "validate_op op \<longleftrightarrow> (memorySize op \<noteq> None \<longrightarrow> dynamicGas op \<noteq> None)"

text \<open>\<open>NewEVMInterpreter\<close> takes the newest table the rules allow.\<close>

definition base_table :: "'s env \<Rightarrow> 's jump_table" where
  "base_table E = (let r = chainRules E; P = prc E in
     if IsMerge r then newMergeInstructionSet P
     else if IsLondon r then newLondonInstructionSet P
     else if IsBerlin r then newBerlinInstructionSet P
     else if IsIstanbul r then newIstanbulInstructionSet P
     else if IsConstantinople r then newConstantinopleInstructionSet P
     else if IsByzantium r then newByzantiumInstructionSet P
     else if IsEIP158 r then newSpuriousDragonInstructionSet P
     else if IsEIP150 r then newTangerineWhistleInstructionSet P
     else if IsHomestead r then newHomesteadInstructionSet P
     else newFrontierInstructionSet P)"

text \<open>
  It then enables the extra numbers of the configuration. The loop ranges over the slice it started
  with and removes a number it does not know from the same array, so later numbers move while the
  loop goes on: \<open>m\<close> is the length of the shortened slice, \<open>None\<close> a slice bound out of range.
\<close>

fun extra_eips :: "prices \<Rightarrow> nat \<Rightarrow> nat \<Rightarrow> nat list \<Rightarrow> nat \<Rightarrow> 's jump_table \<Rightarrow> 's jump_table option" where
  "extra_eips P 0 i eips m T = Some T"
| "extra_eips P (Suc k) i eips m T =
     (case EnableEIP P (eips ! i) T of
        Some T' \<Rightarrow> extra_eips P k (i + 1) eips m T'
      | None \<Rightarrow>
          if i + 1 > m then None
          else extra_eips P k (i + 1) (take i eips @ drop (i + 1) (take m eips) @ drop (m - 1) eips) (m - 1) T)"

definition NewEVMInterpreter :: "'s env \<Rightarrow> nat list \<Rightarrow> 's jump_table option" where
  "NewEVMInterpreter E eips = extra_eips (prc E) (length eips) 0 eips (length eips) (base_table E)"

lemma EnableEIP_unknown: "\<not> ValidEip n \<Longrightarrow> EnableEIP P n T = None"
  by (auto simp: EnableEIP_def ValidEip_def activators_def split: if_splits)

text \<open>
  Two numbers that are not known among the extra EIPs of a configuration end the construction of
  the interpreter in a panic: removing the first shortens the slice below the index the loop reaches.
\<close>

theorem two_unknown_eips_panic:
  assumes "\<not> ValidEip a" and "\<not> ValidEip b"
  shows "NewEVMInterpreter E [a, b] = None"
  using assms by (simp add: NewEVMInterpreter_def EnableEIP_unknown numeral_2_eq_2)

theorem two_unknown_eips_panic_witness:
  "\<not> ValidEip 1 \<and> \<not> ValidEip 2 \<and> (\<forall>E :: unit env. NewEVMInterpreter E [1, 2] = None)"
proof -
  have "\<not> ValidEip 1" "\<not> ValidEip 2" by (simp_all add: ValidEip_def activators_def)
  then show ?thesis using two_unknown_eips_panic by blast
qed

end
