(* ===== verification/EvmRun.thy ===== *)
theory EvmRun
  imports EvmTable
begin

text \<open>
  The interpreter of src/pkg/vm/interpreter.go. One turn of its loop charges the constant price, the
  dynamic price and the memory of an instruction and executes it. The loop is by fuel; nested calls
  take their fuel from the same number. Tracing is left out.
\<close>

definition required_memory :: "'s vm_operation \<Rightarrow> 's frame \<Rightarrow> (u64 \<times> bool) option" where
  "required_memory op f = (case memorySize op of
     None \<Rightarrow> Some (0, False)
   | Some need \<Rightarrow> Option.bind (need (stk f)) (\<lambda>(memSize, overflow).
       if overflow then Some (0, True) else Some (SafeMul (toWordSize memSize) 32)))"

text \<open>Everything of a turn before the execution; \<open>Next\<close> is the frame that is charged.\<close>

definition charge_dynamic :: "'s env \<Rightarrow> 's vm_operation \<Rightarrow> 's gas_fn \<Rightarrow> 's frame \<Rightarrow> 's outcome" where
  "charge_dynamic E op dyn f = (case required_memory op f of
     None \<Rightarrow> VmPanic ''index out of range''
   | Some (sz, overflow) \<Rightarrow>
       if overflow then Halt (Some ErrGasUintOverflow) [] f
       else (case dyn E sz f of
         GasPanic s \<Rightarrow> VmPanic s
       | GasErr _ f \<Rightarrow> Halt (Some ErrOutOfGas) [] f
       | Cost c f \<Rightarrow> (case UseGas c f of
           None \<Rightarrow> Halt (Some ErrOutOfGas) [] f
         | Some f \<Rightarrow> Next (if sz > 0 then f\<lparr>mstore := mem_Resize sz (mstore f)\<rparr> else f))))"

definition charge :: "'s env \<Rightarrow> 's vm_operation \<Rightarrow> 's frame \<Rightarrow> 's outcome" where
  "charge E op f =
     (if length (stk f) < min_stack op
      then Halt (Some (ErrStackUnderflow (length (stk f)) (min_stack op))) [] f
      else if int (length (stk f)) > max_stack op
      then Halt (Some (ErrStackOverflow (length (stk f)) (nat (max_stack op)))) [] f
      else case UseGas (constantGas op) f of
        None \<Rightarrow> Halt (Some ErrOutOfGas) [] f
      | Some f \<Rightarrow> (case dynamicGas op of
          None \<Rightarrow> Next f
        | Some dyn \<Rightarrow> charge_dynamic E op dyn f))"

definition and_then :: "'s outcome \<Rightarrow> ('s frame \<Rightarrow> 's outcome) \<Rightarrow> 's outcome" where
  "and_then m k = (case m of Next f \<Rightarrow> k f | r \<Rightarrow> r)"

definition step :: "'s env \<Rightarrow> 's jump_table \<Rightarrow> 's runner \<Rightarrow> 's frame \<Rightarrow> 's outcome" where
  "step E T run f =
     (let op = T (GetOp (ctr f) (pc f)) in
      and_then (charge E op f) (\<lambda>f.
      and_then (execute op E run f) (\<lambda>f. Next (f\<lparr>pc := pc f + 1\<rparr>))))"

definition new_frame :: "contract \<Rightarrow> bytes \<Rightarrow> 's evm \<Rightarrow> 's frame" where
  "new_frame c inp e =
     \<lparr>pc = 0, stk = [], mstore = [], lastGasCost = 0, gas = cgas c, ctr = c, input = inp, vm = e\<rparr>"

text \<open>\<open>Run\<close> around the loop: the depth, the read-only flag and the return data.\<close>

definition leave :: "bool \<Rightarrow> 's evm \<Rightarrow> 's evm" where
  "leave outermost_readonly e =
     (let e = e\<lparr>depth := depth e - 1\<rparr> in if outermost_readonly then e\<lparr>readOnly := False\<rparr> else e)"

definition run_with ::
    "('s frame \<Rightarrow> 's outcome) \<Rightarrow> contract \<Rightarrow> bytes \<Rightarrow> bool \<Rightarrow> 's evm \<Rightarrow> 's run_result" where
  "run_with go c inp ro e =
     (let first = (ro \<and> \<not> readOnly e);
          e = e\<lparr>depth := depth e + 1, readOnly := readOnly e \<or> ro, returnData := []\<rparr> in
      if Code c = [] then Ran None [] (cgas c) (leave first e)
      else case go (new_frame c inp e) of
        Halt err ret f \<Rightarrow> Ran err ret (gas f) (leave first (vm f))
      | VmPanic s \<Rightarrow> RunPanic s
      | _ \<Rightarrow> RunNoFuel)"

primrec loop :: "'s env \<Rightarrow> 's jump_table \<Rightarrow> nat \<Rightarrow> 's frame \<Rightarrow> 's outcome" where
  "loop E T 0 f = NoFuel"
| "loop E T (Suc n) f =
     (case step E T (run_with (loop E T n)) f of
        Next f \<Rightarrow> loop E T n f
      | r \<Rightarrow> r)"

definition Run :: "'s env \<Rightarrow> 's jump_table \<Rightarrow> nat \<Rightarrow> 's runner" where
  "Run E T fuel = run_with (loop E T fuel)"

end
