(* ===== verification/EvmExec.thy ===== *)
theory EvmExec
  imports EvmRun
begin

text \<open>
  Execution of single instructions: each one, started with the items and the memory its table entry
  asks for, keeps the gas, the size of the memory and the contract, and panics for no reason of its
  own. What is left are the panics of the database, of native and precompiled contracts and of the
  access list, and of a block hash function that was not given.
\<close>

definition host_panic :: "string \<Rightarrow> bool" where
  "host_panic s \<longleftrightarrow> s = ''state database'' \<or> s = ''native contract'' \<or> s = ''precompiled contract'' \<or> s = ''nil GetHash''
     \<or> s = ''impossible case: address was not present in access list during sstore op''"

text \<open>A slice has fewer than \<open>2 ^ 63\<close> items; memory is bounded by its price.\<close>

abbreviation slice_bound :: nat where "slice_bound \<equiv> 2 ^ 63"
abbreviation memory_bound :: nat where "memory_bound \<equiv> 0x1FFFFFFFE0"

definition small_code :: "'s env \<Rightarrow> bool" where
  "small_code E \<longleftrightarrow> (\<forall>s a c. db_GetCode (DB E) s a = Some c \<longrightarrow> length c < slice_bound)"

definition kept :: "'s frame \<Rightarrow> 's frame \<Rightarrow> bool" where
  "kept f f' \<longleftrightarrow> gas f' = gas f \<and> length (mstore f') = length (mstore f)
     \<and> lastGasCost f' = lastGasCost f \<and> ctr f' = ctr f \<and> input f' = input f"

text \<open>\<open>cont\<close> tells whether the instruction may continue.\<close>

fun quiet :: "bool \<Rightarrow> 's frame \<Rightarrow> 's outcome \<Rightarrow> bool" where
  "quiet cont f (Next f') \<longleftrightarrow> cont \<and> kept f f'"
| "quiet cont f (Halt err ret f') \<longleftrightarrow> gas f' = gas f"
| "quiet cont f (VmPanic s) \<longleftrightarrow> host_panic s"
| "quiet cont f NoFuel \<longleftrightarrow> False"

definition covered :: "memory_fn option \<Rightarrow> 's frame \<Rightarrow> bool" where
  "covered need f \<longleftrightarrow> (case need of None \<Rightarrow> True
     | Some m \<Rightarrow> \<exists>s. m (stk f) = Some (s, False) \<and> unat s \<le> length (mstore f))"

definition sized :: "'s frame \<Rightarrow> bool" where
  "sized f \<longleftrightarrow> length (mstore f) \<le> memory_bound \<and> length (Code (ctr f)) < slice_bound
     \<and> length (input f) < slice_bound"

definition exec_ok :: "bool \<Rightarrow> 's env \<Rightarrow> nat \<Rightarrow> memory_fn option \<Rightarrow> 's exec_fn \<Rightarrow> bool" where
  "exec_ok cont E pops need ex \<longleftrightarrow> (\<forall>run f. pops \<le> length (stk f) \<longrightarrow> sized f \<longrightarrow> covered need f
     \<longrightarrow> quiet cont f (ex E run f))"

lemma exec_okI:
  "(\<And>run f. pops \<le> length (stk f) \<Longrightarrow> sized f \<Longrightarrow> covered need f \<Longrightarrow> quiet cont f (ex E run f))
   \<Longrightarrow> exec_ok cont E pops need ex"
  by (simp add: exec_ok_def)

section \<open>Stacks and slices\<close>

lemma exec1:
  assumes "\<And>run f a r. stk f = a # r \<Longrightarrow> sized f \<Longrightarrow> covered need f \<Longrightarrow> quiet cont f (ex E run f)"
  shows "exec_ok cont E 1 need ex"
  by (rule exec_okI) (auto simp: numeral_eq_Suc Suc_le_length_iff intro: assms)

lemma exec2:
  assumes "\<And>run f a b r. stk f = a # b # r \<Longrightarrow> sized f \<Longrightarrow> covered need f \<Longrightarrow> quiet cont f (ex E run f)"
  shows "exec_ok cont E 2 need ex"
  by (rule exec_okI) (auto simp: numeral_eq_Suc Suc_le_length_iff intro: assms)

lemma exec3:
  assumes "\<And>run f a b c r. stk f = a # b # c # r \<Longrightarrow> sized f \<Longrightarrow> covered need f \<Longrightarrow> quiet cont f (ex E run f)"
  shows "exec_ok cont E 3 need ex"
  by (rule exec_okI) (auto simp: numeral_eq_Suc Suc_le_length_iff intro: assms)

lemma exec4:
  assumes "\<And>run f a b c d r. stk f = a # b # c # d # r \<Longrightarrow> sized f \<Longrightarrow> covered need f \<Longrightarrow> quiet cont f (ex E run f)"
  shows "exec_ok cont E 4 need ex"
  by (rule exec_okI) (auto simp: numeral_eq_Suc Suc_le_length_iff intro: assms)

lemma exec6:
  assumes "\<And>run f a b c d e g r. stk f = a # b # c # d # e # g # r \<Longrightarrow> sized f \<Longrightarrow> covered need f \<Longrightarrow> quiet cont f (ex E run f)"
  shows "exec_ok cont E 6 need ex"
  by (rule exec_okI) (auto simp: numeral_eq_Suc Suc_le_length_iff intro: assms)

lemma exec7:
  assumes "\<And>run f a b c d e g h r. stk f = a # b # c # d # e # g # h # r \<Longrightarrow> sized f \<Longrightarrow> covered need f \<Longrightarrow> quiet cont f (ex E run f)"
  shows "exec_ok cont E 7 need ex"
  by (rule exec_okI) (auto simp: numeral_eq_Suc Suc_le_length_iff intro: assms)

lemma pop_Cons [simp]: "stk f = x # st \<Longrightarrow> pop f k = k x (f\<lparr>stk := st\<rparr>)"
  by (simp add: pop_def)

lemma quiet_ask: "(\<And>x. r = Some x \<Longrightarrow> quiet cont f (k x)) \<Longrightarrow> quiet cont f (ask r k)"
  by (cases r) (simp_all add: ask_def host_panic_def)

lemma quiet_upd: "(\<And>s. r = Some s \<Longrightarrow> quiet cont f (k (set_db s f'))) \<Longrightarrow> quiet cont f (upd r f' k)"
  by (simp add: upd_def quiet_ask)

lemma kept_simps [simp]:
  "kept f f" "kept f (push x f') = kept f f'" "kept f (f'\<lparr>stk := st\<rparr>) = kept f f'"
  "kept f (set_db s f') = kept f f'" "kept f (f'\<lparr>pc := p\<rparr>) = kept f f'"
  "kept f (set_returnData b f') = kept f f'"
  "length m = length (mstore f') \<Longrightarrow> kept f (f'\<lparr>mstore := m\<rparr>) = kept f f'"
  by (simp_all add: kept_def push_def set_db_def set_returnData_def)

lemma uint64_unat: "IsUint64 x \<Longrightarrow> unat (Uint64 x) = unat x"
  by (simp add: IsUint64_def Uint64_def unsigned_ucast_eq take_bit_nat_eq_self word_le_nat_alt)

text \<open>The bytes that the size of the memory accounts for.\<close>

lemma calcMemSize64_covers:
  assumes "calcMemSize64 off l = (s, False)"
  shows "Uint64 l = 0 \<and> IsUint64 l \<or>
    IsUint64 off \<and> IsUint64 l \<and> unat s = unat (Uint64 off) + unat (Uint64 l)"
proof -
  have l: "IsUint64 l" using assms by (auto simp: calcMemSize64_def split: if_splits)
  show ?thesis
  proof (cases "Uint64 l = 0")
    case False
    then have off: "IsUint64 off" and v: "s = Uint64 off + Uint64 l" "\<not> s < Uint64 off"
      using assms l by (auto simp: calcMemSize64_def calcMemSize64WithUint_def Let_def split: if_splits)
    then have "unat s = unat (Uint64 off) + unat (Uint64 l)"
      by (metis not_less unat_plus_simple)
    then show ?thesis using l off by blast
  qed (use l in simp)
qed


lemma exec0:
  "(\<And>run f. sized f \<Longrightarrow> covered need f \<Longrightarrow> quiet cont f (ex E run f)) \<Longrightarrow> exec_ok cont E 0 need ex"
  by (rule exec_okI)

lemmas mem_simps = covered_def mem2_def mem1_def Back_def
  memoryKeccak256_def memoryCallDataCopy_def memoryReturnDataCopy_def memoryCodeCopy_def
  memoryExtCodeCopy_def memoryMLoad_def memoryMStore8_def memoryMStore_def memoryCreate_def
  memoryCreate2_def memoryReturn_def memoryRevert_def memoryLog_def memoryCall_def
  memoryDelegateCall_def memoryStaticCall_def

lemma sint_small: "unat (x :: u64) < 2 ^ 63 \<Longrightarrow> sint x = int (unat x)"
proof -
  assume "unat x < 2 ^ 63"
  then have "uint x < 2 ^ 63" by (metis nat_less_iff of_nat_numeral of_nat_power uint_nonnegative unat_eq_nat_uint zless_nat_eq_int_zless)
  then show ?thesis by (simp add: sint_uint signed_take_bit_int_eq_self order_trans [OF _ uint_nonnegative])
qed

lemma GetPtr_ok:
  assumes "calcMemSize64 off l = (s, False)" and "unat s \<le> length m" and "length m \<le> memory_bound"
  shows "\<exists>b. GetPtr (Uint64 off) (Uint64 l) m = Some b \<and> length b \<le> memory_bound"
proof (cases "Uint64 l = 0")
  case False
  then have s: "unat (Uint64 off) + unat (Uint64 l) \<le> length m"
    using calcMemSize64_covers [OF assms(1)] assms(2) by auto
  moreover have "0 < unat (Uint64 l)" using False by (simp add: unat_gt_0)
  moreover have "int (unat (Uint64 off)) + int (unat (Uint64 l)) \<le> int (length m)" using s by linarith
  moreover have "sint (Uint64 off) = int (unat (Uint64 off))" "sint (Uint64 l) = int (unat (Uint64 l))"
    by (rule sint_small, use s assms(3) in simp)+
  moreover have "length (take i (drop j m)) \<le> memory_bound" for i j
    by (rule order_trans [OF _ assms(3)]) simp
  ultimately show ?thesis using False by (simp add: GetPtr_def del: length_take length_drop)
qed (simp add: GetPtr_def)

lemma quiet_with_slice:
  assumes "calcMemSize64 off l = (s, False)" and "unat s \<le> length (mstore f')"
    and "length (mstore f') \<le> memory_bound"
    and "\<And>b. length b \<le> memory_bound \<Longrightarrow> quiet cont f (k b)"
  shows "quiet cont f (with_slice off l f' k)"
  using GetPtr_ok [OF assms(1-3)] assms(4) by (auto simp: with_slice_def)

lemma mem_Set_ok:
  assumes "calcMemSize64 off l = (s, False)" and "unat s \<le> length m" and "length m \<le> memory_bound"
  shows "\<exists>m'. mem_Set (Uint64 off) (Uint64 l) v m = Some m' \<and> length m' = length m"
proof (cases "Uint64 l = 0")
  case False
  then have u: "unat (Uint64 off) + unat (Uint64 l) \<le> length m"
    using calcMemSize64_covers [OF assms(1)] assms(2) by auto
  then have e: "unat (Uint64 off + Uint64 l) = unat (Uint64 off) + unat (Uint64 l)"
    using assms(3) by (intro unat_add_lem [THEN iffD1]) simp
  have "unat (of_nat (length m) :: u64) = length m"
    using assms(3) by (simp add: unat_of_nat)
  with u e have "\<not> Uint64 off + Uint64 l > of_nat (length m)" "\<not> Uint64 off > Uint64 off + Uint64 l"
    by (simp_all add: word_less_nat_alt)
  then show ?thesis using False u by (simp add: mem_Set_def Let_def)
qed (simp add: mem_Set_def)

lemma quiet_write_mem:
  assumes "calcMemSize64 off l = (s, False)" and "unat s \<le> length (mstore f')"
    and "length (mstore f') \<le> memory_bound"
    and "\<And>m. length m = length (mstore f') \<Longrightarrow> quiet cont f (k (f'\<lparr>mstore := m\<rparr>))"
  shows "quiet cont f (write_mem off l v f' k)"
  using mem_Set_ok [OF assms(1-3), of v] assms(4) by (auto simp: write_mem_def)

lemma getData_ok:
  assumes "length dat < slice_bound" and "unat sz \<le> memory_bound"
  shows "\<exists>d. getData dat start sz = Some d"
proof -
  define len s where "len = (of_nat (length dat) :: u64)" and "s = (if start > len then len else start)"
  have "unat len = length dat" using assms(1) by (simp add: len_def unat_of_nat)
  then have s: "s \<le> len" "unat s < slice_bound" using assms(1) by (auto simp: s_def word_le_nat_alt not_less)
  then have "unat (s + sz) = unat s + unat sz"
    using assms(2) by (intro unat_add_lem [THEN iffD1]) simp
  then have "s \<le> s + sz" by (simp add: word_le_nat_alt)
  then have "\<not> (if s + sz > len then len else s + sz) < s" using s by auto
  then show ?thesis unfolding getData_def Let_def len_def [symmetric] s_def [symmetric] by auto
qed

lemma quiet_slice_data:
  assumes "length dat < slice_bound" and "unat sz \<le> memory_bound" and "\<And>d. quiet cont f (k d)"
  shows "quiet cont f (slice_data dat start sz k)"
  using getData_ok [OF assms(1,2), of start] assms(3) by (auto simp: slice_data_def)

lemma covered_length:
  assumes "calcMemSize64 off l = (s, False)" and "unat s \<le> length m" and "length m \<le> memory_bound"
  shows "unat (Uint64 l) \<le> memory_bound"
  using calcMemSize64_covers [OF assms(1)] assms(2,3) by auto

lemma quiet_copy_data:
  assumes "calcMemSize64 off l = (s, False)" and "unat s \<le> length (mstore f')"
    and "length (mstore f') \<le> memory_bound" and "length dat < slice_bound" and "kept f f'"
  shows "quiet True f (copy_data dat off x l f')"
  unfolding copy_data_def
  by (intro quiet_slice_data quiet_write_mem [OF assms(1-3)] assms(4)
      covered_length [OF assms(1-3)]) (simp add: assms(5))

lemma quiet_jump_to: "kept f f' \<Longrightarrow> quiet True f (jump_to pos f')"
  by (auto simp: jump_to_def validJumpdest_eq kept_def)

section \<open>The instructions\<close>

lemma binop_ok: "(\<And>run f. ex E run f = binop h f) \<Longrightarrow> exec_ok True E 2 None ex"
  by (rule exec2) (simp add: binop_def)

lemma unop_ok: "(\<And>run f. ex E run f = unop h f) \<Longrightarrow> exec_ok True E 1 None ex"
  by (rule exec1) (simp add: unop_def)

lemma get_ok: "(\<And>run f. ex E run f = Next (push (h f) f)) \<Longrightarrow> exec_ok True E 0 None ex"
  by (rule exec0) simp

lemmas exec_okD = exec_ok_def [THEN iffD1, rule_format]

named_theorems exec_rules

lemma opAdd_ok [exec_rules]: "exec_ok True E 2 None opAdd"
  by (rule binop_ok, rule opAdd_def)

lemma opSub_ok [exec_rules]: "exec_ok True E 2 None opSub"
  by (rule binop_ok, rule opSub_def)

lemma opMul_ok [exec_rules]: "exec_ok True E 2 None opMul"
  by (rule binop_ok, rule opMul_def)

lemma opDiv_ok [exec_rules]: "exec_ok True E 2 None opDiv"
  by (rule binop_ok, rule opDiv_def)

lemma opSdiv_ok [exec_rules]: "exec_ok True E 2 None opSdiv"
  by (rule binop_ok, rule opSdiv_def)

lemma opMod_ok [exec_rules]: "exec_ok True E 2 None opMod"
  by (rule binop_ok, rule opMod_def)

lemma opSmod_ok [exec_rules]: "exec_ok True E 2 None opSmod"
  by (rule binop_ok, rule opSmod_def)

lemma opExp_ok [exec_rules]: "exec_ok True E 2 None opExp"
  by (rule binop_ok, rule opExp_def)

lemma opSignExtend_ok [exec_rules]: "exec_ok True E 2 None opSignExtend"
  by (rule binop_ok, rule opSignExtend_def)

lemma opLt_ok [exec_rules]: "exec_ok True E 2 None opLt"
  by (rule binop_ok, rule opLt_def)

lemma opGt_ok [exec_rules]: "exec_ok True E 2 None opGt"
  by (rule binop_ok, rule opGt_def)

lemma opSlt_ok [exec_rules]: "exec_ok True E 2 None opSlt"
  by (rule binop_ok, rule opSlt_def)

lemma opSgt_ok [exec_rules]: "exec_ok True E 2 None opSgt"
  by (rule binop_ok, rule opSgt_def)

lemma opEq_ok [exec_rules]: "exec_ok True E 2 None opEq"
  by (rule binop_ok, rule opEq_def)

lemma opAnd_ok [exec_rules]: "exec_ok True E 2 None opAnd"
  by (rule binop_ok, rule opAnd_def)

lemma opOr_ok [exec_rules]: "exec_ok True E 2 None opOr"
  by (rule binop_ok, rule opOr_def)

lemma opXor_ok [exec_rules]: "exec_ok True E 2 None opXor"
  by (rule binop_ok, rule opXor_def)

lemma opByte_ok [exec_rules]: "exec_ok True E 2 None opByte"
  by (rule binop_ok, rule opByte_def)

lemma opSHL_ok [exec_rules]: "exec_ok True E 2 None opSHL"
  by (rule binop_ok, rule opSHL_def)

lemma opSHR_ok [exec_rules]: "exec_ok True E 2 None opSHR"
  by (rule binop_ok, rule opSHR_def)

lemma opSAR_ok [exec_rules]: "exec_ok True E 2 None opSAR"
  by (rule binop_ok, rule opSAR_def)

lemma opNot_ok [exec_rules]: "exec_ok True E 1 None opNot"
  by (rule unop_ok, rule opNot_def)

lemma opIszero_ok [exec_rules]: "exec_ok True E 1 None opIszero"
  by (rule unop_ok, rule opIszero_def)

lemma opAddress_ok [exec_rules]: "exec_ok True E 0 None opAddress"
  by (rule get_ok, rule opAddress_def)

lemma opOrigin_ok [exec_rules]: "exec_ok True E 0 None opOrigin"
  by (rule get_ok, rule opOrigin_def)

lemma opCaller_ok [exec_rules]: "exec_ok True E 0 None opCaller"
  by (rule get_ok, rule opCaller_def)

lemma opCallValue_ok [exec_rules]: "exec_ok True E 0 None opCallValue"
  by (rule get_ok, rule opCallValue_def)

lemma opCallDataSize_ok [exec_rules]: "exec_ok True E 0 None opCallDataSize"
  by (rule get_ok, rule opCallDataSize_def)

lemma opReturnDataSize_ok [exec_rules]: "exec_ok True E 0 None opReturnDataSize"
  by (rule get_ok, rule opReturnDataSize_def)

lemma opCodeSize_ok [exec_rules]: "exec_ok True E 0 None opCodeSize"
  by (rule get_ok, rule opCodeSize_def)

lemma opGasprice_ok [exec_rules]: "exec_ok True E 0 None opGasprice"
  by (rule get_ok, rule opGasprice_def)

lemma opCoinbase_ok [exec_rules]: "exec_ok True E 0 None opCoinbase"
  by (rule get_ok, rule opCoinbase_def)

lemma opTimestamp_ok [exec_rules]: "exec_ok True E 0 None opTimestamp"
  by (rule get_ok, rule opTimestamp_def)

lemma opNumber_ok [exec_rules]: "exec_ok True E 0 None opNumber"
  by (rule get_ok, rule opNumber_def)

lemma opDifficulty_ok [exec_rules]: "exec_ok True E 0 None opDifficulty"
  by (rule get_ok, rule opDifficulty_def)

lemma opRandom_ok [exec_rules]: "exec_ok True E 0 None opRandom"
  by (rule get_ok, rule opRandom_def)

lemma opGasLimit_ok [exec_rules]: "exec_ok True E 0 None opGasLimit"
  by (rule get_ok, rule opGasLimit_def)

lemma opChainID_ok [exec_rules]: "exec_ok True E 0 None opChainID"
  by (rule get_ok, rule opChainID_def)

lemma opBaseFee_ok [exec_rules]: "exec_ok True E 0 None opBaseFee"
  by (rule get_ok, rule opBaseFee_def)

lemma opPc_ok [exec_rules]: "exec_ok True E 0 None opPc"
  by (rule get_ok, rule opPc_def)

lemma opMsize_ok [exec_rules]: "exec_ok True E 0 None opMsize"
  by (rule get_ok, rule opMsize_def)

lemma opGas_ok [exec_rules]: "exec_ok True E 0 None opGas"
  by (rule get_ok, rule opGas_def)

lemma opAddmod_ok [exec_rules]: "exec_ok True E 3 None opAddmod"
  by (rule exec3) (simp add: opAddmod_def)

lemma opMulmod_ok [exec_rules]: "exec_ok True E 3 None opMulmod"
  by (rule exec3) (simp add: opMulmod_def)

lemma opKeccak256_ok [exec_rules]: "exec_ok True E 2 (Some memoryKeccak256) opKeccak256"
  by (rule exec2) (auto simp: opKeccak256_def sized_def mem_simps Let_def intro!: quiet_with_slice quiet_upd)

lemma opBalance_ok [exec_rules]: "exec_ok True E 1 None opBalance"
  by (rule exec1) (auto simp: opBalance_def intro!: quiet_ask)

lemma opSelfBalance_ok [exec_rules]: "exec_ok True E 0 None opSelfBalance"
  by (rule exec0) (auto simp: opSelfBalance_def intro!: quiet_ask)

lemma opCallDataLoad_ok [exec_rules]: "exec_ok True E 1 None opCallDataLoad"
  by (rule exec1) (auto simp: opCallDataLoad_def sized_def intro!: quiet_slice_data)

lemma opCallDataCopy_ok [exec_rules]: "exec_ok True E 3 (Some memoryCallDataCopy) opCallDataCopy"
  by (rule exec3) (auto simp: opCallDataCopy_def sized_def mem_simps intro!: quiet_copy_data)

lemma opCodeCopy_ok [exec_rules]: "exec_ok True E 3 (Some memoryCodeCopy) opCodeCopy"
  by (rule exec3) (auto simp: opCodeCopy_def sized_def mem_simps intro!: quiet_copy_data)

lemma opExtCodeSize_ok [exec_rules]: "exec_ok True E 1 None opExtCodeSize"
  by (rule exec1) (auto simp: opExtCodeSize_def intro!: quiet_ask)

lemma opExtCodeHash_ok [exec_rules]: "exec_ok True E 1 None opExtCodeHash"
  by (rule exec1) (auto simp: opExtCodeHash_def intro!: quiet_ask)

lemma opBlockhash_ok [exec_rules]: "exec_ok True E 1 None opBlockhash"
  by (rule exec1) (auto simp: opBlockhash_def Let_def host_panic_def split: option.splits)

lemma opPop_ok [exec_rules]: "exec_ok True E 1 None opPop"
  by (rule exec1) (simp add: opPop_def)

lemma opSload_ok [exec_rules]: "exec_ok True E 1 None opSload"
  by (rule exec1) (auto simp: opSload_def intro!: quiet_ask)

lemma opSstore_ok [exec_rules]: "exec_ok True E 2 None opSstore"
  by (rule exec2) (auto simp: opSstore_def intro!: quiet_upd)

lemma opJump_ok [exec_rules]: "exec_ok True E 1 None opJump"
  by (rule exec1) (auto simp: opJump_def intro!: quiet_jump_to)

lemma opJumpi_ok [exec_rules]: "exec_ok True E 2 None opJumpi"
  by (rule exec2) (auto simp: opJumpi_def intro!: quiet_jump_to)

lemma opJumpdest_ok [exec_rules]: "exec_ok True E 0 None opJumpdest"
  by (rule exec0) (simp add: opJumpdest_def)

lemma opPush1_ok [exec_rules]: "exec_ok True E 0 None opPush1"
  by (rule exec0) (simp add: opPush1_def Let_def)

lemma opReturn_ok [exec_rules]: "exec_ok False E 2 (Some memoryReturn) opReturn"
  by (rule exec2) (auto simp: opReturn_def sized_def mem_simps intro!: quiet_with_slice)

lemma opRevert_ok [exec_rules]: "exec_ok False E 2 (Some memoryRevert) opRevert"
  by (rule exec2) (auto simp: opRevert_def sized_def mem_simps set_returnData_def intro!: quiet_with_slice)

lemma opStop_ok [exec_rules]: "exec_ok False E 0 None opStop"
  by (rule exec0) (simp add: opStop_def)

lemma opSelfdestruct_ok [exec_rules]: "exec_ok False E 1 None opSelfdestruct"
  by (rule exec1) (auto simp: opSelfdestruct_def set_db_def intro!: quiet_ask quiet_upd)

lemma opReturnDataCopy_ok [exec_rules]: "exec_ok True E 3 (Some memoryReturnDataCopy) opReturnDataCopy"
proof (rule exec3)
  fix run and f :: "'a frame" and a b c r
  assume st: "stk f = a # b # c # r" and sized: "sized f" and cov: "covered (Some memoryReturnDataCopy) f"
  from cov st obtain s where s: "calcMemSize64 a c = (s, False)" "unat s \<le> length (mstore f)"
    by (auto simp: mem_simps)
  have m: "length (mstore f) \<le> memory_bound" using sized by (simp add: sized_def)
  have "unat c \<le> memory_bound"
    using covered_length [OF s m] calcMemSize64_covers [OF s(1)] uint64_unat [of c] by auto
  then have "\<not> b > b + c" if "IsUint64 b"
  proof -
    have "unat b + unat c < 2 ^ 256" using that \<open>unat c \<le> _\<close>
      by (simp add: IsUint64_def word_le_nat_alt)
    then have "unat (b + c) = unat b + unat c" by (intro unat_add_lem [THEN iffD1]) simp
    then show ?thesis by (simp add: word_less_nat_alt)
  qed
  then show "quiet True f (opReturnDataCopy E run f)"
    using st m by (auto simp: opReturnDataCopy_def Let_def intro!: quiet_write_mem [OF s(1)] s(2))
qed

lemma opExtCodeCopy_ok [exec_rules]:
  "small_code E \<Longrightarrow> exec_ok True E 4 (Some memoryExtCodeCopy) opExtCodeCopy"
  by (rule exec4) (auto simp: opExtCodeCopy_def sized_def mem_simps small_code_def
      intro!: quiet_ask quiet_copy_data)

lemma calc32: "calcMemSize64WithUint off 32 = calcMemSize64 off 32"
  and calc1: "calcMemSize64WithUint off 1 = calcMemSize64 off 1"
  by (simp_all add: calcMemSize64_def IsUint64_def Uint64_def)

lemma opMload_ok [exec_rules]: "exec_ok True E 1 (Some memoryMLoad) opMload"
  by (rule exec1) (auto simp: opMload_def sized_def mem_simps calc32 intro!: quiet_with_slice)

lemma mem_Set32_eq: "mem_Set32 off v m = mem_Set off 32 (Bytes32 v) m"
  by (simp add: mem_Set32_def mem_Set_def Bytes32_def Let_def)

lemma opMstore_ok [exec_rules]: "exec_ok True E 2 (Some memoryMStore) opMstore"
proof (rule exec2)
  fix run and f :: "'a frame" and a b r
  assume st: "stk f = a # b # r" and sized: "sized f" and cov: "covered (Some memoryMStore) f"
  from cov st obtain s where "calcMemSize64 a 32 = (s, False)" "unat s \<le> length (mstore f)"
    by (auto simp: mem_simps calc32)
  from mem_Set_ok [OF this, of "Bytes32 b"] sized
  obtain m' where "mem_Set (Uint64 a) 32 (Bytes32 b) (mstore f) = Some m'" "length m' = length (mstore f)"
    by (auto simp: sized_def Uint64_def)
  then show "quiet True f (opMstore E run f)"
    using st by (simp add: opMstore_def mem_Set32_eq)
qed

lemma opMstore8_ok [exec_rules]: "exec_ok True E 2 (Some memoryMStore8) opMstore8"
proof (rule exec2)
  fix run and f :: "'a frame" and a b r
  assume st: "stk f = a # b # r" and cov: "covered (Some memoryMStore8) f"
  from cov st obtain s where "calcMemSize64 a 1 = (s, False)" "unat s \<le> length (mstore f)"
    by (auto simp: mem_simps calc1)
  with calcMemSize64_covers [OF this(1)] have "unat (Uint64 a) < length (mstore f)"
    by (auto simp: Uint64_def)
  then show "quiet True f (opMstore8 E run f)" using st by (simp add: opMstore8_def)
qed

lemma makePush_ok [exec_rules]: "exec_ok True E 0 None (makePush n)"
  by (rule exec0) (simp add: makePush_def Let_def)

lemma makeDup_ok [exec_rules]: "0 < n \<Longrightarrow> exec_ok True E n None (makeDup n)"
  by (rule exec_okI) (simp add: makeDup_def stack_dup_def Let_def)

lemma makeSwap_ok [exec_rules]: "exec_ok True E (n + 1) None (makeSwap n)"
  by (rule exec_okI) (simp add: makeSwap_def stack_swap_def Let_def)

lemma makeLog_ok [exec_rules]: "exec_ok True E (n + 2) (Some memoryLog) (makeLog n)"
proof (rule exec_okI)
  fix run and f :: "'a frame"
  assume "n + 2 \<le> length (stk f)" and sized: "sized f" and cov: "covered (Some memoryLog) f"
  then obtain a b r where st: "stk f = a # b # r" "n \<le> length r"
    by (auto simp: numeral_eq_Suc Suc_le_length_iff)
  then obtain s where s: "calcMemSize64 a b = (s, False)" "unat s \<le> length (mstore f)"
    using cov by (auto simp: mem_simps)
  show "quiet True f (makeLog n E run f)"
    using st sized s(2) by (auto simp: makeLog_def Let_def sized_def intro!: quiet_with_slice [OF s(1)] quiet_upd)
qed

end
