(* ===== verification/EvmMeter.thy ===== *)
theory EvmMeter
  imports EvmExec
begin

text \<open>
  What the gas functions of the current rules guarantee: they charge what they say without
  wrapping, record the fee of the memory, keep the frame, and a call is charged for all the gas it
  hands over.
\<close>

lemma unat_plus64: "unat a + unat b < 2 ^ 64 \<Longrightarrow> unat (a + b :: u64) = unat a + unat b"
  by (subst unat_add_lem [symmetric]) simp

lemma unat64_less: "unat (x :: u64) < 2 ^ 64"
  using unsigned_less [of x] by simp

section \<open>Prices\<close>

text \<open>
  What is used of the prices of go-ethereum's package params. They are 3, 512, 25000, 9000, 2300,
  2600, 100, 2100, 20000, 5000, 1, 30, 32000, 32000, 375 and 10 there.
\<close>

definition prices_ok :: "prices \<Rightarrow> bool" where
  "prices_ok P \<longleftrightarrow> P MemoryGas \<le> 2 ^ 16 \<and> 2 ^ 9 \<le> P QuadCoeffDiv
     \<and> P CallNewAccountGas \<le> 2 ^ 32 \<and> P CallValueTransferGas \<le> 2 ^ 32
     \<and> P CallStipend \<le> P CallValueTransferGas
     \<and> P ColdAccountAccessCostEIP2929 \<le> 2 ^ 32
     \<and> P WarmStorageReadCostEIP2929 \<le> P ColdAccountAccessCostEIP2929
     \<and> 0 < P WarmStorageReadCostEIP2929
     \<and> 0 < P ColdSloadCostEIP2929 \<and> P ColdSloadCostEIP2929 < P SstoreResetGasEIP2200
     \<and> P SstoreResetGasEIP2200 \<le> 2 ^ 32
     \<and> 0 < P SstoreSetGasEIP2200 \<and> P SstoreSetGasEIP2200 \<le> 2 ^ 32
     \<and> 0 < P JumpdestGas \<and> 0 < P Keccak256Gas \<and> 0 < P CreateGas \<and> 0 < P Create2Gas
     \<and> 0 < P LogGas \<and> 0 < P ExpGas"

section \<open>The fee of the memory\<close>

definition fee :: "prices \<Rightarrow> nat \<Rightarrow> nat" where
  "fee P w = w * unat (P MemoryGas) + w * w div unat (P QuadCoeffDiv)"

definition mem_ok :: "prices \<Rightarrow> 's frame \<Rightarrow> bool" where
  "mem_ok P f \<longleftrightarrow> (\<exists>w \<le> 0xFFFFFFFF. length (mstore f) = 32 * w \<and> unat (lastGasCost f) = fee P w)"

lemma fee_mono: "w \<le> w' \<Longrightarrow> fee P w \<le> fee P w'"
  by (simp add: fee_def add_mono div_le_mono mult_le_mono)

lemma fee_bound:
  assumes "prices_ok P" and "w \<le> 0xFFFFFFFF"
  shows "fee P w \<le> 2 ^ 56"
proof -
  have m: "unat (P MemoryGas) \<le> 2 ^ 16" and q: "2 ^ 9 \<le> unat (P QuadCoeffDiv)"
    using assms(1) by (simp_all add: prices_ok_def word_le_nat_alt)
  have "w * unat (P MemoryGas) \<le> 0xFFFFFFFF * 2 ^ 16" using assms(2) m by (rule mult_le_mono)
  moreover have "w * w \<le> 0xFFFFFFFF * 0xFFFFFFFF" using assms(2) by (intro mult_le_mono)
  then have "w * w div unat (P QuadCoeffDiv) \<le> 0xFFFFFFFF * 0xFFFFFFFF div 2 ^ 9"
    using q by (meson div_le_mono div_le_mono2 order_trans zero_less_numeral zero_less_power)
  ultimately show ?thesis by (simp add: fee_def)
qed

lemma word_fee:
  assumes "prices_ok P" and "unat w \<le> 0xFFFFFFFF"
  shows "unat (w * P MemoryGas + w * w div P QuadCoeffDiv) = fee P (unat w)"
proof -
  have m: "unat (P MemoryGas) \<le> 2 ^ 16" using assms(1) by (simp add: prices_ok_def word_le_nat_alt)
  have "unat w * unat (P MemoryGas) \<le> 0xFFFFFFFF * 2 ^ 16" using assms(2) m by (rule mult_le_mono)
  then have l: "unat (w * P MemoryGas) = unat w * unat (P MemoryGas)"
    by (intro unat_mult_lem [THEN iffD1]) simp
  have "unat w * unat w \<le> 0xFFFFFFFF * 0xFFFFFFFF" using assms(2) by (intro mult_le_mono)
  then have s: "unat (w * w) = unat w * unat w" by (intro unat_mult_lem [THEN iffD1]) simp
  have "unat (w * P MemoryGas) + unat (w * w div P QuadCoeffDiv) = fee P (unat w)"
    by (simp add: l s fee_def unat_div)
  then show ?thesis
    using fee_bound [OF assms] by (simp add: unat_plus64)
qed

lemma toWordSize_aligned:
  assumes "32 dvd unat sz" and "unat sz \<le> memory_bound"
  shows "unat (toWordSize sz) = unat sz div 32"
proof -
  have "unat (sz + 31) = unat sz + 31" using assms(2) unat_plus64 [of sz 31] by simp
  moreover have "\<not> sz > 0xFFFFFFFFFFFFFFFF - 31" using assms(2) by (simp add: word_less_nat_alt)
  moreover have "(unat sz + 31) div 32 = unat sz div 32" using assms(1) by auto
  ultimately show ?thesis by (simp add: toWordSize_def unat_div)
qed

lemma memoryGasCost_cases:
  assumes P: "prices_ok P" and f: "mem_ok P f" and al: "32 dvd unat sz"
  shows "(\<exists>e. memoryGasCost P sz f = GasErr e f) \<or>
    (\<exists>c last. memoryGasCost P sz f = Cost c (f\<lparr>lastGasCost := last\<rparr>) \<and> unat c \<le> 2 ^ 56 \<and>
       mem_ok P (f\<lparr>lastGasCost := last, mstore := mem_Resize sz (mstore f)\<rparr>))"
proof -
  consider "sz = 0" | "sz \<noteq> 0" "sz > 0x1FFFFFFFE0" | "sz \<noteq> 0" "sz \<le> 0x1FFFFFFFE0" by fastforce
  then show ?thesis
  proof cases
    case 1
    then show ?thesis
      using f by (intro disjI2 exI [of _ 0] exI [of _ "lastGasCost f"]) (simp add: memoryGasCost_def mem_Resize_def)
  next
    case 2
    then show ?thesis by (simp add: memoryGasCost_def)
  next
    case 3
    obtain w where w: "w \<le> 0xFFFFFFFF" "length (mstore f) = 32 * w" "unat (lastGasCost f) = fee P w"
      using f by (auto simp: mem_ok_def)
    let ?n = "toWordSize sz"
    have sz: "unat sz \<le> memory_bound" using 3 by (simp add: word_le_nat_alt)
    have n: "unat ?n = unat sz div 32" by (rule toWordSize_aligned [OF al sz])
    then have nb: "unat ?n \<le> 0xFFFFFFFF" using sz by simp
    have n32: "unat (?n * 32) = unat sz" using nb n al
      by (subst unat_mult_lem [THEN iffD1]) auto
    have cmp: "?n * 32 > of_nat (length (mstore f)) \<longleftrightarrow> unat sz > length (mstore f)"
    proof -
      have "unat (of_nat (length (mstore f)) :: u64) = length (mstore f)"
        using w(1,2) by (subst unat_of_nat) simp
      then show ?thesis by (simp add: word_less_nat_alt n32)
    qed
    show ?thesis
    proof (cases "unat sz > length (mstore f)")
      case True
      let ?t = "?n * P MemoryGas + ?n * ?n div P QuadCoeffDiv"
      have t: "unat ?t = fee P (unat ?n)" by (rule word_fee [OF P nb])
      have "fee P w \<le> fee P (unat ?n)" using True n w(2) by (intro fee_mono) simp
      then have c: "unat (?t - lastGasCost f) \<le> 2 ^ 56"
        using t w(3) fee_bound [OF P nb] by (simp add: unat_sub word_le_nat_alt)
      have "mem_ok P (f\<lparr>lastGasCost := ?t, mstore := mem_Resize sz (mstore f)\<rparr>)"
        unfolding mem_ok_def using True nb n t al by (intro exI [of _ "unat ?n"]) (auto simp: mem_Resize_def)
      then show ?thesis using 3 True c cmp
        by (intro disjI2 exI [of _ "?t - lastGasCost f"] exI [of _ ?t]) (simp add: memoryGasCost_def Let_def)
    next
      case False
      then have "mem_Resize sz (mstore f) = mstore f" by (simp add: mem_Resize_def)
      then show ?thesis using 3 False cmp f
        by (intro disjI2 exI [of _ 0] exI [of _ "lastGasCost f"]) (simp add: memoryGasCost_def Let_def)
    qed
  qed
qed

section \<open>Contracts of gas functions\<close>

definition same :: "'s frame \<Rightarrow> 's frame \<Rightarrow> bool" where
  "same f f' \<longleftrightarrow> gas f' = gas f \<and> stk f' = stk f \<and> mstore f' = mstore f \<and> ctr f' = ctr f \<and> input f' = input f"

definition ready :: "prices \<Rightarrow> u64 \<Rightarrow> 's frame \<Rightarrow> 's frame \<Rightarrow> bool" where
  "ready P sz f f' \<longleftrightarrow> same f f' \<and> mem_ok P (f'\<lparr>mstore := mem_Resize sz (mstore f')\<rparr>)"

fun metered :: "prices \<Rightarrow> u64 \<Rightarrow> 's frame \<Rightarrow> (nat \<Rightarrow> 's frame \<Rightarrow> bool) \<Rightarrow> 's gas_outcome \<Rightarrow> bool" where
  "metered P sz f Q (Cost c f') \<longleftrightarrow> ready P sz f f' \<and> Q (unat c) f'"
| "metered P sz f Q (GasErr e f') \<longleftrightarrow> gas f' \<le> gas f"
| "metered P sz f Q (GasPanic s) \<longleftrightarrow> host_panic s"

lemma ready_stk: "ready P sz f f' \<Longrightarrow> stk f' = stk f"
  and ready_gas: "ready P sz f f' \<Longrightarrow> gas f' = gas f"
  by (simp_all add: ready_def same_def)

lemma ready_refl: "mem_ok P f \<Longrightarrow> ready P 0 f f"
  by (simp add: ready_def same_def mem_Resize_def)

lemma ready_set_db [simp]: "ready P sz f (set_db s f') = ready P sz f f'"
  by (simp add: ready_def same_def mem_ok_def set_db_def)

lemma ready_vm [simp]: "ready P sz f (f'\<lparr>vm := e\<rparr>) = ready P sz f f'"
  by (simp add: ready_def same_def mem_ok_def)

lemma metered_mono: "metered P sz f Q r \<Longrightarrow> (\<And>c f'. Q c f' \<Longrightarrow> R c f') \<Longrightarrow> metered P sz f R r"
  by (cases r) auto

lemma m_if:
  "(b \<Longrightarrow> metered P sz f Q x) \<Longrightarrow> (\<not> b \<Longrightarrow> metered P sz f Q y) \<Longrightarrow> metered P sz f Q (if b then x else y)"
  by simp

lemma m_Cost: "ready P sz f f' \<Longrightarrow> Q (unat c) f' \<Longrightarrow> metered P sz f Q (Cost c f')"
  by simp

lemma m_gthen:
  "metered P sz f Q m \<Longrightarrow> (\<And>c f'. ready P sz f f' \<Longrightarrow> Q (unat c) f' \<Longrightarrow> metered P sz f R (k c f'))
   \<Longrightarrow> metered P sz f R (gthen m k)"
  by (cases m) (simp_all add: gthen_def)

lemma m_gask: "(\<And>x. r = Some x \<Longrightarrow> metered P sz f Q (k x)) \<Longrightarrow> metered P sz f Q (gask r k)"
  by (cases r) (simp_all add: gask_def host_panic_def)

lemma m_gupd: "(\<And>s. r = Some s \<Longrightarrow> metered P sz f Q (k (set_db s f'))) \<Longrightarrow> metered P sz f Q (gupd r f' k)"
  by (simp add: gupd_def m_gask)

lemma m_gback:
  "n < length (stk f') \<Longrightarrow> metered P sz f Q (k (stk f' ! n)) \<Longrightarrow> metered P sz f Q (gback n f' k)"
  by (simp add: gback_def Back_def)

lemma m_safe_add:
  "gas f' \<le> gas f \<Longrightarrow> (\<And>v. unat v = unat a + unat b \<Longrightarrow> metered P sz f Q (k v))
   \<Longrightarrow> metered P sz f Q (safely (SafeAdd a b) f' k)"
  by (simp add: safely_def SafeAdd_nat unat_plus64)

lemma m_safe_mul:
  "gas f' \<le> gas f \<Longrightarrow> (\<And>v. metered P sz f Q (k v)) \<Longrightarrow> metered P sz f Q (safely (SafeMul a b) f' k)"
  by (simp add: safely_def)

lemmas meter_rules = m_gask m_gupd m_gback m_safe_add m_safe_mul

lemma m_memory:
  assumes "prices_ok P" and "mem_ok P f" and "32 dvd unat sz"
  shows "metered P sz f (\<lambda>c f'. c \<le> 2 ^ 56 \<and> vm f' = vm f) (memoryGasCost P sz f)"
  using memoryGasCost_cases [OF assms] by (auto simp: ready_def same_def)

definition gas_ok :: "'s env \<Rightarrow> nat \<Rightarrow> bool \<Rightarrow> nat \<Rightarrow> 's gas_fn \<Rightarrow> bool" where
  "gas_ok E pops uses_memory low dyn \<longleftrightarrow>
     (\<forall>sz f. mem_ok (prc E) f \<longrightarrow> pops \<le> length (stk f) \<longrightarrow> 32 dvd unat sz \<longrightarrow> (uses_memory \<or> sz = 0) \<longrightarrow>
        metered (prc E) sz f (\<lambda>c f'. low \<le> c) (dyn E sz f))"

lemma gas_ok_memI:
  assumes "prices_ok (prc E)"
    and "\<And>sz f. mem_ok (prc E) f \<Longrightarrow> pops \<le> length (stk f) \<Longrightarrow> 32 dvd unat sz \<Longrightarrow>
      metered (prc E) sz f (\<lambda>c f'. c \<le> 2 ^ 56 \<and> vm f' = vm f) (memoryGasCost (prc E) sz f) \<Longrightarrow>
      metered (prc E) sz f (\<lambda>c f'. low \<le> c) (dyn E sz f)"
  shows "gas_ok E pops True low dyn"
  unfolding gas_ok_def using assms(2) m_memory [OF assms(1)] by blast

lemma gas_ok_plainI:
  assumes "\<And>f. pops \<le> length (stk f) \<Longrightarrow> ready (prc E) 0 f f \<Longrightarrow> metered (prc E) 0 f (\<lambda>c f'. low \<le> c) (dyn E 0 f)"
  shows "gas_ok E pops False low dyn"
  unfolding gas_ok_def using assms ready_refl by blast

lemma m_words:
  "ready P sz f f' \<Longrightarrow> i < length (stk f) \<Longrightarrow> metered P sz f (\<lambda>c f'. True) (words_gas i price g f')"
  unfolding words_gas_def
  by (rule m_gback) (auto simp: ready_stk ready_gas intro!: meter_rules)

lemma m_memory_words:
  assumes "metered P sz f Q (memoryGasCost P sz f)" and "i < length (stk f)"
  shows "metered P sz f (\<lambda>c f'. True) (gthen (memoryGasCost P sz f) (words_gas i price))"
  by (rule m_gthen [OF assms(1) m_words [OF _ assms(2)]])

named_theorems gas_rules

lemma pureMemoryGascost_ok [gas_rules]: "prices_ok (prc E) \<Longrightarrow> gas_ok E pops True 0 pureMemoryGascost"
  by (rule gas_ok_memI) (auto simp: pureMemoryGascost_def elim: metered_mono)

lemma memoryCopierGas_ok: "prices_ok (prc E) \<Longrightarrow> i < pops \<Longrightarrow> gas_ok E pops True 0 (memoryCopierGas i)"
  by (rule gas_ok_memI) (auto simp: memoryCopierGas_def intro: m_memory_words)

lemma copier_ok [gas_rules]:
  assumes "prices_ok (prc E)"
  shows "gas_ok E 3 True 0 gasCallDataCopy" "gas_ok E 3 True 0 gasCodeCopy" "gas_ok E 3 True 0 gasReturnDataCopy"
  using assms by (simp_all add: gasCallDataCopy_def gasCodeCopy_def gasReturnDataCopy_def memoryCopierGas_ok)

lemma gasKeccak256_ok [gas_rules]: "prices_ok (prc E) \<Longrightarrow> gas_ok E 2 True 0 gasKeccak256"
  by (rule gas_ok_memI) (auto simp: gasKeccak256_def intro: m_memory_words)

lemma gasCreate2_ok [gas_rules]: "prices_ok (prc E) \<Longrightarrow> gas_ok E 4 True 0 gasCreate2"
  by (rule gas_ok_memI) (auto simp: gasCreate2_def intro: m_memory_words)

lemma gasExtCodeCopyEIP2929_ok [gas_rules]: "prices_ok (prc E) \<Longrightarrow> gas_ok E 4 True 0 gasExtCodeCopyEIP2929"
proof (rule gas_ok_memI)
  fix sz and f :: "'a frame"
  assume m: "metered (prc E) sz f (\<lambda>c f'. c \<le> 2 ^ 56 \<and> vm f' = vm f) (memoryGasCost (prc E) sz f)"
    and st: "4 \<le> length (stk f)"
  have "metered (prc E) sz f (\<lambda>c f'. True) (gasExtCodeCopy E sz f)"
    unfolding gasExtCodeCopy_def memoryCopierGas_def using st by (intro m_memory_words [OF m]) simp
  then show "metered (prc E) sz f (\<lambda>c f'. 0 \<le> c) (gasExtCodeCopyEIP2929 E sz f)"
    unfolding gasExtCodeCopyEIP2929_def
  proof (rule m_gthen)
    fix c f'
    assume "ready (prc E) sz f f'"
    then show "metered (prc E) sz f (\<lambda>c f'. 0 \<le> c) (gback 0 f' (\<lambda>a.
      gask (db_AddressInAccessList (DB E) (db f') (Bytes20 a)) (\<lambda>present.
       if \<not> present then
         gupd (db_AddAddressToAccessList (DB E) (Bytes20 a) (db f')) f' (\<lambda>f.
           safely (SafeAdd c (cold_surcharge E)) f (\<lambda>g. Cost g f))
       else Cost c f')))"
      using st ready_gas [of "prc E" sz f f']
      by (auto simp: ready_stk set_db_def intro!: meter_rules simp flip: length_greater_0_conv)
  qed
qed

lemma makeGasLog_ok [gas_rules]: "prices_ok (prc E) \<Longrightarrow> gas_ok E (n + 2) True 1 (makeGasLog k)"
proof (rule gas_ok_memI)
  fix sz and f :: "'a frame"
  assume P: "prices_ok (prc E)"
    and m: "metered (prc E) sz f (\<lambda>c f'. c \<le> 2 ^ 56 \<and> vm f' = vm f) (memoryGasCost (prc E) sz f)"
    and st: "n + 2 \<le> length (stk f)"
  have pos: "0 < unat (prc E LogGas)" using P by (simp add: prices_ok_def unat_gt_0 word_gt_0)
  show "metered (prc E) sz f (\<lambda>c f'. 1 \<le> c) (makeGasLog k E sz f)"
    unfolding makeGasLog_def using st pos
    by (intro m_gback) (auto simp: ready_gas intro!: m_gthen [OF m] m_safe_add m_safe_mul)
qed

lemma gasExp_ok [gas_rules]: "prices_ok (prc E) \<Longrightarrow> gas_ok E 2 False 1 gasExpEIP158"
proof (rule gas_ok_plainI)
  fix f :: "'a frame"
  assume "prices_ok (prc E)" and "2 \<le> length (stk f)" and "ready (prc E) 0 f f"
  then show "metered (prc E) 0 f (\<lambda>c f'. 1 \<le> c) (gasExpEIP158 E 0 f)"
    unfolding gasExpEIP158_def gas_exp_def Let_def
    by (intro m_gback m_safe_add) (auto simp: prices_ok_def word_gt_0 unat_gt_0 Suc_le_eq)
qed

lemma gasSLoadEIP2929_ok [gas_rules]: "prices_ok (prc E) \<Longrightarrow> gas_ok E 1 False 1 gasSLoadEIP2929"
  by (rule gas_ok_plainI) (auto simp: gasSLoadEIP2929_def prices_ok_def word_gt_0 unat_gt_0 Suc_le_eq
      intro!: meter_rules)

lemma gasEip2929AccountCheck_ok [gas_rules]: "gas_ok E 1 False 0 gasEip2929AccountCheck"
  by (rule gas_ok_plainI) (auto simp: gasEip2929AccountCheck_def intro!: meter_rules)

lemma gasSelfdestructEIP3529_ok [gas_rules]: "gas_ok E 1 False 0 gasSelfdestructEIP3529"
  by (rule gas_ok_plainI)
    (auto simp: gasSelfdestructEIP3529_def makeSelfdestructGasFn_def refund_suicide_def intro!: meter_rules)

section \<open>Storage\<close>

lemma m_dirty_refunds:
  "ready P 0 f f' \<Longrightarrow> 1 \<le> unat cost \<Longrightarrow>
   metered P 0 f (\<lambda>c f'. 1 \<le> c) (dirty_refunds E clear rz rs orig cur val cost f')"
  unfolding dirty_refunds_def by (intro m_gupd) simp

lemma m_list_slot:
  assumes "ready (prc E) 0 f f'"
    and "\<And>cost f''. cost = 0 \<or> cost = prc E ColdSloadCostEIP2929 \<Longrightarrow> ready (prc E) 0 f f'' \<Longrightarrow> metered (prc E) 0 f Q (k cost f'')"
  shows "metered (prc E) 0 f Q (list_slot E slot f' k)"
  unfolding list_slot_def using assms by (auto intro!: m_gask m_gupd simp: host_panic_def)

lemma sstore_costs:
  assumes "prices_ok (prc E)" and "cost = 0 \<or> cost = prc E ColdSloadCostEIP2929"
  shows "1 \<le> unat (cost + prc E WarmStorageReadCostEIP2929)"
    and "1 \<le> unat (cost + prc E SstoreSetGasEIP2200)"
    and "1 \<le> unat (cost + (prc E SstoreResetGasEIP2200 - prc E ColdSloadCostEIP2929))"
proof -
  have c: "unat cost \<le> 2 ^ 32" and w: "0 < unat (prc E WarmStorageReadCostEIP2929)"
      "unat (prc E WarmStorageReadCostEIP2929) \<le> 2 ^ 32"
    and s: "0 < unat (prc E SstoreSetGasEIP2200)" "unat (prc E SstoreSetGasEIP2200) \<le> 2 ^ 32"
    and r: "unat (prc E ColdSloadCostEIP2929) < unat (prc E SstoreResetGasEIP2200)"
      "unat (prc E SstoreResetGasEIP2200) \<le> 2 ^ 32"
    using assms by (auto simp: prices_ok_def word_le_nat_alt word_less_nat_alt)
  have d: "unat (prc E SstoreResetGasEIP2200 - prc E ColdSloadCostEIP2929)
      = unat (prc E SstoreResetGasEIP2200) - unat (prc E ColdSloadCostEIP2929)"
    using r by (simp add: unat_sub word_le_nat_alt)
  show "1 \<le> unat (cost + prc E WarmStorageReadCostEIP2929)" using c w by (simp add: unat_plus64)
  show "1 \<le> unat (cost + prc E SstoreSetGasEIP2200)" using c s by (simp add: unat_plus64)
  show "1 \<le> unat (cost + (prc E SstoreResetGasEIP2200 - prc E ColdSloadCostEIP2929))"
    using c r d by (subst unat_plus64) simp_all
qed

lemma gasSStoreEIP3529_ok [gas_rules]: "prices_ok (prc E) \<Longrightarrow> gas_ok E 2 False 1 gasSStoreEIP3529"
proof (rule gas_ok_plainI)
  fix f :: "'a frame"
  assume P: "prices_ok (prc E)" and st: "2 \<le> length (stk f)" and f: "ready (prc E) 0 f f"
  note c = sstore_costs [OF P]
  show "metered (prc E) 0 f (\<lambda>c f'. 1 \<le> c) (gasSStoreEIP3529 E 0 f)"
    unfolding gasSStoreEIP3529_def makeGasSStoreFunc_def using st f
    by (intro m_if m_gback m_gask m_list_slot m_dirty_refunds m_gupd m_Cost c) auto
qed

section \<open>Calls\<close>

lemma callGas_Inr:
  assumes "callGas True a b cc = r"
  obtains t where "r = Inr t" and "unat t \<le> unat (a - b) - unat (a - b) div 64"
proof -
  have "unat (a - b - (a - b) div 64) = unat (a - b) - unat (a - b) div 64"
    by (subst unat_sub) (simp_all add: unat_div word_le_nat_alt)
  then show thesis using that assms by (auto simp: callGas_def Let_def word_less_nat_alt split: if_splits)
qed

text \<open>
  A base price above the gas that is left wraps the available gas; the share for the callee is then
  so large that the total still cannot pass for an affordable price.
\<close>

lemma call_total_bound:
  assumes "unat b \<le> 2 ^ 57" and "unat t \<le> unat (a - b) - unat (a - b) div 64"
  shows "unat b + unat t \<le> unat (a :: u64) \<or> unat b + unat t + 2 ^ 56 \<le> 2 ^ 64"
proof (cases "b \<le> a")
  case True
  then have "unat (a - b) = unat a - unat b" "unat b \<le> unat a" by (simp_all add: unat_sub word_le_nat_alt)
  then show ?thesis using assms(2) by linarith
next
  case False
  then have less: "unat a < unat b" by (simp add: word_le_nat_alt)
  then have v: "unat (a - b) = unat a + 2 ^ 64 - unat b" by (simp add: unat_sub_if')
  define v where "v = unat (a - b)"
  have "v \<ge> 2 ^ 64 - 2 ^ 57" "v + unat b = unat a + 2 ^ 64" using v assms(1) less by (simp_all add: v_def)
  moreover have "unat t + v div 64 \<le> v" using assms(2) by (simp add: v_def)
  ultimately show ?thesis using less assms(1) by simp
qed

definition call_charged :: "nat \<Rightarrow> nat \<Rightarrow> 's frame \<Rightarrow> nat \<Rightarrow> 's frame \<Rightarrow> bool" where
  "call_charged slack price f c f' \<longleftrightarrow> unat (callGasTemp (vm f')) + price \<le> c
     \<and> (c \<le> unat (gas f) \<or> c + slack \<le> 2 ^ 64)"

lemma m_charge_call:
  assumes "IsEIP150 (chainRules E)" and "ready P sz f f'" and "unat g \<le> 2 ^ 57" and "price \<le> unat g"
    and "0 < length (stk f)"
  shows "metered P sz f (call_charged (2 ^ 56) price f) (charge_call E g f')"
proof -
  obtain t where t: "callGas True (gas f') g (stk f' ! 0) = Inr t"
      "unat t \<le> unat (gas f' - g) - unat (gas f' - g) div 64"
    by (rule callGas_Inr [OF refl])
  have b: "unat g + unat t \<le> unat (gas f') \<or> unat g + unat t + 2 ^ 56 \<le> 2 ^ 64"
    by (rule call_total_bound [OF assms(3) t(2)])
  have r: "stk f' = stk f" "gas f' = gas f" using assms(2) by (simp_all add: ready_stk ready_gas)
  show ?thesis
    unfolding charge_call_def assms(1)
    using assms t(1) b r
    by (intro m_gback) (auto simp: Let_def call_charged_def intro!: m_safe_add)
qed

text \<open>The price of a transfer, for the calls that have one.\<close>

definition value_price :: "'s env \<Rightarrow> bool \<Rightarrow> 's frame \<Rightarrow> nat" where
  "value_price E valued f = (if valued \<and> stk f ! 2 \<noteq> 0 then unat (prc E CallValueTransferGas) else 0)"

definition call_ok :: "nat \<Rightarrow> 's env \<Rightarrow> nat \<Rightarrow> bool \<Rightarrow> 's gas_fn \<Rightarrow> bool" where
  "call_ok slack E pops valued dyn \<longleftrightarrow>
     (\<forall>sz f. mem_ok (prc E) f \<longrightarrow> pops \<le> length (stk f) \<longrightarrow> 32 dvd unat sz \<longrightarrow>
        metered (prc E) sz f (call_charged slack (value_price E valued f) f) (dyn E sz f))"

lemma call_okI:
  assumes "prices_ok (prc E)"
    and "\<And>sz f. pops \<le> length (stk f) \<Longrightarrow>
      metered (prc E) sz f (\<lambda>c f'. c \<le> 2 ^ 56 \<and> vm f' = vm f) (memoryGasCost (prc E) sz f) \<Longrightarrow>
      metered (prc E) sz f (call_charged (2 ^ 56) (value_price E valued f) f) (dyn E sz f)"
  shows "call_ok (2 ^ 56) E pops valued dyn"
  unfolding call_ok_def using assms(2) m_memory [OF assms(1)] by blast

lemma gasCall_ok:
  assumes P: "prices_ok (prc E)" and R: "IsEIP150 (chainRules E)"
  shows "call_ok (2 ^ 56) E 7 True gasCall"
proof (rule call_okI [OF P])
  fix sz and f :: "'a frame"
  assume st: "7 \<le> length (stk f)"
    and m: "metered (prc E) sz f (\<lambda>c f'. c \<le> 2 ^ 56 \<and> vm f' = vm f) (memoryGasCost (prc E) sz f)"
  have b: "unat (prc E CallNewAccountGas) \<le> 2 ^ 32" "unat (prc E CallValueTransferGas) \<le> 2 ^ 32"
    using P by (simp_all add: prices_ok_def word_le_nat_alt)
  then have sum: "unat (prc E CallNewAccountGas + prc E CallValueTransferGas)
      = unat (prc E CallNewAccountGas) + unat (prc E CallValueTransferGas)" by (simp add: unat_plus64)
  show "metered (prc E) sz f (call_charged (2 ^ 56) (value_price E True f) f) (gasCall E sz f)"
    unfolding gasCall_def Let_def using st b sum
    by (intro m_gback m_gask m_gthen [OF m] m_safe_add m_charge_call [OF R])
      (auto simp: ready_gas value_price_def)
qed

lemma gasCallCode_ok:
  assumes P: "prices_ok (prc E)" and R: "IsEIP150 (chainRules E)"
  shows "call_ok (2 ^ 56) E 7 True gasCallCode"
proof (rule call_okI [OF P])
  fix sz and f :: "'a frame"
  assume st: "7 \<le> length (stk f)"
    and m: "metered (prc E) sz f (\<lambda>c f'. c \<le> 2 ^ 56 \<and> vm f' = vm f) (memoryGasCost (prc E) sz f)"
  have b: "unat (prc E CallValueTransferGas) \<le> 2 ^ 32" using P by (simp add: prices_ok_def word_le_nat_alt)
  show "metered (prc E) sz f (call_charged (2 ^ 56) (value_price E True f) f) (gasCallCode E sz f)"
    unfolding gasCallCode_def using st b
    by (intro m_gback m_gthen [OF m] m_safe_add m_charge_call [OF R])
      (auto simp: ready_gas ready_stk value_price_def)
qed

lemma memory_call_ok:
  assumes P: "prices_ok (prc E)" and R: "IsEIP150 (chainRules E)"
    and dyn: "\<And>sz f. dyn E sz f = gthen (memoryGasCost (prc E) sz f) (charge_call E)"
  shows "call_ok (2 ^ 56) E 6 False dyn"
  by (rule call_okI [OF P], unfold dyn, erule m_gthen, rule m_charge_call [OF R]) (auto simp: value_price_def)

lemma gasDelegateCall_ok:
  "prices_ok (prc E) \<Longrightarrow> IsEIP150 (chainRules E) \<Longrightarrow> call_ok (2 ^ 56) E 6 False gasDelegateCall"
  by (rule memory_call_ok) (simp_all only: gasDelegateCall_def)

lemma gasStaticCall_ok:
  "prices_ok (prc E) \<Longrightarrow> IsEIP150 (chainRules E) \<Longrightarrow> call_ok (2 ^ 56) E 6 False gasStaticCall"
  by (rule memory_call_ok) (simp_all only: gasStaticCall_def)

text \<open>With access lists: the surcharge is taken first, given back and added to the price.\<close>

lemma cold_surcharge_bound: "prices_ok (prc E) \<Longrightarrow> unat (cold_surcharge E) \<le> 2 ^ 32"
proof -
  assume "prices_ok (prc E)"
  then have "prc E WarmStorageReadCostEIP2929 \<le> prc E ColdAccountAccessCostEIP2929"
    "unat (prc E ColdAccountAccessCostEIP2929) \<le> 2 ^ 32" by (simp_all add: prices_ok_def word_le_nat_alt)
  then show ?thesis by (simp add: cold_surcharge_def unat_sub le_diff_conv)
qed

lemma variant_ok:
  assumes P: "prices_ok (prc E)" and old: "call_ok (2 ^ 56) E pops valued dyn" and pops: "2 \<le> pops"
  shows "call_ok 0 E pops valued (makeCallVariantGasCallEIP2929 dyn)"
  unfolding call_ok_def
proof (intro allI impI)
  fix sz :: u64 and f :: "'a frame"
  assume f: "mem_ok (prc E) f" and st: "pops \<le> length (stk f)" and al: "32 dvd unat sz"
  let ?Q = "call_charged 0 (value_price E valued f) f"
  have "metered (prc E) sz f (call_charged (2 ^ 56) (value_price E valued f) f) (dyn E sz f)"
    using old f st al by (simp add: call_ok_def)
  then have warm: "metered (prc E) sz f ?Q (dyn E sz f)"
    by (rule metered_mono) (auto simp: call_charged_def)
  have cold: "metered (prc E) sz f ?Q (case UseGas (cold_surcharge E) (set_db s f) of
        None \<Rightarrow> GasErr ErrOutOfGas (set_db s f)
      | Some f \<Rightarrow> gthen (dyn E sz f) (\<lambda>g f. Cost (g + cold_surcharge E) (f\<lparr>gas := gas f + cold_surcharge E\<rparr>)))" for s
  proof (cases "gas f < cold_surcharge E")
    case True
    then show ?thesis by (simp add: UseGas_def set_db_def)
  next
    case False
    define f1 where "f1 = (set_db s f)\<lparr>gas := gas f - cold_surcharge E\<rparr>"
    have g1: "unat (gas f1) + unat (cold_surcharge E) = unat (gas f)"
      using False by (simp add: f1_def unat_sub word_le_nat_alt not_less)
    have f1: "mem_ok (prc E) f1" "stk f1 = stk f" "mstore f1 = mstore f" "ctr f1 = ctr f" "input f1 = input f"
      "gas f1 \<le> gas f" "gas f1 + cold_surcharge E = gas f"
      using f g1 by (auto simp: f1_def mem_ok_def set_db_def word_le_nat_alt)
    have m: "metered (prc E) sz f1 (call_charged (2 ^ 56) (value_price E valued f1) f1) (dyn E sz f1)"
      using old f1 st al by (simp add: call_ok_def)
    have vp: "value_price E valued f1 = value_price E valued f" by (simp add: value_price_def f1)
    have "metered (prc E) sz f ?Q
        (gthen (dyn E sz f1) (\<lambda>g f. Cost (g + cold_surcharge E) (f\<lparr>gas := gas f + cold_surcharge E\<rparr>)))"
    proof (cases "dyn E sz f1")
      case (Cost c f2)
      have c: "call_charged (2 ^ 56) (value_price E valued f) f1 (unat c) f2" and r: "ready (prc E) sz f1 f2"
        using m Cost vp by simp_all
      have sum: "unat (c + cold_surcharge E) = unat c + unat (cold_surcharge E)"
        using c g1 cold_surcharge_bound [OF P] unat64_less [of "gas f"]
        by (intro unat_plus64) (auto simp: call_charged_def)
      have "call_charged 0 (value_price E valued f) f (unat (c + cold_surcharge E)) (f2\<lparr>gas := gas f2 + cold_surcharge E\<rparr>)"
        using c g1 sum cold_surcharge_bound [OF P] unat64_less [of "gas f"] by (auto simp: call_charged_def)
      moreover have "ready (prc E) sz f (f2\<lparr>gas := gas f2 + cold_surcharge E\<rparr>)"
        using r f1 by (auto simp: ready_def same_def mem_ok_def)
      ultimately show ?thesis using Cost by (simp add: gthen_def)
    next
      case (GasErr e f2)
      then show ?thesis using m f1 by (simp add: gthen_def)
    next
      case (GasPanic p)
      then show ?thesis using m by (simp add: gthen_def)
    qed
    then show ?thesis using False by (simp add: UseGas_def f1_def set_db_def)
  qed
  show "metered (prc E) sz f ?Q (makeCallVariantGasCallEIP2929 dyn E sz f)"
    unfolding makeCallVariantGasCallEIP2929_def using st pops
    by (intro m_gback m_gask m_if m_gupd warm cold) simp
qed

lemmas call_rules =
  variant_ok [OF _ gasCall_ok, folded gasCallEIP2929_def]
  variant_ok [OF _ gasCallCode_ok, folded gasCallCodeEIP2929_def]
  variant_ok [OF _ gasDelegateCall_ok, folded gasDelegateCallEIP2929_def]
  variant_ok [OF _ gasStaticCall_ok, folded gasStaticCallEIP2929_def]

end
