(* ===== verification/EvmSafety.thy ===== *)
theory EvmSafety
  imports EvmMeter
begin

text \<open>
  The interpreter as a whole: every turn of its loop uses gas or ends, so it ends within the gas it
  was given, returns no more gas than that, and panics for no reason of its own.
\<close>

section \<open>Calls\<close>

fun result_ok :: "u64 \<Rightarrow> 's run_result \<Rightarrow> bool" where
  "result_ok g (Ran err ret g' e) \<longleftrightarrow> g' \<le> g"
| "result_ok g (RunPanic s) \<longleftrightarrow> host_panic s"
| "result_ok g RunNoFuel \<longleftrightarrow> False"

definition runs_ok :: "nat \<Rightarrow> 's runner \<Rightarrow> bool" where
  "runs_ok n run \<longleftrightarrow> (\<forall>c inp ro e. unat (cgas c) < n \<longrightarrow> length (Code c) < slice_bound \<longrightarrow>
     length inp < slice_bound \<longrightarrow> result_ok (cgas c) (run c inp ro e))"

lemma runs_okD:
  "runs_ok n run \<Longrightarrow> cgas c = g \<Longrightarrow> unat g < n \<Longrightarrow> length (Code c) < slice_bound \<Longrightarrow> length inp < slice_bound
   \<Longrightarrow> result_ok g (run c inp ro e)"
  unfolding runs_ok_def by blast

lemma r_rask: "(\<And>x. r = Some x \<Longrightarrow> result_ok g (k x)) \<Longrightarrow> result_ok g (rask r k)"
  by (cases r) (simp_all add: rask_def host_panic_def)

lemma r_if:
  "(b \<Longrightarrow> result_ok g x) \<Longrightarrow> (\<not> b \<Longrightarrow> result_ok g y) \<Longrightarrow> result_ok g (if b then x else y)"
  by simp

lemma r_Ran: "g' \<le> g \<Longrightarrow> result_ok g (Ran err ret g' e)"
  by simp

lemma r_snapshot:
  "(\<And>i s. r = Some (i, s) \<Longrightarrow> result_ok g (k i s)) \<Longrightarrow> result_ok g (rask r (\<lambda>(i, s). k i s))"
  by (rule r_rask) auto

lemma r_settle: "result_ok g r \<Longrightarrow> result_ok g (settle E i r)"
  unfolding settle_def by (auto split: run_result.splits option.splits intro!: r_rask)

lemma r_settle_create: "result_ok g r \<Longrightarrow> result_ok g (settle_create E i r)"
  using r_settle by (auto simp: settle_create_def split: run_result.splits option.splits)

lemma sub_le64: "\<not> (g :: u64) < c \<Longrightarrow> g - c \<le> g"
  by (simp add: word_sub_le_iff not_less)

lemma r_dispatch:
  "(\<And>e. result_ok g (other e)) \<Longrightarrow> result_ok g (dispatch E caller addr inp g other e)"
  by (auto simp: dispatch_def RunPrecompiledContract_def RunNativeContract_def Let_def host_panic_def
      sub_le64 split: option.splits sum.splits)

lemma r_with_code:
  assumes "small_code E" and "runs_ok n run" and "unat (cgas c) < n" and "length inp < slice_bound"
  shows "result_ok (cgas c) (with_code E addr c e (\<lambda>c. run c inp ro e))"
  using assms by (auto simp: with_code_def SetCallCode_def small_code_def intro!: r_rask runs_okD [OF assms(2)])

lemma calls_ok:
  assumes E: "small_code E" and run: "runs_ok n run" and g: "unat g < n" and inp: "length inp < slice_bound"
  shows "result_ok g (Call E run caller addr inp g value e)"
    and "result_ok g (CallCode E run caller addr inp g value e)"
    and "result_ok g (DelegateCall E run parent addr inp g e)"
    and "result_ok g (StaticCall E run caller addr inp g e)"
proof -
  note code = r_with_code [OF E run _ inp]
  have nc: "result_ok g (with_code E addr (NewContract a b v g) e (\<lambda>c. run c inp ro e))" for a b v ro e
    using code [of "NewContract a b v g"] g by (simp add: NewContract_def)
  have dc: "result_ok g (with_code E addr (AsDelegate parent (NewContract a b v g)) e (\<lambda>c. run c inp ro e))" for a b v ro e
    using code [of "AsDelegate parent (NewContract a b v g)"] g by (simp add: NewContract_def AsDelegate_def)
  show "result_ok g (Call E run caller addr inp g value e)"
    unfolding Call_def by (intro r_if r_rask r_snapshot r_settle r_dispatch r_Ran nc order_refl)
  show "result_ok g (CallCode E run caller addr inp g value e)"
    unfolding CallCode_def by (intro r_if r_rask r_snapshot r_settle r_dispatch r_Ran nc order_refl)
  show "result_ok g (DelegateCall E run parent addr inp g e)"
    unfolding DelegateCall_def by (intro r_if r_rask r_snapshot r_settle r_dispatch r_Ran dc order_refl)
  show "result_ok g (StaticCall E run caller addr inp g e)"
    unfolding StaticCall_def by (intro r_if r_rask r_snapshot r_settle r_dispatch r_Ran nc order_refl)
qed

lemma r_store_code: "g' \<le> g \<Longrightarrow> result_ok g (store_code E addr ret g' e)"
  unfolding store_code_def Let_def
  by (intro r_if r_Ran r_rask) (auto dest: sub_le64 intro: order_trans)

lemma deploy_ok:
  assumes run: "runs_ok n run" and g: "unat g < n" and code: "length code < slice_bound"
  shows "result_ok g (deploy E run caller code h g value addr e)"
proof -
  have "result_ok g (run (SetCallCode h code (NewContract caller addr value g)) [] False e)" for e
    using g code by (intro runs_okD [OF run]) (simp_all add: SetCallCode_def NewContract_def)
  then have "result_ok g (case run (SetCallCode h code (NewContract caller addr value g)) [] False e of
      Ran None ret g e \<Rightarrow> store_code E addr ret g e | r \<Rightarrow> r)" for e
    by (auto split: run_result.splits option.splits intro!: r_store_code) (metis result_ok.simps)+
  then show ?thesis unfolding deploy_def by (intro r_rask r_snapshot r_settle_create)
qed

lemma creates_ok:
  assumes "runs_ok n run" and "unat g < n" and "length code < slice_bound"
  shows "result_ok g (snd (Create E run caller code g value e))"
    and "result_ok g (snd (Create2 E run caller code g value salt e))"
proof -
  have "result_ok g (snd (create E run caller code h g value addr e))" for h addr
    using deploy_ok [OF assms]
    by (auto simp: create_def host_panic_def split: option.splits bool.splits)
  then show "result_ok g (snd (Create E run caller code g value e))"
    "result_ok g (snd (Create2 E run caller code g value salt e))"
    by (auto simp: Create_def Create2_def host_panic_def Let_def split: option.splits)
qed

section \<open>Turns of the loop\<close>

definition frame_ok :: "prices \<Rightarrow> 's frame \<Rightarrow> bool" where
  "frame_ok P f \<longleftrightarrow> mem_ok P f \<and> length (Code (ctr f)) < slice_bound \<and> length (input f) < slice_bound"

lemma frame_sized: "frame_ok P f \<Longrightarrow> sized f"
  by (auto simp: frame_ok_def mem_ok_def sized_def)

fun fine :: "prices \<Rightarrow> u64 \<Rightarrow> 's outcome \<Rightarrow> bool" where
  "fine P g (Next f) \<longleftrightarrow> frame_ok P f \<and> gas f < g"
| "fine P g (Halt err ret f) \<longleftrightarrow> gas f \<le> g"
| "fine P g (VmPanic s) \<longleftrightarrow> host_panic s"
| "fine P g NoFuel \<longleftrightarrow> False"

text \<open>The charges of a turn: \<open>R\<close> relates the dynamic price to the machine afterwards.\<close>

fun charged :: "'s env \<Rightarrow> 's vm_operation \<Rightarrow> (nat \<Rightarrow> 's evm \<Rightarrow> bool) \<Rightarrow> 's frame \<Rightarrow> 's outcome \<Rightarrow> bool" where
  "charged E op R f (Next f') \<longleftrightarrow> frame_ok (prc E) f' \<and> covered (memorySize op) f' \<and> stk f' = stk f \<and>
     min_stack op \<le> length (stk f) \<and> ctr f' = ctr f \<and>
     (\<exists>c. R c (vm f') \<and> unat (gas f') + unat (constantGas op) + c = unat (gas f))"
| "charged E op R f (Halt err ret f') \<longleftrightarrow> gas f' \<le> gas f"
| "charged E op R f (VmPanic s) \<longleftrightarrow> host_panic s"
| "charged E op R f NoFuel \<longleftrightarrow> False"

definition needs :: "nat \<Rightarrow> memory_fn option \<Rightarrow> bool" where
  "needs pops mem \<longleftrightarrow> (case mem of None \<Rightarrow> True | Some m \<Rightarrow> \<forall>st. pops \<le> length st \<longrightarrow> m st \<noteq> None)"

lemma required_memory_cases:
  fixes f :: "'s frame" and op :: "'s vm_operation"
  assumes "needs pops (memorySize op)" and "pops \<le> length (stk f)"
  obtains v where "required_memory op f = Some (v, True)"
  | sz where "required_memory op f = Some (sz, False)" and "32 dvd unat sz"
      and "memorySize op \<noteq> None \<or> sz = 0"
      and "\<forall>f' :: 's frame. stk f' = stk f \<longrightarrow> unat sz \<le> length (mstore f') \<longrightarrow> covered (memorySize op) f'"
proof (cases "memorySize op")
  case None
  then show thesis using that(2) [of 0] by (simp add: required_memory_def covered_def)
next
  case (Some m)
  then obtain ms ov where m: "m (stk f) = Some (ms, ov)" using assms by (fastforce simp: needs_def)
  show thesis
  proof (cases "ov \<or> unat (toWordSize ms) * 32 \<ge> 2 ^ 64")
    case True
    then have "\<exists>v. required_memory op f = Some (v, True)"
      using Some m by (cases ov) (auto simp: required_memory_def SafeMul_nat)
    then show thesis using that(1) by blast
  next
    case False
    let ?sz = "toWordSize ms * 32"
    have sz: "unat ?sz = unat (toWordSize ms) * 32"
      using False by (subst unat_mult_lem [THEN iffD1]) simp_all
    have "unat ms \<le> unat ?sz"
    proof (cases "ms > 0xFFFFFFFFFFFFFFFF - 31")
      case True
      then have "unat (toWordSize ms) * 32 = 2 ^ 64" by (simp add: toWordSize_def)
      then show ?thesis using False by simp
    next
      case small: False
      then have "unat (ms + 31) = unat ms + 31" by (intro unat_plus64 [of ms 31, simplified]) (simp add: word_less_nat_alt)
      then have "unat (toWordSize ms) = (unat ms + 31) div 32" using small by (simp add: toWordSize_def unat_div)
      then show ?thesis using sz by simp
    qed
    then show thesis using Some m False sz
      by (intro that(2) [of ?sz]) (auto simp: required_memory_def SafeMul_nat covered_def)
  qed
qed

lemma charge_dynamic_ok:
  assumes f: "frame_ok (prc E) f" and st: "pops \<le> length (stk f)" and need: "needs pops (memorySize op)"
    and dyn: "\<And>sz. 32 dvd unat sz \<Longrightarrow> memorySize op \<noteq> None \<or> sz = 0 \<Longrightarrow>
      metered (prc E) sz f (\<lambda>c f'. R c (vm f')) (dyn E sz f)"
  shows "case charge_dynamic E op dyn f of
      Next f' \<Rightarrow> frame_ok (prc E) f' \<and> covered (memorySize op) f' \<and> stk f' = stk f \<and> ctr f' = ctr f \<and>
        (\<exists>c. R c (vm f') \<and> unat (gas f') + c = unat (gas f))
    | Halt err ret f' \<Rightarrow> gas f' \<le> gas f | VmPanic s \<Rightarrow> host_panic s | NoFuel \<Rightarrow> False"
  using need st
proof (cases rule: required_memory_cases)
  case (1 v)
  then show ?thesis by (simp add: charge_dynamic_def)
next
  case (2 sz)
  note m = dyn [OF 2(2,3)]
  show ?thesis
  proof (cases "dyn E sz f")
    case (Cost c f')
    then have r: "ready (prc E) sz f f'" "R (unat c) (vm f')" using m by simp_all
    show ?thesis
    proof (cases "gas f' < c")
      case True
      then show ?thesis using 2(1) Cost r by (simp add: charge_dynamic_def UseGas_def ready_gas)
    next
      case False
      let ?f = "f'\<lparr>gas := gas f' - c, mstore := mem_Resize sz (mstore f')\<rparr>"
      have "charge_dynamic E op dyn f = Next ?f"
        using 2(1) Cost False by (auto simp: charge_dynamic_def UseGas_def mem_Resize_def word_gt_0)
      moreover have "unat sz \<le> length (mstore ?f)" by (simp add: mem_Resize_def)
      then have "covered (memorySize op) ?f" using 2(4) r by (simp add: ready_stk)
      moreover have "unat (gas ?f) + unat c = unat (gas f)"
        using False r by (simp add: ready_gas unat_sub word_le_nat_alt not_less)
      ultimately show ?thesis
        using r f by (auto simp: frame_ok_def ready_def same_def mem_ok_def)
    qed
  next
    case (GasErr e f')
    then show ?thesis using 2(1) m by (simp add: charge_dynamic_def)
  next
    case (GasPanic p)
    then show ?thesis using 2(1) m by (simp add: charge_dynamic_def)
  qed
qed

lemma charge_ok:
  assumes f: "frame_ok (prc E) f" and need: "needs (min_stack op) (memorySize op)"
    and none: "dynamicGas op = None \<Longrightarrow> memorySize op = None \<and> R 0 (vm f)"
    and dyn: "\<And>d f1 sz. dynamicGas op = Some d \<Longrightarrow> frame_ok (prc E) f1 \<Longrightarrow> stk f1 = stk f \<Longrightarrow>
      min_stack op \<le> length (stk f1) \<Longrightarrow> 32 dvd unat sz \<Longrightarrow> memorySize op \<noteq> None \<or> sz = 0 \<Longrightarrow>
      metered (prc E) sz f1 (\<lambda>c f'. R c (vm f')) (d E sz f1)"
  shows "charged E op R f (charge E op f)"
proof -
  consider "length (stk f) < min_stack op" | "int (length (stk f)) > max_stack op"
    | "gas f < constantGas op"
    | "\<not> length (stk f) < min_stack op" "\<not> int (length (stk f)) > max_stack op" "\<not> gas f < constantGas op"
    by blast
  then show ?thesis
  proof cases
    case 4
    let ?f = "f\<lparr>gas := gas f - constantGas op\<rparr>"
    have g: "unat (gas ?f) + unat (constantGas op) = unat (gas f)" "gas ?f \<le> gas f"
      using 4(3) by (simp_all add: unat_sub word_le_nat_alt not_less)
    have f1: "frame_ok (prc E) ?f" using f by (simp add: frame_ok_def mem_ok_def)
    show ?thesis
    proof (cases "dynamicGas op")
      case None
      then show ?thesis using 4 none f1 g by (auto simp: charge_def UseGas_def covered_def intro!: exI [of _ 0])
    next
      case (Some d)
      have "metered (prc E) sz ?f (\<lambda>c f'. R c (vm f')) (d E sz ?f)"
        if "32 dvd unat sz" "memorySize op \<noteq> None \<or> sz = 0" for sz
        using dyn [OF Some f1 _ _ that] 4(1) by simp
      then have d: "case charge_dynamic E op d ?f of
          Next f' \<Rightarrow> frame_ok (prc E) f' \<and> covered (memorySize op) f' \<and> stk f' = stk ?f \<and> ctr f' = ctr ?f \<and>
            (\<exists>c. R c (vm f') \<and> unat (gas f') + c = unat (gas ?f))
        | Halt err ret f' \<Rightarrow> gas f' \<le> gas ?f | VmPanic s \<Rightarrow> host_panic s | NoFuel \<Rightarrow> False"
        using charge_dynamic_ok [OF f1 _ need, of R d] 4(1) by (simp add: not_less)
      have c: "charge E op f = charge_dynamic E op d ?f" using 4 Some by (simp add: charge_def UseGas_def)
      show ?thesis
      proof (cases "charge_dynamic E op d ?f")
        case (Next f')
        then obtain c' where "R c' (vm f')" "unat (gas f') + c' = unat (gas ?f)" using d by auto
        then show ?thesis using Next c d g(1) 4(1) by (auto intro!: exI [of _ c'])
      qed (use c d g(2) in \<open>auto intro: order_trans\<close>)
    qed
  qed (auto simp: charge_def UseGas_def split: if_splits)
qed

definition op_ok :: "'s env \<Rightarrow> 's vm_operation \<Rightarrow> bool" where
  "op_ok E op \<longleftrightarrow> (\<forall>n run f. runs_ok n run \<longrightarrow> frame_ok (prc E) f \<longrightarrow> unat (gas f) \<le> n \<longrightarrow>
     fine (prc E) (gas f) (and_then (charge E op f) (execute op E run)))"

lemma fine_and_then:
  assumes "charged E op R f r"
    and "\<And>f'. r = Next f' \<Longrightarrow> charged E op R f (Next f') \<Longrightarrow> fine (prc E) (gas f) (k f')"
  shows "fine (prc E) (gas f) (and_then r k)"
  using assms by (cases r) (simp_all add: and_then_def)

lemma quiet_fine:
  assumes "quiet cont f r" and "frame_ok P f" and "gas f \<le> g" and "cont \<Longrightarrow> gas f < g"
  shows "fine P g r"
  using assms by (cases r) (auto simp: kept_def frame_ok_def mem_ok_def)

lemma gas_okD:
  "gas_ok E pops um low d \<Longrightarrow> mem_ok (prc E) f \<Longrightarrow> pops \<le> length (stk f) \<Longrightarrow> 32 dvd unat sz \<Longrightarrow> um \<or> sz = 0
   \<Longrightarrow> metered (prc E) sz f (\<lambda>c f'. low \<le> c) (d E sz f)"
  unfolding gas_ok_def by blast

lemma op_okI:
  assumes "exec_ok cont E (min_stack op) (memorySize op) (execute op)"
    and "needs (min_stack op) (memorySize op)"
    and dyn: "(case dynamicGas op of None \<Rightarrow> memorySize op = None \<and> low = 0
      | Some d \<Rightarrow> gas_ok E (min_stack op) (memorySize op \<noteq> None) low d)"
    and pos: "cont \<Longrightarrow> 0 < unat (constantGas op) + low"
  shows "op_ok E op"
  unfolding op_ok_def
proof (intro allI impI)
  fix n and run :: "'a runner" and f :: "'a frame"
  assume f: "frame_ok (prc E) f"
  have "charged E op (\<lambda>c e. low \<le> c) f (charge E op f)"
    using dyn gas_okD [of E "min_stack op" "memorySize op \<noteq> None" low]
    by (intro charge_ok [OF f assms(2)]) (auto simp: frame_ok_def)
  then show "fine (prc E) (gas f) (and_then (charge E op f) (execute op E run))"
  proof (rule fine_and_then)
    fix f'
    assume c: "charged E op (\<lambda>c e. low \<le> c) f (Next f')"
    then have "quiet cont f' (execute op E run f')"
      using assms(1) frame_sized [of "prc E" f'] by (auto simp: exec_ok_def)
    then show "fine (prc E) (gas f) (execute op E run f')"
      by (rule quiet_fine) (use c pos in \<open>auto simp: word_le_nat_alt word_less_nat_alt\<close>)
  qed
qed

section \<open>Calls and creations\<close>

text \<open>A slice of the memory that the charges account for.\<close>

definition held :: "u256 \<Rightarrow> u256 \<Rightarrow> 's frame \<Rightarrow> bool" where
  "held off l f \<longleftrightarrow> (\<exists>s. calcMemSize64 off l = (s, False) \<and> unat s \<le> length (mstore f))"

lemma covered_max:
  assumes "covered (Some (mem_max (mem2 a b) (mem2 c d))) f" and "max (max a b) (max c d) < length (stk f)"
  shows "held (stk f ! a) (stk f ! b) f" and "held (stk f ! c) (stk f ! d) f"
proof -
  obtain x ox y oy where xy: "calcMemSize64 (stk f ! a) (stk f ! b) = (x, ox)" "calcMemSize64 (stk f ! c) (stk f ! d) = (y, oy)"
    by fastforce
  then have "\<not> ox" "\<not> oy" "unat (if x > y then x else y) \<le> length (mstore f)"
    using assms by (auto simp: covered_def mem_max_def mem2_def Back_def split: if_splits)
  then show "held (stk f ! a) (stk f ! b) f" "held (stk f ! c) (stk f ! d) f"
    using xy by (auto simp: held_def word_less_nat_alt split: if_splits)
qed

lemma fine_with_slice:
  assumes "held off l f" and "frame_ok P f" and "\<And>b. length b < slice_bound \<Longrightarrow> fine P g (k b)"
  shows "fine P g (with_slice off l f k)"
proof -
  obtain s where "calcMemSize64 off l = (s, False)" "unat s \<le> length (mstore f)"
    using assms(1) by (auto simp: held_def)
  with GetPtr_ok [OF this] frame_sized [OF assms(2)] obtain b where
    "GetPtr (Uint64 off) (Uint64 l) (mstore f) = Some b" "length b \<le> memory_bound"
    by (auto simp: sized_def)
  then show ?thesis using assms(3) [of b] by (simp add: with_slice_def)
qed

lemma frame_ok_simps [simp]:
  "frame_ok P (push x f) = frame_ok P f" "frame_ok P (f\<lparr>stk := st\<rparr>) = frame_ok P f"
  "frame_ok P (f\<lparr>vm := e\<rparr>) = frame_ok P f" "frame_ok P (f\<lparr>gas := g\<rparr>) = frame_ok P f"
  "frame_ok P (f\<lparr>pc := p\<rparr>) = frame_ok P f" "frame_ok P (set_returnData b f) = frame_ok P f"
  by (simp_all add: frame_ok_def mem_ok_def push_def set_returnData_def)

lemma held_simps [simp]:
  "held a l (push x f) = held a l f" "held a l (f\<lparr>stk := st\<rparr>) = held a l f"
  "held a l (f\<lparr>vm := e\<rparr>) = held a l f" "held a l (f\<lparr>gas := g\<rparr>) = held a l f"
  by (simp_all add: held_def push_def)

lemma returned_gas:
  assumes "g' \<le> g" and "unat (gas f) + unat g < unat (g0 :: u64)"
  shows "gas f + g' < g0"
proof -
  have "unat (gas f) + unat g' < unat g0" using assms by (simp add: word_le_nat_alt)
  then show ?thesis using unat64_less [of g0] by (simp add: word_less_nat_alt unat_plus64)
qed

lemma fine_after_call:
  assumes "result_ok g r" and "held off l f" and "frame_ok P f" and "unat (gas f) + unat g < unat g0"
  shows "fine P g0 (after_call off l f r)"
proof (cases r)
  case (Ran err ret g' e)
  then have g: "gas f + g' < g0" using assms returned_gas [of g' g f g0] by simp
  obtain s where s: "calcMemSize64 off l = (s, False)" "unat s \<le> length (mstore f)"
    using assms(2) by (auto simp: held_def)
  then obtain m where m: "mem_Set (Uint64 off) (Uint64 l) ret (mstore f) = Some m" "length m = length (mstore f)"
    using mem_Set_ok [OF s, of ret] frame_sized [OF assms(3)] by (auto simp: sized_def)
  have "frame_ok P (f\<lparr>mstore := m\<rparr>)" using assms(3) m(2) by (simp add: frame_ok_def mem_ok_def)
  then show ?thesis
    using Ran g m assms(3)
    by (auto simp: after_call_def Let_def write_mem_def push_def set_returnData_def frame_ok_def mem_ok_def)
qed (use assms(1) in \<open>simp_all add: after_call_def\<close>)

lemma fine_after_create:
  assumes "result_ok g (snd r)" and "frame_ok P f" and "unat (gas f) + unat g < unat g0"
  shows "fine P g0 (after_create failed f r)"
proof (cases "snd r")
  case (Ran err ret g' e)
  then have "gas f + g' < g0" using assms returned_gas [of g' g f g0] by simp
  then show ?thesis using Ran assms(2)
    by (simp add: after_create_def Let_def push_def set_returnData_def frame_ok_def mem_ok_def)
qed (use assms(1) in \<open>simp_all add: after_create_def\<close>)

lemma call_opI:
  assumes need: "needs (min_stack op) (memorySize op)" and P: "prices_ok (prc E)"
    and dyn: "dynamicGas op = Some d" "call_ok 0 E (min_stack op) valued d" and mem: "memorySize op \<noteq> None"
    and pos: "0 < constantGas op"
    and exec: "\<And>n run f g0. runs_ok n run \<Longrightarrow> frame_ok (prc E) f \<Longrightarrow> covered (memorySize op) f \<Longrightarrow>
       min_stack op \<le> length (stk f) \<Longrightarrow> unat g0 \<le> n \<Longrightarrow>
       unat (gas f) + unat (callGasTemp (vm f)) + value_price E valued f < unat g0 \<Longrightarrow>
       fine (prc E) g0 (execute op E run f)"
  shows "op_ok E op"
  unfolding op_ok_def
proof (intro allI impI)
  fix n and run :: "'a runner" and f :: "'a frame"
  assume run: "runs_ok n run" and f: "frame_ok (prc E) f" and n: "unat (gas f) \<le> n"
  let ?R = "\<lambda>c e. unat (callGasTemp e) + value_price E valued f \<le> c"
  have "charged E op ?R f (charge E op f)"
  proof (rule charge_ok [OF f need])
    fix d' and f1 :: "'a frame" and sz :: u64
    assume f1: "dynamicGas op = Some d'" "frame_ok (prc E) f1" "stk f1 = stk f" "min_stack op \<le> length (stk f1)" "32 dvd unat sz"
    have "value_price E valued f1 = value_price E valued f" using f1(3) by (simp add: value_price_def)
    then have "metered (prc E) sz f1 (call_charged 0 (value_price E valued f) f1) (d' E sz f1)"
      using dyn f1 unfolding call_ok_def frame_ok_def by (metis option.inject)
    then show "metered (prc E) sz f1 (\<lambda>c f'. unat (callGasTemp (vm f')) + value_price E valued f \<le> c) (d' E sz f1)"
      by (rule metered_mono) (simp add: call_charged_def)
  qed (use dyn in simp)
  then show "fine (prc E) (gas f) (and_then (charge E op f) (execute op E run))"
  proof (rule fine_and_then)
    fix f'
    assume c: "charged E op ?R f (Next f')"
    have "0 < unat (constantGas op)" using pos by (simp add: word_less_nat_alt)
    moreover have "value_price E valued f' = value_price E valued f" using c by (simp add: value_price_def)
    ultimately show "fine (prc E) (gas f) (execute op E run f')"
      using c by (intro exec [OF run _ _ _ n]) auto
  qed
qed

lemma supplied_gas:
  assumes "prices_ok (prc E)" and "unat (gas f) + unat t + value_price E True f < unat (g0 :: u64)"
  shows "unat (gas f) + unat (t + (if stk f ! 2 \<noteq> 0 then prc E CallStipend else 0)) < unat g0"
proof -
  have "unat (prc E CallStipend) \<le> unat (prc E CallValueTransferGas)"
    using assms(1) by (simp add: prices_ok_def word_le_nat_alt)
  then show ?thesis
    using assms(2) unat64_less [of g0] by (auto simp: value_price_def unat_plus64)
qed

lemma items7: "7 \<le> length xs \<Longrightarrow> \<exists>a b c d e g h r. xs = a # b # c # d # e # g # h # r"
  and items6: "6 \<le> length xs \<Longrightarrow> \<exists>a b c d e g r. xs = a # b # c # d # e # g # r"
  by (auto simp: numeral_eq_Suc Suc_le_length_iff)

lemma opCall_fine:
  assumes E: "small_code E" and P: "prices_ok (prc E)" and run: "runs_ok n run" and f: "frame_ok (prc E) f"
    and cov: "covered (Some memoryCall) f" and st: "7 \<le> length (stk f)" and n: "unat g0 \<le> n"
    and g: "unat (gas f) + unat (callGasTemp (vm f)) + value_price E True f < unat g0"
  shows "fine (prc E) g0 (opCall E run f)" and "fine (prc E) g0 (opCallCode E run f)"
proof -
  obtain a b c d e j h r where s: "stk f = a # b # c # d # e # j # h # r" using items7 [OF st] by blast
  have h: "held j h f" "held d e f" using covered_max [of 5 6 3 4 f] cov st s by (auto simp: memoryCall_def)
  define G where "G = callGasTemp (vm f) + (if c \<noteq> 0 then prc E CallStipend else 0)"
  have sup: "unat (gas f) + unat G < unat g0" using supplied_gas [OF P g] s by (simp add: G_def)
  then have less: "unat G < n" using n by linarith
  have k: "fine (prc E) g0 (after_call j h (f\<lparr>stk := r\<rparr>) (Call E run x y args G v m))"
    "fine (prc E) g0 (after_call j h (f\<lparr>stk := r\<rparr>) (CallCode E run x y args G v m))"
    if "length args < slice_bound" for x y args v m
    by (rule fine_after_call [OF calls_ok(1) [OF E run less that]] fine_after_call [OF calls_ok(2) [OF E run less that]],
        use h(1) f sup in simp_all)+
  have lt: "gas f \<le> g0" using sup by (simp add: word_le_nat_alt)
  show "fine (prc E) g0 (opCall E run f)"
    using h(2) f by (simp add: opCall_def s Let_def G_def [symmetric] split del: if_split cong: if_cong) (rule fine_with_slice, auto simp: k lt)
  show "fine (prc E) g0 (opCallCode E run f)"
    using h(2) f by (simp add: opCallCode_def s Let_def G_def [symmetric] split del: if_split cong: if_cong) (rule fine_with_slice, auto simp: k lt)
qed

lemma opDelegateCall_fine:
  assumes E: "small_code E" and run: "runs_ok n run" and f: "frame_ok (prc E) f"
    and cov: "covered (Some memoryDelegateCall) f" and st: "6 \<le> length (stk f)" and n: "unat g0 \<le> n"
    and g: "unat (gas f) + unat (callGasTemp (vm f)) < unat g0"
  shows "fine (prc E) g0 (opDelegateCall E run f)" and "fine (prc E) g0 (opStaticCall E run f)"
proof -
  obtain a b d e j h r where s: "stk f = a # b # d # e # j # h # r" using items6 [OF st] by blast
  have h: "held j h f" "held d e f" using covered_max [of 4 5 2 3 f] cov st s by (auto simp: memoryDelegateCall_def)
  have less: "unat (callGasTemp (vm f)) < n" using n g by linarith
  have k: "fine (prc E) g0 (after_call j h (f\<lparr>stk := r\<rparr>) (DelegateCall E run c y args (callGasTemp (vm f)) m))"
    "fine (prc E) g0 (after_call j h (f\<lparr>stk := r\<rparr>) (StaticCall E run x y args (callGasTemp (vm f)) m))"
    if "length args < slice_bound" for c x y args m
    by (rule fine_after_call [OF calls_ok(3) [OF E run less that]] fine_after_call [OF calls_ok(4) [OF E run less that]],
        use h(1) f g in simp_all)+
  show "fine (prc E) g0 (opDelegateCall E run f)"
    using h(2) f by (simp add: opDelegateCall_def s) (rule fine_with_slice, auto simp: k)
  show "fine (prc E) g0 (opStaticCall E run f)"
    using h(2) f by (simp add: opStaticCall_def s) (rule fine_with_slice, auto simp: k)
qed

lemma op_ok_execI:
  assumes need: "needs (min_stack op) (memorySize op)" and dyn: "dynamicGas op = Some d"
    and gas: "gas_ok E (min_stack op) True 0 d" and mem: "memorySize op \<noteq> None" and pos: "0 < constantGas op"
    and exec: "\<And>n run f g0. runs_ok n run \<Longrightarrow> frame_ok (prc E) f \<Longrightarrow> covered (memorySize op) f \<Longrightarrow>
       min_stack op \<le> length (stk f) \<Longrightarrow> unat g0 \<le> n \<Longrightarrow> unat (gas f) < unat g0 \<Longrightarrow>
       fine (prc E) g0 (execute op E run f)"
  shows "op_ok E op"
  unfolding op_ok_def
proof (intro allI impI)
  fix n and run :: "'a runner" and f :: "'a frame"
  assume run: "runs_ok n run" and f: "frame_ok (prc E) f" and n: "unat (gas f) \<le> n"
  have "charged E op (\<lambda>c e. 0 \<le> c) f (charge E op f)"
    using dyn mem gas_okD [OF gas] by (intro charge_ok [OF f need]) (auto simp: frame_ok_def)
  then show "fine (prc E) (gas f) (and_then (charge E op f) (execute op E run))"
  proof (rule fine_and_then)
    fix f'
    assume c: "charged E op (\<lambda>c e. 0 \<le> c) f (Next f')"
    have "0 < unat (constantGas op)" using pos by (simp add: word_less_nat_alt)
    then show "fine (prc E) (gas f) (execute op E run f')"
      using c by (intro exec [OF run _ _ _ n]) auto
  qed
qed

lemma opCreate_fine:
  assumes run: "runs_ok n run" and f: "frame_ok (prc E) f"
    and cov: "covered (Some memoryCreate) f" and n: "unat g0 \<le> n" and g: "unat (gas f) < unat g0"
  shows "3 \<le> length (stk f) \<Longrightarrow> fine (prc E) g0 (opCreate E run f)"
    and "4 \<le> length (stk f) \<Longrightarrow> fine (prc E) g0 (opCreate2 E run f)"
proof -
  have le: "unat (gas f div 64) + unat (gas f - gas f div 64) \<le> unat (gas f)"
    by (simp add: unat_sub word_le_nat_alt unat_div)
  have gg: "gas f \<le> g0" using g by (simp add: word_le_nat_alt)
  have k: "fine (prc E) g0 (after_create F (f\<lparr>stk := st, gas := y\<rparr>) (Create E run a code x v m))"
    "fine (prc E) g0 (after_create F (f\<lparr>stk := st, gas := y\<rparr>) (Create2 E run a code x v salt m))"
    if code: "length code < slice_bound" and yx: "unat y + unat x \<le> unat (gas f)" for F st x y a code v m salt
  proof -
    have "unat x < n" "unat y + unat x < unat g0" using yx n g by linarith+
    then show "fine (prc E) g0 (after_create F (f\<lparr>stk := st, gas := y\<rparr>) (Create E run a code x v m))"
      "fine (prc E) g0 (after_create F (f\<lparr>stk := st, gas := y\<rparr>) (Create2 E run a code x v salt m))"
      using f creates_ok [OF run _ code] by (auto intro!: fine_after_create)
  qed
  show "fine (prc E) g0 (opCreate E run f)" if "3 \<le> length (stk f)"
  proof -
    obtain a b c r where s: "stk f = a # b # c # r"
      using \<open>3 \<le> length (stk f)\<close> by (auto simp: numeral_eq_Suc Suc_le_length_iff)
    then have "held b c f" using cov by (auto simp: mem_simps held_def)
    then show ?thesis using f le gg
      by (simp add: opCreate_def s Let_def) (auto intro!: fine_with_slice k)
  qed
  show "fine (prc E) g0 (opCreate2 E run f)" if "4 \<le> length (stk f)"
  proof -
    obtain a b c d r where s: "stk f = a # b # c # d # r"
      using \<open>4 \<le> length (stk f)\<close> by (auto simp: numeral_eq_Suc Suc_le_length_iff)
    then have "held b c f" using cov by (auto simp: mem_simps held_def)
    then show ?thesis using f le gg
      by (simp add: opCreate2_def s Let_def) (auto intro!: fine_with_slice k)
  qed
qed

end
