(* ===== verification/EvmProps.thy ===== *)
theory EvmProps
  imports EvmSafety
begin

text \<open>
  The current instruction table meets the contracts of the interpreter, and what follows for runs:
  they end within their gas, return no more than it and never panic on their stack or memory.
\<close>

section \<open>Entries of the table\<close>

lemma needs_simps [simp]:
  "needs pops None"
  "needs pops (Some (mem1 l)) \<longleftrightarrow> 0 < pops"
  "i < pops \<Longrightarrow> j < pops \<Longrightarrow> needs pops (Some (mem2 i j))"
  by (auto simp: needs_def mem1_def mem2_def Back_def intro: exI [of _ "replicate pops 0"])

lemma needs_max [simp]:
  "needs pops (Some a) \<Longrightarrow> needs pops (Some b) \<Longrightarrow> needs pops (Some (mem_max a b))"
  by (fastforce simp: needs_def mem_max_def split: prod.splits)

lemmas entry_simps = entry_def minStack_def minDupStack_def minSwapStack_def

lemma plain_entry:
  "exec_ok cont E pops None ex \<Longrightarrow> (cont \<Longrightarrow> 0 < c) \<Longrightarrow> op_ok E (entry P ex c None pops pushes None)"
  by (rule op_okI [where cont = cont and low = 0]) (auto simp: entry_simps word_less_nat_alt)

lemma dynamic_entry:
  "exec_ok cont E pops None ex \<Longrightarrow> gas_ok E pops False low d \<Longrightarrow> (cont \<Longrightarrow> 0 < c \<or> 0 < low) \<Longrightarrow>
   op_ok E (entry P ex c (Some d) pops pushes None)"
  by (rule op_okI [where cont = cont and low = low]) (auto simp: entry_simps word_less_nat_alt)

lemma memory_entry:
  "exec_ok cont E pops (Some m) ex \<Longrightarrow> gas_ok E pops True low d \<Longrightarrow> needs pops (Some m) \<Longrightarrow>
   (cont \<Longrightarrow> 0 < c \<or> 0 < low) \<Longrightarrow> op_ok E (entry P ex c (Some d) pops pushes (Some m))"
  by (rule op_okI [where cont = cont and low = low]) (auto simp: entry_simps word_less_nat_alt)

definition changed :: "byte list" where
  "changed = [OP_DELEGATECALL, OP_CALLCODE, OP_CALL, OP_EXTCODECOPY, OP_SLOAD, OP_EXTCODESIZE, OP_BALANCE,
     OP_EXP, OP_STATICCALL, OP_RETURNDATASIZE, OP_RETURNDATACOPY, OP_REVERT, OP_SHL, OP_SHR, OP_SAR,
     OP_EXTCODEHASH, OP_CREATE2, OP_CHAINID, OP_SELFBALANCE, OP_SSTORE, OP_SELFDESTRUCT, OP_BASEFEE, OP_RANDOM]"

lemma set_apply:
  "set_constant b c T x = (if x = b then (T x)\<lparr>constantGas := c\<rparr> else T x)"
  "set_dynamic b d T x = (if x = b then (T x)\<lparr>dynamicGas := Some d\<rparr> else T x)"
  "reprice b c d T x = (if x = b then (T x)\<lparr>constantGas := c, dynamicGas := Some d\<rparr> else T x)"
  by (simp_all add: set_constant_def set_dynamic_def reprice_def)

lemmas table_defs = newMergeInstructionSet_def newLondonInstructionSet_def newBerlinInstructionSet_def
  newIstanbulInstructionSet_def newConstantinopleInstructionSet_def newByzantiumInstructionSet_def
  newSpuriousDragonInstructionSet_def newTangerineWhistleInstructionSet_def newHomesteadInstructionSet_def
  enable1344_def enable1884_def enable2200_def enable2929_def enable3198_def enable3529_def
  set_apply

lemma merge_unchanged: "b \<notin> set changed \<Longrightarrow> newMergeInstructionSet P b = newFrontierInstructionSet P b"
  by (simp add: changed_def table_defs)

lemma frontier_lookups:
  "newFrontierInstructionSet P OP_CALL = entry P opCall (P CallGasFrontier) (Some gasCall) 7 1 (Some memoryCall)"
  "newFrontierInstructionSet P OP_CALLCODE = entry P opCallCode (P CallGasFrontier) (Some gasCallCode) 7 1 (Some memoryCall)"
  "newFrontierInstructionSet P OP_EXTCODECOPY = entry P opExtCodeCopy (P ExtcodeCopyBaseFrontier) (Some gasExtCodeCopy) 4 0 (Some memoryExtCodeCopy)"
  "newFrontierInstructionSet P OP_SLOAD = entry P opSload (P SloadGasFrontier) None 1 1 None"
  "newFrontierInstructionSet P OP_EXTCODESIZE = entry P opExtCodeSize (P ExtcodeSizeGasFrontier) None 1 1 None"
  "newFrontierInstructionSet P OP_BALANCE = entry P opBalance (P BalanceGasFrontier) None 1 1 None"
  "newFrontierInstructionSet P OP_EXP = entry P opExp 0 (Some gasExpFrontier) 2 1 None"
  "newFrontierInstructionSet P OP_SSTORE = entry P opSstore 0 (Some gasSStore) 2 0 None"
  "newFrontierInstructionSet P OP_SELFDESTRUCT = entry P opSelfdestruct 0 (Some gasSelfdestruct) 1 0 None"
  by (simp_all add: newFrontierInstructionSet_def frontier_entries_def basic_entries_def)

lemma merge_changed:
  "newMergeInstructionSet P OP_DELEGATECALL = entry P opDelegateCall (P WarmStorageReadCostEIP2929) (Some gasDelegateCallEIP2929) 6 1 (Some memoryDelegateCall)"
  "newMergeInstructionSet P OP_CALLCODE = entry P opCallCode (P WarmStorageReadCostEIP2929) (Some gasCallCodeEIP2929) 7 1 (Some memoryCall)"
  "newMergeInstructionSet P OP_CALL = entry P opCall (P WarmStorageReadCostEIP2929) (Some gasCallEIP2929) 7 1 (Some memoryCall)"
  "newMergeInstructionSet P OP_EXTCODECOPY = entry P opExtCodeCopy (P WarmStorageReadCostEIP2929) (Some gasExtCodeCopyEIP2929) 4 0 (Some memoryExtCodeCopy)"
  "newMergeInstructionSet P OP_SLOAD = entry P opSload 0 (Some gasSLoadEIP2929) 1 1 None"
  "newMergeInstructionSet P OP_EXTCODESIZE = entry P opExtCodeSize (P WarmStorageReadCostEIP2929) (Some gasEip2929AccountCheck) 1 1 None"
  "newMergeInstructionSet P OP_BALANCE = entry P opBalance (P WarmStorageReadCostEIP2929) (Some gasEip2929AccountCheck) 1 1 None"
  "newMergeInstructionSet P OP_EXP = entry P opExp 0 (Some gasExpEIP158) 2 1 None"
  "newMergeInstructionSet P OP_STATICCALL = entry P opStaticCall (P WarmStorageReadCostEIP2929) (Some gasStaticCallEIP2929) 6 1 (Some memoryStaticCall)"
  "newMergeInstructionSet P OP_RETURNDATASIZE = entry P opReturnDataSize GasQuickStep None 0 1 None"
  "newMergeInstructionSet P OP_RETURNDATACOPY = entry P opReturnDataCopy GasFastestStep (Some gasReturnDataCopy) 3 0 (Some memoryReturnDataCopy)"
  "newMergeInstructionSet P OP_REVERT = entry P opRevert 0 (Some pureMemoryGascost) 2 0 (Some memoryRevert)"
  "newMergeInstructionSet P OP_SHL = entry P opSHL GasFastestStep None 2 1 None"
  "newMergeInstructionSet P OP_SHR = entry P opSHR GasFastestStep None 2 1 None"
  "newMergeInstructionSet P OP_SAR = entry P opSAR GasFastestStep None 2 1 None"
  "newMergeInstructionSet P OP_EXTCODEHASH = entry P opExtCodeHash (P WarmStorageReadCostEIP2929) (Some gasEip2929AccountCheck) 1 1 None"
  "newMergeInstructionSet P OP_CREATE2 = entry P opCreate2 (P Create2Gas) (Some gasCreate2) 4 1 (Some memoryCreate2)"
  "newMergeInstructionSet P OP_CHAINID = entry P opChainID GasQuickStep None 0 1 None"
  "newMergeInstructionSet P OP_SELFBALANCE = entry P opSelfBalance GasFastStep None 0 1 None"
  "newMergeInstructionSet P OP_SSTORE = entry P opSstore 0 (Some gasSStoreEIP3529) 2 0 None"
  "newMergeInstructionSet P OP_SELFDESTRUCT = entry P opSelfdestruct (P SelfdestructGasEIP150) (Some gasSelfdestructEIP3529) 1 0 None"
  "newMergeInstructionSet P OP_BASEFEE = entry P opBaseFee GasQuickStep None 0 1 None"
  "newMergeInstructionSet P OP_RANDOM = entry P opRandom GasQuickStep None 0 1 None"
  by (simp_all add: table_defs frontier_lookups entry_def)

lemmas step_prices = GasQuickStep_def GasFastestStep_def GasFastStep_def GasMidStep_def GasSlowStep_def GasExtStep_def
lemmas memory_fns = memoryKeccak256_def memoryCallDataCopy_def memoryReturnDataCopy_def memoryCodeCopy_def
  memoryExtCodeCopy_def memoryMLoad_def memoryMStore8_def memoryMStore_def memoryCreate_def
  memoryCreate2_def memoryReturn_def memoryRevert_def memoryLog_def memoryCall_def
  memoryDelegateCall_def memoryStaticCall_def

lemma needs_fns:
  "needs 7 (Some memoryCall)" "needs 6 (Some memoryDelegateCall)" "needs 6 (Some memoryStaticCall)"
  "needs 3 (Some memoryCreate)" "needs 4 (Some memoryCreate2)" "needs 2 (Some memoryKeccak256)"
  "needs 3 (Some memoryCallDataCopy)" "needs 3 (Some memoryReturnDataCopy)" "needs 3 (Some memoryCodeCopy)"
  "needs 4 (Some memoryExtCodeCopy)" "needs 1 (Some memoryMLoad)" "needs 2 (Some memoryMStore8)"
  "needs 2 (Some memoryMStore)" "needs 2 (Some memoryReturn)" "needs 2 (Some memoryRevert)"
  "needs (n + 2) (Some memoryLog)"
  by (simp_all add: memory_fns)

lemma create_entries:
  assumes "prices_ok (prc E)"
  shows "0 < c \<Longrightarrow> op_ok E (entry (prc E) opCreate c (Some pureMemoryGascost) 3 1 (Some memoryCreate))"
    and "0 < c \<Longrightarrow> op_ok E (entry (prc E) opCreate2 c (Some gasCreate2) 4 1 (Some memoryCreate2))"
proof -
  have same: "memoryCreate2 = memoryCreate" by (simp add: memoryCreate2_def memoryCreate_def)
  show "op_ok E (entry (prc E) opCreate c (Some pureMemoryGascost) 3 1 (Some memoryCreate))" if "0 < c"
    by (rule op_ok_execI [where d = pureMemoryGascost])
      (use that assms in \<open>auto simp: entry_simps needs_fns intro: opCreate_fine gas_rules\<close>)
  show "op_ok E (entry (prc E) opCreate2 c (Some gasCreate2) 4 1 (Some memoryCreate2))" if "0 < c"
    by (rule op_ok_execI [where d = gasCreate2])
      (use that assms needs_fns in \<open>auto simp: entry_simps same intro: opCreate_fine gas_rules\<close>)
qed

definition current :: "'s env \<Rightarrow> bool" where
  "current E \<longleftrightarrow> prices_ok (prc E) \<and> IsEIP150 (chainRules E) \<and> small_code E"

lemma call_entries:
  assumes "current E"
  shows "0 < c \<Longrightarrow> op_ok E (entry (prc E) opCall c (Some gasCallEIP2929) 7 1 (Some memoryCall))"
    and "0 < c \<Longrightarrow> op_ok E (entry (prc E) opCallCode c (Some gasCallCodeEIP2929) 7 1 (Some memoryCall))"
    and "0 < c \<Longrightarrow> op_ok E (entry (prc E) opDelegateCall c (Some gasDelegateCallEIP2929) 6 1 (Some memoryDelegateCall))"
    and "0 < c \<Longrightarrow> op_ok E (entry (prc E) opStaticCall c (Some gasStaticCallEIP2929) 6 1 (Some memoryStaticCall))"
proof -
  have P: "prices_ok (prc E)" and R: "IsEIP150 (chainRules E)" and C: "small_code E"
    using assms by (simp_all add: current_def)
  note gas = call_rules [OF P P R, simplified]
  have same: "memoryStaticCall = memoryDelegateCall" by (simp add: memoryStaticCall_def memoryDelegateCall_def)
  show "op_ok E (entry (prc E) opCall c (Some gasCallEIP2929) 7 1 (Some memoryCall))" if "0 < c"
    by (rule call_opI [where valued = True and d = gasCallEIP2929])
      (use that P C gas in \<open>auto simp: entry_simps needs_fns intro: opCall_fine\<close>)
  show "op_ok E (entry (prc E) opCallCode c (Some gasCallCodeEIP2929) 7 1 (Some memoryCall))" if "0 < c"
    by (rule call_opI [where valued = True and d = gasCallCodeEIP2929])
      (use that P C gas in \<open>auto simp: entry_simps needs_fns intro: opCall_fine\<close>)
  show "op_ok E (entry (prc E) opDelegateCall c (Some gasDelegateCallEIP2929) 6 1 (Some memoryDelegateCall))" if "0 < c"
    by (rule call_opI [where valued = False and d = gasDelegateCallEIP2929])
      (use that P C gas in \<open>auto simp: entry_simps needs_fns value_price_def intro: opDelegateCall_fine\<close>)
  show "op_ok E (entry (prc E) opStaticCall c (Some gasStaticCallEIP2929) 6 1 (Some memoryStaticCall))" if "0 < c"
    by (rule call_opI [where valued = False and d = gasStaticCallEIP2929])
      (use that P C gas in \<open>auto simp: entry_simps needs_fns value_price_def same intro: opDelegateCall_fine\<close>)
qed

section \<open>The table\<close>

lemma basic_ok:
  assumes "current E"
  shows "list_all (\<lambda>(b, op). b \<in> set changed \<or> op_ok E op) (basic_entries (prc E))"
proof -
  have P: "prices_ok (prc E)" using assms by (simp add: current_def)
  then have pos: "0 < prc E JumpdestGas" "0 < prc E Keccak256Gas" "0 < prc E CreateGas"
    by (simp_all add: prices_ok_def)
  show ?thesis
    unfolding basic_entries_def list.pred_inject prod.case
    by (intro conjI TrueI)
      ((rule disjI1, simp add: changed_def; fail) |
       (rule disjI2, rule plain_entry, rule exec_rules, simp add: step_prices pos; fail) |
       (rule disjI2, rule memory_entry, rule exec_rules, rule gas_rules, rule P, rule needs_fns, simp add: step_prices pos; fail) |
       (rule disjI2, rule memory_entry, rule exec_rules, rule copier_ok, rule P, rule needs_fns, simp add: step_prices pos; fail) |
       (rule disjI2, rule create_entries, rule P, rule pos) | (simp; fail))+
qed

lemma range_ok:
  assumes "prices_ok (prc E)"
  shows "\<forall>(b, op) \<in> set (push_entries (prc E) @ dup_entries (prc E) @ swap_entries (prc E) @ log_entries (prc E)). op_ok E op"
proof -
  have "op_ok E (entry (prc E) (makePush n) GasFastestStep None 0 1 None)" for n
    by (rule plain_entry, rule exec_rules) (simp add: step_prices)
  moreover have "op_ok E \<lparr>execute = makeDup n, constantGas = GasFastestStep, dynamicGas = None,
      min_stack = minDupStack n, max_stack = maxDupStack (prc E) n, memorySize = None\<rparr>" if "0 < n" for n
    by (rule op_okI [where cont = True and low = 0])
      (use makeDup_ok [OF that] in \<open>simp_all add: entry_simps step_prices\<close>)
  moreover have "op_ok E \<lparr>execute = makeSwap n, constantGas = GasFastestStep, dynamicGas = None,
      min_stack = minSwapStack (n + 1), max_stack = maxSwapStack (prc E) (n + 1), memorySize = None\<rparr>" for n
    by (rule op_okI [where cont = True and low = 0])
      (use makeSwap_ok [of E n] in \<open>simp_all add: entry_simps step_prices\<close>)
  moreover have "op_ok E (entry (prc E) (makeLog n) 0 (Some (makeGasLog k)) (n + 2) 0 (Some memoryLog))" for n k
    by (rule memory_entry, rule exec_rules, rule makeGasLog_ok, rule assms, rule needs_fns) simp
  ultimately show ?thesis
    by (auto simp: push_entries_def dup_entries_def swap_entries_def log_entries_def simp del: upt_Suc upt_rec_numeral)
qed

lemma changed_ok:
  assumes "current E" and "b \<in> set changed"
  shows "op_ok E (newMergeInstructionSet (prc E) b)"
proof -
  have P: "prices_ok (prc E)" and C: "small_code E" using assms by (simp_all add: current_def)
  then have pos: "0 < prc E WarmStorageReadCostEIP2929" "0 < prc E Create2Gas" by (simp_all add: prices_ok_def)
  have "list_all (\<lambda>b. op_ok E (newMergeInstructionSet (prc E) b)) changed"
    unfolding changed_def list.pred_inject merge_changed
    by (intro conjI TrueI)
      ((rule plain_entry, rule exec_rules, simp add: step_prices; fail) |
       (rule dynamic_entry, rule exec_rules, rule gas_rules, rule P, simp add: pos; fail) |
       (rule dynamic_entry, rule exec_rules, rule gas_rules, simp add: pos; fail) |
       (rule memory_entry, rule exec_rules, rule C, rule gas_rules, rule P, rule needs_fns, simp add: pos; fail) |
       (rule memory_entry, rule exec_rules, rule gas_rules, rule P, rule needs_fns, simp add: pos step_prices; fail) |
       (rule create_entries [OF P], rule pos) | (rule call_entries [OF assms(1)], rule pos) | (simp; fail))+
  then show ?thesis using assms(2) by (simp add: list_all_iff)
qed

text \<open>The remaining bytes are undefined; the interpreter meets them inside the code only.\<close>

definition op_at_ok :: "'s env \<Rightarrow> byte \<Rightarrow> 's vm_operation \<Rightarrow> bool" where
  "op_at_ok E b op \<longleftrightarrow> (\<forall>n run f. runs_ok n run \<longrightarrow> frame_ok (prc E) f \<longrightarrow> unat (gas f) \<le> n \<longrightarrow>
     GetOp (ctr f) (pc f) = b \<longrightarrow> fine (prc E) (gas f) (and_then (charge E op f) (execute op E run)))"

lemma undefined_ok: "b \<noteq> STOP \<Longrightarrow> op_at_ok E b (undefined_entry P)"
  by (auto simp: op_at_ok_def undefined_entry_def charge_def and_then_def UseGas_def opUndefined_def GetOp_def
      split: if_splits)

lemma merge_table_ok:
  fixes E :: "'s env"
  assumes "current E"
  shows "op_at_ok E b (newMergeInstructionSet (prc E) b)"
proof (cases "b \<in> set changed")
  case True
  then show ?thesis using changed_ok [OF assms] by (auto simp: op_ok_def op_at_ok_def)
next
  case False
  have P: "prices_ok (prc E)" using assms by (simp add: current_def)
  show ?thesis
  proof (cases "map_of (frontier_entries (prc E) :: (byte \<times> 's vm_operation) list) b")
    case None
    then have "b \<noteq> STOP" by (auto simp: frontier_entries_def basic_entries_def STOP_def)
    then show ?thesis using False None undefined_ok by (simp add: merge_unchanged newFrontierInstructionSet_def)
  next
    case (Some op)
    then have "(b, op) \<in> set (frontier_entries (prc E))" by (rule map_of_SomeD)
    then have "op_ok E op" using basic_ok [OF assms] range_ok [OF P] False
      by (auto simp: frontier_entries_def list_all_iff)
    then show ?thesis using False Some
      by (auto simp: merge_unchanged newFrontierInstructionSet_def op_ok_def op_at_ok_def)
  qed
qed

section \<open>Runs\<close>

lemma loop_fine:
  assumes E: "current E" and T: "\<And>b. op_at_ok E b (T b)"
  shows "frame_ok (prc E) f \<Longrightarrow> unat (gas f) < n \<Longrightarrow>
    (case loop E T n f of Next _ \<Rightarrow> False | Halt _ _ f' \<Rightarrow> gas f' \<le> gas f | VmPanic s \<Rightarrow> host_panic s | NoFuel \<Rightarrow> False)"
    and "runs_ok n (run_with (loop E T n))"
proof (induction n arbitrary: f)
  case 0
  {
    case 1
    then show ?case by simp
  next
    case 2
    show ?case by (simp add: runs_ok_def)
  }
next
  case (Suc n)
  have main: "(case loop E T (Suc n) f of Next _ \<Rightarrow> False | Halt _ _ f' \<Rightarrow> gas f' \<le> gas f
      | VmPanic s \<Rightarrow> host_panic s | NoFuel \<Rightarrow> False)"
    if f: "frame_ok (prc E) f" and g: "unat (gas f) < Suc n" for f
  proof -
    let ?op = "T (GetOp (ctr f) (pc f))"
    let ?r = "and_then (charge E ?op f) (execute ?op E (run_with (loop E T n)))"
    have fine: "fine (prc E) (gas f) ?r"
      using T [of "GetOp (ctr f) (pc f)"] Suc.IH(2) f g by (auto simp: op_at_ok_def less_Suc_eq_le)
    have step: "step E T (run_with (loop E T n)) f = and_then ?r (\<lambda>f. Next (f\<lparr>pc := pc f + 1\<rparr>))"
      by (simp add: step_def Let_def and_then_def split: outcome.splits)
    show ?thesis
    proof (cases ?r)
      case (Next f')
      then have "frame_ok (prc E) (f'\<lparr>pc := pc f' + 1\<rparr>)" "gas f' < gas f" using fine by simp_all
      moreover from this have "unat (gas f') < n" using g by (simp add: word_less_nat_alt)
      ultimately show ?thesis using Suc.IH(1) [of "f'\<lparr>pc := pc f' + 1\<rparr>"] Next step
        by (auto simp: and_then_def split: outcome.splits)
    qed (use fine step in \<open>simp_all add: and_then_def\<close>)
  qed
  {
    case 1
    then show ?case using main by blast
  next
    case 2
    have "result_ok (cgas c) (run_with (loop E T (Suc n)) c inp ro e)"
      if "unat (cgas c) < Suc n" "length (Code c) < slice_bound" "length inp < slice_bound" for c inp ro e
    proof -
      have "frame_ok (prc E) (new_frame c inp e)" for e
        using that by (simp add: frame_ok_def mem_ok_def new_frame_def fee_def)
      then show ?thesis using main [of "new_frame c inp _"] that(1)
        by (fastforce simp: run_with_def Let_def new_frame_def simp del: loop.simps split: outcome.splits)
    qed
    then show ?case by (simp add: runs_ok_def del: loop.simps)
  }
qed

lemma base_runs_ok: "current E \<Longrightarrow> IsMerge (chainRules E) \<Longrightarrow> runs_ok n (Run E (base_table E) n)"
  unfolding Run_def by (rule loop_fine(2)) (simp_all add: base_table_def merge_table_ok Let_def)

lemma evm_results:
  assumes "current E" and "IsMerge (chainRules E)" and "length inp < slice_bound" and "unat g < fuel"
  shows "result_ok g (Call E (Run E (base_table E) fuel) caller addr inp g amount e)"
    and "result_ok g (snd (Create E (Run E (base_table E) fuel) caller inp g amount e))"
  using base_runs_ok [OF assms(1,2), of fuel] assms by (auto simp: current_def intro: calls_ok creates_ok)

section \<open>A concrete machine\<close>

text \<open>The prices of go-ethereum that the contracts above speak about, and a database with one contract.\<close>

definition geth_prices :: prices where
  "geth_prices p = (case p of
     StackLimit \<Rightarrow> 1024 | CallCreateDepth \<Rightarrow> 1024 | MaxCodeSize \<Rightarrow> 24576 | CreateDataGas \<Rightarrow> 200
   | MemoryGas \<Rightarrow> 3 | QuadCoeffDiv \<Rightarrow> 512 | CopyGas \<Rightarrow> 3 | Keccak256Gas \<Rightarrow> 30 | Keccak256WordGas \<Rightarrow> 6
   | JumpdestGas \<Rightarrow> 1 | LogGas \<Rightarrow> 375 | LogTopicGas \<Rightarrow> 375 | LogDataGas \<Rightarrow> 8
   | ExpGas \<Rightarrow> 10 | ExpByteEIP158 \<Rightarrow> 50 | CreateGas \<Rightarrow> 32000 | Create2Gas \<Rightarrow> 32000
   | CallNewAccountGas \<Rightarrow> 25000 | CallValueTransferGas \<Rightarrow> 9000 | CallStipend \<Rightarrow> 2300
   | SstoreSentryGasEIP2200 \<Rightarrow> 2300 | SstoreSetGasEIP2200 \<Rightarrow> 20000 | SstoreResetGasEIP2200 \<Rightarrow> 5000
   | SstoreClearsScheduleRefundEIP3529 \<Rightarrow> 4800 | ColdSloadCostEIP2929 \<Rightarrow> 2100
   | ColdAccountAccessCostEIP2929 \<Rightarrow> 2600 | WarmStorageReadCostEIP2929 \<Rightarrow> 100
   | SelfdestructGasEIP150 \<Rightarrow> 5000 | CreateBySelfdestructGas \<Rightarrow> 25000 | _ \<Rightarrow> 0)"

lemma geth_prices_ok: "prices_ok geth_prices"
  by (simp add: prices_ok_def geth_prices_def)

definition all_rules :: rules where
  "all_rules = \<lparr>IsHomestead = True, IsEIP150 = True, IsEIP158 = True, IsByzantium = True,
     IsConstantinople = True, IsPetersburg = True, IsIstanbul = True, IsBerlin = True, IsLondon = True,
     IsMerge = True\<rparr>"

definition demo_db :: "bytes \<Rightarrow> unit state_db" where
  "demo_db code = \<lparr>db_CreateAccount = \<lambda>_ s. Some s, db_AddBalance = \<lambda>_ _ s. Some s, db_GetBalance = \<lambda>_ _. Some 0,
     db_GetNonce = \<lambda>_ _. Some 0, db_SetNonce = \<lambda>_ _ s. Some s, db_GetCodeHash = \<lambda>_ _. Some [],
     db_GetCode = \<lambda>_ _. Some code, db_SetCode = \<lambda>_ _ s. Some s, db_GetCodeSize = \<lambda>_ _. Some (length code),
     db_AddRefund = \<lambda>_ s. Some s, db_SubRefund = \<lambda>_ s. Some s, db_GetCommittedState = \<lambda>_ _ _. Some [],
     db_GetState = \<lambda>_ _ _. Some [], db_SetState = \<lambda>_ _ _ s. Some s, db_Suicide = \<lambda>_ s. Some s,
     db_HasSuicided = \<lambda>_ _. Some False, db_Exist = \<lambda>_ _. Some True, db_Empty = \<lambda>_ _. Some False,
     db_AddressInAccessList = \<lambda>_ _. Some True, db_SlotInAccessList = \<lambda>_ _ _. Some (True, True),
     db_AddAddressToAccessList = \<lambda>_ s. Some s, db_AddSlotToAccessList = \<lambda>_ _ s. Some s,
     db_RevertToSnapshot = \<lambda>_ s. Some s, db_Snapshot = \<lambda>s. Some (0, s), db_AddLog = \<lambda>_ s. Some s,
     db_AddPreimage = \<lambda>_ _ s. Some s\<rparr>"

definition demo_lib :: u256_lib where
  "demo_lib = \<lparr>u_Div = \<lambda>x y. x div y, u_SDiv = \<lambda>x y. x, u_Mod = \<lambda>x y. x mod y, u_SMod = \<lambda>x y. x,
     u_Exp = \<lambda>x y. x ^ unat y, u_ExtendSign = \<lambda>x y. x, u_Byte = \<lambda>x y. x, u_AddMod = \<lambda>x y z. (x + y) mod z,
     u_MulMod = \<lambda>x y z. (x * y) mod z\<rparr>"

definition demo_env :: "bytes \<Rightarrow> unit env" where
  "demo_env code = \<lparr>DB = demo_db code, prc = geth_prices, chainRules = all_rules, num = demo_lib,
     Keccak = \<lambda>_. [], CreateAddress = \<lambda>_ _. [], CreateAddress2 = \<lambda>_ _ _. [], precompiles = \<lambda>_ _. None,
     natives = \<lambda>_. None, GetHash = None, Coinbase = [], GasLimit = 0, BlockNumber = 0, BlockTime = 0,
     Difficulty = 0, BaseFee = 0, Random = [], Origin = [], TxGasPrice = 0, ChainId = 0,
     EnablePreimageRecording = False, abort = False\<rparr>"

definition demo_evm :: "unit evm" where
  "demo_evm = \<lparr>statedb = (), depth = 0, readOnly = False, returnData = [], callGasTemp = 0\<rparr>"

lemma demo_current:
  "length code < slice_bound \<Longrightarrow> current (demo_env code)" "IsMerge (chainRules (demo_env code))"
  by (simp_all add: current_def demo_env_def geth_prices_ok all_rules_def small_code_def demo_db_def)

section \<open>Properties\<close>

text \<open>
  C6. Every call and every creation that the machine starts comes back: with more fuel than gas the
  interpreter of the current rules always returns, whatever the code, the database and the built-in
  contracts do. Each instruction that continues costs at least one unit, and the gas handed to a
  nested call, the stipend of a transfer included, is paid for before.
\<close>

theorem calls_come_back:
  assumes "current E" and "IsMerge (chainRules E)" and "length inp < slice_bound" and "unat g < fuel"
  shows "Call E (Run E (base_table E) fuel) caller addr inp g amount e \<noteq> RunNoFuel
    \<and> snd (Create E (Run E (base_table E) fuel) caller inp g amount e) \<noteq> RunNoFuel"
  using evm_results(1) [OF assms, of caller addr amount e] evm_results(2) [OF assms, of caller amount e] by (auto split: run_result.splits)

theorem calls_come_back_witness:
  "Call (demo_env [0x5b, 0x60, 0, 0x56]) (Run (demo_env [0x5b, 0x60, 0, 0x56]) (base_table (demo_env [0x5b, 0x60, 0, 0x56])) 1000001)
     [] [] [] 1000000 0 demo_evm \<noteq> RunNoFuel"
  using calls_come_back [where E = "demo_env [0x5b, 0x60, 0, 0x56]" and inp = "[]" and g = "1000000" and fuel = "1000001" and caller = "[]" and addr = "[]"
      and amount = 0 and e = demo_evm]
  by (simp add: demo_current)

text \<open>
  C8. Gas is never created: what a call or a creation gives back is at most what it was given,
  although prices are added, and the gas available to a callee is computed, in wrapping 64-bit
  arithmetic.
\<close>

theorem gas_never_created:
  assumes "current E" and "IsMerge (chainRules E)" and "length inp < slice_bound" and "unat g < fuel"
  shows "(Call E (Run E (base_table E) fuel) caller addr inp g amount e = Ran err ret g' e' \<longrightarrow> g' \<le> g)
    \<and> (snd (Create E (Run E (base_table E) fuel) caller inp g amount e) = Ran err ret g' e' \<longrightarrow> g' \<le> g)"
  using evm_results(1) [OF assms, of caller addr amount e] evm_results(2) [OF assms, of caller amount e] by auto

theorem gas_never_created_witness:
  "case Call (demo_env [0x5b, 0x60, 0, 0x56]) (Run (demo_env [0x5b, 0x60, 0, 0x56])
       (base_table (demo_env [0x5b, 0x60, 0, 0x56])) 13) [] [] [] 12 0 demo_evm of
     Ran err ret g' e' \<Rightarrow> g' \<le> 12 | _ \<Rightarrow> True"
  using gas_never_created [where E = "demo_env [0x5b, 0x60, 0, 0x56]" and inp = "[]" and g = "12" and fuel = "13" and caller = "[]" and addr = "[]"
      and amount = 0 and e = demo_evm]
  by (auto simp: demo_current split: run_result.splits)

text \<open>
  C7. The interpreter of the current rules does not go wrong by itself: no instruction reads a stack
  item that is not there, a byte outside the memory it was charged for, a slice outside its data or
  an undefined opcode outside the code. A panic can only come from the database, from the body of a
  native or precompiled contract, from a slot of a contract whose address is not on the access list,
  or from \<open>BLOCKHASH\<close> when the block context has no \<open>GetHash\<close>. The context that
  src/pkg/core/interop/context.go builds has none, so that there \<open>BLOCKHASH\<close> is a panic
  (\<open>blockhash_panics\<close>).
\<close>

theorem only_host_panics:
  assumes "current E" and "IsMerge (chainRules E)" and "length inp < slice_bound" and "unat g < fuel"
  shows "(Call E (Run E (base_table E) fuel) caller addr inp g amount e = RunPanic s \<longrightarrow> host_panic s)
    \<and> (snd (Create E (Run E (base_table E) fuel) caller inp g amount e) = RunPanic s \<longrightarrow> host_panic s)"
  using evm_results(1) [OF assms, of caller addr amount e] evm_results(2) [OF assms, of caller amount e] by auto

theorem only_host_panics_witness:
  "Call (demo_env [0x51]) (Run (demo_env [0x51]) (base_table (demo_env [0x51])) 13) [] [] [] 12 0 demo_evm
     \<noteq> RunPanic ''index out of range''"
  using only_host_panics [where E = "demo_env [0x51]" and inp = "[]" and g = "12" and fuel = "13" and caller = "[]" and addr = "[]"
      and amount = 0 and e = demo_evm and s = "''index out of range''"]
  by (auto simp: demo_current host_panic_def)

end
