(* ===== verification/EvmState.thy ===== *)
theory EvmState
  imports EvmProps
begin

text \<open>
  What a run does to the database. The laws of \<open>db_closed\<close> say which changes keep a property of the
  database; every run of the interpreter then keeps it. Writes that the machine refuses in read-only
  mode only need to keep it when \<open>hard\<close> is set.
\<close>

named_theorems state_rules

locale db_closed =
  fixes E :: "'s env" and I :: "'s \<Rightarrow> bool" and hard :: bool and amount_ok :: "int \<Rightarrow> bool"
  assumes snapshot: "I s \<Longrightarrow> db_Snapshot (DB E) s = Some (i, s') \<Longrightarrow>
      I s' \<and> (\<forall>t t'. I t \<longrightarrow> db_RevertToSnapshot (DB E) i t = Some t' \<longrightarrow> I t')"
    and create: "I s \<Longrightarrow> db_CreateAccount (DB E) a s = Some s' \<Longrightarrow> I s'"
    and touch: "I s \<Longrightarrow> db_AddBalance (DB E) a 0 s = Some s' \<Longrightarrow> I s'"
    and add_refund: "I s \<Longrightarrow> db_AddRefund (DB E) g s = Some s' \<Longrightarrow> I s'"
    and sub_refund: "I s \<Longrightarrow> db_SubRefund (DB E) g s = Some s' \<Longrightarrow> I s'"
    and add_address: "I s \<Longrightarrow> db_AddAddressToAccessList (DB E) a s = Some s' \<Longrightarrow> I s'"
    and add_slot: "I s \<Longrightarrow> db_AddSlotToAccessList (DB E) a k s = Some s' \<Longrightarrow> I s'"
    and add_preimage: "I s \<Longrightarrow> db_AddPreimage (DB E) h b s = Some s' \<Longrightarrow> I s'"
    and native: "I s \<Longrightarrow> natives E a = Some n \<Longrightarrow> n_Run n caller inp s = Some (r, s') \<Longrightarrow> I s'"
    and amount_word: "amount_ok (ToBig w)"
    and amount_minus: "amount_ok v \<Longrightarrow> amount_ok (- v)"
    and amount_balance: "db_GetBalance (DB E) s a = Some v \<Longrightarrow> amount_ok v"
    and add_balance: "hard \<Longrightarrow> amount_ok v \<Longrightarrow> I s \<Longrightarrow> db_AddBalance (DB E) a v s = Some s' \<Longrightarrow> I s'"
    and set_nonce: "hard \<Longrightarrow> I s \<Longrightarrow> db_SetNonce (DB E) a n' s = Some s' \<Longrightarrow> I s'"
    and set_code: "hard \<Longrightarrow> I s \<Longrightarrow> db_SetCode (DB E) a b s = Some s' \<Longrightarrow> I s'"
    and set_state: "hard \<Longrightarrow> I s \<Longrightarrow> db_SetState (DB E) a k v' s = Some s' \<Longrightarrow> I s'"
    and suicide: "hard \<Longrightarrow> I s \<Longrightarrow> db_Suicide (DB E) a s = Some s' \<Longrightarrow> I s'"
    and add_log: "hard \<Longrightarrow> I s \<Longrightarrow> db_AddLog (DB E) l s = Some s' \<Longrightarrow> I s'"
begin

definition J :: "bool \<Rightarrow> nat \<Rightarrow> 's evm \<Rightarrow> bool" where
  "J ro d e \<longleftrightarrow> I (statedb e) \<and> readOnly e = ro \<and> depth e = d"

fun safe :: "bool \<Rightarrow> nat \<Rightarrow> 's outcome \<Rightarrow> bool" where
  "safe ro d (Next f) \<longleftrightarrow> J ro d (vm f)"
| "safe ro d (Halt err ret f) \<longleftrightarrow> J ro d (vm f)"
| "safe ro d (VmPanic p) \<longleftrightarrow> True"
| "safe ro d NoFuel \<longleftrightarrow> True"

fun gsafe :: "bool \<Rightarrow> nat \<Rightarrow> 's gas_outcome \<Rightarrow> bool" where
  "gsafe ro d (Cost c f) \<longleftrightarrow> J ro d (vm f)"
| "gsafe ro d (GasErr e f) \<longleftrightarrow> J ro d (vm f)"
| "gsafe ro d (GasPanic p) \<longleftrightarrow> True"

fun rsafe :: "bool \<Rightarrow> nat \<Rightarrow> 's run_result \<Rightarrow> bool" where
  "rsafe ro d (Ran err ret g e) \<longleftrightarrow> J ro d e"
| "rsafe ro d (RunPanic p) \<longleftrightarrow> True"
| "rsafe ro d RunNoFuel \<longleftrightarrow> True"

lemma J_simps [simp]:
  "J ro d (vm (f\<lparr>stk := x\<rparr>)) = J ro d (vm f)" "J ro d (vm (push v f)) = J ro d (vm f)"
  "J ro d (vm (f\<lparr>pc := p\<rparr>)) = J ro d (vm f)" "J ro d (vm (f\<lparr>gas := g\<rparr>)) = J ro d (vm f)"
  "J ro d (vm (f\<lparr>mstore := m\<rparr>)) = J ro d (vm f)" "J ro d (vm (f\<lparr>lastGasCost := l\<rparr>)) = J ro d (vm f)"
  "J ro d (vm (set_returnData b f)) = J ro d (vm f)"
  "J ro d (e\<lparr>callGasTemp := t\<rparr>) = J ro d e"
  by (simp_all add: J_def push_def set_returnData_def)

lemma J_set: "J ro d (vm f) \<Longrightarrow> I s \<Longrightarrow> J ro d (vm (set_db s f))"
  "J ro d e \<Longrightarrow> I s \<Longrightarrow> J ro d (e\<lparr>statedb := s\<rparr>)"
  by (simp_all add: J_def set_db_def)

lemma J_db: "J ro d (vm f) \<Longrightarrow> I (db f)"
  by (simp add: J_def db_def)

lemma J_statedb: "J ro d e \<Longrightarrow> I (statedb e)"
  by (simp add: J_def)

lemma s_pop: "J ro d (vm f) \<Longrightarrow> (\<And>x f'. J ro d (vm f') \<Longrightarrow> safe ro d (k x f')) \<Longrightarrow> safe ro d (pop f k)"
  by (simp add: pop_def split: list.splits)

lemma s_ask: "(\<And>x. r = Some x \<Longrightarrow> safe ro d (k x)) \<Longrightarrow> safe ro d (ask r k)"
  by (cases r) (simp_all add: ask_def)

lemma s_upd:
  "J ro d (vm f) \<Longrightarrow> (\<And>s. I (db f) \<Longrightarrow> r = Some s \<Longrightarrow> I s) \<Longrightarrow> (\<And>f'. J ro d (vm f') \<Longrightarrow> safe ro d (k f')) \<Longrightarrow> safe ro d (upd r f k)"
  unfolding upd_def by (rule s_ask) (simp add: J_set J_db)

lemma s_with_slice: "(\<And>b. safe ro d (k b)) \<Longrightarrow> safe ro d (with_slice off l f k)"
  by (simp add: with_slice_def split: option.splits)

lemma s_slice_data: "(\<And>b. safe ro d (k b)) \<Longrightarrow> safe ro d (slice_data dat off l k)"
  by (simp add: slice_data_def split: option.splits)

lemma s_write_mem:
  "J ro d (vm f) \<Longrightarrow> (\<And>f'. J ro d (vm f') \<Longrightarrow> safe ro d (k f')) \<Longrightarrow> safe ro d (write_mem off l v f k)"
  by (simp add: write_mem_def split: option.splits)

lemma s_jump_to: "J ro d (vm f) \<Longrightarrow> safe ro d (jump_to p f)"
  by (simp add: jump_to_def split: option.splits)

lemma s_copy_data: "J ro d (vm f) \<Longrightarrow> safe ro d (copy_data dat a b c f)"
  unfolding copy_data_def by (intro s_slice_data s_write_mem) simp_all

lemma s_if: "(b \<Longrightarrow> safe ro d x) \<Longrightarrow> (\<not> b \<Longrightarrow> safe ro d y) \<Longrightarrow> safe ro d (if b then x else y)"
  by simp

lemmas s_rules = s_pop s_ask s_upd s_with_slice s_slice_data s_write_mem s_jump_to s_copy_data s_if

definition opsafe :: "'s exec_fn \<Rightarrow> bool" where
  "opsafe ex \<longleftrightarrow> (\<forall>run f ro d. J ro d (vm f) \<longrightarrow> hard \<or> ro \<longrightarrow>
     (\<forall>c inp ro' e. J ro d e \<longrightarrow> rsafe ro d (run c inp ro' e)) \<longrightarrow> safe ro d (ex E run f))"

lemma opsafeI:
  "(\<And>run f ro d. J ro d (vm f) \<Longrightarrow> hard \<or> ro \<Longrightarrow> (\<And>c inp ro' e. J ro d e \<Longrightarrow> rsafe ro d (run c inp ro' e)) \<Longrightarrow>
    safe ro d (ex E run f)) \<Longrightarrow> opsafe ex"
  by (simp add: opsafe_def)

lemma opAdd_safe [state_rules]: "opsafe opAdd"
  by (rule opsafeI) (auto simp: opAdd_def binop_def unop_def Let_def intro!: s_rules)

lemma opSub_safe [state_rules]: "opsafe opSub"
  by (rule opsafeI) (auto simp: opSub_def binop_def unop_def Let_def intro!: s_rules)

lemma opMul_safe [state_rules]: "opsafe opMul"
  by (rule opsafeI) (auto simp: opMul_def binop_def unop_def Let_def intro!: s_rules)

lemma opDiv_safe [state_rules]: "opsafe opDiv"
  by (rule opsafeI) (auto simp: opDiv_def binop_def unop_def Let_def intro!: s_rules)

lemma opSdiv_safe [state_rules]: "opsafe opSdiv"
  by (rule opsafeI) (auto simp: opSdiv_def binop_def unop_def Let_def intro!: s_rules)

lemma opMod_safe [state_rules]: "opsafe opMod"
  by (rule opsafeI) (auto simp: opMod_def binop_def unop_def Let_def intro!: s_rules)

lemma opSmod_safe [state_rules]: "opsafe opSmod"
  by (rule opsafeI) (auto simp: opSmod_def binop_def unop_def Let_def intro!: s_rules)

lemma opExp_safe [state_rules]: "opsafe opExp"
  by (rule opsafeI) (auto simp: opExp_def binop_def unop_def Let_def intro!: s_rules)

lemma opSignExtend_safe [state_rules]: "opsafe opSignExtend"
  by (rule opsafeI) (auto simp: opSignExtend_def binop_def unop_def Let_def intro!: s_rules)

lemma opLt_safe [state_rules]: "opsafe opLt"
  by (rule opsafeI) (auto simp: opLt_def binop_def unop_def Let_def intro!: s_rules)

lemma opGt_safe [state_rules]: "opsafe opGt"
  by (rule opsafeI) (auto simp: opGt_def binop_def unop_def Let_def intro!: s_rules)

lemma opSlt_safe [state_rules]: "opsafe opSlt"
  by (rule opsafeI) (auto simp: opSlt_def binop_def unop_def Let_def intro!: s_rules)

lemma opSgt_safe [state_rules]: "opsafe opSgt"
  by (rule opsafeI) (auto simp: opSgt_def binop_def unop_def Let_def intro!: s_rules)

lemma opEq_safe [state_rules]: "opsafe opEq"
  by (rule opsafeI) (auto simp: opEq_def binop_def unop_def Let_def intro!: s_rules)

lemma opAnd_safe [state_rules]: "opsafe opAnd"
  by (rule opsafeI) (auto simp: opAnd_def binop_def unop_def Let_def intro!: s_rules)

lemma opOr_safe [state_rules]: "opsafe opOr"
  by (rule opsafeI) (auto simp: opOr_def binop_def unop_def Let_def intro!: s_rules)

lemma opXor_safe [state_rules]: "opsafe opXor"
  by (rule opsafeI) (auto simp: opXor_def binop_def unop_def Let_def intro!: s_rules)

lemma opByte_safe [state_rules]: "opsafe opByte"
  by (rule opsafeI) (auto simp: opByte_def binop_def unop_def Let_def intro!: s_rules)

lemma opSHL_safe [state_rules]: "opsafe opSHL"
  by (rule opsafeI) (auto simp: opSHL_def binop_def unop_def Let_def intro!: s_rules)

lemma opSHR_safe [state_rules]: "opsafe opSHR"
  by (rule opsafeI) (auto simp: opSHR_def binop_def unop_def Let_def intro!: s_rules)

lemma opSAR_safe [state_rules]: "opsafe opSAR"
  by (rule opsafeI) (auto simp: opSAR_def binop_def unop_def Let_def intro!: s_rules)

lemma opNot_safe [state_rules]: "opsafe opNot"
  by (rule opsafeI) (auto simp: opNot_def binop_def unop_def Let_def intro!: s_rules)

lemma opIszero_safe [state_rules]: "opsafe opIszero"
  by (rule opsafeI) (auto simp: opIszero_def binop_def unop_def Let_def intro!: s_rules)

lemma opAddmod_safe [state_rules]: "opsafe opAddmod"
  by (rule opsafeI) (auto simp: opAddmod_def binop_def unop_def Let_def intro!: s_rules)

lemma opMulmod_safe [state_rules]: "opsafe opMulmod"
  by (rule opsafeI) (auto simp: opMulmod_def binop_def unop_def Let_def intro!: s_rules)

lemma opAddress_safe [state_rules]: "opsafe opAddress"
  by (rule opsafeI) (auto simp: opAddress_def binop_def unop_def Let_def intro!: s_rules)

lemma opBalance_safe [state_rules]: "opsafe opBalance"
  by (rule opsafeI) (auto simp: opBalance_def binop_def unop_def Let_def intro!: s_rules)

lemma opOrigin_safe [state_rules]: "opsafe opOrigin"
  by (rule opsafeI) (auto simp: opOrigin_def binop_def unop_def Let_def intro!: s_rules)

lemma opCaller_safe [state_rules]: "opsafe opCaller"
  by (rule opsafeI) (auto simp: opCaller_def binop_def unop_def Let_def intro!: s_rules)

lemma opCallValue_safe [state_rules]: "opsafe opCallValue"
  by (rule opsafeI) (auto simp: opCallValue_def binop_def unop_def Let_def intro!: s_rules)

lemma opCallDataLoad_safe [state_rules]: "opsafe opCallDataLoad"
  by (rule opsafeI) (auto simp: opCallDataLoad_def binop_def unop_def Let_def intro!: s_rules)

lemma opCallDataSize_safe [state_rules]: "opsafe opCallDataSize"
  by (rule opsafeI) (auto simp: opCallDataSize_def binop_def unop_def Let_def intro!: s_rules)

lemma opCallDataCopy_safe [state_rules]: "opsafe opCallDataCopy"
  by (rule opsafeI) (auto simp: opCallDataCopy_def binop_def unop_def Let_def intro!: s_rules)

lemma opReturnDataSize_safe [state_rules]: "opsafe opReturnDataSize"
  by (rule opsafeI) (auto simp: opReturnDataSize_def binop_def unop_def Let_def intro!: s_rules)

lemma opReturnDataCopy_safe [state_rules]: "opsafe opReturnDataCopy"
  by (rule opsafeI) (auto simp: opReturnDataCopy_def binop_def unop_def Let_def intro!: s_rules)

lemma opExtCodeSize_safe [state_rules]: "opsafe opExtCodeSize"
  by (rule opsafeI) (auto simp: opExtCodeSize_def binop_def unop_def Let_def intro!: s_rules)

lemma opCodeSize_safe [state_rules]: "opsafe opCodeSize"
  by (rule opsafeI) (auto simp: opCodeSize_def binop_def unop_def Let_def intro!: s_rules)

lemma opCodeCopy_safe [state_rules]: "opsafe opCodeCopy"
  by (rule opsafeI) (auto simp: opCodeCopy_def binop_def unop_def Let_def intro!: s_rules)

lemma opExtCodeCopy_safe [state_rules]: "opsafe opExtCodeCopy"
  by (rule opsafeI) (auto simp: opExtCodeCopy_def binop_def unop_def Let_def intro!: s_rules)

lemma opExtCodeHash_safe [state_rules]: "opsafe opExtCodeHash"
  by (rule opsafeI) (auto simp: opExtCodeHash_def binop_def unop_def Let_def intro!: s_rules)

lemma opGasprice_safe [state_rules]: "opsafe opGasprice"
  by (rule opsafeI) (auto simp: opGasprice_def binop_def unop_def Let_def intro!: s_rules)

lemma opBlockhash_safe [state_rules]: "opsafe opBlockhash"
  by (rule opsafeI) (auto simp: opBlockhash_def Let_def split: option.splits intro!: s_rules)

lemma opCoinbase_safe [state_rules]: "opsafe opCoinbase"
  by (rule opsafeI) (auto simp: opCoinbase_def binop_def unop_def Let_def intro!: s_rules)

lemma opTimestamp_safe [state_rules]: "opsafe opTimestamp"
  by (rule opsafeI) (auto simp: opTimestamp_def binop_def unop_def Let_def intro!: s_rules)

lemma opNumber_safe [state_rules]: "opsafe opNumber"
  by (rule opsafeI) (auto simp: opNumber_def binop_def unop_def Let_def intro!: s_rules)

lemma opDifficulty_safe [state_rules]: "opsafe opDifficulty"
  by (rule opsafeI) (auto simp: opDifficulty_def binop_def unop_def Let_def intro!: s_rules)

lemma opRandom_safe [state_rules]: "opsafe opRandom"
  by (rule opsafeI) (auto simp: opRandom_def binop_def unop_def Let_def intro!: s_rules)

lemma opGasLimit_safe [state_rules]: "opsafe opGasLimit"
  by (rule opsafeI) (auto simp: opGasLimit_def binop_def unop_def Let_def intro!: s_rules)

lemma opChainID_safe [state_rules]: "opsafe opChainID"
  by (rule opsafeI) (auto simp: opChainID_def binop_def unop_def Let_def intro!: s_rules)

lemma opSelfBalance_safe [state_rules]: "opsafe opSelfBalance"
  by (rule opsafeI) (auto simp: opSelfBalance_def binop_def unop_def Let_def intro!: s_rules)

lemma opBaseFee_safe [state_rules]: "opsafe opBaseFee"
  by (rule opsafeI) (auto simp: opBaseFee_def binop_def unop_def Let_def intro!: s_rules)

lemma opPop_safe [state_rules]: "opsafe opPop"
  by (rule opsafeI) (auto simp: opPop_def binop_def unop_def Let_def intro!: s_rules)

lemma opMload_safe [state_rules]: "opsafe opMload"
  by (rule opsafeI) (auto simp: opMload_def binop_def unop_def Let_def intro!: s_rules)

lemma opMstore_safe [state_rules]: "opsafe opMstore"
  by (rule opsafeI) (auto simp: opMstore_def binop_def unop_def Let_def intro!: s_rules split: option.splits)

lemma opMstore8_safe [state_rules]: "opsafe opMstore8"
  by (rule opsafeI) (auto simp: opMstore8_def binop_def unop_def Let_def intro!: s_rules)

lemma opSload_safe [state_rules]: "opsafe opSload"
  by (rule opsafeI) (auto simp: opSload_def binop_def unop_def Let_def intro!: s_rules)

lemma opJump_safe [state_rules]: "opsafe opJump"
  by (rule opsafeI) (auto simp: opJump_def binop_def unop_def Let_def intro!: s_rules)

lemma opJumpi_safe [state_rules]: "opsafe opJumpi"
  by (rule opsafeI) (auto simp: opJumpi_def binop_def unop_def Let_def intro!: s_rules)

lemma opJumpdest_safe [state_rules]: "opsafe opJumpdest"
  by (rule opsafeI) (auto simp: opJumpdest_def binop_def unop_def Let_def intro!: s_rules)

lemma opPc_safe [state_rules]: "opsafe opPc"
  by (rule opsafeI) (auto simp: opPc_def binop_def unop_def Let_def intro!: s_rules)

lemma opMsize_safe [state_rules]: "opsafe opMsize"
  by (rule opsafeI) (auto simp: opMsize_def binop_def unop_def Let_def intro!: s_rules)

lemma opGas_safe [state_rules]: "opsafe opGas"
  by (rule opsafeI) (auto simp: opGas_def binop_def unop_def Let_def intro!: s_rules)

lemma opPush1_safe [state_rules]: "opsafe opPush1"
  by (rule opsafeI) (auto simp: opPush1_def binop_def unop_def Let_def intro!: s_rules)

lemma opReturn_safe [state_rules]: "opsafe opReturn"
  by (rule opsafeI) (auto simp: opReturn_def binop_def unop_def Let_def intro!: s_rules)

lemma opRevert_safe [state_rules]: "opsafe opRevert"
  by (rule opsafeI) (auto simp: opRevert_def binop_def unop_def Let_def intro!: s_rules)

lemma opUndefined_safe [state_rules]: "opsafe opUndefined"
  by (rule opsafeI) (auto simp: opUndefined_def binop_def unop_def Let_def intro!: s_rules)

lemma opStop_safe [state_rules]: "opsafe opStop"
  by (rule opsafeI) (auto simp: opStop_def binop_def unop_def Let_def intro!: s_rules)

lemma makePush_safe [state_rules]: "opsafe (makePush n)"
  by (rule opsafeI) (auto simp: makePush_def Let_def)

lemma makeDup_safe [state_rules]: "opsafe (makeDup n)"
  by (rule opsafeI) (auto simp: makeDup_def stack_dup_def Let_def)

lemma makeSwap_safe [state_rules]: "opsafe (makeSwap n)"
  by (rule opsafeI) (auto simp: makeSwap_def stack_swap_def Let_def)

lemma hard_if: "J ro d (vm f) \<Longrightarrow> hard \<or> ro \<Longrightarrow> \<not> readOnly (vm f) \<Longrightarrow> hard"
  by (simp add: J_def)

lemma opsafe_writeI:
  assumes "\<And>run f. ex E run f = (if readOnly (vm f) then Halt (Some ErrWriteProtection) [] f else ex' run f)"
    and "\<And>run f ro d. hard \<Longrightarrow> J ro d (vm f) \<Longrightarrow> (\<And>c inp ro' e. J ro d e \<Longrightarrow> rsafe ro d (run c inp ro' e)) \<Longrightarrow>
       safe ro d (ex' run f)"
  shows "opsafe ex"
  by (rule opsafeI) (auto simp: assms(1) dest: hard_if intro: assms(2))

lemma db_frame: "db (f\<lparr>stk := st\<rparr>) = db f"
  by (simp add: db_def)

lemma makeLog_safe [state_rules]: "opsafe (makeLog n)"
  by (rule opsafe_writeI, rule makeLog_def)
    (auto simp: Let_def db_frame intro!: s_rules, rule add_log, assumption+)

lemma opSstore_safe [state_rules]: "opsafe opSstore"
  by (rule opsafe_writeI, rule opSstore_def) (auto intro!: s_rules dest: set_state)

lemma opSelfdestruct_safe [state_rules]: "opsafe opSelfdestruct"
  by (rule opsafe_writeI, rule opSelfdestruct_def)
    (auto intro!: s_rules dest: add_balance [OF _ amount_balance] suicide)

lemma opKeccak256_safe [state_rules]: "opsafe opKeccak256"
  by (rule opsafeI) (auto simp: opKeccak256_def Let_def intro!: s_rules dest: add_preimage split: if_splits)

lemma keep_rask: "(\<And>x. r = Some x \<Longrightarrow> rsafe ro d (k x)) \<Longrightarrow> rsafe ro d (rask r k)"
  by (cases r) (simp_all add: rask_def)

lemma keep_snapshot:
  assumes "J ro d e"
    and "\<And>i s. I s \<Longrightarrow> (\<And>t t'. I t \<Longrightarrow> db_RevertToSnapshot (DB E) i t = Some t' \<Longrightarrow> I t') \<Longrightarrow> rsafe ro d (k i s)"
  shows "rsafe ro d (rask (db_Snapshot (DB E) (statedb e)) (\<lambda>(i, s). k i s))"
proof (rule keep_rask)
  fix x assume x: "db_Snapshot (DB E) (statedb e) = Some x"
  obtain i s where xi: "x = (i, s)" by fastforce
  have "I s \<and> (\<forall>t t'. I t \<longrightarrow> db_RevertToSnapshot (DB E) i t = Some t' \<longrightarrow> I t')"
    by (rule snapshot [OF J_statedb [OF assms(1)]]) (simp add: x xi)
  then show "rsafe ro d (case x of (i, s) \<Rightarrow> k i s)"
    unfolding xi prod.case by (intro assms(2)) blast+
qed

lemma keep_settle:
  assumes "\<And>t t'. I t \<Longrightarrow> db_RevertToSnapshot (DB E) i t = Some t' \<Longrightarrow> I t'" and "rsafe ro d r"
  shows "rsafe ro d (settle E i r)"
proof (cases r)
  case (Ran err ret g e)
  then have e: "J ro d e" using assms(2) by simp
  show ?thesis
    using Ran e assms(1) [OF J_statedb [OF e]]
    by (cases err) (auto simp: settle_def intro!: keep_rask J_set)
qed (simp_all add: settle_def)

lemma keep_settle_create:
  assumes "\<And>t t'. I t \<Longrightarrow> db_RevertToSnapshot (DB E) i t = Some t' \<Longrightarrow> I t'" and "rsafe ro d r"
  shows "rsafe ro d (settle_create E i r)"
  using keep_settle [OF assms] assms(2) by (auto simp: settle_create_def split: run_result.splits option.splits)

lemma keep_dispatch:
  assumes "J ro d e" and "rsafe ro d (other e)"
  shows "rsafe ro d (dispatch E caller addr inp g other e)"
  using assms native [OF J_statedb [OF assms(1)]]
  by (auto simp: dispatch_def RunPrecompiledContract_def RunNativeContract_def Let_def
      split: option.splits sum.splits intro!: J_set)

lemma keep_with_code:
  "J ro d e \<Longrightarrow> (\<And>c. rsafe ro d (k c)) \<Longrightarrow> rsafe ro d (with_code E addr c e k)"
  unfolding with_code_def by (intro keep_rask)

lemma transfer_keeps:
  assumes "hard \<and> amount_ok v \<or> v = 0" and "I s" and "Transfer E a b v s = Some s'"
  shows "I s'"
  using assms by (auto simp: Transfer_def split: bind_splits dest: add_balance add_balance [OF _ amount_minus] touch)

lemma keep_if: "(b \<Longrightarrow> rsafe ro d x) \<Longrightarrow> (\<not> b \<Longrightarrow> rsafe ro d y) \<Longrightarrow> rsafe ro d (if b then x else y)"
  by simp

lemma Call_safe:
  assumes e: "J ro d e" and v: "hard \<and> amount_ok amount \<or> amount = 0"
    and run: "\<And>c inp ro' e. J ro d e \<Longrightarrow> rsafe ro d (run c inp ro' e)"
  shows "rsafe ro d (Call E run caller addr inp g amount e)"
  unfolding Call_def
proof (intro keep_if keep_snapshot [OF e] keep_rask)
  fix i s s1 s2 and b :: bool
  assume s: "I s" and undo: "\<And>t t'. I t \<Longrightarrow> db_RevertToSnapshot (DB E) i t = Some t' \<Longrightarrow> I t'"
    and s1: "(if b then Some s else db_CreateAccount (DB E) addr s) = Some s1"
    and s2: "Transfer E caller addr amount s1 = Some s2"
  have "I s1" using s s1 create by (auto split: if_splits)
  then have "I s2" using s2 transfer_keeps [OF v] by blast
  then have J2: "J ro d (e\<lparr>statedb := s2\<rparr>)" by (rule J_set(2) [OF e])
  show "rsafe ro d (settle E i (dispatch E caller addr inp g (\<lambda>e.
                 rask (db_GetCode (DB E) (statedb e) addr) (\<lambda>code.
                   if code = [] then Ran None [] g e
                   else with_code E addr (NewContract caller addr amount g) e (\<lambda>c. run c inp False e)))
                 (e\<lparr>statedb := s2\<rparr>)))"
    by (rule keep_settle [OF undo], assumption, assumption, rule keep_dispatch [OF J2])
      (auto intro!: keep_rask keep_if keep_with_code [OF J2] run simp: J2)
qed (auto intro: J_set(2) [OF e] e)

lemma CallCode_safe:
  assumes e: "J ro d e" and run: "\<And>c inp ro' e. J ro d e \<Longrightarrow> rsafe ro d (run c inp ro' e)"
  shows "rsafe ro d (CallCode E run caller addr inp g amount e)"
  unfolding CallCode_def
  by (intro keep_if keep_snapshot [OF e] keep_rask keep_settle keep_dispatch keep_with_code run)
    (auto intro: e J_set(2) [OF e])

lemma DelegateCall_safe:
  assumes e: "J ro d e" and run: "\<And>c inp ro' e. J ro d e \<Longrightarrow> rsafe ro d (run c inp ro' e)"
  shows "rsafe ro d (DelegateCall E run parent addr inp g e)"
  unfolding DelegateCall_def
  by (intro keep_if keep_snapshot [OF e] keep_rask keep_settle keep_dispatch keep_with_code run)
    (auto intro: e J_set(2) [OF e])

lemma StaticCall_safe:
  assumes e: "J ro d e" and run: "\<And>c inp ro' e. J ro d e \<Longrightarrow> rsafe ro d (run c inp ro' e)"
  shows "rsafe ro d (StaticCall E run caller addr inp g e)"
  unfolding StaticCall_def
  by (intro keep_if keep_snapshot [OF e] keep_rask keep_settle keep_dispatch keep_with_code run)
    (auto intro: e J_set(2) [OF e] touch)

lemma store_code_safe: "hard \<Longrightarrow> J ro d e \<Longrightarrow> rsafe ro d (store_code E addr ret g e)"
  unfolding store_code_def Let_def
  by (intro keep_if keep_rask) (auto intro: J_set(2) set_code dest: J_statedb)

lemma deploy_safe:
  assumes h: "hard" and v: "amount_ok amount" and e: "J ro d e" and run: "\<And>c inp ro' e. J ro d e \<Longrightarrow> rsafe ro d (run c inp ro' e)"
  shows "rsafe ro d (deploy E run caller code h g amount addr e)"
  unfolding deploy_def
proof (intro keep_snapshot [OF e] keep_rask)
  fix i s s1 s2 s3
  assume s: "I s" and undo: "\<And>t t'. I t \<Longrightarrow> db_RevertToSnapshot (DB E) i t = Some t' \<Longrightarrow> I t'"
    and s1: "db_CreateAccount (DB E) addr s = Some s1"
    and s2: "(if IsEIP158 (chainRules E) then db_SetNonce (DB E) addr 1 s1 else Some s1) = Some s2"
    and s3: "Transfer E caller addr amount s2 = Some s3"
  have "I s1" using s s1 create by blast
  then have "I s2" using s2 set_nonce [OF h] by (auto split: if_splits)
  then have "I s3" using s3 transfer_keeps [OF disjI1 [OF conjI [OF h v]]] by blast
  then have J3: "J ro d (e\<lparr>statedb := s3\<rparr>)" by (rule J_set(2) [OF e])
  have "rsafe ro d (run c [] False (e\<lparr>statedb := s3\<rparr>))" for c by (rule run [OF J3])
  then have body: "rsafe ro d (case run c [] False (e\<lparr>statedb := s3\<rparr>) of
      Ran None ret g e \<Rightarrow> store_code E addr ret g e | r \<Rightarrow> r)" for c
    by (auto split: run_result.splits option.splits intro!: store_code_safe [OF h]) (metis rsafe.simps(1))+
  show "rsafe ro d (settle_create E i
      (case run (SetCallCode h code (NewContract caller addr amount g)) [] False (e\<lparr>statedb := s3\<rparr>) of
         Ran None ret g e \<Rightarrow> store_code E addr ret g e | r \<Rightarrow> r))"
    by (rule keep_settle_create, rule undo, assumption, assumption, rule body)
qed

lemma create_safe:
  assumes h: "hard" and v: "amount_ok amount" and e: "J ro d e" and run: "\<And>c inp ro' e. J ro d e \<Longrightarrow> rsafe ro d (run c inp ro' e)"
  shows "rsafe ro d (snd (create E run caller code h g amount addr e))"
proof -
  have k: "I s" if eq: "Option.bind (db_SetNonce (DB E) caller n (statedb e)) (\<lambda>s.
      if IsBerlin (chainRules E) then db_AddAddressToAccessList (DB E) addr s else Some s) = Some s" for n s
  proof -
    obtain s1 where "db_SetNonce (DB E) caller n (statedb e) = Some s1"
      "(if IsBerlin (chainRules E) then db_AddAddressToAccessList (DB E) addr s1 else Some s1) = Some s"
      using eq by (cases "db_SetNonce (DB E) caller n (statedb e)") simp_all
    moreover from this have "I s1" using set_nonce [OF h J_statedb [OF e]] by blast
    ultimately show ?thesis using add_address by (auto split: if_splits)
  qed
  then show ?thesis
    using deploy_safe [OF h v J_set(2) [OF e]] run e
    by (auto simp: create_def J_set(2) [OF e] split: option.splits bool.splits)
qed

lemma s_after_call:
  assumes "rsafe ro d r"
  shows "safe ro d (after_call off l f r)"
proof (cases r)
  case (Ran err ret g e)
  then have "J ro d (vm (f\<lparr>vm := e\<rparr>))" using assms by simp
  then show ?thesis using Ran by (auto simp: after_call_def Let_def intro!: s_write_mem)
qed (simp_all add: after_call_def)

lemma s_after_create:
  assumes "rsafe ro d (snd r)"
  shows "safe ro d (after_create failed f r)"
proof (cases "snd r")
  case (Ran err ret g e)
  then have "J ro d (vm (f\<lparr>vm := e\<rparr>))" using assms by simp
  then show ?thesis using Ran by (simp add: after_create_def Let_def)
qed (simp_all add: after_create_def)

lemma opCall_safe [state_rules]: "opsafe opCall"
proof (rule opsafeI)
  fix run :: "'s runner" and f :: "'s frame" and ro d
  assume f: "J ro d (vm f)" and h: "hard \<or> ro"
    and run: "\<And>c inp ro' e. J ro d e \<Longrightarrow> rsafe ro d (run c inp ro' e)"
  have c: "rsafe ro d (Call E run x y args g (ToBig v) (vm f'))"
    if "J ro d (vm f')" "\<not> (readOnly (vm f') \<and> v \<noteq> 0)" for x y args g v and f' :: "'s frame"
    using that h by (intro Call_safe run) (auto simp: J_def amount_word, simp add: ToBig_def)
  show "safe ro d (opCall E run f)"
    unfolding opCall_def Let_def by (intro s_pop s_with_slice s_if f s_after_call c) auto
qed

lemma opCallCode_safe [state_rules]: "opsafe opCallCode"
  by (rule opsafeI) (auto simp: opCallCode_def Let_def intro!: s_pop s_with_slice s_after_call CallCode_safe)

lemma opDelegateCall_safe [state_rules]: "opsafe opDelegateCall"
  by (rule opsafeI) (auto simp: opDelegateCall_def intro!: s_pop s_with_slice s_after_call DelegateCall_safe)

lemma opStaticCall_safe [state_rules]: "opsafe opStaticCall"
  by (rule opsafeI) (auto simp: opStaticCall_def intro!: s_pop s_with_slice s_after_call StaticCall_safe)

lemma opCreate_safe [state_rules]: "opsafe opCreate"
  by (rule opsafe_writeI, rule opCreate_def)
    (auto simp: Create_def Let_def split: option.splits intro!: s_pop s_with_slice s_after_create create_safe amount_word)

lemma opCreate2_safe [state_rules]: "opsafe opCreate2"
  by (rule opsafe_writeI, rule opCreate2_def)
    (auto simp: Create2_def Let_def intro!: s_pop s_with_slice s_after_create create_safe amount_word)

text \<open>Gas functions.\<close>

definition gassafe :: "'s gas_fn \<Rightarrow> bool" where
  "gassafe dyn \<longleftrightarrow> (\<forall>sz f ro d. J ro d (vm f) \<longrightarrow> gsafe ro d (dyn E sz f))"

lemma gassafeI: "(\<And>sz f ro d. J ro d (vm f) \<Longrightarrow> gsafe ro d (dyn E sz f)) \<Longrightarrow> gassafe dyn"
  by (simp add: gassafe_def)

lemma g_gask: "(\<And>x. r = Some x \<Longrightarrow> gsafe ro d (k x)) \<Longrightarrow> gsafe ro d (gask r k)"
  by (cases r) (simp_all add: gask_def)

lemma g_gback: "(\<And>x. gsafe ro d (k x)) \<Longrightarrow> gsafe ro d (gback n f k)"
  by (simp add: gback_def split: option.splits)

lemma g_gupd:
  "J ro d (vm f) \<Longrightarrow> (\<And>s. I (db f) \<Longrightarrow> r = Some s \<Longrightarrow> I s) \<Longrightarrow> (\<And>f'. J ro d (vm f') \<Longrightarrow> gsafe ro d (k f')) \<Longrightarrow>
   gsafe ro d (gupd r f k)"
  unfolding gupd_def by (rule g_gask) (simp add: J_set J_db)

lemma g_gthen: "gsafe ro d m \<Longrightarrow> (\<And>c f. J ro d (vm f) \<Longrightarrow> gsafe ro d (k c f)) \<Longrightarrow> gsafe ro d (gthen m k)"
  by (cases m) (simp_all add: gthen_def)

lemma g_safely: "J ro d (vm f) \<Longrightarrow> (\<And>v. gsafe ro d (k v)) \<Longrightarrow> gsafe ro d (safely r f k)"
  by (simp add: safely_def)

lemma g_if: "(b \<Longrightarrow> gsafe ro d x) \<Longrightarrow> (\<not> b \<Longrightarrow> gsafe ro d y) \<Longrightarrow> gsafe ro d (if b then x else y)"
  by simp

lemma g_memory: "J ro d (vm f) \<Longrightarrow> gsafe ro d (memoryGasCost P sz f)"
  by (simp add: memoryGasCost_def Let_def)

lemmas g_rules = g_gask g_gback g_gupd g_gthen g_safely g_if g_memory

lemma g_words: "J ro d (vm f) \<Longrightarrow> gsafe ro d (words_gas i p g f)"
  unfolding words_gas_def by (intro g_rules) simp_all

lemma g_charge_call: "J ro d (vm f) \<Longrightarrow> gsafe ro d (charge_call E g f)"
  unfolding charge_call_def Let_def
  by (rule g_gback) (auto split: sum.splits intro!: g_safely)

lemma memory_gas_safe [state_rules]:
  "gassafe pureMemoryGascost" "gassafe gasCallDataCopy" "gassafe gasCodeCopy" "gassafe gasReturnDataCopy"
  "gassafe gasKeccak256" "gassafe gasCreate2"
  by (rule gassafeI; simp add: pureMemoryGascost_def gasCallDataCopy_def gasCodeCopy_def gasReturnDataCopy_def
      memoryCopierGas_def gasKeccak256_def gasCreate2_def g_memory g_gthen g_words)+

lemma makeGasLog_safe [state_rules]: "gassafe (makeGasLog n)"
  by (rule gassafeI) (auto simp: makeGasLog_def intro!: g_rules)

lemma gasExp_safe [state_rules]: "gassafe gasExpEIP158"
  by (rule gassafeI) (auto simp: gasExpEIP158_def gas_exp_def Let_def intro!: g_rules)

lemma gasSLoad_safe [state_rules]: "gassafe gasSLoadEIP2929"
  by (rule gassafeI) (auto simp: gasSLoadEIP2929_def intro!: g_rules dest: add_slot)

lemma gasAccount_safe [state_rules]: "gassafe gasEip2929AccountCheck"
  by (rule gassafeI) (auto simp: gasEip2929AccountCheck_def intro!: g_rules dest: add_address)

lemma gasExtCodeCopy_safe [state_rules]: "gassafe gasExtCodeCopyEIP2929"
  by (rule gassafeI) (auto simp: gasExtCodeCopyEIP2929_def gasExtCodeCopy_def memoryCopierGas_def
      intro!: g_rules g_words dest: add_address)

lemma gasSelfdestruct_safe [state_rules]: "gassafe gasSelfdestructEIP3529"
  by (rule gassafeI) (auto simp: gasSelfdestructEIP3529_def makeSelfdestructGasFn_def refund_suicide_def
      intro!: g_rules dest: add_address split: if_splits)

lemma g_dirty: "J ro d (vm f) \<Longrightarrow> gsafe ro d (dirty_refunds E a b c orig cur val cost f)"
  unfolding dirty_refunds_def by (intro g_rules) (auto split: if_splits dest: add_refund sub_refund)

lemma gasSStore_safe [state_rules]: "gassafe gasSStoreEIP3529"
  by (rule gassafeI) (auto simp: gasSStoreEIP3529_def makeGasSStoreFunc_def list_slot_def
      intro!: g_rules g_dirty dest: add_slot add_refund split: if_splits)

lemma g_variant:
  assumes "gassafe dyn"
  shows "gassafe (makeCallVariantGasCallEIP2929 dyn)"
  by (rule gassafeI) (use assms in \<open>auto simp: makeCallVariantGasCallEIP2929_def gassafe_def UseGas_def
      intro!: g_rules dest: add_address\<close>)

lemma call_gas_safe [state_rules]:
  "gassafe gasCallEIP2929" "gassafe gasCallCodeEIP2929" "gassafe gasDelegateCallEIP2929" "gassafe gasStaticCallEIP2929"
  unfolding gasCallEIP2929_def gasCallCodeEIP2929_def gasDelegateCallEIP2929_def gasStaticCallEIP2929_def
  by (rule g_variant, rule gassafeI, auto simp: gasCall_def gasCallCode_def gasDelegateCall_def gasStaticCall_def
      Let_def intro!: g_rules g_charge_call)+

text \<open>The table, a turn, the loop and the run.\<close>

definition entry_safe :: "'s vm_operation \<Rightarrow> bool" where
  "entry_safe op \<longleftrightarrow> opsafe (execute op) \<and> (\<forall>dyn. dynamicGas op = Some dyn \<longrightarrow> gassafe dyn)"

lemma entry_safeI:
  "opsafe ex \<Longrightarrow> entry_safe (entry P ex c None pops pushes mem)"
  "opsafe ex \<Longrightarrow> gassafe dyn \<Longrightarrow> entry_safe (entry P ex c (Some dyn) pops pushes mem)"
  by (simp_all add: entry_safe_def entry_def)

lemma changed_safe: "list_all (\<lambda>b. entry_safe (newMergeInstructionSet P b)) changed"
  unfolding changed_def list.pred_inject merge_changed
  by (intro conjI TrueI) ((rule entry_safeI, (rule state_rules)+) | (simp; fail))+

lemma basic_safe: "list_all (\<lambda>(b, op). b \<in> set changed \<or> entry_safe op) (basic_entries P)"
  unfolding basic_entries_def list.pred_inject prod.case
  by (intro conjI TrueI)
    ((rule disjI1, simp add: changed_def; fail) | (rule disjI2, rule entry_safeI, (rule state_rules)+) | (simp; fail))+

lemma range_safe:
  "\<forall>(b, op) \<in> set (push_entries P @ dup_entries P @ swap_entries P @ log_entries P). entry_safe op"
  using state_rules
  by (auto simp: push_entries_def dup_entries_def swap_entries_def log_entries_def entry_safe_def entry_def
      simp del: upt_Suc upt_rec_numeral)

lemma merge_safe: "entry_safe (newMergeInstructionSet P b)"
proof (cases "b \<in> set changed")
  case True
  then show ?thesis using changed_safe by (simp add: list_all_iff)
next
  case False
  show ?thesis
  proof (cases "map_of (frontier_entries P :: (byte \<times> 's vm_operation) list) b")
    case None
    then show ?thesis using False opUndefined_safe
      by (simp add: merge_unchanged newFrontierInstructionSet_def undefined_entry_def entry_safe_def)
  next
    case (Some op)
    then have "(b, op) \<in> set (frontier_entries P)" by (rule map_of_SomeD)
    then have "entry_safe op" using basic_safe [of P] range_safe [of P] False
      by (auto simp: frontier_entries_def list_all_iff)
    then show ?thesis using False Some by (simp add: merge_unchanged newFrontierInstructionSet_def)
  qed
qed

lemma charge_safe:
  assumes "entry_safe op" and "J ro d (vm f)"
  shows "safe ro d (charge E op f)"
proof -
  have dyn: "safe ro d (charge_dynamic E op dyn f')" if "gassafe dyn" "J ro d (vm f')" for dyn f'
  proof -
    have g: "gsafe ro d (dyn E sz f')" for sz using that by (simp add: gassafe_def)
    show ?thesis
    proof (cases "required_memory op f'")
      case (Some r)
      obtain sz ov where "r = (sz, ov)" by fastforce
      then show ?thesis using Some g [of sz] that(2)
        by (cases "dyn E sz f'") (simp_all add: charge_dynamic_def UseGas_def)
    qed (simp add: charge_dynamic_def)
  qed
  have "J ro d (vm (f\<lparr>gas := g\<rparr>))" for g using assms(2) by simp
  then show ?thesis using assms dyn
    by (cases "dynamicGas op") (simp_all add: charge_def UseGas_def entry_safe_def)
qed

lemma s_and_then: "safe ro d m \<Longrightarrow> (\<And>f. J ro d (vm f) \<Longrightarrow> safe ro d (k f)) \<Longrightarrow> safe ro d (and_then m k)"
  by (cases m) (simp_all add: and_then_def)

lemma step_safe:
  assumes "\<And>b. entry_safe (T b)" and "J ro d (vm f)" and "hard \<or> ro"
    and "\<And>c inp ro' e. J ro d e \<Longrightarrow> rsafe ro d (run c inp ro' e)"
  shows "safe ro d (step E T run f)"
proof -
  have "safe ro d (execute (T b) E run f')" if "J ro d (vm f')" for b f'
    using assms(1) [of b] assms(3,4) that by (auto simp: entry_safe_def opsafe_def)
  then show ?thesis unfolding step_def Let_def
    by (intro s_and_then charge_safe assms(1,2)) auto
qed

lemma run_with_safe:
  assumes "\<And>ro d f. hard \<or> ro \<Longrightarrow> J ro d (vm f) \<Longrightarrow> safe ro d (go f)" and "hard \<or> ro \<or> ro'" and "J ro d e"
  shows "rsafe ro d (run_with go c inp ro' e)"
proof -
  let ?e = "e\<lparr>depth := depth e + 1, readOnly := readOnly e \<or> ro', returnData := []\<rparr>"
  have j: "J (ro \<or> ro') (d + 1) (vm (new_frame c inp ?e))" using assms(3) by (simp add: new_frame_def J_def)
  have s: "safe (ro \<or> ro') (d + 1) (go (new_frame c inp ?e))" by (rule assms(1) [OF _ j]) (rule assms(2))
  have leave: "J ro d (leave (ro' \<and> \<not> readOnly e) e')" if "J (ro \<or> ro') (d + 1) e'" for e'
  proof -
    have "I (statedb e')" "readOnly e' \<longleftrightarrow> ro \<or> ro'" "depth e' = d + 1" "readOnly e = ro"
      using that assms(3) by (simp_all only: J_def)
    then show ?thesis by (cases ro; cases ro') (simp_all add: leave_def Let_def J_def)
  qed
  have empty: "J ro d (leave (ro' \<and> \<not> readOnly e) ?e)"
    by (rule leave) (use assms(3) in \<open>simp add: J_def\<close>)
  show ?thesis
  proof (cases "go (new_frame c inp ?e)")
    case (Halt err ret f)
    then have "J ro d (leave (ro' \<and> \<not> readOnly e) (vm f))" using s by (intro leave) simp
    then show ?thesis using Halt empty by (simp add: run_with_def Let_def)
  qed (use empty in \<open>simp_all add: run_with_def Let_def\<close>)
qed

lemma loop_safe:
  assumes "\<And>b. entry_safe (T b)"
  shows "hard \<or> ro \<Longrightarrow> J ro d (vm f) \<Longrightarrow> safe ro d (loop E T n f)"
proof (induction n arbitrary: ro d f)
  case (Suc n)
  have "safe ro d (step E T (run_with (loop E T n)) f)"
  proof (rule step_safe [OF assms Suc.prems(2,1)])
    fix c inp ro' e
    assume "J ro d e"
    then show "rsafe ro d (run_with (loop E T n) c inp ro' e)"
      using Suc by (intro run_with_safe) auto
  qed
  then show ?case using Suc by (auto split: outcome.splits)
qed simp

lemma Run_safe:
  assumes "IsMerge (chainRules E)" and "hard \<or> ro \<or> ro'" and "J ro d e"
  shows "rsafe ro d (Run E (base_table E) n c inp ro' e)"
  unfolding Run_def
proof (rule run_with_safe [OF _ assms(2,3)])
  fix ro d and f :: "'s frame"
  assume "hard \<or> ro" and "J ro d (vm f)"
  then show "safe ro d (loop E (base_table E) n f)"
    using merge_safe assms(1) by (intro loop_safe) (simp_all add: base_table_def Let_def)
qed

end

end
