(* ===== verification/StateDb.thy ===== *)
theory StateDb
  imports NativeAccounts AccessList EvmState
begin

text \<open>
  The state database of src/pkg/core/statedb/statedb.go that the virtual machine runs on: a stack of
  private layers over the object of the block, one for every snapshot that is open. A layer holds
  the pointer to the store below it; here it holds that store as a value, and \<open>Commit\<close>, the only
  operation that changes a lower layer, writes the result back. Accounts are those of the native
  contracts. The result \<open>None\<close> of an operation is a panic.
\<close>

section \<open>Layers\<close>

record mem_store =
  Simple :: simple
  fund :: int
  preimages :: "hash \<rightharpoonup> bytes"
  logs :: "vm_log list"
  accesslist :: access_list

record statedb =
  sdb_Err :: "string option"
  snapshot :: int
  memStores :: "mem_store list"
  ps :: mem_store

text \<open>\<open>Int64\<close> and \<open>Uint64\<close> of a big integer take its low 64 bits.\<close>

definition big_Int64 :: "int \<Rightarrow> int" where
  "big_Int64 x = sint (word_of_int x :: u64)"

definition big_Uint64 :: "int \<Rightarrow> u64" where
  "big_Uint64 x = word_of_int \<bar>x\<bar>"

definition clone :: "mem_store \<Rightarrow> mem_store" where
  "clone m = \<lparr>Simple = GetPrivate (Simple m), fund = big_Int64 (fund m), preimages = preimages m,
     logs = logs m, accesslist = al_Copy (accesslist m)\<rparr>"

definition NewStateDB :: "simple \<Rightarrow> statedb" where
  "NewStateDB d = \<lparr>sdb_Err = None, snapshot = -1, memStores = [],
     ps = \<lparr>Simple = d, fund = 0, preimages = Map.empty, logs = [], accesslist = newAccessList\<rparr>\<rparr>"

definition CurrentStore :: "statedb \<Rightarrow> mem_store option" where
  "CurrentStore s =
     (if snapshot s < 0 then Some (ps s)
      else if snapshot s < int (length (memStores s)) then Some (memStores s ! nat (snapshot s)) else None)"

definition set_current :: "mem_store \<Rightarrow> statedb \<Rightarrow> statedb" where
  "set_current m s =
     (if snapshot s < 0 then s\<lparr>ps := m\<rparr> else s\<lparr>memStores := (memStores s)[nat (snapshot s) := m]\<rparr>)"

definition Snapshot :: "statedb \<Rightarrow> (int \<times> statedb) option" where
  "Snapshot s = map_option (\<lambda>m. (snapshot s + 1,
     s\<lparr>memStores := memStores s @ [clone m], snapshot := snapshot s + 1\<rparr>)) (CurrentStore s)"

definition RevertToSnapshot :: "int \<Rightarrow> statedb \<Rightarrow> statedb option" where
  "RevertToSnapshot revid s =
     (if revid > snapshot s \<or> revid < 0 then None
      else Some (s\<lparr>memStores := take (nat revid) (memStores s), snapshot := revid - 1\<rparr>))"

section \<open>Operations\<close>

definition on_store :: "(mem_store \<Rightarrow> mem_store option) \<Rightarrow> statedb \<Rightarrow> statedb option" where
  "on_store f s = Option.bind (CurrentStore s) (\<lambda>m. map_option (\<lambda>m'. set_current m' s) (f m))"

definition on_simple :: "(simple \<Rightarrow> simple option) \<Rightarrow> statedb \<Rightarrow> statedb option" where
  "on_simple f = on_store (\<lambda>m. map_option (\<lambda>d. m\<lparr>Simple := d\<rparr>) (f (Simple m)))"

definition from_simple :: "(simple \<Rightarrow> 'a option) \<Rightarrow> statedb \<Rightarrow> 'a option" where
  "from_simple f s = Option.bind (CurrentStore s) (\<lambda>m. f (Simple m))"

text \<open>A \<open>common.Hash\<close> is an array of 32 bytes.\<close>

definition hash_Bytes :: "hash \<Rightarrow> bytes" where
  "hash_Bytes h = fit 32 h"

definition hash_of_item :: "bytes option \<Rightarrow> hash" where
  "hash_of_item si = (case si of None \<Rightarrow> replicate 32 0 | Some b \<Rightarrow> BytesToHash b)"

definition sdb_GetCommittedState :: "statedb \<Rightarrow> address \<Rightarrow> hash \<Rightarrow> hash option" where
  "sdb_GetCommittedState s a k =
     map_option hash_of_item (GetStorageItem (Simple (ps s)) a (hash_Bytes k))"

definition sdb_CreateAccount :: "address \<Rightarrow> statedb \<Rightarrow> statedb option" where
  "sdb_CreateAccount a s = Some s"

definition sdb_SubBalance :: "address \<Rightarrow> int \<Rightarrow> statedb \<Rightarrow> statedb option" where
  "sdb_SubBalance a amount = on_simple (gas_SubBalance a amount)"

definition sdb_AddBalance :: "address \<Rightarrow> int \<Rightarrow> statedb \<Rightarrow> statedb option" where
  "sdb_AddBalance a amount = on_simple (gas_AddBalance a amount)"

definition sdb_GetBalance :: "statedb \<Rightarrow> address \<Rightarrow> int option" where
  "sdb_GetBalance s a = from_simple (\<lambda>d. gas_GetBalance d a) s"

definition sdb_GetNonce :: "statedb \<Rightarrow> address \<Rightarrow> u64 option" where
  "sdb_GetNonce s a = from_simple (\<lambda>d. ledger_GetNonce d a) s"

definition sdb_SetNonce :: "address \<Rightarrow> u64 \<Rightarrow> statedb \<Rightarrow> statedb option" where
  "sdb_SetNonce a n = on_simple (ledger_SetNonce a n)"

definition sdb_GetCodeHash :: "statedb \<Rightarrow> address \<Rightarrow> hash option" where
  "sdb_GetCodeHash s a = from_simple (\<lambda>d. mgmt_GetCodeHash d a) s"

definition sdb_GetCode :: "statedb \<Rightarrow> address \<Rightarrow> bytes option" where
  "sdb_GetCode s a = from_simple (\<lambda>d. mgmt_GetCode d a) s"

definition sdb_SetCode :: "(bytes \<Rightarrow> hash) \<Rightarrow> address \<Rightarrow> bytes \<Rightarrow> statedb \<Rightarrow> statedb option" where
  "sdb_SetCode keccak a code = on_simple (mgmt_SetCode keccak a code)"

definition sdb_GetCodeSize :: "statedb \<Rightarrow> address \<Rightarrow> nat option" where
  "sdb_GetCodeSize s a = from_simple (\<lambda>d. mgmt_GetCodeSize d a) s"

definition sdb_AddRefund :: "u64 \<Rightarrow> statedb \<Rightarrow> statedb option" where
  "sdb_AddRefund amount = on_store (\<lambda>m. Some (m\<lparr>fund := fund m + uint amount\<rparr>))"

definition sdb_SubRefund :: "u64 \<Rightarrow> statedb \<Rightarrow> statedb option" where
  "sdb_SubRefund amount = on_store (\<lambda>m. Some (m\<lparr>fund := fund m - uint amount\<rparr>))"

definition sdb_GetRefund :: "statedb \<Rightarrow> u64 option" where
  "sdb_GetRefund s = map_option (\<lambda>m. big_Uint64 (fund m)) (CurrentStore s)"

definition sdb_GetState :: "statedb \<Rightarrow> address \<Rightarrow> hash \<Rightarrow> hash option" where
  "sdb_GetState s a k = from_simple (\<lambda>d. map_option hash_of_item (GetStorageItem d a (hash_Bytes k))) s"

definition sdb_SetState :: "address \<Rightarrow> hash \<Rightarrow> hash \<Rightarrow> statedb \<Rightarrow> statedb option" where
  "sdb_SetState a k v = on_simple (PutStorageItem a (hash_Bytes k) (hash_Bytes v))"

definition sdb_Suicide :: "address \<Rightarrow> statedb \<Rightarrow> statedb option" where
  "sdb_Suicide a = on_simple (\<lambda>d. map_option snd (Destroy a d))"

definition sdb_HasSuicided :: "statedb \<Rightarrow> address \<Rightarrow> bool option" where
  "sdb_HasSuicided s a = from_simple (\<lambda>d. map_option (\<lambda>c. c = None) (GetContract d a)) s"

definition sdb_Empty :: "statedb \<Rightarrow> address \<Rightarrow> bool option" where
  "sdb_Empty s a = from_simple (\<lambda>d.
     Option.bind (gas_GetBalance d a) (\<lambda>bal.
       if bal > 0 then Some False
       else Option.bind (GetContract d a) (\<lambda>c.
         if c \<noteq> None then Some False
         else map_option (\<lambda>n. n = 0) (ledger_GetNonce d a)))) s"

definition sdb_Exist :: "statedb \<Rightarrow> address \<Rightarrow> bool option" where
  "sdb_Exist s a = map_option Not (sdb_Empty s a)"

definition sdb_AddressInAccessList :: "statedb \<Rightarrow> address \<Rightarrow> bool option" where
  "sdb_AddressInAccessList s a = map_option (\<lambda>m. ContainsAddress (accesslist m) a) (CurrentStore s)"

definition sdb_SlotInAccessList :: "statedb \<Rightarrow> address \<Rightarrow> hash \<Rightarrow> (bool \<times> bool) option" where
  "sdb_SlotInAccessList s a k = Option.bind (CurrentStore s) (\<lambda>m. al_Contains (accesslist m) a k)"

definition sdb_AddAddressToAccessList :: "address \<Rightarrow> statedb \<Rightarrow> statedb option" where
  "sdb_AddAddressToAccessList a =
     on_store (\<lambda>m. Some (m\<lparr>accesslist := snd (AddAddress a (accesslist m))\<rparr>))"

definition sdb_AddSlotToAccessList :: "address \<Rightarrow> hash \<Rightarrow> statedb \<Rightarrow> statedb option" where
  "sdb_AddSlotToAccessList a k =
     on_store (\<lambda>m. map_option (\<lambda>(_, al). m\<lparr>accesslist := al\<rparr>) (AddSlot a k (accesslist m)))"

fun add_addresses :: "address list \<Rightarrow> statedb \<Rightarrow> statedb option" where
  "add_addresses [] s = Some s"
| "add_addresses (a # as) s = Option.bind (sdb_AddAddressToAccessList a s) (add_addresses as)"

fun add_slots :: "address \<Rightarrow> hash list \<Rightarrow> statedb \<Rightarrow> statedb option" where
  "add_slots a [] s = Some s"
| "add_slots a (k # ks) s = Option.bind (sdb_AddSlotToAccessList a k s) (add_slots a ks)"

fun add_tuples :: "(address \<times> hash list) list \<Rightarrow> statedb \<Rightarrow> statedb option" where
  "add_tuples [] s = Some s"
| "add_tuples ((a, ks) # es) s =
     Option.bind (sdb_AddAddressToAccessList a s) (\<lambda>s. Option.bind (add_slots a ks s) (add_tuples es))"

definition PrepareAccessList ::
    "address \<Rightarrow> address option \<Rightarrow> address list \<Rightarrow> (address \<times> hash list) list \<Rightarrow> statedb \<Rightarrow> statedb option" where
  "PrepareAccessList sender dest precompiled list s =
     Option.bind (on_store (\<lambda>m. Some (m\<lparr>accesslist := newAccessList\<rparr>)) s) (\<lambda>s.
     Option.bind (sdb_AddAddressToAccessList sender s) (\<lambda>s.
     Option.bind (case dest of None \<Rightarrow> Some s | Some a \<Rightarrow> sdb_AddAddressToAccessList a s) (\<lambda>s.
     Option.bind (add_addresses precompiled s) (add_tuples list))))"

definition sdb_AddLog :: "vm_log \<Rightarrow> statedb \<Rightarrow> statedb option" where
  "sdb_AddLog l = on_store (\<lambda>m. Some (m\<lparr>logs := logs m @ [l]\<rparr>))"

definition sdb_GetLogs :: "statedb \<Rightarrow> vm_log list option" where
  "sdb_GetLogs s = map_option logs (CurrentStore s)"

definition sdb_AddPreimage :: "hash \<Rightarrow> bytes \<Rightarrow> statedb \<Rightarrow> statedb option" where
  "sdb_AddPreimage h b = on_store (\<lambda>m. Some (m\<lparr>preimages := (preimages m)(h \<mapsto> b)\<rparr>))"

definition ForEachStorage :: "statedb \<Rightarrow> address \<Rightarrow> (hash \<Rightarrow> hash \<Rightarrow> 'u \<Rightarrow> bool \<times> 'u) \<Rightarrow> 'u \<Rightarrow> (dao_error + 'u) option" where
  "ForEachStorage s a cb u = map_option (\<lambda>m.
     dao_Seek (Simple m) a \<lparr>Prefix = [], Start = [], Backwards = False\<rparr>
       (\<lambda>k v. cb (BytesToHash k) (BytesToHash v)) u) (CurrentStore s)"

text \<open>
  \<open>Commit\<close> flushes the top layer into the one below until none is left. The flush of a private layer
  reaches the store below through \<open>PutChangeSet\<close>, which cannot fail for the caches used here.
\<close>

definition store_below :: "store \<Rightarrow> store \<Rightarrow> store" where
  "store_below st deflt = (case st of MemCachedStore _ _ lower \<Rightarrow> lower | MemoryStore _ \<Rightarrow> deflt)"

definition set_store :: "store \<Rightarrow> mem_store \<Rightarrow> mem_store" where
  "set_store st m = m\<lparr>Simple := (Simple m)\<lparr>Store := st\<rparr>\<rparr>"

fun commit_layers :: "mem_store \<Rightarrow> mem_store list \<Rightarrow> store_error option \<times> mem_store \<times> mem_store list" where
  "commit_layers base [] = (None, base, [])"
| "commit_layers base (upper # lower) =
     (let (n, e, d) = dao_Persist memory_sink (Simple upper);
          st = store_below (Store d) (Store d) in
      case e of
        Some err \<Rightarrow> (Some err, base, upper\<lparr>Simple := d\<rparr> # lower)
      | None \<Rightarrow> (case lower of
          [] \<Rightarrow> commit_layers (set_store st base) []
        | m # ms \<Rightarrow> commit_layers base (set_store st m # ms)))"

definition Commit :: "statedb \<Rightarrow> string option \<times> statedb" where
  "Commit s =
     (if sdb_Err s \<noteq> None then (sdb_Err s, s)
      else let (e, base, layers) = commit_layers (ps s) (rev (take (nat (snapshot s + 1)) (memStores s))) in
        (map_option (\<lambda>_. ''persist'') e,
         s\<lparr>ps := base, memStores := rev layers, snapshot := int (length layers) - 1\<rparr>))"

section \<open>The database of the virtual machine\<close>

definition sdb :: "(bytes \<Rightarrow> hash) \<Rightarrow> statedb state_db" where
  "sdb keccak = \<lparr>
     db_CreateAccount = sdb_CreateAccount, db_AddBalance = sdb_AddBalance, db_GetBalance = sdb_GetBalance,
     db_GetNonce = sdb_GetNonce, db_SetNonce = sdb_SetNonce, db_GetCodeHash = sdb_GetCodeHash,
     db_GetCode = sdb_GetCode, db_SetCode = sdb_SetCode keccak, db_GetCodeSize = sdb_GetCodeSize,
     db_AddRefund = sdb_AddRefund, db_SubRefund = sdb_SubRefund, db_GetCommittedState = sdb_GetCommittedState,
     db_GetState = sdb_GetState, db_SetState = sdb_SetState, db_Suicide = sdb_Suicide,
     db_HasSuicided = sdb_HasSuicided, db_Exist = sdb_Exist, db_Empty = sdb_Empty,
     db_AddressInAccessList = sdb_AddressInAccessList, db_SlotInAccessList = sdb_SlotInAccessList,
     db_AddAddressToAccessList = sdb_AddAddressToAccessList, db_AddSlotToAccessList = sdb_AddSlotToAccessList,
     db_RevertToSnapshot = RevertToSnapshot, db_Snapshot = Snapshot, db_AddLog = sdb_AddLog,
     db_AddPreimage = sdb_AddPreimage\<rparr>"

text \<open>
  A native contract sees the layer on top, through \<open>Dao\<close> and \<open>Log\<close> of src/pkg/core/interop/context.go.
\<close>

type_synonym native_body = "address \<Rightarrow> bytes \<Rightarrow> mem_store \<Rightarrow> ((vm_error + bytes) \<times> mem_store) option"

definition nativeWrapper :: "(bytes \<Rightarrow> u64) \<Rightarrow> native_body \<Rightarrow> statedb native" where
  "nativeWrapper required body = \<lparr>n_RequiredGas = required,
     n_Run = (\<lambda>caller inp s. Option.bind (CurrentStore s) (\<lambda>m.
       map_option (\<lambda>(r, m'). (r, set_current m' s)) (body caller inp m)))\<rparr>"

end
