(* ===== verification/Interop.thy ===== *)
theory Interop
  imports StateDb
begin

text \<open>
  The environment in which a block runs its transactions: src/pkg/core/interop/context.go, evm.go and
  nativewrapper.go. The prices, hashes and address formulas of go-ethereum, the precompiled contracts
  and the native contracts are arguments; all forks are active from the first block on.
\<close>

record vm_lib =
  l_prices :: prices
  l_num :: u256_lib
  l_Keccak :: "bytes \<Rightarrow> hash"
  l_CreateAddress :: "address \<Rightarrow> u64 \<Rightarrow> address"
  l_CreateAddress2 :: "address \<Rightarrow> hash \<Rightarrow> hash \<Rightarrow> address"
  l_precompiles :: "rules \<Rightarrow> address \<Rightarrow> precompiled option"

record protocol_settings =
  cfg_ChainID :: u64
  cfg_MaxBlockGas :: u64

record block_context =
  bctx_Coinbase :: address
  bctx_GasLimit :: u64
  bctx_BlockNumber :: int
  bctx_Time :: int
  bctx_Difficulty :: int
  bctx_BaseFee :: int
  bctx_Random :: hash
  bctx_GetHash :: "(u64 \<Rightarrow> hash) option"

type_synonym native_table = "address \<Rightarrow> ((bytes \<Rightarrow> u64) \<times> native_body) option"

definition all_forks :: rules where
  "all_forks = \<lparr>IsHomestead = True, IsEIP150 = True, IsEIP158 = True, IsByzantium = True, IsConstantinople = True,
     IsPetersburg = True, IsIstanbul = True, IsBerlin = True, IsLondon = True, IsMerge = True\<rparr>"

text \<open>
  The beneficiary is the primary of the block; \<open>None\<close> is the panic without validators or with an index
  out of range. No function for block hashes is given.
\<close>

definition newEVMBlockContext :: "protocol_settings \<Rightarrow> address list \<Rightarrow> block_header \<Rightarrow> block_context option" where
  "newEVMBlockContext cfg validators h =
     map_option (\<lambda>coinbase. \<lparr>bctx_Coinbase = coinbase, bctx_GasLimit = cfg_MaxBlockGas cfg,
       bctx_BlockNumber = uint (h_Index h), bctx_Time = sint (h_Timestamp h), bctx_Difficulty = 0,
       bctx_BaseFee = 0, bctx_Random = BytesToHash (big_Bytes (sint (h_Nonce h))), bctx_GetHash = None\<rparr>)
     (if h_Index h > 0 then
        (if unat (h_PrimaryIndex h) < length validators then Some (validators ! unat (h_PrimaryIndex h)) else None)
      else Some (replicate 20 0))"

definition NewEVM ::
    "vm_lib \<Rightarrow> protocol_settings \<Rightarrow> native_table \<Rightarrow> block_context \<Rightarrow> address \<Rightarrow> int \<Rightarrow> statedb env" where
  "NewEVM lib cfg nt bctx origin price = \<lparr>DB = sdb (l_Keccak lib), prc = l_prices lib, chainRules = all_forks,
     num = l_num lib, Keccak = l_Keccak lib, CreateAddress = l_CreateAddress lib,
     CreateAddress2 = l_CreateAddress2 lib, precompiles = l_precompiles lib,
     natives = (\<lambda>a. map_option (\<lambda>(required, body). nativeWrapper required body) (nt a)),
     GetHash = bctx_GetHash bctx, Coinbase = bctx_Coinbase bctx, GasLimit = bctx_GasLimit bctx,
     BlockNumber = bctx_BlockNumber bctx, BlockTime = bctx_Time bctx, Difficulty = bctx_Difficulty bctx,
     BaseFee = bctx_BaseFee bctx, Random = bctx_Random bctx, Origin = origin, TxGasPrice = price,
     ChainId = sint (cfg_ChainID cfg), EnablePreimageRecording = False, abort = False\<rparr>"

definition NewContext ::
    "vm_lib \<Rightarrow> protocol_settings \<Rightarrow> native_table \<Rightarrow> address list \<Rightarrow> block_header \<Rightarrow> address \<Rightarrow> int \<Rightarrow> statedb env option" where
  "NewContext lib cfg nt validators h from price =
     map_option (\<lambda>bctx. NewEVM lib cfg nt bctx from price) (newEVMBlockContext cfg validators h)"

lemma NewEVM_simps [simp]:
  "DB (NewEVM lib cfg nt bctx from price) = sdb (l_Keccak lib)"
  "chainRules (NewEVM lib cfg nt bctx from price) = all_forks"
  "natives (NewEVM lib cfg nt bctx from price) a = map_option (\<lambda>(required, body). nativeWrapper required body) (nt a)"
  "IsMerge all_forks"
  by (simp_all add: NewEVM_def all_forks_def)

lemma sdb_simps [simp]:
  "db_CreateAccount (sdb k) = sdb_CreateAccount" "db_AddBalance (sdb k) = sdb_AddBalance"
  "db_GetBalance (sdb k) = sdb_GetBalance" "db_GetNonce (sdb k) = sdb_GetNonce"
  "db_SetNonce (sdb k) = sdb_SetNonce" "db_GetCodeHash (sdb k) = sdb_GetCodeHash"
  "db_GetCode (sdb k) = sdb_GetCode" "db_SetCode (sdb k) = sdb_SetCode k"
  "db_AddRefund (sdb k) = sdb_AddRefund" "db_SubRefund (sdb k) = sdb_SubRefund"
  "db_SetState (sdb k) = sdb_SetState" "db_Suicide (sdb k) = sdb_Suicide"
  "db_AddAddressToAccessList (sdb k) = sdb_AddAddressToAccessList"
  "db_AddSlotToAccessList (sdb k) = sdb_AddSlotToAccessList"
  "db_RevertToSnapshot (sdb k) = RevertToSnapshot" "db_Snapshot (sdb k) = Snapshot"
  "db_AddLog (sdb k) = sdb_AddLog" "db_AddPreimage (sdb k) = sdb_AddPreimage"
  by (simp_all add: sdb_def)

section \<open>Changes of the layer on top\<close>

text \<open>Every operation except \<open>Snapshot\<close>, \<open>RevertToSnapshot\<close> and \<open>Commit\<close> changes the current layer only.\<close>

definition sdb_ok :: "statedb \<Rightarrow> bool" where
  "sdb_ok s \<longleftrightarrow> snapshot s = int (length (memStores s)) - 1"

definition layers :: "statedb \<Rightarrow> mem_store list" where
  "layers s = ps s # memStores s"

lemma layers_not_Nil [simp]: "layers s \<noteq> []" "length (layers s) = Suc (length (memStores s))"
  by (simp_all add: layers_def)

lemma nat_int_pred: "nat (int n - 1) = n - Suc 0"
  by linarith

lemma CurrentStore_last: "sdb_ok s \<Longrightarrow> CurrentStore s = Some (last (layers s))"
  by (auto simp: sdb_ok_def CurrentStore_def layers_def last_conv_nth nat_int_pred)

lemma set_current_layers:
  assumes "sdb_ok s"
  shows "sdb_ok (set_current m s)" and "layers (set_current m s) = butlast (layers s) @ [m]"
    and "sdb_Err (set_current m s) = sdb_Err s"
proof -
  show "sdb_ok (set_current m s)" "sdb_Err (set_current m s) = sdb_Err s"
    using assms by (simp_all add: sdb_ok_def set_current_def)
  show "layers (set_current m s) = butlast (layers s) @ [m]"
  proof (cases "memStores s" rule: rev_cases)
    case Nil
    then show ?thesis using assms by (simp add: sdb_ok_def set_current_def layers_def)
  next
    case (snoc ms x)
    then have "snapshot s = int (length ms)" using assms by (simp add: sdb_ok_def)
    then show ?thesis using snoc by (simp add: set_current_def layers_def)
  qed
qed

end
