(* ===== verification/NativeContracts.thy ===== *)
theory NativeContracts
  imports Interop
begin

text \<open>
  The native contracts that calls reach: the reflection that builds their interface and calls their
  methods in src/pkg/core/native/contracts.go, the policy, the designation of validators, and the
  initialisation of GAS and of the contract registry. Selectors, event identifiers and the decoding
  of arguments are those of go-ethereum's ABI package, an argument here. A method runs on the top
  layer of the state database; what it wrote before an error stays until the machine reverts it.
\<close>

section \<open>Methods as state transformers\<close>

datatype native_error =
    ErrInvalidInput | ErrMethodNotFound | ErrUnpack | ErrInitialize | ErrNoBlock | ErrInvalidSender
  | ErrInvalidRole | ErrEmptyNodeList | ErrLargeNodeList | ErrInvalidContractCallInputs
  | ErrInvalidContractCallReturn | ErrConvertType | ErrText string
  | NativeIo io_error | NativeScript script_error | NativeDao dao_error

type_synonym 'a native_m = "mem_store \<Rightarrow> ((native_error + 'a) \<times> mem_store) option"

definition nreturn :: "'a \<Rightarrow> 'a native_m" where
  "nreturn x m = Some (Inr x, m)"

definition nfail :: "native_error \<Rightarrow> 'a native_m" where
  "nfail e m = Some (Inl e, m)"

definition npanic :: "'a native_m" where
  "npanic m = None"

definition nbind :: "'a native_m \<Rightarrow> ('a \<Rightarrow> 'b native_m) \<Rightarrow> 'b native_m" where
  "nbind f k m = (case f m of
     None \<Rightarrow> None
   | Some (Inl e, m') \<Rightarrow> Some (Inl e, m')
   | Some (Inr x, m') \<Rightarrow> k x m')"

definition nresult :: "native_error + 'a \<Rightarrow> 'a native_m" where
  "nresult r m = Some (r, m)"

definition nread :: "(simple \<Rightarrow> 'a option) \<Rightarrow> 'a native_m" where
  "nread f m = map_option (\<lambda>x. (Inr x, m)) (f (Simple m))"

definition nwrite :: "(simple \<Rightarrow> simple option) \<Rightarrow> unit native_m" where
  "nwrite f m = map_option (\<lambda>d. (Inr (), m\<lparr>Simple := d\<rparr>)) (f (Simple m))"

text \<open>The calls of \<open>Mint\<close> and \<open>Burn\<close> return their error.\<close>

definition ntokens :: "(simple \<Rightarrow> (string option \<times> simple) option) \<Rightarrow> unit native_m" where
  "ntokens f m = map_option (\<lambda>(e, d). (case e of None \<Rightarrow> Inr () | Some t \<Rightarrow> Inl (ErrText t), m\<lparr>Simple := d\<rparr>)) (f (Simple m))"

text \<open>Script errors include the panics of the key functions.\<close>

definition nscript :: "script_error + 'a \<Rightarrow> 'a native_m" where
  "nscript r = (case r of
     Inl (ScriptPanic _) \<Rightarrow> npanic | Inl e \<Rightarrow> nfail (NativeScript e) | Inr x \<Rightarrow> nreturn x)"

section \<open>Interop context\<close>

record interop_context =
  ic_Block :: "u32 option"
  ic_Sender :: address
  ic_TxHash :: hash
  ic_TxFrom :: address
  ic_TxValue :: int

definition native_log :: "interop_context \<Rightarrow> address \<Rightarrow> bytes \<Rightarrow> hash list \<Rightarrow> unit native_m" where
  "native_log ic contract data topics m = (case ic_Block ic of
     None \<Rightarrow> None
   | Some index \<Rightarrow> Some (Inr (), m\<lparr>logs := logs m @
       [\<lparr>log_Address = contract, log_Topics = topics, log_Data = data, log_BlockNumber = ucast index\<rparr>]\<rparr>))"

section \<open>Interfaces by reflection\<close>

datatype go_type =
    GoAddress | GoHash | GoBytes | GoUint8 | GoUint32 | GoUint64 | GoInt64 | GoBigInt | GoError
  | GoReceiver | GoInteropContext

record go_method =
  m_Name :: string
  m_In :: "go_type list"
  m_Out :: "go_type list"

datatype abi_type = AbiAddress | AbiUint256 | AbiBytes | AbiUint8 | AbiUint32 | AbiUint64 | AbiInt64

record abi_method =
  am_Name :: string
  am_Mutability :: string
  am_Inputs :: "abi_type list"
  am_Outputs :: "abi_type list"

record abi =
  Methods :: "(string \<times> abi_method) list"
  Events :: "(string \<times> abi_type list) list"

fun convertType :: "go_type \<Rightarrow> native_error + abi_type" where
  "convertType GoAddress = Inr AbiAddress"
| "convertType GoHash = Inr AbiUint256"
| "convertType GoBytes = Inr AbiBytes"
| "convertType GoUint8 = Inr AbiUint8"
| "convertType GoUint32 = Inr AbiUint32"
| "convertType GoUint64 = Inr AbiUint64"
| "convertType GoInt64 = Inr AbiInt64"
| "convertType GoBigInt = Inr AbiUint256"
| "convertType _ = Inl ErrConvertType"

fun split_on :: "char \<Rightarrow> string \<Rightarrow> string list" where
  "split_on c [] = [[]]"
| "split_on c (x # xs) = (if x = c then [] # split_on c xs
     else (case split_on c xs of [] \<Rightarrow> [[x]] | y # ys \<Rightarrow> (x # y) # ys))"

text \<open>\<open>None\<close> when the method is not a contract call.\<close>

definition parseMethodName :: "string \<Rightarrow> (string \<times> string) option" where
  "parseMethodName meth =
     (let ss = split_on (CHR ''_'') meth in
      if length ss < 2 \<or> hd ss \<noteq> ''ContractCall'' then None
      else let ss = tl ss; name = last ss; ss = butlast ss in
        Some (name,
          if ss = [] then ''nonpayable''
          else let mutability = (if hd ss = ''Payble'' then ''payable'' else ''nonpayable''); ss = tl ss in
            if ss \<noteq> [] \<and> hd ss = ''View'' then mutability @ '' view'' else mutability))"

fun convert_all :: "go_type list \<Rightarrow> native_error + abi_type list" where
  "convert_all [] = Inr []"
| "convert_all (t # ts) = (case convertType t of Inl e \<Rightarrow> Inl e
     | Inr a \<Rightarrow> (case convert_all ts of Inl e \<Rightarrow> Inl e | Inr as \<Rightarrow> Inr (a # as)))"

definition construct_method :: "go_method \<Rightarrow> string \<Rightarrow> string \<Rightarrow> native_error + abi_method" where
  "construct_method g name mutability =
     (if length (m_In g) < 2 then Inl ErrInvalidContractCallInputs
      else case convert_all (drop 2 (m_In g)) of Inl e \<Rightarrow> Inl e
      | Inr inputs \<Rightarrow>
          if length (m_Out g) < 1 \<or> length (m_Out g) > 2 \<or> last (m_Out g) \<noteq> GoError then Inl ErrInvalidContractCallReturn
          else if length (m_Out g) > 1 \<and> hd (m_Out g) \<notin> {GoBytes, GoAddress, GoHash} then Inl ErrInvalidContractCallReturn
          else Inr \<lparr>am_Name = name, am_Mutability = mutability, am_Inputs = inputs,
            am_Outputs = (if length (m_Out g) > 1 then [AbiBytes] else [])\<rparr>)"

definition add_method :: "abi_method \<Rightarrow> abi \<Rightarrow> abi" where
  "add_method am a = \<lparr>Methods = AList.update (am_Name am) am (Methods a),
     Events = (if am_Inputs am \<noteq> [] then AList.update (am_Name am) (am_Inputs am) (Events a) else Events a)\<rparr>"

fun construct_from :: "abi \<Rightarrow> go_method list \<Rightarrow> native_error + abi" where
  "construct_from a [] = Inr a"
| "construct_from a (g # gs) = (case parseMethodName (m_Name g) of
     None \<Rightarrow> construct_from a gs
   | Some (name, mutability) \<Rightarrow>
       if name = [] then construct_from a gs
       else case construct_method g name mutability of
         Inl e \<Rightarrow> Inl e
       | Inr am \<Rightarrow> construct_from (add_method am a) gs)"

definition constructAbi :: "go_method list \<Rightarrow> native_error + abi" where
  "constructAbi gs = construct_from \<lparr>Methods = [], Events = []\<rparr> gs"

text \<open>What go-ethereum computes of the interface.\<close>

datatype abi_value = VAddress address | VUint256 int | VBytes bytes | VUint8 byte | VUint32 u32 | VUint64 u64 | VInt64 u64

record abi_lib =
  MethodId :: "string \<Rightarrow> abi_type list \<Rightarrow> bytes"
  EventId :: "string \<Rightarrow> abi_type list \<Rightarrow> hash"
  Unpack :: "abi_type list \<Rightarrow> bytes \<Rightarrow> abi_value list option"

definition MethodById :: "abi_lib \<Rightarrow> abi \<Rightarrow> bytes \<Rightarrow> abi_method option" where
  "MethodById L a sigdata =
     find (\<lambda>am. MethodId L (am_Name am) (am_Inputs am) = sigdata) (map snd (Methods a))"

text \<open>The identifier of an event that the interface does not have is the zero hash.\<close>

definition event_id :: "abi_lib \<Rightarrow> abi \<Rightarrow> string \<Rightarrow> hash" where
  "event_id L a name = (case map_of (Events a) name of None \<Rightarrow> replicate 32 0 | Some inputs \<Rightarrow> EventId L name inputs)"

type_synonym contract_calls = "string \<Rightarrow> abi_value list \<Rightarrow> bytes option native_m"

definition contractCall :: "abi_lib \<Rightarrow> abi \<Rightarrow> contract_calls \<Rightarrow> bytes \<Rightarrow> bytes native_m" where
  "contractCall L a calls inp =
     (if length inp < 4 then nfail ErrInvalidInput
      else case MethodById L a (take 4 inp) of
        None \<Rightarrow> nfail ErrMethodNotFound
      | Some am \<Rightarrow> (case Unpack L (am_Inputs am) (drop 4 inp) of
          None \<Rightarrow> nfail ErrUnpack
        | Some args \<Rightarrow> nbind (calls (am_Name am) args) (\<lambda>r. nreturn (or_nil r))))"

definition required_gas :: "abi_lib \<Rightarrow> abi \<Rightarrow> (string \<Rightarrow> u64) \<Rightarrow> bytes \<Rightarrow> u64" where
  "required_gas L a price inp =
     (if length inp < 4 then 0
      else case MethodById L a (take 4 inp) of None \<Rightarrow> 0 | Some am \<Rightarrow> price (am_Name am))"

definition defaultNativeReadFee :: u64 where "defaultNativeReadFee = 200"
definition defaultNativeWriteFee :: u64 where "defaultNativeWriteFee = 5000"

section \<open>Designation\<close>

definition Validator :: byte where "Validator = 0"
definition StateValidator :: byte where "StateValidator = 1"
definition MaxNodeCount :: nat where "MaxNodeCount = 21"

definition role_IsValid :: "byte \<Rightarrow> bool" where
  "role_IsValid r \<longleftrightarrow> r = Validator \<or> r = StateValidator"

record role_data =
  rd_nodes :: "public_key list"
  rd_addr :: address
  rd_height :: u32

record designate =
  StandbyValidators :: "public_key list"
  rolesChangedFlag :: bool
  cache_validators :: role_data
  cache_stateVals :: role_data

definition keys_Bytes :: "public_key list \<Rightarrow> bytes" where
  "keys_Bytes ks = the (fst (Bytes (WriteArray encode_key ks NewBufBinWriter)))"

definition createRoleKey :: "byte \<Rightarrow> u32 \<Rightarrow> bytes" where
  "createRoleKey role index = role # put_le 4 index"

text \<open>The items come in the order of their keys and are read from the last one on.\<close>

definition GetDesignatedByRoleFromStorage ::
    "crypto_lib \<Rightarrow> simple \<Rightarrow> byte \<Rightarrow> u32 \<Rightarrow> native_error + (public_key list \<times> u32)" where
  "GetDesignatedByRoleFromStorage C s r index =
     (case GetStorageItemsWithPrefix s DesignationAddress [r] of
        Inl e \<Rightarrow> Inl (NativeDao e)
      | Inr kvs \<Rightarrow> (case find (\<lambda>(k, _). 4 \<le> length k \<and> (get_le (take 4 k) :: u32) \<le> index) (rev kvs) of
          None \<Rightarrow> Inr ([], 0)
        | Some (k, si) \<Rightarrow> (case decode_keys (Secp C) si of
            Inl e \<Rightarrow> Inl (NativeIo e)
          | Inr ks \<Rightarrow> Inr (ks, get_le (take 4 k)))))"

definition GetDesignatedByRole ::
    "crypto_lib \<Rightarrow> designate \<Rightarrow> simple \<Rightarrow> byte \<Rightarrow> u32 \<Rightarrow> native_error + (public_key list \<times> u32)" where
  "GetDesignatedByRole C d s r index =
     (if \<not> role_IsValid r then Inl ErrInvalidRole
      else let val = (if r = Validator then cache_validators d else cache_stateVals d) in
        if rd_height val \<le> index then Inr (rd_nodes val, rd_height val)
        else GetDesignatedByRoleFromStorage C s r index)"

definition GetValidators :: "crypto_lib \<Rightarrow> designate \<Rightarrow> simple \<Rightarrow> u32 \<Rightarrow> native_error + public_key list" where
  "GetValidators C d s index = map_sum id fst (GetDesignatedByRole C d s Validator index)"

definition GetConsensusAddress :: "crypto_lib \<Rightarrow> designate \<Rightarrow> u32 \<Rightarrow> address native_m" where
  "GetConsensusAddress C d index m =
     nbind (nresult (GetValidators C d (Simple m) index)) (\<lambda>validators.
     nbind (nscript (CreateDefaultMultiSigRedeemScript validators)) (\<lambda>script.
     nreturn (Hash160 C script))) m"

definition GetSysAddresses :: "crypto_lib \<Rightarrow> designate \<Rightarrow> u32 \<Rightarrow> address list native_m" where
  "GetSysAddresses C d index m =
     nbind (nresult (GetValidators C d (Simple m) index)) (\<lambda>accounts.
     if length (StandbyValidators d) > length accounts then npanic
     else nbind (nscript (CreateDefaultMultiSigRedeemScript (take (length (StandbyValidators d)) accounts))) (\<lambda>script.
       nreturn (map (PubkeyToAddress C) accounts @ [Hash160 C script]))) m"

definition checkConsensus :: "crypto_lib \<Rightarrow> designate \<Rightarrow> interop_context \<Rightarrow> unit native_m" where
  "checkConsensus C d ic = (case ic_Block ic of
     None \<Rightarrow> nfail ErrNoBlock
   | Some index \<Rightarrow> nbind (GetConsensusAddress C d index) (\<lambda>consensus.
       if ic_Sender ic \<noteq> consensus then nfail ErrInvalidSender else nreturn ()))"

definition designateAsRole :: "interop_context \<Rightarrow> byte \<Rightarrow> public_key list \<Rightarrow> unit native_m" where
  "designateAsRole ic r keys =
     (if \<not> role_IsValid r then nfail ErrInvalidRole
      else case key_Unique keys of
        None \<Rightarrow> npanic
      | Some ks \<Rightarrow>
          if length ks = 0 then nfail ErrEmptyNodeList
          else if length ks > MaxNodeCount then nfail ErrLargeNodeList
          else (case ic_Block ic of
            None \<Rightarrow> npanic
          | Some index \<Rightarrow> (case key_sort ks of
              None \<Rightarrow> npanic
            | Some ks \<Rightarrow> nwrite (PutStorageItem DesignationAddress (createRoleKey r (index + 2)) (keys_Bytes ks)))))"

definition genesis :: "interop_context \<Rightarrow> bool" where
  "genesis ic \<longleftrightarrow> ic_Block ic = Some 0"

definition designate_initialize :: "abi_lib \<Rightarrow> abi \<Rightarrow> designate \<Rightarrow> interop_context \<Rightarrow> unit native_m" where
  "designate_initialize L a d ic =
     (if \<not> genesis ic then nfail ErrInitialize
      else nbind (nwrite (PutStorageItem DesignationAddress (createRoleKey Validator 0) (keys_Bytes (StandbyValidators d)))) (\<lambda>_.
        native_log ic DesignationAddress (keys_Bytes (StandbyValidators d)) [event_id L a ''initialize'', BytesToHash [Validator]]))"

text \<open>The cache is filled from the storage after every block. An error keeps what was set so far.\<close>

definition addressFromNodes :: "crypto_lib \<Rightarrow> public_key list \<Rightarrow> script_error + address" where
  "addressFromNodes C nodes =
     (if nodes = [] then Inr (replicate 20 0)
      else map_sum id (Hash160 C) (CreateDefaultMultiSigRedeemScript nodes))"

definition updateCachedRoleData ::
    "crypto_lib \<Rightarrow> simple \<Rightarrow> byte \<Rightarrow> designate \<Rightarrow> (native_error option \<times> designate) option" where
  "updateCachedRoleData C s r d =
     (let set_role = (\<lambda>v. if r = StateValidator then d\<lparr>cache_stateVals := v\<rparr> else d\<lparr>cache_validators := v\<rparr>);
          old = (if r = StateValidator then cache_stateVals d else cache_validators d) in
      case GetDesignatedByRoleFromStorage C s r 0xFFFFFFFF of
        Inl e \<Rightarrow> Some (Some e, d)
      | Inr (nodes, height) \<Rightarrow> (case addressFromNodes C nodes of
          Inl (ScriptPanic _) \<Rightarrow> None
        | Inl e \<Rightarrow> Some (Some (NativeScript e), set_role (old\<lparr>rd_nodes := nodes\<rparr>))
        | Inr addr \<Rightarrow> Some (None,
            (set_role \<lparr>rd_nodes = nodes, rd_addr = addr, rd_height = height\<rparr>)\<lparr>rolesChangedFlag := True\<rparr>)))"

definition designate_UpdateCache :: "crypto_lib \<Rightarrow> simple \<Rightarrow> designate \<Rightarrow> (native_error option \<times> designate) option" where
  "designate_UpdateCache C s d = Option.bind (updateCachedRoleData C s Validator d) (\<lambda>(e, d).
     case e of Some e \<Rightarrow> Some (Some e, d) | None \<Rightarrow> updateCachedRoleData C s StateValidator d)"

section \<open>Policy\<close>

definition DefaultFeePerByte :: u64 where "DefaultFeePerByte = 1000"
definition DefaultGasPrice :: u64 where "DefaultGasPrice = 10000000000"
definition PrefixFeePerByte :: byte where "PrefixFeePerByte = 0x01"
definition PrefixGasPrice :: byte where "PrefixGasPrice = 0x08"
definition PrefixBlockedAcount :: byte where "PrefixBlockedAcount = 0x11"

record policy_cache =
  cache_feePerByte :: "u64 option"
  cache_gasPrice :: "int option"

definition createBlockKey :: "address \<Rightarrow> bytes" where
  "createBlockKey a = makeAddressKey PrefixBlockedAcount a"

definition be64 :: "bytes \<Rightarrow> u64 option" where
  "be64 b = (if length b < 8 then None else Some (get_be (take 8 b)))"

definition GetFeePerByteFromStorage :: "simple \<Rightarrow> u64 option" where
  "GetFeePerByteFromStorage s = Option.bind (GetStorageItem s PolicyAddress [PrefixFeePerByte]) (\<lambda>item.
     case item of None \<Rightarrow> Some DefaultFeePerByte | Some b \<Rightarrow> be64 b)"

definition GetGasPriceFromStorage :: "simple \<Rightarrow> int option" where
  "GetGasPriceFromStorage s = Option.bind (GetStorageItem s PolicyAddress [PrefixGasPrice]) (\<lambda>item.
     case item of None \<Rightarrow> Some (sint DefaultGasPrice) | Some b \<Rightarrow> map_option sint (be64 b))"

definition GetFeePerByte :: "policy_cache \<Rightarrow> simple \<Rightarrow> u64 option" where
  "GetFeePerByte p s = (case cache_feePerByte p of Some v \<Rightarrow> Some v | None \<Rightarrow> GetFeePerByteFromStorage s)"

definition GetGasPrice :: "policy_cache \<Rightarrow> simple \<Rightarrow> int option" where
  "GetGasPrice p s = (case cache_gasPrice p of Some v \<Rightarrow> Some v | None \<Rightarrow> GetGasPriceFromStorage s)"

definition policy_UpdateCache :: "simple \<Rightarrow> policy_cache option" where
  "policy_UpdateCache s = Option.bind (GetFeePerByteFromStorage s) (\<lambda>f.
     map_option (\<lambda>g. \<lparr>cache_feePerByte = Some f, cache_gasPrice = Some g\<rparr>) (GetGasPriceFromStorage s))"

definition policy_IsBlocked :: "simple \<Rightarrow> address \<Rightarrow> bool option" where
  "policy_IsBlocked s a = map_option (\<lambda>item. item \<noteq> None) (GetStorageItem s PolicyAddress (createBlockKey a))"

definition put_setting :: "abi_lib \<Rightarrow> abi \<Rightarrow> interop_context \<Rightarrow> byte \<Rightarrow> string \<Rightarrow> u64 \<Rightarrow> unit native_m" where
  "put_setting L a ic pre event v =
     nbind (nwrite (PutStorageItem PolicyAddress [pre] (put_be 8 v))) (\<lambda>_.
     native_log ic PolicyAddress (put_be 8 v) [event_id L a event])"

text \<open>
  Both settings are written into one buffer. The store copies it, the log keeps it, so that the
  first event ends up with the bytes of the second setting.
\<close>

definition policy_initialize :: "abi_lib \<Rightarrow> abi \<Rightarrow> interop_context \<Rightarrow> unit native_m" where
  "policy_initialize L a ic =
     (if \<not> genesis ic then nfail ErrInitialize
      else nbind (nwrite (PutStorageItem PolicyAddress [PrefixGasPrice] (put_be 8 DefaultGasPrice))) (\<lambda>_.
        nbind (native_log ic PolicyAddress (put_be 8 DefaultFeePerByte) [event_id L a ''setGasPrice'']) (\<lambda>_.
        put_setting L a ic PrefixFeePerByte ''setFeePerByte'' DefaultFeePerByte)))"

definition setFeePerByte :: "crypto_lib \<Rightarrow> abi_lib \<Rightarrow> abi \<Rightarrow> designate \<Rightarrow> interop_context \<Rightarrow> u64 \<Rightarrow> unit native_m" where
  "setFeePerByte C L a d ic v = nbind (checkConsensus C d ic) (\<lambda>_.
     put_setting L a ic PrefixFeePerByte ''setFeePerByte'' v)"

definition setGasPrice :: "crypto_lib \<Rightarrow> abi_lib \<Rightarrow> abi \<Rightarrow> designate \<Rightarrow> interop_context \<Rightarrow> u64 \<Rightarrow> unit native_m" where
  "setGasPrice C L a d ic v = nbind (checkConsensus C d ic) (\<lambda>_.
     put_setting L a ic PrefixGasPrice ''setGasPrice'' v)"

definition checkSystem :: "crypto_lib \<Rightarrow> designate \<Rightarrow> interop_context \<Rightarrow> address \<Rightarrow> unit native_m" where
  "checkSystem C d ic address = (case ic_Block ic of
     None \<Rightarrow> nfail ErrNoBlock
   | Some index \<Rightarrow> nbind (GetSysAddresses C d index) (\<lambda>addrs.
       if address \<in> set addrs then nfail (ErrText ''system account'') else nreturn ()))"

definition blockAccount :: "crypto_lib \<Rightarrow> abi_lib \<Rightarrow> abi \<Rightarrow> designate \<Rightarrow> interop_context \<Rightarrow> address \<Rightarrow> unit native_m" where
  "blockAccount C L a d ic address =
     nbind (checkConsensus C d ic) (\<lambda>_.
     nbind (checkSystem C d ic address) (\<lambda>_.
     nbind (nread (\<lambda>s. GetStorageItem s PolicyAddress (createBlockKey address))) (\<lambda>item.
       if item \<noteq> None then nfail (ErrText ''already blocked'')
       else nbind (nwrite (PutStorageItem PolicyAddress (createBlockKey address) [1])) (\<lambda>_.
         native_log ic PolicyAddress [] [event_id L a ''blockAccount'', BytesToHash address]))))"

definition unblockAccount :: "crypto_lib \<Rightarrow> abi_lib \<Rightarrow> abi \<Rightarrow> designate \<Rightarrow> interop_context \<Rightarrow> address \<Rightarrow> unit native_m" where
  "unblockAccount C L a d ic address =
     nbind (checkConsensus C d ic) (\<lambda>_.
     nbind (checkSystem C d ic address) (\<lambda>_.
     nbind (nread (\<lambda>s. GetStorageItem s PolicyAddress (createBlockKey address))) (\<lambda>item.
       if item = None then nfail (ErrText ''account isn't blocked'')
       else nbind (nwrite (DeleteStorageItem PolicyAddress (createBlockKey address))) (\<lambda>_.
         native_log ic PolicyAddress [] [event_id L a ''unblockAccount'', BytesToHash address]))))"

section \<open>GAS and the registry of contracts\<close>

definition gas_initialize :: "crypto_lib \<Rightarrow> abi_lib \<Rightarrow> abi \<Rightarrow> designate \<Rightarrow> u64 \<Rightarrow> interop_context \<Rightarrow> unit native_m" where
  "gas_initialize C L a d initialSupply ic =
     (if \<not> genesis ic then nfail ErrInitialize
      else nbind (if length (StandbyValidators d) = 1 then nreturn (PubkeyToAddress C (hd (StandbyValidators d)))
                  else nbind (nscript (CreateDefaultMultiSigRedeemScript (StandbyValidators d))) (\<lambda>script.
                    nreturn (Hash160 C script))) (\<lambda>addr.
        let total = sint initialSupply * 10 ^ 18 in
        nbind (ntokens (addTokens addr total)) (\<lambda>_.
        native_log ic GASAddress (big_Bytes total) [event_id L a ''initialize''])))"

fun put_contracts :: "state_contract list \<Rightarrow> unit native_m" where
  "put_contracts [] = nreturn ()"
| "put_contracts (c # cs) = (case ToByteArray (encode_contract c) of
     Inl e \<Rightarrow> nfail (NativeIo e)
   | Inr raw \<Rightarrow> nbind (nwrite (PutStorageItem ManagementAddress (createContractKey (sc_Address c)) (or_nil raw))) (\<lambda>_.
       put_contracts cs))"

definition management_initialize :: "state_contract list \<Rightarrow> interop_context \<Rightarrow> unit native_m" where
  "management_initialize contracts ic = (if \<not> genesis ic then nfail ErrInitialize else put_contracts contracts)"

end
