(* ===== verification/Bridge.thy ===== *)
theory Bridge
  imports NativeContracts MptProof
begin

text \<open>
  The bridge to the main chain: src/pkg/core/native/bridge.go with the proof record of
  src/pkg/rpc/response/result/mpt.go. It stores headers and state roots of the main chain that its
  validators signed, mints what a proof shows to be deposited there and records what is locked
  here. Keys of the main chain are on the curve P-256, an argument like the other cryptography.
\<close>

section \<open>Configuration and keys of the storage\<close>

record bridge_lib =
  b_C :: crypto_lib
  b_P256 :: curve
  b_P256Verify :: "public_key \<Rightarrow> bytes \<Rightarrow> int \<Rightarrow> int \<Rightarrow> bool"
  b_bigint_ToBytes :: "int \<Rightarrow> bytes"
  b_fuel :: nat

record bridge =
  mainStandbyStateValidatorsScriptHash :: address
  mainBridgeContractId :: "32 word"
  mainNetwork :: u32

definition MainRoleManagementId :: "32 word" where "MainRoleManagementId = - 8"
definition MainBrdgeConractDepositPrefix :: byte where "MainBrdgeConractDepositPrefix = 0x01"
definition MainBridgeContractValidatorsKey :: byte where "MainBridgeContractValidatorsKey = 0x03"
definition MainStateValidatorRoleValue :: byte where "MainStateValidatorRoleValue = 0x04"

definition PUSHINT8 :: byte where "PUSHINT8 = 0"
definition PUSHINT16 :: byte where "PUSHINT16 = 1"
definition B_PUSH0 :: byte where "B_PUSH0 = 16"
definition B_PUSH1 :: byte where "B_PUSH1 = 17"
definition B_PUSH16 :: byte where "B_PUSH16 = 32"
definition PUSHDATA1 :: byte where "PUSHDATA1 = 12"
definition SYSCALL :: byte where "SYSCALL = 65"
definition SystemCryptoCheckSig :: u32 where "SystemCryptoCheckSig = 666101590"
definition SystemCryptoCheckMultisig :: u32 where "SystemCryptoCheckMultisig = 987549854"

definition PrefixHeader :: byte where "PrefixHeader = 0x00"
definition PrefixStateRoot :: byte where "PrefixStateRoot = 0x01"
definition ValidatorsKey :: byte where "ValidatorsKey = 0x02"
definition PrefixMainStateValidatorsAddress :: byte where "PrefixMainStateValidatorsAddress = 0x03"
definition PrefixDepositId :: byte where "PrefixDepositId = 0x04"
definition LockIdKey :: byte where "LockIdKey = 0x05"
definition PrefixLock :: byte where "PrefixLock = 0x06"
definition JointHeadersKey :: byte where "JointHeadersKey = 0x11"
definition JointStateRootsKey :: byte where "JointStateRootsKey = 0x12"

definition MintThreashold :: int where "MintThreashold = 100000000"
definition BaseBonous :: int where "BaseBonous = 3000000"
definition tenGWei :: int where "tenGWei = 10000000000"

definition createHeaderKey :: "u32 \<Rightarrow> bytes" where
  "createHeaderKey index = makeIndexKey PrefixHeader index"

definition createStateValidatorsAddressKey :: "u32 \<Rightarrow> bytes" where
  "createStateValidatorsAddressKey index = makeIndexKey PrefixMainStateValidatorsAddress index"

definition createStateRootKey :: "u32 \<Rightarrow> bytes" where
  "createStateRootKey index = makeIndexKey PrefixStateRoot index"

definition createDepositIdKey :: "bytes \<Rightarrow> bytes" where
  "createDepositIdKey depositId = PrefixDepositId # depositId"

definition createLockKey :: "bytes \<Rightarrow> bytes" where
  "createLockKey lockId = PrefixLock # lockId"

section \<open>Witnesses of the main chain\<close>

definition main_Verify :: "bridge_lib \<Rightarrow> public_key \<Rightarrow> bytes \<Rightarrow> bytes \<Rightarrow> bool" where
  "main_Verify K k sig h = key_Verify ((b_C K)\<lparr>EcdsaVerify := b_P256Verify K\<rparr>) k sig h"

definition createMainDefaultMultiSigRedeemScript :: "public_key list \<Rightarrow> bytes" where
  "createMainDefaultMultiSigRedeemScript pks =
     [PUSHINT8, of_nat (GetDefaultHonestNodeCount (length pks))] @
     concat (map (\<lambda>pk. [PUSHDATA1, 33] @ fit 33 (getBytes True pk)) pks) @
     [PUSHINT8, of_nat (length pks), SYSCALL] @ put_le 4 SystemCryptoCheckMultisig"

definition isMainSingleSignature :: "bridge_lib \<Rightarrow> bytes \<Rightarrow> public_key option" where
  "isMainSingleSignature K script =
     (if length script \<noteq> 40 then None
      else if script ! 0 \<noteq> PUSHDATA1 \<or> script ! 1 \<noteq> 33 \<or> script ! 35 \<noteq> SYSCALL
              \<or> get_le (drop 36 script) \<noteq> SystemCryptoCheckSig then None
      else case NewPublicKeyFromBytes (b_P256 K) (take 33 (drop 2 script)) of
        Inl _ \<Rightarrow> None | Inr pk \<Rightarrow> Some pk)"

text \<open>The count at the head of the script, with the position behind it.\<close>

definition script_threshold :: "bytes \<Rightarrow> (nat \<times> nat) option" where
  "script_threshold script =
     (if script ! 0 = PUSHINT8 then Some (unat (script ! 1), 2)
      else if script ! 0 = PUSHINT16 then Some (unat (get_le (take 2 (drop 1 script)) :: u16), 3)
      else if script ! 0 \<le> B_PUSH16 \<and> B_PUSH1 \<le> script ! 0 then Some (unat (script ! 0 - B_PUSH0), 1)
      else None)"

text \<open>The position is inside the script on every turn: a key is taken only when more follows.\<close>

function collect_keys :: "curve \<Rightarrow> bytes \<Rightarrow> nat \<Rightarrow> public_key list \<Rightarrow> (nat \<times> public_key list) option" where
  "collect_keys c script i pks =
     (if i < length script \<and> script ! i = PUSHDATA1 then
        (if length script \<le> i + 35 \<or> script ! (i + 1) \<noteq> 33 then None
         else case NewPublicKeyFromBytes c (take 33 (drop (i + 2) script)) of
           Inl _ \<Rightarrow> None
         | Inr pk \<Rightarrow> collect_keys c script (i + 35) (pks @ [pk]))
      else Some (i, pks))"
  by pat_completeness auto

termination
  by (relation "measure (\<lambda>(c, script, i, pks). length script - i)") auto

definition script_count :: "bytes \<Rightarrow> nat \<Rightarrow> nat \<Rightarrow> nat option" where
  "script_count script i n =
     (if script ! i = PUSHINT8 then
        (if length script \<le> i + 1 \<or> n \<noteq> unat (script ! (i + 1)) then None else Some (i + 2))
      else if script ! i = PUSHINT16 then
        (if length script \<le> i + 3 \<or> n \<noteq> unat (get_le (take 2 (drop (i + 1) script)) :: u16) then None else Some (i + 3))
      else if script ! i \<le> B_PUSH16 \<and> B_PUSH1 \<le> script ! i then
        (if n \<noteq> unat (script ! i - B_PUSH0) then None else Some (i + 1))
      else None)"

definition isMainMultiSignature :: "bridge_lib \<Rightarrow> bytes \<Rightarrow> (nat \<times> public_key list) option" where
  "isMainMultiSignature K script =
     (if length script < 42 then None
      else Option.bind (script_threshold script) (\<lambda>(m, i).
        if m < 1 \<or> 1024 < m then None
        else Option.bind (collect_keys (b_P256 K) script i []) (\<lambda>(i, pks).
          if length pks < m \<or> 1024 < length pks then None
          else Option.bind (script_count script i (length pks)) (\<lambda>i.
            if length script \<noteq> i + 5 \<or> script ! i \<noteq> SYSCALL
               \<or> get_le (drop (i + 1) script) \<noteq> SystemCryptoCheckMultisig then None
            else Some (m, pks)))))"

text \<open>A malformed invocation script gives a nil slice of signatures, here the empty list.\<close>

function getMainMultiSignatures :: "bytes \<Rightarrow> bytes list option" where
  "getMainMultiSignatures script =
     (if script = [] then Some []
      else if script ! 0 \<noteq> PUSHDATA1 \<or> length script < 66 \<or> script ! 1 \<noteq> 64 then None
      else map_option (\<lambda>sigs. take 64 (drop 2 script) # sigs) (getMainMultiSignatures (drop 66 script)))"
  by pat_completeness auto

termination
  by (relation "measure length") auto

definition getMainSignedData :: "u32 \<Rightarrow> hash \<Rightarrow> bytes" where
  "getMainSignedData network h = copy_at 4 h (copy_at 0 (put_le 4 network) (replicate 36 0))"

definition netSha256 :: "bridge_lib \<Rightarrow> u32 \<Rightarrow> hash \<Rightarrow> bytes" where
  "netSha256 K network h = Sha256 (b_C K) (getMainSignedData network h)"

text \<open>\<open>None\<close> is an index out of range: a signature that is not there.\<close>

fun main_match :: "bridge_lib \<Rightarrow> bytes \<Rightarrow> bytes list \<Rightarrow> nat \<Rightarrow> nat \<Rightarrow> public_key list \<Rightarrow> bool option" where
  "main_match K msg sigs m x [] = Some True"
| "main_match K msg sigs m x (pk # pks) =
     (if x < m then
        (if length sigs \<le> x then None
         else let x' = (if main_Verify K pk (sigs ! x) msg then x + 1 else x) in
           if m - x' > length pks then Some False else main_match K msg sigs m x' pks)
      else Some True)"

definition verifyMainWitness :: "bridge_lib \<Rightarrow> bridge \<Rightarrow> hash \<Rightarrow> witness \<Rightarrow> bool option" where
  "verifyMainWitness K b h w =
     (case isMainSingleSignature K (VerificationScript w) of
        Some pk \<Rightarrow>
          if length (InvocationScript w) < 2 then None
          else Some (main_Verify K pk (drop 2 (InvocationScript w)) (netSha256 K (mainNetwork b) h))
      | None \<Rightarrow> (case isMainMultiSignature K (VerificationScript w) of
          Some (m, pks) \<Rightarrow> main_match K (netSha256 K (mainNetwork b) h)
            (case getMainMultiSignatures (InvocationScript w) of None \<Rightarrow> [] | Some sigs \<Rightarrow> sigs) m 0 pks
        | None \<Rightarrow> Some False))"

section \<open>Proofs\<close>

definition contractId :: "bytes \<Rightarrow> 32 word" where
  "contractId ky = get_le ky"

definition chunk :: "bytes \<Rightarrow> nat \<Rightarrow> hash" where
  "chunk proof i = BytesToHash (take 32 (drop (4 + i * 32) proof))"

definition verifyMerkleProof :: "bridge_lib \<Rightarrow> hash \<Rightarrow> hash \<Rightarrow> bytes \<Rightarrow> bool" where
  "verifyMerkleProof K rt txid proof =
     (if length proof < 4 \<or> (length proof - 4) mod 32 \<noteq> 0 then False
      else VerifyMerkleProof (DoubleSha256 (Sha256 (b_C K))) rt txid
        (map (chunk proof) [0..<length proof div 32]) (get_le (take 4 proof)))"

record proof_with_key =
  pwk_Key :: bytes
  pwk_Proof :: "bytes list"

text \<open>The loop does not look at the error of the reader.\<close>

fun read_proofs :: "nat \<Rightarrow> bin_reader \<Rightarrow> bytes list \<times> bin_reader" where
  "read_proofs 0 r = ([], r)"
| "read_proofs (Suc n) r =
     (let (p, r1) = ReadVarBytes MaxArraySize r; (ps, r2) = read_proofs n r1 in (or_nil p # ps, r2))"

definition decode_proof_with_key :: "bin_reader \<Rightarrow> proof_with_key \<times> bin_reader" where
  "decode_proof_with_key r =
     (let (k, r1) = ReadVarBytes MaxArraySize r;
          (sz, r2) = ReadVarUint r1;
          (ps, r3) = read_proofs (unat sz) r2 in
      (\<lparr>pwk_Key = or_nil k, pwk_Proof = ps\<rparr>, r3))"

definition encode_proof_with_key :: "proof_with_key \<Rightarrow> bin_writer \<Rightarrow> bin_writer" where
  "encode_proof_with_key p w =
     fold WriteVarBytes (pwk_Proof p) (WriteVarUint (of_nat (length (pwk_Proof p))) (WriteVarBytes (pwk_Key p) w))"

definition ErrInvalidMPTProof :: native_error where "ErrInvalidMPTProof = ErrText ''invalid mpt proof''"

definition verifyMPTProof :: "bridge_lib \<Rightarrow> hash \<Rightarrow> bytes \<Rightarrow> (bytes \<times> bytes) native_m" where
  "verifyMPTProof K rt proof = (case FromByteArray decode_proof_with_key proof of
     (_, Some e) \<Rightarrow> nfail (NativeIo e)
   | (pwk, None) \<Rightarrow> (case VerifyProof (DoubleSha256 (Sha256 (b_C K))) (b_fuel K) rt (pwk_Key pwk) (pwk_Proof pwk) of
       Inl _ \<Rightarrow> npanic
     | Inr None \<Rightarrow> nfail ErrInvalidMPTProof
     | Inr (Some v) \<Rightarrow> nreturn (pwk_Key pwk, v)))"

text \<open>The record of the designated state validators on the main chain, and its keys.\<close>

fun ec_points :: "curve \<Rightarrow> nat \<Rightarrow> bytes \<Rightarrow> native_error + public_key list" where
  "ec_points c 0 data = Inr []"
| "ec_points c (Suc n) data =
     (case data of
        [] \<Rightarrow> Inl (ErrText ''unexpect EOF'')
      | t # data \<Rightarrow>
          if t \<noteq> 40 then Inl (ErrText ''invalid format'')
          else (case data of
            [] \<Rightarrow> Inl (ErrText ''unexpect EOF'')
          | le # data \<Rightarrow>
              if length data < unat le then Inl (ErrText ''unexpect EOF'')
              else (case NewPublicKeyFromBytes c (take (unat le) data) of
                Inl e \<Rightarrow> Inl (NativeIo e)
              | Inr p \<Rightarrow> map_sum id (Cons p) (ec_points c n (drop (unat le) data)))))"

definition parseMainInteropListECPoints :: "bridge_lib \<Rightarrow> bytes \<Rightarrow> native_error + public_key list" where
  "parseMainInteropListECPoints K data = (case data of
     [] \<Rightarrow> Inl (ErrText ''unexpect EOF'')
   | t # data \<Rightarrow>
       if t \<noteq> 64 then Inl (ErrText ''invalid format'')
       else (case data of
         [] \<Rightarrow> Inl (ErrText ''unexpect EOF'')
       | num_keys # data \<Rightarrow> ec_points (b_P256 K) (unat num_keys) data))"

text \<open>The validators in the main contract; an index out of range is \<open>None\<close>.\<close>

fun main_pks :: "curve \<Rightarrow> nat \<Rightarrow> bytes \<Rightarrow> (native_error + public_key list) option" where
  "main_pks c 0 data = Some (Inr [])"
| "main_pks c (Suc n) data =
     (case data of
        [] \<Rightarrow> None
      | le # data \<Rightarrow>
          if length data < unat le then None
          else (case NewPublicKeyFromBytes c (take (unat le) data) of
            Inl e \<Rightarrow> Some (Inl (ErrText ''can't parse public key''))
          | Inr pk \<Rightarrow> map_option (map_sum id (Cons pk)) (main_pks c n (drop (unat le) data))))"

definition decode_main_validators :: "bridge_lib \<Rightarrow> bytes \<Rightarrow> (native_error + (hash \<times> public_key list)) option" where
  "decode_main_validators K b =
     (if length b < 33 then Some (Inl (ErrText ''invalid main validators state''))
      else map_option (map_sum id (Pair (BytesToHash (take 32 b))))
        (main_pks (Secp (b_C K)) (unat (b ! 32)) (drop 33 b)))"

definition isDesignateStateValidators :: "bytes \<Rightarrow> u32 option" where
  "isDesignateStateValidators ky =
     (if length ky \<noteq> 9 \<or> contractId (take 4 ky) \<noteq> MainRoleManagementId \<or> ky ! 4 \<noteq> MainStateValidatorRoleValue
      then None else Some (get_be (drop 5 ky)))"

definition isDesignateValidators :: "bridge \<Rightarrow> bytes \<Rightarrow> bool" where
  "isDesignateValidators b ky \<longleftrightarrow> length ky = 5 \<and> contractId (take 4 ky) = mainBridgeContractId b
     \<and> ky ! 4 = MainBridgeContractValidatorsKey"

text \<open>The last test reads the fifth byte of a key that may have only four.\<close>

definition isMintRequest :: "bridge \<Rightarrow> bytes \<Rightarrow> bool option" where
  "isMintRequest b ky =
     (if length ky < 4 \<or> contractId (take 4 ky) \<noteq> mainBridgeContractId b then Some False
      else if length ky < 5 then None else Some (ky ! 4 = MainBrdgeConractDepositPrefix))"

record deposit_state =
  ds_txId :: hash
  ds_from :: address
  ds_amount :: u64
  ds_to :: address

definition newDepositStateFromBytes :: "bytes \<Rightarrow> native_error + deposit_state" where
  "newDepositStateFromBytes b =
     (let (t, r1) = ReadBytes (replicate 32 0) (NewBinReaderFromBuf b);
          (f, r2) = ReadBytes (replicate 20 0) r1;
          (a, r3) = ReadU64LE r2;
          (t', r4) = ReadBytes (replicate 20 0) r3 in
      case Err r4 of Some e \<Rightarrow> Inl (NativeIo e)
      | None \<Rightarrow> Inr \<lparr>ds_txId = t, ds_from = f, ds_amount = a, ds_to = rev t'\<rparr>)"

definition deposit_Bytes :: "deposit_state \<Rightarrow> bytes" where
  "deposit_Bytes d = or_nil (fst (Bytes (WriteBytes (ds_to d) (WriteU64LE (ds_amount d)
     (WriteBytes (ds_from d) (WriteBytes (ds_txId d) NewBufBinWriter))))))"

record minted_state =
  ms_depositTx :: hash
  ms_mintTx :: hash

definition newMintedStateFromBytes :: "bytes \<Rightarrow> minted_state option" where
  "newMintedStateFromBytes b = (if length b \<noteq> 64 then None
     else Some \<lparr>ms_depositTx = BytesToHash (take 32 b), ms_mintTx = BytesToHash (drop 32 b)\<rparr>)"

definition minted_Bytes :: "minted_state \<Rightarrow> bytes" where
  "minted_Bytes d = ms_depositTx d @ ms_mintTx d"

section \<open>Records in the storage\<close>

definition bridge_get :: "bytes \<Rightarrow> simple \<Rightarrow> bytes option option" where
  "bridge_get k d = GetStorageItem d BridgeAddress k"

definition bridge_put :: "bytes \<Rightarrow> bytes \<Rightarrow> unit native_m" where
  "bridge_put k v = nwrite (PutStorageItem BridgeAddress k v)"

text \<open>A missing or empty record is nil; one that cannot be read makes the node panic.\<close>

definition read_record :: "(bin_reader \<Rightarrow> 'e \<times> bin_reader) \<Rightarrow> bytes \<Rightarrow> simple \<Rightarrow> 'e option option" where
  "read_record dec k d = Option.bind (bridge_get k d) (\<lambda>bs.
     if or_nil bs = [] then Some None
     else case FromByteArray dec (or_nil bs) of (x, None) \<Rightarrow> Some (Some x) | _ \<Rightarrow> None)"

definition getHeaderByIndex :: "u32 \<Rightarrow> simple \<Rightarrow> block_header option option" where
  "getHeaderByIndex index = read_record decode_block_header (createHeaderKey index)"

definition getStateRootByIndex :: "u32 \<Rightarrow> simple \<Rightarrow> mpt_root option option" where
  "getStateRootByIndex index = read_record decode_root (createStateRootKey index)"

definition BytesToAddress :: "bytes \<Rightarrow> address" where
  "BytesToAddress b = (if length b > 20 then drop (length b - 20) b else replicate (20 - length b) 0 @ b)"

definition getStateRootValidatorsAddressByIndex :: "u32 \<Rightarrow> simple \<Rightarrow> address option" where
  "getStateRootValidatorsAddressByIndex index d =
     map_option (\<lambda>bs. if or_nil bs = [] then replicate 20 0 else BytesToAddress (or_nil bs))
       (bridge_get (createStateValidatorsAddressKey index) d)"

definition getMintedState :: "bytes \<Rightarrow> simple \<Rightarrow> minted_state option option" where
  "getMintedState depositId d = Option.bind (bridge_get (createDepositIdKey depositId) d) (\<lambda>raw.
     case raw of None \<Rightarrow> Some None | Some b \<Rightarrow> map_option Some (newMintedStateFromBytes b))"

definition getValidatorsSyncedIndex :: "simple \<Rightarrow> u32 option" where
  "getValidatorsSyncedIndex d = Option.bind (bridge_get [ValidatorsKey] d) (\<lambda>bs.
     if or_nil bs = [] then Some 0
     else if length (or_nil bs) < 4 then None else Some (get_le (take 4 (or_nil bs))))"

definition saveHeader :: "block_header \<Rightarrow> unit native_m" where
  "saveHeader h = (case ToByteArray (encode_block_header h) of
     Inl _ \<Rightarrow> npanic | Inr bs \<Rightarrow> bridge_put (createHeaderKey (h_Index h)) (or_nil bs))"

definition saveStateRoot :: "mpt_root \<Rightarrow> unit native_m" where
  "saveStateRoot s = (case ToByteArray (encode_root s) of
     Inl _ \<Rightarrow> npanic | Inr bs \<Rightarrow> bridge_put (createStateRootKey (r_Index s)) (or_nil bs))"

definition saveStateRootValidatorsAddress :: "u32 \<Rightarrow> address \<Rightarrow> unit native_m" where
  "saveStateRootValidatorsAddress index address = bridge_put (createStateValidatorsAddressKey index) address"

definition saveValidatorsSyncedIndex :: "u32 \<Rightarrow> unit native_m" where
  "saveValidatorsSyncedIndex index = bridge_put [ValidatorsKey] (put_le 4 index)"

definition saveMintedState :: "interop_context \<Rightarrow> bytes \<Rightarrow> hash \<Rightarrow> unit native_m" where
  "saveMintedState ic depositId txid =
     bridge_put (createDepositIdKey depositId) (minted_Bytes \<lparr>ms_depositTx = txid, ms_mintTx = ic_TxHash ic\<rparr>)"

text \<open>The joints: the indices at which the validators changed. Both loops count upwards from the end.\<close>

function le_words :: "bytes \<Rightarrow> u32 list" where
  "le_words data = (if data = [] then [] else get_le (take 4 data) # le_words (drop 4 data))"
  by pat_completeness auto

termination
  by (relation "measure length") auto

definition joints :: "byte \<Rightarrow> simple \<Rightarrow> u32 list option" where
  "joints k d = Option.bind (bridge_get [k] d) (\<lambda>data.
     if length (or_nil data) mod 4 \<noteq> 0 then None else Some (le_words (or_nil data)))"

function joint_loop :: "u32 list \<Rightarrow> u32 \<Rightarrow> nat \<Rightarrow> u32 option" where
  "joint_loop js index i =
     (if i > 0 then
        (if i < length js then (if js ! i \<le> index then Some (js ! i) else joint_loop js index (i + 1)) else None)
      else Some 0)"
  by pat_completeness auto

termination
  by (relation "measure (\<lambda>(js, index, i). length js - i)") auto

definition lastJoint :: "byte \<Rightarrow> u32 \<Rightarrow> simple \<Rightarrow> u32 option" where
  "lastJoint k index d = Option.bind (joints k d) (\<lambda>js.
     if js = [] then Some 0 else joint_loop js index (length js - 1))"

function add_joint_loop :: "u32 list \<Rightarrow> u32 \<Rightarrow> nat \<Rightarrow> u32 list option" where
  "add_joint_loop js index i =
     (if i > 0 then
        (if i < length js then
           (if index > js ! i then Some (take (i + 1) js @ [index] @ drop (i + 1) js)
            else add_joint_loop js index (i + 1))
         else None)
      else Some (replicate (length js + 1) 0))"
  by pat_completeness auto

termination
  by (relation "measure (\<lambda>(js, index, i). length js - i)") auto

definition saveJoints :: "byte \<Rightarrow> u32 list \<Rightarrow> unit native_m" where
  "saveJoints k js = bridge_put [k] (concat (map (put_le 4) js))"

definition addJoint :: "byte \<Rightarrow> u32 \<Rightarrow> unit native_m" where
  "addJoint k index = nbind (nread (joints k)) (\<lambda>js.
     case (if js = [] then Some [index] else add_joint_loop js index (length js - 1)) of
       None \<Rightarrow> npanic | Some js' \<Rightarrow> saveJoints k js')"

section \<open>Contract calls\<close>

definition ErrAlreadySynced :: native_error where "ErrAlreadySynced = ErrText ''already synced''"
definition ErrInvalidStateRoot :: native_error where "ErrInvalidStateRoot = ErrText ''invalid state root''"
definition ErrAlreadyMinted :: native_error where "ErrAlreadyMinted = ErrText ''already minted''"
definition ErrUnreachThreshold :: native_error where "ErrUnreachThreshold = ErrText ''mint amount unreach threshold''"

definition nwitness :: "bool option \<Rightarrow> bool native_m" where
  "nwitness r = (case r of None \<Rightarrow> npanic | Some ok \<Rightarrow> nreturn ok)"

definition syncHeader :: "bridge_lib \<Rightarrow> bridge \<Rightarrow> bytes \<Rightarrow> unit native_m" where
  "syncHeader K b rawHeader = (case FromByteArray decode_block_header rawHeader of
     (_, Some e) \<Rightarrow> nfail (NativeIo e)
   | (header, None) \<Rightarrow>
       nbind (nread (getHeaderByIndex (h_Index header))) (\<lambda>h.
       if h \<noteq> None then nfail ErrAlreadySynced
       else nbind (nread (lastJoint JointHeadersKey (h_Index header))) (\<lambda>joint.
       nbind (nread (getHeaderByIndex joint)) (\<lambda>last_joint.
       let signer = Hash160 (b_C K) (VerificationScript (h_Witness header)) in
       case last_joint of
         None \<Rightarrow>
           if h_Index header \<noteq> 0 then nfail (ErrText ''genesis block unsynced'')
           else nbind (saveHeader header) (\<lambda>_. addJoint JointHeadersKey (h_Index header))
       | Some lj \<Rightarrow>
           nbind (if signer \<noteq> h_NextConsensus lj then nreturn False
                  else nwitness (verifyMainWitness K b (header_Hash (b_C K) header) (h_Witness header))) (\<lambda>ok.
           if \<not> ok then nfail (ErrText ''invalid signature'')
           else nbind (saveHeader header) (\<lambda>_.
             if h_Index header = 0 \<or> h_NextConsensus header \<noteq> h_NextConsensus lj
             then addJoint JointHeadersKey (h_Index header) else nreturn ()))))))"

definition syncStateRoot :: "bridge_lib \<Rightarrow> bridge \<Rightarrow> bytes \<Rightarrow> unit native_m" where
  "syncStateRoot K b rawStateroot = (case FromByteArray decode_root rawStateroot of
     (_, Some e) \<Rightarrow> nfail (NativeIo e)
   | (stateroot, None) \<Rightarrow>
       nbind (nread (getStateRootByIndex (r_Index stateroot))) (\<lambda>s.
       if s \<noteq> None then nfail ErrAlreadySynced
       else nbind (nread (lastJoint JointStateRootsKey (r_Index stateroot))) (\<lambda>joint.
       nbind (nread (getStateRootValidatorsAddressByIndex joint)) (\<lambda>validatorsAddress.
       let signer = Hash160 (b_C K) (VerificationScript (r_Witness stateroot)) in
       if signer \<noteq> (if validatorsAddress = replicate 20 0 then mainStandbyStateValidatorsScriptHash b else validatorsAddress)
       then nfail ErrInvalidStateRoot
       else nbind (nwitness (verifyMainWitness K b (root_Hash (b_C K) stateroot) (r_Witness stateroot))) (\<lambda>ok.
         if \<not> ok then nfail ErrInvalidStateRoot else saveStateRoot stateroot)))))"

definition verifyState :: "bridge_lib \<Rightarrow> u32 \<Rightarrow> hash \<Rightarrow> bytes \<Rightarrow> u32 \<Rightarrow> bytes \<Rightarrow> (bytes \<times> bytes) native_m" where
  "verifyState K headerIndex txid txProof stateIndex stateProof =
     nbind (nread (getHeaderByIndex headerIndex)) (\<lambda>header. case header of
       None \<Rightarrow> nfail (ErrText ''header not found'')
     | Some header \<Rightarrow>
         if stateIndex < headerIndex then nfail ErrInvalidStateRoot
         else nbind (nread (getStateRootByIndex stateIndex)) (\<lambda>stateroot. case stateroot of
           None \<Rightarrow> nfail (ErrText ''state root not found'')
         | Some stateroot \<Rightarrow>
             if \<not> verifyMerkleProof K (h_MerkleRoot header) txid txProof then nfail (ErrText ''tx inexistent'')
             else verifyMPTProof K (r_Root stateroot) stateProof))"

definition syncStateRootValidatorsAddress ::
    "bridge_lib \<Rightarrow> u32 \<Rightarrow> int \<Rightarrow> bytes \<Rightarrow> u32 \<Rightarrow> bytes \<Rightarrow> unit native_m" where
  "syncStateRootValidatorsAddress K headerIndex txid txProof stateIndex stateProof =
     nbind (nread (getStateRootValidatorsAddressByIndex headerIndex)) (\<lambda>address.
     if address \<noteq> replicate 20 0 then nfail ErrAlreadySynced
     else nbind (verifyState K headerIndex (BytesToHash (big_Bytes txid)) txProof stateIndex stateProof) (\<lambda>(ky, val).
       if isDesignateStateValidators ky \<noteq> Some (headerIndex + 1) then nfail ErrInvalidMPTProof
       else nbind (nresult (parseMainInteropListECPoints K val)) (\<lambda>pks.
         let address = Hash160 (b_C K) (createMainDefaultMultiSigRedeemScript pks) in
         nbind (nread (lastJoint JointStateRootsKey headerIndex)) (\<lambda>joint.
         nbind (nread (getStateRootValidatorsAddressByIndex joint)) (\<lambda>jointAddress.
           if jointAddress = address then nfail (ErrText ''not joint state root address'')
           else nbind (saveStateRootValidatorsAddress (headerIndex + 1) address) (\<lambda>_.
             addJoint JointStateRootsKey (headerIndex + 1)))))))"

text \<open>The errors of the two designations are dropped.\<close>

definition nignore :: "unit native_m \<Rightarrow> unit native_m" where
  "nignore f m = map_option (\<lambda>(r, m'). (Inr (), m')) (f m)"

definition syncValidators ::
    "bridge_lib \<Rightarrow> bridge \<Rightarrow> interop_context \<Rightarrow> u32 \<Rightarrow> int \<Rightarrow> bytes \<Rightarrow> u32 \<Rightarrow> bytes \<Rightarrow> unit native_m" where
  "syncValidators K b ic headerIndex txid txProof stateIndex stateProof =
     nbind (nread getValidatorsSyncedIndex) (\<lambda>syncedIndex.
     if syncedIndex > 0 \<and> syncedIndex \<ge> headerIndex then nfail (ErrText ''synced validators outdated'')
     else let txHash = BytesToHash (big_Bytes txid) in
       nbind (verifyState K headerIndex txHash txProof stateIndex stateProof) (\<lambda>(ky, val).
       if \<not> isDesignateValidators b ky then nfail (ErrText ''not designate validators proof'')
       else case decode_main_validators K val of
         None \<Rightarrow> npanic
       | Some r \<Rightarrow> nbind (nresult r) (\<lambda>(mtxid, pks).
           if mtxid \<noteq> txHash then nfail (ErrText ''invalid main validators state'')
           else (case key_sort pks of
             None \<Rightarrow> npanic
           | Some pks \<Rightarrow>
               nbind (saveValidatorsSyncedIndex headerIndex) (\<lambda>_.
               nbind (nignore (designateAsRole ic Validator pks)) (\<lambda>_.
               nignore (designateAsRole ic StateValidator pks)))))))"

definition mintBonous :: "interop_context \<Rightarrow> int \<Rightarrow> unit native_m" where
  "mintBonous ic bonous = ntokens (gas_Mint (ic_Sender ic) (bonous * tenGWei))"

text \<open>The end of \<open>requestMint\<close>, once the deposit is known not to be minted yet.\<close>

definition mint_deposit :: "interop_context \<Rightarrow> hash \<Rightarrow> bytes \<Rightarrow> deposit_state \<Rightarrow> unit native_m" where
  "mint_deposit ic txHash depositId ds =
     (if ds_txId ds \<noteq> txHash then nfail (ErrText ''txid and deposited state unmatch'')
      else let amount = sint (ds_amount ds) in
        if amount < MintThreashold then nfail ErrUnreachThreshold
        else let mintAmount = amount - BaseBonous in
          nbind (ntokens (gas_Mint (ds_to ds) (mintAmount * tenGWei))) (\<lambda>_.
          nbind (saveMintedState ic depositId txHash) (\<lambda>_.
          nbind (mintBonous ic BaseBonous) (\<lambda>_.
          native_log ic BridgeAddress (big_Bytes mintAmount) [txHash, BytesToHash (ds_to ds)]))))"

definition requestMint ::
    "bridge_lib \<Rightarrow> bridge \<Rightarrow> interop_context \<Rightarrow> u32 \<Rightarrow> int \<Rightarrow> bytes \<Rightarrow> u32 \<Rightarrow> bytes \<Rightarrow> unit native_m" where
  "requestMint K b ic headerIndex txid txProof stateIndex stateProof =
     (let txHash = BytesToHash (big_Bytes txid) in
      nbind (verifyState K headerIndex txHash txProof stateIndex stateProof) (\<lambda>(ky, val).
      nbind (nwitness (isMintRequest b ky)) (\<lambda>ok.
      if \<not> ok then nfail ErrInvalidMPTProof
      else let depositId = drop 5 ky in
        nbind (nread (getMintedState depositId)) (\<lambda>minted.
        if minted \<noteq> None then nfail ErrAlreadyMinted
        else nbind (nresult (newDepositStateFromBytes val)) (mint_deposit ic txHash depositId)))))"

definition GetMinted :: "bridge_lib \<Rightarrow> int \<Rightarrow> simple \<Rightarrow> hash option" where
  "GetMinted K depositId d =
     map_option (\<lambda>st. case st of None \<Rightarrow> replicate 32 0 | Some st \<Rightarrow> ms_mintTx st)
       (getMintedState (b_bigint_ToBytes K depositId) d)"

text \<open>An identifier shorter than eight bytes makes the reading panic.\<close>

definition newLockId :: "bytes native_m" where
  "newLockId = nbind (nread (bridge_get [LockIdKey])) (\<lambda>oldId.
     if or_nil oldId \<noteq> [] \<and> length (or_nil oldId) < 8 then npanic
     else let n = (if or_nil oldId = [] then 0 else get_le (take 8 (or_nil oldId)) + 1) :: u64 in
       nbind (bridge_put [LockIdKey] (put_le 8 n)) (\<lambda>_. nreturn (put_le 8 n)))"

definition bridge_lock :: "abi_lib \<Rightarrow> abi \<Rightarrow> interop_context \<Rightarrow> address \<Rightarrow> unit native_m" where
  "bridge_lock L a ic to =
     (let val = ic_TxValue ic div tenGWei in
      if val < MintThreashold then nfail ErrUnreachThreshold
      else nbind newLockId (\<lambda>lockId.
        nbind (bridge_put (createLockKey lockId) (deposit_Bytes
          \<lparr>ds_txId = ic_TxHash ic, ds_from = ic_TxFrom ic, ds_amount = big_Uint64 val, ds_to = to\<rparr>)) (\<lambda>_.
        nbind (nignore (ntokens (gas_Burn (ic_TxFrom ic) val))) (\<lambda>_.
        native_log ic (ic_TxFrom ic) (big_Bytes val) [event_id L a ''lock'', BytesToHash to]))))"

section \<open>The five contracts of a context\<close>

definition go_call :: "string \<Rightarrow> go_type list \<Rightarrow> go_type list \<Rightarrow> go_method" where
  "go_call name ins outs = \<lparr>m_Name = name, m_In = [GoReceiver, GoInteropContext] @ ins, m_Out = outs\<rparr>"

definition proof_types :: "go_type list" where
  "proof_types = [GoUint32, GoBigInt, GoBytes, GoUint32, GoBytes]"

text \<open>The exported methods that are contract calls, in the order in which reflection lists them.\<close>

definition initialize_methods :: "go_method list" where
  "initialize_methods = [go_call ''ContractCall_initialize'' [] [GoError]]"

definition policy_methods :: "go_method list" where
  "policy_methods = [go_call ''ContractCall_blockAccount'' [GoAddress] [GoError],
     go_call ''ContractCall_initialize'' [] [GoError], go_call ''ContractCall_setFeePerByte'' [GoUint64] [GoError],
     go_call ''ContractCall_setGasPrice'' [GoUint64] [GoError], go_call ''ContractCall_unblockAccount'' [GoAddress] [GoError]]"

definition bridge_methods :: "go_method list" where
  "bridge_methods = [go_call ''ContractCall_Payable_lock'' [GoAddress] [GoError],
     go_call ''ContractCall__View_getMinted'' [GoInt64] [GoBytes, GoError],
     go_call ''ContractCall_requestMint'' proof_types [GoError], go_call ''ContractCall_syncHeader'' [GoBytes] [GoError],
     go_call ''ContractCall_syncStateRoot'' [GoBytes] [GoError],
     go_call ''ContractCall_syncStateRootValidatorsAddress'' proof_types [GoError],
     go_call ''ContractCall_syncValidators'' proof_types [GoError]]"

definition abi_of :: "go_method list \<Rightarrow> abi" where
  "abi_of gs = (case constructAbi gs of Inl _ \<Rightarrow> \<lparr>Methods = [], Events = []\<rparr> | Inr a \<Rightarrow> a)"

definition no_value :: "unit native_m \<Rightarrow> bytes option native_m" where
  "no_value f = nbind f (\<lambda>_. nreturn None)"

record contracts =
  cs_K :: bridge_lib
  cs_L :: abi_lib
  cs_Designate :: designate
  cs_Bridge :: bridge
  cs_initialSupply :: u64
  cs_Contracts :: "state_contract list"

definition policy_calls :: "contracts \<Rightarrow> interop_context \<Rightarrow> contract_calls" where
  "policy_calls cs ic name args =
     (let C = b_C (cs_K cs); L = cs_L cs; a = abi_of policy_methods; d = cs_Designate cs in
      no_value (case args of
        [] \<Rightarrow> if name = ''initialize'' then policy_initialize L a ic else npanic
      | [VUint64 v] \<Rightarrow>
          if name = ''setFeePerByte'' then setFeePerByte C L a d ic v
          else if name = ''setGasPrice'' then setGasPrice C L a d ic v else npanic
      | [VAddress x] \<Rightarrow>
          if name = ''blockAccount'' then blockAccount C L a d ic x
          else if name = ''unblockAccount'' then unblockAccount C L a d ic x else npanic
      | _ \<Rightarrow> npanic))"

definition bridge_calls :: "contracts \<Rightarrow> interop_context \<Rightarrow> contract_calls" where
  "bridge_calls cs ic name args =
     (let K = cs_K cs; L = cs_L cs; a = abi_of bridge_methods; b = cs_Bridge cs in
      case args of
        [VAddress x] \<Rightarrow> if name = ''lock'' then no_value (bridge_lock L a ic x) else npanic
      | [VInt64 i] \<Rightarrow>
          if name = ''getMinted'' then nbind (nread (GetMinted K (sint i))) (\<lambda>h. nreturn (Some h)) else npanic
      | [VBytes raw] \<Rightarrow>
          if name = ''syncHeader'' then no_value (syncHeader K b raw)
          else if name = ''syncStateRoot'' then no_value (syncStateRoot K b raw) else npanic
      | [VUint32 hi, VUint256 txid, VBytes txProof, VUint32 si, VBytes stateProof] \<Rightarrow>
          if name = ''requestMint'' then no_value (requestMint K b ic hi txid txProof si stateProof)
          else if name = ''syncStateRootValidatorsAddress''
          then no_value (syncStateRootValidatorsAddress K hi txid txProof si stateProof)
          else if name = ''syncValidators'' then no_value (syncValidators K b ic hi txid txProof si stateProof)
          else npanic
      | _ \<Rightarrow> npanic)"

definition initialize_calls :: "unit native_m \<Rightarrow> contract_calls" where
  "initialize_calls f name args = (if name = ''initialize'' \<and> args = [] then no_value f else npanic)"

definition policy_price :: "string \<Rightarrow> u64" where
  "policy_price name = (if name \<in> {''setFeePerByte'', ''setGasPrice''} then defaultNativeWriteFee else 0)"

definition bridge_price :: "string \<Rightarrow> u64" where
  "bridge_price name = (if name = ''getMinted'' then defaultNativeReadFee
     else if name \<in> {''syncHeader'', ''syncStateRoot'', ''syncStateRootValidatorsAddress'', ''syncValidators'', ''requestMint''}
     then defaultNativeWriteFee else 0)"

definition as_body :: "(interop_context \<Rightarrow> bytes \<Rightarrow> bytes native_m) \<Rightarrow> interop_context \<Rightarrow> native_body" where
  "as_body f ic caller inp m = map_option (\<lambda>(r, m'). (map_sum (\<lambda>_. ErrContract ''native'') id r, m'))
     (f (ic\<lparr>ic_Sender := caller\<rparr>) inp m)"

definition native_contracts :: "contracts \<Rightarrow> interop_context \<Rightarrow> native_table" where
  "native_contracts cs ic addr =
     (let L = cs_L cs; C = b_C (cs_K cs); d = cs_Designate cs; ia = abi_of initialize_methods;
          simple_contract = (\<lambda>init. (required_gas L ia (\<lambda>_. 0), as_body (\<lambda>ic. contractCall L ia (initialize_calls (init ic))) ic)) in
      if addr = DesignationAddress then Some (simple_contract (designate_initialize L ia d))
      else if addr = PolicyAddress then
        Some (required_gas L (abi_of policy_methods) policy_price,
          as_body (\<lambda>ic. contractCall L (abi_of policy_methods) (policy_calls cs ic)) ic)
      else if addr = GASAddress then Some (simple_contract (gas_initialize C L ia d (cs_initialSupply cs)))
      else if addr = ManagementAddress then Some (simple_contract (management_initialize (cs_Contracts cs)))
      else if addr = BridgeAddress then
        Some (required_gas L (abi_of bridge_methods) bridge_price,
          as_body (\<lambda>ic. contractCall L (abi_of bridge_methods) (bridge_calls cs ic)) ic)
      else None)"

declare collect_keys.simps [simp del] getMainMultiSignatures.simps [simp del] le_words.simps [simp del]
  joint_loop.simps [simp del] add_joint_loop.simps [simp del]

end
