(* ===== verification/StateDbProps.thy ===== *)
theory StateDbProps
  imports Interop
begin

text \<open>
  Properties of the state database under the virtual machine. Each is a predicate that every
  operation keeps, so that \<open>db_closed\<close> carries it through whole runs.
\<close>

section \<open>Failed calls\<close>

text \<open>The writes of the database change its top layer; the lower ones are as they were.\<close>

lemma on_store_top:
  assumes "on_store f s = Some s'" and "sdb_ok s"
  obtains m where "f (last (layers s)) = Some m" and "s' = set_current m s"
  using assms by (auto simp: on_store_def CurrentStore_last)

lemma on_simple_top:
  assumes "on_simple f s = Some s'" and "sdb_ok s"
  obtains d where "f (Simple (last (layers s))) = Some d" and "s' = set_current ((last (layers s))\<lparr>Simple := d\<rparr>) s"
  using assms by (auto simp: on_simple_def elim!: on_store_top)

lemma native_top:
  assumes "map_option (\<lambda>(required, body). nativeWrapper required body) (nt a) = Some n"
    and "n_Run n caller inp s = Some (r, s')" and "sdb_ok s"
  obtains required body m where "nt a = Some (required, body)"
    and "body caller inp (last (layers s)) = Some (r, m)" and "s' = set_current m s"
  using assms by (auto simp: nativeWrapper_def CurrentStore_last split: bind_splits)

lemmas sdb_writes = sdb_AddBalance_def sdb_SetNonce_def sdb_SetCode_def sdb_AddRefund_def sdb_SubRefund_def
  sdb_SetState_def sdb_Suicide_def sdb_AddAddressToAccessList_def sdb_AddSlotToAccessList_def sdb_AddLog_def
  sdb_AddPreimage_def

definition atop :: "statedb \<Rightarrow> statedb \<Rightarrow> bool" where
  "atop s0 s \<longleftrightarrow> sdb_ok s \<and> sdb_Err s = sdb_Err s0 \<and> ps s = ps s0 \<and>
     length (memStores s0) < length (memStores s) \<and> take (length (memStores s0)) (memStores s) = memStores s0"

lemma atop_set: "atop s0 s \<Longrightarrow> atop s0 (set_current m s)"
  by (auto simp: atop_def sdb_ok_def set_current_def take_update_cancel)

lemma atop_store: "atop s0 s \<Longrightarrow> on_store f s = Some s' \<Longrightarrow> atop s0 s'"
  by (auto simp: on_store_def atop_set split: bind_splits)

lemma atop_simple: "atop s0 s \<Longrightarrow> on_simple f s = Some s' \<Longrightarrow> atop s0 s'"
  by (simp add: on_simple_def atop_store)

lemma atop_snapshot:
  assumes "sdb_ok s" and "Snapshot s = Some (i, s')"
  shows "i = int (length (memStores s))" and "atop s s'"
  using assms by (auto simp: Snapshot_def atop_def sdb_ok_def)

lemma atop_trans: "atop s0 s \<Longrightarrow> atop s s' \<Longrightarrow> atop s0 s'"
  by (auto simp: atop_def min_def) (metis take_take min.absorb1 less_imp_le)

lemma atop_revert:
  assumes "atop s0 t" and "int (length (memStores s0)) < i" and "RevertToSnapshot i t = Some t'"
  shows "atop s0 t'"
  using assms by (auto simp: RevertToSnapshot_def atop_def sdb_ok_def min_def split: if_splits)

text \<open>A revert to the identifier that \<open>Snapshot\<close> gave at \<open>s0\<close> gives \<open>s0\<close> back.\<close>

lemma revert_exact:
  assumes "atop s0 t" and "sdb_ok s0" and "RevertToSnapshot (int (length (memStores s0))) t = Some t'"
  shows "t' = s0"
  using assms by (auto simp: RevertToSnapshot_def atop_def sdb_ok_def split: if_splits)

interpretation kept: db_closed "NewEVM lib cfg nt bctx origin price" "atop s0" True "\<lambda>_. True"
  for lib cfg nt bctx origin price s0
proof (unfold_locales, unfold NewEVM_simps sdb_simps)
  fix s s' i
  assume s: "atop s0 s" and snap: "Snapshot s = Some (i, s')"
  have i: "i = int (length (memStores s))" and s': "atop s s'"
    using atop_snapshot [OF _ snap] s by (simp_all add: atop_def)
  then show "atop s0 s' \<and> (\<forall>t t'. atop s0 t \<longrightarrow> RevertToSnapshot i t = Some t' \<longrightarrow> atop s0 t')"
    using atop_trans [OF s s'] atop_revert [of s0 _ i] s by (auto simp: atop_def [of s0 s])
next
  fix s s' a n caller inp r
  assume "atop s0 s" and "map_option (\<lambda>(required, body). nativeWrapper required body) (nt a) = Some n"
    and "n_Run n caller inp s = Some (r, s')"
  moreover from this have "sdb_ok s" by (simp add: atop_def)
  ultimately show "atop s0 s'" by (metis native_top atop_set)
qed (auto simp: sdb_writes sdb_CreateAccount_def intro: atop_store atop_simple)

lemma merged: "IsMerge (chainRules (NewEVM lib cfg nt bctx origin price))"
  by simp

text \<open>Which results of a call keep the promise of a full revert.\<close>

fun restores :: "statedb \<Rightarrow> statedb run_result \<Rightarrow> bool" where
  "restores s0 (Ran (Some err) ret g e) \<longleftrightarrow> statedb e = s0"
| "restores s0 _ \<longleftrightarrow> True"

lemma restores_rask: "(\<And>x. r = Some x \<Longrightarrow> restores s0 (k x)) \<Longrightarrow> restores s0 (rask r k)"
  by (cases r) (simp_all add: rask_def)

lemma restores_if: "(b \<Longrightarrow> restores s0 x) \<Longrightarrow> (\<not> b \<Longrightarrow> restores s0 y) \<Longrightarrow> restores s0 (if b then x else y)"
  by simp

lemma restores_settle:
  assumes "sdb_ok s0" and "db_closed.rsafe (atop s0) ro d r"
  shows "restores s0 (settle (NewEVM lib cfg nt bctx origin price) (int (length (memStores s0))) r)"
proof (cases r)
  case (Ran err ret g e)
  then have "atop s0 (statedb e)" using assms(2) by (simp add: kept.J_def)
  then show ?thesis
    using Ran revert_exact [OF _ assms(1)]
    by (cases err) (auto simp: settle_def intro!: restores_rask)
qed (simp_all add: settle_def)

lemma restores_snapshot:
  assumes "sdb_ok s0"
    and "\<And>s. atop s0 s \<Longrightarrow> restores s0 (k (int (length (memStores s0))) s)"
  shows "restores s0 (rask (Snapshot s0) (\<lambda>(i, s). k i s))"
  using assms atop_snapshot [OF assms(1)] by (auto intro!: restores_rask)

lemma run_atop: "db_closed.J (atop s0) ro d e \<Longrightarrow> db_closed.rsafe (atop s0) ro d
    (Run (NewEVM lib cfg nt bctx origin price) (base_table (NewEVM lib cfg nt bctx origin price)) n c inp ro' e)"
  by (rule kept.Run_safe) simp_all

lemma J_atop: "atop s0 s \<Longrightarrow> db_closed.J (atop s0) (readOnly e) (depth e) (e\<lparr>statedb := s\<rparr>)"
  by (simp add: kept.J_def)

lemma transfer_atop:
  "atop s0 s \<Longrightarrow> Transfer (NewEVM lib cfg nt bctx origin price) a b v s = Some s' \<Longrightarrow> atop s0 s'"
  by (rule kept.transfer_keeps [OF disjI1]) simp_all

lemma create_atop: "atop s0 s \<Longrightarrow> (if b then Some s else sdb_CreateAccount a s) = Some s' \<Longrightarrow> atop s0 s'"
  by (simp add: sdb_CreateAccount_def split: if_splits)

lemmas restoring = restores_rask restores_if restores_snapshot restores_settle kept.keep_dispatch kept.keep_rask kept.keep_if
  kept.keep_with_code run_atop

lemma restores_Call:
  assumes "sdb_ok (statedb e)"
  shows "restores (statedb e) (Call (NewEVM lib cfg nt bctx origin price) 
     (Run (NewEVM lib cfg nt bctx origin price) (base_table (NewEVM lib cfg nt bctx origin price)) n) caller addr inp g amount e)"
  unfolding Call_def NewEVM_simps sdb_simps
  by (intro restoring J_atop assms) (auto intro: transfer_atop [OF create_atop] J_atop)

lemma restores_CallCode:
  assumes "sdb_ok (statedb e)"
  shows "restores (statedb e) (CallCode (NewEVM lib cfg nt bctx origin price) 
     (Run (NewEVM lib cfg nt bctx origin price) (base_table (NewEVM lib cfg nt bctx origin price)) n) caller addr inp g amount e)"
  unfolding CallCode_def NewEVM_simps sdb_simps
  by (intro restoring J_atop assms) (auto intro: J_atop)

lemma restores_DelegateCall:
  assumes "sdb_ok (statedb e)"
  shows "restores (statedb e) (DelegateCall (NewEVM lib cfg nt bctx origin price)
     (Run (NewEVM lib cfg nt bctx origin price) (base_table (NewEVM lib cfg nt bctx origin price)) n) parent addr inp g e)"
  unfolding DelegateCall_def NewEVM_simps sdb_simps
  by (intro restoring J_atop assms) (auto intro: J_atop)

lemma restores_StaticCall:
  assumes "sdb_ok (statedb e)"
  shows "restores (statedb e) (StaticCall (NewEVM lib cfg nt bctx origin price)
     (Run (NewEVM lib cfg nt bctx origin price) (base_table (NewEVM lib cfg nt bctx origin price)) n) caller addr inp g e)"
  unfolding StaticCall_def NewEVM_simps sdb_simps
  by (intro restoring J_atop assms) (auto simp: sdb_AddBalance_def intro: J_atop atop_simple)

text \<open>
  C10. A call that returns an error leaves the state database exactly as it found it: every layer is
  as before, and with them balances, nonces, codes, storage, logs, refund and access list. This
  holds for the four kinds of calls, whatever code the callee and the contracts it calls run and
  whatever the native contracts do, when the database has its last snapshot on top.
\<close>

theorem failed_call_restores:
  assumes "E = NewEVM lib cfg nt bctx origin price" and "sdb_ok (statedb e)"
    and "Ran (Some err) ret g' e' \<in>
      {Call E (Run E (base_table E) n) caller addr inp g amount e,
       CallCode E (Run E (base_table E) n) caller addr inp g amount e,
       DelegateCall E (Run E (base_table E) n) parent addr inp g e,
       StaticCall E (Run E (base_table E) n) caller addr inp g e}"
  shows "statedb e' = statedb e"
proof -
  have "restores (statedb e) (Ran (Some err) ret g' e')"
    using assms(3) unfolding assms(1)
    by (elim insertE emptyE)
      (erule ssubst, rule restores_Call restores_CallCode restores_DelegateCall restores_StaticCall, rule assms(2))+
  then show ?thesis by simp
qed

text \<open>A machine with one native contract, which changes the refund and then fails.\<close>

definition demo_vm_lib :: vm_lib where
  "demo_vm_lib = \<lparr>l_prices = geth_prices, l_num = demo_lib, l_Keccak = \<lambda>_. [], l_CreateAddress = \<lambda>_ _. [],
     l_CreateAddress2 = \<lambda>_ _ _. [], l_precompiles = \<lambda>_ _. None\<rparr>"

definition demo_bctx :: block_context where
  "demo_bctx = \<lparr>bctx_Coinbase = [], bctx_GasLimit = 0, bctx_BlockNumber = 1, bctx_Time = 0, bctx_Difficulty = 0,
     bctx_BaseFee = 0, bctx_Random = [], bctx_GetHash = None\<rparr>"

definition demo_sdb_env :: "native_table \<Rightarrow> statedb env" where
  "demo_sdb_env nt = NewEVM demo_vm_lib \<lparr>cfg_ChainID = 1, cfg_MaxBlockGas = 0\<rparr> nt demo_bctx [] 0"

definition demo_sdb_evm :: "statedb evm" where
  "demo_sdb_evm = \<lparr>statedb = NewStateDB (NewSimple (MemoryStore NewMemoryStore)), depth = 0, readOnly = False,
     returnData = [], callGasTemp = 0\<rparr>"

definition failing_native :: native_table where
  "failing_native a = Some (\<lambda>_. 0, \<lambda>_ _ m. Some (Inl ErrExecutionReverted, m\<lparr>fund := 5\<rparr>))"

theorem failed_call_restores_witness:
  "\<exists>g e'. StaticCall (demo_sdb_env failing_native) (Run (demo_sdb_env failing_native) (base_table (demo_sdb_env failing_native)) 9)
     [] [] [] 8 demo_sdb_evm = Ran (Some ErrExecutionReverted) [] g e' \<and> statedb e' = statedb demo_sdb_evm"
proof -
  let ?E = "demo_sdb_env failing_native"
  have "sdb_ok (statedb demo_sdb_evm)" by (simp add: sdb_ok_def demo_sdb_evm_def NewStateDB_def)
  moreover have "\<exists>g e'. StaticCall ?E (Run ?E (base_table ?E) 9) [] [] [] 8 demo_sdb_evm = Ran (Some ErrExecutionReverted) [] g e'"
    by (simp add: StaticCall_def demo_sdb_env_def NewEVM_def demo_sdb_evm_def sdb_def NewStateDB_def Snapshot_def
        CurrentStore_def rask_def sdb_AddBalance_def on_simple_def on_store_def gas_AddBalance_def addTokens_def
        set_current_def dispatch_def precompile_def demo_vm_lib_def failing_native_def RunNativeContract_def
        nativeWrapper_def settle_def RevertToSnapshot_def)
  ultimately show ?thesis
    using failed_call_restores [OF demo_sdb_env_def, of demo_sdb_evm ErrExecutionReverted "[]"] by (metis insertCI)
qed

end
