(* ===== verification/NativeProps.thy ===== *)
theory NativeProps
  imports Bridge StateDbProps
begin

text \<open>
  What the native contracts can change. The laws of \<open>native_frame\<close> are those of a preorder on layers
  that contains the single writes of the contracts; every call of a contract then stays in it. The
  interpretations say that only items of the contracts' own addresses change, and that the recorded
  supply of GAS stays the sum of the balances.
\<close>

definition native_keys :: "address set" where
  "native_keys = {PolicyAddress, DesignationAddress, ManagementAddress, BridgeAddress}"

lemma amount_okI: "\<bar>v\<bar> < 256 ^ 40 \<Longrightarrow> NativeAccounts.amount_ok v"
  unfolding NativeAccounts.amount_ok_def
  by (erule less_le_trans) (rule power_increasing, simp_all add: MaxArraySize_def)

lemma sint64_bound: "\<bar>sint (x :: u64)\<bar> \<le> 2 ^ 63"
  using sint_range_size [of x] by (auto simp: word_size abs_le_iff)

definition deposit_key :: "bytes \<Rightarrow> bool" where
  "deposit_key k \<longleftrightarrow> k \<noteq> [] \<and> hd k = PrefixDepositId"

lemmas bridge_keys = createHeaderKey_def createStateValidatorsAddressKey_def createStateRootKey_def createLockKey_def
  makeIndexKey_def PrefixHeader_def PrefixStateRoot_def ValidatorsKey_def PrefixMainStateValidatorsAddress_def
  PrefixDepositId_def LockIdKey_def PrefixLock_def JointHeadersKey_def JointStateRootsKey_def

locale native_preorder =
  fixes R :: "mem_store \<Rightarrow> mem_store \<Rightarrow> bool"
  assumes refl: "R m m"
    and trans: "R m m' \<Longrightarrow> R m' m'' \<Longrightarrow> R m m''"
begin

definition keeps :: "'a native_m \<Rightarrow> bool" where
  "keeps f \<longleftrightarrow> (\<forall>m r m'. f m = Some (r, m') \<longrightarrow> R m m')"

lemma keepsI: "(\<And>m r m'. f m = Some (r, m') \<Longrightarrow> R m m') \<Longrightarrow> keeps f"
  by (simp add: keeps_def)

lemma keepsD: "keeps f \<Longrightarrow> f m = Some (r, m') \<Longrightarrow> R m m'"
  by (simp add: keeps_def)

lemma keeps_pure: "keeps (nreturn x)" "keeps (nfail e)" "keeps npanic" "keeps (nresult r)" "keeps (nread f)"
  "keeps (nscript s)" "keeps (nwitness w)"
  by (auto simp: keeps_def nreturn_def nfail_def npanic_def nresult_def nread_def nscript_def nwitness_def refl
      split: sum.splits script_error.splits option.splits)

lemma keeps_bind:
  assumes "keeps f" and "\<And>x. keeps (k x)"
  shows "keeps (nbind f k)"
proof (rule keepsI)
  fix m r m'
  assume eq: "nbind f k m = Some (r, m')"
  then obtain r1 m1 where f: "f m = Some (r1, m1)" by (auto simp: nbind_def split: option.splits)
  then have "R m m1" by (rule keepsD [OF assms(1)])
  then show "R m m'" using eq f keepsD [OF assms(2)] trans [of m m1 m']
    by (cases r1) (auto simp: nbind_def)
qed

lemma keeps_if: "(b \<Longrightarrow> keeps f) \<Longrightarrow> (\<not> b \<Longrightarrow> keeps g) \<Longrightarrow> keeps (if b then f else g)"
  by simp

lemma keeps_option: "(r = None \<Longrightarrow> keeps f) \<Longrightarrow> (\<And>x. r = Some x \<Longrightarrow> keeps (g x)) \<Longrightarrow> keeps (case r of None \<Rightarrow> f | Some x \<Rightarrow> g x)"
  by (cases r) simp_all

lemma keeps_sum: "(\<And>e. keeps (f e)) \<Longrightarrow> (\<And>x. keeps (g x)) \<Longrightarrow> keeps (case r of Inl e \<Rightarrow> f e | Inr x \<Rightarrow> g x)"
  by (cases r) simp_all

lemma keeps_prod: "(\<And>x y. keeps (f x y)) \<Longrightarrow> keeps (case p of (x, y) \<Rightarrow> f x y)"
  by (cases p) simp

lemma keeps_ignore: "keeps f \<Longrightarrow> keeps (nignore f)"
  by (auto simp: keeps_def nignore_def)

lemmas keeps_structure = keeps_pure keeps_bind keeps_if keeps_option keeps_sum keeps_prod keeps_ignore

lemma keeps_verify: "keeps (verifyMPTProof K rt p)" "keeps (verifyState K hi t tp si sp)"
  unfolding verifyState_def verifyMPTProof_def by (intro keeps_structure)+

lemma keeps_self: "(\<And>x. keeps (g x)) \<Longrightarrow> (\<And>m. f m = g m m) \<Longrightarrow> keeps f"
  by (simp add: keeps_def)

lemma keeps_checks: "keeps (GetConsensusAddress C d i)" "keeps (GetSysAddresses C d i)"
  by (rule keeps_self [OF _ GetConsensusAddress_def] keeps_self [OF _ GetSysAddresses_def], intro keeps_structure)+

lemma keeps_guards: "keeps (checkConsensus C d ic)" "keeps (checkSystem C d ic x)"
  unfolding checkConsensus_def checkSystem_def by (intro keeps_structure keeps_checks)+

end

interpretation same: native_preorder "\<lambda>m m'. m' = m"
  by unfold_locales simp_all

locale native_frame = native_preorder R for R :: "mem_store \<Rightarrow> mem_store \<Rightarrow> bool" +
  fixes A :: "int \<Rightarrow> bool" and W :: "address \<Rightarrow> bytes \<Rightarrow> bytes \<Rightarrow> bool"
  assumes small: "\<bar>n\<bar> < 256 ^ 40 \<Longrightarrow> A n"
    and logged: "R m (m\<lparr>logs := l\<rparr>)"
    and plain: "a \<in> native_keys \<Longrightarrow> a = BridgeAddress \<Longrightarrow> \<not> deposit_key k \<Longrightarrow> W a k v"
    and other: "a \<in> native_keys \<Longrightarrow> a \<noteq> BridgeAddress \<Longrightarrow> W a k v"
    and put: "W a k v \<Longrightarrow> PutStorageItem a k v (Simple m) = Some d \<Longrightarrow> R m (m\<lparr>Simple := d\<rparr>)"
    and deleted: "a = PolicyAddress \<Longrightarrow> DeleteStorageItem a k (Simple m) = Some d \<Longrightarrow> R m (m\<lparr>Simple := d\<rparr>)"
    and tokens: "A n \<Longrightarrow> addTokens h n (Simple m) = Some (e, d) \<Longrightarrow> R m (m\<lparr>Simple := d\<rparr>)"
begin

lemma keeps_put: "W a k v \<Longrightarrow> keeps (nwrite (PutStorageItem a k v))"
  by (auto simp: keeps_def nwrite_def put)

lemma keeps_delete: "keeps (nwrite (DeleteStorageItem PolicyAddress k))"
  by (auto simp: keeps_def nwrite_def deleted)

lemma keeps_tokens: "A v \<Longrightarrow> keeps (ntokens (addTokens h v))"
  by (auto simp: keeps_def ntokens_def tokens)

lemma keeps_log: "keeps (native_log ic c data topics)"
  by (auto simp: keeps_def native_log_def logged split: option.splits)

lemmas keeps_rules = keeps_structure keeps_put keeps_delete keeps_log

lemma keys: "W PolicyAddress k v" "W DesignationAddress k v" "W ManagementAddress k v"
  by (rule other; simp add: native_keys_def native_address_def PolicyAddress_def DesignationAddress_def
      ManagementAddress_def BridgeAddress_def)+

lemma keeps_policy:
  "keeps (policy_initialize L a ic)" "keeps (setFeePerByte C L a d ic v)" "keeps (setGasPrice C L a d ic v)"
  "keeps (blockAccount C L a d ic x)" "keeps (unblockAccount C L a d ic x)"
  unfolding policy_initialize_def setFeePerByte_def setGasPrice_def blockAccount_def unblockAccount_def
    put_setting_def
  by (intro keeps_rules keeps_guards keys)+

lemma keeps_designate: "keeps (designateAsRole ic r ks)" "keeps (designate_initialize L a d ic)"
  unfolding designateAsRole_def designate_initialize_def by (intro keeps_rules keys)+

lemma keeps_put_contracts: "keeps (put_contracts cs)"
  by (induction cs) (auto intro!: keeps_rules keys)

lemma keeps_management: "keeps (management_initialize cs ic)"
  unfolding management_initialize_def by (intro keeps_rules keeps_put_contracts)

lemma keeps_gas: "keeps (gas_initialize C L a d n ic)"
proof -
  have "\<bar>sint n * 10 ^ 18\<bar> < (256 :: int) ^ 40"
    using sint64_bound [of n] by (simp add: abs_mult)
  then show ?thesis
    unfolding gas_initialize_def Let_def by (intro keeps_rules keeps_tokens small)
qed

lemma keeps_bridge_put: "\<not> deposit_key k \<Longrightarrow> keeps (bridge_put k v)"
  unfolding bridge_put_def by (rule keeps_put, rule plain) (simp_all add: native_keys_def)

lemma keeps_save: "keeps (saveHeader h)" "keeps (saveStateRoot s)" "keeps (saveStateRootValidatorsAddress i x)"
  "keeps (saveValidatorsSyncedIndex i)" "keeps (saveJoints JointHeadersKey js)" "keeps (saveJoints JointStateRootsKey js)"
  "keeps newLockId"
  unfolding saveHeader_def saveStateRoot_def saveStateRootValidatorsAddress_def saveValidatorsSyncedIndex_def
    saveJoints_def newLockId_def Let_def
  by (intro keeps_rules keeps_bridge_put; simp add: deposit_key_def bridge_keys)+

lemma keeps_addJoint: "keeps (addJoint JointHeadersKey i)" "keeps (addJoint JointStateRootsKey i)"
  unfolding addJoint_def by (intro keeps_rules keeps_save)+

lemmas bridge_rules = keeps_rules keeps_save keeps_addJoint keeps_verify keeps_designate

lemma keeps_sync:
  "keeps (syncHeader K b raw)" "keeps (syncStateRoot K b raw)"
  "keeps (syncStateRootValidatorsAddress K hi t tp si sp)" "keeps (syncValidators K b ic hi t tp si sp)"
  unfolding syncHeader_def syncStateRoot_def syncStateRootValidatorsAddress_def syncValidators_def Let_def
  by (intro bridge_rules)+

lemma keeps_mint:
  assumes "\<And>i t. length t = 32 \<Longrightarrow> W BridgeAddress (createDepositIdKey i) (t @ ic_TxHash ic)"
  shows "keeps (requestMint K b ic hi t tp si sp)"
proof -
  have "keeps (saveMintedState ic i t)" if "length t = 32" for i t
    unfolding saveMintedState_def bridge_put_def minted_Bytes_def by (rule keeps_put) (simp add: assms that)
  then have save: "keeps (saveMintedState ic i (BytesToHash x))" for i x by (simp add: BytesToHash_def Let_def)
  have "A ((sint x - BaseBonous) * tenGWei)" for x :: u64
    using sint64_bound [of x] by (intro small) (simp add: BaseBonous_def tenGWei_def abs_mult abs_le_iff abs_less_iff)
  moreover have "A (BaseBonous * tenGWei)"
    by (intro small) (simp add: BaseBonous_def tenGWei_def)
  ultimately show ?thesis
    unfolding requestMint_def mint_deposit_def mintBonous_def gas_Mint_def Let_def by (intro bridge_rules keeps_tokens save)
qed

lemma keeps_lock:
  assumes "MintThreashold \<le> ic_TxValue ic div tenGWei \<Longrightarrow> A (- (ic_TxValue ic div tenGWei))"
  shows "keeps (bridge_lock L a ic x)"
  unfolding bridge_lock_def gas_Burn_def Let_def
  by (intro bridge_rules keeps_tokens assms keeps_bridge_put) (simp_all add: deposit_key_def bridge_keys)

lemma keeps_no_value: "keeps f \<Longrightarrow> keeps (no_value f)"
  unfolding no_value_def by (intro keeps_rules)

lemma keeps_calls:
  assumes "MintThreashold \<le> ic_TxValue ic div tenGWei \<Longrightarrow> A (- (ic_TxValue ic div tenGWei))"
    and "\<And>i t. length t = 32 \<Longrightarrow> W BridgeAddress (createDepositIdKey i) (t @ ic_TxHash ic)"
  shows "keeps (policy_calls cs ic name args)" and "keeps (bridge_calls cs ic name args)"
proof -
  show "keeps (policy_calls cs ic name args)"
    using keeps_policy keeps_no_value keeps_pure(3)
    by (auto simp: policy_calls_def Let_def split: list.splits abi_value.splits)
  have "keeps (nbind (nread f) (\<lambda>h. nreturn (Some h)))" for f :: "simple \<Rightarrow> bytes option"
    by (intro keeps_rules)
  then show "keeps (bridge_calls cs ic name args)"
    using keeps_sync keeps_mint [OF assms(2)] keeps_lock [OF assms(1)] keeps_no_value keeps_pure(3)
    by (auto simp: bridge_calls_def Let_def split: list.splits abi_value.splits)
qed

lemma keeps_contractCall: "(\<And>name args. keeps (calls name args)) \<Longrightarrow> keeps (contractCall L a calls inp)"
  unfolding contractCall_def by (intro keeps_rules)

lemma keeps_initialize: "keeps f \<Longrightarrow> keeps (initialize_calls f name args)"
  by (simp add: initialize_calls_def keeps_no_value keeps_pure)

lemma as_body_R: "keeps (f (ic\<lparr>ic_Sender := caller\<rparr>) inp) \<Longrightarrow> as_body f ic caller inp m = Some (r, m') \<Longrightarrow> R m m'"
  by (auto simp: as_body_def dest: keepsD)

lemma initialize_R:
  assumes "\<And>ic. keeps (init ic)"
    and "as_body (\<lambda>ic. contractCall L a (initialize_calls (init ic))) ic caller inp m = Some (r, m')"
  shows "R m m'"
  by (rule as_body_R [OF keeps_contractCall assms(2)]) (rule keeps_initialize [OF assms(1)])

lemma native_contracts_R:
  assumes "MintThreashold \<le> ic_TxValue ic div tenGWei \<Longrightarrow> A (- (ic_TxValue ic div tenGWei))"
    and "\<And>i t. length t = 32 \<Longrightarrow> W BridgeAddress (createDepositIdKey i) (t @ ic_TxHash ic)"
    and "native_contracts cs ic addr = Some (req, body)" and "body caller inp m = Some (r, m')"
  shows "R m m'"
proof -
  have v: "MintThreashold \<le> ic_TxValue (ic\<lparr>ic_Sender := caller\<rparr>) div tenGWei \<Longrightarrow>
      A (- (ic_TxValue (ic\<lparr>ic_Sender := caller\<rparr>) div tenGWei))" using assms(1) by simp
  have w: "W BridgeAddress (createDepositIdKey i) (t @ ic_TxHash (ic\<lparr>ic_Sender := caller\<rparr>))" if "length t = 32" for i t
    using assms(2) [OF that] by simp
  note rules = as_body_R [OF keeps_contractCall] keeps_calls [OF v w] initialize_R [OF keeps_designate(2)]
    initialize_R [OF keeps_gas] initialize_R [OF keeps_management]
  show ?thesis
    using assms(3,4) by (auto simp: native_contracts_def Let_def split: if_splits intro: rules)
qed

end

section \<open>Only the items of native contracts change\<close>

definition own_keys :: "address set" where
  "own_keys = insert GASAddress native_keys"

definition items_kept :: "address set \<Rightarrow> simple \<Rightarrow> simple \<Rightarrow> bool" where
  "items_kept S d d' \<longleftrightarrow> (dao_ok d \<longrightarrow> dao_ok d' \<and> (\<forall>a k. fit 20 a \<notin> S \<longrightarrow> item d' a k = item d a k))"

abbreviation own_items :: "simple \<Rightarrow> simple \<Rightarrow> bool" where
  "own_items \<equiv> items_kept own_keys"

lemma items_kept_refl: "items_kept S d d"
  by (simp add: items_kept_def)

lemma items_kept_trans: "items_kept S d d' \<Longrightarrow> items_kept S d' d'' \<Longrightarrow> items_kept S d d''"
  by (simp add: items_kept_def)

lemma items_kept_mono: "items_kept S d d' \<Longrightarrow> S \<subseteq> T \<Longrightarrow> items_kept T d d'"
  by (auto simp: items_kept_def)

lemma items_kept_put: "fit 20 a \<in> S \<Longrightarrow> PutStorageItem a k v d = Some d' \<Longrightarrow> items_kept S d d'"
  using PutStorageItem_facts(1,4) [of a k v d d'] by (auto simp: items_kept_def)

lemma items_kept_delete: "fit 20 a \<in> S \<Longrightarrow> DeleteStorageItem a k d = Some d' \<Longrightarrow> items_kept S d d'"
  using DeleteStorageItem_facts(1,4) [of a k d d'] by (auto simp: items_kept_def)

lemma gas_key: "fit 20 GASAddress \<in> {GASAddress}"
  by simp

lemma items_kept_tokens:
  assumes "addTokens h n d = Some (e, d')"
  shows "items_kept {GASAddress} d d'"
proof -
  let ?k = "makeAccountKey h"
  have put: "items_kept {GASAddress} d d1" if "putGasState ?k x d = Some (Inr d1)" for x d1
    using that items_kept_put [OF gas_key] by (auto simp: putGasState_def split: sum.splits)
  have save: "items_kept {GASAddress} d1 d2" if "saveTotalSupply x d1 = Some d2" for x d1 d2
    using that items_kept_put [OF gas_key] by (simp add: saveTotalSupply_def)
  consider "d' = d" | d1 x where "DeleteStorageItem GASAddress ?k d = Some d1" "saveTotalSupply x d1 = Some d'"
    | d1 x bal where "putGasState ?k bal d = Some (Inr d1)" "saveTotalSupply x d1 = Some d'"
    using assms that by (auto simp: addTokens_def Let_def split: if_split_asm bind_split_asm sum.split_asm)
  then show ?thesis
    using items_kept_refl put save items_kept_delete [OF gas_key] items_kept_trans by cases metis+
qed

lemma native_own: "a \<in> native_keys \<Longrightarrow> fit 20 a \<in> own_keys" "fit 20 PolicyAddress \<in> own_keys" "{GASAddress} \<subseteq> own_keys"
  by (auto simp: own_keys_def native_keys_def)

interpretation own: native_frame "\<lambda>m m'. own_items (Simple m) (Simple m')" "\<lambda>_. True" "\<lambda>a k v. a \<in> native_keys"
  by unfold_locales
    (auto simp: items_kept_refl intro: items_kept_trans items_kept_put items_kept_delete native_own
      items_kept_mono [OF items_kept_tokens native_own(3)])

lemma native_call_own:
  assumes "native_contracts cs ic a = Some (req, body)" and "body caller inp m = Some (r, m')"
  shows "own_items (Simple m) (Simple m')"
  by (rule own.native_contracts_R [OF _ _ assms]) (simp_all add: native_keys_def)

section \<open>The supply of GAS\<close>

definition books :: "simple \<Rightarrow> bool" where
  "books d \<longleftrightarrow> dao_ok d \<and> (\<exists>b. gas_books d b)"

definition gas_item :: "bytes \<Rightarrow> bool" where
  "gas_item k \<longleftrightarrow> k = totalSupplyKey \<or> (\<exists>x. k = 20 # fit 20 x)"

lemma books_cong:
  assumes "books d" and "dao_ok d'" and "\<And>k. gas_item k \<Longrightarrow> item d' GASAddress k = item d GASAddress k"
  shows "books d'"
proof -
  have "gas_item totalSupplyKey" "gas_item (20 # fit 20 a)" for a by (auto simp: gas_item_def)
  then have "account d' a = account d a" "recorded d' = recorded d" for a
    using assms(3) by (simp_all add: account_def recorded_def)
  then show ?thesis using assms(1,2) by (simp add: books_def gas_books_def)
qed

lemma books_put:
  assumes "books d" and "PutStorageItem a k v d = Some d'" and "fit 20 a \<noteq> GASAddress \<or> \<not> gas_item k"
  shows "books d'"
  using PutStorageItem_facts [OF assms(2)] assms by (intro books_cong [OF assms(1)]) (auto simp: books_def)

lemma books_delete:
  assumes "books d" and "DeleteStorageItem a k d = Some d'" and "fit 20 a \<noteq> GASAddress \<or> \<not> gas_item k"
  shows "books d'"
  using DeleteStorageItem_facts [OF assms(2)] assms by (intro books_cong [OF assms(1)]) (auto simp: books_def)

lemma books_tokens:
  assumes "books d" and "NativeAccounts.amount_ok n" and "addTokens h n d = Some (e, d')"
  shows "books d'"
proof -
  obtain b where b: "dao_ok d" "gas_books d b" using assms(1) by (auto simp: books_def)
  from addTokens_books [OF b assms(2), of h] show ?thesis
    using assms(1,3) by (auto simp: books_def same_frame_def)
qed

lemma native_keys_fit: "a \<in> native_keys \<Longrightarrow> fit 20 a \<noteq> GASAddress"
  by (auto simp: native_keys_def)

interpretation gas_frame: native_frame "\<lambda>m m'. books (Simple m) \<longrightarrow> books (Simple m')" NativeAccounts.amount_ok
    "\<lambda>a k v. a \<in> native_keys"
  by unfold_locales (auto intro: amount_okI books_put books_delete books_tokens dest: native_keys_fit)

end
