(* ===== verification/ExecutionProps.thy ===== *)
theory ExecutionProps
  imports NativeProps
begin

text \<open>
  The virtual machine, the state database and the native contracts together. A property of the
  storage that the single writes of an account keep is kept by every layer through whole runs
  (\<open>dao_closed\<close>). Two such properties are used: that the recorded supply of GAS is the sum of the
  balances, and, for the read-only mode, that the storage is what it was.
\<close>

section \<open>Properties of layers\<close>

definition layered :: "(simple \<Rightarrow> bool) \<Rightarrow> nat \<Rightarrow> statedb \<Rightarrow> bool" where
  "layered G L s \<longleftrightarrow> sdb_ok s \<and> L < length (layers s) \<and> (\<forall>m \<in> set (drop L (layers s)). G (Simple m))"

lemma layered_top: "layered G L s \<Longrightarrow> G (Simple (last (layers s)))"
proof -
  assume s: "layered G L s"
  then have "drop L (layers s) \<noteq> []" by (simp add: layered_def)
  then have "last (layers s) \<in> set (drop L (layers s))" by (metis last_drop last_in_set drop_eq_Nil not_le)
  then show ?thesis using s by (simp add: layered_def)
qed

lemma layered_ok: "layered G L s \<Longrightarrow> sdb_ok s"
  by (simp add: layered_def)

lemma layered_set:
  assumes "layered G L s" and "G (Simple m)"
  shows "layered G L (set_current m s)"
proof -
  have s: "sdb_ok s" "L < length (layers s)" using assms(1) by (simp_all add: layered_def)
  note l = set_current_layers [OF s(1), of m]
  have "set (drop L (layers (set_current m s))) \<subseteq> set (drop L (layers s)) \<union> {m}"
    unfolding l(2) using s(2) by (auto simp: butlast_drop [symmetric] dest: in_set_butlastD)
  moreover have "length (layers (set_current m s)) = length (layers s)" unfolding l(2) by simp
  ultimately show ?thesis using assms l(1) s by (auto simp: layered_def)
qed

lemma layered_store:
  assumes "layered G L s" and "on_store f s = Some s'" and "\<And>m m'. G (Simple m) \<Longrightarrow> f m = Some m' \<Longrightarrow> G (Simple m')"
  shows "layered G L s'"
  using on_store_top [OF assms(2) layered_ok [OF assms(1)]] layered_top [OF assms(1)] layered_set [OF assms(1)] assms(3)
  by metis

lemma layered_simple:
  assumes "layered G L s" and "on_simple f s = Some s'" and "\<And>d d'. G d \<Longrightarrow> f d = Some d' \<Longrightarrow> G d'"
  shows "layered G L s'"
  using assms(2) unfolding on_simple_def
  by (rule layered_store [OF assms(1)]) (auto dest: assms(3))

lemma layers_snapshot:
  assumes "sdb_ok s" and "Snapshot s = Some (i, s')"
  shows "layers s' = layers s @ [clone (last (layers s))]" and "sdb_ok s'" and "i = int (length (memStores s))"
  using assms by (auto simp: Snapshot_def CurrentStore_last sdb_ok_def layers_def)

lemma layers_revert:
  assumes "sdb_ok t" and "RevertToSnapshot i t = Some t'"
  shows "layers t' = take (Suc (nat i)) (layers t)" and "sdb_ok t'" and "nat i < length (layers t)" and "0 \<le> i"
  using assms by (auto simp: RevertToSnapshot_def layers_def sdb_ok_def min_def split: if_splits)

lemma layered_snapshot:
  assumes "layered G L s" and "Snapshot s = Some (i, s')" and "\<And>d. G d \<Longrightarrow> G (GetPrivate d)"
  shows "layered G L s'"
  using layers_snapshot [OF layered_ok [OF assms(1)] assms(2)] layered_top [OF assms(1)] assms(1,3)
  by (auto simp: layered_def clone_def simp del: layers_not_Nil(2))

lemma layered_revert:
  assumes "layered G L s" and "Snapshot s = Some (i, s')" and "layered G L t" and "RevertToSnapshot i t = Some t'"
  shows "layered G L t'"
proof -
  note r = layers_revert [OF layered_ok [OF assms(3)] assms(4)]
  have i: "nat i = length (memStores s)" using layers_snapshot(3) [OF layered_ok [OF assms(1)] assms(2)] by simp
  have "L < length (layers t')" using r(1,3) assms(1) by (simp add: i layered_def)
  moreover have "set (drop L (layers t')) \<subseteq> set (drop L (layers t))"
    unfolding r(1) drop_take by (rule set_take_subset)
  ultimately show ?thesis using r(2) assms(3) by (auto simp: layered_def)
qed

locale dao_closed =
  fixes lib :: vm_lib and cfg :: protocol_settings and nt :: native_table and bctx :: block_context
    and origin :: address and price :: int and G :: "simple \<Rightarrow> bool" and hard :: bool and amount_ok :: "int \<Rightarrow> bool"
  assumes private_layer: "G d \<Longrightarrow> G (GetPrivate d)"
    and native_call: "nt a = Some (req, body) \<Longrightarrow> body caller inp m = Some (r, m') \<Longrightarrow> G (Simple m) \<Longrightarrow> G (Simple m')"
    and ok_word: "amount_ok (ToBig w)"
    and ok_minus: "amount_ok v \<Longrightarrow> amount_ok (- v)"
    and ok_balance: "gas_GetBalance d a = Some v \<Longrightarrow> amount_ok v"
    and balance_added: "hard \<Longrightarrow> amount_ok v \<Longrightarrow> G d \<Longrightarrow> gas_AddBalance a v d = Some d' \<Longrightarrow> G d'"
    and nonce_set: "hard \<Longrightarrow> G d \<Longrightarrow> ledger_SetNonce a n d = Some d' \<Longrightarrow> G d'"
    and code_set: "hard \<Longrightarrow> G d \<Longrightarrow> mgmt_SetCode (l_Keccak lib) a c d = Some d' \<Longrightarrow> G d'"
    and state_set: "hard \<Longrightarrow> G d \<Longrightarrow> PutStorageItem a (hash_Bytes k) (hash_Bytes x) d = Some d' \<Longrightarrow> G d'"
    and destroyed: "hard \<Longrightarrow> G d \<Longrightarrow> Destroy a d = Some (ok, d') \<Longrightarrow> G d'"

sublocale dao_closed \<subseteq> db: db_closed "NewEVM lib cfg nt bctx origin price" "layered G L" hard amount_ok for L
proof (unfold_locales, unfold NewEVM_simps sdb_simps)
  fix s s' i
  assume "layered G L s" and "Snapshot s = Some (i, s')"
  then show "layered G L s' \<and> (\<forall>t t'. layered G L t \<longrightarrow> RevertToSnapshot i t = Some t' \<longrightarrow> layered G L t')"
    using layered_snapshot private_layer layered_revert by metis
next
  fix s s' a n caller inp r
  assume s: "layered G L s" and "map_option (\<lambda>(required, body). nativeWrapper required body) (nt a) = Some n"
    and "n_Run n caller inp s = Some (r, s')"
  then obtain req body m where "nt a = Some (req, body)" "body caller inp (last (layers s)) = Some (r, m)" "s' = set_current m s"
    using native_top layered_ok by metis
  then show "layered G L s'" using layered_set [OF s] native_call layered_top [OF s] by metis
next
  fix s a v
  assume "sdb_GetBalance s a = Some v"
  then show "amount_ok v"
    using ok_balance by (auto simp: sdb_GetBalance_def from_simple_def split: bind_splits)
qed (auto simp: sdb_writes sdb_CreateAccount_def gas_AddBalance_def addTokens_def ok_word ok_minus
    elim!: layered_store [rotated] layered_simple [rotated] intro: balance_added nonce_set code_set state_set dest: destroyed)

context dao_closed
begin

lemma top_call_layers:
  assumes "hard" and "amount_ok amount" and "layered G L (statedb e)"
  shows "db_closed.rsafe (layered G L) (readOnly e) (depth e) (Call (NewEVM lib cfg nt bctx origin price)
      (Run (NewEVM lib cfg nt bctx origin price) (base_table (NewEVM lib cfg nt bctx origin price)) n) caller addr inp g amount e)"
    and "db_closed.rsafe (layered G L) (readOnly e) (depth e) (snd (Create (NewEVM lib cfg nt bctx origin price)
      (Run (NewEVM lib cfg nt bctx origin price) (base_table (NewEVM lib cfg nt bctx origin price)) n) caller inp g amount e))"
proof -
  let ?E = "NewEVM lib cfg nt bctx origin price"
  have j: "db_closed.J (layered G L) (readOnly e) (depth e) e" using assms(3) by (simp add: db.J_def)
  have run: "db_closed.rsafe (layered G L) ro d (Run ?E (base_table ?E) n c inp ro' e)"
    if "db_closed.J (layered G L) ro d e" for ro d c inp ro' e
    by (rule db.Run_safe [OF _ _ that]) (simp_all add: assms(1))
  show "db_closed.rsafe (layered G L) (readOnly e) (depth e) (Call ?E (Run ?E (base_table ?E) n) caller addr inp g amount e)"
    by (rule db.Call_safe [OF j _ run]) (use assms in simp_all)
  show "db_closed.rsafe (layered G L) (readOnly e) (depth e) (snd (Create ?E (Run ?E (base_table ?E) n) caller inp g amount e))"
    using db.create_safe [OF assms(1,2) j run] by (simp add: Create_def split: option.split)
qed

lemma layered_result: "db_closed.rsafe (layered G L) ro d (Ran err ret g e) \<Longrightarrow> layered G L (statedb e)"
  by (simp add: db.J_def)

end

section \<open>Read-only calls\<close>

definition outside :: "simple \<Rightarrow> address \<Rightarrow> bytes \<Rightarrow> bytes option" where
  "outside d a k = (if fit 20 a \<in> own_keys then None else item d a k)"

definition unchanged :: "(address \<Rightarrow> bytes \<Rightarrow> bytes option) \<Rightarrow> simple \<Rightarrow> bool" where
  "unchanged V d \<longleftrightarrow> dao_ok d \<and> outside d = V"

lemma outside_own: "own_items d d' \<Longrightarrow> dao_ok d \<Longrightarrow> outside d' = outside d"
  by (auto simp: items_kept_def outside_def intro!: ext)

lemma outside_private: "outside (GetPrivate d) = outside d"
  by (simp add: outside_def fun_eq_iff)

lemma unchanged_own: "own_items d d' \<Longrightarrow> unchanged V d \<Longrightarrow> unchanged V d'"
  using outside_own [of d d'] by (auto simp: items_kept_def unchanged_def)

lemma layered_touch: "layered G L s \<Longrightarrow> sdb_AddBalance a 0 s = Some s' \<Longrightarrow> layered G L s'"
  unfolding sdb_AddBalance_def by (erule layered_simple) (auto simp: gas_AddBalance_def addTokens_def)

interpretation static: dao_closed lib cfg "native_contracts cs ic" bctx origin price "unchanged V" False "\<lambda>_. True"
  for lib cfg cs ic bctx origin price V
proof unfold_locales
  fix a req body caller inp m r m'
  assume "native_contracts cs ic a = Some (req, body)" and "body caller inp m = Some (r, m')" and "unchanged V (Simple m)"
  then show "unchanged V (Simple m')" using native_call_own unchanged_own by blast
qed (simp_all add: unchanged_def outside_private)

lemma layered_start:
  assumes "sdb_ok s" and "dao_ok (Simple (last (layers s)))"
  shows "layered (unchanged (outside (Simple (last (layers s))))) (length (memStores s)) s"
proof -
  have "drop (length (memStores s)) (layers s) = [last (layers s)]"
    by (cases "memStores s" rule: rev_cases) (simp_all add: layers_def)
  then show ?thesis using assms by (simp add: layered_def unchanged_def)
qed

lemma static_call_layers:
  assumes "layered (unchanged V) L (statedb e)"
  shows "db_closed.rsafe (layered (unchanged V) L) (readOnly e) (depth e)
    (StaticCall (NewEVM lib cfg (native_contracts cs ic) bctx origin price)
      (Run (NewEVM lib cfg (native_contracts cs ic) bctx origin price)
        (base_table (NewEVM lib cfg (native_contracts cs ic) bctx origin price)) n) caller addr inp g e)"
proof -
  let ?E = "NewEVM lib cfg (native_contracts cs ic) bctx origin price"
  have j: "db_closed.J (layered (unchanged V) L) (readOnly e) (depth e) e" using assms by (simp add: static.db.J_def)
  have run: "db_closed.rsafe (layered (unchanged V) L) ro d (Run ?E (base_table ?E) n c inp True e)"
    if "db_closed.J (layered (unchanged V) L) ro d e" for ro d c inp e
    by (rule static.db.Run_safe [OF _ _ that]) simp_all
  show ?thesis
    unfolding StaticCall_def
    by (intro static.db.keep_if static.db.keep_snapshot [OF j] static.db.keep_rask static.db.keep_settle static.db.keep_dispatch
        static.db.keep_with_code run) (auto intro: j static.db.J_set(2) [OF j] layered_touch)
qed

text \<open>
  C12. STATICCALL changes no storage of a contract and no nonce. Whatever the callee and the
  contracts below it run, when the call is over every slot of every account outside the native
  contracts and every nonce is what it was. Only the native contracts themselves, which are not told
  about the read-only mode, can have written, and only to their own items.
\<close>

theorem static_call_keeps_storage:
  assumes "E = NewEVM lib cfg (native_contracts cs ic) bctx origin price"
    and "sdb_ok (statedb e)" and "dao_ok (Simple (last (layers (statedb e))))"
    and "StaticCall E (Run E (base_table E) n) caller addr inp g e = Ran err ret g' e'"
  shows "(fit 20 a \<notin> own_keys \<longrightarrow> sdb_GetState (statedb e') a k = sdb_GetState (statedb e) a k) \<and>
    sdb_GetNonce (statedb e') b = sdb_GetNonce (statedb e) b"
proof -
  let ?d = "Simple (last (layers (statedb e)))" and ?d' = "Simple (last (layers (statedb e')))"
  have "db_closed.rsafe (layered (unchanged (outside ?d)) (length (memStores (statedb e)))) (readOnly e) (depth e) (Ran err ret g' e')"
    using static_call_layers [OF layered_start [OF assms(2,3)], of lib cfg cs ic bctx origin price n caller addr inp g]
    by (simp only: assms(4) [unfolded assms(1)])
  then have l: "layered (unchanged (outside ?d)) (length (memStores (statedb e))) (statedb e')"
    by (simp add: static.db.J_def)
  then have out: "outside ?d' = outside ?d" and ok: "sdb_ok (statedb e')"
    using layered_top [OF l] by (simp_all add: unchanged_def layered_def)
  have same: "item ?d' a k = item ?d a k" if "fit 20 a \<notin> own_keys" for a k
    using that fun_cong [OF fun_cong [OF out, of a], of k] by (simp add: outside_def)
  have "sdb_GetState (statedb e') a k = sdb_GetState (statedb e) a k" if "fit 20 a \<notin> own_keys"
    using same [OF that] assms(2) ok by (simp add: sdb_GetState_def from_simple_def CurrentStore_last hash_Bytes_def)
  moreover have "fit 20 LedgerAddress \<notin> own_keys"
    by (simp add: own_keys_def native_keys_def LedgerAddress_def PolicyAddress_def DesignationAddress_def BridgeAddress_def
        ManagementAddress_def GASAddress_def native_address_def)
  then have "sdb_GetNonce (statedb e') b = sdb_GetNonce (statedb e) b"
    using same assms(2) ok
    by (simp add: sdb_GetNonce_def from_simple_def CurrentStore_last ledger_GetNonce_def key_eqs)
  ultimately show ?thesis by blast
qed

text \<open>A machine with all native contracts on an empty database.\<close>

definition demo_contracts :: contracts where
  "demo_contracts = \<lparr>cs_K = \<lparr>b_C = tiny_lib, b_P256 = tiny_curve, b_P256Verify = \<lambda>_ _ _ _. True,
       b_bigint_ToBytes = \<lambda>_. [], b_fuel = 9\<rparr>,
     cs_L = \<lparr>MethodId = \<lambda>_ _. [0, 0, 0, 0], EventId = \<lambda>_ _. [], Unpack = \<lambda>_ _. None\<rparr>,
     cs_Designate = \<lparr>StandbyValidators = [], rolesChangedFlag = False,
       cache_validators = \<lparr>rd_nodes = [], rd_addr = [], rd_height = 0\<rparr>,
       cache_stateVals = \<lparr>rd_nodes = [], rd_addr = [], rd_height = 0\<rparr>\<rparr>,
     cs_Bridge = \<lparr>mainStandbyStateValidatorsScriptHash = [], mainBridgeContractId = 0, mainNetwork = 0\<rparr>,
     cs_initialSupply = 0, cs_Contracts = []\<rparr>"

definition demo_ic :: interop_context where
  "demo_ic = \<lparr>ic_Block = Some 5, ic_Sender = [], ic_TxHash = [], ic_TxFrom = [], ic_TxValue = 0\<rparr>"

lemma empty_dao:
  "item (NewSimple (MemoryStore NewMemoryStore)) a k = None" "dao_ok (NewSimple (MemoryStore NewMemoryStore))"
  by (simp_all add: NewSimple_def newSimple_def item_def NewMemCachedStore_def NewMemoryStore_def dao_ok_def MemGet_def
      chooseMap_def inStor_def StoreGet.simps)

lemma demo_sdb_ok: "sdb_ok (statedb demo_sdb_evm)" "layers (statedb demo_sdb_evm) =
    [\<lparr>Simple = NewSimple (MemoryStore NewMemoryStore), fund = 0, preimages = Map.empty, logs = [], accesslist = newAccessList\<rparr>]"
  by (simp_all add: demo_sdb_evm_def NewStateDB_def sdb_ok_def layers_def)

lemma demo_native_none: "native_contracts cs ic [] = None"
  by (simp add: native_contracts_def DesignationAddress_def PolicyAddress_def GASAddress_def ManagementAddress_def
      BridgeAddress_def native_address_def)

lemma own_keys_hd: "x \<in> own_keys \<Longrightarrow> hd x = 0"
  by (auto simp: own_keys_def native_keys_def PolicyAddress_def DesignationAddress_def BridgeAddress_def
      ManagementAddress_def GASAddress_def native_address_def)

theorem static_call_keeps_storage_witness:
  "\<exists>g e'. StaticCall (demo_sdb_env (native_contracts demo_contracts demo_ic))
     (Run (demo_sdb_env (native_contracts demo_contracts demo_ic)) (base_table (demo_sdb_env (native_contracts demo_contracts demo_ic))) 9)
     [] [] [] 8 demo_sdb_evm = Ran None [] g e' \<and>
     sdb_GetState (statedb e') (replicate 20 7) [] = sdb_GetState (statedb demo_sdb_evm) (replicate 20 7) []"
proof -
  let ?E = "demo_sdb_env (native_contracts demo_contracts demo_ic)"
  have "\<exists>g e'. StaticCall ?E (Run ?E (base_table ?E) 9) [] [] [] 8 demo_sdb_evm = Ran None [] g e'"
    by (simp add: StaticCall_def demo_sdb_env_def NewEVM_def demo_sdb_evm_def sdb_def NewStateDB_def Snapshot_def
        CurrentStore_def rask_def sdb_AddBalance_def on_simple_def on_store_def gas_AddBalance_def addTokens_def
        set_current_def dispatch_def precompile_def demo_vm_lib_def demo_native_none settle_def with_code_def
        sdb_GetCodeHash_def sdb_GetCode_def from_simple_def mgmt_GetCodeHash_def mgmt_GetCode_def GetContract_def
        key_eqs clone_def empty_dao Run_def run_with_def SetCallCode_def NewContract_def)
  then obtain g e' where r: "StaticCall ?E (Run ?E (base_table ?E) 9) [] [] [] 8 demo_sdb_evm = Ran None [] g e'" by blast
  have "fit 20 (replicate 20 7) \<notin> own_keys"
    using own_keys_hd [of "replicate 20 7"] by auto
  then show ?thesis
    using static_call_keeps_storage [OF demo_sdb_env_def demo_sdb_ok(1) _ r, of "replicate 20 7" "[]"] r
    by (simp add: demo_sdb_ok(2) empty_dao)
qed

section \<open>The supply of GAS through whole runs\<close>

lemma burned_ok:
  assumes "NativeAccounts.amount_ok x" and "MintThreashold \<le> x div tenGWei"
  shows "NativeAccounts.amount_ok (- (x div tenGWei))"
proof -
  have pos: "0 \<le> x div tenGWei" using assms(2) by (simp add: MintThreashold_def)
  then have "0 \<le> x" by (simp add: tenGWei_def pos_imp_zdiv_nonneg_iff)
  then have "x div tenGWei \<le> x" using zdiv_mono2 [of x 1 tenGWei] by (simp add: tenGWei_def)
  with pos have "\<bar>- (x div tenGWei)\<bar> \<le> \<bar>x\<bar>" by linarith
  also have "\<dots> < 256 ^ MaxArraySize" using assms(1) by (simp only: NativeAccounts.amount_ok_def)
  finally show ?thesis by (simp only: NativeAccounts.amount_ok_def)
qed

lemma short_keys: "\<not> gas_item (hash_Bytes k)" "\<not> gas_item (1 # x)"
proof -
  show "\<not> gas_item (hash_Bytes k)"
    by (auto simp: gas_item_def hash_Bytes_def totalSupplyKey_def dest!: arg_cong [of _ _ length])
  show "\<not> gas_item (1 # x)" by (simp add: gas_item_def totalSupplyKey_def)
qed

lemma books_closed:
  assumes "NativeAccounts.amount_ok (ic_TxValue ic)"
  shows "dao_closed lib (native_contracts cs ic) books True NativeAccounts.amount_ok"
proof
  fix d assume "books d"
  then show "books (GetPrivate d)" by (rule books_cong) simp_all
next
  fix a req body caller inp m r m'
  show "native_contracts cs ic a = Some (req, body) \<Longrightarrow> body caller inp m = Some (r, m') \<Longrightarrow> books (Simple m) \<Longrightarrow> books (Simple m')"
    using gas_frame.native_contracts_R [OF burned_ok [OF assms], of cs a req body caller inp m r m']
    by (auto simp: native_keys_def)
next
  fix w show "NativeAccounts.amount_ok (ToBig w)"
    using uint_bounded [of w] by (intro amount_okI) (simp add: ToBig_def)
next
  fix v show "NativeAccounts.amount_ok v \<Longrightarrow> NativeAccounts.amount_ok (- v)"
    by (simp only: NativeAccounts.amount_ok_def abs_minus_cancel)
next
  fix d a v show "gas_GetBalance d a = Some v \<Longrightarrow> NativeAccounts.amount_ok v"
    by (simp add: GetBalance_eq balance_small)
next
  fix v d a d' show "NativeAccounts.amount_ok v \<Longrightarrow> books d \<Longrightarrow> gas_AddBalance a v d = Some d' \<Longrightarrow> books d'"
    by (auto simp: gas_AddBalance_def intro: books_tokens)
next
  fix d a n d' show "books d \<Longrightarrow> ledger_SetNonce a n d = Some d' \<Longrightarrow> books d'"
    using books_put [of d LedgerAddress "createNonceKey a" "put_le 8 n" d'] by (simp add: ledger_SetNonce_def)
next
  fix d a c d' show "books d \<Longrightarrow> mgmt_SetCode (l_Keccak lib) a c d = Some d' \<Longrightarrow> books d'"
    by (auto simp: mgmt_SetCode_def Let_def split: bind_splits sum.splits intro: books_put)
next
  fix d a k x d' show "books d \<Longrightarrow> PutStorageItem a (hash_Bytes k) (hash_Bytes x) d = Some d' \<Longrightarrow> books d'"
    using books_put [of d a "hash_Bytes k" "hash_Bytes x" d'] by (simp add: short_keys)
next
  fix d a ok d' show "books d \<Longrightarrow> Destroy a d = Some (ok, d') \<Longrightarrow> books d'"
    by (auto simp: Destroy_def key_eqs short_keys split: bind_splits option.splits intro: books_delete)
qed

lemma balance_back:
  assumes "0 \<le> x" and "x < 256 ^ MaxArraySize"
  shows "FromByteArray decode_gas_state (var_bytes (big_Bytes x)) = (x, None)"
proof -
  have "length (big_Bytes x) \<le> MaxArraySize" using length_big_Bytes [of x MaxArraySize] assms by simp
  then have "ReadVarBytes MaxArraySize (rd (var_bytes (big_Bytes x))) = (Some (big_Bytes x), rd [])"
    using ReadVarBytes_exact [of "big_Bytes x" MaxArraySize "[]"] by (simp add: MaxArraySize_def)
  then show ?thesis
    using assms(1) by (simp add: FromByteArray_def decode_gas_state_def NewBinReaderFromBuf_def or_nil_def)
qed

lemma books_result:
  assumes "E = NewEVM lib cfg (native_contracts cs ic) bctx origin price"
    and "NativeAccounts.amount_ok (ic_TxValue ic)" and "NativeAccounts.amount_ok amount"
    and "layered books 0 (statedb e)"
    and "Ran err ret g' e' \<in> {Call E (Run E (base_table E) n) caller addr inp g amount e,
      snd (Create E (Run E (base_table E) n) caller inp g amount e)}"
  shows "layered books 0 (statedb e')"
proof -
  note l = dao_closed.top_call_layers [OF books_closed [OF assms(2)] TrueI assms(3,4)]
  have "db_closed.rsafe (layered books 0) (readOnly e) (depth e) (Ran err ret g' e')"
    using assms(5) unfolding assms(1) by (elim insertE emptyE) (erule ssubst, rule l)+
  then show ?thesis by (rule dao_closed.layered_result [OF books_closed [OF assms(2)]])
qed

lemma layered_books_balances:
  assumes "layered books 0 s"
  obtains b where "recorded (Simple (last (layers s))) = (\<Sum>a \<in> all_addresses. b a)"
    and "\<forall>a. 0 \<le> b a \<and> (length a = 20 \<and> b a < 256 ^ MaxArraySize \<longrightarrow> sdb_GetBalance s a = Some (b a))"
proof -
  let ?d = "Simple (last (layers s))"
  obtain b where b: "gas_books ?d b" using layered_top [OF assms] by (auto simp: books_def)
  have "sdb_GetBalance s a = Some (b a)" if a: "length a = 20" "b a < 256 ^ MaxArraySize" for a
  proof -
    have "0 \<le> b a" "account ?d a = (if b a = 0 then None else Some (var_bytes (big_Bytes (b a))))"
      using b a(1) by (simp_all add: gas_books_def)
    then have "balance_in (account ?d a) = Some (b a)"
      using balance_back [of "b a"] a(2) by (simp add: balance_in_def)
    then show ?thesis
      using layered_ok [OF assms] by (simp add: sdb_GetBalance_def from_simple_def CurrentStore_last GetBalance_eq)
  qed
  then show ?thesis using b by (intro that [of b]) (auto simp: gas_books_def)
qed

text \<open>
  C11. No GAS appears or disappears unrecorded: when the recorded total supply of every layer is the
  sum of the balances of all accounts, it is so after every call and every creation that a
  transaction starts, whatever contracts run, the native ones included, and whether it succeeds or
  fails. Transfers, self-destructs, deposits and locks of the bridge all go through the same books.
\<close>

theorem supply_is_sum_of_balances:
  assumes "E = NewEVM lib cfg (native_contracts cs ic) bctx origin price"
    and "NativeAccounts.amount_ok (ic_TxValue ic)" and "NativeAccounts.amount_ok amount"
    and "sdb_ok (statedb e)" and "\<forall>m \<in> set (layers (statedb e)). books (Simple m)"
    and "Ran err ret g' e' \<in> {Call E (Run E (base_table E) n) caller addr inp g amount e,
      snd (Create E (Run E (base_table E) n) caller inp g amount e)}"
  shows "\<exists>b. recorded (Simple (last (layers (statedb e')))) = (\<Sum>a \<in> all_addresses. b a) \<and>
    (\<forall>a. 0 \<le> b a \<and> (length a = 20 \<and> b a < 256 ^ MaxArraySize \<longrightarrow>
      sdb_GetBalance (statedb e') a = Some (b a)))"
proof -
  have "layered books 0 (statedb e)" using assms(4,5) by (simp add: layered_def)
  then have "layered books 0 (statedb e')" by (rule books_result [OF assms(1-3) _ assms(6)])
  then show ?thesis by (rule layered_books_balances) blast
qed

lemma empty_books: "books (NewSimple (MemoryStore NewMemoryStore))"
  by (auto simp: books_def empty_dao gas_books_def account_def recorded_def intro!: exI [of _ "\<lambda>_. 0"])

lemma demo_call:
  "\<exists>g e'. Call (demo_sdb_env (native_contracts demo_contracts demo_ic))
     (Run (demo_sdb_env (native_contracts demo_contracts demo_ic)) (base_table (demo_sdb_env (native_contracts demo_contracts demo_ic))) 9)
     [] [] [] 8 0 demo_sdb_evm = Ran None [] g e'"
  by (simp add: Call_def demo_sdb_env_def NewEVM_def demo_sdb_evm_def sdb_def NewStateDB_def Snapshot_def
      CurrentStore_def rask_def sdb_Exist_def sdb_Empty_def from_simple_def GetBalance_eq account_def balance_in_def
      GetContract_def ledger_GetNonce_def key_eqs clone_def empty_dao demo_native_none precompile_def
      demo_vm_lib_def all_forks_def)

theorem supply_is_sum_of_balances_witness:
  "\<exists>g e' b. Call (demo_sdb_env (native_contracts demo_contracts demo_ic))
     (Run (demo_sdb_env (native_contracts demo_contracts demo_ic)) (base_table (demo_sdb_env (native_contracts demo_contracts demo_ic))) 9)
     [] [] [] 8 0 demo_sdb_evm = Ran None [] g e' \<and>
     recorded (Simple (last (layers (statedb e')))) = (\<Sum>a \<in> all_addresses. b a)"
proof -
  let ?E = "demo_sdb_env (native_contracts demo_contracts demo_ic)"
  obtain g e' where r: "Call ?E (Run ?E (base_table ?E) 9) [] [] [] 8 0 demo_sdb_evm = Ran None [] g e'"
    using demo_call by blast
  have ok: "NativeAccounts.amount_ok 0" "NativeAccounts.amount_ok (ic_TxValue demo_ic)"
    by (simp_all add: amount_okI demo_ic_def)
  have "\<forall>m \<in> set (layers (statedb demo_sdb_evm)). books (Simple m)" by (simp add: demo_sdb_ok(2) empty_books)
  moreover have "Ran None [] g e' \<in> {Call ?E (Run ?E (base_table ?E) 9) [] [] [] 8 0 demo_sdb_evm,
      snd (Create ?E (Run ?E (base_table ?E) 9) [] [] 8 0 demo_sdb_evm)}" using r by simp
  ultimately show ?thesis
    using supply_is_sum_of_balances [OF demo_sdb_env_def ok(2,1) demo_sdb_ok(1)] r by blast
qed

section \<open>Self-destruction\<close>

lemma addTokens_no_error:
  assumes "getGasState d (makeAccountKey h) = Some (Inr gs)" and "0 \<le> n" and "addTokens h n d = Some (e, d')"
  shows "e = None"
  using assms by (auto simp: addTokens_def increaseBalance_def putGasState_def encode_gas_state_bytes Let_def sgn_if
      split: if_split_asm bind_split_asm sum.split_asm)

lemma readable_state:
  assumes "gas_books d b" and "b (fit 20 h) < 256 ^ MaxArraySize"
  obtains gs where "getGasState d (makeAccountKey h) = Some (Inr gs)" and "gas_GetBalance d h = Some (b (fit 20 h))"
proof -
  have "0 \<le> b (fit 20 h)" "account d h = (if b (fit 20 h) = 0 then None else Some (var_bytes (big_Bytes (b (fit 20 h)))))"
    using assms(1) by (simp_all add: gas_books_def)
  then show ?thesis
    using that balance_back [OF _ assms(2)]
    by (auto simp: key_eqs getGasState_eq GetBalance_eq balance_in_def split: if_splits)
qed

lemma tokens_added:
  assumes "dao_ok d" and "gas_books d b" and "b (fit 20 h) < 256 ^ MaxArraySize" and "0 \<le> n" and "NativeAccounts.amount_ok n"
  obtains d' where "gas_AddBalance h n d = Some d'" and "dao_ok d'" and "gas_books d' (b(fit 20 h := b (fit 20 h) + n))"
    and "items_kept {GASAddress} d d'"
proof -
  obtain e d' where d': "addTokens h n d = Some (e, d')"
    "e \<noteq> None \<and> d' = d \<or> e = None \<and> n = 0 \<and> d' = d \<or> e = None \<and> same_frame d d' \<and> gas_books d' (b(fit 20 h := b (fit 20 h) + n))"
    using addTokens_books [OF assms(1,2,5), of h] by (elim exE conjE) (rule that)
  obtain gs where "getGasState d (makeAccountKey h) = Some (Inr gs)" by (rule readable_state [OF assms(2,3)])
  then have "e = None" by (rule addTokens_no_error [OF _ assms(4) d'(1)])
  then have "dao_ok d'" "gas_books d' (b(fit 20 h := b (fit 20 h) + n))"
    using d'(2) assms(1,2) by (auto simp: same_frame_def)
  then show ?thesis using that d'(1) items_kept_tokens [OF d'(1)] by (simp add: gas_AddBalance_def)
qed

lemma GetContract_eq: "GetContract d a = (case item d ManagementAddress (1 # fit 20 a) of
     None \<Rightarrow> Some None
   | Some b \<Rightarrow> (case FromByteArray decode_contract b of (_, Some e) \<Rightarrow> None | (c, None) \<Rightarrow> Some (Some c)))"
  by (simp add: GetContract_def key_eqs)

lemma destroyed_keeps:
  assumes "dao_ok d" and "GetContract d a = Some c" and "fit 20 a \<noteq> ManagementAddress" and "gas_books d b"
  obtains ok d' where "Destroy a d = Some (ok, d')" and "gas_books d' b" and "GetContract d' a = GetContract d a"
proof (cases c)
  case None
  then show ?thesis using that assms by (simp add: Destroy_def)
next
  case (Some x)
  obtain d' where d': "DeleteStorageItem a (createContractKey a) d = Some d'"
    using DeleteStorageItem_total [OF assms(1), of "createContractKey a"] by (auto simp: key_eqs)
  note f = DeleteStorageItem_facts(4) [OF d' assms(1), unfolded key_eqs]
  have "account d' x = account d x" "recorded d' = recorded d" for x
    by (simp_all add: account_def recorded_def f totalSupplyKey_def)
  then have "gas_books d' b" using assms(4) by (simp add: gas_books_def)
  moreover have "GetContract d' a = GetContract d a" using assms(3) by (auto simp: GetContract_eq f)
  ultimately show ?thesis using that d' assms(2) Some by (simp add: Destroy_def)
qed

text \<open>
  C20. SELFDESTRUCT with another account as beneficiary creates GAS and destroys nothing: the balance
  of the contract is credited to the beneficiary, but it is not taken from the contract, and for every
  contract but the registry itself the deletion looks for the contract under its own address instead
  of that of the registry. Afterwards the beneficiary has its balance and that of the contract, the
  recorded supply has grown by the balance of the contract, the contract still has it, and its code
  is still there.
\<close>

theorem selfdestruct_mints:
  assumes "E = NewEVM lib cfg nt bctx origin price" and "stk f = beneficiary # st" and "\<not> readOnly (vm f)"
    and "self (ctr f) = addr" and "sdb_ok (db f)" and "d = Simple (last (layers (db f)))" and "dao_ok d" and "gas_books d b"
    and "GetContract d addr = Some c" and "fit 20 addr \<noteq> ManagementAddress" and "fit 20 addr \<noteq> fit 20 (Bytes20 beneficiary)"
    and "b (fit 20 addr) + b (fit 20 (Bytes20 beneficiary)) < 256 ^ MaxArraySize"
  shows "\<exists>f'. opSelfdestruct E run f = Halt None [] f' \<and>
     recorded (Simple (last (layers (db f')))) = recorded d + b (fit 20 addr) \<and>
     sdb_GetBalance (db f') (Bytes20 beneficiary) = Some (b (fit 20 (Bytes20 beneficiary)) + b (fit 20 addr)) \<and>
     sdb_GetBalance (db f') addr = Some (b (fit 20 addr)) \<and> sdb_GetCode (db f') addr = sdb_GetCode (db f) addr"
proof -
  let ?x = "b (fit 20 addr)" and ?h = "Bytes20 beneficiary"
  let ?b = "b(fit 20 ?h := b (fit 20 ?h) + ?x)" and ?m = "last (layers (db f))"
  have pos: "0 \<le> ?x" "0 \<le> b (fit 20 ?h)" using assms(8) by (simp_all add: gas_books_def)
  then have lt: "?x < 256 ^ MaxArraySize" "b (fit 20 ?h) < 256 ^ MaxArraySize" using assms(12) by linarith+
  have x: "0 \<le> ?x" "NativeAccounts.amount_ok ?x"
    using pos(1) lt(1) by (simp_all only: NativeAccounts.amount_ok_def abs_of_nonneg)
  have "gas_GetBalance d addr = Some ?x" by (rule readable_state [OF assms(8) lt(1)])
  then have bal: "sdb_GetBalance (db f) addr = Some ?x"
    using assms(5,6) by (simp add: sdb_GetBalance_def from_simple_def CurrentStore_last)
  obtain d1 where d1: "gas_AddBalance ?h ?x d = Some d1" "dao_ok d1" "gas_books d1 ?b" "items_kept {GASAddress} d d1"
    by (rule tokens_added [OF assms(7,8) lt(2) x])
  have c1: "GetContract d1 addr = GetContract d addr"
    using d1(4) assms(7) by (simp add: GetContract_eq items_kept_def)
  obtain ok d2 where d2: "Destroy addr d1 = Some (ok, d2)" "gas_books d2 ?b" "GetContract d2 addr = GetContract d1 addr"
    using destroyed_keeps [OF d1(2) _ assms(10) d1(3), of c] assms(9) c1 by metis
  define s1 where "s1 = set_current (?m\<lparr>Simple := d1\<rparr>) (db f)"
  define s2 where "s2 = set_current (?m\<lparr>Simple := d2\<rparr>) s1"
  have l1: "sdb_ok s1" "last (layers s1) = ?m\<lparr>Simple := d1\<rparr>"
    using set_current_layers [OF assms(5)] by (simp_all add: s1_def)
  have l2: "sdb_ok s2" "last (layers s2) = ?m\<lparr>Simple := d2\<rparr>"
    using set_current_layers [OF l1(1)] by (simp_all add: s2_def)
  have "sdb_AddBalance ?h ?x (db f) = Some s1"
    using d1(1) assms(5,6) by (simp add: sdb_AddBalance_def on_simple_def on_store_def CurrentStore_last s1_def)
  moreover have "sdb_Suicide addr s1 = Some s2"
    using d2(1) l1 by (simp add: sdb_Suicide_def on_simple_def on_store_def CurrentStore_last s2_def)
  ultimately have "\<exists>f'. opSelfdestruct E run f = Halt None [] f' \<and> db f' = s2"
    using assms(1-4) bal by (simp add: opSelfdestruct_def pop_def ask_def upd_def db_def set_db_def)
  moreover have "recorded d2 = recorded d + ?x"
    using d2(2) assms(8) sum_books [of "fit 20 ?h" b ?x] by (simp add: gas_books_def all_addresses_def)
  moreover have "gas_GetBalance d2 addr = Some ?x"
    using readable_state [OF d2(2), of addr] assms(11) lt(1) by auto
  moreover have "gas_GetBalance d2 ?h = Some (b (fit 20 ?h) + ?x)"
    by (rule readable_state [OF d2(2), of ?h]) (use assms(12) in \<open>simp_all add: add.commute\<close>)
  moreover have "mgmt_GetCode d2 addr = mgmt_GetCode d addr" by (simp add: mgmt_GetCode_def d2(3) c1)
  ultimately show ?thesis
    using l2 assms(5,6) by (auto simp: sdb_GetBalance_def sdb_GetCode_def from_simple_def CurrentStore_last)
qed

definition funded_dao :: simple where
  "funded_dao = the (gas_AddBalance (replicate 20 7) 5 (NewSimple (MemoryStore NewMemoryStore)))"

definition destruct_frame :: "statedb frame" where
  "destruct_frame = \<lparr>pc = 0, stk = [1], mstore = [], lastGasCost = 0, gas = 0,
     ctr = \<lparr>CallerAddress = [], self = replicate 20 7, Code = [], CodeHash = [], cgas = 0, cvalue = 0\<rparr>,
     input = [], vm = demo_sdb_evm\<lparr>statedb := NewStateDB funded_dao\<rparr>\<rparr>"

lemma funded:
  "dao_ok funded_dao" "gas_books funded_dao ((\<lambda>_. 0)(replicate 20 7 := 5))"
  "GetContract funded_dao (replicate 20 7) = Some None" "item funded_dao LedgerAddress k = None"
proof -
  let ?d = "NewSimple (MemoryStore NewMemoryStore)"
  have b: "gas_books ?d (\<lambda>_. 0)" by (simp add: empty_dao gas_books_def account_def recorded_def)
  have "(1::int) < 256 ^ MaxArraySize" by (rule one_less_power) (simp_all add: MaxArraySize_def)
  then have less: "(0::int) < 256 ^ MaxArraySize" by linarith
  have ok: "NativeAccounts.amount_ok 5" by (rule amount_okI) simp
  have five: "(0::int) \<le> 5" by simp
  have b5: "(\<lambda>_. 0)(fit 20 (replicate 20 7) := 0 + 5) = (\<lambda>_. 0 :: int)(replicate 20 7 := 5)" by simp
  obtain d' where d': "gas_AddBalance (replicate 20 7) 5 ?d = Some d'" "dao_ok d'"
      "gas_books d' ((\<lambda>_. 0)(replicate 20 7 := 5))" "items_kept {GASAddress} ?d d'"
    by (rule tokens_added [OF empty_dao(2) b less five ok, of "replicate 20 7", unfolded b5])
  then have f: "funded_dao = d'" by (simp add: funded_dao_def)
  show "dao_ok funded_dao" unfolding f by (rule d'(2))
  show "gas_books funded_dao ((\<lambda>_. 0)(replicate 20 7 := 5))" unfolding f by (rule d'(3))
  show "GetContract funded_dao (replicate 20 7) = Some None"
    using d'(4) unfolding f by (simp add: GetContract_eq items_kept_def empty_dao)
  show "item funded_dao LedgerAddress k = None"
    using d'(4) unfolding f by (simp add: items_kept_def empty_dao)
qed

lemma other_beneficiary: "fit 20 (replicate 20 7) \<noteq> fit 20 (Bytes20 1)"
  by code_simp

theorem selfdestruct_mints_witness:
  "\<exists>f'. opSelfdestruct (demo_sdb_env failing_native) (\<lambda>_ _ _ _. RunNoFuel) destruct_frame = Halt None [] f' \<and>
     recorded funded_dao = 5 \<and> recorded (Simple (last (layers (db f')))) = 10 \<and>
     sdb_GetBalance (db f') (replicate 20 7) = Some 5"
proof -
  have "sdb_ok (db destruct_frame)" "funded_dao = Simple (last (layers (db destruct_frame)))"
    by (simp_all add: destruct_frame_def db_def NewStateDB_def sdb_ok_def layers_def)
  moreover have "fit 20 (replicate 20 7) \<noteq> ManagementAddress"
    by (auto simp: ManagementAddress_def native_address_def dest: arg_cong [of _ _ hd])
  moreover have "fit 20 (replicate 20 7) \<noteq> fit 20 (Bytes20 1)"
    by (rule other_beneficiary)
  moreover have "(256::int) ^ 1 \<le> 256 ^ MaxArraySize" by (rule power_increasing) (simp_all add: MaxArraySize_def)
  moreover have "recorded funded_dao = 5"
    using funded(2) sum_books [of "replicate 20 7" "\<lambda>_. 0" 5] by (simp add: gas_books_def all_addresses_def)
  ultimately show ?thesis
    using selfdestruct_mints [OF demo_sdb_env_def, of destruct_frame 1 "[]" "replicate 20 7" funded_dao
        "(\<lambda>_. 0)(replicate 20 7 := 5)" None failing_native "\<lambda>_ _ _ _. RunNoFuel"] funded
    by (auto simp: destruct_frame_def demo_sdb_evm_def)
qed

section \<open>Block hashes\<close>

text \<open>
  A contract that asks for the hash of a recent block stops the node: the context that a block
  is executed in has no \<open>GetHash\<close> function, and BLOCKHASH calls it for every number among the last
  256 blocks.
\<close>

theorem blockhash_panics:
  assumes "NewContext lib cfg nt validators h from price = Some E" and "stk f = n # st"
    and "uint n < uint (h_Index h)" and "uint (h_Index h) \<le> uint n + 256"
  shows "opBlockhash E run f = VmPanic ''nil GetHash''"
proof -
  have E: "GetHash E = None" "BlockNumber E = uint (h_Index h)"
    using assms(1) by (auto simp: NewContext_def newEVMBlockContext_def NewEVM_def split: if_split_asm)
  have i: "uint (h_Index h) < 2 ^ 32" "0 \<le> uint n" using uint_bounded [of "h_Index h"] by simp_all
  then have w: "uint (ucast (h_Index h) :: u64) = uint (h_Index h)"
    by (simp add: unsigned_ucast_eq take_bit_int_eq_self)
  have n: "uint (Uint64 n) = uint n" "IsUint64 n"
    using i assms(3) by (simp_all add: Uint64_def IsUint64_def unsigned_ucast_eq take_bit_int_eq_self word_le_def)
  have "uint (ucast (h_Index h) - 256 :: u64) = uint (h_Index h) - 256"
    if "\<not> (ucast (h_Index h) :: u64) < 257"
    using that w by (simp add: uint_sub_if' word_less_def)
  then show ?thesis
    using assms n E w by (simp add: opBlockhash_def pop_def word_less_def word_le_def)
qed

definition first_header :: block_header where
  "first_header = \<lparr>h_Version = 0, h_PrevHash = [], h_MerkleRoot = [], h_Timestamp = 0, h_Nonce = 0, h_Index = 1,
     h_NextConsensus = [], h_Witness = \<lparr>InvocationScript = [], VerificationScript = []\<rparr>, h_PrimaryIndex = 0\<rparr>"

theorem blockhash_panics_witness:
  "\<exists>E. NewContext demo_vm_lib \<lparr>cfg_ChainID = 1, cfg_MaxBlockGas = 0\<rparr> failing_native [[]] first_header [] 0 = Some E \<and>
     opBlockhash E (\<lambda>_ _ _ _. RunNoFuel) (destruct_frame\<lparr>stk := [0]\<rparr>) = VmPanic ''nil GetHash''"
proof -
  obtain E where E: "NewContext demo_vm_lib \<lparr>cfg_ChainID = 1, cfg_MaxBlockGas = 0\<rparr> failing_native [[]] first_header [] 0 = Some E"
    by (simp add: NewContext_def newEVMBlockContext_def first_header_def)
  with blockhash_panics [OF E, of "destruct_frame\<lparr>stk := [0]\<rparr>" 0 "[]" "\<lambda>_ _ _ _. RunNoFuel"]
  show ?thesis by (simp add: first_header_def)
qed

end
