(* ===== verification/BridgeProps.thy ===== *)
theory BridgeProps
  imports ExecutionProps
begin

text \<open>
  Properties of single native contracts: the bridge, the policy and the designation of validators.
\<close>

section \<open>Deposits are minted once\<close>

text \<open>
  A record of 64 bytes under the key of a deposit is the mark that it was minted. No call of a
  native contract removes a mark.
\<close>

definition mint_mark :: "simple \<Rightarrow> bytes \<Rightarrow> bool" where
  "mint_mark d i \<longleftrightarrow> (\<exists>v. item d BridgeAddress (createDepositIdKey i) = Some v \<and> length v = 64)"

definition marks_kept :: "mem_store \<Rightarrow> mem_store \<Rightarrow> bool" where
  "marks_kept m m' \<longleftrightarrow> (dao_ok (Simple m) \<longrightarrow> dao_ok (Simple m') \<and> (\<forall>i. mint_mark (Simple m) i \<longrightarrow> mint_mark (Simple m') i))"

definition mark_write :: "address \<Rightarrow> bytes \<Rightarrow> bytes \<Rightarrow> bool" where
  "mark_write a k v \<longleftrightarrow> a \<in> native_keys \<and> (a = BridgeAddress \<and> deposit_key k \<longrightarrow> length v = 64)"

lemma deposit_key_id: "deposit_key (createDepositIdKey i)"
  by (simp add: deposit_key_def createDepositIdKey_def)

lemma fit_native: "a \<in> native_keys \<Longrightarrow> fit 20 a = a"
  by (auto simp: native_keys_def)

lemma marks_put:
  assumes "mark_write a k v" and "PutStorageItem a k v d = Some d'" and "dao_ok d" and "mint_mark d i"
  shows "dao_ok d' \<and> mint_mark d' i"
proof -
  note f = PutStorageItem_facts [OF assms(2,3)]
  have "fit 20 BridgeAddress = BridgeAddress" by simp
  then have "mint_mark d' i"
    using assms(1,4) deposit_key_id [of i] fit_native [of a] by (auto simp: mint_mark_def f(4) mark_write_def)
  then show ?thesis using f(1) by blast
qed

lemma marks_items: "items_kept S (Simple m) (Simple m') \<Longrightarrow> BridgeAddress \<notin> S \<Longrightarrow> marks_kept m m'"
  by (auto simp: items_kept_def marks_kept_def mint_mark_def)

interpretation marks: native_frame marks_kept "\<lambda>_. True" mark_write
proof unfold_locales
  fix a k v d and m :: mem_store
  assume "mark_write a k v" and "PutStorageItem a k v (Simple m) = Some d"
  then show "marks_kept m (m\<lparr>Simple := d\<rparr>)"
    using marks_put PutStorageItem_facts(1) [of a k v "Simple m" d] by (auto simp: marks_kept_def)
next
  fix a k d and m :: mem_store
  assume "a = PolicyAddress" and "DeleteStorageItem a k (Simple m) = Some d"
  then show "marks_kept m (m\<lparr>Simple := d\<rparr>)"
    using marks_items [of "{PolicyAddress}" m "m\<lparr>Simple := d\<rparr>"] items_kept_delete [of PolicyAddress "{PolicyAddress}" k]
    by (simp add: PolicyAddress_def BridgeAddress_def native_address_def)
next
  fix n h e d and m :: mem_store
  assume "addTokens h n (Simple m) = Some (e, d)"
  then show "marks_kept m (m\<lparr>Simple := d\<rparr>)"
    using marks_items [of "{GASAddress}" m "m\<lparr>Simple := d\<rparr>"] items_kept_tokens by simp
qed (auto simp: marks_kept_def mark_write_def)

lemma nbindE:
  assumes "nbind f k m = Some (Inr y, m')"
  obtains x m1 where "f m = Some (Inr x, m1)" and "k x m1 = Some (Inr y, m')"
  using assms by (auto simp: nbind_def split: option.splits sum.splits prod.splits)

lemma nread_Inr:
  assumes "nread f m = Some (Inr x, m')"
  shows "f (Simple m) = Some x" and "m' = m"
  using assms by (cases "f (Simple m)"; simp add: nread_def)+

lemma nfail_not [simp]: "nfail e m \<noteq> Some (Inr x, m')" "npanic m \<noteq> Some r"
  by (simp_all add: nfail_def npanic_def)

lemma nreturnE [simp]: "nreturn x m = Some (Inr y, m') \<longleftrightarrow> y = x \<and> m' = m"
  by (auto simp: nreturn_def)

lemma verifyState_same: "verifyState K hi t tp si sp m = Some (Inr x, m') \<Longrightarrow> m' = m"
  by (rule same.keepsD [OF same.keeps_verify(2)])

lemma saved_mark:
  assumes "saveMintedState ic i t m = Some (Inr (), m')" and "length (ic_TxHash ic) = 32" and "length t = 32" and "dao_ok (Simple m)"
  shows "dao_ok (Simple m')" and "mint_mark (Simple m') i"
proof -
  obtain d where d: "PutStorageItem BridgeAddress (createDepositIdKey i) (t @ ic_TxHash ic) (Simple m) = Some d" "m' = m\<lparr>Simple := d\<rparr>"
    using assms(1) by (auto simp: saveMintedState_def bridge_put_def minted_Bytes_def nwrite_def)
  show "dao_ok (Simple m')" "mint_mark (Simple m') i"
    using PutStorageItem_facts [OF d(1) assms(4)] d(2) assms(2,3) by (simp_all add: mint_mark_def)
qed

lemma marks_tokens: "ntokens (gas_Mint h n) m = Some (r, m') \<Longrightarrow> marks_kept m m'"
  unfolding gas_Mint_def by (rule marks.keepsD [OF marks.keeps_tokens [OF TrueI]])

lemma mint_deposit_marks:
  assumes "mint_deposit ic t i ds m = Some (Inr (), m')" and "length (ic_TxHash ic) = 32" and "length t = 32" and "dao_ok (Simple m)"
  shows "mint_mark (Simple m') i"
proof -
  obtain m1 m2 m3 where "ntokens (gas_Mint (ds_to ds) ((sint (ds_amount ds) - BaseBonous) * tenGWei)) m = Some (Inr (), m1)"
    and s: "saveMintedState ic i t m1 = Some (Inr (), m2)" and "mintBonous ic BaseBonous m2 = Some (Inr (), m3)"
    and "native_log ic BridgeAddress (big_Bytes (sint (ds_amount ds) - BaseBonous)) [t, BytesToHash (ds_to ds)] m3 = Some (Inr (), m')"
    using assms(1) by (auto simp: mint_deposit_def Let_def split: if_splits elim!: nbindE)
  then have m1: "marks_kept m m1" and m3: "marks_kept m2 m3" and m': "marks_kept m3 m'"
    by (auto simp: mintBonous_def intro: marks_tokens marks.keepsD [OF marks.keeps_log])
  have "dao_ok (Simple m1)" using m1 assms(4) by (simp add: marks_kept_def)
  from saved_mark [OF s assms(2,3) this] show ?thesis using m3 m' by (simp add: marks_kept_def)
qed

lemma requestMint_success:
  assumes "requestMint K b ic hi t tp si sp m = Some (Inr (), m')" and "length (ic_TxHash ic) = 32" and "dao_ok (Simple m)"
  obtains ky val where "verifyState K hi (BytesToHash (big_Bytes t)) tp si sp m = Some (Inr (ky, val), m)"
    and "getMintedState (drop 5 ky) (Simple m) = Some None" and "mint_mark (Simple m') (drop 5 ky)"
proof -
  let ?t = "BytesToHash (big_Bytes t)"
  obtain ky val m0 ok m1 minted m2 ds m3 where "verifyState K hi ?t tp si sp m = Some (Inr (ky, val), m0)"
    "nwitness (isMintRequest b ky) m0 = Some (Inr ok, m1)" "nread (getMintedState (drop 5 ky)) m1 = Some (Inr minted, m2)"
    "minted = None" "nresult (newDepositStateFromBytes val) m2 = Some (Inr ds, m3)"
    "mint_deposit ic ?t (drop 5 ky) ds m3 = Some (Inr (), m')"
    using assms(1) by (auto simp: requestMint_def Let_def split: if_splits elim!: nbindE)
  moreover from this have "m0 = m" "m1 = m0" "m2 = m1" "m3 = m2"
    using verifyState_same same.keepsD [OF same.keeps_pure(7)] nread_Inr(2) same.keepsD [OF same.keeps_pure(4)] by metis+
  moreover have "length ?t = 32" by (simp add: BytesToHash_def Let_def)
  ultimately show ?thesis
    using that [of ky val] mint_deposit_marks [OF _ assms(2) _ assms(3)] nread_Inr(1) by metis
qed

text \<open>Any number of calls of native contracts, in transactions of any kind.\<close>

inductive native_steps :: "contracts \<Rightarrow> mem_store \<Rightarrow> mem_store \<Rightarrow> bool" for cs where
  none: "native_steps cs m m"
| call: "native_steps cs m m' \<Longrightarrow> native_contracts cs ic addr = Some (req, body) \<Longrightarrow> length (ic_TxHash ic) = 32 \<Longrightarrow>
    body caller inp m' = Some (r, m'') \<Longrightarrow> native_steps cs m m''"

lemma native_steps_marks: "native_steps cs m m' \<Longrightarrow> marks_kept m m'"
proof (induction rule: native_steps.induct)
  case (call m m' ic addr req body caller inp r m'')
  have "marks_kept m' m''"
    by (rule marks.native_contracts_R [OF _ _ call.hyps(2,4)]) (simp_all add: mark_write_def native_keys_def call.hyps(3))
  then show ?case using call.IH marks.trans by blast
qed (rule marks.refl)

lemma mark_not_free: "mint_mark d i \<Longrightarrow> getMintedState i d \<noteq> Some None"
  by (auto simp: mint_mark_def getMintedState_def bridge_get_def GetStorageItem_eq split: if_splits)

text \<open>
  C19. A deposit is minted at most once: when the mark of a deposit is in the storage, then after any
  calls of native contracts a request for minting that succeeds has proved another deposit, and
  leaves the mark of that one.
\<close>

theorem deposit_minted_once:
  assumes "dao_ok (Simple m)" and "mint_mark (Simple m) i" and "native_steps cs m m'"
  shows "length (ic_TxHash ic) = 32 \<longrightarrow> requestMint K b ic hi t tp si sp m' = Some (Inr (), m'') \<longrightarrow>
    (\<exists>ky val. verifyState K hi (BytesToHash (big_Bytes t)) tp si sp m' = Some (Inr (ky, val), m') \<and>
       drop 5 ky \<noteq> i \<and> mint_mark (Simple m'') (drop 5 ky))"
proof -
  have m': "dao_ok (Simple m')" "mint_mark (Simple m') i"
    using native_steps_marks [OF assms(3)] assms(1,2) by (simp_all add: marks_kept_def)
  show ?thesis
  proof (intro impI)
    assume hash: "length (ic_TxHash ic) = 32" and mint: "requestMint K b ic hi t tp si sp m' = Some (Inr (), m'')"
    obtain ky val where "verifyState K hi (BytesToHash (big_Bytes t)) tp si sp m' = Some (Inr (ky, val), m')"
      "getMintedState (drop 5 ky) (Simple m') = Some None" "mint_mark (Simple m'') (drop 5 ky)"
      by (rule requestMint_success [OF mint hash m'(1)])
    then show "\<exists>ky val. verifyState K hi (BytesToHash (big_Bytes t)) tp si sp m' = Some (Inr (ky, val), m') \<and>
       drop 5 ky \<noteq> i \<and> mint_mark (Simple m'') (drop 5 ky)"
      using mark_not_free m'(2) by metis
  qed
qed

definition demo_layer :: mem_store where
  "demo_layer = \<lparr>Simple = NewSimple (MemoryStore NewMemoryStore), fund = 0, preimages = Map.empty, logs = [],
     accesslist = newAccessList\<rparr>"

theorem deposit_minted_once_witness:
  "\<exists>m. saveMintedState (demo_ic\<lparr>ic_TxHash := replicate 32 1\<rparr>) [9] (replicate 32 0) demo_layer = Some (Inr (), m) \<and>
     (\<forall>K b ic hi t tp si sp m''. length (ic_TxHash ic) = 32 \<longrightarrow> requestMint K b ic hi t tp si sp m = Some (Inr (), m'') \<longrightarrow>
       (\<exists>ky val. verifyState K hi (BytesToHash (big_Bytes t)) tp si sp m = Some (Inr (ky, val), m) \<and> drop 5 ky \<noteq> [9] \<and>
          mint_mark (Simple m'') (drop 5 ky)))"
proof -
  have ok: "dao_ok (Simple demo_layer)" by (simp add: demo_layer_def empty_dao)
  obtain d where "PutStorageItem BridgeAddress (createDepositIdKey [9]) (replicate 32 0 @ replicate 32 1) (Simple demo_layer) = Some d"
    using PutStorageItem_total [OF ok, of "createDepositIdKey [9]"] by (auto simp: createDepositIdKey_def)
  then have save: "saveMintedState (demo_ic\<lparr>ic_TxHash := replicate 32 1\<rparr>) [9] (replicate 32 0) demo_layer =
      Some (Inr (), demo_layer\<lparr>Simple := d\<rparr>)"
    by (simp add: saveMintedState_def bridge_put_def minted_Bytes_def nwrite_def)
  from saved_mark [OF save _ _ ok] show ?thesis
    using save deposit_minted_once [OF _ _ native_steps.none] by fastforce
qed

section \<open>Witnesses of the main chain\<close>

definition main_key :: "bridge_lib \<Rightarrow> public_key \<Rightarrow> bool" where
  "main_key K pk \<longleftrightarrow> curve_ok (b_P256 K) \<and> valid_key (b_P256 K) pk \<and> pk \<noteq> Infinity"

lemma main_key_bytes:
  assumes "main_key K pk"
  shows "length (getBytes True pk) = 33" and "NewPublicKeyFromBytes (b_P256 K) (getBytes True pk) = Inr pk"
proof -
  obtain x y where pk: "pk = Point x y" using assms by (cases pk) (simp_all add: main_key_def)
  have "0 \<le> x" "x < 256 ^ coordLen" using assms pk by (auto simp: main_key_def curve_ok_def coordLen_def)
  then obtain b where "FillBytes coordLen x = Some b" "length b = coordLen" by (rule FillBytes_SetBytes)
  then show "length (getBytes True pk) = 33" by (simp add: pk coordLen_def)
  show "NewPublicKeyFromBytes (b_P256 K) (getBytes True pk) = Inr pk"
    using key_codec.dec_bytes [of "b_P256 K" pk "[]"] assms
    by (simp add: main_key_def NewPublicKeyFromBytes_def decode_key_bytes_def NewBinReaderFromBuf_def)
qed

definition key_push :: "public_key \<Rightarrow> bytes" where
  "key_push pk = [PUSHDATA1, 33] @ fit 33 (getBytes True pk)"

lemma length_key_push [simp]: "length (key_push pk) = 35" "length (concat (map key_push pks)) = 35 * length pks"
  by (simp add: key_push_def) (induction pks; simp add: key_push_def)

lemma collect_keys_pushes:
  assumes "\<forall>pk \<in> set pks. main_key K pk" and "rest \<noteq> []" and "hd rest \<noteq> PUSHDATA1"
  shows "collect_keys (b_P256 K) (pre @ concat (map key_push pks) @ rest) (length pre) acc =
    Some (length pre + 35 * length pks, acc @ pks)"
  using assms(1)
proof (induction pks arbitrary: pre acc)
  case Nil
  then show ?case using assms(2,3) by (subst collect_keys.simps) (simp add: nth_append hd_conv_nth)
next
  case (Cons pk pks)
  define script where "script = pre @ concat (map key_push (pk # pks)) @ rest"
  have k: "main_key K pk" using Cons.prems by simp
  have "script ! length pre = PUSHDATA1" "script ! (length pre + 1) = 33"
    by (simp_all add: script_def nth_append key_push_def)
  moreover have "take 33 (drop (length pre + 2) script) = getBytes True pk"
    using main_key_bytes(1) [OF k] by (simp add: script_def key_push_def)
  moreover have "\<not> length script \<le> length pre + 35" using assms(2) by (simp add: script_def)
  ultimately have "collect_keys (b_P256 K) script (length pre) acc = collect_keys (b_P256 K) script (length pre + 35) (acc @ [pk])"
    using main_key_bytes(2) [OF k] by (subst collect_keys.simps) simp
  also have "\<dots> = Some (length (pre @ key_push pk) + 35 * length pks, (acc @ [pk]) @ pks)"
    using Cons.IH [of "pre @ key_push pk" "acc @ [pk]"] Cons.prems by (simp add: script_def)
  finally show ?case by (simp add: script_def)
qed

lemma main_script_parsed:
  assumes "\<forall>pk \<in> set pks. main_key K pk" and "pks \<noteq> []" and "length pks \<le> 255"
  shows "isMainSingleSignature K (createMainDefaultMultiSigRedeemScript pks) = None"
    and "isMainMultiSignature K (createMainDefaultMultiSigRedeemScript pks) = Some (GetDefaultHonestNodeCount (length pks), pks)"
proof -
  let ?n = "length pks" and ?m = "GetDefaultHonestNodeCount (length pks)"
  let ?rest = "[PUSHINT8, of_nat ?n, SYSCALL] @ put_le 4 SystemCryptoCheckMultisig"
  define script where "script = [PUSHINT8, of_nat ?m] @ concat (map key_push pks) @ ?rest"
  have s: "createMainDefaultMultiSigRedeemScript pks = script"
    by (simp add: script_def createMainDefaultMultiSigRedeemScript_def key_push_def [abs_def])
  have len: "length script = 9 + 35 * ?n" by (simp add: script_def)
  have n: "1 \<le> ?n" using assms(2) by (cases pks) simp_all
  then have m: "1 \<le> ?m" "?m \<le> ?n" by (simp_all add: GetDefaultHonestNodeCount_def)
  have small: "unat (of_nat ?m :: byte) = ?m" "unat (of_nat ?n :: byte) = ?n"
    using m assms(3) by (simp_all add: unat_of_nat take_bit_nat_eq_self)
  show "isMainSingleSignature K (createMainDefaultMultiSigRedeemScript pks) = None"
    unfolding s isMainSingleSignature_def len by presburger
  have "script_threshold script = Some (?m, 2)" by (simp add: script_def script_threshold_def small)
  moreover have "collect_keys (b_P256 K) script 2 [] = Some (2 + 35 * ?n, pks)"
  proof -
    have "?rest \<noteq> []" "hd ?rest \<noteq> PUSHDATA1" by (simp_all add: PUSHINT8_def PUSHDATA1_def)
    from collect_keys_pushes [OF assms(1) this, of "[PUSHINT8, of_nat ?m]" "[]"]
    show ?thesis unfolding script_def append_Nil by (simp add: numeral_2_eq_2)
  qed
  moreover have at: "script ! (2 + 35 * ?n + j) = ?rest ! j" for j by (simp add: script_def nth_append)
  have "script_count script (2 + 35 * ?n) ?n = Some (4 + 35 * ?n)"
    using at [of 0] at [of 1] len small(2) by (simp add: script_count_def)
  moreover have "script ! (4 + 35 * ?n) = SYSCALL" using at [of 2] by (simp add: eval_nat_numeral)
  moreover have "drop (5 + 35 * ?n) script = put_le 4 SystemCryptoCheckMultisig"
    using drop_append [of "5 + 35 * ?n" "[PUSHINT8, of_nat ?m] @ concat (map key_push pks) @ [PUSHINT8, of_nat ?n, SYSCALL]"
        "put_le 4 SystemCryptoCheckMultisig"] by (simp add: script_def)
  ultimately show "isMainMultiSignature K (createMainDefaultMultiSigRedeemScript pks) = Some (?m, pks)"
    using len n m assms(3) unfolding s isMainMultiSignature_def
    by (simp add: get_put_le)
qed

text \<open>
  A witness that presents the validators' own multisignature script without signatures makes the
  node panic: for any list of one to 255 keys of the main chain, the script that the bridge itself
  derives from them together with an empty invocation script ends in an index out of range instead
  of being rejected, for every message and configuration.
\<close>

theorem unsigned_main_witness_panics:
  assumes "\<forall>pk \<in> set pks. main_key K pk" and "pks \<noteq> []" and "length pks \<le> 255"
  shows "verifyMainWitness K b h
    \<lparr>InvocationScript = [], VerificationScript = createMainDefaultMultiSigRedeemScript pks\<rparr> = None"
proof -
  obtain pk pks' where pks: "pks = pk # pks'" using assms(2) by (cases pks) simp_all
  have "0 < GetDefaultHonestNodeCount (length pks)"
    using assms(2) by (cases pks) (simp_all add: GetDefaultHonestNodeCount_def)
  then show ?thesis
    using main_script_parsed [OF assms]
    by (simp add: verifyMainWitness_def getMainMultiSignatures.simps [of "[]"] pks)
qed

theorem unsigned_main_witness_panics_witness:
  "verifyMainWitness (cs_K demo_contracts) (cs_Bridge demo_contracts) []
    \<lparr>InvocationScript = [], VerificationScript = createMainDefaultMultiSigRedeemScript [Point 1 2, Point 1 1]\<rparr> = None"
  by (rule unsigned_main_witness_panics)
    (simp_all add: demo_contracts_def main_key_def tiny_curve_ok tiny_simps)

section \<open>Joints\<close>

lemma le_words_put: "le_words (concat (map (put_le 4) js)) = js"
proof (induction js)
  case (Cons j js)
  have "put_le 4 j \<noteq> []" by (metis length_put_le list.size(3) zero_neq_numeral)
  then show ?case using Cons by (subst le_words.simps) (simp add: get_put_le)
qed (simp add: le_words.simps)

lemma joints_eq: "joints k d = (if length (or_nil (item d BridgeAddress [k])) mod 4 \<noteq> 0 then None
    else Some (le_words (or_nil (item d BridgeAddress [k]))))"
  by (simp add: joints_def bridge_get_def)

lemma joints_saved:
  assumes "dao_ok (Simple m)"
  shows "\<exists>m'. saveJoints k js m = Some (Inr (), m') \<and> dao_ok (Simple m') \<and> joints k (Simple m') = Some js"
proof -
  obtain d where d: "PutStorageItem BridgeAddress [k] (concat (map (put_le 4) js)) (Simple m) = Some d"
    using PutStorageItem_total [OF assms, of "[k]"] by auto
  have "length (concat (map (put_le 4) js)) = 4 * length js" by (induction js) simp_all
  then show ?thesis
    using d PutStorageItem_facts [OF d assms]
    by (simp add: saveJoints_def bridge_put_def nwrite_def joints_eq le_words_put or_nil_def)
qed

text \<open>
  The bridge forgets where the validators of the main chain changed: when one joint is recorded,
  adding the next one, whatever its height, records two zeros, since the loop that should find its
  place starts at the last index and does not run. From then on the last joint of every height is
  zero. With a later joint recorded, looking up a height before it runs off the end of the list and
  panics.
\<close>

theorem second_joint_lost:
  assumes "dao_ok (Simple m)" and "joints k (Simple m) = Some [j]"
    and "joints k (Simple m2) = Some (js @ [j2])" and "js \<noteq> []" and "index2 < j2"
  shows "(\<exists>m'. addJoint k i m = Some (Inr (), m') \<and> (\<forall>index. lastJoint k index (Simple m') = Some 0)) \<and>
    lastJoint k index2 (Simple m2) = None"
proof -
  obtain m' where m': "saveJoints k [0, 0] m = Some (Inr (), m')" "joints k (Simple m') = Some [0, 0]"
    using joints_saved [OF assms(1), of k "[0, 0]"] by blast
  have "add_joint_loop [j] i 0 = Some [0, 0]" by (simp add: add_joint_loop.simps numeral_2_eq_2)
  then have "addJoint k i m = Some (Inr (), m')"
    using assms(2) m'(1) by (simp add: addJoint_def nbind_def nread_def)
  moreover have "lastJoint k index (Simple m') = Some 0" for index
    using m'(2) by (simp add: lastJoint_def joint_loop.simps)
  moreover have "lastJoint k index2 (Simple m2) = None"
    using assms(3-5) by (simp add: lastJoint_def joint_loop.simps [of _ _ "length js"] joint_loop.simps [of _ _ "Suc (length js)"] nth_append)
  ultimately show ?thesis by blast
qed

theorem second_joint_lost_witness:
  "\<exists>m m'. saveJoints JointHeadersKey [0] demo_layer = Some (Inr (), m) \<and> addJoint JointHeadersKey 7 m = Some (Inr (), m') \<and>
     lastJoint JointHeadersKey 9 (Simple m') = Some 0"
proof -
  have ok: "dao_ok (Simple demo_layer)" by (simp add: demo_layer_def empty_dao)
  obtain m where m: "saveJoints JointHeadersKey [0] demo_layer = Some (Inr (), m)" "dao_ok (Simple m)" "joints JointHeadersKey (Simple m) = Some [0]"
    using joints_saved [OF ok] by blast
  obtain m2 :: mem_store where m2: "joints JointHeadersKey (Simple m2) = Some ([0] @ [5])" using joints_saved [OF ok, of JointHeadersKey "[0] @ [5]"] by blast
  from second_joint_lost [OF m(2,3) m2, of 3 7] m(1) show ?thesis by auto
qed

end
