(* ===== verification/StateCommit.thy ===== *)
theory StateCommit
  imports ExecutionProps
begin

text \<open>
  Committing the state database. While a transaction runs, every layer is a private cache over the
  store of the layer below (\<open>stacked\<close>): the writes of the machine and of the native contracts reach
  the cache on top only. \<open>Commit\<close> then moves the caches down one after the other.
\<close>

section \<open>Writes stay in the top cache\<close>

definition rewritten :: "simple \<Rightarrow> simple \<Rightarrow> bool" where
  "rewritten d d' \<longleftrightarrow> Version d' = Version d \<and>
     (\<forall>c p low. simple.Store d = MemCachedStore c p low \<and> wf_mem c \<longrightarrow>
       (\<exists>c'. simple.Store d' = MemCachedStore c' p low \<and> wf_mem c'))"

lemma rewritten_refl [simp]: "rewritten d d"
  by (simp add: rewritten_def)

lemma rewritten_trans: "rewritten d d' \<Longrightarrow> rewritten d' d'' \<Longrightarrow> rewritten d d''"
  by (fastforce simp: rewritten_def)

lemma rewritten_put: "PutStorageItem a k v d = Some d' \<Longrightarrow> rewritten d d'"
  by (auto simp: PutStorageItem_def rewritten_def split: bind_splits sum.splits) (blast intro: putChosen_wf)

lemma rewritten_delete: "DeleteStorageItem a k d = Some d' \<Longrightarrow> rewritten d d'"
  by (auto simp: DeleteStorageItem_def rewritten_def split: bind_splits sum.splits) (blast intro: putChosen_wf)

lemma rewritten_tokens: "addTokens h n d = Some (e, d') \<Longrightarrow> rewritten d d'"
  by (auto simp: addTokens_def putGasState_def saveTotalSupply_def Let_def
      split: if_split_asm bind_split_asm sum.split_asm
      intro: rewritten_trans [OF rewritten_put rewritten_put] rewritten_trans [OF rewritten_delete rewritten_put])

interpretation caches: native_frame "\<lambda>m m'. rewritten (Simple m) (Simple m')" "\<lambda>_. True" "\<lambda>_ _ _. True"
  by unfold_locales (auto intro: rewritten_trans rewritten_put rewritten_delete rewritten_tokens)

lemma native_rewritten:
  assumes "native_contracts cs ic a = Some (req, body)" and "body caller inp m = Some (r, m')"
  shows "rewritten (Simple m) (Simple m')"
  by (rule caches.native_contracts_R [OF _ _ assms]) simp_all

section \<open>Stacks of caches\<close>

definition above_layer :: "mem_store \<Rightarrow> mem_store \<Rightarrow> bool" where
  "above_layer b m \<longleftrightarrow> Version (Simple m) = Version (Simple b) \<and>
     (\<exists>c. wf_mem c \<and> simple.Store (Simple m) = MemCachedStore c True (simple.Store (Simple b)))"

definition stacked :: "statedb \<Rightarrow> bool" where
  "stacked s \<longleftrightarrow> sdb_ok s \<and> sdb_Err s = None \<and> successively above_layer (layers s)"

lemma stacked_NewStateDB: "stacked (NewStateDB d)"
  by (simp add: stacked_def NewStateDB_def sdb_ok_def layers_def)

lemma stacked_set:
  assumes "stacked s" and "rewritten (Simple (last (layers s))) (Simple m)"
  shows "stacked (set_current m s)"
proof -
  have s: "sdb_ok s" "successively above_layer (layers s)" using assms(1) by (simp_all add: stacked_def)
  note l = set_current_layers [OF s(1), of m]
  obtain xs x where x: "layers s = xs @ [x]" by (metis rev_exhaust layers_not_Nil(1))
  have "above_layer b x \<Longrightarrow> above_layer b m" for b
    using assms(2) x by (fastforce simp: above_layer_def rewritten_def)
  then have "successively above_layer (butlast (layers s) @ [m])"
    using s(2) by (auto simp: x successively_append_iff)
  then show ?thesis using assms(1) l by (simp add: stacked_def)
qed

lemma stacked_store:
  assumes "stacked s" and "on_store f s = Some s'" and "\<And>m m'. f m = Some m' \<Longrightarrow> rewritten (Simple m) (Simple m')"
  shows "stacked s'"
proof -
  have "sdb_ok s" using assms(1) by (simp add: stacked_def)
  then show ?thesis using on_store_top [OF assms(2)] stacked_set [OF assms(1)] assms(3) by metis
qed

lemma stacked_simple:
  assumes "stacked s" and "on_simple f s = Some s'" and "\<And>d d'. f d = Some d' \<Longrightarrow> rewritten d d'"
  shows "stacked s'"
  using assms(2) unfolding on_simple_def by (rule stacked_store [OF assms(1)]) (auto dest: assms(3))

lemma stacked_snapshot:
  assumes "stacked s" and "Snapshot s = Some (i, s')"
  shows "stacked s'"
proof -
  have ok: "sdb_ok s" using assms(1) by (simp add: stacked_def)
  have "above_layer m (clone m)" for m
    by (auto simp: above_layer_def clone_def GetPrivate_def NewPrivateMemCachedStore_def NewMemoryStore_def wf_mem_def wf_map_def)
  moreover have "sdb_Err s' = sdb_Err s" using assms(2) by (auto simp: Snapshot_def split: bind_splits)
  ultimately show ?thesis
    using layers_snapshot [OF ok assms(2)] assms(1) by (simp add: stacked_def successively_append_iff)
qed

lemma stacked_revert:
  assumes "stacked t" and "RevertToSnapshot i t = Some t'"
  shows "stacked t'"
proof -
  note r = layers_revert [of t i t', OF _ assms(2)]
  have "successively above_layer (take n (layers t))" for n
    using assms(1) successively_append_iff [of above_layer "take n (layers t)" "drop n (layers t)"]
    by (simp add: stacked_def)
  moreover have "sdb_Err t' = sdb_Err t" using assms(2) by (auto simp: RevertToSnapshot_def split: if_splits)
  ultimately show ?thesis using r assms(1) by (simp add: stacked_def)
qed

section \<open>Every run keeps the stack\<close>

interpretation stack: db_closed "NewEVM lib cfg (native_contracts cs ic) bctx origin price" stacked True "\<lambda>_. True"
  for lib cfg cs ic bctx origin price
proof (unfold_locales, unfold NewEVM_simps sdb_simps)
  fix s s' i
  assume "stacked s" and "Snapshot s = Some (i, s')"
  then show "stacked s' \<and> (\<forall>t t'. stacked t \<longrightarrow> RevertToSnapshot i t = Some t' \<longrightarrow> stacked t')"
    using stacked_snapshot stacked_revert by blast
next
  fix s s' a n caller inp r
  assume s: "stacked s" and n: "map_option (\<lambda>(required, body). nativeWrapper required body) (native_contracts cs ic a) = Some n"
    and run: "n_Run n caller inp s = Some (r, s')"
  obtain req body m where "native_contracts cs ic a = Some (req, body)" "body caller inp (last (layers s)) = Some (r, m)"
    "s' = set_current m s"
    by (rule native_top [of "native_contracts cs ic", OF n run]) (use s in \<open>auto simp: stacked_def\<close>)
  then show "stacked s'" using stacked_set [OF s] native_rewritten by metis
qed (auto simp: sdb_writes sdb_CreateAccount_def gas_AddBalance_def ledger_SetNonce_def mgmt_SetCode_def Destroy_def Let_def
    split: bind_splits sum.splits option.splits elim!: stacked_store [rotated] stacked_simple [rotated]
    intro: rewritten_put rewritten_delete rewritten_tokens)

lemma stacked_result:
  assumes "E = NewEVM lib cfg (native_contracts cs ic) bctx origin price" and "stacked (statedb e)"
    and "Ran err ret g' e' \<in> {Call E (Run E (base_table E) n) caller addr inp g amount e,
      snd (Create E (Run E (base_table E) n) caller inp g amount e)}"
  shows "stacked (statedb e')"
proof -
  let ?E = "NewEVM lib cfg (native_contracts cs ic) bctx origin price"
  have j: "db_closed.J stacked (readOnly e) (depth e) e" using assms(2) by (simp add: stack.J_def)
  have run: "db_closed.rsafe stacked ro d (Run ?E (base_table ?E) n c inp ro' e)" if "db_closed.J stacked ro d e" for ro d c inp ro' e
    by (rule stack.Run_safe [OF _ _ that]) simp_all
  have "db_closed.rsafe stacked (readOnly e) (depth e) (Call ?E (Run ?E (base_table ?E) n) caller addr inp g amount e)"
    by (rule stack.Call_safe [OF j _ run]) simp_all
  moreover have "db_closed.rsafe stacked (readOnly e) (depth e) (snd (Create ?E (Run ?E (base_table ?E) n) caller inp g amount e))"
    using stack.create_safe [OF _ _ j run] by (simp add: Create_def split: option.split)
  ultimately have "db_closed.rsafe stacked (readOnly e) (depth e) (Ran err ret g' e')"
    using assms(3) unfolding assms(1) by (elim insertE emptyE) (erule ssubst, assumption)+
  then show ?thesis by (simp add: stack.J_def)
qed

section \<open>Commit\<close>

lemma persist_down:
  assumes "simple.Store d = MemCachedStore c True low" and "wf_mem c"
  obtains n d' where "dao_Persist memory_sink d = (n, None, d')"
    and "\<forall>x k. StoreGet (store_below (simple.Store d') x) k = StoreGet (simple.Store d) k"
    and "\<forall>x. store_below (simple.Store d') x \<in> {low, PutChangeSet (mem c) (stor c) low}"
proof (cases "length (mem c) + length (stor c) = 0")
  case True
  have "StoreGet low k = StoreGet (MemCachedStore c True low) k" for k
    using True StoreGet_PutChangeSet [OF assms(2), of low k True]
    by (cases low) (simp_all add: putChangeSet_def put_all_def)
  then show ?thesis
    using that [of 0 d] True assms
    by (simp add: dao_Persist_def persist_def persist_private_def store_below_def)
next
  case False
  let ?d = "d\<lparr>simple.Store := MemCachedStore \<lparr>mem = [], stor = []\<rparr> True (PutChangeSet (mem c) (stor c) low)\<rparr>"
  have "\<not> (mem c = [] \<and> stor c = [])" using False by simp
  then have "dao_Persist memory_sink d = (length (mem c) + length (stor c), None, ?d)"
    using assms(1) by (auto simp: dao_Persist_def persist_def persist_private_def memory_sink_def)
  then show ?thesis
    using StoreGet_PutChangeSet [OF assms(2), of low _ True] assms(1)
    by (intro that [of _ ?d]) (simp_all add: store_below_def)
qed

lemma above_layer_moved:
  assumes "above_layer b m" and "st \<in> {simple.Store (Simple m), PutChangeSet puts stores (simple.Store (Simple m))}"
  shows "above_layer b (set_store st m)"
  using assms by (auto simp: above_layer_def set_store_def wf_putChangeSet)

lemma set_store_simps [simp]: "simple.Store (Simple (set_store st m)) = st" "Version (Simple (set_store st m)) = Version (Simple m)"
  by (simp_all add: set_store_def)

lemma commit_layers_view:
  assumes "successively (\<lambda>m b. above_layer b m) (ms @ [base])"
  shows "\<exists>base'. commit_layers base ms = (None, base', []) \<and> Version (Simple base') = Version (Simple base) \<and>
     (dao_ok (Simple base) \<longrightarrow> dao_ok (Simple base')) \<and>
     (\<forall>k. StoreGet (simple.Store (Simple base')) k = StoreGet (simple.Store (Simple (hd (ms @ [base])))) k)"
  using assms
proof (induction base ms rule: commit_layers.induct)
  case (1 base)
  then show ?case by simp
next
  case (2 base upper lower)
  obtain m where m: "m = hd (lower @ [base])" by simp
  then have "above_layer m upper" using "2.prems" by (cases lower) simp_all
  then obtain c where c: "wf_mem c" "simple.Store (Simple upper) = MemCachedStore c True (simple.Store (Simple m))"
    by (auto simp: above_layer_def)
  obtain n d where d: "dao_Persist memory_sink (Simple upper) = (n, None, d)"
      "\<forall>x k. StoreGet (store_below (simple.Store d) x) k = StoreGet (simple.Store (Simple upper)) k"
      "\<forall>x. store_below (simple.Store d) x \<in>
        {simple.Store (Simple m), PutChangeSet (mem c) (stor c) (simple.Store (Simple m))}"
    by (rule persist_down [OF c(2,1)])
  let ?st = "store_below (simple.Store d) (simple.Store d)"
  show ?case
  proof (cases lower)
    case Nil
    then have "dao_ok (Simple base) \<longrightarrow> is_cached ?st"
      using d(3) [THEN spec, of "simple.Store d"] m by (cases "simple.Store (Simple base)") (auto simp: dao_ok_def)
    then show ?thesis using d(1,2) Nil by (simp add: dao_ok_def)
  next
    case (Cons m' ms)
    then have m': "m' = m" using m by simp
    have "successively (\<lambda>m b. above_layer b m) ((set_store ?st m # ms) @ [base])"
      using "2.prems" above_layer_moved [OF _ d(3) [rule_format]] by (cases ms) (simp_all add: Cons m')
    then show ?thesis
      using "2.IH"(2) [OF d(1) [symmetric] refl refl refl refl Cons] d(1,2) by (simp add: Cons m' Let_def)
  qed
qed

lemma stack_version: "successively above_layer (y # ys) \<Longrightarrow> Version (Simple (last (y # ys))) = Version (Simple y)"
proof (induction ys arbitrary: y)
  case (Cons m ms)
  then have "Version (Simple m) = Version (Simple y)" by (simp add: above_layer_def)
  then show ?case using Cons.IH [of m] Cons.prems by simp
qed simp

lemma stacked_Commit:
  assumes "stacked s"
  obtains s' where "Commit s = (None, s')" and "memStores s' = []" and "stacked s'"
    and "dao_ok (Simple (ps s)) \<longrightarrow> dao_ok (Simple (ps s'))"
    and "\<forall>a k. item (Simple (ps s')) a k = item (Simple (last (layers s))) a k"
proof -
  let ?ms = "memStores s"
  have s: "nat (snapshot s + 1) = length ?ms" "sdb_Err s = None" "successively above_layer (layers s)"
    using assms by (simp_all add: stacked_def sdb_ok_def)
  then have "successively (\<lambda>m b. above_layer b m) (rev ?ms @ [ps s])"
    using successively_rev [of "\<lambda>m b. above_layer b m" "layers s"] by (simp add: layers_def)
  from commit_layers_view [OF this] obtain b where b: "commit_layers (ps s) (rev ?ms) = (None, b, [])"
      "Version (Simple b) = Version (Simple (ps s))" "dao_ok (Simple (ps s)) \<longrightarrow> dao_ok (Simple b)"
      "\<forall>k. StoreGet (simple.Store (Simple b)) k = StoreGet (simple.Store (Simple (hd (rev ?ms @ [ps s])))) k"
    by blast
  have top: "hd (rev ?ms @ [ps s]) = last (layers s)" by (simp add: layers_def hd_append hd_rev)
  have "Version (Simple (last (layers s))) = Version (Simple (ps s))"
    using stack_version [of "ps s" ?ms] s(3) by (simp add: layers_def)
  then have "Version (Simple b) = Version (Simple (last (layers s)))" using b(2) by simp
  then have "\<forall>a k. item (Simple b) a k = item (Simple (last (layers s))) a k"
    using b(4) unfolding item_def top by simp
  moreover have "Commit s = (None, s\<lparr>ps := b, memStores := [], snapshot := - 1\<rparr>)"
    by (simp add: Commit_def s(1,2) b(1))
  ultimately show ?thesis
    using b(3) s(2)
    by (intro that [of "s\<lparr>ps := b, memStores := [], snapshot := - 1\<rparr>"]) (simp_all add: stacked_def sdb_ok_def layers_def)
qed

text \<open>
  C13. A transaction that has run can be committed, and nothing of it is lost or added: started on a
  database whose layers are stacked, as a new one is, every call or creation, whatever contracts it
  runs, leaves a database that \<open>Commit\<close> flushes without an error; no snapshot is left, and every
  storage item of the base layer is then what the layer on top showed. The balances, nonces, codes
  and slots that the transaction saw last are the ones that are stored.
\<close>

theorem committed_is_seen:
  assumes "E = NewEVM lib cfg (native_contracts cs ic) bctx origin price" and "stacked (statedb e)"
    and "Ran err ret g' e' \<in> {Call E (Run E (base_table E) n) caller addr inp g amount e,
      snd (Create E (Run E (base_table E) n) caller inp g amount e)}"
  shows "\<exists>s. Commit (statedb e') = (None, s) \<and> memStores s = [] \<and> snapshot s = - 1 \<and>
    (\<forall>a k. item (Simple (ps s)) a k = item (Simple (last (layers (statedb e')))) a k)"
  by (rule stacked_Commit [OF stacked_result [OF assms]]) (auto simp: stacked_def sdb_ok_def)

theorem committed_is_seen_witness:
  "\<exists>g e' s. Call (demo_sdb_env (native_contracts demo_contracts demo_ic))
     (Run (demo_sdb_env (native_contracts demo_contracts demo_ic)) (base_table (demo_sdb_env (native_contracts demo_contracts demo_ic))) 9)
     [] [] [] 8 0 demo_sdb_evm = Ran None [] g e' \<and> Commit (statedb e') = (None, s) \<and> snapshot s = - 1"
proof -
  let ?E = "demo_sdb_env (native_contracts demo_contracts demo_ic)"
  obtain g e' where r: "Call ?E (Run ?E (base_table ?E) 9) [] [] [] 8 0 demo_sdb_evm = Ran None [] g e'"
    using demo_call by blast
  then have m: "Ran None [] g e' \<in> {Call ?E (Run ?E (base_table ?E) 9) [] [] [] 8 0 demo_sdb_evm,
      snd (Create ?E (Run ?E (base_table ?E) 9) [] [] 8 0 demo_sdb_evm)}" by simp
  have "stacked (statedb demo_sdb_evm)" by (simp add: demo_sdb_evm_def stacked_NewStateDB)
  from committed_is_seen [OF demo_sdb_env_def this m] show ?thesis using r by blast
qed

end
