(* ===== verification/BlockExecution.thy ===== *)
theory BlockExecution
  imports StateCommit TxVerification
begin

text \<open>
  How a block runs its transactions: the loop of \<open>storeBlock\<close> in src/pkg/core/blockchain.go, with the
  fees of src/pkg/core/transaction, the machine, the state database and the native contracts. Each
  transaction runs on a snapshot of the state, is charged and rewarded, and is committed before the
  next one starts.
\<close>

section \<open>The chain as the loop reads it\<close>

record chain =
  ch_vm :: vm_lib
  ch_cfg :: protocol_settings
  ch_contracts :: contracts
  ch_policy :: policy_cache
  ch_dao :: simple
  ch_blockHeight :: u32

text \<open>What go-ethereum provides for the loop: access lists, the precompiled addresses, the refund quotient.\<close>

record 'e exec_lib =
  eth_AccessList :: "'e \<Rightarrow> (address \<times> hash list) list"
  PrecompiledAddressesBerlin :: "address list"
  RefundQuotientEIP3529 :: u64

fun tx_AccessList :: "'e exec_lib \<Rightarrow> 'e transaction \<Rightarrow> (address \<times> hash list) list" where
  "tx_AccessList X (EthTx t) = eth_AccessList X (EthTransaction t)"
| "tx_AccessList X (NeoTx t) = []"

definition bc_FeePerByte :: "chain \<Rightarrow> u64 option" where
  "bc_FeePerByte bc = GetFeePerByte (ch_policy bc) (ch_dao bc)"

definition bc_GetCurrentValidators :: "chain \<Rightarrow> native_error + public_key list" where
  "bc_GetCurrentValidators bc =
     GetValidators (b_C (cs_K (ch_contracts bc))) (cs_Designate (ch_contracts bc)) (ch_dao bc) (ch_blockHeight bc + 1)"

text \<open>An error is a panic for the caller.\<close>

definition bc_GetConsensusAddress :: "chain \<Rightarrow> address option" where
  "bc_GetConsensusAddress bc =
     (case GetConsensusAddress (b_C (cs_K (ch_contracts bc))) (cs_Designate (ch_contracts bc)) (ch_blockHeight bc + 1)
             (ps (NewStateDB (ch_dao bc))) of
        Some (Inr a, _) \<Rightarrow> Some a
      | _ \<Rightarrow> None)"

section \<open>One transaction\<close>

definition tx_context :: "'e tx_lib \<Rightarrow> chain \<Rightarrow> block_header \<Rightarrow> 'e transaction \<Rightarrow> statedb env option" where
  "tx_context T bc h tx =
     (let cs = ch_contracts bc;
          ic = \<lparr>ic_Block = Some (h_Index h), ic_Sender = tx_From tx, ic_TxHash = tx_Hash T tx,
                ic_TxFrom = tx_From tx, ic_TxValue = tx_Value T tx\<rparr>;
          validators = (case bc_GetCurrentValidators bc of
            Inl _ \<Rightarrow> [] | Inr ks \<Rightarrow> map (PubkeyToAddress (b_C (cs_K cs))) ks) in
      NewContext (ch_vm bc) (ch_cfg bc) (native_contracts cs ic) validators h (tx_From tx) (tx_GasPrice T tx))"

definition run_tx ::
    "'e tx_lib \<Rightarrow> 'e exec_lib \<Rightarrow> statedb env \<Rightarrow> 'e transaction \<Rightarrow> u64 \<Rightarrow> statedb \<Rightarrow> (address \<times> statedb run_result) option" where
  "run_tx T X E tx gs s = map_option (\<lambda>s.
     let e = \<lparr>statedb = s, depth = 0, readOnly = False, returnData = [], callGasTemp = 0\<rparr>;
         run = Run E (base_table E) (Suc (unat gs)) in
     case tx_To T tx of
       None \<Rightarrow> Create E run (tx_From tx) (tx_Data T tx) gs (tx_Value T tx) e
     | Some a \<Rightarrow> (zero_address, Call E run (tx_From tx) a (tx_Data T tx) gs (tx_Value T tx) e))
     (PrepareAccessList (tx_From tx) (tx_To T tx) (PrecompiledAddressesBerlin X) (tx_AccessList X tx) s)"

text \<open>The nonce, the rewards of the primary and of the validators, and the payment of the sender.\<close>

definition tx_refund :: "'e exec_lib \<Rightarrow> u64 \<Rightarrow> u64 \<Rightarrow> u64" where
  "tx_refund X gasUsed refund = (let maxRefund = gasUsed div RefundQuotientEIP3529 X in
     if refund > maxRefund then maxRefund else refund)"

definition settle_tx ::
    "'e tx_lib \<Rightarrow> 'e exec_lib \<Rightarrow> chain \<Rightarrow> block_header \<Rightarrow> 'e transaction \<Rightarrow> address \<Rightarrow> u64 \<Rightarrow> u64 \<Rightarrow> u64 \<Rightarrow> statedb \<Rightarrow> statedb option" where
  "settle_tx T X bc h tx coinbase netFee gs left s =
     Option.bind (sdb_GetNonce s (tx_From tx)) (\<lambda>n.
     Option.bind (sdb_SetNonce (tx_From tx) (n + 1) s) (\<lambda>s.
     Option.bind (if h_Index h > 0 then sdb_AddBalance coinbase (sint netFee * tx_GasPrice T tx) s else Some s) (\<lambda>s.
     Option.bind (if gs > left then Option.bind (bc_GetConsensusAddress bc) (\<lambda>a.
         sdb_AddBalance a (sint (gs - left) * tx_GasPrice T tx) s) else Some s) (\<lambda>s.
     Option.bind (sdb_GetRefund s) (\<lambda>refund.
       let gasUsed = tx_Gas T tx - left in
       sdb_SubBalance (tx_From tx) (sint (gasUsed - tx_refund X gasUsed refund) * tx_GasPrice T tx) s)))))"

text \<open>
  The receipt of a transaction, without the fields that copy the hash, the number and the Merkle root
  of the block, and without the Bloom filter of the logs.
\<close>

record exec_receipt =
  r_TxHash :: hash
  r_TransactionIndex :: nat
  r_GasUsed :: u64
  r_ContractAddress :: address
  r_CumulativeGasUsed :: u64
  r_Logs :: "(nat \<times> vm_log) list"
  r_Status :: bool

text \<open>The state of the loop: the database, the gas used so far and the next index of a log.\<close>

type_synonym loop_state = "statedb \<times> u64 \<times> nat"

definition execute_tx ::
    "'e tx_lib \<Rightarrow> 'e exec_lib \<Rightarrow> chain \<Rightarrow> block_header \<Rightarrow> nat \<Rightarrow> 'e transaction \<Rightarrow> loop_state \<Rightarrow> (exec_receipt \<times> loop_state) option" where
  "execute_tx T X bc h i tx l = (case l of (s, cumulativeGas, logIndex) \<Rightarrow>
     Option.bind (bc_FeePerByte bc) (\<lambda>fee.
     Option.bind (CalculateNetworkFee T tx fee) (\<lambda>netFee.
     Option.bind (tx_context T bc h tx) (\<lambda>E.
     let gs = tx_Gas T tx - netFee in
     Option.bind (run_tx T X E tx gs s) (\<lambda>(addr, r). case r of
       Ran execErr ret left e \<Rightarrow>
         Option.bind (sdb_GetLogs (statedb e)) (\<lambda>ls.
         Option.bind (settle_tx T X bc h tx (Coinbase E) netFee gs left (statedb e)) (\<lambda>s.
           let gasUsed = tx_Gas T tx - left in
           Some (\<lparr>r_TxHash = tx_Hash T tx, r_TransactionIndex = i, r_GasUsed = gasUsed, r_ContractAddress = addr,
              r_CumulativeGasUsed = cumulativeGas + gasUsed, r_Logs = zip [logIndex..<logIndex + length ls] ls,
              r_Status = (execErr = None)\<rparr>,
             snd (Commit s), cumulativeGas + gasUsed, logIndex + length ls)))
     | _ \<Rightarrow> None)))))"

section \<open>All transactions of a block\<close>

fun execute_txs ::
    "'e tx_lib \<Rightarrow> 'e exec_lib \<Rightarrow> chain \<Rightarrow> block_header \<Rightarrow> nat \<Rightarrow> 'e transaction list \<Rightarrow> loop_state \<Rightarrow> (exec_receipt list \<times> loop_state) option" where
  "execute_txs T X bc h i [] l = Some ([], l)"
| "execute_txs T X bc h i (tx # txs) l = Option.bind (execute_tx T X bc h i tx l) (\<lambda>(r, l).
     map_option (map_prod ((#) r) id) (execute_txs T X bc h (Suc i) txs l))"

text \<open>
  The database is built on a private layer over the ledger's. \<open>OnPersist\<close> of the native contracts comes
  before and does nothing.
\<close>

definition execute_block ::
    "'e tx_lib \<Rightarrow> 'e exec_lib \<Rightarrow> chain \<Rightarrow> block_header \<Rightarrow> 'e transaction list \<Rightarrow> (exec_receipt list \<times> loop_state) option" where
  "execute_block T X bc h txs = execute_txs T X bc h 0 txs (NewStateDB (GetPrivate (ch_dao bc)), 0, 0)"

text \<open>After the transactions the native contracts refresh their caches from the committed layer \<open>d\<close>.\<close>

definition contracts_PostPersist :: "simple \<Rightarrow> chain \<Rightarrow> (native_error option \<times> chain) option" where
  "contracts_PostPersist d bc = Option.bind (designate_UpdateCache (b_C (cs_K (ch_contracts bc))) d (cs_Designate (ch_contracts bc)))
     (\<lambda>(e, dg). let bc = bc\<lparr>ch_contracts := (ch_contracts bc)\<lparr>cs_Designate := dg\<rparr>\<rparr> in
       case e of Some err \<Rightarrow> Some (Some err, bc)
       | None \<Rightarrow> map_option (\<lambda>p. (None, bc\<lparr>ch_policy := p\<rparr>)) (policy_UpdateCache d))"

end
