(* ===== verification/BlockExecProps.thy ===== *)
theory BlockExecProps
  imports BlockExecution
begin

text \<open>
  What the transactions of a block do to the state as a whole. Between two transactions the database
  has no snapshot and its books agree (\<open>settled\<close>); every part of the loop keeps that.
\<close>

section \<open>The books through a block\<close>

definition settled :: "statedb \<Rightarrow> bool" where
  "settled s \<longleftrightarrow> stacked s \<and> layered books 0 s"

lemma settled_store:
  assumes "settled s" and "on_store f s = Some s'" and "\<And>m m'. f m = Some m' \<Longrightarrow> Simple m' = Simple m"
  shows "settled s'"
proof -
  have "stacked s'" by (rule stacked_store [OF _ assms(2)]) (use assms(1,3) in \<open>auto simp: settled_def\<close>)
  moreover have "layered books 0 s'" by (rule layered_store [OF _ assms(2)]) (use assms(1,3) in \<open>auto simp: settled_def\<close>)
  ultimately show ?thesis by (simp add: settled_def)
qed

lemma settled_simple:
  assumes "settled s" and "on_simple f s = Some s'" and "\<And>d d'. f d = Some d' \<Longrightarrow> rewritten d d'"
    and "\<And>d d'. books d \<Longrightarrow> f d = Some d' \<Longrightarrow> books d'"
  shows "settled s'"
  using stacked_simple [OF _ assms(2,3)] layered_simple [OF _ assms(2,4)] assms(1) by (auto simp: settled_def)

lemma settled_address: "settled s \<Longrightarrow> sdb_AddAddressToAccessList a s = Some s' \<Longrightarrow> settled s'"
  unfolding sdb_AddAddressToAccessList_def by (erule settled_store) auto

lemma settled_slot: "settled s \<Longrightarrow> sdb_AddSlotToAccessList a k s = Some s' \<Longrightarrow> settled s'"
  unfolding sdb_AddSlotToAccessList_def by (erule settled_store) auto

lemma settled_addresses: "settled s \<Longrightarrow> add_addresses as s = Some s' \<Longrightarrow> settled s'"
  by (induction as arbitrary: s) (auto split: bind_splits dest: settled_address)

lemma settled_slots: "settled s \<Longrightarrow> add_slots a ks s = Some s' \<Longrightarrow> settled s'"
  by (induction ks arbitrary: s) (auto split: bind_splits dest: settled_slot)

lemma settled_tuples: "settled s \<Longrightarrow> add_tuples es s = Some s' \<Longrightarrow> settled s'"
  by (induction es s rule: add_tuples.induct) (auto split: bind_splits, meson settled_address settled_slots)

lemma settled_prepared:
  assumes "settled s" and "PrepareAccessList sender dest pre list s = Some s'"
  shows "settled s'"
proof -
  have "settled s1" if "on_store (\<lambda>m. Some (m\<lparr>accesslist := newAccessList\<rparr>)) s = Some s1" for s1
    by (rule settled_store [OF assms(1) that]) auto
  then show ?thesis
    using assms(2) unfolding PrepareAccessList_def
    by (auto split: bind_splits option.splits) (meson settled_address settled_addresses settled_tuples)+
qed

lemma settled_balance:
  assumes "settled s" and "sdb_AddBalance a v s = Some s'" and "NativeAccounts.amount_ok v"
  shows "settled s'"
  using assms(2) unfolding sdb_AddBalance_def
  by (rule settled_simple [OF assms(1)]) (auto simp: gas_AddBalance_def intro: rewritten_tokens books_tokens [OF _ assms(3)])

lemma settled_payment:
  assumes "settled s" and "sdb_SubBalance a v s = Some s'" and "NativeAccounts.amount_ok v"
  shows "settled s'"
proof -
  have "NativeAccounts.amount_ok (- v)" using assms(3) by (simp only: NativeAccounts.amount_ok_def abs_minus_cancel)
  then show ?thesis
    using assms(2) unfolding sdb_SubBalance_def
    by - (rule settled_simple [OF assms(1)], auto simp: gas_SubBalance_def gas_AddBalance_def intro: rewritten_tokens books_tokens)
qed

lemma settled_nonce:
  assumes "settled s" and "sdb_SetNonce a n s = Some s'"
  shows "settled s'"
  using assms(2) unfolding sdb_SetNonce_def
  by (rule settled_simple [OF assms(1)]) (auto simp: ledger_SetNonce_def intro: rewritten_put books_put)

lemma settled_Commit:
  assumes "settled s"
  shows "settled (snd (Commit s))" and "memStores (snd (Commit s)) = []"
proof -
  have s: "stacked s" "layered books 0 s" using assms by (simp_all add: settled_def)
  obtain s' where c: "Commit s = (None, s')" "memStores s' = []" "stacked s'"
      "dao_ok (Simple (ps s)) \<longrightarrow> dao_ok (Simple (ps s'))"
      "\<forall>a k. item (Simple (ps s')) a k = item (Simple (last (layers s))) a k"
    by (rule stacked_Commit [OF s(1)])
  have "books (Simple (ps s))" using s(2) by (simp add: layered_def layers_def)
  then have "dao_ok (Simple (ps s'))" using c(4) by (simp add: books_def)
  then have "books (Simple (ps s'))"
    using books_cong [OF layered_top [OF s(2)]] c(5) by blast
  then have "layered books 0 s'" using c(2,3) by (simp add: layered_def layers_def stacked_def)
  then show "settled (snd (Commit s))" "memStores (snd (Commit s)) = []" using c by (simp_all add: settled_def)
qed

section \<open>One transaction\<close>

text \<open>The amounts of a transaction are those of 256-bit words.\<close>

definition word_amounts :: "'e tx_lib \<Rightarrow> 'e transaction \<Rightarrow> bool" where
  "word_amounts T tx \<longleftrightarrow> tx_Value T tx \<in> {0..<2 ^ 256} \<and> tx_GasPrice T tx \<in> {0..<2 ^ 256}"

lemma word_value: "word_amounts T tx \<Longrightarrow> NativeAccounts.amount_ok (tx_Value T tx)"
  by (rule amount_okI) (simp add: word_amounts_def)

lemma price_fee:
  assumes "word_amounts T tx"
  shows "NativeAccounts.amount_ok (sint (x :: u64) * tx_GasPrice T tx)"
proof (rule amount_okI)
  have "\<bar>sint x\<bar> \<le> 2 ^ 63" "\<bar>tx_GasPrice T tx\<bar> < 2 ^ 256"
    using sint64_bound [of x] assms by (simp_all add: word_amounts_def)
  then have "\<bar>sint x\<bar> * \<bar>tx_GasPrice T tx\<bar> \<le> 2 ^ 63 * 2 ^ 256" by (intro mult_mono) simp_all
  then show "\<bar>sint x * tx_GasPrice T tx\<bar> < 256 ^ 40" by (simp add: abs_mult)
qed

lemma settled_settlement:
  assumes "settled s" and "settle_tx T X bc h tx c netFee gs left s = Some s'" and "word_amounts T tx"
  shows "settled s'"
  using assms(2) unfolding settle_tx_def Let_def
  by (auto split: bind_splits if_splits)
    (meson assms(1) settled_nonce settled_balance settled_payment price_fee [OF assms(3)])+

lemma settled_run:
  assumes "settled s" and "tx_context T bc h tx = Some E" and "run_tx T X E tx gs s = Some (a, Ran err ret left e)"
    and "word_amounts T tx"
  shows "settled (statedb e)"
proof -
  obtain cs ic bctx where E: "E = NewEVM (ch_vm bc) (ch_cfg bc) (native_contracts cs ic) bctx (tx_From tx) (tx_GasPrice T tx)"
      and v: "ic_TxValue ic = tx_Value T tx"
    using assms(2) by (auto simp: tx_context_def NewContext_def Let_def intro: that)
  obtain s1 where s1: "PrepareAccessList (tx_From tx) (tx_To T tx) (PrecompiledAddressesBerlin X) (tx_AccessList X tx) s = Some s1"
    using assms(3) by (auto simp: run_tx_def)
  let ?e = "\<lparr>statedb = s1, depth = 0, readOnly = False, returnData = [], callGasTemp = 0\<rparr>"
  let ?run = "Run E (base_table E) (Suc (unat gs))"
  have s: "settled s1" by (rule settled_prepared [OF assms(1) s1])
  have r: "Ran err ret left e \<in> {Call E ?run (tx_From tx) (the (tx_To T tx)) (tx_Data T tx) gs (tx_Value T tx) ?e,
      snd (Create E ?run (tx_From tx) (tx_Data T tx) gs (tx_Value T tx) ?e)}"
    using assms(3) s1 by (auto simp: run_tx_def Let_def split: option.splits)
  have "stacked (statedb e)" by (rule stacked_result [OF E _ r]) (use s in \<open>simp add: settled_def\<close>)
  moreover have "layered books 0 (statedb e)"
    by (rule books_result [OF E _ _ _ r]) (use s v word_value [OF assms(4)] in \<open>simp_all add: settled_def\<close>)
  ultimately show ?thesis by (simp add: settled_def)
qed

lemma settled_tx:
  assumes "settled s" and "execute_tx T X bc h i tx (s, cg, li) = Some (r, s', cg', li')" and "word_amounts T tx"
  shows "settled s'" and "memStores s' = []"
proof -
  obtain E gs a err ret left e netFee s1 where *: "tx_context T bc h tx = Some E"
      "run_tx T X E tx gs s = Some (a, Ran err ret left e)"
      "settle_tx T X bc h tx (Coinbase E) netFee gs left (statedb e) = Some s1" "s' = snd (Commit s1)"
    using assms(2) by (auto simp: execute_tx_def Let_def split: bind_splits run_result.splits)
  have "settled (statedb e)" by (rule settled_run [OF assms(1) *(1,2) assms(3)])
  then have "settled s1" by (rule settled_settlement [OF _ *(3) assms(3)])
  then show "settled s'" "memStores s' = []" using settled_Commit by (simp_all add: *(4))
qed

section \<open>Settlement\<close>

lemma tokens_taken:
  assumes "dao_ok d" and "gas_books d b" and "b (fit 20 h) < 256 ^ MaxArraySize" and "0 \<le> n" and "n \<le> b (fit 20 h)"
  obtains d' where "gas_SubBalance h n d = Some d'" and "dao_ok d'" and "gas_books d' (b(fit 20 h := b (fit 20 h) + - n))"
proof -
  have ok: "NativeAccounts.amount_ok (- n)"
    using assms(3-5) by (simp only: NativeAccounts.amount_ok_def abs_minus_cancel abs_of_nonneg le_less_trans)
  obtain e d' where d': "addTokens h (- n) d = Some (e, d')"
    "e \<noteq> None \<and> d' = d \<or> e = None \<and> - n = 0 \<and> d' = d \<or> e = None \<and> same_frame d d' \<and> gas_books d' (b(fit 20 h := b (fit 20 h) + - n))"
    using addTokens_books [OF assms(1,2) ok, of h] by (elim exE conjE) (rule that)
  obtain gs where gs: "getGasState d (makeAccountKey h) = Some (Inr gs)" "gas_GetBalance d h = Some (b (fit 20 h))"
    by (rule readable_state [OF assms(2,3)])
  then have "(case gs of None \<Rightarrow> 0 | Some x \<Rightarrow> x) = b (fit 20 h)"
    by (auto simp: getGasState_eq GetBalance_eq key_eqs balance_in_def split: option.splits prod.splits)
  then have "e = None"
    using d'(1) gs(1) assms(4,5)
    by (auto simp: addTokens_def increaseBalance_def putGasState_def encode_gas_state_bytes Let_def sgn_if
        split: if_split_asm bind_split_asm sum.split_asm)
  then have "dao_ok d'" "gas_books d' (b(fit 20 h := b (fit 20 h) + - n))"
    using d'(2) assms(1,2) by (auto simp: same_frame_def)
  then show ?thesis using that d'(1) by (simp add: gas_SubBalance_def gas_AddBalance_def)
qed

abbreviation top_dao :: "statedb \<Rightarrow> simple" where
  "top_dao s \<equiv> Simple (last (layers s))"

text \<open>The books of the top layer together with the refund.\<close>

definition accounts :: "statedb \<Rightarrow> (address \<Rightarrow> int) \<Rightarrow> u64 option \<Rightarrow> bool" where
  "accounts s b refund \<longleftrightarrow> sdb_ok s \<and> dao_ok (top_dao s) \<and> gas_books (top_dao s) b \<and> sdb_GetRefund s = refund"

lemma accounts_simple:
  assumes "accounts s b r" and "on_simple f s = Some s'"
  obtains d where "f (top_dao s) = Some d" and "dao_ok d \<Longrightarrow> gas_books d b' \<Longrightarrow> accounts s' b' r"
proof -
  have ok: "sdb_ok s" using assms(1) by (simp add: accounts_def)
  obtain d where d: "f (top_dao s) = Some d" "s' = set_current ((last (layers s))\<lparr>Simple := d\<rparr>) s"
    by (rule on_simple_top [OF assms(2) ok])
  note l = set_current_layers [OF ok, of "(last (layers s))\<lparr>Simple := d\<rparr>"]
  then show ?thesis
    using that [OF d(1)] assms(1) CurrentStore_last [OF ok] by (auto simp: accounts_def d(2) sdb_GetRefund_def CurrentStore_last)
qed

lemma accounts_added:
  assumes "accounts s b r" and "sdb_AddBalance h n s = Some s'" and "b (fit 20 h) < 256 ^ MaxArraySize" and "0 \<le> n"
    and "NativeAccounts.amount_ok n"
  shows "accounts s' (b(fit 20 h := b (fit 20 h) + n)) r"
proof -
  have s: "dao_ok (top_dao s)" "gas_books (top_dao s) b" using assms(1) by (simp_all add: accounts_def)
  obtain d where "gas_AddBalance h n (top_dao s) = Some d" "dao_ok d" "gas_books d (b(fit 20 h := b (fit 20 h) + n))"
    by (rule tokens_added [OF s assms(3-5)])
  then show ?thesis using accounts_simple [OF assms(1) assms(2) [unfolded sdb_AddBalance_def]] by (metis option.inject)
qed

lemma accounts_taken:
  assumes "accounts s b r" and "sdb_SubBalance h n s = Some s'" and "b (fit 20 h) < 256 ^ MaxArraySize" and "0 \<le> n"
    and "n \<le> b (fit 20 h)"
  shows "accounts s' (b(fit 20 h := b (fit 20 h) + - n)) r"
proof -
  have s: "dao_ok (top_dao s)" "gas_books (top_dao s) b" using assms(1) by (simp_all add: accounts_def)
  obtain d where "gas_SubBalance h n (top_dao s) = Some d" "dao_ok d" "gas_books d (b(fit 20 h := b (fit 20 h) + - n))"
    by (rule tokens_taken [OF s assms(3-5)])
  then show ?thesis using accounts_simple [OF assms(1) assms(2) [unfolded sdb_SubBalance_def]] by (metis option.inject)
qed

lemma accounts_nonce:
  assumes "accounts s b r" and "sdb_SetNonce h n s = Some s'"
  shows "accounts s' b r"
proof -
  have ok: "dao_ok (top_dao s)" "gas_books (top_dao s) b" using assms(1) by (simp_all add: accounts_def)
  obtain d where d: "PutStorageItem LedgerAddress (createNonceKey h) (put_le 8 n) (top_dao s) = Some d"
      "dao_ok d \<Longrightarrow> gas_books d b \<Longrightarrow> accounts s' b r"
    using accounts_simple [OF assms(1) assms(2) [unfolded sdb_SetNonce_def], of b] by (auto simp: ledger_SetNonce_def)
  note f = PutStorageItem_facts [OF d(1) ok(1)]
  have "account d a = account (top_dao s) a" "recorded d = recorded (top_dao s)" for a
    by (simp_all add: account_def recorded_def f(4))
  then show ?thesis using d(2) f(1) ok(2) by (simp add: gas_books_def)
qed

lemma accounts_supply: "accounts s b r \<Longrightarrow> recorded (top_dao s) = (\<Sum>a \<in> all_addresses. b a)"
  by (simp add: accounts_def gas_books_def)

lemma books_bounds:
  assumes "gas_books d b"
  shows "0 \<le> b a" and "b (fit 20 a) \<le> recorded d"
  using assms member_le_sum [of "fit 20 a" all_addresses b] finite_addresses
  by (simp_all add: gas_books_def all_addresses_def)

lemma tx_refund_le: "tx_refund X used refund \<le> used"
proof -
  have "used div RefundQuotientEIP3529 X \<le> used" by (simp add: word_le_nat_alt unat_div)
  then show ?thesis by (auto simp: tx_refund_def Let_def)
qed

lemma accounts_start:
  assumes "settled s" and "sdb_GetRefund s = Some refund"
  obtains b where "accounts s b (Some refund)"
proof -
  have "layered books 0 s" using assms(1) by (simp add: settled_def)
  then show ?thesis using that layered_top layered_ok assms(2) by (fastforce simp: books_def accounts_def)
qed

lemma accounts_moves:
  assumes "accounts s b r"
  shows "b (fit 20 a) \<le> recorded (top_dao s)" and "0 \<le> b a"
    and "accounts s' (b(fit 20 a := b (fit 20 a) + v)) r \<Longrightarrow> recorded (top_dao s') = recorded (top_dao s) + v"
proof -
  show "b (fit 20 a) \<le> recorded (top_dao s)" "0 \<le> b a"
    using books_bounds [of "top_dao s" b a] assms by (simp_all add: accounts_def)
  show "recorded (top_dao s') = recorded (top_dao s) + v" if "accounts s' (b(fit 20 a := b (fit 20 a) + v)) r"
    using accounts_supply [OF that] accounts_supply [OF assms] sum_books [of "fit 20 a" b v] by (simp add: all_addresses_def)
qed

text \<open>A reward raises the supply and one balance by its amount.\<close>

lemma accounts_reward:
  assumes "accounts s b r" and "sdb_AddBalance a n s = Some s'" and "0 \<le> n" and "NativeAccounts.amount_ok n"
    and "recorded (top_dao s) < 256 ^ MaxArraySize"
  shows "accounts s' (b(fit 20 a := b (fit 20 a) + n)) r" and "recorded (top_dao s') = recorded (top_dao s) + n"
proof -
  have "b (fit 20 a) < 256 ^ MaxArraySize" using accounts_moves(1) [OF assms(1), of a] assms(5) by linarith
  then show b': "accounts s' (b(fit 20 a := b (fit 20 a) + n)) r" by (rule accounts_added [OF assms(1,2) _ assms(3,4)])
  show "recorded (top_dao s') = recorded (top_dao s) + n" by (rule accounts_moves(3) [OF assms(1) b'])
qed

lemma accounts_reward_if:
  assumes "accounts s b r" and "if c then sdb_AddBalance a n s = Some s' else s' = s \<and> n = 0" and "0 \<le> n"
    and "NativeAccounts.amount_ok n" and "recorded (top_dao s) < 256 ^ MaxArraySize"
  shows "accounts s' (b(fit 20 a := b (fit 20 a) + n)) r" and "recorded (top_dao s') = recorded (top_dao s) + n"
  using assms accounts_reward [OF assms(1) _ assms(3-5), of a s'] by (auto split: if_splits)

lemma accounts_balance:
  assumes "accounts s b r" and "recorded (top_dao s) < 256 ^ MaxArraySize"
  shows "sdb_GetBalance s a = Some (b (fit 20 a))"
proof -
  have "b (fit 20 a) < 256 ^ MaxArraySize" using accounts_moves(1) [OF assms(1), of a] assms(2) by linarith
  then have "gas_GetBalance (top_dao s) a = Some (b (fit 20 a))"
    using readable_state [of "top_dao s" b a] assms(1) by (auto simp: accounts_def)
  then show ?thesis using assms(1) by (simp add: accounts_def sdb_GetBalance_def from_simple_def CurrentStore_last)
qed

lemma uint_diffs:
  fixes g x y :: u64
  assumes "uint x + uint y \<le> uint g"
  shows "uint (g - x - y) = uint g - uint x - uint y"
proof -
  have "uint x \<le> uint g" "uint y \<le> uint g - uint x" using assms uint_ge_0 [of y] by linarith+
  then show ?thesis by (simp add: uint_sub_if')
qed

lemma small_diff:
  fixes g x y :: u64
  assumes "uint x + uint y \<le> uint g" and "uint g < 2 ^ 63"
  shows "sint (g - x - y) = uint g - uint x - uint y"
proof -
  have "uint (g - x - y) = uint g - uint x - uint y" by (rule uint_diffs [OF assms(1)])
  moreover have "\<dots> < 2 ^ 63" using assms(2) uint_ge_0 [of x] uint_ge_0 [of y] by linarith
  ultimately show ?thesis using sint_eq_uint_iff [of "g - x - y"] by simp
qed

lemma settle_tx_steps:
  assumes "settle_tx T X bc h tx coinbase netFee gs left s = Some s'" and "0 < h_Index h"
  obtains n s1 s2 s3 x c where "sdb_SetNonce (tx_From tx) n s = Some s1"
    and "sdb_AddBalance coinbase (sint netFee * tx_GasPrice T tx) s1 = Some s2"
    and "if gs > left then bc_GetConsensusAddress bc = Some c \<and> sdb_AddBalance c (sint (gs - left) * tx_GasPrice T tx) s2 = Some s3
      else s3 = s2"
    and "sdb_GetRefund s3 = Some x"
    and "sdb_SubBalance (tx_From tx) (sint (tx_Gas T tx - left - tx_refund X (tx_Gas T tx - left) x) * tx_GasPrice T tx) s3 = Some s'"
  using assms unfolding settle_tx_def Let_def by (auto split: bind_splits if_splits intro: that)

text \<open>
  C17. What a transaction pays and what the validators earn differ by the refund. Above the genesis
  block, for a transaction whose network fee is within its gas limit, whose gas limit is below 2 ^ 63
  and whose sender can pay for all of it, settling gives the primary the network fee and the
  validators the gas that the run used, and takes both less the refund from the sender, all at the
  price of the transaction; no other balance changes. So the recorded supply of GAS grows by the
  refund times the price.
\<close>

theorem refund_is_minted:
  assumes "settled s" and "sdb_GetRefund s = Some refund" and "sdb_GetBalance s (tx_From tx) = Some bal"
    and "settle_tx T X bc h tx coinbase netFee (tx_Gas T tx - netFee) left s = Some s'"
    and "0 < h_Index h" and "netFee \<le> tx_Gas T tx" and "left \<le> tx_Gas T tx - netFee" and "uint (tx_Gas T tx) < 2 ^ 63"
    and "word_amounts T tx" and "uint (tx_Gas T tx) * tx_GasPrice T tx \<le> bal"
    and "recorded (top_dao s) + uint (tx_Gas T tx) * tx_GasPrice T tx < 256 ^ MaxArraySize"
  shows "\<exists>committee. (left < tx_Gas T tx - netFee \<longrightarrow> bc_GetConsensusAddress bc = Some committee) \<and>
    (\<forall>a x. length a = 20 \<and> sdb_GetBalance s a = Some x \<longrightarrow> sdb_GetBalance s' a = Some (x
       + (if a = fit 20 coinbase then uint netFee * tx_GasPrice T tx else 0)
       + (if a = fit 20 committee then uint (tx_Gas T tx - netFee - left) * tx_GasPrice T tx else 0)
       - (if a = fit 20 (tx_From tx)
          then uint (tx_Gas T tx - left - tx_refund X (tx_Gas T tx - left) refund) * tx_GasPrice T tx else 0))) \<and>
    recorded (top_dao s') = recorded (top_dao s)
      + uint (tx_refund X (tx_Gas T tx - left) refund) * tx_GasPrice T tx"
proof -
  let ?g = "tx_Gas T tx" and ?p = "tx_GasPrice T tx" and ?f = "tx_From tx" and ?M = "256 ^ MaxArraySize :: int"
  let ?r = "tx_refund X (?g - left) refund"
  define G N L R where w: "G = uint ?g" "N = uint netFee" "L = uint left" "R = uint ?r"
  have p: "0 \<le> ?p" using assms(9) by (simp add: word_amounts_def)
  note ok = price_fee [OF assms(9)]
  have le: "0 \<le> N" "0 \<le> L" "0 \<le> R" "N \<le> G" "L \<le> G - N" "R \<le> G - L" "G < 2 ^ 63"
    using assms(6-8) tx_refund_le [of X "?g - left" refund] by (auto simp: w word_le_def uint_sub_if' split: if_splits) (use uint_ge_0 [of netFee] in linarith)+
  then have u: "sint netFee = N" "sint (?g - netFee - left) = G - N - L" "sint (?g - left - ?r) = G - L - R"
    using small_diff [of netFee left ?g] small_diff [of left ?r ?g] sint_eq_uint_iff [of netFee] by (simp_all add: w)
  have v: "uint (?g - netFee - left) = G - N - L" "uint (?g - left - ?r) = G - L - R"
    using le uint_diffs [of netFee left ?g] uint_diffs [of left ?r ?g] by (simp_all add: w)
  obtain b where b: "accounts s b (Some refund)" by (rule accounts_start [OF assms(1,2)])
  obtain n s1 s2 s3 x c where st: "sdb_SetNonce ?f n s = Some s1" "sdb_AddBalance coinbase (N * ?p) s1 = Some s2"
      "if ?g - netFee > left then bc_GetConsensusAddress bc = Some c \<and> sdb_AddBalance c ((G - N - L) * ?p) s2 = Some s3 else s3 = s2"
      "sdb_GetRefund s3 = Some x" "sdb_SubBalance ?f (sint (?g - left - tx_refund X (?g - left) x) * ?p) s3 = Some s'"
    by (rule settle_tx_steps [OF assms(4,5), unfolded u])
  have small: "N * ?p + (G - N - L) * ?p \<le> G * ?p" "0 \<le> N * ?p" "0 \<le> (G - N - L) * ?p" "0 \<le> (G - L - R) * ?p"
      "(G - L - R) * ?p \<le> G * ?p"
    using le p by (simp_all add: distrib_right [symmetric] mult_right_mono)
  have third: "if ?g - netFee > left then sdb_AddBalance c ((G - N - L) * ?p) s2 = Some s3 else s3 = s2 \<and> (G - N - L) * ?p = 0"
    using st(3) le by (auto simp: w word_less_def uint_sub_if' split: if_splits)
  have rec: "recorded (top_dao s) + G * ?p < ?M" using assms(11) by (simp add: w)
  have s1: "accounts s1 b (Some refund)" "recorded (top_dao s1) = recorded (top_dao s)"
    using accounts_nonce [OF b st(1)] accounts_supply b by simp_all
  define b2 where "b2 = b(fit 20 coinbase := b (fit 20 coinbase) + N * ?p)"
  define b3 where "b3 = b2(fit 20 c := b2 (fit 20 c) + (G - N - L) * ?p)"
  have lt: "recorded (top_dao s1) < ?M" "recorded (top_dao s) < ?M" using rec s1(2) small by linarith+
  have b2: "accounts s2 b2 (Some refund)" "recorded (top_dao s2) = recorded (top_dao s1) + N * ?p"
    using accounts_reward [OF s1(1) st(2) small(2) ok [of netFee, unfolded u] lt(1)] by (simp_all add: b2_def)
  have lt2: "recorded (top_dao s2) < ?M" using rec s1(2) b2(2) small by linarith
  have b3: "accounts s3 b3 (Some refund)" "recorded (top_dao s3) = recorded (top_dao s2) + (G - N - L) * ?p"
    using accounts_reward_if [OF b2(1) third small(3) ok [of "?g - netFee - left", unfolded u] lt2] by (simp_all add: b3_def)
  have "x = refund" using b3(1) st(4) by (simp add: accounts_def)
  then have pay: "sdb_SubBalance ?f ((G - L - R) * ?p) s3 = Some s'" using st(5) u by simp
  have lt3: "b3 (fit 20 ?f) < ?M" using accounts_moves(1) [OF b3(1), of ?f] rec s1(2) b2(2) b3(2) small by linarith
  have "bal = b (fit 20 ?f)" using accounts_balance [OF b lt(2), of ?f] assms(3) by simp
  moreover have "b y \<le> b3 y" for y using small(2,3) by (simp add: b2_def b3_def)
  ultimately have "(G - L - R) * ?p \<le> b3 (fit 20 ?f)" using small(5) assms(10) w(1) by (metis order_trans)
  note taken = accounts_taken [OF b3(1) pay lt3 small(4) this]
  have total: "recorded (top_dao s') = recorded (top_dao s) + R * ?p"
    using accounts_moves(3) [OF b3(1) taken] b3(2) b2(2) s1(2) by (simp add: algebra_simps)
  have "R * ?p \<le> G * ?p" using le p by (intro mult_right_mono) simp_all
  then have "recorded (top_dao s') < ?M" using total rec by linarith
  note read = accounts_balance [OF taken this] accounts_balance [OF b lt(2)]
  have "sdb_GetBalance s' a = Some (y + (if a = fit 20 coinbase then N * ?p else 0) + (if a = fit 20 c then (G - N - L) * ?p else 0)
      - (if a = fit 20 ?f then (G - L - R) * ?p else 0))" if "length a = 20" "sdb_GetBalance s a = Some y" for a y
  proof -
    have "fit 20 a = a" using that(1) by (simp add: fit_eq)
    then show ?thesis using that(2) read(2) [of a] by (auto simp: read(1) b3_def b2_def)
  qed
  then show ?thesis using total st(3) by (intro exI [of _ c]) (auto simp: v w(2,4) [symmetric])
qed

definition paying_tx :: neo_tx where
  "paying_tx = \<lparr>Nonce = 0, GasPrice = 1, Gas = 5, From = replicate 20 7, To = None, Value = 0, TxData = [],
     TxWitness = \<lparr>InvocationScript = [], VerificationScript = []\<rparr>\<rparr>"

definition demo_exec_lib :: "unit exec_lib" where
  "demo_exec_lib = \<lparr>eth_AccessList = \<lambda>_. [], PrecompiledAddressesBerlin = [], RefundQuotientEIP3529 = 5\<rparr>"

definition demo_chain :: chain where
  "demo_chain = \<lparr>ch_vm = demo_vm_lib, ch_cfg = \<lparr>cfg_ChainID = 1, cfg_MaxBlockGas = 0\<rparr>, ch_contracts = demo_contracts,
     ch_policy = \<lparr>cache_feePerByte = Some 0, cache_gasPrice = Some 0\<rparr>, ch_dao = NewSimple (MemoryStore NewMemoryStore),
     ch_blockHeight = 0\<rparr>"

definition refunded_db :: statedb where
  "refunded_db = (let s = NewStateDB funded_dao in s\<lparr>ps := (ps s)\<lparr>fund := 9\<rparr>\<rparr>)"

lemma on_simple_total: "sdb_ok s \<Longrightarrow> f (top_dao s) = Some d \<Longrightarrow> \<exists>s'. on_simple f s = Some s'"
  by (simp add: on_simple_def on_store_def CurrentStore_last)

lemma refunded_facts:
  "settled refunded_db" "sdb_GetRefund refunded_db = Some 9" "top_dao refunded_db = funded_dao" "sdb_ok refunded_db"
proof -
  show ok: "top_dao refunded_db = funded_dao" "sdb_ok refunded_db"
    by (simp_all add: refunded_db_def NewStateDB_def layers_def sdb_ok_def)
  show "sdb_GetRefund refunded_db = Some 9"
    by (simp add: refunded_db_def NewStateDB_def sdb_GetRefund_def CurrentStore_def big_Uint64_def)
  have "stacked refunded_db" by (simp add: stacked_def refunded_db_def NewStateDB_def layers_def sdb_ok_def)
  moreover have "books funded_dao" using funded by (auto simp: books_def)
  then have "layered books 0 refunded_db" by (simp add: layered_def refunded_db_def NewStateDB_def layers_def sdb_ok_def)
  ultimately show "settled refunded_db" by (simp add: settled_def)
qed

lemma power_big:
  assumes "x < 256"
  shows "x < (256 :: int) ^ MaxArraySize"
proof -
  have "(256 :: int) ^ 1 \<le> 256 ^ MaxArraySize" by (rule power_increasing) (simp_all add: MaxArraySize_def)
  then have "256 \<le> (256 :: int) ^ MaxArraySize" by (simp only: power_one_right)
  with assms show ?thesis by linarith
qed

theorem refund_is_minted_witness:
  "\<exists>s'. settle_tx tiny_tx_lib demo_exec_lib demo_chain first_header (NeoTx paying_tx) [] 5 0 0 refunded_db = Some s' \<and>
     recorded (top_dao refunded_db) = 5 \<and> recorded (top_dao s') = 6 \<and>
     sdb_GetBalance refunded_db (replicate 20 7) = Some 5 \<and> sdb_GetBalance s' (replicate 20 7) = Some 1"
proof -
  let ?f = "replicate 20 7 :: address" and ?s = refunded_db
  define b where "b = (\<lambda>_. 0)(?f := 5 :: int)"
  have a: "accounts ?s b (Some 9)" using refunded_facts funded by (simp add: accounts_def b_def)
  have rec: "recorded funded_dao = 5"
    using funded(2) sum_books [of ?f "\<lambda>_. 0" 5] by (simp add: gas_books_def all_addresses_def)
  obtain d1 where "ledger_SetNonce ?f 1 (top_dao ?s) = Some d1"
    using PutStorageItem_total [of funded_dao "createNonceKey ?f"] funded(1)
    by (auto simp: ledger_SetNonce_def refunded_facts key_eqs)
  then obtain s1 where s1: "sdb_SetNonce ?f 1 ?s = Some s1"
    using on_simple_total [OF refunded_facts(4), of "ledger_SetNonce ?f 1"] by (auto simp: sdb_SetNonce_def)
  have a1: "accounts s1 b (Some 9)" by (rule accounts_nonce [OF a s1])
  have big: "(0::int) < 256 ^ MaxArraySize" "(5::int) < 256 ^ MaxArraySize" by (rule power_big, simp)+
  have ok: "NativeAccounts.amount_ok 5" by (rule amount_okI) simp
  have s1ok: "sdb_ok s1" "dao_ok (top_dao s1)" "gas_books (top_dao s1) b" using a1 by (simp_all add: accounts_def)
  have b0: "b (fit 20 []) = 0" "b (fit 20 ?f) = 5" by (simp_all add: b_def fit_eq)
  obtain d2 where d2: "gas_AddBalance [] 5 (top_dao s1) = Some d2"
    by (rule tokens_added [OF s1ok(2,3), of "[]" 5]) (use big b0 ok in simp_all)
  then obtain s2 where s2: "sdb_AddBalance [] 5 s1 = Some s2"
    using on_simple_total [OF s1ok(1), of "gas_AddBalance [] 5"] d2 by (auto simp: sdb_AddBalance_def)
  define b2 where "b2 = b(fit 20 [] := b (fit 20 []) + 5)"
  have a2: "accounts s2 b2 (Some 9)" unfolding b2_def by (rule accounts_added [OF a1 s2]) (use big b0 ok in simp_all)
  have s2ok: "sdb_ok s2" "dao_ok (top_dao s2)" "gas_books (top_dao s2) b2" using a2 by (simp_all add: accounts_def)
  have b2f: "b2 (fit 20 ?f) = 5" by (simp add: b2_def b_def fit_eq)
  obtain d3 where d3: "gas_SubBalance ?f 4 (top_dao s2) = Some d3"
    by (rule tokens_taken [OF s2ok(2,3), of ?f 4]) (use big b2f in simp_all)
  then obtain s3 where s3: "sdb_SubBalance ?f 4 s2 = Some s3"
    using on_simple_total [OF s2ok(1), of "gas_SubBalance ?f 4"] d3 by (auto simp: sdb_SubBalance_def)
  have run: "settle_tx tiny_tx_lib demo_exec_lib demo_chain first_header (NeoTx paying_tx) [] 5 0 0 ?s = Some s3"
  proof -
    have "sdb_GetNonce ?s ?f = Some 0"
      by (simp add: sdb_GetNonce_def from_simple_def CurrentStore_last refunded_facts ledger_GetNonce_def key_eqs funded(4))
    moreover have "sdb_GetRefund s2 = Some 9" using a2 by (simp add: accounts_def)
    ultimately show ?thesis
      using s1 s2 s3 by (simp add: settle_tx_def paying_tx_def first_header_def tx_refund_def demo_exec_lib_def Let_def)
  qed
  have bal: "sdb_GetBalance ?s ?f = Some 5"
    using readable_state [of funded_dao b ?f] funded(2) b0 big
    by (auto simp: sdb_GetBalance_def from_simple_def CurrentStore_last refunded_facts b_def)
  have vals: "From paying_tx = ?f" "Gas paying_tx = 5" "GasPrice paying_tx = 1" "word_amounts tiny_tx_lib (NeoTx paying_tx)"
      "tx_refund demo_exec_lib 5 9 = 1" "0 < h_Index first_header"
    by (simp_all add: paying_tx_def first_header_def word_amounts_def tx_refund_def demo_exec_lib_def)
  have "recorded (top_dao ?s) + 5 < 256 ^ MaxArraySize" using power_big [of 10] rec refunded_facts(3) by simp
  then have m: "(\<forall>a x. length a = 20 \<and> sdb_GetBalance ?s a = Some x \<longrightarrow> sdb_GetBalance s3 a = Some (x
      + (if a = fit 20 [] then 5 else 0) - (if a = fit 20 ?f then 4 else 0))) \<and>
      recorded (top_dao s3) = recorded (top_dao ?s) + 1"
    using refund_is_minted [OF refunded_facts(1,2), where tx = "NeoTx paying_tx" and bal = 5 and left = 0 and netFee = 5 and
      X = demo_exec_lib and T = tiny_tx_lib and bc = demo_chain and h = first_header and coinbase = "[]" and s' = s3]
    by (simp add: vals run bal cong: if_cong)
  have "sdb_GetBalance s3 ?f = Some 1"
    using m [THEN conjunct1, rule_format, of ?f 5] bal by (simp add: fit_eq)
  then show ?thesis using run m [THEN conjunct2] rec refunded_facts(3) bal by simp
qed

section \<open>The whole block\<close>

lemma settled_txs:
  assumes "settled s" and "memStores s = []" and "execute_txs T X bc h i txs (s, cg, li) = Some (rs, s', cg', li')"
    and "\<forall>tx \<in> set txs. word_amounts T tx"
  shows "settled s' \<and> memStores s' = []"
  using assms
proof (induction txs arbitrary: i s cg li rs)
  case (Cons tx txs)
  from Cons.prems(3) obtain r s1 cg1 li1 rs1 where *: "execute_tx T X bc h i tx (s, cg, li) = Some (r, s1, cg1, li1)"
      "execute_txs T X bc h (Suc i) txs (s1, cg1, li1) = Some (rs1, s', cg', li')"
    by (auto split: bind_splits)
  have "settled s1" "memStores s1 = []" using settled_tx [OF Cons.prems(1) *(1)] Cons.prems(4) by simp_all
  then show ?case using Cons.IH *(2) Cons.prems(4) by simp
qed simp

text \<open>
  C14. A block leaves the books of GAS in order: executed on a chain whose recorded supply is the sum
  of the balances, with transactions whose amounts are 256-bit words, it ends without an open
  snapshot, and the recorded supply is again the sum of the balances. Failed and successful
  transactions, fees, refunds, the native contracts and all contract code are covered.
\<close>

theorem block_keeps_supply:
  assumes "execute_block T X bc h txs = Some (rs, s, cg, li)" and "books (ch_dao bc)"
    and "\<forall>tx \<in> set txs. word_amounts T tx"
  shows "memStores s = [] \<and> (\<exists>b. recorded (Simple (ps s)) = (\<Sum>a \<in> all_addresses. b a) \<and>
    (\<forall>a. 0 \<le> b a \<and> (length a = 20 \<and> b a < 256 ^ MaxArraySize \<longrightarrow> sdb_GetBalance s a = Some (b a))))"
proof -
  let ?s = "NewStateDB (GetPrivate (ch_dao bc))"
  have x: "execute_txs T X bc h 0 txs (?s, 0, 0) = Some (rs, s, cg, li)"
    using assms(1) by (simp add: execute_block_def)
  have "books (GetPrivate (ch_dao bc))" using assms(2) by (rule books_cong) simp_all
  then have "layered books 0 ?s" by (simp add: layered_def NewStateDB_def layers_def sdb_ok_def)
  then have "settled ?s" by (simp add: settled_def stacked_NewStateDB)
  moreover have "memStores ?s = []" by (simp add: NewStateDB_def)
  ultimately have s: "settled s" "memStores s = []" using settled_txs [OF _ _ x assms(3)] by simp_all
  then have "layered books 0 s" by (simp add: settled_def)
  then obtain b where b: "recorded (top_dao s) = (\<Sum>a \<in> all_addresses. b a)"
      "\<forall>a. 0 \<le> b a \<and> (length a = 20 \<and> b a < 256 ^ MaxArraySize \<longrightarrow> sdb_GetBalance s a = Some (b a))"
    by (rule layered_books_balances)
  have "top_dao s = Simple (ps s)" by (simp add: layers_def s(2))
  then show ?thesis using s(2) b by (intro conjI exI [of _ b]) simp_all
qed

lemma receipt_of_tx:
  assumes "execute_tx T X bc h i tx (s, cg, li) = Some (r, s', cg', li')"
  shows "r_TxHash r = tx_Hash T tx" and "r_TransactionIndex r = i" and "cg' = cg + r_GasUsed r"
    and "r_CumulativeGasUsed r = cg'" and "map fst (r_Logs r) = [li..<li']" and "li' = li + length (r_Logs r)"
  using assms by (auto simp: execute_tx_def Let_def split: bind_splits run_result.splits)

lemma receipts_of_txs:
  assumes "execute_txs T X bc h i txs (s, cg, li) = Some (rs, s', cg', li')"
  shows "map r_TxHash rs = map (tx_Hash T) txs \<and> map r_TransactionIndex rs = [i..<i + length txs] \<and>
    (\<forall>j < length rs. r_CumulativeGasUsed (rs ! j) = cg + sum_list (map r_GasUsed (take (Suc j) rs))) \<and>
    concat (map (\<lambda>r. map fst (r_Logs r)) rs) = [li..<li + length (concat (map r_Logs rs))]"
  using assms
proof (induction txs arbitrary: i s cg li rs)
  case (Cons tx txs)
  from Cons.prems obtain r s1 cg1 li1 rs1 where *: "execute_tx T X bc h i tx (s, cg, li) = Some (r, s1, cg1, li1)"
      "execute_txs T X bc h (Suc i) txs (s1, cg1, li1) = Some (rs1, s', cg', li')" "rs = r # rs1"
    by (auto split: bind_splits)
  note r = receipt_of_tx [OF *(1)]
  note IH = Cons.IH [OF *(2)]
  have "r_CumulativeGasUsed (rs ! j) = cg + sum_list (map r_GasUsed (take (Suc j) rs))" if "j < length rs" for j
    using that IH r(3,4) by (cases j) (simp_all add: *(3) add.assoc)
  moreover have "[li..<li1] @ [li1..<li1 + n] = [li..<li1 + n]" for n
    using upt_add_eq_append [of li li1 n] r(6) by simp
  moreover have "[i..<i + (n + Suc 0)] = i # [Suc i..<Suc i + n]" for n by (simp add: upt_conv_Cons del: upt_Suc)
  ultimately show ?case using IH r by (simp add: *(3) add.assoc del: upt_Suc add_Suc add_Suc_right)
qed simp

text \<open>
  C16. The receipts of a block follow its transactions: there is one for each, in order, with the hash
  and the index of the transaction, the gas used so far as the sum of what the receipts say, and
  logs whose indices count through the whole block without a gap.
\<close>

theorem block_receipts:
  assumes "execute_block T X bc h txs = Some (rs, s, cg, li)"
  shows "map r_TxHash rs = map (tx_Hash T) txs \<and> map r_TransactionIndex rs = [0..<length txs] \<and>
    (\<forall>i < length rs. r_CumulativeGasUsed (rs ! i) = sum_list (map r_GasUsed (take (Suc i) rs))) \<and>
    concat (map (\<lambda>r. map fst (r_Logs r)) rs) = [0..<length (concat (map r_Logs rs))]"
  using receipts_of_txs [OF assms [unfolded execute_block_def]] by simp

text \<open>A genesis block with one transaction, a call of an address that nobody has.\<close>

definition genesis_header :: block_header where
  "genesis_header = first_header\<lparr>h_Index := 0\<rparr>"

definition idle_tx :: neo_tx where
  "idle_tx = \<lparr>Nonce = 0, GasPrice = 0, Gas = 8, From = replicate 20 7, To = Some [], Value = 0, TxData = [],
     TxWitness = \<lparr>InvocationScript = [], VerificationScript = [0]\<rparr>\<rparr>"

abbreviation base_dao :: simple where
  "base_dao \<equiv> GetPrivate (NewSimple (MemoryStore NewMemoryStore))"

lemma idle_context: "\<exists>E bctx ic. tx_context tiny_tx_lib demo_chain genesis_header (NeoTx idle_tx) = Some E \<and>
    E = NewEVM demo_vm_lib (ch_cfg demo_chain) (native_contracts demo_contracts ic) bctx (replicate 20 7) 0"
  by (simp add: tx_context_def NewContext_def newEVMBlockContext_def genesis_header_def demo_chain_def idle_tx_def Let_def)
    (intro exI, rule refl)

lemma idle_prepared:
  "\<exists>al. PrepareAccessList (replicate 20 7) (Some []) [] [] (NewStateDB base_dao) =
    Some (NewStateDB base_dao\<lparr>ps := (ps (NewStateDB base_dao))\<lparr>accesslist := al\<rparr>\<rparr>)"
  by (simp add: PrepareAccessList_def on_store_def CurrentStore_def NewStateDB_def set_current_def
      sdb_AddAddressToAccessList_def)

lemma call_nobody:
  assumes "E = NewEVM demo_vm_lib cfg (native_contracts cs ic) bctx origin price" and "snapshot (statedb e) = - 1"
    and "memStores (statedb e) = []" and "\<And>a k. item (Simple (ps (statedb e))) a k = None" and "depth e = 0"
  shows "Call E run caller [] inp g 0 e =
    Ran None [] g (e\<lparr>statedb := (statedb e)\<lparr>memStores := [clone (ps (statedb e))], snapshot := 0\<rparr>\<rparr>)"
  using assms(2-5)
  by (simp add: Call_def assms(1) NewEVM_def sdb_def Snapshot_def CurrentStore_def rask_def sdb_Exist_def sdb_Empty_def
      from_simple_def GetBalance_eq account_def balance_in_def GetContract_def ledger_GetNonce_def key_eqs clone_def
      demo_native_none precompile_def demo_vm_lib_def all_forks_def)

lemma idle_run:
  assumes "E = NewEVM demo_vm_lib cfg (native_contracts cs ic) bctx origin price"
  obtains al s where "run_tx tiny_tx_lib demo_exec_lib E (NeoTx idle_tx) 8 (NewStateDB base_dao) =
      Some (zero_address, Ran None [] 8 \<lparr>statedb = s, depth = 0, readOnly = False, returnData = [], callGasTemp = 0\<rparr>)"
    and "s = (NewStateDB base_dao)\<lparr>ps := (ps (NewStateDB base_dao))\<lparr>accesslist := al\<rparr>,
      memStores := [clone ((ps (NewStateDB base_dao))\<lparr>accesslist := al\<rparr>)], snapshot := 0\<rparr>"
proof -
  obtain al where al: "PrepareAccessList (replicate 20 7) (Some []) [] [] (NewStateDB base_dao) =
      Some (NewStateDB base_dao\<lparr>ps := (ps (NewStateDB base_dao))\<lparr>accesslist := al\<rparr>\<rparr>)"
    using idle_prepared by blast
  have "snapshot (NewStateDB base_dao) = - 1" "memStores (NewStateDB base_dao) = []"
      "item (Simple (ps (NewStateDB base_dao))) a k = None" for a k
    by (simp_all add: NewStateDB_def empty_dao)
  then show ?thesis
    by (intro that [OF _ refl, of al]) (simp add: run_tx_def idle_tx_def al demo_exec_lib_def Let_def call_nobody [OF assms])
qed

lemma idle_block:
  "\<exists>rs s cg li. execute_block tiny_tx_lib demo_exec_lib demo_chain genesis_header [NeoTx idle_tx] = Some (rs, s, cg, li)"
proof -
  obtain E bctx ic where E: "tx_context tiny_tx_lib demo_chain genesis_header (NeoTx idle_tx) = Some E"
      "E = NewEVM demo_vm_lib (ch_cfg demo_chain) (native_contracts demo_contracts ic) bctx (replicate 20 7) 0"
    using idle_context by blast
  obtain al s where run: "run_tx tiny_tx_lib demo_exec_lib E (NeoTx idle_tx) 8 (NewStateDB base_dao) =
      Some (zero_address, Ran None [] 8 \<lparr>statedb = s, depth = 0, readOnly = False, returnData = [], callGasTemp = 0\<rparr>)"
      "s = (NewStateDB base_dao)\<lparr>ps := (ps (NewStateDB base_dao))\<lparr>accesslist := al\<rparr>,
        memStores := [clone ((ps (NewStateDB base_dao))\<lparr>accesslist := al\<rparr>)], snapshot := 0\<rparr>"
    by (rule idle_run [OF E(2)])
  have top: "sdb_ok s" "top_dao s = GetPrivate base_dao" "CurrentStore s = Some (last (layers s))"
    by (simp_all add: run(2) sdb_ok_def layers_def NewStateDB_def clone_def CurrentStore_def)
  obtain d where "ledger_SetNonce (replicate 20 7) 1 (top_dao s) = Some d"
    using PutStorageItem_total [of "GetPrivate base_dao" "createNonceKey (replicate 20 7)"]
    by (auto simp: ledger_SetNonce_def top key_eqs)
  then obtain s1 where s1: "sdb_SetNonce (replicate 20 7) 1 s = Some s1"
    using on_simple_total [OF top(1), of "ledger_SetNonce (replicate 20 7) 1"] by (auto simp: sdb_SetNonce_def)
  have s1ok: "sdb_ok s1" using s1 set_current_layers(1) [OF top(1)] top(1) by (auto simp: sdb_SetNonce_def elim: on_simple_top)
  have "sdb_GetNonce s (replicate 20 7) = Some 0"
    by (simp add: sdb_GetNonce_def from_simple_def top ledger_GetNonce_def key_eqs empty_dao)
  then obtain s2 where s2: "settle_tx tiny_tx_lib demo_exec_lib demo_chain genesis_header (NeoTx idle_tx) (Coinbase E) 0 8 8 s = Some s2"
    using s1 s1ok
    by (simp add: settle_tx_def genesis_header_def first_header_def idle_tx_def Let_def sdb_GetRefund_def CurrentStore_last
        sdb_SubBalance_def on_simple_def on_store_def gas_SubBalance_def addTokens_def)
  have "bc_FeePerByte demo_chain = Some 0" "CalculateNetworkFee tiny_tx_lib (NeoTx idle_tx) 0 = Some 0"
      "ch_dao demo_chain = NewSimple (MemoryStore NewMemoryStore)" "Gas idle_tx = 8" "sdb_GetLogs s = Some (logs (last (layers s)))"
    by (simp_all add: demo_chain_def idle_tx_def bc_FeePerByte_def GetFeePerByte_def sdb_GetLogs_def top(3))
  then show ?thesis using E(1) run(1) s2 by (simp add: execute_block_def execute_tx_def)
qed

lemma demo_books: "books (ch_dao demo_chain)"
  using empty_books by (simp add: demo_chain_def)

theorem block_keeps_supply_witness:
  "\<exists>rs s cg li b. execute_block tiny_tx_lib demo_exec_lib demo_chain genesis_header [NeoTx idle_tx] = Some (rs, s, cg, li) \<and>
     memStores s = [] \<and> recorded (Simple (ps s)) = (\<Sum>a \<in> all_addresses. b a)"
proof -
  obtain rs s cg li where x: "execute_block tiny_tx_lib demo_exec_lib demo_chain genesis_header [NeoTx idle_tx] = Some (rs, s, cg, li)"
    using idle_block by blast
  have "\<forall>tx \<in> set [NeoTx idle_tx]. word_amounts tiny_tx_lib tx" by (simp add: word_amounts_def idle_tx_def)
  from block_keeps_supply [OF x demo_books this] x show ?thesis by blast
qed

theorem block_receipts_witness:
  "\<exists>r s cg li. execute_block tiny_tx_lib demo_exec_lib demo_chain genesis_header [NeoTx idle_tx] = Some ([r], s, cg, li) \<and>
     r_TransactionIndex r = 0 \<and> r_CumulativeGasUsed r = r_GasUsed r"
proof -
  obtain rs s cg li where x: "execute_block tiny_tx_lib demo_exec_lib demo_chain genesis_header [NeoTx idle_tx] = Some (rs, s, cg, li)"
    using idle_block by blast
  note r = block_receipts [OF x]
  then obtain r where "rs = [r]" by (cases rs) auto
  with r x show ?thesis by auto
qed

section \<open>Gas\<close>

lemma code_short:
  assumes "mgmt_GetCode d a = Some c"
  shows "length c \<le> MaxArraySize"
proof -
  have *: "length (or_nil (fst (ReadVarBytes MaxArraySize r))) \<le> MaxArraySize" for r
    using ReadVarBytes_length [of MaxArraySize r] by (cases "ReadVarBytes MaxArraySize r") (auto simp: or_nil_def MaxArraySize_def split: option.split)
  have "length (sc_Code x) \<le> MaxArraySize" if "FromByteArray decode_contract b = (x, None)" for b x
    using that * by (auto simp: FromByteArray_def decode_contract_def split: prod.splits) (metis fst_conv)
  then show ?thesis
    using assms by (auto simp: mgmt_GetCode_def GetContract_def split: bind_splits option.splits prod.splits)
qed

lemma sdb_small_code: "small_code (NewEVM lib cfg nt bctx origin price)"
proof -
  have "length c < slice_bound" if "sdb_GetCode s a = Some c" for s a c
  proof -
    have "length c \<le> MaxArraySize"
      using that code_short by (auto simp: sdb_GetCode_def from_simple_def split: bind_splits)
    moreover have "MaxArraySize < slice_bound" by (simp add: MaxArraySize_def)
    ultimately show ?thesis by (rule le_less_trans)
  qed
  then show ?thesis by (simp add: small_code_def)
qed

lemma run_tx_result:
  assumes "prices_ok (l_prices (ch_vm bc))" and "length (tx_Data T tx) < slice_bound" and "tx_context T bc h tx = Some E"
    and "run_tx T X E tx gs s = Some (a, r)"
  shows "result_ok gs r"
proof -
  obtain cs ic bctx where E: "E = NewEVM (ch_vm bc) (ch_cfg bc) (native_contracts cs ic) bctx (tx_From tx) (tx_GasPrice T tx)"
    using assms(3) by (auto simp: tx_context_def NewContext_def Let_def intro: that)
  have "current E" "IsMerge (chainRules E)"
    using assms(1) sdb_small_code unfolding E by (simp_all add: current_def all_forks_def NewEVM_def)
  note ok = evm_results [OF this assms(2) lessI]
  then show ?thesis using assms(4) by (auto simp: run_tx_def Let_def split: option.splits) (metis snd_conv)
qed

lemma fee_between:
  fixes g n l :: u64
  assumes "n \<le> g" and "l \<le> g - n"
  shows "n \<le> g - l \<and> g - l \<le> g"
proof -
  have n: "uint n \<le> uint g" "uint l \<le> uint g - uint n" using assms by (simp_all add: word_le_def uint_sub_if')
  moreover from n have "uint l \<le> uint g" using uint_ge_0 [of n] by linarith
  ultimately show ?thesis by (simp add: word_le_def uint_sub_if')
qed

text \<open>
  C15. Every transaction of a block ends: the run never needs more than one step per unit of the gas
  that is left after the network fee. It gives back no more gas than it got, and the receipt charges
  the gas limit less what was given back. So for a transaction whose network fee is within its gas
  limit, as \<open>verifyAndPoolTx\<close> demands, the charge is at least the network fee and at most the limit.
  For others, which \<open>storeBlock\<close> does not exclude, the gas of the run wraps around and nothing bounds
  the charge.
\<close>

theorem tx_gas_bounds:
  assumes "prices_ok (l_prices (ch_vm bc))" and "length (tx_Data T tx) < 2 ^ 63"
    and "bc_FeePerByte bc = Some perByte" and "CalculateNetworkFee T tx perByte = Some netFee"
    and "tx_context T bc h tx = Some E"
  shows "run_tx T X E tx (tx_Gas T tx - netFee) s \<noteq> Some (a, RunNoFuel) \<and>
    (execute_tx T X bc h i tx (s, cg, li) = Some (r, l) \<longrightarrow>
      (\<exists>left \<le> tx_Gas T tx - netFee. r_GasUsed r = tx_Gas T tx - left) \<and>
      (netFee \<le> tx_Gas T tx \<longrightarrow> netFee \<le> r_GasUsed r \<and> r_GasUsed r \<le> tx_Gas T tx))"
proof -
  note ok = run_tx_result [OF assms(1,2,5)]
  have "run_tx T X E tx (tx_Gas T tx - netFee) s \<noteq> Some (a, RunNoFuel)"
    using ok by fastforce
  moreover have "(\<exists>left \<le> tx_Gas T tx - netFee. r_GasUsed r = tx_Gas T tx - left) \<and>
      (netFee \<le> tx_Gas T tx \<longrightarrow> netFee \<le> r_GasUsed r \<and> r_GasUsed r \<le> tx_Gas T tx)"
    if x: "execute_tx T X bc h i tx (s, cg, li) = Some (r, l)"
  proof -
    obtain a err ret left e where "run_tx T X E tx (tx_Gas T tx - netFee) s = Some (a, Ran err ret left e)"
        and used: "r_GasUsed r = tx_Gas T tx - left"
      using x assms(3-5) by (auto simp: execute_tx_def Let_def split: bind_splits run_result.splits)
    then have "left \<le> tx_Gas T tx - netFee" using ok by fastforce
    then show ?thesis using fee_between used by auto
  qed
  ultimately show ?thesis by blast
qed

theorem tx_gas_bounds_witness:
  "\<exists>E r l. tx_context tiny_tx_lib demo_chain genesis_header (NeoTx idle_tx) = Some E \<and>
     run_tx tiny_tx_lib demo_exec_lib E (NeoTx idle_tx) 8 (NewStateDB base_dao) \<noteq> Some (zero_address, RunNoFuel) \<and>
     execute_tx tiny_tx_lib demo_exec_lib demo_chain genesis_header 0 (NeoTx idle_tx) (NewStateDB base_dao, 0, 0) = Some (r, l) \<and>
     r_GasUsed r \<le> 8"
proof -
  obtain E where E: "tx_context tiny_tx_lib demo_chain genesis_header (NeoTx idle_tx) = Some E" using idle_context by blast
  obtain r l where x: "execute_tx tiny_tx_lib demo_exec_lib demo_chain genesis_header 0 (NeoTx idle_tx) (NewStateDB base_dao, 0, 0) = Some (r, l)"
    using idle_block by (auto simp: execute_block_def demo_chain_def split: bind_splits)
  have fee: "bc_FeePerByte demo_chain = Some 0" "CalculateNetworkFee tiny_tx_lib (NeoTx idle_tx) 0 = Some 0"
      "prices_ok (l_prices (ch_vm demo_chain))" "tx_Gas tiny_tx_lib (NeoTx idle_tx) = 8" "length (tx_Data tiny_tx_lib (NeoTx idle_tx)) < 2 ^ 63"
    by (simp_all add: demo_chain_def idle_tx_def bc_FeePerByte_def GetFeePerByte_def demo_vm_lib_def geth_prices_ok)
  from tx_gas_bounds [OF fee(3,5,1,2) E, of demo_exec_lib "NewStateDB base_dao" zero_address 0 0 0 r l] fee(4) x E
  show ?thesis by (cases l) auto
qed

end
