(* ===== verification/Spec2Isabelle.thy ===== *)
theory Spec2Isabelle
  imports BinIO StorageSeek MptProof MptBatch DbftProps TxVerification Dao BridgeProps BlockExecProps
begin

text \<open>
  A verification of neo-go-evm (src/), a Go node of an EVM-compatible chain with dBFT consensus.

  \<^bold>\<open>The program.\<close> Validators agree on blocks with the dBFT protocol (src/pkg/dbft, driven by
  src/pkg/consensus), exchanging payloads in the binary format of src/pkg/io inside the extensible
  messages of src/pkg/network/payload. Transactions (src/pkg/core/transaction) are authorised by
  witnesses, signatures under scripts of public keys (src/pkg/crypto), checked by the ledger
  (src/pkg/core/blockchain.go) and kept in the memory pool (src/pkg/core/mempool) until a block
  takes them. The virtual machine (src/pkg/vm) then executes them on the state database
  (src/pkg/core/statedb), a stack of caching layers over the data access object (src/pkg/core/dao),
  and calls the native contracts (src/pkg/core/native) through the contexts of src/pkg/core/interop.
  The state is a key-value store (src/pkg/core/storage) whose contents are authenticated by a
  Merkle-Patricia trie (src/pkg/core/mpt); the transactions of a block and other lists of hashes are
  authenticated by Merkle trees (src/pkg/crypto/hash).

  \<^bold>\<open>Theories and sources.\<close>
  \<^item> Prelude: machine types, endian conversions, generic lemmas.
  \<^item> BinIO (src/pkg/io): readers with a sticky error, buffer writers, variable-length integers,
    arrays and the size predictor. Locale for a codec of array elements.
  \<^item> Storage, StorageSeek (src/pkg/core/storage): MemoryStore, MemCachedStore, the merging iteration
    and the three phases of Persist. Locale for a store with writers.
  \<^item> MptNode, MptTrie, MptProof, MptBatch (src/pkg/core/mpt): nodes with their encoding and hashes,
    the trie over a store with reference counts, proofs and batches. MptSpec is the abstract trie,
    MptRefine the simulation between them, MptProps the resulting interface (a locale for an
    authenticated map, interpreted on the trie).
  \<^item> ConsensusPayload (src/pkg/consensus/*.go, src/pkg/network/payload/extensible.go): all consensus
    messages with encoders, decoders, hashes and recovery messages.
  \<^item> Dbft (src/pkg/dbft, src/pkg/consensus/consensus.go): a node as a record, every handler as a
    function that returns the new node or a panic, outside effects as a trace. DbftTrace shows that the
    trace only grows, DbftSafety proves the invariant of the event loop, DbftProps the properties of
    nodes and committees.
  \<^item> Merkle (src/pkg/crypto/hash/merkle_tree.go, src/pkg/dbft/merkle).
  \<^item> BigInt (the byte conversions of math/big), PublicKeys, Witnesses (src/pkg/crypto/keys,
    src/pkg/crypto/util.go, src/pkg/core/transaction/witness.go).
  \<^item> Transactions (src/pkg/core/transaction), Mempool and MempoolProps (src/pkg/core/mempool),
    TxVerification (src/pkg/core/blockchain.go, from verifyAndPoolTx to PoolTxWithData).
  \<^item> Blocks (src/pkg/core/block, src/pkg/core/state/mpt_root.go): headers, blocks, their binary and
    trimmed forms. Dao (src/pkg/core/dao): the records of the chain over a caching store.
  \<^item> EvmBase, EvmGas, EvmAnalysis, EvmCalls, EvmInstr, EvmExec, EvmTable, EvmRun, EvmMeter (src/pkg/vm):
    the machine over an abstract database, a record of functions. Words, stack, memory, gas
    functions, jump analysis, one function per instruction, the tables of the instruction sets, the
    interpreter loop and the calls and creations. EvmSafety and EvmProps prove what holds for every
    database; EvmState is the locale \<open>db_closed\<close> that carries a property of the database through runs.
  \<^item> NativeAccounts (src/pkg/core/native/gas.go, ledger.go, management.go, util.go,
    src/pkg/core/state/contract.go), AccessList and StateDb (src/pkg/core/statedb), Interop
    (src/pkg/core/interop): balances and supply, nonces, code, the layers of the database and the
    construction of the machine on them.
  \<^item> NativeContracts (src/pkg/core/native/contracts.go, designate.go, policy.go), Bridge
    (src/pkg/core/native/bridge.go): the calls of the native contracts as functions of the top layer.
  \<^item> StateDbProps, NativeProps, ExecutionProps, StateCommit, BridgeProps: what runs of the machine with
    the native contracts do to the database. The locales \<open>native_frame\<close> and \<open>dao_closed\<close> state what a
    property of a layer needs; each property is an interpretation.
  \<^item> BlockExecution (the loop of storeBlock in src/pkg/core/blockchain.go): the transactions of a block
    run one after the other, are charged, rewarded and committed. BlockExecProps proves what a whole
    block does to the books and what its receipts say.

  \<^bold>\<open>Correspondence.\<close> A Go struct is a record with the fields' names, an interface with known
  implementations a datatype, a method a function of the record that returns the changed record.
  Fixed-width integers are words; big.Int is \<open>int\<close>. Slices and big.Int are values; where the code
  writes into words that a copy shares and this is seen later (\<open>checkTxConflicts\<close> of the pool) the
  model writes the shared record, and the one place where sharing is left out (keys of the trie after
  \<open>PutBatch\<close>) is named in MptTrie. Panics (failed type assertions, indices out of
  range, nil dereferences, explicit panics) are error values like returned errors, so a theorem that
  an operation succeeds also says that it does not panic. Locks appear only as the atomicity of
  operations; where the code releases a lock in between (Persist, the event loop) the parts are
  separate steps that other steps may interleave. Hash functions, signature verification, the
  elliptic curves, go-ethereum's transactions, gas prices and ABI encoding, the divisions and
  exponentiation of the 256-bit integers and the precompiled contracts are third-party code: they
  are parameters, and what a theorem needs of them is one of its hypotheses.

  \<^bold>\<open>What is proved.\<close> Consensus: a node signs one header per height in every run in which its
  ledger refuses no block it hands over, no transaction arrives late and blocks are announced after
  the ledger has them; then two headers of one height signed by M validators are equal as long as at
  most F validators are faulty. That these conditions are needed is shown by runs in which a node
  signs twice (a late transaction, commits that are never verified). Trie: functional correctness of
  get, put, delete and batches over a store, independence of the state root from history, exact
  reference counts, soundness and completeness of proofs. Storage: iteration shows the visible
  entries in order, no read between or after the steps of Persist notices it. Codecs: round trips of messages and
  transactions. Witnesses: when a multisignature is accepted. Pool: its invariant over RemoveStale
  and over Add below capacity without a replacement, and what happens when it is full or a
  transaction is replaced. Ledger: what a pooled transaction has passed, that
  a stored transaction is found again. Virtual machine: every run ends, creates no gas and panics
  only for reasons of its database, of the bodies of native and precompiled contracts, of the access
  list or of a missing block hash function; the jump analysis is exact. Execution: a failed call leaves no
  trace, a static call changes no storage, the recorded supply of GAS is the sum of the balances, a
  committed state is the state last seen, the access list is a set, a deposit is minted at most once.
  Blocks: every transaction ends within its gas and, if its network fee is within its limit, is
  charged between the two, what settling it does to all balances, receipts follow the transactions, a whole block keeps the supply equal to the balances.
  Where the code does not do what it means to (SELFDESTRUCT, BLOCKHASH, refunds, the bridge's joints
  and others) the theorem states what it does.

  \<^bold>\<open>Fuel.\<close> The recursion of the trie over the store is bounded by fuel, since a store may hold
  cyclic hash nodes; the theorems on Get, Put, Delete and batches state that fuel linear in the key
  is enough, and one theorem shows that VerifyProof can run forever on a hostile proof. The bridge
  passes such a fuel (\<open>b_fuel\<close>) to VerifyProof; its properties hold for every value. The interpreter
  has fuel for its steps and for nested calls; fuel above the gas is always
  enough, and BlockExecution runs each transaction with one step more than its gas.

  \<^bold>\<open>Not modelled.\<close> The tracer of the machine and the bodies of the precompiled contracts, which wrap
  cryptographic libraries; the JSON forms; the rest of the ledger (headers, the trie
  batch and the receipts of a block, garbage collection) and of the state root service; the billet of the trie;
  networking, RPC, wallets, configuration and the command line, which are input and output around
  the parts above.
\<close>

end
